(* ===== verification/Prelude.thy ===== *)
theory Prelude
  imports Complex_Main "HOL-Library.AList" "HOL-Library.Char_ord"
    "HOL-Library.List_Lexorder" "HOL-Library.Word"
begin

text \<open>
  Shared vocabulary of the development: the lemma collections the component theories
  fill, Python's ordered dictionaries as association lists, the slices and counters the
  components share, and the ASCII string methods they call.

  A Python \<open>dict\<close> or \<open>OrderedDict\<close> is an association list with distinct keys in
  insertion order: \<open>d[k] = v\<close> is \<open>AList.update k v d\<close> (an existing key keeps its
  place, a new one goes to the end), \<open>del d[k]\<close> is \<open>AList.delete k d\<close>,
  \<open>d.get(k)\<close> is \<open>map_of d k\<close>.
\<close>

named_theorems guard_defs \<comment> \<open>definitions of guards and checks, unfolded together\<close>
named_theorems step_defs \<comment> \<open>definitions of handlers and steps\<close>

type_synonym byte = "8 word"
type_synonym bytes = "byte list"

subsection \<open>Ordered dictionaries\<close>

text \<open>\<open>d[k] = v; d.move_to_end(k)\<close>\<close>

definition od_touch :: "'k \<Rightarrow> 'v \<Rightarrow> ('k \<times> 'v) list \<Rightarrow> ('k \<times> 'v) list" where
  "od_touch k v d = AList.delete k d @ [(k, v)]"

text \<open>\<open>while len(d) > n: d.popitem(last=False)\<close>, and the slice \<open>xs[-n:]\<close> for \<open>n \<ge> 1\<close>\<close>

definition last_n :: "nat \<Rightarrow> 'a list \<Rightarrow> 'a list" where
  "last_n n xs = drop (length xs - n) xs"

lemma length_last_n [simp]: "length (last_n n xs) = min n (length xs)"
  by (simp add: last_n_def)

lemma set_last_n: "set (last_n n xs) \<subseteq> set xs"
  by (simp add: last_n_def set_drop_subset)

lemma last_n_id [simp]: "length xs \<le> n \<Longrightarrow> last_n n xs = xs"
  by (simp add: last_n_def)

lemma last_n_snoc: "0 < n \<Longrightarrow> last_n n (xs @ [x]) = last_n (n - 1) xs @ [x]"
  by (cases "length xs < n") (auto simp: last_n_def Suc_diff_le)

lemma last_n_snoc_in: "0 < n \<Longrightarrow> x \<in> set (last_n n (xs @ [x]))"
  by (simp add: last_n_snoc)

lemma distinct_map_last_n: "distinct (map f xs) \<Longrightarrow> distinct (map f (last_n n xs))"
  by (simp add: last_n_def drop_map [symmetric])

lemma map_of_last_n_sub:
  assumes "distinct (map fst xs)" and "map_of (last_n n xs) k = Some v"
  shows "map_of xs k = Some v"
  using assms map_of_SomeD [OF assms(2)] set_last_n [of n xs]
  by (auto intro!: map_of_is_SomeI)

lemma delete_as_filter: "AList.delete k d = filter (\<lambda>(k', _). k \<noteq> k') d"
  by (induction d) auto

lemma length_delete_le: "length (AList.delete k d) \<le> length d"
  by (simp add: AList.length_delete_le)

lemma length_delete_present:
  "distinct (map fst d) \<Longrightarrow> map_of d k = Some v \<Longrightarrow> length (AList.delete k d) = length d - 1"
proof (induction d)
  case (Cons p d)
  obtain a b where p: "p = (a, b)" by (cases p)
  show ?case
  proof (cases "a = k")
    case True
    with Cons.prems p have "AList.delete k d = d"
      by (auto simp: AList.delete_idem)
    with True p show ?thesis by simp
  next
    case False
    with Cons p have "length (AList.delete k d) = length d - 1" "d \<noteq> []"
      by auto
    with False p show ?thesis by (cases d) auto
  qed
qed simp

lemma map_of_delete_other [simp]: "k \<noteq> k' \<Longrightarrow> map_of (AList.delete k d) k' = map_of d k'"
  by (simp add: AList.delete_conv)

lemma map_of_delete_same [simp]: "map_of (AList.delete k d) k = None"
  by (simp add: AList.delete_conv)

lemma map_of_update [simp]: "map_of (AList.update k v d) = (map_of d)(k \<mapsto> v)"
  by (simp add: AList.update_conv fun_eq_iff)

lemma map_of_od_touch [simp]: "map_of (od_touch k v d) = (map_of d)(k \<mapsto> v)"
  by (rule ext) (auto simp: od_touch_def map_add_def AList.delete_conv split: option.splits)

lemma keys_delete: "fst ` set (AList.delete k d) = fst ` set d - {k}"
  by (induction d) auto

lemma distinct_od_touch: "distinct (map fst d) \<Longrightarrow> distinct (map fst (od_touch k v d))"
  using keys_delete [of k d] by (auto simp: od_touch_def AList.distinct_delete)

lemma distinct_keys_update: "distinct (map fst d) \<Longrightarrow> distinct (map fst (AList.update k v d))"
  by (rule AList.distinct_update)

lemma length_od_touch_le: "length (od_touch k v d) \<le> Suc (length d)"
  by (simp add: od_touch_def AList.length_delete_le)

lemma length_update_present:
  "map_of d k = Some w \<Longrightarrow> length (AList.update k v d) = length d"
  by (induction d) (auto split: if_splits)

lemma length_update_absent:
  "map_of d k = None \<Longrightarrow> length (AList.update k v d) = Suc (length d)"
  by (induction d) (auto split: if_splits)

lemma update_absent: "map_of d k = None \<Longrightarrow> AList.update k v d = d @ [(k, v)]"
  by (induction d) (auto split: if_splits)

subsection \<open>Counters that wrap at 32 bits\<close>

text \<open>\<open>n & 0xFFFFFFFF\<close> on a non-negative integer\<close>

definition u32_mask :: "nat \<Rightarrow> nat" where
  "u32_mask n = n mod 2 ^ 32"

lemma u32_mask_lt [simp]: "u32_mask n < 2 ^ 32"
  by (simp add: u32_mask_def)

lemma u32_mask_le [simp]: "u32_mask n \<le> 4294967295"
  using u32_mask_lt [of n] by simp

lemma u32_mask_id: "n < 2 ^ 32 \<Longrightarrow> u32_mask n = n"
  by (simp add: u32_mask_def)

subsection \<open>Bytes\<close>

lemma unat_byte_lt: "unat (b :: byte) < 256"
  using unsigned_less [of b] by simp

subsection \<open>ASCII case mapping and stripping\<close>

definition char_lower :: "char \<Rightarrow> char" where
  "char_lower c = (let n = (of_char c :: nat) in
     if 65 \<le> n \<and> n \<le> 90 then char_of (n + 32) else c)"

definition char_upper :: "char \<Rightarrow> char" where
  "char_upper c = (let n = (of_char c :: nat) in
     if 97 \<le> n \<and> n \<le> 122 then char_of (n - 32) else c)"

definition py_lower :: "string \<Rightarrow> string" where
  "py_lower = map char_lower"

definition py_upper :: "string \<Rightarrow> string" where
  "py_upper = map char_upper"

definition is_space :: "char \<Rightarrow> bool" where
  "is_space c = (let n = (of_char c :: nat) in n = 32 \<or> (9 \<le> n \<and> n \<le> 13) \<or> (28 \<le> n \<and> n \<le> 31)
     \<or> n = 133 \<or> n = 160)"

definition py_lstrip :: "string \<Rightarrow> string" where
  "py_lstrip = dropWhile is_space"

definition py_strip :: "string \<Rightarrow> string" where
  "py_strip s = rev (dropWhile is_space (rev (dropWhile is_space s)))"

definition starts_with :: "string \<Rightarrow> string \<Rightarrow> bool" where
  "starts_with p s \<longleftrightarrow> take (length p) s = p"

definition is_lower_hex :: "char \<Rightarrow> bool" where
  "is_lower_hex c \<longleftrightarrow> c \<in> set ''0123456789abcdef''"

subsection \<open>Check lists\<close>

text \<open>
  A validator is a list of checks run in order; the first one that fails raises. \<open>None\<close>
  means that every check passed.
\<close>

fun first_error :: "'e option list \<Rightarrow> 'e option" where
  "first_error [] = None"
| "first_error (None # cs) = first_error cs"
| "first_error (Some e # cs) = Some e"

definition unless :: "bool \<Rightarrow> 'e \<Rightarrow> 'e option" where
  "unless ok e = (if ok then None else Some e)"

lemma first_error_None_iff: "first_error cs = None \<longleftrightarrow> (\<forall>c \<in> set cs. c = None)"
  by (induction cs rule: first_error.induct) auto

lemma first_error_Cons: "first_error (c # cs) = (case c of None \<Rightarrow> first_error cs | Some e \<Rightarrow> Some e)"
  by (cases c) auto

lemma first_error_append:
  "first_error (cs @ ds) = (case first_error cs of None \<Rightarrow> first_error ds | Some e \<Rightarrow> Some e)"
  by (induction cs rule: first_error.induct) auto

lemma unless_None [simp]: "unless ok e = None \<longleftrightarrow> ok"
  by (simp add: unless_def)

lemma unless_Some [simp]: "unless ok e = Some e' \<longleftrightarrow> \<not> ok \<and> e' = e"
  by (auto simp: unless_def)

lemma unless_True [simp]: "unless True e = None"
  by (simp add: unless_def)

lemma unless_False [simp]: "unless False e = Some e"
  by (simp add: unless_def)

end
