(* ===== verification/PyValue.thy ===== *)
theory PyValue
  imports Prelude
begin

text \<open>
  The Python values that travel on the wire: the result of \<open>json.loads\<close>. An integer is
  unbounded; a finite float is the decimal its \<open>repr\<close> shows, \<open>Fin m e\<close> for
  \<open>m * 10 ^ e\<close>, so rounding is not modelled; a string is a list of code points below 256;
  an object is an association list in insertion order.

  \<open>py_eq\<close> is Python's \<open>==\<close> on such values: booleans, integers and floats compare by
  number, objects do not depend on the order of their keys.
\<close>

datatype pyfloat = Fin int int | PInf | NInf | NaN

datatype json =
    JNull
  | JBool bool
  | JInt int
  | JFloat pyfloat
  | JStr string
  | JArr "json list"
  | JObj "(string \<times> json) list"

type_synonym pydict = "(string \<times> json) list"

text \<open>The exceptions the shared protocol raises; a validator returns the first one raised.\<close>

datatype pyexc = TypeError string | ValueError string | OverflowError string

subsection \<open>Numbers\<close>

definition dec_val :: "int \<Rightarrow> int \<Rightarrow> real" where
  "dec_val m e = (if 0 \<le> e then of_int m * 10 ^ nat e else of_int m / 10 ^ nat (- e))"

fun float_finite :: "pyfloat \<Rightarrow> bool" where
  "float_finite (Fin m e) = True"
| "float_finite _ = False"

fun num_val :: "json \<Rightarrow> real option" where
  "num_val (JBool b) = Some (if b then 1 else 0)"
| "num_val (JInt i) = Some (of_int i)"
| "num_val (JFloat (Fin m e)) = Some (dec_val m e)"
| "num_val _ = None"

text \<open>\<open>isinstance(v, (int, float))\<close> after the \<open>isinstance(v, bool)\<close> guard\<close>

fun is_number :: "json \<Rightarrow> bool" where
  "is_number (JInt i) = True"
| "is_number (JFloat x) = True"
| "is_number _ = False"

fun is_int :: "json \<Rightarrow> bool" where
  "is_int (JInt i) = True"
| "is_int _ = False"

fun is_bool :: "json \<Rightarrow> bool" where
  "is_bool (JBool b) = True"
| "is_bool _ = False"

fun is_str :: "json \<Rightarrow> bool" where
  "is_str (JStr s) = True"
| "is_str _ = False"

fun is_obj :: "json \<Rightarrow> bool" where
  "is_obj (JObj d) = True"
| "is_obj _ = False"

fun is_list :: "json \<Rightarrow> bool" where
  "is_list (JArr xs) = True"
| "is_list _ = False"

text \<open>\<open>math.isfinite\<close> of a number\<close>

fun is_finite_num :: "json \<Rightarrow> bool" where
  "is_finite_num (JInt i) = True"
| "is_finite_num (JFloat x) = float_finite x"
| "is_finite_num _ = False"

text \<open>
  \<open>math.isfinite\<close> converts its argument to a float first; an integer that rounds to
  \<open>2 ^ 1024\<close> or more raises OverflowError, which is no ValueError.
\<close>

fun float_overflow :: "json \<Rightarrow> bool" where
  "float_overflow (JInt i) = (2 ^ 1024 - 2 ^ 970 \<le> \<bar>i\<bar>)"
| "float_overflow _ = False"

fun int_of :: "json \<Rightarrow> int" where
  "int_of (JInt i) = i"
| "int_of _ = 0"

fun str_of :: "json \<Rightarrow> string" where
  "str_of (JStr s) = s"
| "str_of _ = []"

fun dict_of :: "json \<Rightarrow> pydict" where
  "dict_of (JObj d) = d"
| "dict_of _ = []"

fun bool_of :: "json \<Rightarrow> bool" where
  "bool_of (JBool b) = b"
| "bool_of _ = False"

fun list_of :: "json \<Rightarrow> json list" where
  "list_of (JArr xs) = xs"
| "list_of _ = []"

definition real_of :: "json \<Rightarrow> real" where
  "real_of v = (case num_val v of Some x \<Rightarrow> x | None \<Rightarrow> 0)"

subsection \<open>Dictionary access\<close>

text \<open>
  \<open>has d k\<close> is \<open>k in d\<close>; \<open>fld d k\<close> is \<open>d[k]\<close> on a present key. The code reads
  a key without a default only after a check that it is present, and the validators'
  soundness lemmas show that \<open>fld\<close>'s other branch is then not reached.
\<close>

definition has :: "pydict \<Rightarrow> string \<Rightarrow> bool" where
  "has d k \<longleftrightarrow> map_of d k \<noteq> None"

definition fld :: "pydict \<Rightarrow> string \<Rightarrow> json" where
  "fld d k = (case map_of d k of Some v \<Rightarrow> v | None \<Rightarrow> JNull)"

definition get_or :: "pydict \<Rightarrow> string \<Rightarrow> json \<Rightarrow> json" where
  "get_or d k v = (case map_of d k of Some w \<Rightarrow> w | None \<Rightarrow> v)"

lemma has_Cons [simp]: "has ((k, v) # d) k' \<longleftrightarrow> k = k' \<or> has d k'"
  by (auto simp: has_def)

lemma has_Nil [simp]: "\<not> has [] k"
  by (simp add: has_def)

lemma fld_Cons [simp]: "fld ((k, v) # d) k' = (if k = k' then v else fld d k')"
  by (simp add: fld_def)

lemma get_or_Cons [simp]: "get_or ((k, v) # d) k' w = (if k = k' then v else get_or d k' w)"
  by (simp add: get_or_def)

lemma get_or_Nil [simp]: "get_or [] k w = w"
  by (simp add: get_or_def)

lemma has_iff_key: "has d k \<longleftrightarrow> k \<in> fst ` set d"
  by (metis domIff dom_map_of_conv_image_fst has_def)

lemma map_of_fld: "has d k \<Longrightarrow> map_of d k = Some (fld d k)"
  by (auto simp: has_def fld_def)

lemma fld_map_of: "map_of d k = Some v \<Longrightarrow> fld d k = v"
  by (simp add: fld_def)

lemma fld_has: "fld d k \<noteq> JNull \<Longrightarrow> has d k"
  by (auto simp: fld_def has_def split: option.splits)

lemma is_str_iff: "is_str v \<longleftrightarrow> (\<exists>s. v = JStr s)"
  by (cases v) auto

lemma is_int_iff: "is_int v \<longleftrightarrow> (\<exists>i. v = JInt i)"
  by (cases v) auto

lemma is_obj_iff: "is_obj v \<longleftrightarrow> (\<exists>d. v = JObj d)"
  by (cases v) auto

lemma is_bool_iff: "is_bool v \<longleftrightarrow> (\<exists>b. v = JBool b)"
  by (cases v) auto

lemma is_finite_num_val: "is_number v \<Longrightarrow> is_finite_num v \<Longrightarrow> num_val v = Some (real_of v)"
  by (cases v rule: num_val.cases) (auto simp: real_of_def)

subsection \<open>Equality and well-formedness\<close>

fun py_eq :: "json \<Rightarrow> json \<Rightarrow> bool"
  and py_eq_list :: "json list \<Rightarrow> json list \<Rightarrow> bool"
  and py_sub_obj :: "pydict \<Rightarrow> pydict \<Rightarrow> bool" where
  "py_eq JNull w = (w = JNull)"
| "py_eq (JStr s) w = (w = JStr s)"
| "py_eq (JArr xs) w = (case w of JArr ys \<Rightarrow> py_eq_list xs ys | _ \<Rightarrow> False)"
| "py_eq (JObj d) w = (case w of JObj d' \<Rightarrow> length d = length d' \<and> py_sub_obj d d' | _ \<Rightarrow> False)"
| "py_eq (JFloat PInf) w = (w = JFloat PInf)"
| "py_eq (JFloat NInf) w = (w = JFloat NInf)"
| "py_eq (JFloat NaN) w = False"
| "py_eq v w = (num_val w \<noteq> None \<and> num_val v = num_val w)"
| "py_eq_list [] ys = (ys = [])"
| "py_eq_list (x # xs) ys = (case ys of [] \<Rightarrow> False | y # ys' \<Rightarrow> py_eq x y \<and> py_eq_list xs ys')"
| "py_sub_obj [] d' = True"
| "py_sub_obj ((k, v) # d) d' =
     ((case map_of d' k of None \<Rightarrow> False | Some w \<Rightarrow> py_eq v w) \<and> py_sub_obj d d')"

definition dict_eq :: "pydict \<Rightarrow> pydict \<Rightarrow> bool" where
  "dict_eq d d' \<longleftrightarrow> length d = length d' \<and> py_sub_obj d d'"

text \<open>Values as \<open>json.loads\<close> builds them: distinct keys; \<open>json_plain\<close> also has no NaN.\<close>

fun json_wf :: "json \<Rightarrow> bool" where
  "json_wf (JArr xs) = (\<forall>x \<in> set xs. json_wf x)"
| "json_wf (JObj d) = (distinct (map fst d) \<and> (\<forall>p \<in> set d. json_wf (snd p)))"
| "json_wf _ = True"

fun json_finite :: "json \<Rightarrow> bool" where
  "json_finite (JArr xs) = (\<forall>x \<in> set xs. json_finite x)"
| "json_finite (JObj d) = (\<forall>p \<in> set d. json_finite (snd p))"
| "json_finite (JFloat x) = float_finite x"
| "json_finite _ = True"

lemma float_finite_iff: "float_finite x \<longleftrightarrow> (\<exists>m e. x = Fin m e)"
  by (cases x) auto

lemma py_eq_refl_aux:
  "v = w \<Longrightarrow> json_wf v \<Longrightarrow> json_finite v \<Longrightarrow> py_eq v w"
  "xs = ys \<Longrightarrow> (\<forall>x \<in> set xs. json_wf x \<and> json_finite x) \<Longrightarrow> py_eq_list xs ys"
  "(\<forall>p \<in> set d. json_wf (snd p) \<and> json_finite (snd p) \<and> map_of d' (fst p) = Some (snd p)) \<Longrightarrow>
     py_sub_obj d d'"
proof (induction v w and xs ys and d d' rule: py_eq_py_eq_list_py_sub_obj.induct)
  case (4 d w)
  then show ?case by (auto simp: map_of_is_SomeI)
qed auto

lemma py_eq_refl: "json_wf v \<Longrightarrow> json_finite v \<Longrightarrow> py_eq v v"
  by (rule py_eq_refl_aux(1)) auto

lemma dict_eq_refl:
  assumes "json_wf (JObj d)" and "json_finite (JObj d)"
  shows "dict_eq d d"
  using py_eq_refl [OF assms] by (simp add: dict_eq_def)

end
