(* ===== verification/Messages.thy ===== *)
theory Messages
  imports PyValue
begin

text \<open>
  \<open>shared_protocol/messages.py\<close> and the \<open>MessageType\<close> enumeration of
  \<open>shared_protocol/frame.py\<close>: the typed payload validation of LIOT messages. A validator
  returns the exception it raises, if any; the checks run in the order of the code.
\<close>

subsection \<open>Message types\<close>

datatype message_type =
    COMMAND
  | MISSION_BEGIN
  | MISSION_ITEM
  | MISSION_COMMIT
  | ACK
  | NACK
  | STATUS
  | LINK_BLOCKED
  | AUTH_CHALLENGE
  | AUTH_RESPONSE

fun type_code :: "message_type \<Rightarrow> nat" where
  "type_code COMMAND = 1"
| "type_code MISSION_BEGIN = 2"
| "type_code MISSION_ITEM = 3"
| "type_code MISSION_COMMIT = 4"
| "type_code ACK = 5"
| "type_code NACK = 6"
| "type_code STATUS = 7"
| "type_code LINK_BLOCKED = 8"
| "type_code AUTH_CHALLENGE = 9"
| "type_code AUTH_RESPONSE = 10"

definition all_types :: "message_type list" where
  "all_types = [COMMAND, MISSION_BEGIN, MISSION_ITEM, MISSION_COMMIT, ACK, NACK, STATUS,
     LINK_BLOCKED, AUTH_CHALLENGE, AUTH_RESPONSE]"

text \<open>\<open>MessageType(n)\<close>: ValueError for a number that is no member\<close>

definition type_of_code :: "nat \<Rightarrow> message_type option" where
  "type_of_code n = find (\<lambda>t. type_code t = n) all_types"

lemma type_of_code_code [simp]: "type_of_code (type_code t) = Some t"
  by (cases t) (simp_all add: type_of_code_def all_types_def)

lemma type_code_inj: "type_code t = type_code t' \<longleftrightarrow> t = t'"
  by (metis option.inject type_of_code_code)

lemma type_code_lt [simp]: "type_code t < 256"
  by (cases t) simp_all

lemma type_of_code_Some: "type_of_code n = Some t \<Longrightarrow> type_code t = n"
  by (auto simp: type_of_code_def find_Some_iff)

text \<open>An \<open>IntEnum\<close> orders its members by their numbers.\<close>

instantiation message_type :: linorder
begin

definition less_eq_message_type :: "message_type \<Rightarrow> message_type \<Rightarrow> bool" where
  "less_eq_message_type a b \<longleftrightarrow> type_code a \<le> type_code b"

definition less_message_type :: "message_type \<Rightarrow> message_type \<Rightarrow> bool" where
  "less_message_type a b \<longleftrightarrow> type_code a < type_code b"

instance
  by standard (auto simp: less_eq_message_type_def less_message_type_def type_code_inj)

end

subsection \<open>Field checks\<close>

definition max_mission_items :: int where
  "max_mission_items = 100"

fun join_names :: "string list \<Rightarrow> string" where
  "join_names [] = []"
| "join_names [n] = n"
| "join_names (n # ns) = n @ '', '' @ join_names ns"

definition check_object :: "json \<Rightarrow> string list \<Rightarrow> string list \<Rightarrow> pyexc option" where
  "check_object payload required optional =
     (if \<not> is_obj payload then Some (TypeError ''payload must be an object'')
      else
        let d = dict_of payload;
            missing = filter (\<lambda>k. \<not> has d k) required;
            unknown = filter (\<lambda>k. k \<notin> set required \<union> set optional) (map fst d)
        in first_error
          [unless (missing = []) (ValueError (''missing fields: '' @ join_names (sort missing))),
           unless (unknown = []) (ValueError (''unknown fields: '' @ join_names (sort unknown)))])"

definition check_string :: "json \<Rightarrow> string \<Rightarrow> bool \<Rightarrow> pyexc option" where
  "check_string value name allow_empty = first_error
     [unless (is_str value) (TypeError (name @ '' must be a string'')),
      unless (allow_empty \<or> str_of value \<noteq> []) (ValueError (name @ '' must not be empty''))]"

definition check_uint32 :: "json \<Rightarrow> string \<Rightarrow> pyexc option" where
  "check_uint32 value name = first_error
     [unless (is_int value) (TypeError (name @ '' must be an integer'')),
      unless (0 \<le> int_of value \<and> int_of value \<le> 0xFFFFFFFF) (ValueError (name @ '' must fit uint32''))]"

definition check_uint16 :: "json \<Rightarrow> string \<Rightarrow> pyexc option" where
  "check_uint16 value name = first_error
     [check_uint32 value name,
      unless (int_of value \<le> 0xFFFF) (ValueError (name @ '' must fit uint16''))]"

definition is_sha_hex :: "string \<Rightarrow> bool" where
  "is_sha_hex s \<longleftrightarrow> length s = 64 \<and> list_all is_lower_hex s"

definition check_checksum :: "json \<Rightarrow> pyexc option" where
  "check_checksum value = first_error
     [check_string value ''checksum'' False,
      unless (is_sha_hex (str_of value)) (ValueError ''checksum must be lowercase SHA-256 hex'')]"

definition check_number :: "json \<Rightarrow> string \<Rightarrow> real option \<Rightarrow> real option \<Rightarrow> pyexc option" where
  "check_number value name minimum maximum = first_error
     [unless (is_number value) (TypeError (name @ '' must be a number'')),
      unless (\<not> float_overflow value) (OverflowError ''int too large to convert to float''),
      unless (is_finite_num value) (ValueError (name @ '' must be finite'')),
      (case minimum of None \<Rightarrow> None
       | Some lo \<Rightarrow> unless (\<not> real_of value < lo) (ValueError (name @ '' is below minimum''))),
      (case maximum of None \<Rightarrow> None
       | Some hi \<Rightarrow> unless (\<not> hi < real_of value) (ValueError (name @ '' exceeds maximum'')))]"

definition when_has :: "pydict \<Rightarrow> string \<Rightarrow> (json \<Rightarrow> pyexc option) \<Rightarrow> pyexc option" where
  "when_has d k check = (if has d k then check (fld d k) else None)"

definition check_is :: "(json \<Rightarrow> bool) \<Rightarrow> string \<Rightarrow> json \<Rightarrow> pyexc option" where
  "check_is p msg value = unless (p value) (TypeError msg)"

lemmas check_defs = check_object_def check_string_def check_uint32_def check_uint16_def
  check_checksum_def check_number_def when_has_def check_is_def first_error_Cons

subsection \<open>\<open>validate_payload\<close>\<close>

definition validate_payload :: "message_type \<Rightarrow> json \<Rightarrow> pyexc option" where
  "validate_payload mt payload =
    (let p = dict_of payload in
     case mt of
       COMMAND \<Rightarrow> first_error
         [check_object payload [''action''] [''parameters'', ''mode''],
          check_string (fld p ''action'') ''action'' False,
          when_has p ''parameters'' (check_is is_obj ''parameters must be an object''),
          when_has p ''mode'' (\<lambda>v. check_string v ''mode'' False)]
     | MISSION_BEGIN \<Rightarrow> first_error
         [check_object payload [''mission_id'', ''item_count'', ''vehicle''] [''checksum''],
          check_string (fld p ''mission_id'') ''mission_id'' False,
          check_uint32 (fld p ''item_count'') ''item_count'',
          unless (int_of (fld p ''item_count'') \<le> max_mission_items)
            (ValueError ''item_count exceeds mission limit''),
          unless (fld p ''vehicle'' \<in> {JStr ''aircraft'', JStr ''rover''})
            (ValueError ''vehicle must be aircraft or rover''),
          when_has p ''checksum'' check_checksum]
     | MISSION_ITEM \<Rightarrow> first_error
         [check_object payload [''mission_id'', ''index'', ''lat'', ''lon'', ''alt'']
            [''command'', ''frame'', ''param1'', ''param2'', ''param3'', ''param4'', ''autocontinue''],
          check_string (fld p ''mission_id'') ''mission_id'' False,
          check_uint32 (fld p ''index'') ''index'',
          unless (int_of (fld p ''index'') < max_mission_items)
            (ValueError ''index exceeds mission limit''),
          check_number (fld p ''lat'') ''lat'' (Some (- 90)) (Some 90),
          check_number (fld p ''lon'') ''lon'' (Some (- 180)) (Some 180),
          check_number (fld p ''alt'') ''alt'' (Some (- 1000)) (Some 100000),
          when_has p ''command'' (\<lambda>v. check_uint16 v ''command''),
          when_has p ''frame'' (\<lambda>v. first_error
            [unless (is_int v) (TypeError ''frame must be an integer''),
             unless (0 \<le> int_of v \<and> int_of v \<le> 255) (ValueError ''frame must fit uint8'')]),
          when_has p ''param1'' (\<lambda>v. check_number v ''param1'' (Some (- 1000000)) (Some 1000000)),
          when_has p ''param2'' (\<lambda>v. check_number v ''param2'' (Some (- 1000000)) (Some 1000000)),
          when_has p ''param3'' (\<lambda>v. check_number v ''param3'' (Some (- 1000000)) (Some 1000000)),
          when_has p ''param4'' (\<lambda>v. check_number v ''param4'' (Some (- 1000000)) (Some 1000000)),
          when_has p ''autocontinue'' (check_is is_bool ''autocontinue must be a boolean'')]
     | MISSION_COMMIT \<Rightarrow> first_error
         [check_object payload [''mission_id'', ''item_count''] [''checksum''],
          check_string (fld p ''mission_id'') ''mission_id'' False,
          check_uint32 (fld p ''item_count'') ''item_count'',
          unless (int_of (fld p ''item_count'') \<le> max_mission_items)
            (ValueError ''item_count exceeds mission limit''),
          when_has p ''checksum'' check_checksum]
     | ACK \<Rightarrow> first_error
         [check_object payload [''acked_sequence''] [],
          check_uint32 (fld p ''acked_sequence'') ''acked_sequence'']
     | NACK \<Rightarrow> first_error
         [check_object payload [''acked_sequence'', ''reason''] [],
          check_uint32 (fld p ''acked_sequence'') ''acked_sequence'',
          check_string (fld p ''reason'') ''reason'' False]
     | STATUS \<Rightarrow> first_error
         [check_object payload [''state''] [''detail'', ''timestamp''],
          check_string (fld p ''state'') ''state'' False,
          when_has p ''detail'' (\<lambda>v. check_string v ''detail'' True),
          when_has p ''timestamp'' (\<lambda>v. check_number v ''timestamp'' (Some 0) None)]
     | LINK_BLOCKED \<Rightarrow> first_error
         [check_object payload [''reason''] [''timestamp''],
          check_string (fld p ''reason'') ''reason'' False,
          when_has p ''timestamp'' (\<lambda>v. check_number v ''timestamp'' (Some 0) None)]
     | AUTH_CHALLENGE \<Rightarrow> first_error
         [check_object payload [''challenge''] [],
          check_string (fld p ''challenge'') ''challenge'' False,
          unless (is_sha_hex (str_of (fld p ''challenge''))) (ValueError ''challenge must be 32-byte lowercase hex'')]
     | AUTH_RESPONSE \<Rightarrow> first_error
         [check_object payload [''challenge''] [],
          check_string (fld p ''challenge'') ''challenge'' False,
          unless (is_sha_hex (str_of (fld p ''challenge''))) (ValueError ''challenge must be 32-byte lowercase hex'')])"

subsection \<open>What a validated payload guarantees\<close>

lemma check_object_ok:
  "check_object v req opt = None \<longleftrightarrow>
    is_obj v \<and> (\<forall>k \<in> set req. has (dict_of v) k) \<and> fst ` set (dict_of v) \<subseteq> set req \<union> set opt"
  by (auto simp: check_object_def first_error_Cons Let_def filter_empty_conv split: option.splits)

lemma check_string_ok:
  "check_string v n e = None \<longleftrightarrow> is_str v \<and> (e \<or> str_of v \<noteq> [])"
  by (auto simp: check_string_def first_error_Cons split: option.splits)

lemma check_uint32_ok:
  "check_uint32 v n = None \<longleftrightarrow> is_int v \<and> 0 \<le> int_of v \<and> int_of v \<le> 0xFFFFFFFF"
  by (auto simp: check_uint32_def first_error_Cons split: option.splits)

lemma check_number_ok:
  "check_number v n lo hi = None \<longleftrightarrow> is_number v \<and> \<not> float_overflow v \<and> is_finite_num v \<and>
     (\<forall>l. lo = Some l \<longrightarrow> l \<le> real_of v) \<and> (\<forall>h. hi = Some h \<longrightarrow> real_of v \<le> h)"
  by (auto simp: check_number_def first_error_Cons split: option.splits)

lemma check_checksum_ok:
  "check_checksum v = None \<longleftrightarrow> is_str v \<and> is_sha_hex (str_of v)"
  by (auto simp: check_checksum_def check_string_ok first_error_None_iff is_sha_hex_def)

lemma first_error_ok: "first_error cs = None \<longleftrightarrow> list_all (\<lambda>c. c = None) cs"
  by (simp add: first_error_None_iff list_all_iff)

lemmas check_ok = first_error_ok check_object_ok check_string_ok check_uint32_ok check_number_ok
  check_checksum_ok when_has_def check_is_def

lemma validated_object: "validate_payload mt p = None \<Longrightarrow> is_obj p"
  by (cases mt) (auto simp: validate_payload_def check_ok Let_def)

lemma validated_mission_id:
  "validate_payload mt p = None \<Longrightarrow> mt \<in> {MISSION_BEGIN, MISSION_ITEM, MISSION_COMMIT} \<Longrightarrow>
     has (dict_of p) ''mission_id'' \<and> is_str (fld (dict_of p) ''mission_id'')
     \<and> str_of (fld (dict_of p) ''mission_id'') \<noteq> []"
  by (cases mt) (auto simp: validate_payload_def check_ok Let_def)

lemma validated_item_count:
  "validate_payload mt p = None \<Longrightarrow> mt \<in> {MISSION_BEGIN, MISSION_COMMIT} \<Longrightarrow>
     is_int (fld (dict_of p) ''item_count'') \<and> 0 \<le> int_of (fld (dict_of p) ''item_count'')
     \<and> int_of (fld (dict_of p) ''item_count'') \<le> 100"
  by (cases mt) (auto simp: validate_payload_def check_ok Let_def max_mission_items_def)

lemma validated_index:
  "validate_payload MISSION_ITEM p = None \<Longrightarrow>
     is_int (fld (dict_of p) ''index'') \<and> 0 \<le> int_of (fld (dict_of p) ''index'')
     \<and> int_of (fld (dict_of p) ''index'') < 100"
  by (auto simp: validate_payload_def check_ok Let_def max_mission_items_def)

lemma validated_position:
  "validate_payload MISSION_ITEM p = None \<Longrightarrow>
     \<bar>real_of (fld (dict_of p) ''lat'')\<bar> \<le> 90 \<and> \<bar>real_of (fld (dict_of p) ''lon'')\<bar> \<le> 180"
  by (auto simp: validate_payload_def check_ok Let_def)

lemma validated_command:
  "validate_payload COMMAND p = None \<Longrightarrow>
     is_str (fld (dict_of p) ''action'') \<and> str_of (fld (dict_of p) ''action'') \<noteq> []"
  by (auto simp: validate_payload_def check_ok Let_def)

lemma validated_ack:
  "validate_payload mt p = None \<Longrightarrow> mt \<in> {ACK, NACK} \<Longrightarrow> is_int (fld (dict_of p) ''acked_sequence'')
     \<and> 0 \<le> int_of (fld (dict_of p) ''acked_sequence'')"
  by (cases mt) (auto simp: validate_payload_def check_ok Let_def)

end
