(* ===== verification/Hashes.thy ===== *)
theory Hashes
  imports Prelude
begin

text \<open>
  The checksums and digests of Python's standard library that the code calls, byte for byte:
  \<open>zlib.crc32\<close>, \<open>hashlib.sha256\<close> and \<open>hmac.new(key, body, sha256)\<close>, and the
  big- and little-endian fields of \<open>struct\<close>. The lemmas give the widths the wire formats
  rely on and the inversion of the integer fields.
\<close>

unbundle bit_operations_syntax

subsection \<open>Integer fields of \<open>struct\<close>\<close>

text \<open>An unsigned field of \<open>k\<close> bytes, most significant byte first\<close>

fun be_bytes :: "nat \<Rightarrow> nat \<Rightarrow> bytes" where
  "be_bytes 0 n = []"
| "be_bytes (Suc k) n = be_bytes k (n div 256) @ [word_of_nat n]"

definition be_nat :: "bytes \<Rightarrow> nat" where
  "be_nat bs = foldl (\<lambda>a b. a * 256 + unat b) 0 bs"

lemma length_be_bytes [simp]: "length (be_bytes k n) = k"
  by (induction k arbitrary: n) auto

lemma be_nat_snoc: "be_nat (bs @ [b]) = be_nat bs * 256 + unat b"
  by (simp add: be_nat_def)

lemma be_nat_foldl: "foldl (\<lambda>a b. a * 256 + unat b) a bs = 256 ^ length bs * a + be_nat bs"
proof (induction bs arbitrary: a)
  case (Cons b bs)
  show ?case using Cons [of "a * 256 + unat b"] Cons [of "unat b"]
    by (simp add: be_nat_def algebra_simps)
qed (simp add: be_nat_def)

lemma be_nat_Cons: "be_nat (b # bs) = 256 ^ length bs * unat b + be_nat bs"
  using be_nat_foldl [of "unat b" bs] by (simp add: be_nat_def)

lemma be_nat_be_bytes: "n < 256 ^ k \<Longrightarrow> be_nat (be_bytes k n) = n"
proof (induction k arbitrary: n)
  case (Suc k)
  from Suc.prems have "n div 256 < 256 ^ k"
    by (simp add: less_mult_imp_div_less mult.commute)
  with Suc.IH have "be_nat (be_bytes k (n div 256)) = n div 256" by blast
  then show ?case by (simp add: be_nat_snoc unat_of_nat)
qed (simp add: be_nat_def)

lemma be_nat_bound: "be_nat bs < 256 ^ length bs"
proof (induction bs rule: rev_induct)
  case (snoc b bs)
  have "unat b < 256" by (rule unat_byte_lt)
  with snoc show ?case by (simp add: be_nat_snoc)
qed (simp add: be_nat_def)

text \<open>\<open>struct.pack("<H", n)\<close> and its inverse\<close>

definition le16_bytes :: "16 word \<Rightarrow> bytes" where
  "le16_bytes w = [ucast w, ucast (drop_bit 8 w)]"

definition le16_word :: "byte \<Rightarrow> byte \<Rightarrow> 16 word" where
  "le16_word lo hi = ucast lo OR push_bit 8 (ucast hi)"

lemma le16_word_bytes: "le16_word (ucast w) (ucast (drop_bit 8 (w :: 16 word))) = w"
  unfolding le16_word_def by (rule bit_word_eqI) (auto simp: bit_simps)

subsection \<open>\<open>zlib.crc32\<close>\<close>

definition crc32_bit :: "32 word \<Rightarrow> 32 word" where
  "crc32_bit c = (if bit c 0 then drop_bit 1 c XOR 0xEDB88320 else drop_bit 1 c)"

definition crc32_byte :: "32 word \<Rightarrow> byte \<Rightarrow> 32 word" where
  "crc32_byte c b = (crc32_bit ^^ 8) (c XOR ucast b)"

definition crc32 :: "bytes \<Rightarrow> 32 word" where
  "crc32 bs = NOT (foldl crc32_byte 0xFFFFFFFF bs)"

subsection \<open>\<open>hashlib.sha256\<close>\<close>

definition sha_k :: "32 word list" where
  "sha_k =
    [0x428A2F98, 0x71374491, 0xB5C0FBCF, 0xE9B5DBA5, 0x3956C25B, 0x59F111F1,
     0x923F82A4, 0xAB1C5ED5, 0xD807AA98, 0x12835B01, 0x243185BE, 0x550C7DC3,
     0x72BE5D74, 0x80DEB1FE, 0x9BDC06A7, 0xC19BF174, 0xE49B69C1, 0xEFBE4786,
     0x0FC19DC6, 0x240CA1CC, 0x2DE92C6F, 0x4A7484AA, 0x5CB0A9DC, 0x76F988DA,
     0x983E5152, 0xA831C66D, 0xB00327C8, 0xBF597FC7, 0xC6E00BF3, 0xD5A79147,
     0x06CA6351, 0x14292967, 0x27B70A85, 0x2E1B2138, 0x4D2C6DFC, 0x53380D13,
     0x650A7354, 0x766A0ABB, 0x81C2C92E, 0x92722C85, 0xA2BFE8A1, 0xA81A664B,
     0xC24B8B70, 0xC76C51A3, 0xD192E819, 0xD6990624, 0xF40E3585, 0x106AA070,
     0x19A4C116, 0x1E376C08, 0x2748774C, 0x34B0BCB5, 0x391C0CB3, 0x4ED8AA4A,
     0x5B9CCA4F, 0x682E6FF3, 0x748F82EE, 0x78A5636F, 0x84C87814, 0x8CC70208,
     0x90BEFFFA, 0xA4506CEB, 0xBEF9A3F7, 0xC67178F2]"

type_synonym sha_state = "32 word \<times> 32 word \<times> 32 word \<times> 32 word \<times>
  32 word \<times> 32 word \<times> 32 word \<times> 32 word"

definition sha_init :: sha_state where
  "sha_init = (0x6A09E667, 0xBB67AE85, 0x3C6EF372, 0xA54FF53A,
     0x510E527F, 0x9B05688C, 0x1F83D9AB, 0x5BE0CD19)"

definition rotr32 :: "nat \<Rightarrow> 32 word \<Rightarrow> 32 word" where
  "rotr32 n w = drop_bit n w OR push_bit (32 - n) w"

text \<open>The message schedule, last word first: \<open>r ! 1\<close> is the word two places back.\<close>

fun sha_extend :: "nat \<Rightarrow> 32 word list \<Rightarrow> 32 word list" where
  "sha_extend 0 r = r"
| "sha_extend (Suc n) r =
     (let a = r ! 14; b = r ! 1;
          s0 = rotr32 7 a XOR rotr32 18 a XOR drop_bit 3 a;
          s1 = rotr32 17 b XOR rotr32 19 b XOR drop_bit 10 b
      in sha_extend n ((r ! 15 + s0 + r ! 6 + s1) # r))"

fun sha_round :: "sha_state \<Rightarrow> 32 word \<times> 32 word \<Rightarrow> sha_state" where
  "sha_round (a, b, c, d, e, f, g, h) (k, w) =
     (let s1 = rotr32 6 e XOR rotr32 11 e XOR rotr32 25 e;
          ch = (e AND f) XOR (NOT e AND g);
          t1 = h + s1 + ch + k + w;
          s0 = rotr32 2 a XOR rotr32 13 a XOR rotr32 22 a;
          maj = (a AND b) XOR (a AND c) XOR (b AND c)
      in (t1 + (s0 + maj), a, b, c, d + t1, e, f, g))"

fun sha_add :: "sha_state \<Rightarrow> sha_state \<Rightarrow> sha_state" where
  "sha_add (a, b, c, d, e, f, g, h) (a', b', c', d', e', f', g', h') =
     (a + a', b + b', c + c', d + d', e + e', f + f', g + g', h + h')"

fun be_words :: "bytes \<Rightarrow> 32 word list" where
  "be_words (a # b # c # d # bs) = word_of_nat (be_nat [a, b, c, d]) # be_words bs"
| "be_words _ = []"

definition sha_block :: "sha_state \<Rightarrow> bytes \<Rightarrow> sha_state" where
  "sha_block st block =
     sha_add st (foldl sha_round st (zip sha_k (rev (sha_extend 48 (rev (be_words block))))))"

function sha_blocks :: "sha_state \<Rightarrow> bytes \<Rightarrow> sha_state" where
  "sha_blocks st bs =
     (if bs = [] then st else sha_blocks (sha_block st (take 64 bs)) (drop 64 bs))"
  by pat_completeness auto
termination
  by (relation "measure (\<lambda>(st, bs). length bs)") (auto simp: neq_Nil_conv)

declare sha_blocks.simps [simp del]

definition sha_pad :: "bytes \<Rightarrow> bytes" where
  "sha_pad bs = bs @ [0x80] @ replicate ((119 - length bs mod 64) mod 64) 0
     @ be_bytes 8 (8 * length bs)"

fun sha_out :: "sha_state \<Rightarrow> bytes" where
  "sha_out (a, b, c, d, e, f, g, h) =
     concat (map (\<lambda>w. be_bytes 4 (unat w)) [a, b, c, d, e, f, g, h])"

definition sha256 :: "bytes \<Rightarrow> bytes" where
  "sha256 bs = sha_out (sha_blocks sha_init (sha_pad bs))"

lemma length_sha256 [simp]: "length (sha256 bs) = 32"
  unfolding sha256_def
  by (cases "sha_blocks sha_init (sha_pad bs)" rule: sha_out.cases) simp

text \<open>\<open>digest.hex()\<close> and \<open>hexdigest()\<close>\<close>

definition hex_digit :: "nat \<Rightarrow> char" where
  "hex_digit n = ''0123456789abcdef'' ! n"

definition hex_byte :: "byte \<Rightarrow> string" where
  "hex_byte b = [hex_digit (unat b div 16), hex_digit (unat b mod 16)]"

definition hex :: "bytes \<Rightarrow> string" where
  "hex bs = concat (map hex_byte bs)"

definition sha256_hex :: "bytes \<Rightarrow> string" where
  "sha256_hex bs = hex (sha256 bs)"

lemma length_hex [simp]: "length (hex bs) = 2 * length bs"
  by (induction bs) (auto simp: hex_def hex_byte_def)

lemma length_sha256_hex [simp]: "length (sha256_hex bs) = 64"
  by (simp add: sha256_hex_def)

lemma sha256_hex_nonempty [simp]: "sha256_hex bs \<noteq> []"
  by (metis length_0_conv length_sha256_hex zero_neq_numeral)

lemma hex_digit_is_hex: "n < 16 \<Longrightarrow> is_lower_hex (hex_digit n)"
  unfolding is_lower_hex_def hex_digit_def by (rule nth_mem) simp

lemma hex_lower: "list_all is_lower_hex (hex bs)"
proof (induction bs)
  case (Cons b bs)
  have "unat b < 256" by (rule unat_byte_lt)
  then have "unat b div 16 < 16" by (simp add: less_mult_imp_div_less)
  with Cons show ?case by (auto simp: hex_def hex_byte_def hex_digit_is_hex)
qed (simp add: hex_def)

lemma sha256_hex_lower: "list_all is_lower_hex (sha256_hex bs)"
  by (simp add: sha256_hex_def hex_lower)

subsection \<open>\<open>hmac.new(key, body, sha256).digest()\<close>\<close>

definition hmac_key :: "bytes \<Rightarrow> bytes" where
  "hmac_key key = (let k = (if 64 < length key then sha256 key else key)
     in k @ replicate (64 - length k) 0)"

definition hmac_sha256 :: "bytes \<Rightarrow> bytes \<Rightarrow> bytes" where
  "hmac_sha256 key body =
     sha256 (map (\<lambda>b. b XOR 0x5C) (hmac_key key)
       @ sha256 (map (\<lambda>b. b XOR 0x36) (hmac_key key) @ body))"

lemma length_hmac [simp]: "length (hmac_sha256 key body) = 32"
  by (simp add: hmac_sha256_def)

end
