(* ===== verification/PyJson.thy ===== *)
theory PyJson
  imports PyValue Hashes
begin

text \<open>
  Python's \<open>json\<close> module on the values of \<open>PyValue\<close>: \<open>json.dumps\<close> with
  \<open>separators=(",", ":")\<close>, \<open>sort_keys=True\<close> and either setting of
  \<open>ensure_ascii\<close>, \<open>json.loads\<close>, and UTF-8. Code points are below 256, so an
  escape or a multi-byte sequence beyond that is outside the model and reads as an error.
\<close>

subsection \<open>Numbers as text\<close>

definition digit_char :: "nat \<Rightarrow> char" where
  "digit_char n = char_of (48 + n)"

fun show_nat :: "nat \<Rightarrow> string" where
  "show_nat n = (if n < 10 then [digit_char n] else show_nat (n div 10) @ [digit_char (n mod 10)])"

declare show_nat.simps [simp del]

definition show_int :: "int \<Rightarrow> string" where
  "show_int i = (if i < 0 then CHR ''-'' # show_nat (nat (- i)) else show_nat (nat i))"

text \<open>
  \<open>repr\<close> of the float \<open>m * 10 ^ e\<close> with digits \<open>ds\<close> of \<open>|m|\<close>: positional when
  the decimal point lies between -4 and 16 places from the first digit, else scientific.
\<close>

definition repr_digits :: "string \<Rightarrow> int \<Rightarrow> string" where
  "repr_digits ds e =
     (let n = int (length ds); p = n + e in
      if -4 < p \<and> p \<le> 16 then
        (if p \<le> 0 then ''0.'' @ replicate (nat (- p)) CHR ''0'' @ ds
         else if n \<le> p then ds @ replicate (nat (p - n)) CHR ''0'' @ ''.0''
         else take (nat p) ds @ ''.'' @ drop (nat p) ds)
      else
        [hd ds] @ (if tl ds = [] then [] else ''.'' @ tl ds) @ ''e''
          @ (if p - 1 < 0 then ''-'' else ''+'')
          @ (let q = nat \<bar>p - 1\<bar> in if q < 10 then CHR ''0'' # show_nat q else show_nat q))"

fun show_float :: "pyfloat \<Rightarrow> string" where
  "show_float PInf = ''Infinity''"
| "show_float NInf = ''-Infinity''"
| "show_float NaN = ''NaN''"
| "show_float (Fin m e) =
     (if m < 0 then ''-'' else []) @ repr_digits (show_nat (nat \<bar>m\<bar>)) e"

text \<open>
  \<open>str(v)\<close> of a scalar of a payload. The model does not render a list or an object: their text is
  left empty.
\<close>

fun py_str :: "json \<Rightarrow> string" where
  "py_str (JStr s) = s"
| "py_str (JInt i) = show_int i"
| "py_str (JFloat (Fin m e)) = show_float (Fin m e)"
| "py_str (JFloat PInf) = ''inf''"
| "py_str (JFloat NInf) = ''-inf''"
| "py_str (JFloat NaN) = ''nan''"
| "py_str (JBool b) = (if b then ''True'' else ''False'')"
| "py_str JNull = ''None''"
| "py_str _ = []"

subsection \<open>Strings as text\<close>

definition hex4 :: "char \<Rightarrow> string" where
  "hex4 c = CHR 0x5C # ''u00'' @ hex_byte (word_of_nat (of_char c))"

definition escape_char :: "bool \<Rightarrow> char \<Rightarrow> string" where
  "escape_char ascii c = (let n = (of_char c :: nat) in
     if n = 34 then [CHR 0x5C, CHR 0x22]
     else if n = 92 then [CHR 0x5C, CHR 0x5C]
     else if n = 10 then [CHR 0x5C, CHR ''n'']
     else if n = 13 then [CHR 0x5C, CHR ''r'']
     else if n = 9 then [CHR 0x5C, CHR ''t'']
     else if n = 12 then [CHR 0x5C, CHR ''f'']
     else if n = 8 then [CHR 0x5C, CHR ''b'']
     else if n < 32 \<or> (ascii \<and> 127 \<le> n) then hex4 c
     else [c])"

definition show_str :: "bool \<Rightarrow> string \<Rightarrow> string" where
  "show_str ascii s = CHR 0x22 # concat (map (escape_char ascii) s) @ [CHR 0x22]"

subsection \<open>\<open>json.dumps\<close>\<close>

text \<open>\<open>sort_keys=True\<close>: the keys of every object in increasing order\<close>

fun sort_json :: "json \<Rightarrow> json" where
  "sort_json (JArr xs) = JArr (map sort_json xs)"
| "sort_json (JObj d) = JObj (sort_key fst (map (\<lambda>(k, v). (k, sort_json v)) d))"
| "sort_json v = v"

fun render :: "bool \<Rightarrow> json \<Rightarrow> string"
  and render_items :: "bool \<Rightarrow> json list \<Rightarrow> string"
  and render_fields :: "bool \<Rightarrow> pydict \<Rightarrow> string" where
  "render a JNull = ''null''"
| "render a (JBool b) = (if b then ''true'' else ''false'')"
| "render a (JInt i) = show_int i"
| "render a (JFloat x) = show_float x"
| "render a (JStr s) = show_str a s"
| "render a (JArr xs) = ''['' @ render_items a xs @ '']''"
| "render a (JObj d) = ''{'' @ render_fields a d @ ''}''"
| "render_items a [] = []"
| "render_items a (x # xs) = render a x @ (if xs = [] then [] else '','' @ render_items a xs)"
| "render_fields a [] = []"
| "render_fields a ((k, v) # d) =
     show_str a k @ '':'' @ render a v @ (if d = [] then [] else '','' @ render_fields a d)"

text \<open>
  \<open>json.dumps(v, sort_keys=True, separators=(",", ":"), ensure_ascii=a, allow_nan=False)\<close>:
  a non-finite float raises ValueError.
\<close>

definition dumps :: "bool \<Rightarrow> json \<Rightarrow> string option" where
  "dumps a v = (if json_finite v then Some (render a (sort_json v)) else None)"

subsection \<open>UTF-8\<close>

definition utf8_char :: "char \<Rightarrow> bytes" where
  "utf8_char c = (let n = (of_char c :: nat) in
     if n < 128 then [word_of_nat n]
     else [word_of_nat (192 + n div 64), word_of_nat (128 + n mod 64)])"

definition utf8 :: "string \<Rightarrow> bytes" where
  "utf8 s = concat (map utf8_char s)"

fun utf8_decode :: "bytes \<Rightarrow> string option" where
  "utf8_decode [] = Some []"
| "utf8_decode (b # bs) =
     (let n = unat b in
      if n < 128 then map_option (Cons (char_of n)) (utf8_decode bs)
      else if n = 194 \<or> n = 195 then
        (case bs of [] \<Rightarrow> None
         | c # cs \<Rightarrow> (let m = unat c in
             if 128 \<le> m \<and> m < 192 then
               map_option (Cons (char_of ((n - 192) * 64 + (m - 128)))) (utf8_decode cs)
             else None))
      else None)"

subsection \<open>\<open>json.loads\<close>\<close>

type_synonym 'a parser = "string \<Rightarrow> ('a \<times> string) option"

definition is_ws :: "char \<Rightarrow> bool" where
  "is_ws c \<longleftrightarrow> c \<in> {CHR 0x20, CHR 0x09, CHR 0x0A, CHR 0x0D}"

definition skip_ws :: "string \<Rightarrow> string" where
  "skip_ws = dropWhile is_ws"

definition is_digit :: "char \<Rightarrow> bool" where
  "is_digit c = (let n = (of_char c :: nat) in 48 \<le> n \<and> n \<le> 57)"

definition digit_val :: "char \<Rightarrow> nat" where
  "digit_val c = of_char c - 48"

definition digits_val :: "string \<Rightarrow> nat" where
  "digits_val ds = foldl (\<lambda>a c. a * 10 + digit_val c) 0 ds"

definition take_digits :: "string \<Rightarrow> string \<times> string" where
  "take_digits s = (takeWhile is_digit s, dropWhile is_digit s)"

text \<open>
  The float of mantissa \<open>m\<close> and exponent \<open>e\<close>, without trailing zeros. A literal that
  rounds to \<open>2 ^ 1024\<close> or more becomes an infinity, as \<open>float\<close> makes it.
\<close>

function trim_dec :: "int \<Rightarrow> int \<Rightarrow> int \<times> int" where
  "trim_dec m e =
     (if m = 0 then (0, 0)
      else if 10 dvd m then trim_dec (m div 10) (e + 1)
      else (m, e))"
  by pat_completeness auto
termination
  by (relation "measure (\<lambda>(m, e). nat \<bar>m\<bar>)") (auto elim!: dvdE)

declare trim_dec.simps [simp del]

definition dec_overflow :: "int \<Rightarrow> int \<Rightarrow> bool" where
  "dec_overflow m e \<longleftrightarrow>
     (if 0 \<le> e then 2 ^ 1024 - 2 ^ 970 \<le> \<bar>m\<bar> * 10 ^ nat e
      else (2 ^ 1024 - 2 ^ 970) * 10 ^ nat (- e) \<le> \<bar>m\<bar>)"

definition norm_dec :: "int \<Rightarrow> int \<Rightarrow> pyfloat" where
  "norm_dec m e = (case trim_dec m e of (m', e') \<Rightarrow>
     if dec_overflow m' e' then (if m' < 0 then NInf else PInf) else Fin m' e')"

lemma dec_overflow_0 [simp]: "\<not> dec_overflow 0 e"
proof -
  have "(2 ^ 970 :: int) < 2 ^ 1024"
    by (rule power_strict_increasing) simp_all
  then have "(0 :: int) < 2 ^ 1024 - 2 ^ 970" by (simp only: diff_gt_0_iff_gt)
  moreover from this have "(0 :: int) < (2 ^ 1024 - 2 ^ 970) * 10 ^ nat (- e)"
    by (rule mult_pos_pos) simp
  ultimately show ?thesis unfolding dec_overflow_def abs_zero mult_zero_left not_le [symmetric] by (cases "0 \<le> e") (simp_all only: if_True if_False not_False_eq_True)
qed

text \<open>The optional fraction and exponent: \<open>(\.\d+)?([eE][-+]?\d+)?\<close>\<close>

definition parse_frac :: "string \<Rightarrow> string \<times> string" where
  "parse_frac s = (case s of
     c # s' \<Rightarrow> if c = CHR ''.'' \<and> takeWhile is_digit s' \<noteq> [] then take_digits s' else ([], s)
   | [] \<Rightarrow> ([], s))"

definition parse_sign :: "string \<Rightarrow> bool \<times> string" where
  "parse_sign s = (case s of
     c # s' \<Rightarrow> if c = CHR ''-'' then (True, s') else if c = CHR ''+'' then (False, s') else (False, s)
   | [] \<Rightarrow> (False, s))"

definition parse_exp :: "string \<Rightarrow> int option \<times> string" where
  "parse_exp s = (case s of
     c # s' \<Rightarrow>
       if c = CHR ''e'' \<or> c = CHR ''E'' then
         (let (neg, s'') = parse_sign s'; (ds, r) = take_digits s'' in
          if ds = [] then (None, s)
          else (Some (if neg then - int (digits_val ds) else int (digits_val ds)), r))
       else (None, s)
   | [] \<Rightarrow> (None, s))"

definition int_part :: "string \<Rightarrow> string \<times> string" where
  "int_part s = (case s of
     c # s' \<Rightarrow> if c = CHR ''0'' then ([c], s') else take_digits s
   | [] \<Rightarrow> ([], s))"

text \<open>\<open>-?(?:0|[1-9]\d*)\<close> and what follows it\<close>

definition parse_number :: "bool \<Rightarrow> json parser" where
  "parse_number neg s =
     (let (is, s1) = int_part s in
      if is = [] then None
      else
        let (fs, s2) = parse_frac s1; (ex, s3) = parse_exp s2;
            m = int (digits_val (is @ fs)); sm = (if neg then - m else m)
        in if fs = [] \<and> ex = None then Some (JInt sm, s3)
           else Some (JFloat (norm_dec sm ((case ex of None \<Rightarrow> 0 | Some e \<Rightarrow> e) - int (length fs))), s3))"

definition hex_val :: "char \<Rightarrow> nat option" where
  "hex_val c = (let n = (of_char c :: nat) in
     if 48 \<le> n \<and> n \<le> 57 then Some (n - 48)
     else if 97 \<le> n \<and> n \<le> 102 then Some (n - 87)
     else if 65 \<le> n \<and> n \<le> 70 then Some (n - 55) else None)"

definition unescape :: "char \<Rightarrow> char option" where
  "unescape c =
     (if c = CHR 0x22 \<or> c = CHR 0x5C \<or> c = CHR ''/'' then Some c
      else if c = CHR ''n'' then Some (CHR 0x0A)
      else if c = CHR ''r'' then Some (CHR 0x0D)
      else if c = CHR ''t'' then Some (CHR 0x09)
      else if c = CHR ''f'' then Some (CHR 0x0C)
      else if c = CHR ''b'' then Some (CHR 0x08)
      else None)"

text \<open>The characters of a string up to its closing quote\<close>

fun parse_chars :: "string parser" where
  "parse_chars [] = None"
| "parse_chars (c # s) =
     (if c = CHR 0x22 then Some ([], s)
      else if (of_char c :: nat) < 32 then None
      else if c = CHR 0x5C then
        (case s of
           [] \<Rightarrow> None
         | u # t \<Rightarrow>
             if u = CHR ''u'' then
               (case t of
                  z1 # z2 # h1 # h2 # t' \<Rightarrow>
                    if z1 = CHR ''0'' \<and> z2 = CHR ''0'' then
                      (case hex_val h1 of None \<Rightarrow> None | Some x \<Rightarrow>
                         (case hex_val h2 of None \<Rightarrow> None | Some y \<Rightarrow>
                            map_option (\<lambda>(cs, r). (char_of (x * 16 + y) # cs, r)) (parse_chars t')))
                    else None
                | _ \<Rightarrow> None)
             else
               (case unescape u of
                  None \<Rightarrow> None
                | Some x \<Rightarrow> map_option (\<lambda>(cs, r). (x # cs, r)) (parse_chars t)))
      else map_option (\<lambda>(cs, r). (c # cs, r)) (parse_chars s))"

definition strip_prefix :: "string \<Rightarrow> string \<Rightarrow> string option" where
  "strip_prefix p s = (if take (length p) s = p then Some (drop (length p) s) else None)"

definition literals :: "(string \<times> json) list" where
  "literals = [(''null'', JNull), (''true'', JBool True), (''false'', JBool False),
     (''NaN'', JFloat NaN), (''Infinity'', JFloat PInf), (''-Infinity'', JFloat NInf)]"

fun parse_literal :: "(string \<times> json) list \<Rightarrow> json parser" where
  "parse_literal [] s = None"
| "parse_literal ((w, v) # ls) s =
     (case strip_prefix w s of Some r \<Rightarrow> Some (v, r) | None \<Rightarrow> parse_literal ls s)"

text \<open>
  The recursive scanner. The fuel bounds the nesting and the number of elements; the text's
  length plus one is enough, since each call consumes a character. A repeated key keeps its
  first place and its last value, as \<open>dict(pairs)\<close> does.
\<close>

fun parse_value :: "nat \<Rightarrow> json parser"
  and parse_items :: "nat \<Rightarrow> json list parser"
  and parse_fields :: "nat \<Rightarrow> pydict \<Rightarrow> pydict parser" where
  "parse_value 0 s = None"
| "parse_value (Suc n) s =
     (case s of
        [] \<Rightarrow> None
      | c # s' \<Rightarrow>
          if c = CHR 0x22 then map_option (\<lambda>(cs, r). (JStr cs, r)) (parse_chars s')
          else if c = CHR ''['' then
            (let t = skip_ws s' in
             if t \<noteq> [] \<and> hd t = CHR '']'' then Some (JArr [], tl t)
             else map_option (\<lambda>(xs, r). (JArr xs, r)) (parse_items n t))
          else if c = CHR ''{'' then
            (let t = skip_ws s' in
             if t \<noteq> [] \<and> hd t = CHR ''}'' then Some (JObj [], tl t)
             else map_option (\<lambda>(d, r). (JObj d, r)) (parse_fields n [] t))
          else (case parse_literal literals s of
                  Some r \<Rightarrow> Some r
                | None \<Rightarrow> if c = CHR ''-'' then parse_number True s' else parse_number False s))"
| "parse_items 0 s = None"
| "parse_items (Suc n) s =
     (case parse_value n s of
        None \<Rightarrow> None
      | Some (v, r) \<Rightarrow>
          (case skip_ws r of
             c # r' \<Rightarrow>
               if c = CHR '']'' then Some ([v], r')
               else if c = CHR '','' then
                 map_option (\<lambda>(xs, q). (v # xs, q)) (parse_items n (skip_ws r'))
               else None
           | [] \<Rightarrow> None))"
| "parse_fields 0 acc s = None"
| "parse_fields (Suc n) acc s =
     (case s of
        [] \<Rightarrow> None
      | c # s' \<Rightarrow>
          if c \<noteq> CHR 0x22 then None
          else (case parse_chars s' of
                  None \<Rightarrow> None
                | Some (k, r) \<Rightarrow>
                    (case skip_ws r of
                       d # r' \<Rightarrow>
                         if d \<noteq> CHR '':'' then None
                         else (case parse_value n (skip_ws r') of
                                 None \<Rightarrow> None
                               | Some (v, q) \<Rightarrow>
                                   (case skip_ws q of
                                      e # q' \<Rightarrow>
                                        if e = CHR ''}'' then Some (AList.update k v acc, q')
                                        else if e = CHR '','' then
                                          parse_fields n (AList.update k v acc) (skip_ws q')
                                        else None
                                    | [] \<Rightarrow> None))
                     | [] \<Rightarrow> None)))"

definition loads :: "string \<Rightarrow> json option" where
  "loads s = (case parse_value (Suc (length s)) (skip_ws s) of
     Some (v, r) \<Rightarrow> if skip_ws r = [] then Some v else None
   | None \<Rightarrow> None)"

subsection \<open>\<open>int(text)\<close> and \<open>float(text)\<close>\<close>

text \<open>A run of digits, in which single underscores may stand between digits\<close>

fun digit_run :: "string \<Rightarrow> string \<times> string" where
  "digit_run [] = ([], [])"
| "digit_run [c] = (if is_digit c then ([c], []) else ([], [c]))"
| "digit_run (c # d # s) =
     (if \<not> is_digit c then ([], c # d # s)
      else if d = CHR ''_'' \<and> s \<noteq> [] \<and> is_digit (hd s) then (case digit_run s of (ds, r) \<Rightarrow> (c # ds, r))
      else (case digit_run (d # s) of (ds, r) \<Rightarrow> (c # ds, r)))"

definition int_text :: "string \<Rightarrow> int option" where
  "int_text t =
     (let (neg, s) = parse_sign (py_strip t); (ds, r) = digit_run s in
      if ds = [] \<or> r \<noteq> [] then None
      else Some (if neg then - int (digits_val ds) else int (digits_val ds)))"

definition exponent_text :: "string \<Rightarrow> int option" where
  "exponent_text s = (case s of
     [] \<Rightarrow> Some 0
   | c # s' \<Rightarrow>
       if c \<noteq> CHR ''e'' \<and> c \<noteq> CHR ''E'' then None
       else let (neg, s'') = parse_sign s'; (ds, r) = digit_run s'' in
         if ds = [] \<or> r \<noteq> [] then None else Some (if neg then - int (digits_val ds) else int (digits_val ds)))"

definition float_text :: "string \<Rightarrow> pyfloat option" where
  "float_text t =
     (let (neg, s) = parse_sign (py_strip t) in
      if py_lower s \<in> {''inf'', ''infinity''} then Some (if neg then NInf else PInf)
      else if py_lower s = ''nan'' then Some NaN
      else
        let (is, s1) = digit_run s;
            (fs, s2) = (case s1 of c # s' \<Rightarrow> if c = CHR ''.'' then digit_run s' else ([], s1) | [] \<Rightarrow> ([], s1));
            m = int (digits_val (is @ fs))
        in if is = [] \<and> fs = [] then None
           else map_option (\<lambda>e. norm_dec (if neg then - m else m) (e - int (length fs))) (exponent_text s2))"

end
