(* ===== verification/JsonRoundtrip.thy ===== *)
theory JsonRoundtrip
  imports PyJson "HOL-Library.Multiset"
begin

text \<open>
  Reading back what \<open>json.dumps\<close> wrote: \<open>loads\<close> inverts \<open>dumps\<close> up to the order of
  keys, and \<open>utf8_decode\<close> inverts \<open>utf8\<close>. The binary frames and the node datagrams rest on
  these two facts.
\<close>

subsection \<open>Digits\<close>

lemma of_char_digit [simp]: "n < 10 \<Longrightarrow> (of_char (digit_char n) :: nat) = 48 + n"
  by (simp add: digit_char_def)

lemma is_digit_char [simp]: "n < 10 \<Longrightarrow> is_digit (digit_char n)"
  by (simp add: is_digit_def)

lemma digit_val_char [simp]: "n < 10 \<Longrightarrow> digit_val (digit_char n) = n"
  by (simp add: digit_val_def)

lemma digits_val_snoc: "digits_val (ds @ [c]) = digits_val ds * 10 + digit_val c"
  by (simp add: digits_val_def)

lemma show_nat_digits: "list_all is_digit (show_nat n)"
proof (induction n rule: show_nat.induct)
  case (1 n)
  then show ?case by (subst show_nat.simps) (auto simp: list_all_append)
qed

lemma show_nat_nonempty [simp]: "show_nat n \<noteq> []"
  by (subst show_nat.simps) auto

lemma digits_val_show_nat [simp]: "digits_val (show_nat n) = n"
proof (induction n rule: show_nat.induct)
  case (1 n)
  then show ?case
    by (subst show_nat.simps) (auto simp: digits_val_snoc, simp add: digits_val_def)
qed

lemma hd_show_nat: "0 < n \<Longrightarrow> hd (show_nat n) \<noteq> CHR ''0''"
proof (induction n rule: show_nat.induct)
  case (1 n)
  show ?case
  proof (cases "n < 10")
    case True
    have "digit_char n \<noteq> CHR ''0''"
    proof
      assume "digit_char n = CHR ''0''"
      then have "(of_char (digit_char n) :: nat) = of_char CHR ''0''" by (rule arg_cong)
      with True 1 show False by simp
    qed
    with True show ?thesis by (subst show_nat.simps) simp
  next
    case False
    with 1 have "hd (show_nat (n div 10)) \<noteq> CHR ''0''" by simp
    then show ?thesis using False by (subst show_nat.simps) simp
  qed
qed

lemma show_nat_0: "show_nat 0 = ''0''"
proof -
  have "of_char CHR ''0'' = (48 :: nat)" by simp
  then have "char_of (48 :: nat) = CHR ''0''" by (metis char_of_char)
  then show ?thesis by (subst show_nat.simps) (simp add: digit_char_def)
qed

lemma digits_val_append: "digits_val (as @ bs) = digits_val as * 10 ^ length bs + digits_val bs"
proof (induction bs rule: rev_induct)
  case (snoc b bs)
  then show ?case
    by (simp add: digits_val_snoc algebra_simps flip: append_assoc)
qed (simp add: digits_val_def)

lemma digits_val_zeros: "digits_val (replicate k CHR ''0'') = 0"
  by (induction k) (auto simp: digits_val_def digit_val_def)

lemma list_all_takeWhile: "list_all p ds \<Longrightarrow> takeWhile p (ds @ r) = ds @ takeWhile p r"
  by (induction ds) auto

lemma list_all_dropWhile: "list_all p ds \<Longrightarrow> dropWhile p (ds @ r) = dropWhile p r"
  by (induction ds) auto

text \<open>What may follow a value in compact JSON text\<close>

definition stops :: "string \<Rightarrow> bool" where
  "stops r \<longleftrightarrow> r = [] \<or> hd r \<in> {CHR '','', CHR '']'', CHR ''}'', CHR '':''}"

lemma stops_not_digit: "stops r \<Longrightarrow> takeWhile is_digit r = [] \<and> dropWhile is_digit r = r"
  by (cases r) (auto simp: stops_def is_digit_def)

lemma stops_no_frac: "stops r \<Longrightarrow> parse_frac r = ([], r)"
  by (cases r) (auto simp: stops_def parse_frac_def)

lemma stops_no_exp: "stops r \<Longrightarrow> parse_exp r = (None, r)"
  by (cases r) (auto simp: stops_def parse_exp_def)

lemma takeWhile_Nil_dropWhile: "takeWhile p r = [] \<Longrightarrow> dropWhile p r = r"
  by (cases r) (auto split: if_splits)

lemma take_digits_show:
  "list_all is_digit ds \<Longrightarrow> takeWhile is_digit r = [] \<Longrightarrow> take_digits (ds @ r) = (ds, r)"
  by (simp add: take_digits_def list_all_takeWhile list_all_dropWhile takeWhile_Nil_dropWhile)

lemma int_part_digits:
  assumes "list_all is_digit ds" "ds \<noteq> []" "hd ds \<noteq> CHR ''0'' \<or> ds = ''0''" "takeWhile is_digit r = []"
  shows "int_part (ds @ r) = (ds, r)"
  using assms take_digits_show [OF assms(1,4)] by (cases ds) (auto simp: int_part_def)

lemma show_nat_leading: "hd (show_nat n) \<noteq> CHR ''0'' \<or> show_nat n = ''0''"
  by (cases "n = 0") (auto simp: show_nat_0 hd_show_nat)

lemma parse_number_nat:
  "stops r \<Longrightarrow> parse_number neg (show_nat n @ r) = Some (JInt (if neg then - int n else int n), r)"
  using stops_not_digit [of r] stops_no_frac [of r] stops_no_exp [of r]
    int_part_digits [OF show_nat_digits show_nat_nonempty show_nat_leading, of r n]
  by (simp add: parse_number_def)

subsection \<open>Floats\<close>

definition canon_float :: "pyfloat \<Rightarrow> bool" where
  "canon_float x = (case x of
     Fin m e \<Rightarrow> (if m = 0 then e = 0 else \<not> 10 dvd m) \<and> \<not> dec_overflow m e
   | _ \<Rightarrow> False)"

lemma trim_dec_canon: "canon_float (Fin m e) \<Longrightarrow> trim_dec m e = (m, e)"
  by (subst trim_dec.simps) (auto simp: canon_float_def split: if_splits)

lemma norm_dec_canon: "canon_float (Fin m e) \<Longrightarrow> norm_dec m e = Fin m e"
  by (simp add: norm_dec_def trim_dec_canon) (simp add: canon_float_def)

lemma norm_dec_0: "norm_dec 0 e = Fin 0 0"
  by (subst norm_dec_def, subst trim_dec.simps) simp

lemma trim_dec_shift: "m \<noteq> 0 \<Longrightarrow> trim_dec (m * 10 ^ k) (e - int k) = trim_dec m e"
proof (induction k arbitrary: e)
  case (Suc k)
  have "trim_dec (m * 10 ^ Suc k) (e - int (Suc k)) = trim_dec (m * 10 ^ k) (e - int k)"
    using Suc.prems by (subst trim_dec.simps) (auto simp: algebra_simps)
  with Suc show ?case by simp
qed simp

lemma norm_dec_shift: "m \<noteq> 0 \<Longrightarrow> norm_dec (m * 10 ^ k) (e - int k) = norm_dec m e"
  by (simp add: norm_dec_def trim_dec_shift)

lemma norm_dec_shift_canon:
  "canon_float (Fin m e) \<Longrightarrow> m \<noteq> 0 \<Longrightarrow> e' = e - int k \<Longrightarrow> norm_dec (m * 10 ^ k) e' = Fin m e"
  by (simp add: norm_dec_shift norm_dec_canon)

lemma parse_frac_digits:
  assumes "list_all is_digit ds" "ds \<noteq> []" "takeWhile is_digit r = []"
  shows "parse_frac (CHR ''.'' # ds @ r) = (ds, r)"
  using assms by (auto simp: parse_frac_def take_digits_show list_all_takeWhile)

lemma parse_frac_none: "r = [] \<or> hd r \<noteq> CHR ''.'' \<Longrightarrow> parse_frac r = ([], r)"
  by (cases r) (auto simp: parse_frac_def)

text \<open>The text of a mantissa with an optional fraction and an optional exponent\<close>

lemma parse_number_float:
  assumes "list_all is_digit is" "is \<noteq> []" "hd is \<noteq> CHR ''0'' \<or> is = ''0''"
    and "list_all is_digit fs" and "takeWhile is_digit r = []" and "hd r \<noteq> CHR ''.'' \<or> r = []"
    and "fs \<noteq> [] \<or> fst (parse_exp r) \<noteq> None"
  shows "parse_number neg (is @ (if fs = [] then [] else CHR ''.'' # fs) @ r) =
    (let (ex, r') = parse_exp r; m = int (digits_val (is @ fs)) in
     Some (JFloat (norm_dec (if neg then - m else m) ((case ex of None \<Rightarrow> 0 | Some e \<Rightarrow> e) - int (length fs))), r'))"
proof (cases "fs = []")
  case True
  with assms have "int_part (is @ r) = (is, r)" "parse_frac r = ([], r)"
    by (auto intro!: int_part_digits parse_frac_none)
  with True assms show ?thesis by (auto simp: parse_number_def split: prod.splits)
next
  case False
  with assms have "int_part (is @ CHR ''.'' # fs @ r) = (is, CHR ''.'' # fs @ r)"
    by (intro int_part_digits) (auto simp: is_digit_def)
  moreover have "parse_frac (CHR ''.'' # fs @ r) = (fs, r)"
    using False assms by (intro parse_frac_digits) auto
  ultimately show ?thesis using False assms by (auto simp: parse_number_def split: prod.splits)
qed


definition exp_digits :: "nat \<Rightarrow> string" where
  "exp_digits q = (if q < 10 then CHR ''0'' # show_nat q else show_nat q)"

lemma exp_digits_facts:
  "list_all is_digit (exp_digits q)" "exp_digits q \<noteq> []" "digits_val (exp_digits q) = q"
  using show_nat_digits [of q] digits_val_append [of "''0''" "show_nat q"]
  by (auto simp: exp_digits_def is_digit_def) (simp_all add: digits_val_def digit_val_def)

lemma parse_exp_sci:
  assumes "stops r"
  shows "parse_exp (CHR ''e'' # (if neg then CHR ''-'' else CHR ''+'') # exp_digits q @ r) =
    (Some (if neg then - int q else int q), r)"
  using stops_not_digit [OF assms] exp_digits_facts [of q]
  by (auto simp: parse_exp_def parse_sign_def take_digits_show)

lemma parse_sci:
  assumes "stops r" "list_all is_digit ds" "ds \<noteq> []" "hd ds \<noteq> CHR ''0''"
  shows "parse_number neg ([hd ds] @ (if tl ds = [] then [] else CHR ''.'' # tl ds) @
      CHR ''e'' # (if en then CHR ''-'' else CHR ''+'') # exp_digits q @ r) =
    Some (JFloat (norm_dec (if neg then - int (digits_val ds) else int (digits_val ds))
      ((if en then - int q else int q) - int (length ds - 1))), r)"
proof -
  let ?t = "CHR ''e'' # (if en then CHR ''-'' else CHR ''+'') # exp_digits q @ r"
  have "ds = [hd ds] @ tl ds" using assms by simp
  moreover have "list_all is_digit [hd ds]" "list_all is_digit (tl ds)"
    using assms by (cases ds; auto)+
  moreover have "takeWhile is_digit ?t = []" by (simp add: is_digit_def)
  ultimately show ?thesis
    using parse_number_float [of "[hd ds]" "tl ds" ?t neg] assms parse_exp_sci [OF assms(1), of en q]
    by (simp add: Let_def)
qed

lemma parse_positional:
  assumes "stops r" "list_all is_digit is" "is \<noteq> []" "hd is \<noteq> CHR ''0'' \<or> is = ''0''"
    and "list_all is_digit fs" "fs \<noteq> []"
  shows "parse_number neg (is @ CHR ''.'' # fs @ r) =
    Some (JFloat (norm_dec (if neg then - int (digits_val (is @ fs)) else int (digits_val (is @ fs)))
      (- int (length fs))), r)"
  using parse_number_float [of "is" fs r neg] assms stops_not_digit [OF assms(1)]
    stops_no_exp [OF assms(1)]
  by (auto simp: stops_def Let_def)

lemma parse_repr:
  assumes r: "stops r" and c: "canon_float (Fin m e)"
  shows "parse_number (m < 0) (repr_digits (show_nat (nat \<bar>m\<bar>)) e @ r) = Some (JFloat (Fin m e), r)"
proof -
  let ?ds = "show_nat (nat \<bar>m\<bar>)"
  define n p where "n = int (length ?ds)" and "p = n + e"
  have ds: "list_all is_digit ?ds" "?ds \<noteq> []" "int (digits_val ?ds) = \<bar>m\<bar>"
    by (simp_all add: show_nat_digits)
  have n: "n \<ge> 1" using ds(2) by (cases ?ds) (auto simp: n_def)
  have sgn: "(if m < 0 then - \<bar>m\<bar> else \<bar>m\<bar>) = m" by simp
  have canon: "norm_dec m e = Fin m e" using c by (rule norm_dec_canon)
  consider (sci) "\<not> (-4 < p \<and> p \<le> 16)" | (small) "-4 < p" "p \<le> 0"
    | (big) "0 < p" "p \<le> 16" "n \<le> p" | (mid) "0 < p" "p \<le> 16" "p < n" by linarith
  then show ?thesis
  proof cases
    case sci
    then have "m \<noteq> 0" using c n by (auto simp: canon_float_def p_def n_def show_nat_0)
    then have hd: "hd ?ds \<noteq> CHR ''0''" by (simp add: hd_show_nat)
    have A: "repr_digits ?ds e @ r = [hd ?ds] @ (if tl ?ds = [] then [] else CHR ''.'' # tl ?ds) @
      CHR ''e'' # (if p - 1 < 0 then CHR ''-'' else CHR ''+'') # exp_digits (nat \<bar>p - 1\<bar>) @ r"
      using sci by (auto simp: repr_digits_def exp_digits_def p_def n_def Let_def)
    have B: "(if p - 1 < 0 then - int (nat \<bar>p - 1\<bar>) else int (nat \<bar>p - 1\<bar>)) - int (length ?ds - 1) = e"
      using n by (auto simp: p_def n_def of_nat_diff)
    show ?thesis
      using parse_sci [OF r ds(1,2) hd, of "m < 0" "p - 1 < 0" "nat \<bar>p - 1\<bar>"]
      unfolding A B ds(3) sgn canon .
  next
    case small
    then have "m \<noteq> 0" using c n by (auto simp: canon_float_def p_def n_def show_nat_0)
    let ?fs = "replicate (nat (- p)) CHR ''0'' @ ?ds"
    have A: "repr_digits ?ds e @ r = ''0'' @ CHR ''.'' # ?fs @ r"
      using small by (auto simp: repr_digits_def p_def n_def Let_def)
    have B: "digits_val (''0'' @ ?fs) = digits_val ?ds"
      using digits_val_append [of "''0'' @ replicate (nat (- p)) CHR ''0''" ?ds]
        digits_val_zeros [of "Suc (nat (- p))"] by simp
    have C: "list_all is_digit ?fs" "?fs \<noteq> []"
      using ds by (auto simp: list_all_iff is_digit_def)
    have D: "- int (length ?fs) = e" using small by (simp add: p_def n_def)
    have "list_all is_digit ''0''" "''0'' \<noteq> []" "hd ''0'' \<noteq> CHR ''0'' \<or> ''0'' = ''0''"
      by (auto simp: is_digit_def)
    from parse_positional [OF r this C, of "m < 0"] show ?thesis
      unfolding A B D ds(3) sgn canon .
  next
    case big
    let ?is = "?ds @ replicate (nat (p - n)) CHR ''0''"
    have "repr_digits ?ds e @ r = ?is @ CHR ''.'' # ''0'' @ r"
      using big by (auto simp: repr_digits_def p_def n_def Let_def)
    moreover have "digits_val (?is @ ''0'') = digits_val ?ds * 10 ^ (nat e + 1)"
      using digits_val_append [of ?ds "replicate (nat (p - n)) CHR ''0'' @ ''0''"]
        digits_val_zeros [of "Suc (nat (p - n))"]
      by (simp add: p_def replicate_append_same)
    moreover have "list_all is_digit ?is" "?is \<noteq> []"
      using ds by (auto simp: list_all_iff is_digit_def)
    moreover have "hd ?is \<noteq> CHR ''0'' \<or> ?is = ''0''"
      using c big show_nat_leading [of "nat \<bar>m\<bar>"] hd_show_nat [of "nat \<bar>m\<bar>"]
      by (cases "m = 0") (auto simp: canon_float_def p_def n_def show_nat_0)
    ultimately have num: "parse_number (m < 0) (repr_digits ?ds e @ r) =
      Some (JFloat (norm_dec (m * 10 ^ (nat e + 1)) (- 1)), r)"
      using parse_positional [OF r, of ?is "''0''" "m < 0"] ds(3)
      by (simp add: is_digit_def mult.commute [of m] abs_if split: if_splits)
    show ?thesis
    proof (cases "m = 0")
      case True
      then show ?thesis using num c by (simp add: norm_dec_0 canon_float_def)
    next
      case False
      have "norm_dec (m * 10 ^ (nat e + 1)) (- 1) = Fin m e"
        by (rule norm_dec_shift_canon [OF c False]) (use big in \<open>simp add: p_def\<close>)
      with num show ?thesis by simp
    qed
  next
    case mid
    let ?is = "take (nat p) ?ds" and ?fs = "drop (nat p) ?ds"
    have "repr_digits ?ds e @ r = ?is @ CHR ''.'' # ?fs @ r"
      using mid by (auto simp: repr_digits_def p_def n_def Let_def)
    moreover have "list_all is_digit ?is" "list_all is_digit ?fs"
      using ds(1) by (auto simp: list_all_iff dest: in_set_takeD in_set_dropD)
    moreover have "?is \<noteq> []" "?fs \<noteq> []" using mid n by (auto simp: n_def)
    moreover have "hd ?is \<noteq> CHR ''0''"
    proof -
      have "m \<noteq> 0" using c mid by (auto simp: canon_float_def p_def n_def show_nat_0)
      then show ?thesis using mid hd_show_nat [of "nat \<bar>m\<bar>"] by (cases ?ds) (auto simp: hd_take)
    qed
    moreover have "- int (length ?fs) = e" using mid by (simp add: p_def n_def of_nat_diff)
    ultimately show ?thesis
      using parse_positional [OF r, of ?is ?fs "m < 0"] ds(3) canon sgn by simp
  qed
qed

subsection \<open>Strings\<close>

lemma hex_digit_val: "n < 16 \<Longrightarrow> hex_val (hex_digit n) = Some n"
proof -
  assume "n < 16"
  then have "n \<in> set [0..<16]" by simp
  moreover have "list_all (\<lambda>n. hex_val (hex_digit n) = Some n) [0..<16]"
    by (simp add: upt_rec hex_digit_def hex_val_def)
  ultimately show ?thesis by (simp only: list_all_iff)
qed

lemma parse_chars_hex4:
  "parse_chars (hex4 c @ s) = map_option (\<lambda>(cs, r). (c # cs, r)) (parse_chars s)"
proof -
  let ?n = "(of_char c :: nat)"
  have "unat (word_of_nat ?n :: byte) = ?n"
    by (simp add: unat_of_nat)
  moreover have "?n div 16 < 16"
    using nat_of_char_less_256 [of c] by (simp add: less_mult_imp_div_less)
  moreover have "char_of (?n div 16 * 16 + ?n mod 16) = c" by simp
  ultimately show ?thesis
    by (simp add: hex4_def hex_byte_def hex_digit_val)
qed

lemma char_by_code:
  "(of_char c :: nat) = 34 \<Longrightarrow> c = CHR 0x22" "(of_char c :: nat) = 92 \<Longrightarrow> c = CHR 0x5C"
  "(of_char c :: nat) = 10 \<Longrightarrow> c = CHR 0x0A" "(of_char c :: nat) = 13 \<Longrightarrow> c = CHR 0x0D"
  "(of_char c :: nat) = 9 \<Longrightarrow> c = CHR 0x09" "(of_char c :: nat) = 12 \<Longrightarrow> c = CHR 0x0C"
  "(of_char c :: nat) = 8 \<Longrightarrow> c = CHR 0x08"
  by (rule iffD1 [OF of_char_eq_iff [where 'a = nat]]; simp)+

lemma parse_chars_escape:
  "parse_chars (escape_char a c @ s) = map_option (\<lambda>(cs, r). (c # cs, r)) (parse_chars s)"
proof -
  let ?n = "(of_char c :: nat)"
  consider "?n \<in> {34, 92, 10, 13, 9, 12, 8}"
    | (hex) "?n \<notin> {34, 92, 10, 13, 9, 12, 8}" "?n < 32 \<or> a \<and> 127 \<le> ?n"
    | (raw) "?n \<notin> {34, 92, 10, 13, 9, 12, 8}" "\<not> ?n < 32" "\<not> (a \<and> 127 \<le> ?n)"
    by blast
  then show ?thesis
  proof cases
    case 1
    then consider "c = CHR 0x22" | "c = CHR 0x5C" | "c = CHR 0x0A" | "c = CHR 0x0D"
      | "c = CHR 0x09" | "c = CHR 0x0C" | "c = CHR 0x08"
      using char_by_code [of c] by blast
    then show ?thesis by cases (simp_all add: escape_char_def unescape_def)
  next
    case hex
    then have "escape_char a c = hex4 c" by (auto simp: escape_char_def)
    then show ?thesis by (simp add: parse_chars_hex4)
  next
    case raw
    then have "escape_char a c = [c]" "c \<noteq> CHR 0x22" "c \<noteq> CHR 0x5C" by (auto simp: escape_char_def)
    with raw show ?thesis by simp
  qed
qed

lemma parse_chars_show: "parse_chars (concat (map (escape_char a) s) @ CHR 0x22 # r) = Some (s, r)"
  by (induction s) (simp_all add: parse_chars_escape)

subsection \<open>Values\<close>

text \<open>The values a program builds: distinct keys, finite floats in shortest form\<close>

fun json_ok :: "json \<Rightarrow> bool" where
  "json_ok (JArr xs) = (\<forall>x \<in> set xs. json_ok x)"
| "json_ok (JObj d) = (distinct (map fst d) \<and> (\<forall>p \<in> set d. json_ok (snd p)))"
| "json_ok (JFloat x) = canon_float x"
| "json_ok _ = True"

lemma canon_float_finite: "canon_float x \<Longrightarrow> float_finite x"
  by (cases x) (auto simp: canon_float_def)

lemma json_ok_wf: "json_ok v \<Longrightarrow> json_wf v" and json_ok_finite: "json_ok v \<Longrightarrow> json_finite v"
  by (induction v rule: json_ok.induct) (auto simp: canon_float_finite)

text \<open>The first character of a value decides how it is scanned.\<close>

lemma digit_first:
  "is_digit c \<Longrightarrow> c \<notin> {CHR 0x22, CHR ''['', CHR ''{'', CHR ''-'', CHR ''n'', CHR ''t'', CHR ''f'', CHR ''N'', CHR ''I''}
    \<and> \<not> is_ws c \<and> c \<notin> {CHR '','', CHR '']'', CHR ''}'', CHR '':''}"
  by (auto simp: is_digit_def is_ws_def)

lemma literal_none_digit: "is_digit c \<Longrightarrow> parse_literal literals (c # s) = None"
  using digit_first [of c] by (auto simp: literals_def strip_prefix_def)

lemma literal_none_minus: "is_digit c \<Longrightarrow> parse_literal literals (CHR ''-'' # c # s) = None"
  using digit_first [of c] by (auto simp: literals_def strip_prefix_def)

lemma parse_value_number:
  assumes "is_digit c"
  shows "parse_value (Suc n) (c # s) = parse_number False (c # s)"
    and "parse_value (Suc n) (CHR ''-'' # c # s) = parse_number True (c # s)"
  using assms digit_first [of c] by (auto simp: literal_none_digit literal_none_minus)

lemma show_nat_Cons: obtains c s where "show_nat n = c # s" "is_digit c"
  using show_nat_digits [of n] show_nat_nonempty [of n] by (cases "show_nat n") auto

lemma repr_digits_Cons:
  assumes "list_all is_digit ds" "ds \<noteq> []"
  obtains c s where "repr_digits ds e = c # s" "is_digit c"
proof -
  have "\<exists>c s. repr_digits ds e = c # s \<and> is_digit c"
    using assms by (cases ds) (auto simp: repr_digits_def Let_def is_digit_def take_Cons')
  then show thesis using that by blast
qed

lemma parse_value_int: "stops r \<Longrightarrow> parse_value (Suc n) (show_int i @ r) = Some (JInt i, r)"
proof -
  assume r: "stops r"
  obtain c s where c: "show_nat (nat \<bar>i\<bar>) = c # s" "is_digit c" by (rule show_nat_Cons)
  have "parse_number (i < 0) (show_nat (nat \<bar>i\<bar>) @ r) = Some (JInt i, r)"
    using parse_number_nat [OF r, of "i < 0" "nat \<bar>i\<bar>"] by (auto split: if_splits)
  then show ?thesis
    using c parse_value_number [OF c(2), of n] by (cases "i < 0") (auto simp: show_int_def simp del: parse_value.simps)
qed

lemma parse_value_float:
  assumes r: "stops r" and c: "canon_float x"
  shows "parse_value (Suc n) (show_float x @ r) = Some (JFloat x, r)"
proof -
  obtain m e where x: "x = Fin m e" using canon_float_finite [OF c] by (cases x) auto
  obtain d s where d: "repr_digits (show_nat (nat \<bar>m\<bar>)) e = d # s" "is_digit d"
    by (rule repr_digits_Cons [OF show_nat_digits show_nat_nonempty])
  show ?thesis
    using parse_repr [OF r c [unfolded x]] parse_value_number [OF d(2), of n] d(1)
    by (auto simp: x simp del: parse_value.simps)
qed

lemma render_first:
  "json_ok v \<Longrightarrow> \<exists>c s. render a v = c # s \<and> \<not> is_ws c \<and> c \<notin> {CHR '','', CHR '']'', CHR ''}'', CHR '':''}"
proof (cases v)
  case (JInt i)
  obtain c s where "show_nat (nat \<bar>i\<bar>) = c # s" "is_digit c" by (rule show_nat_Cons)
  then show ?thesis using JInt digit_first [of c] by (auto simp: show_int_def is_ws_def)
next
  case (JFloat x)
  moreover assume "json_ok v"
  ultimately obtain m e where x: "x = Fin m e" using canon_float_finite [of x] by (cases x) auto
  obtain d s where "repr_digits (show_nat (nat \<bar>m\<bar>)) e = d # s" "is_digit d"
    by (rule repr_digits_Cons [OF show_nat_digits show_nat_nonempty])
  then show ?thesis using JFloat x digit_first [of d] by (auto simp: is_ws_def)
qed (auto simp: show_str_def is_ws_def)

lemma skip_ws_id: "\<not> is_ws c \<Longrightarrow> skip_ws (c # s) = c # s"
  by (simp add: skip_ws_def)

lemma skip_ws_render: "json_ok v \<Longrightarrow> skip_ws (render a v @ r) = render a v @ r"
  using render_first [of v a] by (auto simp: skip_ws_id)

subsection \<open>Round trip\<close>

lemma stops_intros:
  "stops ('','' @ r)" "stops ('']'' @ r)" "stops (''}'' @ r)"
  "stops (CHR '','' # r)" "stops (CHR '']'' # r)" "stops (CHR ''}'' # r)"
  by (auto simp: stops_def)

lemma skip_ws_quote: "skip_ws (show_str a k @ r) = show_str a k @ r"
  by (simp add: show_str_def skip_ws_id is_ws_def)

lemma skip_ws_marks:
  "skip_ws (CHR '','' # r) = CHR '','' # r" "skip_ws (CHR '']'' # r) = CHR '']'' # r"
  "skip_ws (CHR ''}'' # r) = CHR ''}'' # r" "skip_ws (CHR '':'' # r) = CHR '':'' # r"
  "skip_ws (CHR 0x22 # r) = CHR 0x22 # r"
  by (auto simp: skip_ws_id is_ws_def)

lemma parse_value_literal:
  "parse_value (Suc n) (''null'' @ r) = Some (JNull, r)"
  "parse_value (Suc n) (''true'' @ r) = Some (JBool True, r)"
  "parse_value (Suc n) (''false'' @ r) = Some (JBool False, r)"
  by (auto simp: literals_def strip_prefix_def)

lemma render_pos: "json_ok v \<Longrightarrow> 0 < length (render a v)"
  using render_first [of v a] by auto

lemma parse_items_single:
  assumes "parse_value n (t @ '']'' @ r) = Some (v, '']'' @ r)"
  shows "parse_items (Suc n) (t @ '']'' @ r) = Some ([v], r)"
  using assms by (simp add: skip_ws_marks)

lemma parse_items_more:
  assumes "parse_value n (t @ '','' @ u) = Some (v, '','' @ u)"
    and "parse_items n (skip_ws u) = Some (xs, r)"
  shows "parse_items (Suc n) (t @ '','' @ u) = Some (v # xs, r)"
  using assms by (simp add: skip_ws_marks)

lemma parse_fields_last:
  assumes "parse_value n (skip_ws (t @ ''}'' @ r)) = Some (v, ''}'' @ r)"
  shows "parse_fields (Suc n) acc (show_str a k @ '':'' @ t @ ''}'' @ r) = Some (AList.update k v acc, r)"
  using assms by (simp add: show_str_def parse_chars_show skip_ws_marks)

lemma parse_fields_more:
  assumes "parse_value n (skip_ws (t @ '','' @ u)) = Some (v, '','' @ u)"
    and "parse_fields n (AList.update k v acc) (skip_ws u) = Some (d, r)"
  shows "parse_fields (Suc n) acc (show_str a k @ '':'' @ t @ '','' @ u) = Some (d, r)"
  using assms by (simp add: show_str_def parse_chars_show skip_ws_marks)

lemma render_items_first:
  "xs \<noteq> [] \<Longrightarrow> \<forall>x \<in> set xs. json_ok x \<Longrightarrow>
    \<exists>c s. render_items a xs = c # s \<and> \<not> is_ws c \<and> c \<noteq> CHR '']''"
  using render_first [of "hd xs" a] by (cases xs) auto

lemma render_fields_first:
  "d \<noteq> [] \<Longrightarrow> \<exists>s. render_fields a d = CHR 0x22 # s"
  by (cases d) (auto simp: show_str_def)

lemma parse_value_arr:
  assumes "xs \<noteq> []" "\<forall>x \<in> set xs. json_ok x"
    and "parse_items n (render_items a xs @ '']'' @ r) = Some (xs, r)"
  shows "parse_value (Suc n) (render a (JArr xs) @ r) = Some (JArr xs, r)"
  using render_items_first [OF assms(1,2), of a] assms(3) by (auto simp: skip_ws_id)

lemma parse_value_obj:
  assumes "d \<noteq> []" and "parse_fields n [] (render_fields a d @ ''}'' @ r) = Some (d, r)"
  shows "parse_value (Suc n) (render a (JObj d) @ r) = Some (JObj d, r)"
  using render_fields_first [OF assms(1), of a] assms(2) by (auto simp: skip_ws_marks)

lemma parse_render:
  "json_ok v \<Longrightarrow> stops r \<Longrightarrow> length (render a v) \<le> n \<Longrightarrow> parse_value n (render a v @ r) = Some (v, r)"
  "xs \<noteq> [] \<Longrightarrow> \<forall>x \<in> set xs. json_ok x \<Longrightarrow> length (render_items a xs) < m \<Longrightarrow>
     parse_items m (render_items a xs @ '']'' @ r') = Some (xs, r')"
  "d \<noteq> [] \<Longrightarrow> \<forall>p \<in> set d. json_ok (snd p) \<Longrightarrow> distinct (map fst (acc @ d)) \<Longrightarrow>
     length (render_fields a d) < k \<Longrightarrow>
     parse_fields k acc (render_fields a d @ ''}'' @ r'') = Some (acc @ d, r'')"
proof (induction a v and a xs and a d arbitrary: r n and r' m and acc r'' k
    rule: render_render_items_render_fields.induct)
  case (1 a)
  then obtain n' where "n = Suc n'" by (cases n) auto
  then show ?case by (simp only: render.simps parse_value_literal)
next
  case (2 a b)
  then obtain n' where "n = Suc n'" by (cases n) (auto split: if_splits)
  then show ?case by (cases b) (simp_all only: render.simps parse_value_literal if_True if_False)
next
  case (3 a i)
  then obtain n' where "n = Suc n'" by (cases n) (auto simp: show_int_def split: if_splits)
  with 3 show ?case by (simp add: parse_value_int del: parse_value.simps)
next
  case (4 a x)
  then obtain n' where "n = Suc n'" using render_pos [of "JFloat x" a] by (cases n) auto
  with 4 show ?case by (simp add: parse_value_float del: parse_value.simps)
next
  case (5 a s)
  then obtain n' where "n = Suc n'" by (cases n) (auto simp: show_str_def)
  then show ?case by (simp add: show_str_def parse_chars_show)
next
  case (6 a xs)
  then obtain n' where n: "n = Suc n'" by (cases n) auto
  show ?case
  proof (cases "xs = []")
    case True
    then show ?thesis by (simp add: n skip_ws_marks)
  next
    case False
    with 6 n have "parse_items n' (render_items a xs @ '']'' @ r) = Some (xs, r)"
      by (intro "6.IH") auto
    with False 6 show ?thesis unfolding n by (intro parse_value_arr) auto
  qed
next
  case (7 a d)
  then obtain n' where n: "n = Suc n'" by (cases n) auto
  show ?case
  proof (cases "d = []")
    case True
    then show ?thesis by (simp add: n skip_ws_marks)
  next
    case False
    with 7 n have "parse_fields n' [] (render_fields a d @ ''}'' @ r) = Some ([] @ d, r)"
      by (intro "7.IH") auto
    with False show ?thesis unfolding n by (intro parse_value_obj) auto
  qed
next
  case (9 a x xs)
  then obtain m' where m: "m = Suc m'" by (cases m) auto
  show ?case
  proof (cases "xs = []")
    case True
    with 9 m have "parse_value m' (render a x @ '']'' @ r') = Some (x, '']'' @ r')"
      by (intro "9.IH"(1)) (auto simp: stops_intros)
    with True show ?thesis unfolding m by (simp add: parse_items_single del: parse_items.simps append.simps)
  next
    case False
    with 9 m have x: "parse_value m' (render a x @ '','' @ render_items a xs @ '']'' @ r')
        = Some (x, '','' @ render_items a xs @ '']'' @ r')"
      by (intro "9.IH"(1)) (auto simp: stops_intros)
    from False 9 m have xs: "parse_items m' (render_items a xs @ '']'' @ r') = Some (xs, r')"
      by (intro "9.IH"(2)) auto
    have "skip_ws (render_items a xs @ '']'' @ r') = render_items a xs @ '']'' @ r'"
      using render_items_first [of xs a] False 9 by (auto simp: skip_ws_id)
    with parse_items_more [OF x] xs False show ?thesis unfolding m by simp
  qed
next
  case (11 a k' v d)
  then obtain k0 where k: "k = Suc k0" by (cases k) auto
  have acc: "map_of acc k' = None" using 11 by (auto simp: map_of_eq_None_iff)
  have v: "json_ok v" using 11 by simp
  show ?case
  proof (cases "d = []")
    case True
    with 11 k have "parse_value k0 (render a v @ ''}'' @ r'') = Some (v, ''}'' @ r'')"
      by (intro "11.IH"(1)) (auto simp: stops_intros)
    with parse_fields_last [of k0 "render a v" r'' v acc a k'] True show ?thesis
      unfolding k by (simp add: skip_ws_render [OF v] update_absent [OF acc] del: parse_fields.simps)
  next
    case False
    let ?u = "render_fields a d @ ''}'' @ r''"
    from False 11 k have x: "parse_value k0 (render a v @ '','' @ ?u) = Some (v, '','' @ ?u)"
      by (intro "11.IH"(1)) (auto simp: stops_intros)
    from False 11 k have d: "parse_fields k0 (acc @ [(k', v)]) ?u = Some ((acc @ [(k', v)]) @ d, r'')"
      by (intro "11.IH"(2)) auto
    have "skip_ws ?u = ?u"
      using render_fields_first [OF False, of a] by (auto simp: skip_ws_marks)
    with parse_fields_more [of k0 "render a v" ?u v k' acc "acc @ (k', v) # d" r'' a] x d False
    show ?thesis unfolding k
      by (simp add: skip_ws_render [OF v] update_absent [OF acc] del: parse_fields.simps)
  qed
qed auto

lemma loads_render: "json_ok v \<Longrightarrow> loads (render a v) = Some v"
  using parse_render(1) [of v "[]" a "Suc (length (render a v))"] skip_ws_render [of v a "[]"]
  by (simp add: loads_def stops_def skip_ws_def del: parse_value.simps)

lemma distinct_keys_sort: "distinct (map fst (sort_key f xs)) = distinct (map fst xs)"
  by (rule mset_eq_imp_distinct_iff) simp

lemma sort_json_ok: "json_ok v \<Longrightarrow> json_ok (sort_json v)"
proof (induction v rule: json_ok.induct)
  case (2 d)
  let ?d = "map (\<lambda>(k, v). (k, sort_json v)) d"
  have keys: "map fst ?d = map fst d" by (induction d) auto
  have "distinct (map fst (sort_key fst ?d))"
    unfolding distinct_keys_sort keys using 2 by simp
  moreover have "\<forall>p \<in> set ?d. json_ok (snd p)" using 2 by auto
  ultimately show ?case by simp
qed auto

lemma loads_dumps: "json_ok v \<Longrightarrow> dumps a v = Some t \<Longrightarrow> loads t = Some (sort_json v)"
  using loads_render [OF sort_json_ok] by (auto simp: dumps_def split: if_splits)

lemma dumps_total: "json_ok v \<Longrightarrow> \<exists>t. dumps a v = Some t"
  by (simp add: dumps_def json_ok_finite)

subsection \<open>UTF-8 round trip\<close>

lemma utf8_decode_pair:
  assumes "unat b = 194 \<or> unat b = 195" and "128 \<le> unat c" and "unat c < 192"
  shows "utf8_decode (b # c # bs) =
    map_option (Cons (char_of ((unat b - 192) * 64 + (unat c - 128)))) (utf8_decode bs)"
  using assms by (elim disjE) (simp_all add: Let_def)

lemma unat_of_byte: "m < 256 \<Longrightarrow> unat (word_of_nat m :: byte) = m"
  by (simp add: unat_of_nat)

lemma unat_cont_byte: "unat (word_of_nat (128 + n mod 64) :: byte) = 128 + n mod 64"
proof -
  have "n mod 64 < 64" by simp
  then have "128 + n mod 64 < 256" by linarith
  then show ?thesis by (rule unat_of_byte)
qed

lemma high_div_64: "128 \<le> n \<Longrightarrow> n < 256 \<Longrightarrow> n div 64 = 2 \<or> n div 64 = (3 :: nat)"
  by linarith

lemma utf8_decode_char: "utf8_decode (utf8_char c @ bs) = map_option (Cons c) (utf8_decode bs)"
proof (cases "(of_char c :: nat) < 128")
  case True
  then show ?thesis by (simp add: utf8_char_def unat_of_nat Let_def)
next
  case False
  let ?n = "(of_char c :: nat)"
  let ?b = "word_of_nat (192 + ?n div 64) :: byte" and ?c = "word_of_nat (128 + ?n mod 64) :: byte"
  have d: "?n div 64 = 2 \<or> ?n div 64 = 3"
    using False by (intro high_div_64) auto
  have b: "unat ?b = 192 + ?n div 64" by (rule unat_of_byte) (use d in linarith)
  have c: "unat ?c = 128 + ?n mod 64"
    by (rule unat_cont_byte)
  have "(unat ?b - 192) * 64 + (unat ?c - 128) = ?n div 64 * 64 + ?n mod 64" unfolding b c by simp
  then have "char_of ((unat ?b - 192) * 64 + (unat ?c - 128)) = c" by (simp only: div_mult_mod_eq char_of_char)
  moreover have "utf8_char c = [?b, ?c]" using False by (simp add: utf8_char_def Let_def)
  moreover have "?n mod 64 < 64" by (rule mod_less_divisor) simp
  then have cb: "unat ?c < 192" "128 \<le> unat ?c" unfolding c by linarith+
  moreover have bb: "unat ?b = 194 \<or> unat ?b = 195" unfolding b using d by auto
  ultimately show ?thesis
    using utf8_decode_pair [OF bb cb(2,1), of bs] by simp
qed

lemma utf8_decode_utf8: "utf8_decode (utf8 s) = Some s"
  by (induction s) (auto simp: utf8_def utf8_decode_char)

end
