(* ===== verification/PyUuid.thy ===== *)
theory PyUuid
  imports Hashes
begin

text \<open>
  \<open>uuid.UUID\<close> as a 128-bit word: its 16 bytes, its canonical text and the parser behind
  \<open>uuid.UUID(text)\<close>, which drops \<open>urn:\<close>, \<open>uuid:\<close>, braces and dashes and reads the 32
  characters that remain with \<open>int(text, 16)\<close>.
\<close>

type_synonym uuid = "128 word"

definition uuid_bytes :: "uuid \<Rightarrow> bytes" where
  "uuid_bytes u = be_bytes 16 (unat u)"

definition uuid_of_bytes :: "bytes \<Rightarrow> uuid" where
  "uuid_of_bytes bs = word_of_nat (be_nat bs)"

lemma length_uuid_bytes [simp]: "length (uuid_bytes u) = 16"
  by (simp add: uuid_bytes_def)

lemma uuid_of_bytes_bytes [simp]: "uuid_of_bytes (uuid_bytes u) = u"
proof -
  have "unat u < 256 ^ 16" using unsigned_less [of u] by simp
  then show ?thesis by (simp add: uuid_of_bytes_def uuid_bytes_def be_nat_be_bytes)
qed

subsection \<open>\<open>str(u)\<close>\<close>

definition uuid_str :: "uuid \<Rightarrow> string" where
  "uuid_str u = (let h = hex (uuid_bytes u) in
     take 8 h @ ''-'' @ take 4 (drop 8 h) @ ''-'' @ take 4 (drop 12 h) @ ''-''
     @ take 4 (drop 16 h) @ ''-'' @ drop 20 h)"

lemma length_uuid_str [simp]: "length (uuid_str u) = 36"
  by (simp add: uuid_str_def Let_def)

lemma uuid_str_nonempty [simp]: "uuid_str u \<noteq> []"
proof
  assume "uuid_str u = []"
  then have "length (uuid_str u) = 0" by simp
  then show False by simp
qed

subsection \<open>\<open>uuid.UUID(text)\<close>\<close>

text \<open>\<open>s.replace(p, '')\<close> for a non-empty \<open>p\<close>\<close>

function remove_all :: "string \<Rightarrow> string \<Rightarrow> string" where
  "remove_all p s =
     (if p = [] \<or> s = [] then s
      else if starts_with p s then remove_all p (drop (length p) s)
      else hd s # remove_all p (tl s))"
  by pat_completeness auto
termination
  by (relation "measure (\<lambda>(p, s). length s)") (auto simp: neq_Nil_conv)

declare remove_all.simps [simp del]

definition strip_braces :: "string \<Rightarrow> string" where
  "strip_braces s = rev (dropWhile (\<lambda>c. c \<in> set ''{}'') (rev (dropWhile (\<lambda>c. c \<in> set ''{}'') s)))"

definition hexit :: "char \<Rightarrow> nat option" where
  "hexit c = (let n = (of_char c :: nat) in
     if 48 \<le> n \<and> n \<le> 57 then Some (n - 48)
     else if 97 \<le> n \<and> n \<le> 102 then Some (n - 87)
     else if 65 \<le> n \<and> n \<le> 70 then Some (n - 55)
     else None)"

text \<open>
  \<open>int(s, 16)\<close>: surrounding blanks, a sign, the prefix \<open>0x\<close> and single underscores
  between digits are accepted.
\<close>

fun hex_digits :: "nat \<Rightarrow> bool \<Rightarrow> string \<Rightarrow> nat option" where
  "hex_digits acc pend [] = (if pend then None else Some acc)"
| "hex_digits acc pend (c # s) =
     (if c = CHR ''_'' then (if pend then None else hex_digits acc True s)
      else case hexit c of None \<Rightarrow> None | Some d \<Rightarrow> hex_digits (16 * acc + d) False s)"

definition int16 :: "string \<Rightarrow> int option" where
  "int16 s =
     (let t = py_strip s;
          neg = (t \<noteq> [] \<and> hd t = CHR ''-'');
          t = (if t \<noteq> [] \<and> hd t \<in> {CHR ''-'', CHR ''+''} then tl t else t);
          prefixed = (starts_with ''0x'' t \<or> starts_with ''0X'' t);
          t = (if prefixed then drop 2 t else t);
          t = (if prefixed \<and> t \<noteq> [] \<and> hd t = CHR ''_'' then tl t else t)
      in if t = [] \<or> hd t = CHR ''_'' then None
         else map_option (\<lambda>n. if neg then - int n else int n) (hex_digits 0 False t))"

definition uuid_parse :: "string \<Rightarrow> uuid option" where
  "uuid_parse s =
     (let h = remove_all ''-'' (strip_braces (remove_all ''uuid:'' (remove_all ''urn:'' s))) in
      if length h \<noteq> 32 then None
      else case int16 h of
        None \<Rightarrow> None
      | Some i \<Rightarrow> if 0 \<le> i \<and> i < 2 ^ 128 then Some (word_of_int i) else None)"

subsection \<open>Parsing the canonical text\<close>

lemma remove_all_absent: "p \<noteq> [] \<Longrightarrow> hd p \<notin> set s \<Longrightarrow> remove_all p s = s"
proof (induction s)
  case (Cons c s)
  then have "\<not> starts_with p (c # s)" by (cases p) (auto simp: starts_with_def)
  with Cons show ?case by (subst remove_all.simps) simp
qed (simp add: remove_all.simps)

lemma remove_dash: "remove_all ''-'' s = filter (\<lambda>c. c \<noteq> CHR ''-'') s"
proof (induction s)
  case (Cons c s)
  then show ?case by (subst remove_all.simps) (simp add: starts_with_def)
qed (simp add: remove_all.simps)

lemma dropWhile_none: "list_all (\<lambda>c. \<not> p c) t \<Longrightarrow> dropWhile p t = t"
  by (cases t) auto

lemma strip_braces_id: "list_all (\<lambda>c. c \<notin> set ''{}'') s \<Longrightarrow> strip_braces s = s"
  unfolding strip_braces_def by (simp add: dropWhile_none list_all_iff)

lemma py_strip_id: "list_all (\<lambda>c. \<not> is_space c) s \<Longrightarrow> py_strip s = s"
  unfolding py_strip_def by (simp add: dropWhile_none list_all_iff)

lemma hex_char_facts:
  assumes "is_lower_hex c"
  shows "\<not> is_space c" "c \<notin> set ''-+_xX{}u''" "hexit c \<noteq> None"
  using assms by (auto simp: is_lower_hex_def is_space_def hexit_def)

lemma hexit_hex_digit: "n < 16 \<Longrightarrow> hexit (hex_digit n) = Some n"
proof -
  assume "n < 16"
  then have "n \<in> set [0,1,2,3,4,5,6,7,8,9,10,11,12,13,14,15]" by (simp; presburger)
  then show ?thesis by (auto simp: hex_digit_def hexit_def)
qed

lemma hex_digits_hex: "hex_digits acc False (hex bs) = Some (256 ^ length bs * acc + be_nat bs)"
proof (induction bs arbitrary: acc)
  case (Cons b bs)
  have d: "unat b div 16 < 16" "unat b mod 16 < 16" using unat_byte_lt [of b] by auto
  have n: "hex_digit n \<noteq> CHR ''_''" if "n < 16" for n
    using hex_char_facts(2) [OF hex_digit_is_hex [OF that]] by auto
  have s: "16 * (16 * acc + unat b div 16) + unat b mod 16 = 256 * acc + unat b"
    by (simp add: algebra_simps)
  have "hex_digits acc False (hex (b # bs)) = hex_digits (256 * acc + unat b) False (hex bs)"
    using d n s by (simp add: hex_def hex_byte_def hexit_hex_digit add.commute)
  also have "\<dots> = Some (256 ^ length bs * (256 * acc + unat b) + be_nat bs)"
    by (rule Cons.IH)
  also have "256 ^ length bs * (256 * acc + unat b) + be_nat bs
      = 256 ^ length (b # bs) * acc + be_nat (b # bs)"
    by (simp add: be_nat_Cons algebra_simps)
  finally show ?case .
qed (simp add: hex_def be_nat_def)

lemma uuid_str_undashed: "filter (\<lambda>c. c \<noteq> CHR ''-'') (uuid_str u) = hex (uuid_bytes u)"
proof -
  let ?h = "hex (uuid_bytes u)"
  have all: "list_all (\<lambda>c. c \<noteq> CHR ''-'') ?h"
    using hex_lower [of "uuid_bytes u"] hex_char_facts(2) by (auto simp: list_all_iff)
  have f: "filter (\<lambda>c. c \<noteq> CHR ''-'') (take n (drop m ?h)) = take n (drop m ?h)" for n m
    using all by (auto simp: filter_id_conv list_all_iff dest!: in_set_takeD in_set_dropD)
  have t: "?h = take 8 ?h @ take 4 (drop 8 ?h) @ take 4 (drop 12 ?h) @ take 4 (drop 16 ?h) @ drop 20 ?h"
    using append_take_drop_id [of 8 ?h] append_take_drop_id [of 4 "drop 8 ?h"]
      append_take_drop_id [of 4 "drop 12 ?h"] append_take_drop_id [of 4 "drop 16 ?h"] by simp
  show ?thesis
    using f [of 8 0] f [of 4 8] f [of 4 12] f [of 4 16] f [of 12 20] t
    by (simp add: uuid_str_def Let_def)
qed

lemma set_uuid_str: "c \<in> set (uuid_str u) \<Longrightarrow> is_lower_hex c \<or> c = CHR ''-''"
proof -
  assume "c \<in> set (uuid_str u)"
  then have "c \<in> set (filter (\<lambda>c. c \<noteq> CHR ''-'') (uuid_str u)) \<or> c = CHR ''-''" by auto
  then show ?thesis
    using hex_lower [of "uuid_bytes u"] by (auto simp: uuid_str_undashed list_all_iff)
qed

lemma int16_hex: "bs \<noteq> [] \<Longrightarrow> int16 (hex bs) = Some (int (be_nat bs))"
proof -
  assume "bs \<noteq> []"
  then obtain c d s where h: "hex bs = c # d # s" by (cases bs) (auto simp: hex_def hex_byte_def)
  have lo: "list_all is_lower_hex (c # d # s)" using hex_lower [of bs] by (simp add: h)
  then have "py_strip (c # d # s) = c # d # s"
    by (intro py_strip_id) (auto simp: list_all_iff dest: hex_char_facts(1))
  moreover have "c \<notin> set ''-+_xX{}u''" "d \<notin> set ''-+_xX{}u''"
    using lo hex_char_facts(2) by auto
  moreover have "hex_digits 0 False (c # d # s) = Some (be_nat bs)"
    using hex_digits_hex [of 0 bs] by (simp add: h)
  ultimately show ?thesis
    by (simp add: int16_def h starts_with_def Let_def del: hex_digits.simps)
qed

lemma uuid_parse_str [simp]: "uuid_parse (uuid_str u) = Some u"
proof -
  let ?b = "uuid_bytes u"
  have no_u: "CHR ''u'' \<notin> set (uuid_str u)"
    using set_uuid_str hex_char_facts(2) [of "CHR ''u''"] by fastforce
  have "remove_all ''uuid:'' (remove_all ''urn:'' (uuid_str u)) = uuid_str u"
    using no_u by (simp add: remove_all_absent)
  moreover have "strip_braces (uuid_str u) = uuid_str u"
    by (rule strip_braces_id) (auto simp: list_all_iff dest!: set_uuid_str hex_char_facts(2))
  ultimately have *: "remove_all ''-'' (strip_braces (remove_all ''uuid:'' (remove_all ''urn:'' (uuid_str u))))
      = hex ?b"
    by (simp add: remove_dash uuid_str_undashed)
  have "?b \<noteq> []" using length_uuid_bytes [of u] by force
  then have "int16 (hex ?b) = Some (int (be_nat ?b))" by (rule int16_hex)
  moreover have "be_nat ?b < 2 ^ 128" using be_nat_bound [of ?b] by simp
  moreover have "word_of_nat (be_nat ?b) = u" using uuid_of_bytes_bytes [of u] by (simp add: uuid_of_bytes_def)
  ultimately show ?thesis by (simp add: uuid_parse_def *)
qed

lemma uuid_str_inj: "uuid_str u = uuid_str v \<longleftrightarrow> u = v"
  by (metis option.inject uuid_parse_str)

end
