(* ===== verification/Frame.thy ===== *)
theory Frame
  imports Messages JsonRoundtrip PyUuid
begin

text \<open>
  \<open>shared_protocol/frame.py\<close>: the binary LIOT frame and the incremental decoder.

  A frame is a 31-byte header (magic, version, type, flags, sequence, command id, payload
  length), the payload as canonical JSON and a CRC-32. The codecs return
  \<open>Inl e\<close> where the code raises: \<open>FrameErr\<close> is \<open>FrameError\<close>, \<open>StructErr\<close> is
  \<open>struct.error\<close>, \<open>PyErr\<close> any other exception, which \<open>decode_frame\<close> does not turn into
  a \<open>FrameError\<close>.
\<close>

subsection \<open>Frames\<close>

record frame =
  f_type :: message_type
  f_flags :: nat
  f_sequence :: nat
  f_command_id :: uuid
  f_payload :: pydict

datatype frame_exc = FrameErr string | PyErr pyexc | StructErr

definition magic :: bytes where
  "magic = [0x4C, 0x49, 0x4F, 0x54]"

definition frame_version :: nat where
  "frame_version = 1"

definition header_size :: nat where
  "header_size = 31"

definition crc_size :: nat where
  "crc_size = 4"

definition default_max_payload :: nat where
  "default_max_payload = 1024 * 1024"

text \<open>\<open>Frame.__post_init__\<close>: what a constructed frame satisfies\<close>

definition make_frame :: "message_type \<Rightarrow> int \<Rightarrow> int \<Rightarrow> uuid \<Rightarrow> json \<Rightarrow> pyexc + frame" where
  "make_frame mt fl sq cid p =
     (if \<not> (0 \<le> fl \<and> fl \<le> 0xFF) then Inl (ValueError ''flags must fit uint8'')
      else if \<not> (0 \<le> sq \<and> sq \<le> 0xFFFFFFFF) then Inl (ValueError ''sequence must fit uint32'')
      else if \<not> is_obj p then Inl (TypeError ''payload must be an object'')
      else Inr \<lparr>f_type = mt, f_flags = nat fl, f_sequence = nat sq, f_command_id = cid,
                f_payload = dict_of p\<rparr>)"

definition frame_ok :: "frame \<Rightarrow> bool" where
  "frame_ok f \<longleftrightarrow> f_flags f < 256 \<and> f_sequence f < 2 ^ 32"

lemma make_frame_ok: "make_frame mt fl sq cid p = Inr f \<Longrightarrow> frame_ok f"
  by (auto simp: make_frame_def frame_ok_def nat_less_iff split: if_splits)

subsection \<open>Encoding\<close>

text \<open>The struct format \<open>>4sBBB I 16s I\<close>\<close>

definition pack_header :: "nat \<Rightarrow> nat \<Rightarrow> nat \<Rightarrow> uuid \<Rightarrow> nat \<Rightarrow> bytes" where
  "pack_header raw_type fl sq cid n =
     magic @ be_bytes 1 frame_version @ be_bytes 1 raw_type @ be_bytes 1 fl @ be_bytes 4 sq
     @ uuid_bytes cid @ be_bytes 4 n"

definition seal_crc :: "bytes \<Rightarrow> bytes" where
  "seal_crc body = body @ be_bytes 4 (unat (crc32 body))"

definition canonical_payload :: "message_type \<Rightarrow> pydict \<Rightarrow> pyexc + bytes" where
  "canonical_payload mt p =
     (case validate_payload mt (JObj p) of
        Some e \<Rightarrow> Inl e
      | None \<Rightarrow> (case dumps False (JObj p) of
           None \<Rightarrow> Inl (ValueError ''payload is not valid JSON'')
         | Some t \<Rightarrow> Inr (utf8 t)))"

definition encode_frame :: "frame \<Rightarrow> nat \<Rightarrow> frame_exc + bytes" where
  "encode_frame f max_len =
     (case canonical_payload (f_type f) (f_payload f) of
        Inl e \<Rightarrow> Inl (PyErr e)
      | Inr body \<Rightarrow>
          if max_len < length body then Inl (FrameErr ''payload length exceeds limit'')
          else if 2 ^ 32 \<le> length body then Inl StructErr
          else Inr (seal_crc (pack_header (type_code (f_type f)) (f_flags f) (f_sequence f)
                 (f_command_id f) (length body) @ body)))"

subsection \<open>Decoding\<close>

text \<open>Fields of the header at the front of \<open>data\<close>, which is at least 31 bytes long\<close>

definition hdr_magic :: "bytes \<Rightarrow> bytes" where
  "hdr_magic data = take 4 data"

definition hdr_version :: "bytes \<Rightarrow> nat" where
  "hdr_version data = be_nat (take 1 (drop 4 data))"

definition hdr_type :: "bytes \<Rightarrow> nat" where
  "hdr_type data = be_nat (take 1 (drop 5 data))"

definition hdr_flags :: "bytes \<Rightarrow> nat" where
  "hdr_flags data = be_nat (take 1 (drop 6 data))"

definition hdr_sequence :: "bytes \<Rightarrow> nat" where
  "hdr_sequence data = be_nat (take 4 (drop 7 data))"

definition hdr_command_id :: "bytes \<Rightarrow> uuid" where
  "hdr_command_id data = uuid_of_bytes (take 16 (drop 11 data))"

definition hdr_length :: "bytes \<Rightarrow> nat" where
  "hdr_length data = be_nat (take 4 (drop 27 data))"

lemmas hdr_defs = hdr_magic_def hdr_version_def hdr_type_def hdr_flags_def hdr_sequence_def
  hdr_command_id_def hdr_length_def

text \<open>\<open>data[HEADER_SIZE:-CRC_SIZE]\<close>, \<open>data[:-CRC_SIZE]\<close> and \<open>data[-CRC_SIZE:]\<close>\<close>

definition frame_payload :: "bytes \<Rightarrow> bytes" where
  "frame_payload data = drop header_size (take (length data - crc_size) data)"

definition frame_body :: "bytes \<Rightarrow> bytes" where
  "frame_body data = take (length data - crc_size) data"

definition frame_crc :: "bytes \<Rightarrow> nat" where
  "frame_crc data = be_nat (drop (length data - crc_size) data)"

text \<open>
  The last \<open>try\<close> of \<open>decode_frame\<close>: TypeError and ValueError become a FrameError, an
  OverflowError of \<open>math.isfinite\<close> does not.
\<close>

definition frame_payload_exc :: "pyexc \<Rightarrow> frame_exc" where
  "frame_payload_exc e = (case e of
     OverflowError m \<Rightarrow> PyErr e | _ \<Rightarrow> FrameErr ''invalid frame payload'')"

definition decode_frame :: "bytes \<Rightarrow> nat \<Rightarrow> frame_exc + frame" where
  "decode_frame data max_len =
     (if length data < header_size + crc_size then Inl (FrameErr ''frame is truncated'')
      else if hdr_magic data \<noteq> magic then Inl (FrameErr ''bad magic'')
      else if hdr_version data \<noteq> frame_version then Inl (FrameErr ''unsupported version'')
      else if max_len < hdr_length data then Inl (FrameErr ''payload length exceeds limit'')
      else if length data \<noteq> header_size + hdr_length data + crc_size
        then Inl (FrameErr ''frame length mismatch'')
      else if unat (crc32 (frame_body data)) \<noteq> frame_crc data then Inl (FrameErr ''bad CRC'')
      else case (type_of_code (hdr_type data), Option.bind (utf8_decode (frame_payload data)) loads) of
        (Some mt, Some p) \<Rightarrow>
          (case make_frame mt (int (hdr_flags data)) (int (hdr_sequence data)) (hdr_command_id data) p of
             Inl e \<Rightarrow> Inl (frame_payload_exc e)
           | Inr f \<Rightarrow> (case validate_payload mt p of
                Some e \<Rightarrow> Inl (frame_payload_exc e)
              | None \<Rightarrow> Inr f))
      | _ \<Rightarrow> Inl (FrameErr ''invalid type or JSON payload''))"

subsection \<open>Searching for the magic\<close>

text \<open>\<open>buffer.find(pat)\<close> and \<open>buffer.find(pat, start)\<close>\<close>

fun find_sub :: "'a list \<Rightarrow> 'a list \<Rightarrow> nat option" where
  "find_sub pat [] = (if pat = [] then Some 0 else None)"
| "find_sub pat (x # xs) =
     (if take (length pat) (x # xs) = pat then Some 0 else map_option Suc (find_sub pat xs))"

definition find_from :: "'a list \<Rightarrow> 'a list \<Rightarrow> nat \<Rightarrow> nat option" where
  "find_from pat xs k = map_option (\<lambda>i. i + k) (find_sub pat (drop k xs))"

lemma find_from_ge: "find_from pat xs k = Some i \<Longrightarrow> k \<le> i"
  by (auto simp: find_from_def)

lemma find_sub_Some_length: "find_sub pat xs = Some i \<Longrightarrow> i + length pat \<le> length xs"
proof (induction xs arbitrary: i)
  case (Cons x xs)
  show ?case
  proof (cases "take (length pat) (x # xs) = pat")
    case True
    with Cons.prems show ?thesis
      by (metis add_0 find_sub.simps(2) length_take min.cobounded1 option.inject)
  next
    case False
    with Cons show ?thesis by auto
  qed
qed (auto split: if_splits)

lemma find_from_lt: "pat \<noteq> [] \<Longrightarrow> find_from pat xs k = Some i \<Longrightarrow> i < length xs"
  by (cases pat) (auto simp: find_from_def dest!: find_sub_Some_length)

subsection \<open>\<open>FrameDecoder\<close>\<close>

text \<open>
  \<open>_complete_frame_start_after_current\<close> from the offset \<open>start\<close> of a magic found after
  the current one: the first complete frame behind it, or the exception of a frame whose
  validation escapes.
\<close>

function complete_start :: "bytes \<Rightarrow> nat \<Rightarrow> nat option \<Rightarrow> pyexc + nat option" where
  "complete_start buf max_len None = Inr None"
| "complete_start buf max_len (Some start) =
     (if length buf - start < header_size + crc_size then Inr None
      else
        let n = hdr_length (drop start buf);
            total = header_size + n + crc_size;
            retry = complete_start buf max_len (find_from magic buf (start + 1))
        in if n \<le> max_len \<and> total \<le> length buf - start
           then (case decode_frame (take total (drop start buf)) max_len of
                   Inr f \<Rightarrow> Inr (Some start)
                 | Inl (PyErr e) \<Rightarrow> Inl e
                 | Inl _ \<Rightarrow> retry)
           else retry)"
  by pat_completeness auto
termination
  by (relation "measure (\<lambda>(buf, m, st). case st of None \<Rightarrow> 0 | Some i \<Rightarrow> Suc (length buf - i))")
    (auto split: option.split simp: header_size_def dest!: find_from_ge)

declare complete_start.simps [simp del]

definition complete_frame_start_after_current :: "bytes \<Rightarrow> nat \<Rightarrow> pyexc + nat option" where
  "complete_frame_start_after_current buf max_len = complete_start buf max_len (find_from magic buf 1)"

text \<open>
  One turn of the loop of \<open>feed\<close>: \<open>Wait b\<close> leaves the loop with buffer \<open>b\<close>,
  \<open>Drop k\<close> deletes \<open>k\<close> bytes and goes on, \<open>Emit f k\<close> appends \<open>f\<close> to the result and
  deletes \<open>k\<close> bytes, \<open>Raise e\<close> is an exception that \<open>except FrameError\<close> lets through.
\<close>

datatype feed_step = Wait bytes | Drop nat | Emit frame nat | Raise pyexc

definition feed_turn :: "nat \<Rightarrow> bytes \<Rightarrow> feed_step" where
  "feed_turn max_len buf =
     (case find_sub magic buf of
        None \<Rightarrow> Wait (last_n (min (length buf) (length magic - 1)) buf)
      | Some (Suc k) \<Rightarrow> Drop (Suc k)
      | Some 0 \<Rightarrow>
          if length buf < header_size then Wait buf
          else if type_of_code (hdr_type buf) = None then Drop 1
          else if hdr_magic buf \<noteq> magic \<or> hdr_version buf \<noteq> frame_version
                  \<or> max_len < hdr_length buf then Drop 1
          else
            let total = header_size + hdr_length buf + crc_size in
            if length buf < total then
              (case complete_frame_start_after_current buf max_len of
                 Inl e \<Rightarrow> Raise e
               | Inr (Some next) \<Rightarrow> Drop next
               | Inr None \<Rightarrow> Wait buf)
            else case decode_frame (take total buf) max_len of
                   Inr f \<Rightarrow> Emit f total
                 | Inl (PyErr e) \<Rightarrow> Raise e
                 | Inl _ \<Rightarrow> Drop 1)"

lemma complete_start_gt:
  "complete_start buf m st = Inr (Some i) \<Longrightarrow> (\<And>s. st = Some s \<Longrightarrow> k \<le> s) \<Longrightarrow> k \<le> i \<and> i < length buf"
proof (induction buf m st rule: complete_start.induct)
  case (2 buf m start)
  show ?case
  proof (cases "length buf - start < header_size + crc_size")
    case True
    with 2(2) show ?thesis by (subst (asm) complete_start.simps) simp
  next
    case False
    note IH = 2(1) [OF False refl refl]
    have ge: "find_from magic buf (start + 1) = Some s \<Longrightarrow> k \<le> s" for s
      using 2(3) find_from_ge [of magic buf "start + 1" s] by fastforce
    from 2(2,3) False IH ge show ?thesis
      by (subst (asm) complete_start.simps)
        (auto simp: Let_def header_size_def split: if_splits sum.splits frame_exc.splits)
  qed
qed (simp add: complete_start.simps)

lemma complete_frame_start_bounds:
  "complete_frame_start_after_current buf m = Inr (Some i) \<Longrightarrow> 1 \<le> i \<and> i < length buf"
  unfolding complete_frame_start_after_current_def
  by (rule complete_start_gt) (auto dest: find_from_ge)

lemma feed_turn_progress:
  "feed_turn m buf = Drop k \<Longrightarrow> 1 \<le> k \<and> k \<le> length buf"
  "feed_turn m buf = Emit f k \<Longrightarrow> 1 \<le> k \<and> k \<le> length buf"
  by (auto simp: feed_turn_def Let_def header_size_def crc_size_def magic_def
      split: option.splits nat.splits if_splits sum.splits frame_exc.splits
      dest!: complete_frame_start_bounds find_sub_Some_length)

function feed_loop :: "nat \<Rightarrow> bytes \<Rightarrow> bytes \<times> (pyexc + frame list)" where
  "feed_loop m buf =
     (case feed_turn m buf of
        Wait b \<Rightarrow> (b, Inr [])
      | Raise e \<Rightarrow> (buf, Inl e)
      | Drop k \<Rightarrow> feed_loop m (drop k buf)
      | Emit f k \<Rightarrow> (case feed_loop m (drop k buf) of
            (b, Inr fs) \<Rightarrow> (b, Inr (f # fs))
          | (b, Inl e) \<Rightarrow> (b, Inl e)))"
  by pat_completeness auto
termination
  by (relation "measure (\<lambda>(m, buf). length buf)") (auto dest!: feed_turn_progress)

declare feed_loop.simps [simp del]

text \<open>\<open>feed(data)\<close> on a decoder whose buffer is \<open>buf\<close>: the new buffer and the result\<close>

definition decoder_feed :: "nat \<Rightarrow> bytes \<Rightarrow> bytes \<Rightarrow> bytes \<times> (pyexc + frame list)" where
  "decoder_feed m buf data = feed_loop m (buf @ data)"

end
