(* ===== verification/FrameRoundtrip.thy ===== *)
theory FrameRoundtrip
  imports Frame
begin

text \<open>
  The frame codec is a bijection up to the order of the payload's keys, what a decoded frame
  guarantees, and the behaviour of the incremental decoder on a clean stream, on noise and on
  a frame whose validation escapes.
\<close>

subsection \<open>Canonical payloads\<close>

definition dict_sorted :: "pydict \<Rightarrow> pydict" where
  "dict_sorted d = dict_of (sort_json (JObj d))"

lemma sort_json_obj: "sort_json (JObj d) = JObj (dict_sorted d)"
  by (simp add: dict_sorted_def)

lemma map_of_perm: "distinct (map fst xs) \<Longrightarrow> mset xs = mset ys \<Longrightarrow> map_of xs = map_of ys"
  by (metis map_of_inject_set mset_eq_imp_distinct_iff mset_eq_setD mset_map)

lemma map_of_dict_sorted:
  assumes "distinct (map fst d)"
  shows "map_of (dict_sorted d) k = map_option sort_json (map_of d k)"
proof -
  let ?d = "map (\<lambda>(k, v). (k, sort_json v)) d"
  have keys: "map fst ?d = map fst d" by (induction d) auto
  have "map_of (sort_key fst ?d) = map_of ?d"
    by (rule map_of_perm) (simp_all add: distinct_keys_sort keys assms del: map_map)
  then show ?thesis by (simp add: dict_sorted_def map_of_map)
qed

lemma keys_dict_sorted: "set (map fst (dict_sorted d)) = set (map fst d)"
  by (force simp: dict_sorted_def image_iff)

lemma sort_json_scalar [simp]:
  "is_str (sort_json v) = is_str v" "is_int (sort_json v) = is_int v" "is_obj (sort_json v) = is_obj v"
  "is_bool (sort_json v) = is_bool v" "is_number (sort_json v) = is_number v"
  "str_of (sort_json v) = str_of v" "int_of (sort_json v) = int_of v" "real_of (sort_json v) = real_of v"
  "is_finite_num (sort_json v) = is_finite_num v" "float_overflow (sort_json v) = float_overflow v"
  "(sort_json v = JStr s) = (v = JStr s)"
  by (cases v; auto simp: real_of_def)+

lemma sort_json_checks [simp]:
  "check_string (sort_json v) n e = check_string v n e"
  "check_uint32 (sort_json v) n = check_uint32 v n"
  "check_uint16 (sort_json v) n = check_uint16 v n"
  "check_checksum (sort_json v) = check_checksum v"
  "check_number (sort_json v) n lo hi = check_number v n lo hi"
  by (simp_all add: check_string_def check_uint32_def check_uint16_def check_checksum_def
      check_number_def cong: option.case_cong)

lemma dict_sorted_access:
  assumes "distinct (map fst d)"
  shows "has (dict_sorted d) k = has d k"
    and "fld (dict_sorted d) k = sort_json (fld d k)"
    and "when_has (dict_sorted d) k c = when_has d k (\<lambda>v. c (sort_json v))"
  using map_of_dict_sorted [OF assms, of k]
  by (auto simp: has_def fld_def when_has_def split: option.splits)

lemma check_object_sorted:
  assumes "distinct (map fst d)"
  shows "check_object (JObj (dict_sorted d)) req opt = None \<longleftrightarrow> check_object (JObj d) req opt = None"
  using keys_dict_sorted [of d] by (auto simp: check_object_ok dict_sorted_access [OF assms] image_iff)

lemma validate_sorted:
  assumes "distinct (map fst d)"
  shows "validate_payload mt (JObj (dict_sorted d)) = None \<longleftrightarrow> validate_payload mt (JObj d) = None"
  by (cases mt)
    (simp_all add: validate_payload_def first_error_None_iff Let_def check_object_sorted [OF assms]
      dict_sorted_access [OF assms] check_is_def [abs_def])

subsection \<open>The bytes of a frame\<close>

lemma length_pack_header [simp]: "length (pack_header rt fl sq cid n) = 31"
  by (simp add: pack_header_def magic_def)

lemma length_seal_crc [simp]: "length (seal_crc body) = length body + 4"
  by (simp add: seal_crc_def)

lemma be_nat_one [simp]: "be_nat [b] = unat b"
  by (simp add: be_nat_def)

lemma header_fields:
  assumes "rt < 256" "fl < 256" "sq < 2 ^ 32" "n < 2 ^ 32"
  shows "hdr_magic (pack_header rt fl sq cid n @ rest) = magic"
    and "hdr_version (pack_header rt fl sq cid n @ rest) = frame_version"
    and "hdr_type (pack_header rt fl sq cid n @ rest) = rt"
    and "hdr_flags (pack_header rt fl sq cid n @ rest) = fl"
    and "hdr_sequence (pack_header rt fl sq cid n @ rest) = sq"
    and "hdr_command_id (pack_header rt fl sq cid n @ rest) = cid"
    and "hdr_length (pack_header rt fl sq cid n @ rest) = n"
  using assms be_nat_be_bytes [of sq 4] be_nat_be_bytes [of n 4]
  by (simp_all add: hdr_defs pack_header_def magic_def unat_of_byte frame_version_def)

lemma frame_parts:
  "frame_payload (seal_crc (pack_header rt fl sq cid n @ body)) = body"
  "frame_body (seal_crc (pack_header rt fl sq cid n @ body)) = pack_header rt fl sq cid n @ body"
  "frame_crc (seal_crc (pack_header rt fl sq cid n @ body)) = unat (crc32 (pack_header rt fl sq cid n @ body))"
proof -
  have "unat (c :: 32 word) < 256 ^ 4" for c using unsigned_less [of c] by simp
  then show "frame_crc (seal_crc (pack_header rt fl sq cid n @ body)) = unat (crc32 (pack_header rt fl sq cid n @ body))"
    by (simp add: frame_crc_def crc_size_def seal_crc_def be_nat_be_bytes)
qed (simp_all add: frame_payload_def frame_body_def seal_crc_def crc_size_def header_size_def)

text \<open>Decoding a well-formed wire image is parsing and validating its payload.\<close>

lemma decode_wire:
  assumes "f_flags f < 256" "f_sequence f < 2 ^ 32" "length body \<le> m" "length body < 2 ^ 32"
  shows "decode_frame (seal_crc (pack_header (type_code (f_type f)) (f_flags f) (f_sequence f)
      (f_command_id f) (length body) @ body)) m =
    (case Option.bind (utf8_decode body) loads of
       None \<Rightarrow> Inl (FrameErr ''invalid type or JSON payload'')
     | Some p \<Rightarrow>
         if is_obj p then
           (case validate_payload (f_type f) p of
              Some e \<Rightarrow> Inl (frame_payload_exc e)
            | None \<Rightarrow> Inr (f\<lparr>f_payload := dict_of p\<rparr>))
         else Inl (frame_payload_exc (TypeError ''payload must be an object'')))"
proof -
  let ?h = "pack_header (type_code (f_type f)) (f_flags f) (f_sequence f) (f_command_id f) (length body)"
  note parts = frame_parts [of "type_code (f_type f)" "f_flags f" "f_sequence f" "f_command_id f" "length body" body]
  note fields = header_fields [OF type_code_lt assms(1,2,4), of "f_type f" "f_command_id f"
      "body @ be_bytes 4 (unat (crc32 (?h @ body)))"]
  have wire: "seal_crc (?h @ body) = ?h @ body @ be_bytes 4 (unat (crc32 (?h @ body)))"
    by (simp add: seal_crc_def)
  have mk: "make_frame (f_type f) (int (f_flags f)) (int (f_sequence f)) (f_command_id f) p =
      (if is_obj p then Inr (f\<lparr>f_payload := dict_of p\<rparr>) else Inl (TypeError ''payload must be an object''))" for p
    using assms(1,2) by (simp add: make_frame_def)
  show ?thesis
    unfolding decode_frame_def parts(1-3) using assms(3)
    by (simp add: wire fields header_size_def crc_size_def mk split: option.split)
qed

definition frame_canonical :: "frame \<Rightarrow> frame" where
  "frame_canonical f = f\<lparr>f_payload := dict_sorted (f_payload f)\<rparr>"

lemma encode_frame_wire:
  assumes "encode_frame f m = Inr bs" and "json_ok (JObj (f_payload f))"
  obtains t where "dumps False (JObj (f_payload f)) = Some t"
    and "validate_payload (f_type f) (JObj (f_payload f)) = None"
    and "length (utf8 t) \<le> m" and "length (utf8 t) < 2 ^ 32"
    and "bs = seal_crc (pack_header (type_code (f_type f)) (f_flags f) (f_sequence f)
      (f_command_id f) (length (utf8 t)) @ utf8 t)"
  using assms by (auto simp: encode_frame_def canonical_payload_def not_le split: sum.splits option.splits if_splits)

lemma decode_encode:
  assumes enc: "encode_frame f m = Inr bs" and ok: "frame_ok f" and js: "json_ok (JObj (f_payload f))"
  shows "decode_frame bs m = Inr (frame_canonical f)"
proof -
  obtain t where t: "dumps False (JObj (f_payload f)) = Some t"
    and val: "validate_payload (f_type f) (JObj (f_payload f)) = None"
    and len: "length (utf8 t) \<le> m" "length (utf8 t) < 2 ^ 32"
    and bs: "bs = seal_crc (pack_header (type_code (f_type f)) (f_flags f) (f_sequence f)
      (f_command_id f) (length (utf8 t)) @ utf8 t)"
    by (rule encode_frame_wire [OF enc js])
  have "Option.bind (utf8_decode (utf8 t)) loads = Some (JObj (dict_sorted (f_payload f)))"
    using loads_dumps [OF js t] by (simp add: utf8_decode_utf8 dict_sorted_def)
  moreover have "validate_payload (f_type f) (JObj (dict_sorted (f_payload f))) = None"
    using val js by (simp add: validate_sorted)
  ultimately show ?thesis
    using decode_wire [of f "utf8 t" m] ok len by (simp add: bs frame_ok_def frame_canonical_def)
qed

subsection \<open>What a decoded frame guarantees\<close>

lemma decode_frame_sound:
  assumes "decode_frame data m = Inr f"
  shows "length data = 35 + hdr_length data" and "hdr_length data \<le> m"
    and "hdr_magic data = magic" and "hdr_version data = 1"
    and "unat (crc32 (frame_body data)) = frame_crc data"
    and "type_code (f_type f) = hdr_type data"
    and "frame_ok f"
    and "Option.bind (utf8_decode (frame_payload data)) loads = Some (JObj (f_payload f))"
    and "validate_payload (f_type f) (JObj (f_payload f)) = None"
  using assms
  by (auto simp: decode_frame_def header_size_def crc_size_def frame_version_def is_obj_iff make_frame_def
      frame_ok_def dest: type_of_code_Some split: if_splits option.splits sum.splits)

subsection \<open>A clean stream\<close>

lemma find_sub_front: "take (length pat) xs = pat \<Longrightarrow> find_sub pat xs = Some 0"
  by (cases xs) auto

lemma take_magic_header: "take 4 (pack_header rt fl sq cid n @ r) = magic"
  by (simp add: pack_header_def magic_def)

lemma feed_turn_frame:
  assumes "frame_ok f" "length body \<le> m" "length body < 2 ^ 32"
    and bs: "bs = seal_crc (pack_header (type_code (f_type f)) (f_flags f) (f_sequence f)
      (f_command_id f) (length body) @ body)"
  shows "feed_turn m (bs @ rest) = (case decode_frame bs m of
      Inr g \<Rightarrow> Emit g (length bs) | Inl (PyErr e) \<Rightarrow> Raise e | Inl _ \<Rightarrow> Drop 1)"
proof -
  let ?h = "pack_header (type_code (f_type f)) (f_flags f) (f_sequence f) (f_command_id f) (length body)"
  have b: "bs @ rest = ?h @ body @ be_bytes 4 (unat (crc32 (?h @ body))) @ rest"
    by (simp add: bs seal_crc_def)
  have f: "hdr_magic (bs @ rest) = magic" "hdr_version (bs @ rest) = frame_version"
    "hdr_type (bs @ rest) = type_code (f_type f)" "hdr_length (bs @ rest) = length body"
    unfolding b using assms by (auto intro!: header_fields simp: frame_ok_def)
  have l: "length bs = header_size + length body + crc_size"
    by (simp add: bs header_size_def crc_size_def)
  have "take (length magic) (bs @ rest) = magic"
    unfolding b by (simp add: pack_header_def magic_def)
  then have s: "find_sub magic (bs @ rest) = Some 0" by (rule find_sub_front)
  show ?thesis
    using assms(2) unfolding feed_turn_def s
    by (simp add: f Let_def l [symmetric]) (simp add: l header_size_def)
qed

lemma feed_loop_frames:
  assumes "list_all2 (\<lambda>f bs. encode_frame f m = Inr bs \<and> frame_ok f \<and> json_ok (JObj (f_payload f))) fs bss"
  shows "feed_loop m (concat bss @ rest) =
    (case feed_loop m rest of (b, Inr gs) \<Rightarrow> (b, Inr (map frame_canonical fs @ gs)) | (b, Inl e) \<Rightarrow> (b, Inl e))"
  using assms
proof (induction rule: list_all2_induct)
  case Nil
  then show ?case by (simp split: prod.split sum.split)
next
  case (Cons f fs bs bss)
  then have enc: "encode_frame f m = Inr bs" "frame_ok f" "json_ok (JObj (f_payload f))" by auto
  obtain t where "length (utf8 t) \<le> m" "length (utf8 t) < 2 ^ 32"
    "bs = seal_crc (pack_header (type_code (f_type f)) (f_flags f) (f_sequence f)
      (f_command_id f) (length (utf8 t)) @ utf8 t)"
    by (rule encode_frame_wire [OF enc(1,3)])
  from feed_turn_frame [OF enc(2) this] decode_encode [OF enc]
  have "feed_turn m (bs @ concat bss @ rest) = Emit (frame_canonical f) (length bs)" by simp
  then show ?case using Cons.IH
    by (subst feed_loop.simps) (simp split: prod.splits sum.splits)
qed

lemma feed_loop_empty: "feed_loop m [] = ([], Inr [])"
  by (subst feed_loop.simps) (simp add: feed_turn_def magic_def)

text \<open>Bytes without an \<open>L\<close> before a frame are dropped.\<close>

lemma find_sub_skip: "hd pat \<notin> set xs \<Longrightarrow> pat \<noteq> [] \<Longrightarrow> take (length pat) ys = pat \<Longrightarrow>
    find_sub pat (xs @ ys) = Some (length xs)"
proof (induction xs)
  case (Cons x xs)
  then have "take (length pat) (x # xs @ ys) \<noteq> pat" by (cases pat) auto
  with Cons show ?case by simp
qed (simp add: find_sub_front)

lemma feed_loop_noise:
  assumes "0x4C \<notin> set xs" "take 4 ys = magic"
  shows "feed_loop m (xs @ ys) = feed_loop m ys"
proof (cases xs)
  case (Cons x xs')
  have "find_sub magic (xs @ ys) = Some (length xs)"
    using assms by (intro find_sub_skip) (auto simp: magic_def numeral_eq_Suc)
  then have "feed_turn m (xs @ ys) = Drop (length xs)"
    using Cons by (simp add: feed_turn_def)
  then show ?thesis by (subst feed_loop.simps) simp
qed simp

subsection \<open>The buffer stays bounded\<close>

lemma feed_turn_wait: "feed_turn m buf = Wait b \<Longrightarrow> length b < 35 + m"
  by (auto simp: feed_turn_def Let_def header_size_def crc_size_def magic_def
      split: option.splits nat.splits if_splits sum.splits frame_exc.splits)

lemma feed_loop_bounded: "feed_loop m buf = (b, Inr fs) \<Longrightarrow> length b < 35 + m"
proof (induction m buf arbitrary: b fs rule: feed_loop.induct)
  case (1 m buf)
  from 1(3) show ?case
    by (subst (asm) feed_loop.simps)
      (auto dest: feed_turn_wait 1(1,2) split: feed_step.splits prod.splits sum.splits)
qed

text \<open>Every frame the decoder returns came out of \<open>decode_frame\<close> within the length limit.\<close>

lemma feed_turn_emit: "feed_turn m buf = Emit f k \<Longrightarrow> decode_frame (take k buf) m = Inr f"
  by (auto simp: feed_turn_def Let_def split: option.splits nat.splits if_splits sum.splits frame_exc.splits)

lemma feed_loop_sound:
  "feed_loop m buf = (b, Inr fs) \<Longrightarrow> f \<in> set fs \<Longrightarrow> \<exists>data. decode_frame data m = Inr f"
proof (induction m buf arbitrary: b fs rule: feed_loop.induct)
  case (1 m buf)
  note loop = 1(3) [unfolded feed_loop.simps [of m buf]]
  show ?case
  proof (cases "feed_turn m buf")
    case (Drop k)
    with loop 1(1) 1(4) show ?thesis by simp
  next
    case (Emit g k)
    with loop obtain gs where "feed_loop m (drop k buf) = (b, Inr gs)" "fs = g # gs"
      by (auto split: prod.splits sum.splits)
    with 1(2) [OF Emit] 1(4) feed_turn_emit [OF Emit] show ?thesis by auto
  qed (use loop 1(4) in simp_all)
qed

subsection \<open>A frame that cannot be validated\<close>

text \<open>
  A frame whose validation raises something else than TypeError or ValueError stays at the
  front of the buffer: every later call raises again and the buffer grows.
\<close>

lemma feed_loop_poisoned:
  assumes "frame_ok f" "length body \<le> m" "length body < 2 ^ 32"
    and "bs = seal_crc (pack_header (type_code (f_type f)) (f_flags f) (f_sequence f)
      (f_command_id f) (length body) @ body)"
    and "decode_frame bs m = Inl (PyErr e)"
  shows "feed_loop m (bs @ rest) = (bs @ rest, Inl e)"
  using feed_turn_frame [OF assms(1-4), of rest] assms(5) by (subst feed_loop.simps) simp

subsection \<open>Properties\<close>

text \<open>C4: decoding the bytes of an encoded frame, under the same length limit, gives back the
  frame with its payload in key order: type, flags, sequence and command id are unchanged and
  every field of the payload has its value.\<close>

theorem frame_roundtrip:
  assumes "encode_frame f m = Inr bs" and "frame_ok f" and "json_ok (JObj (f_payload f))"
  shows "decode_frame bs m = Inr (frame_canonical f)
    \<and> (\<forall>k. map_of (f_payload (frame_canonical f)) k = map_option sort_json (map_of (f_payload f) k))"
  using decode_encode [OF assms] assms(3) by (simp add: frame_canonical_def map_of_dict_sorted)

definition sample_frame :: frame where
  "sample_frame = \<lparr>f_type = NACK, f_flags = 1, f_sequence = 7, f_command_id = 5,
     f_payload = [(''reason'', JStr ''busy''), (''acked_sequence'', JInt 6)]\<rparr>"

lemma sample_frame_facts:
  "frame_ok sample_frame" "json_ok (JObj (f_payload sample_frame))"
  "\<exists>bs. encode_frame sample_frame 1000 = Inr bs"
proof -
  show ok: "json_ok (JObj (f_payload sample_frame))" by (simp add: sample_frame_def)
  have "validate_payload NACK (JObj (f_payload sample_frame)) = None" by code_simp
  moreover have "length (utf8 (the (dumps False (JObj (f_payload sample_frame))))) = 36" by code_simp
  ultimately show "\<exists>bs. encode_frame sample_frame 1000 = Inr bs"
    using dumps_total [OF ok, of False]
    by (auto simp: encode_frame_def canonical_payload_def sample_frame_def)
qed (simp add: sample_frame_def frame_ok_def)

theorem frame_roundtrip_witness:
  "\<exists>bs. encode_frame sample_frame 1000 = Inr bs \<and> decode_frame bs 1000 = Inr (frame_canonical sample_frame)"
  using sample_frame_facts frame_roundtrip [of sample_frame 1000] by blast

text \<open>Whatever the bytes, a frame that \<open>decode_frame\<close> returns fits the limit, carries the
  magic, the version and a matching CRC, has a known type and a payload that parses to an object
  accepted by \<open>validate_payload\<close> for that type.\<close>

theorem decoded_frame_valid:
  assumes "decode_frame data m = Inr f"
  shows "length data = 35 + hdr_length data \<and> hdr_length data \<le> m \<and> take 4 data = magic
    \<and> unat (crc32 (take (length data - 4) data)) = be_nat (drop (length data - 4) data)
    \<and> type_code (f_type f) = hdr_type data \<and> frame_ok f
    \<and> validate_payload (f_type f) (JObj (f_payload f)) = None"
  using decode_frame_sound [OF assms] by (simp add: hdr_magic_def frame_body_def frame_crc_def crc_size_def)

theorem decoded_frame_valid_witness:
  "\<exists>bs f. decode_frame bs 1000 = Inr f \<and> validate_payload (f_type f) (JObj (f_payload f)) = None"
proof -
  obtain bs where "encode_frame sample_frame 1000 = Inr bs" using sample_frame_facts(3) by blast
  from decode_encode [OF this sample_frame_facts(1,2)] have d: "decode_frame bs 1000 = Inr (frame_canonical sample_frame)" .
  then show ?thesis using decoded_frame_valid [OF d] by blast
qed

text \<open>Fed with the concatenation of encoded frames behind noise that contains no byte
  \<open>L\<close>, a fresh decoder returns exactly those frames, in order, and keeps no byte.\<close>

theorem decoder_clean_stream:
  assumes "list_all2 (\<lambda>f bs. encode_frame f m = Inr bs \<and> frame_ok f \<and> json_ok (JObj (f_payload f))) fs bss"
    and "fs \<noteq> []" and "0x4C \<notin> set noise"
  shows "decoder_feed m [] (noise @ concat bss) = ([], Inr (map frame_canonical fs))"
proof -
  obtain f fs' bs bss' where s: "fs = f # fs'" "bss = bs # bss'"
    using assms(1,2) by (cases fs; cases bss) auto
  with assms(1) have "encode_frame f m = Inr bs" "json_ok (JObj (f_payload f))" by auto
  from encode_frame_wire [OF this] have "take 4 (concat bss) = magic"
    using s by (metis append_assoc concat.simps(2) seal_crc_def take_magic_header)
  then have "feed_loop m (noise @ concat bss) = feed_loop m (concat bss @ [])"
    using assms(3) by (simp add: feed_loop_noise)
  also have "\<dots> = ([], Inr (map frame_canonical fs))"
    by (simp only: feed_loop_frames [OF assms(1)] feed_loop_empty) simp
  finally show ?thesis by (simp add: decoder_feed_def)
qed

theorem decoder_clean_stream_witness:
  "\<exists>bs. decoder_feed 1000 [] ([1, 2, 3] @ concat [bs, bs])
     = ([], Inr [frame_canonical sample_frame, frame_canonical sample_frame])"
proof -
  obtain bs where "encode_frame sample_frame 1000 = Inr bs" using sample_frame_facts(3) by blast
  with sample_frame_facts(1,2) show ?thesis
    using decoder_clean_stream [of 1000 "[sample_frame, sample_frame]" "[bs, bs]" "[1, 2, 3]"]
    by (intro exI [of _ bs]) simp
qed

text \<open>Whatever bytes arrive, a call of \<open>feed\<close> that returns leaves fewer than
  \<open>35 + max_payload_length\<close> bytes in the buffer and returns only frames that
  \<open>decode_frame\<close> accepted.\<close>

theorem decoder_bounded:
  assumes "decoder_feed m buf data = (buf', Inr fs)"
  shows "length buf' < 35 + m \<and> (\<forall>f \<in> set fs. \<exists>bs. decode_frame bs m = Inr f)"
  using assms feed_loop_bounded feed_loop_sound unfolding decoder_feed_def by blast

theorem decoder_bounded_witness:
  "decoder_feed 10 [1, 2, 3, 4, 5] [] = ([3, 4, 5], Inr []) \<and> length [3, 4, 5 :: byte] < 35 + 10"
proof -
  have *: "decoder_feed 10 [1, 2, 3, 4, 5] [] = ([3, 4, 5], Inr [])"
    by (simp add: decoder_feed_def feed_loop.simps feed_turn_def magic_def last_n_def)
  then show ?thesis using decoder_bounded [OF *] by simp
qed

text \<open>C5: a frame whose payload makes \<open>validate_payload\<close> raise OverflowError (an integer
  too large for a float in a number field) is neither rejected nor removed: it stays at the front of
  the buffer, and whatever follows, every call of \<open>feed\<close> raises and keeps all the bytes.\<close>

definition wire_image :: "frame \<Rightarrow> bytes \<Rightarrow> bytes" where
  "wire_image f body = seal_crc (pack_header (type_code (f_type f)) (f_flags f) (f_sequence f)
     (f_command_id f) (length body) @ body)"

theorem decoder_poisoned:
  assumes "frame_ok f" "json_ok (JObj (f_payload f))" "dumps False (JObj (f_payload f)) = Some t"
    and "length (utf8 t) \<le> m" "length (utf8 t) < 2 ^ 32"
    and "validate_payload (f_type f) (JObj (dict_sorted (f_payload f))) = Some (OverflowError e)"
  shows "decoder_feed m (wire_image f (utf8 t) @ pending) data
    = (wire_image f (utf8 t) @ pending @ data, Inl (OverflowError e))"
proof -
  have "Option.bind (utf8_decode (utf8 t)) loads = Some (JObj (dict_sorted (f_payload f)))"
    using loads_dumps [OF assms(2,3)] by (simp add: utf8_decode_utf8 dict_sorted_def)
  then have "decode_frame (wire_image f (utf8 t)) m = Inl (PyErr (OverflowError e))"
    using decode_wire [of f "utf8 t" m] assms(1,4-6)
    by (simp add: wire_image_def frame_ok_def frame_payload_exc_def)
  then show ?thesis
    using feed_loop_poisoned [OF assms(1,4,5) refl, of "OverflowError e" "pending @ data"]
    by (simp add: decoder_feed_def wire_image_def)
qed

definition poison_number :: int where
  "poison_number = 10 ^ 310"

lemma poison_number_facts: "float_overflow (JInt poison_number)" "0 \<le> poison_number"
  "nat poison_number < 10 ^ Suc 310"
proof -
  show "0 \<le> poison_number" unfolding poison_number_def by (rule zero_le_power) simp
  show "float_overflow (JInt poison_number)" by (simp add: poison_number_def)
  have "poison_number < 10 ^ Suc 310"
    unfolding poison_number_def by (rule power_strict_increasing) simp_all
  then show "nat poison_number < 10 ^ Suc 310" by (simp only: nat_less_iff \<open>0 \<le> poison_number\<close>) simp
qed

definition poison_frame :: frame where
  "poison_frame = \<lparr>f_type = STATUS, f_flags = 0, f_sequence = 1, f_command_id = 0,
     f_payload = [(''state'', JStr ''x''), (''timestamp'', JInt poison_number)]\<rparr>"

lemma length_show_nat: "n < 10 ^ Suc k \<Longrightarrow> length (show_nat n) \<le> Suc k"
proof (induction k arbitrary: n)
  case (Suc k)
  then have "n div 10 < 10 ^ Suc k" by (simp add: less_mult_imp_div_less mult.commute)
  with Suc.IH [of "n div 10"] show ?case by (subst show_nat.simps) auto
qed (simp add: show_nat.simps)

lemma length_utf8_le: "length (utf8 s) \<le> 2 * length s"
  by (induction s) (auto simp: utf8_def utf8_char_def Let_def)

theorem decoder_poisoned_witness:
  "\<exists>t. dumps False (JObj (f_payload poison_frame)) = Some t \<and>
     decoder_feed 1000 (wire_image poison_frame (utf8 t)) [1, 2, 3] =
       (wire_image poison_frame (utf8 t) @ [1, 2, 3], Inl (OverflowError ''int too large to convert to float''))"
proof -
  let ?N = poison_number
  note big = poison_number_facts(1) and pos = poison_number_facts(2)
  have ok: "frame_ok poison_frame" "json_ok (JObj (f_payload poison_frame))"
    by (simp_all add: poison_frame_def frame_ok_def)
  have sorted: "dict_sorted (f_payload poison_frame) = [(''state'', JStr ''x''), (''timestamp'', JInt ?N)]"
    by (simp add: dict_sorted_def poison_frame_def)
  have val: "validate_payload (f_type poison_frame) (JObj (dict_sorted (f_payload poison_frame)))
      = Some (OverflowError ''int too large to convert to float'')"
    unfolding sorted using big
    by (simp add: poison_frame_def validate_payload_def check_defs unless_def filter_empty_conv del: float_overflow.simps)
  obtain t where t: "dumps False (JObj (f_payload poison_frame)) = Some t"
    using dumps_total [OF ok(2)] by blast
  then have "t = render False (JObj (dict_sorted (f_payload poison_frame)))"
    by (simp add: dumps_def dict_sorted_def split: if_splits)
  then have "length t \<le> 40 + length (show_nat (nat ?N))"
    unfolding sorted using pos by (simp add: show_int_def show_str_def escape_char_def)
  moreover have "length (show_nat (nat ?N)) \<le> Suc 310"
    by (rule length_show_nat) (rule poison_number_facts(3))
  ultimately have "length (utf8 t) \<le> 1000" using length_utf8_le [of t] by simp
  then show ?thesis
    using decoder_poisoned [OF ok t _ _ val, of 1000 "[]" "[1, 2, 3]"] t by auto
qed

end
