(* ===== verification/StreamDecoder.thy ===== *)
theory StreamDecoder
  imports Prelude
begin

text \<open>
  The interface the incremental decoders share. One turn of a decoder's loop looks at its
  buffer and either leaves the loop or removes bytes from the front and yields events. When a
  turn does not depend on bytes that have not arrived yet, how the input is cut into chunks
  does not matter: that is the theorem of the locale.
\<close>

datatype 'e turn = Stop | Take nat "'e list"

locale stream_machine =
  fixes turn :: "bytes \<Rightarrow> 'e turn"
  assumes progress: "turn b = Take n es \<Longrightarrow> 0 < n \<and> n \<le> length b"
    and extend: "turn b = Take n es \<Longrightarrow> turn (b @ x) = Take n es
      \<or> es = [] \<and> (\<exists>k > n. turn (b @ x) = Take k [] \<and> turn (drop n b @ x) = Take (k - n) [])"

text \<open>
  The loop itself, with enough fuel for one turn per byte of the buffer; outside the locale so
  that it computes.
\<close>

fun drain :: "(bytes \<Rightarrow> 'e turn) \<Rightarrow> nat \<Rightarrow> bytes \<Rightarrow> bytes \<times> 'e list" where
  "drain turn 0 b = (b, [])"
| "drain turn (Suc fuel) b =
     (case turn b of
        Stop \<Rightarrow> (b, [])
      | Take n es \<Rightarrow> (case drain turn fuel (drop n b) of (b', es') \<Rightarrow> (b', es @ es')))"

definition stream_loop :: "(bytes \<Rightarrow> 'e turn) \<Rightarrow> bytes \<Rightarrow> bytes \<times> 'e list" where
  "stream_loop turn b = drain turn (length b + 1) b"

text \<open>\<open>feed\<close> for a list of chunks, one call after the other\<close>

fun feed_chunks :: "(bytes \<Rightarrow> 'e turn) \<Rightarrow> bytes \<Rightarrow> bytes list \<Rightarrow> bytes \<times> 'e list" where
  "feed_chunks turn b [] = (b, [])"
| "feed_chunks turn b (c # cs) =
     (case stream_loop turn (b @ c) of (b', es) \<Rightarrow>
        (case feed_chunks turn b' cs of (b'', es') \<Rightarrow> (b'', es @ es')))"

context stream_machine
begin

lemma drain_more:
  "length b < fuel \<Longrightarrow> length b < fuel' \<Longrightarrow> drain turn fuel b = drain turn fuel' b"
proof (induction fuel arbitrary: fuel' b)
  case (Suc fuel)
  then obtain g where g: "fuel' = Suc g" by (cases fuel') auto
  show ?case
  proof (cases "turn b")
    case (Take n es)
    with progress [OF Take] Suc.prems g have "drain turn fuel (drop n b) = drain turn g (drop n b)"
      by (intro Suc.IH) auto
    with Take g show ?thesis by simp
  qed (simp add: g)
qed simp

lemma loop_unfold:
  "stream_loop turn b = (case turn b of
     Stop \<Rightarrow> (b, [])
   | Take n es \<Rightarrow> (case stream_loop turn (drop n b) of (b', es') \<Rightarrow> (b', es @ es')))"
proof (cases "turn b")
  case (Take n es)
  with progress [OF Take] have "drain turn (length b) (drop n b) = stream_loop turn (drop n b)"
    unfolding stream_loop_def by (intro drain_more) auto
  with Take show ?thesis by (simp add: stream_loop_def)
qed (simp add: stream_loop_def)

lemma loop_stops: "turn (fst (stream_loop turn b)) = Stop"
proof (induction "length b" arbitrary: b rule: less_induct)
  case less
  show ?case
  proof (cases "turn b")
    case (Take n es)
    with progress [OF Take] have "turn (fst (stream_loop turn (drop n b))) = Stop"
      by (intro less) auto
    with Take show ?thesis
      by (subst loop_unfold) (cases "stream_loop turn (drop n b)"; simp)
  qed (simp add: loop_unfold [of b])
qed

lemma loop_append:
  "stream_loop turn (b @ x) =
    (case stream_loop turn b of (b', es) \<Rightarrow>
       (case stream_loop turn (b' @ x) of (b'', es') \<Rightarrow> (b'', es @ es')))"
proof (induction "length b" arbitrary: b rule: less_induct)
  case less
  show ?case
  proof (cases "turn b")
    case Stop
    then show ?thesis by (subst (2) loop_unfold) (simp split: prod.split)
  next
    case (Take n es)
    have IH: "stream_loop turn (drop n b @ x) =
      (case stream_loop turn (drop n b) of (b', es) \<Rightarrow>
         (case stream_loop turn (b' @ x) of (b'', es') \<Rightarrow> (b'', es @ es')))"
      using progress [OF Take] by (intro less) auto
    have R: "stream_loop turn b = (case stream_loop turn (drop n b) of (b', es') \<Rightarrow> (b', es @ es'))"
      using Take by (subst loop_unfold) simp
    have L: "stream_loop turn (b @ x) =
      (case stream_loop turn (drop n b @ x) of (b', es') \<Rightarrow> (b', es @ es'))"
      using extend [OF Take, of x]
    proof
      assume "turn (b @ x) = Take n es"
      then show ?thesis using progress [OF Take] by (subst loop_unfold) simp
    next
      assume "es = [] \<and> (\<exists>k > n. turn (b @ x) = Take k [] \<and> turn (drop n b @ x) = Take (k - n) [])"
      then obtain k where k: "n < k" "es = []" "turn (b @ x) = Take k []"
        "turn (drop n b @ x) = Take (k - n) []" by blast
      have "drop n b @ x = drop n (b @ x)" using progress [OF Take] by simp
      then have "drop (k - n) (drop n b @ x) = drop k (b @ x)" using k(1) by (simp only: drop_drop) simp
      then have "stream_loop turn (b @ x) = stream_loop turn (drop n b @ x)"
        by (subst (1 2) loop_unfold) (simp add: k(3,4))
      then show ?thesis using k(2) by (simp split: prod.split)
    qed
    show ?thesis unfolding L R IH by (simp split: prod.split)
  qed
qed

lemma loop_idem: "stream_loop turn (fst (stream_loop turn b)) = (fst (stream_loop turn b), [])"
  by (subst loop_unfold) (simp add: loop_stops)

text \<open>Chunk invariance: the events and the final buffer depend only on the concatenation.\<close>

lemma feed_chunks_concat:
  "turn b = Stop \<Longrightarrow> feed_chunks turn b cs = stream_loop turn (b @ concat cs)"
proof (induction cs arbitrary: b)
  case Nil
  then show ?case by (simp add: loop_unfold [of b])
next
  case (Cons c cs)
  obtain b' es where l: "stream_loop turn (b @ c) = (b', es)" by (cases "stream_loop turn (b @ c)")
  then have "turn b' = Stop" using loop_stops [of "b @ c"] by simp
  with Cons.IH have "feed_chunks turn b' cs = stream_loop turn (b' @ concat cs)" by blast
  then show ?case
    using loop_append [of "b @ c" "concat cs"] l by (simp split: prod.split)
qed

lemma feed_chunks_regroup:
  "turn b = Stop \<Longrightarrow> concat cs = concat ds \<Longrightarrow> feed_chunks turn b cs = feed_chunks turn b ds"
  by (simp add: feed_chunks_concat)

lemma loop_invariant:
  assumes "\<And>b n es e. turn b = Take n es \<Longrightarrow> e \<in> set es \<Longrightarrow> P e"
  shows "e \<in> set (snd (stream_loop turn b)) \<Longrightarrow> P e"
proof (induction "length b" arbitrary: b rule: less_induct)
  case less
  show ?case
  proof (cases "turn b")
    case Stop
    with less.prems show ?thesis by (simp add: loop_unfold [of b])
  next
    case (Take n es)
    with less.prems have "e \<in> set es \<or> e \<in> set (snd (stream_loop turn (drop n b)))"
      by (simp add: loop_unfold [of b] split: prod.splits)
    then show ?thesis
      using assms [OF Take] less.hyps [of "drop n b"] progress [OF Take] by auto
  qed
qed

end


end
