(* ===== verification/Auth.thy ===== *)
theory Auth
  imports Frame StreamDecoder
begin

text \<open>
  \<open>shared_protocol/auth.py\<close>: the authenticated envelope, its replay window, the persistent
  session and the splitter of a serial byte stream. An envelope is a 32-byte header (magic,
  session nonce, counter, payload length), the payload and an HMAC-SHA256.

  The bitmap of a session is a natural number: bit \<open>d\<close> says whether the counter
  \<open>highest - d\<close> was received.
\<close>

unbundle bit_operations_syntax

definition auth_magic :: bytes where
  "auth_magic = [0x4C, 0x49, 0x41, 0x31]"

definition auth_header_size :: nat where
  "auth_header_size = 32"

definition mac_size :: nat where
  "mac_size = 32"

definition max_auth_payload :: nat where
  "max_auth_payload = 1024 * 1024"

datatype auth_exc = AuthError string | ReplayError string | AuthValueError string | AuthStructError

type_synonym sessions = "(bytes \<times> nat \<times> nat) list"

record auth_codec =
  a_psk :: bytes
  a_nonce :: bytes
  a_counter :: nat
  a_window :: nat
  a_max_sessions :: nat
  a_sessions :: sessions

subsection \<open>The replay window\<close>

text \<open>\<open>_accept_counter\<close>: the new sessions, or the ReplayError\<close>

definition accept_counter :: "nat \<Rightarrow> nat \<Rightarrow> sessions \<Rightarrow> bytes \<Rightarrow> nat \<Rightarrow> auth_exc + sessions" where
  "accept_counter window max_sessions ss nonce counter =
     (case map_of ss nonce of
        None \<Rightarrow> Inr (last_n max_sessions (od_touch nonce (counter, 1) ss))
      | Some (highest, bitmap) \<Rightarrow>
          if highest < counter then
            let shift = counter - highest;
                bm = (if window \<le> shift then 1 else ((push_bit shift bitmap OR 1) AND (2 ^ window - 1)))
            in Inr (od_touch nonce (counter, bm) ss)
          else
            let distance = highest - counter in
            if window \<le> distance then Inl (ReplayError ''authenticated datagram is outside replay window'')
            else if bit bitmap distance
              then Inl (ReplayError ''authenticated datagram was already received'')
            else Inr (od_touch nonce (highest, bitmap OR push_bit distance 1) ss))"

subsection \<open>The envelope\<close>

definition auth_header :: "bytes \<Rightarrow> nat \<Rightarrow> nat \<Rightarrow> bytes" where
  "auth_header nonce counter n = auth_magic @ nonce @ be_bytes 8 counter @ be_bytes 4 n"

text \<open>\<open>struct.pack\<close> raises on a counter of \<open>2 ^ 64\<close>; the counter has advanced by then.\<close>

definition auth_seal :: "auth_codec \<Rightarrow> bytes \<Rightarrow> (auth_exc + bytes) \<times> auth_codec" where
  "auth_seal a p =
     (if max_auth_payload < length p then (Inl (AuthValueError ''authenticated payload exceeds limit''), a)
      else
        let a' = a\<lparr>a_counter := a_counter a + 1\<rparr>;
            body = auth_header (a_nonce a) (a_counter a) (length p) @ p
        in if 2 ^ 64 \<le> a_counter a then (Inl AuthStructError, a')
           else (Inr (body @ hmac_sha256 (a_psk a) body), a'))"

record auth_meta =
  m_nonce :: bytes
  m_counter :: nat

definition auth_open :: "auth_codec \<Rightarrow> bytes \<Rightarrow> (auth_exc + bytes \<times> auth_meta) \<times> auth_codec" where
  "auth_open a d =
     (if length d < auth_header_size + mac_size
        then (Inl (AuthError ''authenticated datagram is truncated''), a)
      else
        let nonce = take 16 (drop 4 d);
            counter = be_nat (take 8 (drop 20 d));
            n = be_nat (take 4 (drop 28 d));
            body = take (length d - mac_size) d;
            mac = drop (length d - mac_size) d
        in if take 4 d \<noteq> auth_magic then (Inl (AuthError ''bad authenticated datagram magic''), a)
           else if max_auth_payload < n then (Inl (AuthError ''authenticated payload exceeds limit''), a)
           else if length d \<noteq> auth_header_size + n + mac_size
             then (Inl (AuthError ''authenticated datagram length mismatch''), a)
           else if mac \<noteq> hmac_sha256 (a_psk a) body
             then (Inl (AuthError ''authenticated datagram MAC mismatch''), a)
           else (case accept_counter (a_window a) (a_max_sessions a) (a_sessions a) nonce counter of
                Inl e \<Rightarrow> (Inl e, a)
              | Inr ss \<Rightarrow> (Inr (drop auth_header_size body, \<lparr>m_nonce = nonce, m_counter = counter\<rparr>),
                            a\<lparr>a_sessions := ss\<rparr>)))"

subsection \<open>Snapshot and restore\<close>

text \<open>\<open>bytes.fromhex\<close> on text without blanks\<close>

fun from_hex :: "string \<Rightarrow> bytes option" where
  "from_hex [] = Some []"
| "from_hex [c] = None"
| "from_hex (c # d # s) =
     (case (hexit c, hexit d) of
        (Some h, Some l) \<Rightarrow> map_option (Cons (word_of_nat (16 * h + l))) (from_hex s)
      | _ \<Rightarrow> None)"

definition session_json :: "bytes \<times> nat \<times> nat \<Rightarrow> json" where
  "session_json = (\<lambda>(nonce, highest, bitmap). JObj
     [(''nonce'', JStr (hex nonce)), (''highest'', JInt (int highest)), (''bitmap'', JInt (int bitmap))])"

definition auth_snapshot :: "auth_codec \<Rightarrow> json" where
  "auth_snapshot a = JObj
     [(''version'', JInt 1), (''session_nonce'', JStr (hex (a_nonce a))),
      (''counter'', JInt (int (a_counter a))), (''sessions'', JArr (map session_json (a_sessions a)))]"

fun restore_sessions :: "json list \<Rightarrow> sessions \<Rightarrow> auth_exc + sessions" where
  "restore_sessions [] ss = Inr ss"
| "restore_sessions (j # js) ss =
     (case from_hex (str_of (fld (dict_of j) ''nonce'')) of
        None \<Rightarrow> Inl (AuthValueError ''non-hexadecimal number found in fromhex() arg'')
      | Some nonce \<Rightarrow>
          if length nonce \<noteq> 16 then Inl (AuthValueError ''persisted session nonce is invalid'')
          else restore_sessions js (AList.update nonce
             (nat (int_of (fld (dict_of j) ''highest'')), nat (int_of (fld (dict_of j) ''bitmap''))) ss))"

text \<open>
  The constructor with the state of the store: \<open>fresh\<close> is the nonce \<open>os.urandom\<close> would give
  when there is neither a state nor a configured nonce.
\<close>

definition auth_init :: "bytes \<Rightarrow> json option \<Rightarrow> bytes option \<Rightarrow> nat \<Rightarrow> nat \<Rightarrow> bytes \<Rightarrow> auth_exc + auth_codec" where
  "auth_init psk state session_nonce window max_sessions fresh =
     (if length psk < 16 then Inl (AuthValueError ''PSK must contain at least 16 bytes'')
      else if state \<noteq> None \<and> session_nonce \<noteq> None
        then Inl (AuthValueError ''session_nonce and state are mutually exclusive'')
      else
        let st = (case state of Some j \<Rightarrow> dict_of j | None \<Rightarrow> []);
            given = (case state of Some j \<Rightarrow> from_hex (str_of (fld st ''session_nonce''))
                     | None \<Rightarrow> (case session_nonce of Some n \<Rightarrow> Some n | None \<Rightarrow> Some fresh))
        in case given of
             None \<Rightarrow> Inl (AuthValueError ''non-hexadecimal number found in fromhex() arg'')
           | Some nonce \<Rightarrow>
               if length nonce \<noteq> 16 then Inl (AuthValueError ''session nonce must contain exactly 16 bytes'')
               else if \<not> (1 \<le> window \<and> window \<le> 4096)
                 then Inl (AuthValueError ''replay_window must be between 1 and 4096'')
               else if max_sessions < 1 then Inl (AuthValueError ''max_sessions must be positive'')
               else (case restore_sessions (list_of (get_or st ''sessions'' (JArr []))) [] of
                    Inl e \<Rightarrow> Inl e
                  | Inr ss \<Rightarrow>
                      if max_sessions < length ss
                        then Inl (AuthValueError ''persisted sessions exceed max_sessions'')
                      else Inr \<lparr>a_psk = psk, a_nonce = nonce,
                        a_counter = nat (int_of (get_or st ''counter'' (JInt 0))), a_window = window,
                        a_max_sessions = max_sessions, a_sessions = ss\<rparr>))"

subsection \<open>\<open>PersistentAuthSession\<close>\<close>

text \<open>
  The codec in memory and the state on disk; \<open>save_ok\<close> says whether \<open>store.save\<close>
  succeeds. When it raises, the result of the call is lost and the memory keeps its change.
\<close>

record auth_session =
  s_codec :: auth_codec
  s_disk :: "json option"

datatype session_exc = CodecExc auth_exc | SaveError

definition session_load :: "bytes \<Rightarrow> json option \<Rightarrow> bytes option \<Rightarrow> nat \<Rightarrow> nat \<Rightarrow> bytes \<Rightarrow> auth_exc + auth_session" where
  "session_load psk disk session_nonce window max_sessions fresh =
     (let state = (case disk of Some (JObj []) \<Rightarrow> None | d \<Rightarrow> d) in
      map_sum id (\<lambda>c. \<lparr>s_codec = c, s_disk = disk\<rparr>)
        (auth_init psk state (if state = None then session_nonce else None) window max_sessions fresh))"

definition session_seal :: "bool \<Rightarrow> auth_session \<Rightarrow> bytes \<Rightarrow> (session_exc + bytes) \<times> auth_session" where
  "session_seal save_ok s p =
     (case auth_seal (s_codec s) p of
        (Inl e, c) \<Rightarrow> (Inl (CodecExc e), s\<lparr>s_codec := c\<rparr>)
      | (Inr d, c) \<Rightarrow>
          if save_ok then (Inr d, s\<lparr>s_codec := c, s_disk := Some (auth_snapshot c)\<rparr>)
          else (Inl SaveError, s\<lparr>s_codec := c\<rparr>))"

definition session_open :: "bool \<Rightarrow> auth_session \<Rightarrow> bytes \<Rightarrow> (session_exc + bytes \<times> auth_meta) \<times> auth_session" where
  "session_open save_ok s d =
     (case auth_open (s_codec s) d of
        (Inl e, c) \<Rightarrow> (Inl (CodecExc e), s\<lparr>s_codec := c\<rparr>)
      | (Inr r, c) \<Rightarrow>
          if save_ok then (Inr r, s\<lparr>s_codec := c, s_disk := Some (auth_snapshot c)\<rparr>)
          else (Inl SaveError, s\<lparr>s_codec := c\<rparr>))"

subsection \<open>\<open>AuthenticatedStreamDecoder\<close>\<close>

datatype auth_event = Envelope bytes | RejectedSize

definition auth_turn :: "nat \<Rightarrow> bytes \<Rightarrow> auth_event turn" where
  "auth_turn max_wire buf =
     (case find_sub auth_magic buf of
        None \<Rightarrow> (if 3 < length buf then Take (length buf - 3) [] else Stop)
      | Some (Suc k) \<Rightarrow> Take (Suc k) []
      | Some 0 \<Rightarrow>
          if length buf < auth_header_size then Stop
          else
            let total = auth_header_size + be_nat (take 4 (drop 28 buf)) + mac_size in
            if max_wire < total then Take 1 [RejectedSize]
            else if length buf < total then Stop
            else Take total [Envelope (take total buf)])"

text \<open>\<open>feed(data)\<close> on buffer \<open>buf\<close>: the new buffer, the envelopes and how much
  \<open>rejected_size\<close> grows\<close>

definition auth_feed :: "nat \<Rightarrow> bytes \<Rightarrow> bytes \<Rightarrow> bytes \<times> bytes list \<times> nat" where
  "auth_feed max_wire buf data =
     (case stream_loop (auth_turn max_wire) (buf @ data) of
        (b, es) \<Rightarrow> (b, concat (map (\<lambda>e. case e of Envelope d \<Rightarrow> [d] | RejectedSize \<Rightarrow> []) es),
                    length (filter (\<lambda>e. e = RejectedSize) es)))"

end
