(* ===== verification/AuthProps.thy ===== *)
theory AuthProps
  imports Auth FrameRoundtrip
begin

text \<open>
  The authenticated envelope: sealing and opening are inverse, the sliding bitmap is the set of
  received counters, no counter is ever sent twice, and the stream splitter is an instance of
  \<open>stream_machine\<close>.
\<close>

unbundle bit_operations_syntax

subsection \<open>Sealing and opening\<close>

lemma auth_open_wire:
  assumes "length nonce = 16" "counter < 2 ^ 64" "length p \<le> max_auth_payload"
  shows "auth_open a (auth_header nonce counter (length p) @ p
      @ hmac_sha256 (a_psk a) (auth_header nonce counter (length p) @ p)) =
    (case accept_counter (a_window a) (a_max_sessions a) (a_sessions a) nonce counter of
       Inl e \<Rightarrow> (Inl e, a)
     | Inr ss \<Rightarrow> (Inr (p, \<lparr>m_nonce = nonce, m_counter = counter\<rparr>), a\<lparr>a_sessions := ss\<rparr>))"
proof -
  let ?b = "auth_header nonce counter (length p) @ p"
  let ?d = "?b @ hmac_sha256 (a_psk a) ?b"
  have len: "length (auth_header nonce counter (length p)) = 32" "length ?d = 64 + length p"
    using assms(1) by (simp_all add: auth_header_def auth_magic_def)
  have n: "length p < 256 ^ 4" using assms(3) by (simp add: max_auth_payload_def)
  have f: "take 4 ?d = auth_magic" "take 16 (drop 4 ?d) = nonce"
    "be_nat (take 8 (drop 20 ?d)) = counter" "be_nat (take 4 (drop 28 ?d)) = length p"
    using assms(1,2) be_nat_be_bytes [OF n] be_nat_be_bytes [of counter 8]
    by (simp_all add: auth_header_def auth_magic_def)
  have td: "take (length ?d - 32) ?d = ?b" "drop (length ?d - 32) ?d = hmac_sha256 (a_psk a) ?b"
    using len by simp_all
  have dp: "drop 32 ?b = p" using len(1) by simp
  show ?thesis
    unfolding append_assoc [symmetric] auth_open_def auth_header_size_def mac_size_def Let_def f td dp
    using len(2) assms(3) by simp
qed

lemma auth_seal_wire:
  "auth_seal a p = (Inr d, a') \<Longrightarrow> d = auth_header (a_nonce a) (a_counter a) (length p) @ p
      @ hmac_sha256 (a_psk a) (auth_header (a_nonce a) (a_counter a) (length p) @ p)
    \<and> a_counter a < 2 ^ 64 \<and> length p \<le> max_auth_payload \<and> a' = a\<lparr>a_counter := a_counter a + 1\<rparr>"
  by (auto simp: auth_seal_def Let_def split: if_splits)

lemma byte_of_nat: "(word_of_nat (x * 256 + unat b) :: byte) = b"
proof -
  have "unat (word_of_nat (x * 256 + unat b) :: byte) = unat b"
    using unat_byte_lt [of b] unat_of_nat [where 'a=8, of "x * 256 + unat b"]
    by (simp del: of_nat_add of_nat_mult unat_of_nat)
  then show ?thesis by (simp add: word_unat_eq_iff)
qed

lemma be_bytes_be_nat: "be_bytes (length bs) (be_nat bs) = bs"
proof (induction bs rule: rev_induct)
  case (snoc b bs)
  have "(be_nat bs * 256 + unat b) div 256 = be_nat bs" using unat_byte_lt [of b] by simp
  with snoc show ?case by (simp add: be_nat_snoc byte_of_nat del: of_nat_add of_nat_mult)
qed simp

lemma auth_open_shape:
  assumes "auth_open a d = (Inr (p, m), a')"
  shows "d = auth_header (m_nonce m) (m_counter m) (length p) @ p
      @ hmac_sha256 (a_psk a) (auth_header (m_nonce m) (m_counter m) (length p) @ p)
    \<and> length (m_nonce m) = 16 \<and> m_counter m < 2 ^ 64 \<and> length p \<le> max_auth_payload
    \<and> (\<exists>ss. accept_counter (a_window a) (a_max_sessions a) (a_sessions a) (m_nonce m) (m_counter m) = Inr ss
          \<and> a' = a\<lparr>a_sessions := ss\<rparr>)"
proof -
  let ?n = "be_nat (take 4 (drop 28 d))"
  let ?body = "take (length d - 32) d"
  let ?acc = "accept_counter (a_window a) (a_max_sessions a) (a_sessions a) (take 16 (drop 4 d))
    (be_nat (take 8 (drop 20 d)))"
  note def = auth_open_def auth_header_size_def mac_size_def Let_def
  have g1: "\<not> length d < 32 + 32" using assms by (rule contrapos_pn) (simp add: def)
  have g2: "take 4 d = auth_magic" using assms by (rule contrapos_pp) (simp add: def)
  have g3: "\<not> max_auth_payload < ?n" using assms by (rule contrapos_pn) (simp add: def g1 g2)
  have g4: "length d = 32 + ?n + 32" using assms by (rule contrapos_pp) (simp add: def g1 g2 g3)
  have g5: "drop (length d - 32) d = hmac_sha256 (a_psk a) ?body"
  proof (rule ccontr)
    assume bad: "drop (length d - 32) d \<noteq> hmac_sha256 (a_psk a) ?body"
    from assms [unfolded def] show False
      by (simp only: g1 g2 g3 g4 [THEN eqTrueI] bad if_False if_True not_True_eq_False not_False_eq_True simp_thms)
        (simp split: if_splits)
  qed
  have eq: "auth_open a d = (case ?acc of
      Inl e \<Rightarrow> (Inl e, a)
    | Inr ss \<Rightarrow> (Inr (drop 32 ?body, \<lparr>m_nonce = take 16 (drop 4 d), m_counter = be_nat (take 8 (drop 20 d))\<rparr>),
        a\<lparr>a_sessions := ss\<rparr>))"
    unfolding def
    by (simp only: g1 g2 g3 g4 [THEN eqTrueI] g5 [THEN eqTrueI] if_False if_True not_True_eq_False not_False_eq_True simp_thms)
  have res: "p = drop 32 ?body \<and> m = \<lparr>m_nonce = take 16 (drop 4 d), m_counter = be_nat (take 8 (drop 20 d))\<rparr>"
    using assms [unfolded eq] by (cases ?acc) (simp_all only: sum.case prod.inject sum.inject sum.distinct, blast)
  have acc: "\<exists>ss. ?acc = Inr ss \<and> a' = a\<lparr>a_sessions := ss\<rparr>"
    using assms [unfolded eq] by (cases ?acc) (auto simp del: take_all drop_all)
  have len: "length d = 64 + ?n" using g4 by linarith
  note mag = g2 and mac = g5
  have p: "p = drop 32 ?body"
    and m: "m_nonce m = take 16 (drop 4 d)" "m_counter m = be_nat (take 8 (drop 20 d))"
    using res by simp_all
  have ge: "64 \<le> length d" using len by linarith
  have lp: "length p = ?n" unfolding p using len by (simp only: length_drop length_take)
  have "be_bytes 8 (m_counter m) = take 8 (drop 20 d)" "be_bytes 4 ?n = take 4 (drop 28 d)"
    using be_bytes_be_nat [of "take 8 (drop 20 d)"] be_bytes_be_nat [of "take 4 (drop 28 d)"] ge m
    by simp_all
  then have "auth_header (m_nonce m) (m_counter m) (length p)
      = take 4 d @ take 16 (drop 4 d) @ take 8 (drop 20 d) @ take 4 (drop 28 d)"
    by (simp add: auth_header_def m mag lp)
  also have "\<dots> = take 32 d"
    using take_add [of 4 28 d] take_add [of 16 12 "drop 4 d"] take_add [of 8 4 "drop 20 d"] by simp
  finally have h: "auth_header (m_nonce m) (m_counter m) (length p) = take 32 d" .
  have "take 32 d = take 32 ?body" using ge by (simp add: min_absorb1)
  then have "auth_header (m_nonce m) (m_counter m) (length p) @ p = ?body"
    using h p by (metis append_take_drop_id)
  moreover have "d = ?body @ drop (length d - 32) d" by simp
  moreover have "d = ?body @ hmac_sha256 (a_psk a) ?body" using mac by (metis append_take_drop_id)
  ultimately have "d = auth_header (m_nonce m) (m_counter m) (length p) @ p
      @ hmac_sha256 (a_psk a) (auth_header (m_nonce m) (m_counter m) (length p) @ p)"
    by (metis append_assoc)
  moreover have "length (m_nonce m) = 16" using m(1) ge by simp
  moreover have "m_counter m < 2 ^ 64"
    using be_nat_bound [of "take 8 (drop 20 d)"] ge m(2) by simp
  moreover have "length p \<le> max_auth_payload" using g3 lp by linarith
  ultimately show ?thesis using acc by (simp only: m)
qed

lemma auth_open_error: "auth_open a d = (Inl e, a') \<Longrightarrow> a' = a"
  by (auto simp: auth_open_def Let_def simp del: take_all drop_all split: if_splits sum.splits)

subsection \<open>The replay window is a set of counters\<close>

text \<open>
  The specification keeps, for every live session, the set of the counters received: a counter
  is accepted when it is not in the set and less than \<open>window\<close> behind its maximum. Sessions
  are evicted in the order of their last acceptance.
\<close>

type_synonym spec_sessions = "(bytes \<times> nat set) list"

definition spec_accept :: "nat \<Rightarrow> nat \<Rightarrow> spec_sessions \<Rightarrow> bytes \<Rightarrow> nat \<Rightarrow> spec_sessions option" where
  "spec_accept window max_sessions ss nonce counter =
     (case map_of ss nonce of
        None \<Rightarrow> Some (last_n max_sessions (od_touch nonce {counter} ss))
      | Some S \<Rightarrow>
          if counter \<notin> S \<and> Max S < counter + window then Some (od_touch nonce (insert counter S) ss)
          else None)"

definition window_of :: "nat \<Rightarrow> nat \<times> nat \<Rightarrow> nat set \<Rightarrow> bool" where
  "window_of w hb S \<longleftrightarrow> finite S \<and> S \<noteq> {} \<and> fst hb = Max S
     \<and> (\<forall>d. bit (snd hb) d \<longleftrightarrow> d < w \<and> d \<le> fst hb \<and> fst hb - d \<in> S)"

definition sessions_rel :: "nat \<Rightarrow> sessions \<Rightarrow> spec_sessions \<Rightarrow> bool" where
  "sessions_rel w = list_all2 (\<lambda>(n, hb) (n', S). n = n' \<and> window_of w hb S)"

lemma window_new: "0 < w \<Longrightarrow> window_of w (c, 1) {c}"
  by (auto simp: window_of_def bit_Suc_0_iff)

lemma window_forward:
  assumes "window_of w (h, b) S" "h < c" "0 < w"
  shows "window_of w (c, if w \<le> c - h then 1 else ((push_bit (c - h) b OR 1) AND (2 ^ w - 1))) (insert c S)"
proof -
  have S: "finite S" "S \<noteq> {}" "h = Max S" "\<And>d. bit b d \<longleftrightarrow> d < w \<and> d \<le> h \<and> h - d \<in> S"
    using assms(1) by (auto simp: window_of_def)
  have le: "x \<in> S \<Longrightarrow> x \<le> h" for x using S by simp
  have mask: "(2 ^ w - 1 :: nat) = mask w" by (simp add: mask_eq_exp_minus_1)
  have B: "bit (if w \<le> c - h then 1 else ((push_bit (c - h) b OR 1) AND mask w)) d \<longleftrightarrow>
      d < w \<and> d \<le> c \<and> c - d \<in> insert c S" for d
  proof (cases "d = 0")
    case True
    then show ?thesis using assms(3) by (simp add: bit_and_iff bit_or_iff bit_mask_iff bit_Suc_0_iff)
  next
    case False
    have "c - d \<in> S \<and> d \<le> c \<longleftrightarrow> c - h \<le> d \<and> d - (c - h) \<le> h \<and> h - (d - (c - h)) \<in> S"
    proof
      assume a: "c - d \<in> S \<and> d \<le> c"
      then have "c - d \<le> h" using le by blast
      then have "h - (d - (c - h)) = c - d" "c - h \<le> d" "d - (c - h) \<le> h"
        using assms(2) a by linarith+
      with a show "c - h \<le> d \<and> d - (c - h) \<le> h \<and> h - (d - (c - h)) \<in> S" by simp
    next
      assume a: "c - h \<le> d \<and> d - (c - h) \<le> h \<and> h - (d - (c - h)) \<in> S"
      then have "h - (d - (c - h)) = c - d" "d \<le> c" using assms(2) by linarith+
      with a show "c - d \<in> S \<and> d \<le> c" by simp
    qed
    moreover have "bit (push_bit (c - h) b) d \<longleftrightarrow> c - h \<le> d \<and> d - (c - h) < w \<and> d - (c - h) \<le> h \<and> h - (d - (c - h)) \<in> S"
      using S(4) [of "d - (c - h)"] by (simp only: bit_push_bit_iff_nat)
    moreover have "bit (if w \<le> c - h then 1 else ((push_bit (c - h) b OR 1) AND mask w)) d \<longleftrightarrow>
        \<not> w \<le> c - h \<and> bit (push_bit (c - h) b) d \<and> d < w"
      using False by (auto simp: bit_and_iff bit_or_iff bit_mask_iff bit_Suc_0_iff)
    moreover have "d \<noteq> 0 \<Longrightarrow> c - d \<in> insert c S \<and> d \<le> c \<longleftrightarrow> c - d \<in> S \<and> d \<le> c"
      using assms(2) by auto
    ultimately show ?thesis using False by (metis diff_le_self le_less_trans less_le_trans not_le order.trans)
  qed
  have "Max (insert c S) = c" using S assms(2) by simp
  then show ?thesis
    unfolding window_of_def mask fst_conv snd_conv by (intro conjI allI B) (simp_all add: S(1))
qed

lemma window_backward:
  assumes "window_of w (h, b) S" "c \<le> h" "h - c < w"
  shows "bit b (h - c) \<longleftrightarrow> c \<in> S" and "window_of w (h, b OR push_bit (h - c) 1) (insert c S)"
proof -
  have S: "finite S" "S \<noteq> {}" "h = Max S" "\<And>d. bit b d \<longleftrightarrow> d < w \<and> d \<le> h \<and> h - d \<in> S"
    using assms(1) by (auto simp: window_of_def)
  show "bit b (h - c) \<longleftrightarrow> c \<in> S" using S(4) [of "h - c"] assms(2,3) by simp
  have "Max (insert c S) = h" using S assms(2) by (simp add: max_def)
  moreover have "bit (b OR push_bit (h - c) 1) d \<longleftrightarrow> d < w \<and> d \<le> h \<and> h - d \<in> insert c S" for d
  proof -
    have "bit (push_bit (h - c) 1 :: nat) d \<longleftrightarrow> d = h - c"
      by (simp add: bit_push_bit_iff_nat bit_Suc_0_iff del: push_bit_of_1 push_bit_of_Suc_0) linarith
    then show ?thesis using S(4) [of d] assms(2,3) by (simp only: bit_or_iff) auto
  qed
  ultimately show "window_of w (h, b OR push_bit (h - c) 1) (insert c S)"
    using S by (simp add: window_of_def)
qed

lemma rel_map_of:
  "sessions_rel w ss sp \<Longrightarrow> (case map_of ss n of
     None \<Rightarrow> map_of sp n = None | Some hb \<Rightarrow> (\<exists>S. map_of sp n = Some S \<and> window_of w hb S))"
  unfolding sessions_rel_def by (induction rule: list_all2_induct) (auto split: option.splits)

lemma rel_delete: "sessions_rel w ss sp \<Longrightarrow> sessions_rel w (AList.delete n ss) (AList.delete n sp)"
  unfolding sessions_rel_def by (induction rule: list_all2_induct) auto

lemma rel_od_touch:
  "sessions_rel w ss sp \<Longrightarrow> window_of w hb S \<Longrightarrow> sessions_rel w (od_touch n hb ss) (od_touch n S sp)"
  using rel_delete [of w ss sp n] by (simp add: sessions_rel_def od_touch_def list_all2_appendI)

lemma rel_last_n: "sessions_rel w ss sp \<Longrightarrow> sessions_rel w (last_n k ss) (last_n k sp)"
  unfolding sessions_rel_def last_n_def by (simp add: list_all2_lengthD list_all2_dropI)

text \<open>The bitmap decides as the specification does, and keeps representing it.\<close>

lemma accept_refines:
  assumes rel: "sessions_rel w ss sp" and w: "0 < w"
  shows "case accept_counter w k ss n c of
      Inl e \<Rightarrow> spec_accept w k sp n c = None
    | Inr ss' \<Rightarrow> (\<exists>sp'. spec_accept w k sp n c = Some sp' \<and> sessions_rel w ss' sp')"
proof (cases "map_of ss n")
  case None
  then have "map_of sp n = None" using rel_map_of [OF rel, of n] by simp
  with None show ?thesis
    using rel_last_n [OF rel_od_touch [OF rel window_new [OF w, of c], of n], of k]
    by (simp add: accept_counter_def spec_accept_def)
next
  case (Some hb)
  obtain h b where hb: "hb = (h, b)" by (cases hb)
  obtain S where S: "map_of sp n = Some S" "window_of w (h, b) S"
    using rel_map_of [OF rel, of n] Some hb by auto
  have fin: "finite S" "S \<noteq> {}" "h = Max S" using S(2) by (auto simp: window_of_def)
  consider "h < c" | "c \<le> h" "w \<le> h - c" | "c \<le> h" "h - c < w" by linarith
  then show ?thesis
  proof cases
    case 1
    then have "c \<notin> S" "Max S < c + w" using fin by auto
    with 1 Some S hb show ?thesis
      using rel_od_touch [OF rel window_forward [OF S(2) 1 w], of n]
      by (simp add: accept_counter_def spec_accept_def Let_def)
  next
    case 2
    with w have "\<not> Max S < c + w" using fin(3) by linarith
    with 2 Some S hb show ?thesis by (simp add: accept_counter_def spec_accept_def Let_def)
  next
    case 3
    then have "Max S < c + w" using fin(3) by linarith
    with 3 Some S hb window_backward(1) [OF S(2) 3] show ?thesis
      using rel_od_touch [OF rel window_backward(2) [OF S(2) 3], of n]
      by (simp add: accept_counter_def spec_accept_def Let_def)
  qed
qed

text \<open>A whole run: the decisions on a list of (nonce, counter) pairs\<close>

fun accept_run :: "nat \<Rightarrow> nat \<Rightarrow> sessions \<Rightarrow> (bytes \<times> nat) list \<Rightarrow> bool list" where
  "accept_run w k ss [] = []"
| "accept_run w k ss ((n, c) # es) =
     (case accept_counter w k ss n c of
        Inl e \<Rightarrow> False # accept_run w k ss es
      | Inr ss' \<Rightarrow> True # accept_run w k ss' es)"

fun spec_run :: "nat \<Rightarrow> nat \<Rightarrow> spec_sessions \<Rightarrow> (bytes \<times> nat) list \<Rightarrow> bool list" where
  "spec_run w k sp [] = []"
| "spec_run w k sp ((n, c) # es) =
     (case spec_accept w k sp n c of
        None \<Rightarrow> False # spec_run w k sp es
      | Some sp' \<Rightarrow> True # spec_run w k sp' es)"

lemma accept_run_refines:
  "sessions_rel w ss sp \<Longrightarrow> 0 < w \<Longrightarrow> accept_run w k ss es = spec_run w k sp es"
proof (induction es arbitrary: ss sp)
  case (Cons e es)
  obtain n c where e: "e = (n, c)" by (cases e)
  from Cons.IH Cons.prems accept_refines [OF Cons.prems, of k n c] show ?case
    by (auto simp: e split: sum.splits)
qed simp

subsection \<open>No counter is accepted twice\<close>

text \<open>The pairs a run accepted\<close>

definition accepted :: "nat \<Rightarrow> nat \<Rightarrow> sessions \<Rightarrow> (bytes \<times> nat) list \<Rightarrow> (bytes \<times> nat) list" where
  "accepted w k ss es = map fst (filter snd (zip es (accept_run w k ss es)))"

definition spec_seen :: "spec_sessions \<Rightarrow> (bytes \<times> nat) set" where
  "spec_seen sp = {(n, c). \<exists>S. map_of sp n = Some S \<and> c \<in> S}"

lemma map_fst_od_touch [simp]: "map fst (od_touch n v d) = map fst (AList.delete n d) @ [n]"
  by (simp add: od_touch_def)

lemma length_od_touch [simp]: "length (od_touch n v d) = Suc (length (AList.delete n d))"
  by (simp add: od_touch_def)

lemma spec_accept_live:
  assumes "spec_accept w k sp n c = Some sp'" and "length (od_touch n {} sp) \<le> k"
  obtains S where "sp' = od_touch n (insert c S) sp" "c \<notin> S"
    "\<And>S'. map_of sp n = Some S' \<Longrightarrow> S' = S" "map_of sp n = None \<Longrightarrow> S = {}"
proof (cases "map_of sp n")
  case None
  with assms show ?thesis by (intro that [of "{}"]) (simp_all add: spec_accept_def)
next
  case (Some S)
  with assms(1) show ?thesis by (intro that [of S]) (simp_all add: spec_accept_def split: if_splits)
qed

lemma spec_accept_seen:
  assumes "spec_accept w k sp n c = Some sp'" and "length (od_touch n {} sp) \<le> k"
  shows "(n, c) \<notin> spec_seen sp" and "spec_seen sp' = insert (n, c) (spec_seen sp)"
    and "map fst sp' = map fst (od_touch n {} sp)"
proof -
  obtain S where S: "sp' = od_touch n (insert c S) sp" "c \<notin> S"
    "\<And>S'. map_of sp n = Some S' \<Longrightarrow> S' = S" "map_of sp n = None \<Longrightarrow> S = {}"
    using spec_accept_live [OF assms] by blast
  then show "(n, c) \<notin> spec_seen sp" "map fst sp' = map fst (od_touch n {} sp)"
    by (auto simp: spec_seen_def)
  show "spec_seen sp' = insert (n, c) (spec_seen sp)"
    using S(1,3,4) by (cases "map_of sp n") (fastforce simp: spec_seen_def split: if_splits)+
qed

lemma length_le_keys:
  "distinct (map fst d) \<Longrightarrow> fst ` set d \<subseteq> A \<Longrightarrow> finite A \<Longrightarrow> length d \<le> card A"
  by (metis card_mono distinct_card length_map set_map)

lemma spec_run_distinct:
  assumes "distinct (map fst sp)" "fst ` set sp \<union> fst ` set es \<subseteq> A" "finite A" "card A \<le> k"
  shows "distinct (map fst (filter snd (zip es (spec_run w k sp es))))
    \<and> set (map fst (filter snd (zip es (spec_run w k sp es)))) \<inter> spec_seen sp = {}"
  using assms
proof (induction es arbitrary: sp)
  case (Cons e es)
  obtain n c where e: "e = (n, c)" by (cases e)
  let ?t = "od_touch n {} sp"
  have d: "distinct (map fst ?t)" using Cons.prems(1) by (rule distinct_od_touch)
  have keys: "fst ` set ?t \<subseteq> A"
    using Cons.prems(2) keys_delete [of n sp] by (auto simp: od_touch_def e)
  have len: "length ?t \<le> k"
    using length_le_keys [OF d keys Cons.prems(3)] Cons.prems(4) by linarith
  show ?case
  proof (cases "spec_accept w k sp n c")
    case None
    with Cons show ?thesis by (simp add: e)
  next
    case (Some sp')
    note seen = spec_accept_seen [OF Some len]
    have "distinct (map fst sp')" "fst ` set sp' \<union> fst ` set es \<subseteq> A"
      using d keys Cons.prems(2) set_map [of fst sp'] set_map [of fst ?t]
      unfolding seen(3) by simp_all
    from Cons.IH [OF this Cons.prems(3,4)] Some seen(1,2) show ?thesis by (auto simp: e)
  qed
qed simp

end
