(* ===== verification/AuthSession.thy ===== *)
theory AuthSession
  imports AuthProps
begin

text \<open>
  The persistent session and the stream splitter: a snapshot restores the codec it was taken
  from, and no counter leaves the process twice even across failed saves and restarts.
\<close>

subsection \<open>Restoring a snapshot\<close>

lemma nibbles: "(word_of_nat (16 * (unat b div 16) + unat b mod 16) :: byte) = b"
proof -
  have "16 * (unat b div 16) + unat b mod 16 = unat b" by simp
  then show ?thesis by (simp del: of_nat_add of_nat_mult)
qed

lemma from_hex_hex [simp]: "from_hex (hex bs) = Some bs"
proof (induction bs)
  case (Cons b bs)
  have "unat b div 16 < 16" "unat b mod 16 < 16" using unat_byte_lt [of b] by auto
  with Cons nibbles [of b] show ?case
    by (simp add: hex_def hex_byte_def hexit_hex_digit del: of_nat_add of_nat_mult)
qed (simp add: hex_def)

definition auth_ok :: "auth_codec \<Rightarrow> bool" where
  "auth_ok a \<longleftrightarrow> 16 \<le> length (a_psk a) \<and> length (a_nonce a) = 16 \<and> 1 \<le> a_window a \<and> a_window a \<le> 4096
     \<and> 1 \<le> a_max_sessions a \<and> length (a_sessions a) \<le> a_max_sessions a
     \<and> distinct (map fst (a_sessions a)) \<and> (\<forall>n \<in> fst ` set (a_sessions a). length n = 16)"

lemma restore_sessions_snapshot:
  "distinct (map fst acc @ map fst ss) \<Longrightarrow> \<forall>n \<in> fst ` set ss. length n = 16 \<Longrightarrow>
     restore_sessions (map session_json ss) acc = Inr (acc @ ss)"
proof (induction ss arbitrary: acc)
  case (Cons s ss)
  obtain n h b where s: "s = (n, h, b)" by (cases s)
  have "map_of acc n = None" using Cons.prems(1) by (auto simp: s map_of_eq_None_iff)
  then have "AList.update n (h, b) acc = acc @ [(n, h, b)]" by (rule update_absent)
  moreover have "restore_sessions (map session_json ss) (acc @ [(n, h, b)]) = Inr ((acc @ [(n, h, b)]) @ ss)"
    using Cons.prems by (intro Cons.IH) (auto simp: s)
  ultimately show ?case using Cons.prems(2) by (simp add: s session_json_def)
qed simp

lemma restore_snapshot:
  assumes "auth_ok a"
  shows "auth_init (a_psk a) (Some (auth_snapshot a)) None (a_window a) (a_max_sessions a) fresh = Inr a"
proof -
  have "restore_sessions (map session_json (a_sessions a)) [] = Inr (a_sessions a)"
    using assms restore_sessions_snapshot [of "[]" "a_sessions a"] by (simp add: auth_ok_def)
  with assms show ?thesis
    by (simp add: auth_init_def auth_snapshot_def auth_ok_def Let_def not_less)
qed

lemma restore_sessions_ok:
  "restore_sessions js acc = Inr ss \<Longrightarrow> distinct (map fst acc) \<Longrightarrow> \<forall>n \<in> fst ` set acc. length n = 16 \<Longrightarrow>
     distinct (map fst ss) \<and> (\<forall>n \<in> fst ` set ss. length n = 16)"
proof (induction js arbitrary: acc)
  case (Cons j js)
  obtain n where n: "from_hex (str_of (fld (dict_of j) ''nonce'')) = Some n" "length n = 16"
    using Cons.prems(1) by (auto split: option.splits if_splits)
  let ?acc = "AList.update n (nat (int_of (fld (dict_of j) ''highest'')),
    nat (int_of (fld (dict_of j) ''bitmap''))) acc"
  have "fst ` set ?acc = insert n (fst ` set acc)"
    using dom_update [of n _ acc] by (simp add: dom_map_of_conv_image_fst [symmetric])
  with Cons n show ?case by (intro Cons.IH [of ?acc]) (auto simp: distinct_keys_update)
qed simp

lemma auth_init_ok:
  assumes "auth_init psk st cfg w k fresh = Inr a"
  shows "auth_ok a" "a_psk a = psk" "a_window a = w" "a_max_sessions a = k"
proof -
  obtain nonce where g: "length nonce = 16" "16 \<le> length psk" "1 \<le> w" "w \<le> 4096" "1 \<le> k"
    and r: "\<exists>js ss c. restore_sessions js [] = Inr ss \<and> length ss \<le> k \<and> a = \<lparr>a_psk = psk, a_nonce = nonce,
       a_counter = c, a_window = w, a_max_sessions = k, a_sessions = ss\<rparr>"
    using assms exI [of "\<lambda>js. restore_sessions js [] = Inr []" "[]"]
    by (auto simp: auth_init_def Let_def not_less split: if_splits option.splits sum.splits) blast+
  then obtain js ss c where "restore_sessions js [] = Inr ss" "length ss \<le> k"
    and a: "a = \<lparr>a_psk = psk, a_nonce = nonce, a_counter = c, a_window = w, a_max_sessions = k, a_sessions = ss\<rparr>"
    by blast
  with restore_sessions_ok [of js "[]" ss] g show "auth_ok a" by (simp add: auth_ok_def)
  show "a_psk a = psk" "a_window a = w" "a_max_sessions a = k" using a by simp_all
qed

subsection \<open>The operations keep the codec well formed\<close>

lemma auth_seal_ok: "auth_ok a \<Longrightarrow> auth_ok (snd (auth_seal a p))"
  by (auto simp: auth_seal_def Let_def auth_ok_def)

lemma accept_counter_ok:
  assumes "accept_counter w k ss n c = Inr ss'" "length n = 16" "1 \<le> k"
    and "distinct (map fst ss)" "\<forall>m \<in> fst ` set ss. length m = 16" "length ss \<le> k"
  shows "distinct (map fst ss') \<and> (\<forall>m \<in> fst ` set ss'. length m = 16) \<and> length ss' \<le> k"
proof -
  have t: "distinct (map fst (od_touch n v ss))" "\<forall>m \<in> fst ` set (od_touch n v ss). length m = 16" for v
    using assms keys_delete [of n ss] distinct_od_touch [of ss n v] by (auto simp: od_touch_def)
  show ?thesis
  proof (cases "map_of ss n")
    case None
    then have e: "ss' = last_n k (od_touch n (c, 1) ss)" using assms(1) by (simp add: accept_counter_def)
    show ?thesis unfolding e using t [of "(c, 1)"] set_last_n [of k "od_touch n (c, 1) ss"]
      distinct_map_last_n [of fst "od_touch n (c, 1) ss" k]
      by (auto simp del: length_od_touch map_fst_od_touch)
  next
    case (Some hb)
    then obtain v where e: "ss' = od_touch n v ss"
      using assms(1) by (auto simp: accept_counter_def Let_def split: prod.splits if_splits)
    have "length (AList.delete n ss) = length ss - 1"
      using length_delete_present [OF assms(4) Some] .
    moreover have "ss \<noteq> []" using Some by auto
    ultimately have "length ss' \<le> k" using assms(6) by (cases ss) (auto simp: e)
    then show ?thesis unfolding e using t by blast
  qed
qed

lemma auth_open_ok:
  assumes "auth_ok a"
  shows "auth_ok (snd (auth_open a d))"
proof (cases "auth_open a d")
  case (Pair r a')
  show ?thesis
  proof (cases r)
    case (Inl e)
    with Pair have "a' = a" by (simp add: auth_open_error)
    with Pair assms show ?thesis by simp
  next
    case (Inr pm)
    obtain p m where pm: "pm = (p, m)" by (cases pm)
    with Pair Inr have o: "auth_open a d = (Inr (p, m), a')" by simp
    note shape = auth_open_shape [OF o]
    from shape obtain ss where acc: "accept_counter (a_window a) (a_max_sessions a) (a_sessions a) (m_nonce m)
        (m_counter m) = Inr ss" and a': "a' = a\<lparr>a_sessions := ss\<rparr>"
      by blast
    have "distinct (map fst ss) \<and> (\<forall>n \<in> fst ` set ss. length n = 16) \<and> length ss \<le> a_max_sessions a"
      using shape assms by (intro accept_counter_ok [OF acc]) (simp_all add: auth_ok_def)
    then show ?thesis using assms unfolding Pair snd_conv a' by (simp add: auth_ok_def)
  qed
qed

subsection \<open>Runs with failed saves and restarts\<close>

text \<open>
  What can happen to the endpoint of a session: it seals or opens with a save that succeeds or
  not, or the process restarts and loads what is on disk, with a new nonce from
  \<open>os.urandom\<close> at hand.
\<close>

datatype session_op = Seal bytes bool | Open bytes bool | Restart bytes

fun session_step ::
  "bytes \<Rightarrow> bytes option \<Rightarrow> nat \<Rightarrow> nat \<Rightarrow> auth_session \<times> bytes list \<Rightarrow> session_op \<Rightarrow> auth_session \<times> bytes list" where
  "session_step psk cfg w k (s, sent) (Seal p ok) =
     (case session_seal ok s p of (Inr d, s') \<Rightarrow> (s', sent @ [d]) | (Inl _, s') \<Rightarrow> (s', sent))"
| "session_step psk cfg w k (s, sent) (Open d ok) = (snd (session_open ok s d), sent)"
| "session_step psk cfg w k (s, sent) (Restart fresh) =
     (case session_load psk (s_disk s) cfg w k fresh of Inr s' \<Rightarrow> (s', sent) | Inl _ \<Rightarrow> (s, sent))"

definition session_run ::
  "bytes \<Rightarrow> bytes option \<Rightarrow> nat \<Rightarrow> nat \<Rightarrow> auth_session \<Rightarrow> session_op list \<Rightarrow> auth_session \<times> bytes list" where
  "session_run psk cfg w k s ops = foldl (session_step psk cfg w k) (s, []) ops"

text \<open>The (nonce, counter) of a datagram on the wire\<close>

definition stamp :: "bytes \<Rightarrow> bytes \<times> nat" where
  "stamp d = (take 16 (drop 4 d), be_nat (take 8 (drop 20 d)))"

lemma stamp_seal:
  assumes "auth_seal a p = (Inr d, a')" "length (a_nonce a) = 16"
  shows "stamp d = (a_nonce a, a_counter a)"
  using auth_seal_wire [OF assms(1)] assms(2) be_nat_be_bytes [of "a_counter a" 8]
  by (simp add: stamp_def auth_header_def auth_magic_def)

definition disk_covers :: "auth_codec \<Rightarrow> json option \<Rightarrow> bytes list \<Rightarrow> bool" where
  "disk_covers c disk sent \<longleftrightarrow> (case disk of
     None \<Rightarrow> sent = []
   | Some j \<Rightarrow> (\<exists>a. j = auth_snapshot a \<and> auth_ok a \<and> a_psk a = a_psk c \<and> a_window a = a_window c
        \<and> a_max_sessions a = a_max_sessions c \<and> a_nonce a = a_nonce c \<and> a_counter a \<le> a_counter c
        \<and> (\<forall>d \<in> set sent. fst (stamp d) = a_nonce a \<and> snd (stamp d) < a_counter a)))"

definition session_inv :: "bytes \<Rightarrow> nat \<Rightarrow> nat \<Rightarrow> auth_session \<times> bytes list \<Rightarrow> bool" where
  "session_inv psk w k = (\<lambda>(s, sent). let c = s_codec s in
     auth_ok c \<and> a_psk c = psk \<and> a_window c = w \<and> a_max_sessions c = k
     \<and> disk_covers c (s_disk s) sent
     \<and> sorted_wrt (<) (map (snd \<circ> stamp) sent))"

lemma disk_covers_saved:
  assumes "auth_ok c" "\<forall>d \<in> set sent. fst (stamp d) = a_nonce c \<and> snd (stamp d) < a_counter c"
  shows "disk_covers c (Some (auth_snapshot c)) sent"
  unfolding disk_covers_def using assms by auto

lemma disk_covers_below:
  "disk_covers c disk sent \<Longrightarrow> d \<in> set sent \<Longrightarrow> fst (stamp d) = a_nonce c \<and> snd (stamp d) < a_counter c"
  by (auto simp: disk_covers_def split: option.splits)

lemma disk_covers_advance:
  assumes "disk_covers c disk sent" "a_psk c' = a_psk c" "a_window c' = a_window c"
    "a_max_sessions c' = a_max_sessions c" "a_nonce c' = a_nonce c" "a_counter c \<le> a_counter c'"
  shows "disk_covers c' disk sent"
  using assms by (auto simp: disk_covers_def split: option.splits intro: order.trans)

lemma auth_seal_fields:
  "auth_seal a p = (r, a') \<Longrightarrow> a_psk a' = a_psk a \<and> a_window a' = a_window a \<and>
     a_max_sessions a' = a_max_sessions a \<and> a_nonce a' = a_nonce a \<and> a_counter a \<le> a_counter a'"
  by (auto simp: auth_seal_def Let_def split: if_splits)

lemma auth_open_fields:
  "auth_open a d = (r, a') \<Longrightarrow> a_psk a' = a_psk a \<and> a_window a' = a_window a \<and>
     a_max_sessions a' = a_max_sessions a \<and> a_nonce a' = a_nonce a \<and> a_counter a' = a_counter a"
  using auth_open_error [of a d] auth_open_shape [of a d] by (cases r) fastforce+

lemma session_seal_inv:
  assumes "session_inv psk w k (s, sent)"
  shows "session_inv psk w k (session_step psk cfg w k (s, sent) (Seal p ok))"
proof -
  obtain r c where seal: "auth_seal (s_codec s) p = (r, c)" by (cases "auth_seal (s_codec s) p")
  note f = auth_seal_fields [OF seal]
  have inv: "auth_ok (s_codec s)" "disk_covers (s_codec s) (s_disk s) sent"
    using assms by (simp_all add: session_inv_def Let_def)
  have ok: "auth_ok c" using auth_seal_ok [OF inv(1), of p] seal by simp
  have adv: "disk_covers c (s_disk s) sent" using disk_covers_advance [OF inv(2)] f by simp
  show ?thesis
  proof (cases "\<exists>d. r = Inr d \<and> ok")
    case False
    then have "session_step psk cfg w k (s, sent) (Seal p ok) = (s\<lparr>s_codec := c\<rparr>, sent)"
      by (cases r) (auto simp: session_seal_def seal)
    with assms ok adv f show ?thesis by (simp add: session_inv_def Let_def)
  next
    case True
    then obtain d where r: "r = Inr d" and ok1: "ok" by blast
    have w: "a_counter c = Suc (a_counter (s_codec s))"
      using auth_seal_wire [OF seal [unfolded r]] by simp
    have st: "stamp d = (a_nonce c, a_counter (s_codec s))"
      using stamp_seal [OF seal [unfolded r]] inv(1) f by (simp add: auth_ok_def)
    have below: "\<forall>e \<in> set (sent @ [d]). fst (stamp e) = a_nonce c \<and> snd (stamp e) < a_counter c"
      using disk_covers_below [OF inv(2)] st w f by fastforce
    have "sorted_wrt (<) (map (snd \<circ> stamp) (sent @ [d]))"
      using assms disk_covers_below [OF inv(2)] st by (auto simp: session_inv_def Let_def sorted_wrt_append)
    with assms ok ok1 f disk_covers_saved [OF ok below] show ?thesis
      by (simp add: session_inv_def Let_def session_seal_def seal r)
  qed
qed

lemma session_open_inv:
  assumes "session_inv psk w k (s, sent)"
  shows "session_inv psk w k (session_step psk cfg w k (s, sent) (Open d ok))"
proof -
  obtain r c where op: "auth_open (s_codec s) d = (r, c)" by (cases "auth_open (s_codec s) d")
  note f = auth_open_fields [OF op]
  have inv: "auth_ok (s_codec s)" "disk_covers (s_codec s) (s_disk s) sent"
    using assms by (simp_all add: session_inv_def Let_def)
  have ok: "auth_ok c" using auth_open_ok [OF inv(1), of d] op by simp
  have adv: "disk_covers c (s_disk s) sent" using disk_covers_advance [OF inv(2)] f by simp
  have "\<forall>e \<in> set sent. fst (stamp e) = a_nonce c \<and> snd (stamp e) < a_counter c"
    using disk_covers_below [OF inv(2)] f by simp
  note sv = disk_covers_saved [OF ok this]
  show ?thesis
    using assms ok adv sv f
    by (cases r) (auto simp: session_inv_def Let_def session_open_def op)
qed

lemma session_restart_inv:
  assumes "session_inv psk w k (s, sent)"
  shows "session_inv psk w k (session_step psk cfg w k (s, sent) (Restart fresh))"
proof (cases "session_load psk (s_disk s) cfg w k fresh")
  case (Inl e)
  with assms show ?thesis by simp
next
  case (Inr s')
  show ?thesis
  proof (cases "s_disk s")
    case None
    then obtain c where c: "auth_init psk None cfg w k fresh = Inr c" "s' = \<lparr>s_codec = c, s_disk = None\<rparr>"
      using Inr by (cases "auth_init psk None cfg w k fresh") (auto simp: session_load_def)
    then show ?thesis
      using assms auth_init_ok [OF c(1)] None Inr by (simp add: session_inv_def Let_def disk_covers_def)
  next
    case (Some j)
    then obtain a where a: "j = auth_snapshot a" "auth_ok a" "a_psk a = psk" "a_window a = w"
      "a_max_sessions a = k" "\<forall>d \<in> set sent. fst (stamp d) = a_nonce a \<and> snd (stamp d) < a_counter a"
      using assms by (auto simp: session_inv_def Let_def disk_covers_def)
    have "s' = \<lparr>s_codec = a, s_disk = Some (auth_snapshot a)\<rparr>"
      using Inr restore_snapshot [OF a(2), of fresh] a(3-5)
      by (simp add: session_load_def Some a(1) Let_def) (simp add: auth_snapshot_def)
    then show ?thesis
      using assms a disk_covers_saved [OF a(2,6)] Inr by (simp add: session_inv_def Let_def)
  qed
qed

lemma session_run_inv:
  "session_inv psk w k st \<Longrightarrow> session_inv psk w k (foldl (session_step psk cfg w k) st ops)"
proof (induction ops arbitrary: st)
  case (Cons o' ops)
  obtain s sent where st: "st = (s, sent)" by (cases st)
  have "session_inv psk w k (session_step psk cfg w k st o')"
    using Cons.prems session_seal_inv session_open_inv session_restart_inv
    unfolding st by (cases o') (auto simp del: session_step.simps)
  with Cons.IH show ?case by simp
qed simp

lemma session_load_inv:
  assumes "session_load psk None cfg w k fresh = Inr s"
  shows "session_inv psk w k (s, [])"
proof -
  obtain c where "auth_init psk None cfg w k fresh = Inr c" "s = \<lparr>s_codec = c, s_disk = None\<rparr>"
    using assms by (cases "auth_init psk None cfg w k fresh") (auto simp: session_load_def)
  with auth_init_ok [of psk None cfg w k fresh c] show ?thesis
    by (simp add: session_inv_def Let_def disk_covers_def)
qed

end
