(* ===== verification/AuthStream.thy ===== *)
theory AuthStream
  imports AuthSession
begin

text \<open>
  \<open>AuthenticatedStreamDecoder\<close> as a \<open>stream_machine\<close>: its output does not depend on how
  the serial line cuts the bytes, and a clean stream of sealed envelopes is split exactly.
\<close>

subsection \<open>Searching\<close>

lemma find_sub_Some_iff:
  "pat \<noteq> [] \<Longrightarrow> find_sub pat xs = Some i \<longleftrightarrow>
    i < length xs \<and> take (length pat) (drop i xs) = pat \<and> (\<forall>j < i. take (length pat) (drop j xs) \<noteq> pat)"
proof (induction xs arbitrary: i)
  case (Cons x xs)
  show ?case
  proof (cases "take (length pat) (x # xs) = pat")
    case True
    then show ?thesis by (cases i) auto
  next
    case False
    then show ?thesis using Cons by (cases i) (auto simp: less_Suc_eq_0_disj)
  qed
qed simp

lemma find_sub_None_iff:
  "pat \<noteq> [] \<Longrightarrow> find_sub pat xs = None \<longleftrightarrow> (\<forall>j. take (length pat) (drop j xs) \<noteq> pat)"
proof (induction xs)
  case (Cons x xs)
  show ?case
  proof (cases "take (length pat) (x # xs) = pat")
    case True
    then have "take (length pat) (drop 0 (x # xs)) = pat" by simp
    with True show ?thesis by (metis find_sub.simps(2) option.distinct(1))
  next
    case False
    then have "(\<forall>j. take (length pat) (drop j (x # xs)) \<noteq> pat) \<longleftrightarrow> (\<forall>j. take (length pat) (drop j xs) \<noteq> pat)"
      by (metis drop_0 drop_Suc_Cons not0_implies_Suc)
    with False Cons show ?thesis by simp
  qed
qed simp

lemma match_length: "take (length pat) (drop j xs) = pat \<Longrightarrow> pat \<noteq> [] \<Longrightarrow> j + length pat \<le> length xs"
  by (metis add.commute append_take_drop_id drop_all drop_eq_Nil le_diff_conv2 length_append length_drop
      linorder_le_cases nle_le take_Nil take_all trans_le_add1 order_refl le_add1)

lemma match_append:
  "j + length pat \<le> length xs \<Longrightarrow> take (length pat) (drop j (xs @ ys)) = take (length pat) (drop j xs)"
  by simp

lemma find_sub_append:
  assumes "pat \<noteq> []" "find_sub pat xs = Some i"
  shows "find_sub pat (xs @ ys) = Some i"
proof -
  have i: "i + length pat \<le> length xs" using assms(2) by (rule find_sub_Some_length)
  then show ?thesis
    using assms unfolding find_sub_Some_iff [OF assms(1)] by (auto simp: match_append)
qed

text \<open>A match that needs bytes not yet there starts in the last \<open>length pat - 1\<close> ones.\<close>

lemma find_sub_late:
  assumes "pat \<noteq> []" "find_sub pat xs = None" "find_sub pat (xs @ ys) = Some i"
  shows "length xs < i + length pat"
proof (rule ccontr)
  assume "\<not> length xs < i + length pat"
  then have "take (length pat) (drop i xs) = pat"
    using assms(3) match_append [of i pat xs ys] unfolding find_sub_Some_iff [OF assms(1)] by simp
  with assms(2) show False unfolding find_sub_None_iff [OF assms(1)] by blast
qed

lemma find_sub_drop:
  assumes "pat \<noteq> []" "find_sub pat xs = Some i" "n \<le> i"
  shows "find_sub pat (drop n xs) = Some (i - n)"
  using assms(2,3) unfolding find_sub_Some_iff [OF assms(1)] by (auto simp: less_diff_conv)

lemma find_sub_drop_None:
  assumes "pat \<noteq> []" "find_sub pat xs = None"
  shows "find_sub pat (drop n xs) = None"
  using assms(2) unfolding find_sub_None_iff [OF assms(1)] by simp

subsection \<open>The splitter is a stream machine\<close>

lemma auth_magic_facts [simp]: "auth_magic \<noteq> []" "length auth_magic = 4"
  by (simp_all add: auth_magic_def)

lemma auth_turn_front:
  assumes "find_sub auth_magic b = Some 0" "auth_turn m b = Take n es"
  shows "0 < n \<and> n \<le> length b \<and> auth_turn m (b @ x) = Take n es"
proof -
  have l: "32 \<le> length b" using assms by (auto simp: auth_turn_def auth_header_size_def split: if_splits)
  have f: "find_sub auth_magic (b @ x) = Some 0" by (rule find_sub_append) (simp_all add: assms(1))
  have d: "take 4 (drop 28 (b @ x)) = take 4 (drop 28 b)" using l by simp
  show ?thesis
    using assms l unfolding auth_turn_def f d
    by (auto simp: auth_header_size_def mac_size_def Let_def split: if_splits)
qed

lemma auth_turn_noise:
  assumes "find_sub auth_magic b = None" "3 < length b"
  shows "auth_turn m (b @ x) = Take (length b - 3) []
    \<or> (\<exists>k > length b - 3. auth_turn m (b @ x) = Take k []
         \<and> auth_turn m (drop (length b - 3) b @ x) = Take (k - (length b - 3)) [])"
proof -
  have dr: "drop (length b - 3) b @ x = drop (length b - 3) (b @ x)" by simp
  show ?thesis
  proof (cases "find_sub auth_magic (b @ x)")
    case None
    then have f: "find_sub auth_magic (drop (length b - 3) (b @ x)) = None"
      by (intro find_sub_drop_None) simp_all
    show ?thesis
    proof (cases "x = []")
      case False
      then have "auth_turn m (drop (length b - 3) (b @ x)) = Take (length x) []"
        using assms(2) f unfolding auth_turn_def by simp
      moreover have "auth_turn m (b @ x) = Take (length b + length x - 3) []"
        using assms(2) None unfolding auth_turn_def by simp
      moreover have "length b - 3 < length b + length x - 3"
        "length b + length x - 3 - (length b - 3) = length x"
        using length_greater_0_conv [of x] False assms(2) by linarith+
      ultimately show ?thesis unfolding dr by metis
    qed (use assms in \<open>simp add: auth_turn_def\<close>)
  next
    case (Some i)
    have "length b < i + 4" using find_sub_late [OF _ assms(1) Some] by simp
    then have i: "length b - 3 \<le> i" "0 < i" using assms(2) by linarith+
    then have t: "auth_turn m (b @ x) = Take i []"
      using Some by (cases i) (simp_all add: auth_turn_def)
    show ?thesis
    proof (cases "i = length b - 3")
      case False
      then obtain j where j: "i - (length b - 3) = Suc j" using i by (cases "i - (length b - 3)") auto
      have "find_sub auth_magic (drop (length b - 3) (b @ x)) = Some (Suc j)"
        using find_sub_drop [OF _ Some i(1)] j by simp
      then have "auth_turn m (drop (length b - 3) (b @ x)) = Take (i - (length b - 3)) []"
        unfolding auth_turn_def j by simp
      with t False i(1) show ?thesis unfolding dr by (intro disjI2 exI [of _ i]) simp
    qed (simp add: t)
  qed
qed

interpretation auth_stream: stream_machine "auth_turn m" for m
proof
  fix b n x and es :: "auth_event list"
  assume t: "auth_turn m b = Take n es"
  consider "find_sub auth_magic b = None" | "find_sub auth_magic b = Some 0"
    | k where "find_sub auth_magic b = Some (Suc k)"
    by (metis not0_implies_Suc option.exhaust)
  then have "0 < n \<and> n \<le> length b \<and> (auth_turn m (b @ x) = Take n es
      \<or> es = [] \<and> (\<exists>k > n. auth_turn m (b @ x) = Take k [] \<and> auth_turn m (drop n b @ x) = Take (k - n) []))"
  proof cases
    case 1
    then have "n = length b - 3" "es = []" "3 < length b"
      using t by (auto simp: auth_turn_def split: if_splits)
    with auth_turn_noise [OF 1, of m x] show ?thesis by auto
  next
    case 2
    with auth_turn_front [OF 2 t] show ?thesis by blast
  next
    case 3
    then have "n = Suc k" "es = []" using t by (auto simp: auth_turn_def)
    moreover have "find_sub auth_magic (b @ x) = Some (Suc k)"
      using 3 by (intro find_sub_append) simp_all
    ultimately show ?thesis
      using find_sub_Some_length [OF 3] by (simp add: auth_turn_def)
  qed
  then show "0 < n \<and> n \<le> length b"
    and "auth_turn m (b @ x) = Take n es
      \<or> es = [] \<and> (\<exists>k > n. auth_turn m (b @ x) = Take k [] \<and> auth_turn m (drop n b @ x) = Take (k - n) [])"
    by blast+
qed

subsection \<open>A stream of sealed envelopes\<close>

lemma auth_turn_envelope:
  assumes "auth_seal a p = (Inr d, a')" "length (a_nonce a) = 16" "length d \<le> m"
  shows "auth_turn m (d @ rest) = Take (length d) [Envelope d]"
proof -
  have d: "d = auth_header (a_nonce a) (a_counter a) (length p) @ p
      @ hmac_sha256 (a_psk a) (auth_header (a_nonce a) (a_counter a) (length p) @ p)"
    and p: "length p \<le> max_auth_payload" using auth_seal_wire [OF assms(1)] by blast+
  have len: "length d = 64 + length p" using assms(2) by (simp add: d auth_header_def)
  have n: "length p < 256 ^ 4" using p by (simp add: max_auth_payload_def)
  have "take 4 (d @ rest) = auth_magic" unfolding d by (simp add: auth_header_def)
  then have f: "find_sub auth_magic (d @ rest) = Some 0" by (intro find_sub_front) simp
  have "take 4 (drop 28 (d @ rest)) = be_bytes 4 (length p)"
    unfolding d using assms(2) by (simp add: auth_header_def)
  then have b: "be_nat (take 4 (drop 28 (d @ rest))) = length p"
    by (simp add: be_nat_be_bytes [OF n])
  show ?thesis
    unfolding auth_turn_def f b using assms(3) len by (simp add: auth_header_size_def mac_size_def)
qed

text \<open>A list of datagrams sealed by codecs with a proper nonce\<close>

definition sealed_by_codec :: "nat \<Rightarrow> bytes \<Rightarrow> bool" where
  "sealed_by_codec m d \<longleftrightarrow> length d \<le> m \<and>
     (\<exists>(a :: auth_codec) p a'. length (a_nonce a) = 16 \<and> auth_seal a p = (Inr d, a'))"

lemma auth_loop_envelopes:
  "\<forall>d \<in> set ds. sealed_by_codec m d \<Longrightarrow>
    stream_loop (auth_turn m) (concat ds) = ([], map Envelope ds)"
proof (induction ds)
  case Nil
  have "auth_turn m [] = Stop" by (simp add: auth_turn_def)
  then show ?case by (simp add: auth_stream.loop_unfold)
next
  case (Cons d ds)
  then obtain a p a' where "length (a_nonce a) = 16" "auth_seal (a :: auth_codec) p = (Inr d, a')" "length d \<le> m"
    by (auto simp: sealed_by_codec_def)
  then have "auth_turn m (d @ concat ds) = Take (length d) [Envelope d]"
    by (intro auth_turn_envelope)
  with Cons show ?case by (subst auth_stream.loop_unfold) simp
qed

lemma sealed_starts_with_magic:
  assumes "sealed_by_codec m d"
  shows "take 4 (d @ r) = auth_magic"
proof -
  obtain a p a' where "length (a_nonce a) = 16" "auth_seal (a :: auth_codec) p = (Inr d, a')"
    using assms by (auto simp: sealed_by_codec_def)
  then show ?thesis using auth_seal_wire [of a p d a'] by (simp add: auth_header_def)
qed

lemma auth_loop_noise:
  assumes "0x4C \<notin> set xs" "take 4 ys = auth_magic"
  shows "stream_loop (auth_turn m) (xs @ ys) = stream_loop (auth_turn m) ys"
proof (cases xs)
  case (Cons x xs')
  have "find_sub auth_magic (xs @ ys) = Some (length xs)"
    by (rule find_sub_skip) (simp_all add: assms(2), simp add: auth_magic_def assms(1))
  then have "auth_turn m (xs @ ys) = Take (length xs) []"
    using Cons by (simp add: auth_turn_def)
  then show ?thesis by (subst auth_stream.loop_unfold) (simp split: prod.split)
qed simp

text \<open>Successive calls of \<open>feed\<close>\<close>

fun auth_feeds :: "nat \<Rightarrow> bytes \<Rightarrow> bytes list \<Rightarrow> bytes \<times> bytes list" where
  "auth_feeds m buf [] = (buf, [])"
| "auth_feeds m buf (c # cs) =
     (case auth_feed m buf c of (b, ds, _) \<Rightarrow>
        (case auth_feeds m b cs of (b', ds') \<Rightarrow> (b', ds @ ds')))"

definition envelopes :: "auth_event list \<Rightarrow> bytes list" where
  "envelopes es = concat (map (\<lambda>e. case e of Envelope d \<Rightarrow> [d] | RejectedSize \<Rightarrow> []) es)"

lemma auth_feeds_chunks:
  "auth_feeds m buf cs = (case feed_chunks (auth_turn m) buf cs of (b, es) \<Rightarrow> (b, envelopes es))"
  by (induction cs arbitrary: buf) (auto simp: auth_feed_def envelopes_def split: prod.splits)

lemma envelopes_map [simp]: "envelopes (map Envelope ds) = ds"
  by (induction ds) (auto simp: envelopes_def)

subsection \<open>Properties\<close>

text \<open>What a codec seals, a codec with the same pre-shared key opens to the same payload,
  nonce and counter, unless its replay window rejects the counter; only the window changes.\<close>

theorem auth_roundtrip:
  assumes "auth_seal a p = (Inr d, a')" and "length (a_nonce a) = 16" and "a_psk r = a_psk a"
  shows "auth_open r d =
    (case accept_counter (a_window r) (a_max_sessions r) (a_sessions r) (a_nonce a) (a_counter a) of
       Inl e \<Rightarrow> (Inl e, r)
     | Inr ss \<Rightarrow> (Inr (p, \<lparr>m_nonce = a_nonce a, m_counter = a_counter a\<rparr>), r\<lparr>a_sessions := ss\<rparr>))"
  using auth_seal_wire [OF assms(1)] assms(2,3) auth_open_wire [of "a_nonce a" "a_counter a" p r] by simp

definition sample_codec :: auth_codec where
  "sample_codec = \<lparr>a_psk = replicate 16 7, a_nonce = replicate 16 1, a_counter = 5, a_window = 64,
     a_max_sessions = 8, a_sessions = []\<rparr>"

lemma sample_codec_seal:
  obtains d where "auth_seal sample_codec [1, 2] = (Inr d, sample_codec\<lparr>a_counter := 6\<rparr>)" "length d = 66"
  by (simp add: auth_seal_def sample_codec_def max_auth_payload_def Let_def auth_header_def)

theorem auth_roundtrip_witness:
  "\<exists>d. fst (auth_seal sample_codec [1, 2]) = Inr d \<and>
     fst (auth_open sample_codec d) = Inr ([1, 2], \<lparr>m_nonce = replicate 16 1, m_counter = 5\<rparr>)"
proof -
  obtain d where d: "auth_seal sample_codec [1, 2] = (Inr d, sample_codec\<lparr>a_counter := 6\<rparr>)"
    by (rule sample_codec_seal)
  have "length (a_nonce sample_codec) = 16" by (simp add: sample_codec_def)
  from auth_roundtrip [OF d this refl] d show ?thesis
    by (simp add: accept_counter_def sample_codec_def)
qed

text \<open>C3: a datagram is opened only when it is, byte for byte, what a codec with the same
  pre-shared key, the reported nonce and the reported counter seals for the reported payload.\<close>

theorem auth_open_authentic:
  assumes "auth_open a d = (Inr (p, m), a')"
  shows "fst (auth_seal (a\<lparr>a_nonce := m_nonce m, a_counter := m_counter m\<rparr>) p) = Inr d"
  using auth_open_shape [OF assms] by (auto simp: auth_seal_def Let_def not_le)

theorem auth_open_authentic_witness:
  "\<exists>d (m :: auth_meta). fst (auth_seal (sample_codec\<lparr>a_nonce := m_nonce m, a_counter := m_counter m\<rparr>) [1, 2]) = Inr d"
proof -
  obtain d where d: "auth_seal sample_codec [1, 2] = (Inr d, sample_codec\<lparr>a_counter := 6\<rparr>)"
    by (rule sample_codec_seal)
  have "length (a_nonce sample_codec) = 16" by (simp add: sample_codec_def)
  with d have "\<exists>m a'. auth_open sample_codec d = (Inr ([1, 2], m), a')"
    using auth_seal_wire [OF d] auth_open_wire [of "a_nonce sample_codec" "a_counter sample_codec" "[1, 2]" sample_codec]
    by (simp add: accept_counter_def sample_codec_def)
  then obtain m a' where o: "auth_open sample_codec d = (Inr ([1, 2], m), a')" by blast
  show ?thesis by (intro exI) (rule auth_open_authentic [OF o])
qed

text \<open>C2: on every sequence of authenticated (nonce, counter) pairs the bitmap window decides
  as a set of received counters does: a counter is refused when it was received in the same live
  session or is at least \<open>window\<close> behind the highest one, and accepted otherwise.\<close>

theorem replay_window_refines:
  assumes "0 < w"
  shows "accept_run w k [] es = spec_run w k [] es"
  using accept_run_refines [of w "[]" "[]" k es] assms by (simp add: sessions_rel_def)

theorem replay_window_refines_witness:
  "accept_run 4 2 [] [([1], 5), ([1], 7), ([1], 5), ([1], 3), ([2], 5), ([1], 6)]
     = spec_run 4 2 [] [([1], 5), ([1], 7), ([1], 5), ([1], 3), ([2], 5), ([1], 6)]"
  by (rule replay_window_refines) simp

text \<open>As long as no more than \<open>max_sessions\<close> peers are seen, no (nonce, counter) pair is
  accepted twice, in whatever order datagrams arrive or are repeated.\<close>

theorem no_replay_accepted:
  assumes "card (fst ` set es) \<le> k" and "0 < w"
  shows "distinct (accepted w k [] es)"
  using spec_run_distinct [of "[]" es "fst ` set es" k w] assms
    accept_run_refines [of w "[]" "[]" k es]
  by (simp add: accepted_def sessions_rel_def)

theorem no_replay_accepted_witness:
  "distinct (accepted 64 8 [] [([1], 5), ([1], 5), ([2], 5), ([1], 4), ([1], 5)])"
  by (rule no_replay_accepted) (simp_all add: card_insert_if)

text \<open>C1: from an empty store, through any sequence of seals, opens, failed saves and restarts,
  the datagrams the session releases carry strictly increasing counters under one nonce: no
  (nonce, counter) pair is ever sent twice.\<close>

theorem session_never_reuses_counter:
  assumes "session_load psk None cfg w k fresh = Inr s"
    and "session_run psk cfg w k s ops = (s', sent)"
  shows "sorted_wrt (<) (map (snd \<circ> stamp) sent) \<and> (\<forall>d \<in> set sent. \<forall>e \<in> set sent. fst (stamp d) = fst (stamp e))"
proof -
  have inv: "session_inv psk w k (s', sent)"
    using session_run_inv [OF session_load_inv [OF assms(1)], of cfg ops] assms(2)
    by (simp add: session_run_def)
  then have "\<forall>d \<in> set sent. fst (stamp d) = a_nonce (s_codec s')"
    by (auto simp: session_inv_def Let_def dest: disk_covers_below)
  then show ?thesis using inv by (simp add: session_inv_def Let_def)
qed

theorem session_never_reuses_counter_witness:
  "\<exists>s s' sent. session_load (replicate 16 7) None None 64 8 (replicate 16 1) = Inr s
     \<and> session_run (replicate 16 7) None 64 8 s [Seal [1] True, Seal [2] False, Restart (replicate 16 9), Seal [3] True] = (s', sent)
     \<and> sorted_wrt (<) (map (snd \<circ> stamp) sent)"
proof -
  have "\<exists>s. session_load (replicate 16 7) None None 64 8 (replicate 16 1) = Inr s"
    by (simp add: session_load_def auth_init_def Let_def)
  then obtain s where s: "session_load (replicate 16 7) None None 64 8 (replicate 16 1) = Inr s" by blast
  obtain s' sent where r: "session_run (replicate 16 7) None 64 8 s
      [Seal [1] True, Seal [2] False, Restart (replicate 16 9), Seal [3] True] = (s', sent)"
    by (metis surj_pair)
  from session_never_reuses_counter [OF s r] s r show ?thesis by blast
qed

text \<open>C6: a serial stream of sealed envelopes behind noise without the byte \<open>L\<close> is split into
  exactly those envelopes, however the line cuts it into chunks, and nothing stays buffered.\<close>

theorem stream_splits_envelopes:
  assumes "concat cs = noise @ concat ds" and "0x4C \<notin> set noise" and "ds \<noteq> []"
    and "\<forall>d \<in> set ds. sealed_by_codec m d"
  shows "auth_feeds m [] cs = ([], ds)"
proof -
  obtain d ds' where d: "ds = d # ds'" using assms(3) by (cases ds) auto
  have "take 4 (concat ds) = auth_magic"
    using sealed_starts_with_magic [of m d "concat ds'"] assms(4) by (simp add: d)
  then have "stream_loop (auth_turn m) (noise @ concat ds) = ([], map Envelope ds)"
    using auth_loop_noise [OF assms(2)] auth_loop_envelopes [OF assms(4)] by simp
  moreover have "auth_turn m [] = Stop" by (simp add: auth_turn_def)
  ultimately have "feed_chunks (auth_turn m) [] cs = ([], map Envelope ds)"
    using auth_stream.feed_chunks_concat [of m "[]" cs] assms(1) by simp
  then show ?thesis by (simp add: auth_feeds_chunks)
qed

theorem stream_splits_envelopes_witness:
  "\<exists>d. auth_feeds 1000 [] [[9, 9] @ take 40 d, drop 40 d @ take 3 d, drop 3 d] = ([], [d, d])"
proof -
  obtain d where d: "auth_seal sample_codec [1, 2] = (Inr d, sample_codec\<lparr>a_counter := 6\<rparr>)" "length d = 66"
    by (rule sample_codec_seal)
  have "length (a_nonce sample_codec) = 16" by (simp add: sample_codec_def)
  then have "sealed_by_codec 1000 d" unfolding sealed_by_codec_def using d by auto
  moreover have "concat [[9, 9] @ take 40 d, drop 40 d @ take 3 d, drop 3 d] = [9, 9] @ concat [d, d]"
  proof -
    have "take 40 d @ drop 40 d @ take 3 d @ drop 3 d = d @ d"
      by (metis append_assoc append_take_drop_id)
    then show ?thesis by simp
  qed
  ultimately show ?thesis
    by (intro exI [of _ d] stream_splits_envelopes [of _ "[9, 9]"]) simp_all
qed

end
