(* ===== verification/Transport.thy ===== *)
theory Transport
  imports Frame
begin

text \<open>
  \<open>shared_protocol/transport.py\<close>: the retransmission queue of a sender and the receive-side
  state of reliable delivery. Times are real numbers; the reading of the clock is an argument.
  A pending table or mission table is a dictionary in insertion order.
\<close>

subsection \<open>\<open>RetrySender\<close>\<close>

type_synonym delivery_id = "uuid \<times> nat"

record pending =
  p_frame :: frame
  p_attempts :: nat
  p_next_due :: real

record retry_sender =
  rs_max_attempts :: nat
  rs_interval :: real
  rs_max_pending :: nat
  rs_pending :: "(delivery_id \<times> pending) list"
  rs_exhausted :: "delivery_id list"

definition retry_sender_init :: "int \<Rightarrow> real \<Rightarrow> int \<Rightarrow> pyexc + retry_sender" where
  "retry_sender_init max_attempts interval max_pending =
     (if max_attempts < 1 then Inl (ValueError ''max_attempts must be positive'')
      else if interval \<le> 0 then Inl (ValueError ''retry_interval must be positive'')
      else if max_pending < 1 then Inl (ValueError ''max_pending must be positive'')
      else Inr \<lparr>rs_max_attempts = nat max_attempts, rs_interval = interval,
        rs_max_pending = nat max_pending, rs_pending = [], rs_exhausted = []\<rparr>)"

definition frame_id :: "frame \<Rightarrow> delivery_id" where
  "frame_id f = (f_command_id f, f_sequence f)"

definition retry_queue :: "retry_sender \<Rightarrow> frame \<Rightarrow> real \<Rightarrow> pyexc + retry_sender" where
  "retry_queue s f now =
     (if map_of (rs_pending s) (frame_id f) \<noteq> None
        then Inl (ValueError ''command and sequence are already pending'')
      else if rs_max_pending s \<le> length (rs_pending s)
        then Inl (ValueError ''pending retry limit reached'')
      else Inr (s\<lparr>rs_pending := AList.update (frame_id f)
        \<lparr>p_frame = f, p_attempts = 0, p_next_due = now\<rparr> (rs_pending s)\<rparr>))"

definition retry_acknowledge :: "retry_sender \<Rightarrow> uuid \<Rightarrow> nat \<Rightarrow> bool \<times> retry_sender" where
  "retry_acknowledge s cid sq =
     (map_of (rs_pending s) (cid, sq) \<noteq> None, s\<lparr>rs_pending := AList.delete (cid, sq) (rs_pending s)\<rparr>)"

definition retry_cancel :: "retry_sender \<Rightarrow> uuid \<Rightarrow> delivery_id list \<times> retry_sender" where
  "retry_cancel s cid =
     (let cancelled = filter (\<lambda>i. fst i = cid) (map fst (rs_pending s)) in
      (cancelled, s\<lparr>rs_pending := fold AList.delete cancelled (rs_pending s)\<rparr>))"

definition retry_pop_exhausted :: "retry_sender \<Rightarrow> delivery_id list \<times> retry_sender" where
  "retry_pop_exhausted s = (rs_exhausted s, s\<lparr>rs_exhausted := []\<rparr>)"

text \<open>
  The loop of \<open>due\<close> over a snapshot of the items: the table, the deque of exhausted
  identities (at most \<open>max_pending\<close> of them) and the frames to send.
\<close>

fun due_scan :: "nat \<Rightarrow> real \<Rightarrow> nat \<Rightarrow> real \<Rightarrow> (delivery_id \<times> pending) list \<Rightarrow>
    (delivery_id \<times> pending) list \<times> delivery_id list \<Rightarrow>
    ((delivery_id \<times> pending) list \<times> delivery_id list) \<times> frame list" where
  "due_scan max_attempts interval cap now [] (tab, ex) = ((tab, ex), [])"
| "due_scan max_attempts interval cap now ((i, p) # items) (tab, ex) =
     (if now < p_next_due p then due_scan max_attempts interval cap now items (tab, ex)
      else if max_attempts \<le> p_attempts p then
        due_scan max_attempts interval cap now items (AList.delete i tab, last_n cap (ex @ [i]))
      else
        apsnd (Cons (p_frame p)) (due_scan max_attempts interval cap now items
          (AList.update i (p\<lparr>p_attempts := p_attempts p + 1, p_next_due := now + interval\<rparr>) tab, ex)))"

definition retry_due :: "retry_sender \<Rightarrow> real \<Rightarrow> frame list \<times> retry_sender" where
  "retry_due s now =
     (case due_scan (rs_max_attempts s) (rs_interval s) (rs_max_pending s) now (rs_pending s)
         (rs_pending s, rs_exhausted s) of
        ((tab, ex), fs) \<Rightarrow> (fs, s\<lparr>rs_pending := tab, rs_exhausted := ex\<rparr>))"

subsection \<open>\<open>ReceiverState\<close>\<close>

type_synonym mission_key = "uuid \<times> string"

record mission_rx =
  mr_command_id :: uuid
  mr_mission_id :: string
  mr_item_count :: int
  mr_vehicle :: json
  mr_updated_at :: real
  mr_items :: "(int \<times> pydict) list"
  mr_committed :: bool

record receiver =
  rx_history_limit :: nat
  rx_max_missions :: nat
  rx_mission_ttl :: real
  rx_max_page :: nat
  rx_clock_offset :: "real option"
  rx_seen :: "(delivery_id \<times> mission_key option) list"
  rx_missions :: "(mission_key \<times> mission_rx) list"
  rx_last_now :: "real option"

definition receiver_init :: "int \<Rightarrow> int \<Rightarrow> real \<Rightarrow> int \<Rightarrow> pyexc + receiver" where
  "receiver_init history max_missions ttl page =
     (if history < 1 then Inl (ValueError ''history_limit must be positive'')
      else if max_missions < 1 then Inl (ValueError ''max_missions must be positive'')
      else if ttl \<le> 0 then Inl (ValueError ''mission_ttl must be positive'')
      else if page < 1 then Inl (ValueError ''max_missing_page must be positive'')
      else Inr \<lparr>rx_history_limit = nat history, rx_max_missions = nat max_missions,
        rx_mission_ttl = ttl, rx_max_page = nat page, rx_clock_offset = None, rx_seen = [],
        rx_missions = [], rx_last_now = None\<rparr>)"

definition missing_indices :: "mission_rx \<Rightarrow> int list" where
  "missing_indices m = filter (\<lambda>i. map_of (mr_items m) i = None) [0..mr_item_count m - 1]"

definition received_indices :: "mission_rx \<Rightarrow> int list" where
  "received_indices m = sort (map fst (mr_items m))"

text \<open>\<open>_prepare_now\<close>: \<open>clock\<close> is the reading of the receiver's own clock\<close>

definition prepare_now :: "receiver \<Rightarrow> real \<Rightarrow> real option \<Rightarrow> (pyexc + real) \<times> receiver" where
  "prepare_now r clock now =
     (let (resolved, offset) = (case now of
          None \<Rightarrow> (case rx_clock_offset r of
              None \<Rightarrow> (clock, None) | Some off \<Rightarrow> (clock + off, Some off))
        | Some t \<Rightarrow> (t, Some (t - clock)))
      in case rx_last_now r of
           Some l \<Rightarrow> if resolved < l then (Inl (ValueError ''now must be monotonic''), r)
             else (Inr resolved, r\<lparr>rx_clock_offset := offset, rx_last_now := Some resolved\<rparr>)
         | None \<Rightarrow> (Inr resolved, r\<lparr>rx_clock_offset := offset, rx_last_now := Some resolved\<rparr>))"

definition rx_expire :: "receiver \<Rightarrow> real \<Rightarrow> receiver" where
  "rx_expire r now =
     (let expired = map fst (filter (\<lambda>(i, m). rx_mission_ttl r \<le> now - mr_updated_at m) (rx_missions r))
      in r\<lparr>rx_missions := fold AList.delete expired (rx_missions r),
          rx_seen := filter (\<lambda>(k, t). \<not> (\<exists>i \<in> set expired. t = Some i)) (rx_seen r)\<rparr>)"

definition require_mission :: "receiver \<Rightarrow> mission_key \<Rightarrow> pyexc + mission_rx" where
  "require_mission r i = (case map_of (rx_missions r) i of
     None \<Rightarrow> Inl (ValueError ''mission transaction has not begun'') | Some m \<Rightarrow> Inr m)"

definition put_mission :: "receiver \<Rightarrow> mission_key \<Rightarrow> mission_rx \<Rightarrow> receiver" where
  "put_mission r i m = r\<lparr>rx_missions := AList.update i m (rx_missions r)\<rparr>"

definition rx_begin :: "receiver \<Rightarrow> uuid \<Rightarrow> pydict \<Rightarrow> real \<Rightarrow> pyexc + receiver" where
  "rx_begin r cid p now =
     (let i = (cid, str_of (fld p ''mission_id'')) in
      case map_of (rx_missions r) i of
        Some m \<Rightarrow>
          if mr_item_count m \<noteq> int_of (fld p ''item_count'') \<or> mr_vehicle m \<noteq> fld p ''vehicle''
            then Inl (ValueError ''mission begin conflicts with existing mission'')
          else Inr (put_mission r i (m\<lparr>mr_updated_at := now\<rparr>))
      | None \<Rightarrow>
          if rx_max_missions r \<le> length (rx_missions r)
            then Inl (ValueError ''concurrent mission limit reached'')
          else Inr (put_mission r i \<lparr>mr_command_id = cid, mr_mission_id = snd i,
            mr_item_count = int_of (fld p ''item_count''), mr_vehicle = fld p ''vehicle'',
            mr_updated_at = now, mr_items = [], mr_committed = False\<rparr>))"

definition rx_item :: "receiver \<Rightarrow> uuid \<Rightarrow> pydict \<Rightarrow> real \<Rightarrow> pyexc + receiver" where
  "rx_item r cid p now =
     (let i = (cid, str_of (fld p ''mission_id'')); index = int_of (fld p ''index'') in
      case require_mission r i of
        Inl e \<Rightarrow> Inl e
      | Inr m \<Rightarrow>
          if mr_item_count m \<le> index then Inl (ValueError ''mission item index is outside declared range'')
          else if (case map_of (mr_items m) index of None \<Rightarrow> False | Some q \<Rightarrow> \<not> dict_eq q p)
            then Inl (ValueError ''mission item conflicts with received item'')
          else Inr (put_mission r i (m\<lparr>mr_items := AList.update index p (mr_items m), mr_updated_at := now\<rparr>)))"

definition rx_commit :: "receiver \<Rightarrow> uuid \<Rightarrow> pydict \<Rightarrow> real \<Rightarrow> pyexc + receiver" where
  "rx_commit r cid p now =
     (let i = (cid, str_of (fld p ''mission_id'')) in
      case require_mission r i of
        Inl e \<Rightarrow> Inl e
      | Inr m \<Rightarrow>
          if int_of (fld p ''item_count'') \<noteq> mr_item_count m
            then Inl (ValueError ''mission commit count does not match begin'')
          else if missing_indices m \<noteq> [] then Inl (ValueError ''mission is incomplete'')
          else Inr (put_mission r i (m\<lparr>mr_committed := True, mr_updated_at := now\<rparr>)))"

definition transaction_identity :: "frame \<Rightarrow> mission_key option" where
  "transaction_identity f =
     (if f_type f \<in> {MISSION_BEGIN, MISSION_ITEM, MISSION_COMMIT}
      then Some (f_command_id f, str_of (fld (f_payload f) ''mission_id'')) else None)"

text \<open>
  \<open>accept\<close>: True for a new frame, False for one seen before, or the exception; the clock and
  the expiry of missions have taken effect by then.
\<close>

definition rx_accept :: "receiver \<Rightarrow> frame \<Rightarrow> real \<Rightarrow> real option \<Rightarrow> (pyexc + bool) \<times> receiver" where
  "rx_accept r f clock now_arg =
     (case prepare_now r clock now_arg of
        (Inl e, r1) \<Rightarrow> (Inl e, r1)
      | (Inr now, r1) \<Rightarrow>
          let r2 = rx_expire r1 now in
          (case validate_payload (f_type f) (JObj (f_payload f)) of
             Some e \<Rightarrow> (Inl e, r2)
           | None \<Rightarrow>
               if map_of (rx_seen r2) (frame_id f) \<noteq> None then (Inr False, r2)
               else
                 (case (case f_type f of
                      MISSION_BEGIN \<Rightarrow> rx_begin r2 (f_command_id f) (f_payload f) now
                    | MISSION_ITEM \<Rightarrow> rx_item r2 (f_command_id f) (f_payload f) now
                    | MISSION_COMMIT \<Rightarrow> rx_commit r2 (f_command_id f) (f_payload f) now
                    | _ \<Rightarrow> Inr r2) of
                    Inl e \<Rightarrow> (Inl e, r2)
                  | Inr r3 \<Rightarrow> (Inr True, r3\<lparr>rx_seen := last_n (rx_history_limit r3)
                      (od_touch (frame_id f) (transaction_identity f) (rx_seen r3))\<rparr>))))"

definition rx_mission :: "receiver \<Rightarrow> mission_key \<Rightarrow> real \<Rightarrow> real option \<Rightarrow> (pyexc + mission_rx option) \<times> receiver" where
  "rx_mission r i clock now_arg =
     (case prepare_now r clock now_arg of
        (Inl e, r1) \<Rightarrow> (Inl e, r1)
      | (Inr now, r1) \<Rightarrow> (let r2 = rx_expire r1 now in (Inr (map_of (rx_missions r2) i), r2)))"

text \<open>The page of missing indices from \<open>offset\<close> and the offset of the next page\<close>

definition resume_page :: "nat \<Rightarrow> mission_rx \<Rightarrow> int \<Rightarrow> int option \<Rightarrow> pyexc + int list \<times> int option" where
  "resume_page max_page m offset limit =
     (if offset < 0 then Inl (ValueError ''offset must be a non-negative integer'')
      else
        let lmt = (case limit of None \<Rightarrow> int max_page | Some l \<Rightarrow> l) in
        if lmt < 1 then Inl (ValueError ''limit must be a positive integer'')
        else
          let remaining = filter (\<lambda>i. offset \<le> i) (missing_indices m);
              page = take (min (nat lmt) max_page) remaining
          in Inr (page, if length page < length remaining then Some (last page + 1) else None))"

definition rx_resume ::
  "receiver \<Rightarrow> mission_key \<Rightarrow> int \<Rightarrow> int option \<Rightarrow> real \<Rightarrow> real option \<Rightarrow> (pyexc + int list \<times> int option) \<times> receiver" where
  "rx_resume r i offset limit clock now_arg =
     (case prepare_now r clock now_arg of
        (Inl e, r1) \<Rightarrow> (Inl e, r1)
      | (Inr now, r1) \<Rightarrow>
          let r2 = rx_expire r1 now in
          (case require_mission r2 i of
             Inl e \<Rightarrow> (Inl e, r2)
           | Inr m \<Rightarrow> (resume_page (rx_max_page r2) m offset limit, r2)))"

end
