(* ===== verification/TransportProps.thy ===== *)
theory TransportProps
  imports Transport FrameRoundtrip
begin

text \<open>
  Reliable delivery: how often a frame is sent, what a committed mission holds, that a repeated
  frame changes nothing, and that the pages of missing indices add up.
\<close>

declare split_paired_All [simp del] split_paired_Ex [simp del]

subsection \<open>One identity through a scan\<close>

definition due_now :: "nat \<Rightarrow> real \<Rightarrow> pending \<Rightarrow> bool" where
  "due_now n now p \<longleftrightarrow> p_next_due p \<le> now \<and> p_attempts p < n"

definition after_due :: "nat \<Rightarrow> real \<Rightarrow> real \<Rightarrow> pending \<Rightarrow> pending option" where
  "after_due n d now p =
     (if now < p_next_due p then Some p
      else if n \<le> p_attempts p then None
      else Some (p\<lparr>p_attempts := p_attempts p + 1, p_next_due := now + d\<rparr>))"

lemma due_scan_tab:
  "distinct (map fst items) \<Longrightarrow>
    map_of (fst (fst (due_scan n d cap now items (tab, ex)))) i =
      (case map_of items i of
         None \<Rightarrow> map_of tab i
       | Some p \<Rightarrow> if now < p_next_due p then map_of tab i else after_due n d now p)"
proof (induction items arbitrary: tab ex)
  case (Cons e items)
  obtain j p where e: "e = (j, p)" by (cases e)
  have no: "map_of items j = None" using Cons.prems by (simp add: e map_of_eq_None_iff)
  show ?case using Cons.IH Cons.prems no
    by (auto simp: e after_due_def split: option.splits)
qed simp

lemma due_scan_frames:
  "snd (due_scan n d cap now items st) = map (p_frame \<circ> snd) (filter (due_now n now \<circ> snd) items)"
proof (induction items arbitrary: st)
  case (Cons e items)
  obtain j p where e: "e = (j, p)" by (cases e)
  obtain tab ex where st: "st = (tab, ex)" by (cases st)
  show ?case using Cons.IH by (auto simp: e st due_now_def)
next
  case Nil
  show ?case by (cases st) simp
qed

lemma due_scan_keys:
  "distinct (map fst tab) \<Longrightarrow> distinct (map fst (fst (fst (due_scan n d cap now items (tab, ex)))))"
  by (induction items arbitrary: tab ex)
    (auto simp: AList.distinct_delete distinct_keys_update)

text \<open>The table is keyed by the identities of its frames.\<close>

definition sender_ok :: "retry_sender \<Rightarrow> bool" where
  "sender_ok s \<longleftrightarrow> distinct (map fst (rs_pending s))
     \<and> (\<forall>i p. map_of (rs_pending s) i = Some p \<longrightarrow> frame_id (p_frame p) = i)"

lemma retry_due_map:
  assumes "sender_ok s" "retry_due s now = (fs, s')"
  shows "map_of (rs_pending s') i =
    Option.bind (map_of (rs_pending s) i) (after_due (rs_max_attempts s) (rs_interval s) now)"
proof -
  have "map_of (rs_pending s') i = map_of (fst (fst (due_scan (rs_max_attempts s) (rs_interval s)
      (rs_max_pending s) now (rs_pending s) (rs_pending s, rs_exhausted s)))) i"
    using assms(2) by (auto simp: retry_due_def split: prod.splits)
  then show ?thesis
    using assms(1) due_scan_tab [of "rs_pending s"]
    by (auto simp: sender_ok_def after_due_def split: option.splits)
qed

lemma filter_one_key:
  "distinct (map fst xs) \<Longrightarrow> filter (\<lambda>e. fst e = i) xs = (case map_of xs i of None \<Rightarrow> [] | Some p \<Rightarrow> [(i, p)])"
proof (induction xs)
  case (Cons e xs)
  have "filter (\<lambda>e. fst e = i) xs = []" if "fst e = i"
    using that Cons.prems by (auto simp: filter_empty_conv image_iff)
  with Cons show ?case by (cases e) auto
qed simp

lemma retry_due_emits:
  assumes "sender_ok s" "retry_due s now = (fs, s')"
  shows "filter (\<lambda>f. frame_id f = i) fs = (case map_of (rs_pending s) i of
      None \<Rightarrow> [] | Some p \<Rightarrow> if due_now (rs_max_attempts s) now p then [p_frame p] else [])"
proof -
  let ?d = "due_now (rs_max_attempts s) now \<circ> snd"
  have d: "distinct (map fst (rs_pending s))" using assms(1) by (simp add: sender_ok_def)
  have fs: "fs = map (p_frame \<circ> snd) (filter ?d (rs_pending s))"
    using assms(2) due_scan_frames [of "rs_max_attempts s" "rs_interval s" "rs_max_pending s" now "rs_pending s"
      "(rs_pending s, rs_exhausted s)"]
    by (auto simp: retry_due_def split: prod.splits)
  have "\<forall>e \<in> set (rs_pending s). (frame_id (p_frame (snd e)) = i) = (fst e = i)"
    using assms(1) d unfolding sender_ok_def by (metis map_of_is_SomeI prod.collapse)
  then have "filter (\<lambda>f. frame_id f = i) fs
      = map (p_frame \<circ> snd) (filter ?d (filter (\<lambda>e. fst e = i) (rs_pending s)))"
    unfolding fs by (simp add: filter_map comp_def conj_commute cong: filter_cong)
  then show ?thesis by (auto simp: filter_one_key [OF d] split: option.splits)
qed

lemma sender_ok_due: "sender_ok s \<Longrightarrow> retry_due s now = (fs, s') \<Longrightarrow> sender_ok s'"
proof -
  assume ok: "sender_ok s" and due: "retry_due s now = (fs, s')"
  have "distinct (map fst (rs_pending s'))"
    using ok due due_scan_keys [of "rs_pending s"]
    by (auto simp: sender_ok_def retry_due_def split: prod.splits) (metis fst_conv)
  moreover have "frame_id (p_frame p) = i" if "map_of (rs_pending s') i = Some p" for i p
  proof -
    have "Option.bind (map_of (rs_pending s) i) (after_due (rs_max_attempts s) (rs_interval s) now) = Some p"
      using that retry_due_map [OF ok due, of i] by simp
    then obtain q where "map_of (rs_pending s) i = Some q"
      "after_due (rs_max_attempts s) (rs_interval s) now q = Some p"
      by (auto simp: bind_eq_Some_conv)
    then show ?thesis using ok unfolding sender_ok_def after_due_def by (auto split: if_splits)
  qed
  ultimately show "sender_ok s'" by (simp add: sender_ok_def)
qed

subsection \<open>Runs of the sender\<close>

datatype sender_op = Queue frame real | Acknowledge uuid nat | Cancel uuid | Due real | PopExhausted

text \<open>A run: the sender, the frames it has sent and the identities it has queued\<close>

fun sender_step :: "retry_sender \<times> frame list \<times> delivery_id list \<Rightarrow> sender_op \<Rightarrow>
    retry_sender \<times> frame list \<times> delivery_id list" where
  "sender_step (s, out, qs) (Queue f now) =
     (case retry_queue s f now of Inl e \<Rightarrow> (s, out, qs) | Inr s' \<Rightarrow> (s', out, qs @ [frame_id f]))"
| "sender_step (s, out, qs) (Acknowledge c q) = (snd (retry_acknowledge s c q), out, qs)"
| "sender_step (s, out, qs) (Cancel c) = (snd (retry_cancel s c), out, qs)"
| "sender_step (s, out, qs) (Due now) = (case retry_due s now of (fs, s') \<Rightarrow> (s', out @ fs, qs))"
| "sender_step (s, out, qs) PopExhausted = (snd (retry_pop_exhausted s), out, qs)"

definition sent_of :: "delivery_id \<Rightarrow> frame list \<Rightarrow> nat" where
  "sent_of i fs = length (filter (\<lambda>f. frame_id f = i) fs)"

definition remaining :: "retry_sender \<Rightarrow> delivery_id \<Rightarrow> nat" where
  "remaining s i = (case map_of (rs_pending s) i of None \<Rightarrow> 0 | Some p \<Rightarrow> rs_max_attempts s - p_attempts p)"

definition sender_inv :: "nat \<Rightarrow> retry_sender \<times> frame list \<times> delivery_id list \<Rightarrow> bool" where
  "sender_inv n = (\<lambda>(s, out, qs). sender_ok s \<and> rs_max_attempts s = n
     \<and> (\<forall>i. sent_of i out + remaining s i \<le> n * count_list qs i))"

lemma distinct_fold_delete: "distinct (map fst d) \<Longrightarrow> distinct (map fst (fold AList.delete ks d))"
  by (induction ks arbitrary: d) (auto simp: AList.distinct_delete)

lemma map_of_fold_delete:
  "map_of (fold AList.delete ks d) i = (if i \<in> set ks then None else map_of d i)"
  by (induction ks arbitrary: d) (auto simp: AList.delete_conv)

lemma sender_inv_shrink:
  assumes "sender_inv n (s, out, qs)" "distinct (map fst d)"
    "\<And>i p. map_of d i = Some p \<Longrightarrow> map_of (rs_pending s) i = Some p"
  shows "sender_inv n (s\<lparr>rs_pending := d\<rparr>, out, qs)"
proof -
  have "remaining (s\<lparr>rs_pending := d\<rparr>) i \<le> remaining s i" for i
    using assms(3) [of i] by (auto simp: remaining_def split: option.splits)
  moreover have "sender_ok (s\<lparr>rs_pending := d\<rparr>)"
    using assms unfolding sender_inv_def sender_ok_def by auto
  ultimately show ?thesis using assms(1) unfolding sender_inv_def
    by (simp, meson add_left_mono order.trans)
qed

lemma sender_inv_queue:
  assumes inv: "sender_inv n (s, out, qs)" and q: "retry_queue s f now = Inr s'"
  shows "sender_inv n (s', out, qs @ [frame_id f])"
proof -
  let ?p = "\<lparr>p_frame = f, p_attempts = 0, p_next_due = now\<rparr>"
  have none: "map_of (rs_pending s) (frame_id f) = None"
    and s': "s' = s\<lparr>rs_pending := AList.update (frame_id f) ?p (rs_pending s)\<rparr>"
    using q by (auto simp: retry_queue_def split: if_splits)
  have "sender_ok s'" using inv unfolding s' sender_inv_def sender_ok_def by (auto simp: distinct_keys_update)
  moreover have "sent_of i out + remaining s' i \<le> n * count_list (qs @ [frame_id f]) i" for i
  proof -
    have "sent_of i out + remaining s i \<le> n * count_list qs i" using inv by (simp add: sender_inv_def)
    moreover have "remaining s' i = (if i = frame_id f then n else remaining s i)" "remaining s (frame_id f) = 0"
      using inv none by (simp_all add: s' remaining_def sender_inv_def cong: option.case_cong)
    ultimately show ?thesis by (auto simp: algebra_simps)
  qed
  ultimately show ?thesis using inv by (simp add: sender_inv_def s')
qed

lemma sender_inv_due:
  assumes inv: "sender_inv n (s, out, qs)" and d: "retry_due s now = (fs, s')"
  shows "sender_inv n (s', out @ fs, qs)"
proof -
  have ok: "sender_ok s" and n: "rs_max_attempts s = n" using inv by (simp_all add: sender_inv_def)
  have n': "rs_max_attempts s' = n" using d n by (auto simp: retry_due_def split: prod.splits)
  have "sent_of i fs + remaining s' i \<le> remaining s i" for i
    using retry_due_map [OF ok d, of i] retry_due_emits [OF ok d, of i] n n'
    by (auto simp: sent_of_def remaining_def due_now_def after_due_def split: option.splits)
  moreover have "sent_of i (out @ fs) = sent_of i out + sent_of i fs" for i by (simp add: sent_of_def)
  ultimately have "sent_of i (out @ fs) + remaining s' i \<le> sent_of i out + remaining s i" for i
    by (simp add: add.assoc)
  then show ?thesis using inv sender_ok_due [OF ok d] n' unfolding sender_inv_def
    by (simp, meson order.trans)
qed

lemma sender_inv_step: "sender_inv n st \<Longrightarrow> sender_inv n (sender_step st o')"
proof -
  assume inv: "sender_inv n st"
  obtain s out qs where st: "st = (s, out, qs)" by (cases st) auto
  have dist: "distinct (map fst (rs_pending s))" using inv by (simp add: st sender_inv_def sender_ok_def)
  have shrink: "sender_inv n (s\<lparr>rs_pending := d\<rparr>, out, qs)"
    if "distinct (map fst d)" "\<forall>i. map_of d i = None \<or> map_of d i = map_of (rs_pending s) i" for d
    using that by (intro sender_inv_shrink [OF inv [unfolded st]]) (simp, metis option.distinct(1))
  show ?thesis
  proof (cases o')
    case (Queue f now)
    then show ?thesis using inv sender_inv_queue [of n s out qs f now] by (auto simp: st split: sum.split)
  next
    case (Acknowledge c q)
    then show ?thesis
      using shrink [of "AList.delete (c, q) (rs_pending s)"] dist
      unfolding st by (auto simp: retry_acknowledge_def AList.distinct_delete AList.delete_conv split: if_splits)
  next
    case (Cancel c)
    then show ?thesis
      using shrink [of "rs_pending (snd (retry_cancel s c))"] dist
      unfolding st by (auto simp: retry_cancel_def distinct_fold_delete map_of_fold_delete Let_def split: if_splits)
  next
    case (Due now)
    then show ?thesis using inv sender_inv_due [of n s out qs now] by (auto simp: st split: prod.split)
  next
    case PopExhausted
    then show ?thesis using inv
      by (auto simp add: st retry_pop_exhausted_def sender_inv_def sender_ok_def remaining_def cong: option.case_cong)
  qed
qed

text \<open>Calls of \<open>due\<close> one after the other: the frames of each call\<close>

fun due_runs :: "retry_sender \<Rightarrow> real list \<Rightarrow> frame list list \<times> retry_sender" where
  "due_runs s [] = ([], s)"
| "due_runs s (t # ts) =
     (case retry_due s t of (fs, s') \<Rightarrow> (case due_runs s' ts of (fss, s'') \<Rightarrow> (fs # fss, s'')))"

fun spaced :: "real \<Rightarrow> real \<Rightarrow> real list \<Rightarrow> bool" where
  "spaced d t [] = True"
| "spaced d t (u # us) \<longleftrightarrow> t \<le> u \<and> spaced d (u + d) us"

lemma due_runs_sends:
  assumes "sender_ok s" "map_of (rs_pending s) i = Some p" "spaced (rs_interval s) (p_next_due p) ts"
    "length ts = rs_max_attempts s - p_attempts p + 1"
  shows "map (filter (\<lambda>f. frame_id f = i)) (fst (due_runs s ts))
      = replicate (rs_max_attempts s - p_attempts p) [p_frame p] @ [[]]
    \<and> map_of (rs_pending (snd (due_runs s ts))) i = None"
  using assms
proof (induction "rs_max_attempts s - p_attempts p" arbitrary: s p ts)
  case 0
  then obtain t where ts: "ts = [t]" by (cases ts) auto
  obtain fs s' where d: "retry_due s t = (fs, s')" by (cases "retry_due s t")
  have "p_next_due p \<le> t" "rs_max_attempts s \<le> p_attempts p" using 0 ts by auto
  then have "filter (\<lambda>f. frame_id f = i) fs = []" "map_of (rs_pending s') i = None"
    using retry_due_emits [OF 0(2) d, of i] retry_due_map [OF 0(2) d, of i] 0(3)
    by (simp_all add: due_now_def after_due_def)
  then show ?case using 0(1) by (simp add: ts d)
next
  case (Suc n)
  then obtain t us where ts: "ts = t # us" by (cases ts) auto
  obtain fs s' where d: "retry_due s t = (fs, s')" by (cases "retry_due s t")
  let ?q = "p\<lparr>p_attempts := p_attempts p + 1, p_next_due := t + rs_interval s\<rparr>"
  have t: "p_next_due p \<le> t" "p_attempts p < rs_max_attempts s" "spaced (rs_interval s) (t + rs_interval s) us"
    using Suc ts by auto
  have c: "rs_max_attempts s' = rs_max_attempts s" "rs_interval s' = rs_interval s"
    using d by (auto simp: retry_due_def split: prod.splits)
  have e: "filter (\<lambda>f. frame_id f = i) fs = [p_frame p]" "map_of (rs_pending s') i = Some ?q"
    using retry_due_emits [OF Suc(3) d, of i] retry_due_map [OF Suc(3) d, of i] Suc(4) t
    by (simp_all add: due_now_def after_due_def)
  have "map (filter (\<lambda>f. frame_id f = i)) (fst (due_runs s' us))
      = replicate (rs_max_attempts s' - p_attempts ?q) [p_frame ?q] @ [[]]
    \<and> map_of (rs_pending (snd (due_runs s' us))) i = None"
    using Suc(2) Suc(6) sender_ok_due [OF Suc(3) d] e(2) c t ts by (intro Suc(1)) auto
  moreover have "rs_max_attempts s - p_attempts p = Suc (rs_max_attempts s - (p_attempts p + 1))"
    using t(2) by simp
  ultimately show ?case using e(1) c by (cases "due_runs s' us") (simp add: ts d)
qed

subsection \<open>The invariant of the receiver\<close>

text \<open>
  A mission's stored items lie in the declared range and a committed mission misses none.
\<close>

definition mission_inv :: "mission_rx \<Rightarrow> bool" where
  "mission_inv m \<longleftrightarrow> distinct (map fst (mr_items m))
     \<and> (\<forall>i \<in> fst ` set (mr_items m). i < mr_item_count m)
     \<and> (mr_committed m \<longrightarrow> missing_indices m = [])"

definition receiver_inv :: "receiver \<Rightarrow> bool" where
  "receiver_inv r \<longleftrightarrow> distinct (map fst (rx_missions r)) \<and> distinct (map fst (rx_seen r))
     \<and> length (rx_missions r) \<le> rx_max_missions r \<and> length (rx_seen r) \<le> rx_history_limit r
     \<and> (\<forall>i m. map_of (rx_missions r) i = Some m \<longrightarrow> mission_inv m)"

lemma receiver_inv_init: "receiver_init h k ttl pg = Inr r \<Longrightarrow> receiver_inv r"
  by (auto simp: receiver_init_def receiver_inv_def split: if_splits)

lemma length_fold_delete: "length (fold AList.delete ks d) \<le> length d"
  by (induction ks arbitrary: d) (auto intro: order.trans AList.length_delete_le)

lemma distinct_filter_keys: "distinct (map fst d) \<Longrightarrow> distinct (map fst (filter p d))"
  by (metis distinct_map_filter)

lemma rx_expire_inv: "receiver_inv r \<Longrightarrow> receiver_inv (rx_expire r now)"
proof -
  assume inv: "receiver_inv r"
  let ?e = "map fst (filter (\<lambda>(i, m). rx_mission_ttl r \<le> now - mr_updated_at m) (rx_missions r))"
  have "length (fold AList.delete ?e (rx_missions r)) \<le> rx_max_missions r"
    using inv length_fold_delete [of ?e "rx_missions r"] by (simp add: receiver_inv_def)
  moreover have "length (filter p (rx_seen r)) \<le> rx_history_limit r" for p
    using inv order.trans [OF length_filter_le] unfolding receiver_inv_def by blast
  ultimately show ?thesis using inv
    unfolding receiver_inv_def rx_expire_def Let_def
    by (simp add: distinct_fold_delete distinct_filter_keys map_of_fold_delete)
qed

lemma put_mission_inv:
  assumes "receiver_inv r" "mission_inv m" "map_of (rx_missions r) i = None \<Longrightarrow> length (rx_missions r) < rx_max_missions r"
  shows "receiver_inv (put_mission r i m)"
proof -
  have "length (AList.update i m (rx_missions r)) \<le> rx_max_missions r"
    using assms(1,3) by (cases "map_of (rx_missions r) i")
      (auto simp: receiver_inv_def length_update_present length_update_absent)
  with assms(1,2) show ?thesis
    by (simp add: receiver_inv_def put_mission_def distinct_keys_update)
qed

lemma mission_lookup_inv: "receiver_inv r \<Longrightarrow> map_of (rx_missions r) i = Some m \<Longrightarrow> mission_inv m"
  by (simp add: receiver_inv_def)

lemma missing_update:
  "missing_indices (m\<lparr>mr_items := AList.update j p (mr_items m), mr_updated_at := t\<rparr>)
    = filter (\<lambda>i. i \<noteq> j) (missing_indices m)"
  unfolding missing_indices_def by (simp cong: filter_cong) (rule filter_cong; auto)

lemma mission_inv_touch: "mission_inv m \<Longrightarrow> mission_inv (m\<lparr>mr_updated_at := t\<rparr>)"
  by (simp add: mission_inv_def missing_indices_def)

lemma rx_begin_inv: "receiver_inv r \<Longrightarrow> rx_begin r c p now = Inr r' \<Longrightarrow> receiver_inv r'"
proof -
  assume inv: "receiver_inv r" and b: "rx_begin r c p now = Inr r'"
  let ?i = "(c, str_of (fld p ''mission_id''))"
  show "receiver_inv r'"
  proof (cases "map_of (rx_missions r) ?i")
    case None
    with b inv show ?thesis
      by (auto simp: rx_begin_def Let_def mission_inv_def not_le split: if_splits intro!: put_mission_inv)
  next
    case (Some m)
    with b have "r' = put_mission r ?i (m\<lparr>mr_updated_at := now\<rparr>)"
      by (auto simp: rx_begin_def Let_def split: if_splits)
    with mission_inv_touch [OF mission_lookup_inv [OF inv Some]] Some inv show ?thesis
      by (simp del: split_paired_All) (intro put_mission_inv; simp)
  qed
qed

lemma rx_item_inv: "receiver_inv r \<Longrightarrow> rx_item r c p now = Inr r' \<Longrightarrow> receiver_inv r'"
proof -
  assume inv: "receiver_inv r" and it: "rx_item r c p now = Inr r'"
  let ?i = "(c, str_of (fld p ''mission_id''))" and ?j = "int_of (fld p ''index'')"
  obtain m where m: "map_of (rx_missions r) ?i = Some m" "?j < mr_item_count m"
    and r': "r' = put_mission r ?i (m\<lparr>mr_items := AList.update ?j p (mr_items m), mr_updated_at := now\<rparr>)"
    using it by (auto simp: rx_item_def require_mission_def Let_def split: option.splits if_splits)
  have mi: "mission_inv m" using mission_lookup_inv [OF inv m(1)] .
  have "fst ` set (AList.update ?j p (mr_items m)) = insert ?j (fst ` set (mr_items m))"
    using dom_update [of ?j p "mr_items m"] by (simp add: dom_map_of_conv_image_fst [symmetric])
  then have "mission_inv (m\<lparr>mr_items := AList.update ?j p (mr_items m), mr_updated_at := now\<rparr>)"
    using mi m(2) unfolding mission_inv_def by (simp add: distinct_keys_update missing_update)
  then show ?thesis unfolding r' using inv m(1) by (intro put_mission_inv) simp_all
qed

lemma rx_commit_inv: "receiver_inv r \<Longrightarrow> rx_commit r c p now = Inr r' \<Longrightarrow> receiver_inv r'"
proof -
  assume inv: "receiver_inv r" and co: "rx_commit r c p now = Inr r'"
  let ?i = "(c, str_of (fld p ''mission_id''))"
  obtain m where m: "map_of (rx_missions r) ?i = Some m" "missing_indices m = []"
    and r': "r' = put_mission r ?i (m\<lparr>mr_committed := True, mr_updated_at := now\<rparr>)"
    using co by (auto simp: rx_commit_def require_mission_def Let_def split: option.splits if_splits)
  have "mission_inv (m\<lparr>mr_committed := True, mr_updated_at := now\<rparr>)"
    using mission_lookup_inv [OF inv m(1)] m(2) by (simp add: mission_inv_def missing_indices_def)
  then show ?thesis unfolding r' using inv m(1) by (intro put_mission_inv) simp_all
qed

lemma receiver_step_inv:
  assumes "receiver_inv r"
    "(case t of MISSION_BEGIN \<Rightarrow> rx_begin r c p now | MISSION_ITEM \<Rightarrow> rx_item r c p now
      | MISSION_COMMIT \<Rightarrow> rx_commit r c p now | _ \<Rightarrow> Inr r) = Inr r'"
  shows "receiver_inv r'"
  using assms(2) rx_begin_inv [OF assms(1), of c p now r'] rx_item_inv [OF assms(1), of c p now r']
    rx_commit_inv [OF assms(1), of c p now r'] assms(1)
  by (cases t) simp_all

lemma prepare_now_fields:
  "prepare_now r clock a = (x, r') \<Longrightarrow> rx_missions r' = rx_missions r \<and> rx_seen r' = rx_seen r
    \<and> rx_max_missions r' = rx_max_missions r \<and> rx_history_limit r' = rx_history_limit r
    \<and> rx_mission_ttl r' = rx_mission_ttl r \<and> rx_max_page r' = rx_max_page r"
  by (cases a; cases "rx_clock_offset r"; cases "rx_last_now r")
    (clarsimp simp: prepare_now_def Let_def split: if_splits)+

lemma prepare_now_inv: "receiver_inv r \<Longrightarrow> prepare_now r clock a = (x, r') \<Longrightarrow> receiver_inv r'"
  using prepare_now_fields [of r clock a x r'] by (simp add: receiver_inv_def)

lemma seen_inv:
  "receiver_inv r \<Longrightarrow> receiver_inv (r\<lparr>rx_seen := last_n (rx_history_limit r) (od_touch k v (rx_seen r))\<rparr>)"
  using distinct_map_last_n [OF distinct_od_touch, of "rx_seen r" "rx_history_limit r" k v]
  by (simp add: receiver_inv_def)

lemma rx_accept_inv: "receiver_inv r \<Longrightarrow> receiver_inv (snd (rx_accept r f clock a))"
proof -
  assume inv: "receiver_inv r"
  obtain x r1 where p: "prepare_now r clock a = (x, r1)" by (cases "prepare_now r clock a")
  have r1: "receiver_inv r1" using prepare_now_inv [OF inv p] .
  show ?thesis
  proof (cases x)
    case (Inl e)
    then show ?thesis using r1 by (simp add: rx_accept_def p)
  next
    case (Inr now)
    have r2: "receiver_inv (rx_expire r1 now)" using rx_expire_inv [OF r1] .
    show ?thesis using r2 receiver_step_inv [OF r2] seen_inv
      by (auto simp: rx_accept_def p Inr Let_def split: option.split sum.split)
  qed
qed

subsection \<open>Paging\<close>

fun collect_pages :: "nat \<Rightarrow> nat \<Rightarrow> mission_rx \<Rightarrow> int option \<Rightarrow> int \<Rightarrow> int list" where
  "collect_pages 0 pg m lmt off = []"
| "collect_pages (Suc n) pg m lmt off =
     (case resume_page pg m off lmt of
        Inl e \<Rightarrow> []
      | Inr (page, None) \<Rightarrow> page
      | Inr (page, Some off') \<Rightarrow> page @ collect_pages n pg m lmt off')"

lemma filter_from_last:
  assumes "sorted_wrt (<) (xs :: int list)" "0 < k" "k < length xs"
  shows "filter (\<lambda>i. last (take k xs) + 1 \<le> i) xs = drop k xs"
proof -
  obtain j where j: "k = Suc j" using assms(2) by (cases k) auto
  have l: "last (take k xs) = xs ! j" using assms(3) by (simp add: j take_Suc_conv_app_nth)
  have lt: "a < length xs \<Longrightarrow> b < length xs \<Longrightarrow> a < b \<Longrightarrow> xs ! a < xs ! b" for a b
    using sorted_wrt_nth_less [OF assms(1)] by blast
  have "filter (\<lambda>i. xs ! j + 1 \<le> i) (take k xs) = []"
  proof -
    have "x \<le> xs ! j" if x: "x \<in> set (take k xs)" for x
    proof -
      obtain a where "a < k" "x = xs ! a" using x assms(3) by (auto simp: in_set_conv_nth)
      then show ?thesis using lt [of a j] assms(3) j by (cases "a = j") auto
    qed
    then show ?thesis by (force simp: filter_empty_conv)
  qed
  moreover have "filter (\<lambda>i. xs ! j + 1 \<le> i) (drop k xs) = drop k xs"
  proof -
    have "xs ! j < x" if x: "x \<in> set (drop k xs)" for x
    proof -
      obtain a where "a < length xs - k" "x = xs ! (k + a)" using x by (auto simp: in_set_conv_nth)
      then show ?thesis using lt [of j "k + a"] assms(3) j by simp
    qed
    then show ?thesis by (force simp: filter_id_conv)
  qed
  ultimately have "filter (\<lambda>i. xs ! j + 1 \<le> i) (take k xs @ drop k xs) = drop k xs"
    by (simp del: append_take_drop_id)
  then show ?thesis by (simp add: l)
qed

lemma collect_pages_remaining:
  assumes "0 < pg" "\<And>l. lmt = Some l \<Longrightarrow> 1 \<le> l" "0 \<le> off"
    "length (filter (\<lambda>i. off \<le> i) (missing_indices m)) < n"
    "\<forall>i \<in> set (missing_indices m). 0 \<le> i"
  shows "collect_pages n pg m lmt off = filter (\<lambda>i. off \<le> i) (missing_indices m)"
  using assms(3,4)
proof (induction n arbitrary: off)
  case (Suc n)
  let ?rem = "filter (\<lambda>i. off \<le> i) (missing_indices m)"
  define k where "k = min (nat (case lmt of None \<Rightarrow> int pg | Some l \<Rightarrow> l)) pg"
  have k: "0 < k" using assms(1,2) by (cases lmt) (auto simp: k_def)
  have pg: "resume_page pg m off lmt =
      Inr (take k ?rem, if length (take k ?rem) < length ?rem then Some (last (take k ?rem) + 1) else None)"
    using Suc.prems(1) assms(1,2) by (cases lmt) (auto simp: resume_page_def Let_def k_def)
  have sorted: "sorted_wrt (<) ?rem"
    unfolding missing_indices_def by (simp add: sorted_wrt_filter)
  show ?case
  proof (cases "k < length ?rem")
    case False
    then show ?thesis by (simp add: pg)
  next
    case True
    let ?off = "last (take k ?rem) + 1"
    have in_rem: "last (take k ?rem) \<in> set ?rem"
      using k True by (metis in_set_takeD last_in_set less_imp_not_less list.size(3) take_eq_Nil not_gr_zero)
    have ge: "off \<le> last (take k ?rem)" using in_rem by simp
    have nx: "filter (\<lambda>i. ?off \<le> i) (missing_indices m) = drop k ?rem"
    proof -
      have "filter (\<lambda>i. ?off \<le> i) (missing_indices m) = filter (\<lambda>i. ?off \<le> i) ?rem"
        using ge by (auto intro: filter_cong)
      then show ?thesis using filter_from_last [OF sorted k True] by simp
    qed
    have "collect_pages n pg m lmt ?off = drop k ?rem"
      unfolding nx [symmetric] by (rule Suc.IH) (use ge Suc.prems k True nx in auto)
    then show ?thesis using True by (simp add: pg min_def)
  qed
qed simp

subsection \<open>A repeated frame\<close>

lemma rx_expire_none:
  "\<forall>i m. map_of (rx_missions r) i = Some m \<longrightarrow> now - mr_updated_at m < rx_mission_ttl r \<Longrightarrow>
    distinct (map fst (rx_missions r)) \<Longrightarrow> rx_expire r now = r"
proof -
  assume fresh: "\<forall>i m. map_of (rx_missions r) i = Some m \<longrightarrow> now - mr_updated_at m < rx_mission_ttl r"
    and d: "distinct (map fst (rx_missions r))"
  have "filter (\<lambda>(i, m). rx_mission_ttl r \<le> now - mr_updated_at m) (rx_missions r) = []"
    using fresh d by (fastforce simp: filter_empty_conv dest: map_of_is_SomeI)
  then show ?thesis by (simp add: rx_expire_def del: filter_empty_conv)
qed

lemma rx_expire_fresh:
  assumes "distinct (map fst (rx_missions r))" "map_of (rx_missions (rx_expire r now)) i = Some m"
  shows "now - mr_updated_at m < rx_mission_ttl r"
  using assms by (auto simp: rx_expire_def Let_def map_of_fold_delete image_iff split: if_splits)
    (metis (mono_tags, lifting) case_prodI fst_conv map_of_SomeD mem_Collect_eq not_le)

lemma receiver_step_fields:
  assumes "(case t of MISSION_BEGIN \<Rightarrow> rx_begin r c p now | MISSION_ITEM \<Rightarrow> rx_item r c p now
      | MISSION_COMMIT \<Rightarrow> rx_commit r c p now | _ \<Rightarrow> Inr r) = Inr r'"
  shows "rx_seen r' = rx_seen r \<and> rx_history_limit r' = rx_history_limit r \<and> rx_mission_ttl r' = rx_mission_ttl r
    \<and> rx_clock_offset r' = rx_clock_offset r \<and> rx_last_now r' = rx_last_now r
    \<and> (\<forall>i m. map_of (rx_missions r') i = Some m \<longrightarrow> map_of (rx_missions r) i = Some m \<or> mr_updated_at m = now)"
  using assms
  by (cases t)
    (auto simp: rx_begin_def rx_item_def rx_commit_def require_mission_def put_mission_def Let_def
      split: option.splits if_splits)

lemma prepare_now_again:
  "prepare_now r clock a = (Inr now, r1) \<Longrightarrow> rx_clock_offset r2 = rx_clock_offset r1 \<Longrightarrow>
    rx_last_now r2 = rx_last_now r1 \<Longrightarrow> prepare_now r2 clock a = (Inr now, r2)"
  by (cases a; cases "rx_clock_offset r"; cases "rx_last_now r")
    (clarsimp simp: prepare_now_def Let_def split: if_splits)+

lemma rx_accept_again:
  assumes acc: "rx_accept r f clock a = (Inr True, r')" and inv: "receiver_inv r"
    and lim: "0 < rx_history_limit r" "0 < rx_mission_ttl r"
  shows "rx_accept r' f clock a = (Inr False, r')"
proof -
  obtain x r1 where p: "prepare_now r clock a = (x, r1)" by (cases "prepare_now r clock a")
  obtain now where x: "x = Inr now" using acc by (cases x) (simp_all add: rx_accept_def p)
  let ?r2 = "rx_expire r1 now"
  have val: "validate_payload (f_type f) (JObj (f_payload f)) = None"
    using acc by (simp add: rx_accept_def p x Let_def split: option.splits)
  obtain r3 where st: "(case f_type f of MISSION_BEGIN \<Rightarrow> rx_begin ?r2 (f_command_id f) (f_payload f) now
      | MISSION_ITEM \<Rightarrow> rx_item ?r2 (f_command_id f) (f_payload f) now
      | MISSION_COMMIT \<Rightarrow> rx_commit ?r2 (f_command_id f) (f_payload f) now | _ \<Rightarrow> Inr ?r2) = Inr r3"
    and r': "r' = r3\<lparr>rx_seen := last_n (rx_history_limit r3) (od_touch (frame_id f) (transaction_identity f) (rx_seen r3))\<rparr>"
    using acc val by (auto simp: rx_accept_def p x Let_def split: option.splits if_splits sum.splits)
  note f1 = prepare_now_fields [OF p]
  note f3 = receiver_step_fields [OF st]
  have e: "rx_clock_offset ?r2 = rx_clock_offset r1" "rx_last_now ?r2 = rx_last_now r1"
    "rx_mission_ttl ?r2 = rx_mission_ttl r" "rx_history_limit ?r2 = rx_history_limit r"
    using f1 by (simp_all add: rx_expire_def Let_def)
  have i1: "receiver_inv r1" using prepare_now_inv [OF inv p] .
  have i': "receiver_inv r'"
    using rx_accept_inv [OF inv, of f clock a] acc by simp
  have again: "prepare_now r' clock a = (Inr now, r')"
    using prepare_now_again [OF p [unfolded x]] f3 e by (simp add: r')
  have fresh: "now - mr_updated_at m < rx_mission_ttl r'" if "map_of (rx_missions r') i = Some m" for i m
  proof -
    have "map_of (rx_missions ?r2) i = Some m \<or> mr_updated_at m = now" using that f3 by (simp add: r')
    then show ?thesis
      using rx_expire_fresh [of r1 now i m] i1 lim(2) f1 f3 e by (auto simp: r' receiver_inv_def)
  qed
  have "rx_expire r' now = r'" using fresh i' by (intro rx_expire_none) (auto simp: receiver_inv_def)
  moreover have "map_of (rx_seen r') (frame_id f) \<noteq> None"
  proof -
    have "distinct (map fst (od_touch (frame_id f) (transaction_identity f) (rx_seen r3)))"
      using rx_expire_inv [OF i1] f3 by (intro distinct_od_touch) (simp add: receiver_inv_def)
    moreover have "(frame_id f, transaction_identity f) \<in> set (rx_seen r')"
      using last_n_snoc_in lim(1) f3 e by (simp add: r' od_touch_def)
    ultimately show ?thesis by (metis domI dom_map_of_conv_image_fst fst_conv image_eqI option.simps(3) map_of_eq_None_iff)
  qed
  ultimately show ?thesis using val by (simp add: rx_accept_def again Let_def)
qed

subsection \<open>Properties\<close>

text \<open>Over any run of a fresh sender, whatever is queued, acknowledged, cancelled and
  polled at whatever times, a frame identity is sent at most \<open>max_attempts\<close> times for each time
  it was queued.\<close>

theorem retry_attempts_bounded:
  assumes "retry_sender_init n d k = Inr s"
    and "foldl sender_step (s, [], []) ops = (s', sent, queued)"
  shows "sent_of i sent \<le> nat n * count_list queued i"
proof -
  have "sender_inv (nat n) (s, [], [])"
    using assms(1) by (auto simp: retry_sender_init_def sender_inv_def sender_ok_def sent_of_def remaining_def split: if_splits)
  then have "sender_inv (nat n) (foldl sender_step (s, [], []) ops)"
    by (induction ops rule: rev_induct) (simp_all add: sender_inv_step)
  then have "sent_of i sent + remaining s' i \<le> nat n * count_list queued i"
    unfolding assms(2) by (simp add: sender_inv_def)
  then show ?thesis by linarith
qed

theorem retry_attempts_bounded_witness:
  "sent_of (frame_id sample_frame) (fst (snd (foldl sender_step
      (\<lparr>rs_max_attempts = 2, rs_interval = 1, rs_max_pending = 4, rs_pending = [], rs_exhausted = []\<rparr>, [], [])
      [Queue sample_frame 0, Due 0, Due 1, Due 2, Due 3]))) \<le> 2"
proof -
  let ?s = "\<lparr>rs_max_attempts = 2, rs_interval = 1, rs_max_pending = 4, rs_pending = [], rs_exhausted = []\<rparr>"
  let ?ops = "[Queue sample_frame 0, Due 0, Due 1, Due 2, Due 3]"
  obtain s' sent q where r: "foldl sender_step (?s, [], []) ?ops = (s', sent, q)"
    by (metis prod_cases3)
  have init: "retry_sender_init 2 1 4 = Inr ?s" by (simp add: retry_sender_init_def)
  have "snd (snd (foldl sender_step (?s, [], []) ?ops)) = [frame_id sample_frame]"
    by (simp add: retry_queue_def split: prod.split)
  then have "q = [frame_id sample_frame]" unfolding r by simp
  then show ?thesis
    using retry_attempts_bounded [OF init r, of "frame_id sample_frame"] unfolding r by simp
qed

text \<open>A frame that is queued and never acknowledged is sent by each of the first
  \<open>max_attempts\<close> polls that are at least an interval apart, and the next poll gives it up.\<close>

theorem retry_sends_then_gives_up:
  assumes "sender_ok s" and "retry_queue s f now = Inr s'"
    and "spaced (rs_interval s) now ts" and "length ts = rs_max_attempts s + 1"
  shows "map (filter (\<lambda>g. frame_id g = frame_id f)) (fst (due_runs s' ts))
      = replicate (rs_max_attempts s) [f] @ [[]]
    \<and> map_of (rs_pending (snd (due_runs s' ts))) (frame_id f) = None"
proof -
  let ?p = "\<lparr>p_frame = f, p_attempts = 0, p_next_due = now\<rparr>"
  have s': "s' = s\<lparr>rs_pending := AList.update (frame_id f) ?p (rs_pending s)\<rparr>"
    using assms(2) by (auto simp: retry_queue_def split: if_splits)
  have "sender_ok s'" using assms(1) unfolding s' sender_ok_def by (auto simp: distinct_keys_update)
  then show ?thesis
    using due_runs_sends [of s' "frame_id f" ?p ts] assms(3,4) by (simp add: s')
qed

theorem retry_sends_then_gives_up_witness:
  "\<exists>s'. retry_queue \<lparr>rs_max_attempts = 2, rs_interval = 1, rs_max_pending = 4, rs_pending = [], rs_exhausted = []\<rparr>
      sample_frame 5 = Inr s'
    \<and> map (filter (\<lambda>g. frame_id g = frame_id sample_frame)) (fst (due_runs s' [5, 6, 8])) = [[sample_frame], [sample_frame], []]"
proof -
  let ?s = "\<lparr>rs_max_attempts = 2, rs_interval = 1, rs_max_pending = 4, rs_pending = [], rs_exhausted = []\<rparr> :: retry_sender"
  have "sender_ok ?s" by (simp add: sender_ok_def)
  moreover obtain s' where "retry_queue ?s sample_frame 5 = Inr s'" by (simp add: retry_queue_def)
  ultimately show ?thesis
    using retry_sends_then_gives_up [of ?s sample_frame 5 s' "[5, 6, 8]"] by (auto simp: numeral_2_eq_2)
qed

text \<open>The calls of a receiver\<close>

datatype rx_call =
    RxAccept frame real "real option"
  | RxMission mission_key real "real option"
  | RxResume mission_key int "int option" real "real option"

fun rx_step :: "receiver \<Rightarrow> rx_call \<Rightarrow> receiver" where
  "rx_step r (RxAccept f clock a) = snd (rx_accept r f clock a)"
| "rx_step r (RxMission i clock a) = snd (rx_mission r i clock a)"
| "rx_step r (RxResume i off lmt clock a) = snd (rx_resume r i off lmt clock a)"

lemma rx_mission_snd: "snd (rx_mission r i clock a) = (case prepare_now r clock a of (Inl e, r1) \<Rightarrow> r1 | (Inr now, r1) \<Rightarrow> rx_expire r1 now)"
  by (auto simp: rx_mission_def Let_def split: prod.splits sum.splits)

lemma rx_resume_snd:
  "snd (rx_resume r i off lmt clock a) = (case prepare_now r clock a of (Inl e, r1) \<Rightarrow> r1 | (Inr now, r1) \<Rightarrow> rx_expire r1 now)"
  by (auto simp: rx_resume_def Let_def split: prod.splits sum.splits)

lemma look_inv: "receiver_inv r \<Longrightarrow> receiver_inv (case prepare_now r clock a of (Inl e, r1) \<Rightarrow> r1 | (Inr now, r1) \<Rightarrow> rx_expire r1 now)"
  using prepare_now_inv [of r clock a] by (auto intro: rx_expire_inv split: prod.splits sum.splits)

lemma rx_step_inv: "receiver_inv r \<Longrightarrow> receiver_inv (rx_step r op)"
  by (cases op) (simp_all add: rx_accept_inv rx_mission_snd rx_resume_snd look_inv)

definition limits_of :: "receiver \<Rightarrow> nat \<times> nat" where
  "limits_of r = (rx_max_missions r, rx_history_limit r)"

lemma prepare_now_limits: "prepare_now r clock a = (x, r') \<Longrightarrow> limits_of r' = limits_of r"
  by (auto simp: limits_of_def prepare_now_def Let_def split: option.splits if_splits)

lemma rx_expire_limits: "limits_of (rx_expire r now) = limits_of r"
  by (simp add: limits_of_def rx_expire_def Let_def)

lemma seen_limits: "limits_of (r\<lparr>rx_seen := x\<rparr>) = limits_of r"
  by (simp add: limits_of_def)

lemma handler_limits:
  "rx_begin r c p now = Inr r' \<Longrightarrow> limits_of r' = limits_of r"
  "rx_item r c p now = Inr r' \<Longrightarrow> limits_of r' = limits_of r"
  "rx_commit r c p now = Inr r' \<Longrightarrow> limits_of r' = limits_of r"
  by (auto simp: limits_of_def rx_begin_def rx_item_def rx_commit_def put_mission_def Let_def split: option.splits sum.splits if_splits)

lemma rx_accept_limits: "limits_of (snd (rx_accept r f clock a)) = limits_of r"
proof -
  obtain x r1 where p: "prepare_now r clock a = (x, r1)" by (cases "prepare_now r clock a")
  show ?thesis
  proof (cases x)
    case (Inr now)
    then show ?thesis
      using p prepare_now_limits [OF p] rx_expire_limits [of r1 now] handler_limits [of "rx_expire r1 now"]
      by (auto simp: rx_accept_def Let_def seen_limits split: option.splits sum.splits message_type.splits)
  qed (use p prepare_now_limits [OF p] in \<open>simp add: rx_accept_def\<close>)
qed

lemma look_limits:
  "limits_of (case prepare_now r clock a of (Inl e, r1) \<Rightarrow> r1 | (Inr now, r1) \<Rightarrow> rx_expire r1 now) = limits_of r"
proof -
  obtain x r1 where p: "prepare_now r clock a = (x, r1)" by (cases "prepare_now r clock a")
  then show ?thesis using prepare_now_limits [OF p] by (cases x) (simp_all add: rx_expire_limits)
qed

lemma rx_step_limits: "limits_of (rx_step r op) = limits_of r"
  by (cases op) (simp_all only: rx_step.simps rx_accept_limits rx_mission_snd rx_resume_snd look_limits)

text \<open>C9: after any sequence of calls of a receiver, frames accepted or not, missions looked up and pages of missing
  items asked for, at any times, it holds at most \<open>max_missions\<close> missions and \<open>history_limit\<close> delivery records, every
  stored item is inside its mission's declared range, and a committed mission has an item at every index.\<close>

theorem committed_mission_complete:
  assumes "receiver_init h k ttl pg = Inr r0" and "r = foldl rx_step r0 calls"
  shows "length (rx_missions r) \<le> nat k \<and> length (rx_seen r) \<le> nat h
    \<and> (\<forall>key m. map_of (rx_missions r) key = Some m \<longrightarrow>
        (mr_committed m \<longrightarrow> (\<forall>i. 0 \<le> i \<and> i < mr_item_count m \<longrightarrow> map_of (mr_items m) i \<noteq> None))
      \<and> (\<forall>i p. map_of (mr_items m) i = Some p \<longrightarrow> i < mr_item_count m))"
proof -
  have r: "receiver_inv r" "limits_of r = limits_of r0"
    unfolding assms(2) using receiver_inv_init [OF assms(1)]
    by (induction calls rule: rev_induct) (simp_all add: rx_step_inv rx_step_limits)
  have "limits_of r0 = (nat k, nat h)" using assms(1) by (auto simp: limits_of_def receiver_init_def split: if_splits)
  with r have "length (rx_missions r) \<le> nat k" "length (rx_seen r) \<le> nat h" by (auto simp: receiver_inv_def limits_of_def)
  moreover have "(mr_committed m \<longrightarrow> (\<forall>i. 0 \<le> i \<and> i < mr_item_count m \<longrightarrow> map_of (mr_items m) i \<noteq> None))
      \<and> (\<forall>i p. map_of (mr_items m) i = Some p \<longrightarrow> i < mr_item_count m)" if "map_of (rx_missions r) key = Some m" for key m
  proof -
    have "mission_inv m" using mission_lookup_inv [OF r(1) that] .
    then show ?thesis
      unfolding mission_inv_def missing_indices_def
      by (auto simp: filter_empty_conv dest!: map_of_SomeD intro: rev_image_eqI)
  qed
  ultimately show ?thesis by blast
qed

definition begin_frame :: frame where
  "begin_frame = \<lparr>f_type = MISSION_BEGIN, f_flags = 0, f_sequence = 1, f_command_id = 9, f_payload =
     [(''mission_id'', JStr ''m''), (''item_count'', JInt 1), (''vehicle'', JStr ''aircraft'')]\<rparr>"

definition item_frame :: frame where
  "item_frame = \<lparr>f_type = MISSION_ITEM, f_flags = 0, f_sequence = 2, f_command_id = 9, f_payload =
     [(''mission_id'', JStr ''m''), (''index'', JInt 0), (''lat'', JInt 1), (''lon'', JInt 2), (''alt'', JInt 3)]\<rparr>"

definition commit_frame :: frame where
  "commit_frame = \<lparr>f_type = MISSION_COMMIT, f_flags = 0, f_sequence = 3, f_command_id = 9, f_payload =
     [(''mission_id'', JStr ''m''), (''item_count'', JInt 1)]\<rparr>"

lemma mission_frames_valid:
  "validate_payload MISSION_BEGIN (JObj (f_payload begin_frame)) = None"
  "validate_payload MISSION_ITEM (JObj (f_payload item_frame)) = None"
  "validate_payload MISSION_COMMIT (JObj (f_payload commit_frame)) = None"
  by (simp_all add: validate_payload_def check_ok Let_def begin_frame_def item_frame_def commit_frame_def
      max_mission_items_def real_of_def)

theorem committed_mission_complete_witness:
  "\<exists>r0 m. receiver_init 8 2 60 4 = Inr r0
    \<and> map_of (rx_missions (foldl rx_step r0
        [RxAccept begin_frame 0 None, RxAccept item_frame 1 None, RxAccept commit_frame 2 None])) (9, ''m'') = Some m
    \<and> mr_committed m \<and> map_of (mr_items m) 0 \<noteq> None"
proof -
  obtain r0 where r0: "receiver_init 8 2 60 4 = Inr r0" by (simp add: receiver_init_def)
  let ?r = "foldl rx_step r0 [RxAccept begin_frame 0 None, RxAccept item_frame 1 None, RxAccept commit_frame 2 None]"
  have "\<exists>m. map_of (rx_missions ?r) (9, ''m'') = Some m \<and> mr_committed m \<and> mr_item_count m = 1"
    using r0 mission_frames_valid
    by (auto simp: receiver_init_def rx_accept_def prepare_now_def rx_expire_def begin_frame_def item_frame_def
        commit_frame_def rx_begin_def rx_item_def rx_commit_def require_mission_def put_mission_def
        missing_indices_def frame_id_def transaction_identity_def od_touch_def last_n_def Let_def)
  then obtain m where m: "map_of (rx_missions ?r) (9, ''m'') = Some m" "mr_committed m" "mr_item_count m = 1" by blast
  from committed_mission_complete [OF r0 refl] m(1)
  have "mr_committed m \<longrightarrow> (\<forall>i. 0 \<le> i \<and> i < mr_item_count m \<longrightarrow> map_of (mr_items m) i \<noteq> None)" by blast
  with m(2,3) have "map_of (mr_items m) 0 \<noteq> None" by simp
  with r0 m show ?thesis by blast
qed

text \<open>A frame that was accepted as new is reported as seen when it arrives again at the same
  time, and its repetition changes nothing in the receiver.\<close>

theorem accepted_frame_not_new_again:
  assumes "receiver_inv r" and "0 < rx_history_limit r" and "0 < rx_mission_ttl r"
    and "rx_accept r f clock a = (Inr True, r')"
  shows "rx_accept r' f clock a = (Inr False, r')"
  by (rule rx_accept_again) (rule assms)+

theorem accepted_frame_not_new_again_witness:
  "\<exists>r0 r'. receiver_init 8 2 60 4 = Inr r0 \<and> rx_accept r0 begin_frame 0 None = (Inr True, r')
     \<and> rx_accept r' begin_frame 0 None = (Inr False, r')"
proof -
  obtain r0 where r0: "receiver_init 8 2 60 4 = Inr r0" "0 < rx_history_limit r0" "0 < rx_mission_ttl r0"
    by (simp add: receiver_init_def)
  moreover have "\<exists>r'. rx_accept r0 begin_frame 0 None = (Inr True, r')"
    using r0(1) mission_frames_valid
    by (auto simp: receiver_init_def rx_accept_def prepare_now_def rx_expire_def begin_frame_def rx_begin_def
        put_mission_def frame_id_def Let_def)
  ultimately show ?thesis
    using accepted_frame_not_new_again [OF receiver_inv_init [OF r0(1)] r0(2,3)] by blast
qed

text \<open>Following the offsets \<open>resume\<close> returns, from 0 and with any valid page limit, lists
  the missing indices of a mission exactly once each, in order, and then ends.\<close>

theorem resume_pages_complete:
  assumes "0 < pg" and "\<And>l. lmt = Some l \<Longrightarrow> 1 \<le> l" and "length (missing_indices m) < n"
  shows "collect_pages n pg m lmt 0 = missing_indices m"
proof -
  have nonneg: "\<forall>i \<in> set (missing_indices m). 0 \<le> i" by (simp add: missing_indices_def)
  then have all: "filter (\<lambda>i. 0 \<le> i) (missing_indices m) = missing_indices m" by (simp add: filter_id_conv)
  show ?thesis
    using collect_pages_remaining [OF assms(1,2), where off = 0 and m = m and n = n] assms(3) nonneg unfolding all by blast
qed

definition sample_mission :: mission_rx where
  "sample_mission = \<lparr>mr_command_id = 9, mr_mission_id = ''m'', mr_item_count = 6, mr_vehicle = JStr ''rover'',
     mr_updated_at = 0, mr_items = [(1, []), (4, [])], mr_committed = False\<rparr>"

theorem resume_pages_complete_witness:
  "collect_pages 9 2 sample_mission (Some 5) 0 = [0, 2, 3, 5]"
proof -
  have "missing_indices sample_mission = [0, 2, 3, 5]"
    by (simp add: missing_indices_def sample_mission_def upto.simps)
  then show ?thesis
    using resume_pages_complete [of 2 "Some 5" sample_mission 9] by simp
qed

declare split_paired_All [simp] split_paired_Ex [simp]

end
