(* ===== verification/MavExt.thy ===== *)
theory MavExt
  imports Hashes StreamDecoder
begin

text \<open>
  \<open>shared_protocol/mavlink_extension.py\<close>, which carries LIOT bytes inside MAVLink 2
  V2_EXTENSION packets, and the two MAVLink stream splitters: \<open>MavlinkStreamDecoder\<close> of
  \<open>aircraft_agent/link_server.py\<close> and \<open>_MavlinkFrameStream\<close> of
  \<open>rdk_agent/follow_relay.py\<close>, both as \<open>stream_machine\<close>s.
\<close>

unbundle bit_operations_syntax

subsection \<open>The checksum\<close>

definition x25_step :: "16 word \<Rightarrow> byte \<Rightarrow> 16 word" where
  "x25_step crc b =
     (let tmp = ucast b XOR (crc AND 0xFF);
          tmp = tmp XOR (push_bit 4 tmp AND 0xFF)
      in drop_bit 8 crc XOR push_bit 8 tmp XOR push_bit 3 tmp XOR drop_bit 4 tmp)"

definition x25_crc :: "bytes \<Rightarrow> 16 word" where
  "x25_crc bs = foldl x25_step 0xFFFF bs"

subsection \<open>Wrapping and unwrapping\<close>

definition mav_message_id :: nat where
  "mav_message_id = 248"

definition crc_extra :: byte where
  "crc_extra = 8"

definition payload_marker :: "16 word" where
  "payload_marker = 0x4C49"

definition max_data_bytes :: nat where
  "max_data_bytes = 249"

text \<open>
  \<open>wrap_liot_frame\<close> with the module's \<open>_sequence\<close> as state; None is its ValueError. The
  system and component ids are masked to a byte.
\<close>

definition wrap_liot_frame :: "byte \<Rightarrow> bytes \<Rightarrow> byte \<Rightarrow> byte \<Rightarrow> (bytes \<times> byte) option" where
  "wrap_liot_frame sq d sys cmp =
     (if max_data_bytes < length d then None
      else
        let p = le16_bytes payload_marker @ [0, 0, 0] @ d;
            header = [0xFD, word_of_nat (length p), 0, 0, sq, sys, cmp,
              word_of_nat (mav_message_id mod 256), word_of_nat (mav_message_id div 256 mod 256), 0];
            checksum = x25_crc (tl header @ p @ [crc_extra])
        in Some (header @ p @ le16_bytes checksum, sq + 1))"

definition unwrap_liot_frame :: "bytes \<Rightarrow> bytes option" where
  "unwrap_liot_frame pk =
     (if length pk < 17 \<or> pk ! 0 \<noteq> 0xFD then None
      else
        let n = unat (pk ! 1);
            message_id = unat (pk ! 7) + 256 * unat (pk ! 8) + 65536 * unat (pk ! 9);
            expected = 10 + n + 2
        in if message_id \<noteq> mav_message_id \<or> n < 5 then None
           else if length pk \<noteq> expected then None
           else
             let p = take n (drop 10 pk) in
             if le16_word (p ! 0) (p ! 1) \<noteq> payload_marker then None
             else if le16_word (pk ! (expected - 2)) (pk ! (expected - 1))
                 \<noteq> x25_crc (take (expected - 3) (drop 1 pk) @ [crc_extra]) then None
             else Some (drop 5 p))"

lemma wrap_shape:
  "wrap_liot_frame sq d sys cmp = Some (pk, sq') \<Longrightarrow>
     (\<exists>sq' ck. pk = [0xFD, word_of_nat (length d + 5), 0, 0, sq', sys, cmp, 248, 0, 0]
        @ [0x49, 0x4C, 0, 0, 0] @ d @ le16_bytes ck
      \<and> ck = x25_crc ([word_of_nat (length d + 5), 0, 0, sq', sys, cmp, 248, 0, 0]
        @ [0x49, 0x4C, 0, 0, 0] @ d @ [crc_extra])) \<and> length d \<le> 249 \<and> sq' = sq + 1"
proof -
  have m: "le16_bytes payload_marker = [0x49, 0x4C]"
    by (simp add: le16_bytes_def payload_marker_def)
  assume "wrap_liot_frame sq d sys cmp = Some (pk, sq')"
  then show ?thesis
    by (auto simp: wrap_liot_frame_def Let_def m max_data_bytes_def mav_message_id_def add.commute split: if_splits)
qed

lemma unwrap_wrap:
  assumes "wrap_liot_frame sq d sys cmp = Some (pk, sq')"
  shows "unwrap_liot_frame pk = Some d"
proof -
  let ?n = "word_of_nat (length d + 5) :: byte"
  obtain s ck where pk: "pk = [0xFD, ?n, 0, 0, s, sys, cmp, 248, 0, 0] @ [0x49, 0x4C, 0, 0, 0] @ d @ le16_bytes ck"
    and ck: "ck = x25_crc ([?n, 0, 0, s, sys, cmp, 248, 0, 0] @ [0x49, 0x4C, 0, 0, 0] @ d @ [crc_extra])"
    and len: "length d \<le> 249"
    using wrap_shape [OF assms] by blast
  have n: "unat ?n = length d + 5" using len by (simp add: unat_of_nat del: of_nat_add)
  have lp: "length pk = 17 + length d" by (simp add: pk le16_bytes_def)
  have c: "le16_word (pk ! (length d + 15)) (pk ! (length d + 16)) = ck"
    by (simp add: pk le16_bytes_def nth_append le16_word_bytes)
  have b: "take (length d + 14) (drop 1 pk) = [?n, 0, 0, s, sys, cmp, 248, 0, 0] @ [0x49, 0x4C, 0, 0, 0] @ d"
    (is "_ = ?X")
  proof -
    have "drop 1 pk = ?X @ le16_bytes ck" by (simp add: pk del: of_nat_add)
    moreover have "length ?X = length d + 14" by simp
    ultimately show ?thesis by (metis append_eq_conv_conj)
  qed
  have p: "take (length d + 5) (drop 10 pk) = [0x49, 0x4C, 0, 0, 0] @ d" (is "_ = ?Y")
  proof -
    have "drop 10 pk = ?Y @ le16_bytes ck" by (simp add: pk)
    moreover have "length ?Y = length d + 5" by simp
    ultimately show ?thesis by (metis append_eq_conv_conj)
  qed
  have h: "pk ! 0 = 0xFD" "pk ! 1 = ?n" "pk ! 7 = 248" "pk ! 8 = 0" "pk ! 9 = 0"
    by (simp_all add: pk del: of_nat_add)
  have mk: "le16_word 0x49 0x4C = payload_marker" by (simp add: le16_word_def payload_marker_def)
  have u: "unat (248 :: byte) = 248" "unat (0 :: byte) = 0" by simp_all
  show ?thesis
    unfolding unwrap_liot_frame_def h n u Let_def
    using c b p lp mk ck by (simp add: mav_message_id_def add.commute)
qed

subsection \<open>Splitting a serial stream of MAVLink packets\<close>

text \<open>\<open>MavlinkStreamDecoder.feed\<close>: one turn of its loop\<close>

definition is_mav_magic :: "byte \<Rightarrow> bool" where
  "is_mav_magic b \<longleftrightarrow> b = 0xFD \<or> b = 0xFE"

definition mav_frame_length :: "bytes \<Rightarrow> nat" where
  "mav_frame_length buf =
     (let is_v2 = (buf ! 0 = 0xFD);
          header_len = (if is_v2 then 10 else 6);
          signature_len = (if is_v2 \<and> (buf ! 2 AND 0x01) \<noteq> 0 then 13 else 0)
      in header_len + unat (buf ! 1) + 2 + signature_len)"

definition mav_turn :: "bytes \<Rightarrow> bytes turn" where
  "mav_turn buf =
     (if buf = [] then Stop
      else
        let start = length (takeWhile (\<lambda>b. \<not> is_mav_magic b) buf) in
        if start = length buf then Take (length buf) []
        else if 0 < start then Take start []
        else if length buf < 3 then Stop
        else if length buf < mav_frame_length buf then Stop
        else Take (mav_frame_length buf) [take (mav_frame_length buf) buf])"

text \<open>\<open>_MavlinkFrameStream.feed\<close>: the scan moves an offset; the buffer is cut at the end\<close>

definition relay_turn :: "bytes \<Rightarrow> bytes turn" where
  "relay_turn buf =
     (if length buf < 8 then Stop
      else if \<not> is_mav_magic (buf ! 0) then Take 1 []
      else if length buf < mav_frame_length buf then Stop
      else Take (mav_frame_length buf) [take (mav_frame_length buf) buf])"

definition relay_feed :: "nat \<Rightarrow> bytes \<Rightarrow> bytes \<Rightarrow> bytes \<times> bytes list" where
  "relay_feed max_buffer buf chunk =
     (case stream_loop relay_turn (buf @ chunk) of
        (b, fs) \<Rightarrow> (if max_buffer < length b then last_n 10 b else b, fs))"

lemma mav_frame_length_bounds: "8 \<le> mav_frame_length b" "mav_frame_length b \<le> 280"
  using unat_byte_lt [of "b ! 1"] by (simp_all add: mav_frame_length_def Let_def)

lemma mav_frame_length_append: "3 \<le> length b \<Longrightarrow> mav_frame_length (b @ x) = mav_frame_length b"
  by (cases "b = []") (simp_all add: mav_frame_length_def nth_append)

lemma takeWhile_append_stop:
  "length (takeWhile p b) < length b \<Longrightarrow> takeWhile p (b @ x) = takeWhile p b"
  by (metis takeWhile_append1 takeWhile_eq_all_conv nat_neq_iff)

interpretation mav_stream: stream_machine mav_turn
proof
  fix b n x and es :: "bytes list"
  let ?p = "\<lambda>b. \<not> is_mav_magic b"
  assume t: "mav_turn b = Take n es"
  have le: "length (takeWhile ?p b) \<le> length b" by (rule length_takeWhile_le)
  consider (noise) "length (takeWhile ?p b) = length b" "0 < length b" "n = length b" "es = []"
    | (skip) "0 < length (takeWhile ?p b)" "length (takeWhile ?p b) < length b"
        "n = length (takeWhile ?p b)" "es = []"
    | (emit) "length (takeWhile ?p b) = 0" "3 \<le> length b" "mav_frame_length b \<le> length b"
        "n = mav_frame_length b" "es = [take (mav_frame_length b) b]"
    using t le mav_frame_length_bounds(1) [of b]
    by (fastforce simp: mav_turn_def Let_def not_less split: if_splits)
  then have "0 < n \<and> n \<le> length b \<and> (mav_turn (b @ x) = Take n es
      \<or> es = [] \<and> (\<exists>k > n. mav_turn (b @ x) = Take k [] \<and> mav_turn (drop n b @ x) = Take (k - n) []))"
  proof cases
    case noise
    then have all: "takeWhile ?p b = b" by (metis takeWhile_eq_take take_all order_refl)
    then have tw: "takeWhile ?p (b @ x) = b @ takeWhile ?p x"
      by (metis takeWhile_append2 takeWhile_eq_all_conv)
    show ?thesis
    proof (cases "takeWhile ?p x = []")
      case True
      then show ?thesis
        using noise tw by (cases x) (auto simp: mav_turn_def Let_def)
    next
      case False
      then have "mav_turn (b @ x) = Take (length b + length (takeWhile ?p x)) []"
        "mav_turn x = Take (length (takeWhile ?p x)) []"
        using noise tw by (auto simp: mav_turn_def Let_def)
      then show ?thesis using noise False by (intro conjI disjI2) auto
    qed
  next
    case skip
    then show ?thesis using takeWhile_append_stop [OF skip(2), of x]
      by (auto simp: mav_turn_def Let_def)
  next
    case emit
    have "takeWhile ?p (b @ x) = takeWhile ?p b"
      using emit by (intro takeWhile_append_stop) auto
    then show ?thesis
      using emit mav_frame_length_append [OF emit(2), of x] mav_frame_length_bounds(1) [of b]
      by (auto simp: mav_turn_def Let_def)
  qed
  then show "0 < n \<and> n \<le> length b"
    and "mav_turn (b @ x) = Take n es
      \<or> es = [] \<and> (\<exists>k > n. mav_turn (b @ x) = Take k [] \<and> mav_turn (drop n b @ x) = Take (k - n) [])"
    by blast+
qed

interpretation relay_stream: stream_machine relay_turn
proof
  fix b n x and es :: "bytes list"
  assume t: "relay_turn b = Take n es"
  then have l: "8 \<le> length b" by (auto simp: relay_turn_def split: if_splits)
  then have "0 < n \<and> n \<le> length b \<and> relay_turn (b @ x) = Take n es"
    using t mav_frame_length_append [of b x] mav_frame_length_bounds(1) [of b]
    by (auto simp: relay_turn_def nth_append split: if_splits)
  then show "0 < n \<and> n \<le> length b"
    and "relay_turn (b @ x) = Take n es
      \<or> es = [] \<and> (\<exists>k > n. relay_turn (b @ x) = Take k [] \<and> relay_turn (drop n b @ x) = Take (k - n) [])"
    by blast+
qed

subsection \<open>Packets on the line\<close>

lemma wrap_turn:
  assumes "wrap_liot_frame sq d sys cmp = Some (pk, sq')"
  shows "mav_turn (pk @ rest) = Take (length pk) [pk]"
proof -
  let ?n = "word_of_nat (length d + 5) :: byte"
  obtain s ck where pk: "pk = [0xFD, ?n, 0, 0, s, sys, cmp, 248, 0, 0] @ [0x49, 0x4C, 0, 0, 0] @ d @ le16_bytes ck"
    and len: "length d \<le> 249"
    using wrap_shape [OF assms] by blast
  have n: "unat ?n = length d + 5" using len by (simp add: unat_of_nat del: of_nat_add)
  have lp: "length pk = 17 + length d" by (simp add: pk le16_bytes_def)
  have h: "(pk @ rest) ! 0 = 0xFD" "(pk @ rest) ! 1 = ?n" "(pk @ rest) ! 2 = 0"
    by (simp_all add: pk del: of_nat_add)
  have fl: "mav_frame_length (pk @ rest) = length pk"
    unfolding mav_frame_length_def h n Let_def using lp by simp
  have tw: "takeWhile (\<lambda>b. \<not> is_mav_magic b) (pk @ rest) = []"
    by (simp add: pk is_mav_magic_def)
  show ?thesis
    unfolding mav_turn_def tw fl Let_def using lp by (simp add: pk)
qed

text \<open>Wrapping a list of payloads one after the other\<close>

fun wrap_all :: "byte \<Rightarrow> byte \<Rightarrow> byte \<Rightarrow> bytes list \<Rightarrow> bytes list option" where
  "wrap_all sq sys cmp [] = Some []"
| "wrap_all sq sys cmp (d # ds) =
     (case wrap_liot_frame sq d sys cmp of
        None \<Rightarrow> None
      | Some (pk, sq') \<Rightarrow> map_option (Cons pk) (wrap_all sq' sys cmp ds))"

text \<open>Noise: bytes that start no packet, dropped up to the next one\<close>

definition mav_noise :: "bytes \<Rightarrow> bool" where
  "mav_noise n \<longleftrightarrow> (\<forall>b \<in> set n. \<not> is_mav_magic b)"

lemma mav_loop_noise:
  assumes "mav_noise n" "x = [] \<or> is_mav_magic (hd x)"
  shows "stream_loop mav_turn (n @ x) = stream_loop mav_turn x"
proof (cases "n = []")
  case False
  have "takeWhile (\<lambda>b. \<not> is_mav_magic b) (n @ x) = n"
    using assms by (cases x) (auto simp: mav_noise_def takeWhile_eq_all_conv [THEN iffD2])
  with False have "mav_turn (n @ x) = Take (length n) []" by (auto simp: mav_turn_def Let_def)
  then show ?thesis by (subst mav_stream.loop_unfold) (simp split: prod.split)
qed simp

lemma wrap_magic: "wrap_liot_frame sq d sys cmp = Some (pk, sq') \<Longrightarrow> pk \<noteq> [] \<and> is_mav_magic (hd pk)"
  by (auto simp: is_mav_magic_def dest!: wrap_shape)

text \<open>The line carries noise before each packet and after the last one\<close>

fun noisy :: "bytes list \<Rightarrow> bytes list \<Rightarrow> bytes" where
  "noisy (n # ns) (pk # pks) = n @ pk @ noisy ns pks"
| "noisy ns pks = concat ns"

lemma wrap_all_stream:
  "wrap_all sq sys cmp ds = Some pks \<Longrightarrow> length ns = Suc (length ds) \<Longrightarrow> \<forall>n \<in> set ns. mav_noise n \<Longrightarrow>
    stream_loop mav_turn (noisy ns pks) = ([], pks) \<and> map unwrap_liot_frame pks = map Some ds"
proof (induction ds arbitrary: sq pks ns)
  case Nil
  have "mav_turn [] = Stop" by (simp add: mav_turn_def)
  then have "stream_loop mav_turn [] = ([], [])" by (simp add: mav_stream.loop_unfold [of "[]"])
  moreover from Nil obtain n where "ns = [n]" "mav_noise n" by (auto simp: length_Suc_conv)
  ultimately show ?case using Nil(1) mav_loop_noise [of n "[]"] by simp
next
  case (Cons d ds)
  obtain pk sq' pks' where w: "wrap_liot_frame sq d sys cmp = Some (pk, sq')"
    "wrap_all sq' sys cmp ds = Some pks'" "pks = pk # pks'"
    using Cons.prems(1) by (auto split: option.splits)
  obtain n ns' where ns: "ns = n # ns'" "length ns' = Suc (length ds)" "mav_noise n" "\<forall>n \<in> set ns'. mav_noise n"
    using Cons.prems(2,3) by (cases ns) auto
  have "stream_loop mav_turn (n @ pk @ noisy ns' pks') = stream_loop mav_turn (pk @ noisy ns' pks')"
    using mav_loop_noise [OF ns(3)] wrap_magic [OF w(1)] by simp
  also have "\<dots> = ([], pk # pks')"
    using wrap_turn [OF w(1)] Cons.IH [OF w(2) ns(2,4)] by (subst mav_stream.loop_unfold) simp
  finally show ?case using unwrap_wrap [OF w(1)] Cons.IH [OF w(2) ns(2,4)] by (simp add: w(3) ns(1))
qed

lemma wrap_all_total: "\<forall>d \<in> set ds. length d \<le> 249 \<Longrightarrow> \<exists>pks. wrap_all sq sys cmp ds = Some pks"
  by (induction ds arbitrary: sq) (auto simp: wrap_liot_frame_def Let_def max_data_bytes_def)

text \<open>The relay's buffer never reaches its limit: a frame has at most 280 bytes.\<close>

lemma relay_stop_bound: "relay_turn b = Stop \<Longrightarrow> length b < 280"
  using mav_frame_length_bounds(2) [of b] by (auto simp: relay_turn_def split: if_splits)

lemma relay_feed_no_cut:
  assumes "280 \<le> max_buffer"
  shows "relay_feed max_buffer buf chunk = stream_loop relay_turn (buf @ chunk)"
  using relay_stop_bound [OF relay_stream.loop_stops, of "buf @ chunk"] assms
  by (auto simp: relay_feed_def split: prod.split)

subsection \<open>Properties\<close>

text \<open>C10: payloads of at most 249 bytes, wrapped one after the other and sent over a line that carries noise without the
  two start bytes of MAVLink before, between and behind the packets, come out of the serial
  decoder and \<open>unwrap_liot_frame\<close> in order and unchanged, however the line cuts the bytes into
  chunks, and the decoder keeps no byte.\<close>

theorem mavlink_tunnel_roundtrip:
  assumes "\<forall>d \<in> set ds. length d \<le> 249" and "length ns = Suc (length ds)" and "\<forall>n \<in> set ns. \<forall>b \<in> set n. \<not> is_mav_magic b"
  shows "\<exists>pks. wrap_all sq sys cmp ds = Some pks
    \<and> (\<forall>chunks. concat chunks = noisy ns pks \<longrightarrow> feed_chunks mav_turn [] chunks = ([], pks))
    \<and> map unwrap_liot_frame pks = map Some ds"
proof -
  obtain pks where w: "wrap_all sq sys cmp ds = Some pks" using wrap_all_total [OF assms(1)] by blast
  have "mav_turn [] = Stop" by (simp add: mav_turn_def)
  moreover have "\<forall>n \<in> set ns. mav_noise n" using assms(3) by (simp add: mav_noise_def)
  ultimately show ?thesis
    using w wrap_all_stream [OF w assms(2)] mav_stream.feed_chunks_concat [of "[]"] by auto
qed

theorem mavlink_tunnel_roundtrip_witness:
  "\<exists>pks. wrap_all 7 254 191 [[1, 2], []] = Some pks \<and> map unwrap_liot_frame pks = [Some [1, 2], Some []]
     \<and> feed_chunks mav_turn [] [noisy [[1], [], [2, 3]] pks] = ([], pks)"
proof -
  have n: "\<forall>n \<in> set [[1], [], [2, 3]]. \<forall>b \<in> set n. \<not> is_mav_magic b" by (simp add: is_mav_magic_def)
  obtain pks where p: "wrap_all 7 254 191 [[1, 2], []] = Some pks" "map unwrap_liot_frame pks = map Some [[1, 2], []]"
    "\<forall>chunks. concat chunks = noisy [[1], [], [2, 3]] pks \<longrightarrow> feed_chunks mav_turn [] chunks = ([], pks)"
    using mavlink_tunnel_roundtrip [OF _ _ n, of "[[1, 2], []]" 7 254 191] by auto
  have "feed_chunks mav_turn [] [noisy [[1], [], [2, 3]] pks] = ([], pks)"
    by (rule p(3) [rule_format]) (simp only: concat.simps append_Nil2)
  moreover have "map unwrap_liot_frame pks = [Some [1, 2], Some []]" using p(2) by simp
  ultimately show ?thesis using p(1) by (intro exI conjI)
qed

text \<open>The relay's splitter keeps fewer than 280 bytes, so its emergency cut at
  \<open>max_buffer\<close> is never reached, and its frames depend only on the bytes, not on the chunks.\<close>

theorem relay_parser_chunk_invariant:
  assumes "280 \<le> max_buffer" and "relay_turn buf = Stop"
  shows "foldl (\<lambda>(b, fs) c. case relay_feed max_buffer b c of (b', fs') \<Rightarrow> (b', fs @ fs')) (buf, []) chunks
    = stream_loop relay_turn (buf @ concat chunks)"
proof -
  have "foldl (\<lambda>(b, fs) c. case relay_feed max_buffer b c of (b', fs') \<Rightarrow> (b', fs @ fs')) (b, out) chunks
      = (case feed_chunks relay_turn b chunks of (b', fs) \<Rightarrow> (b', out @ fs))" for b out
    by (induction chunks arbitrary: b out)
      (simp_all add: relay_feed_no_cut [OF assms(1)] split: prod.split)
  then show ?thesis
    using relay_stream.feed_chunks_concat [OF assms(2), of chunks] by (simp split: prod.split)
qed

theorem relay_parser_chunk_invariant_witness:
  "foldl (\<lambda>(b, fs) c. case relay_feed 65536 b c of (b', fs') \<Rightarrow> (b', fs @ fs')) ([], [])
      [[1, 0xFE, 0, 9], [9, 9, 9, 5, 6]] = stream_loop relay_turn [1, 0xFE, 0, 9, 9, 9, 9, 5, 6]"
  using relay_parser_chunk_invariant [of 65536 "[]" "[[1, 0xFE, 0, 9], [9, 9, 9, 5, 6]]"]
  by (simp add: relay_turn_def)

end
