(* ===== verification/NodeMessages.thy ===== *)
theory NodeMessages
  imports FrameRoundtrip
begin

text \<open>
  \<open>shared_protocol/node_messages.py\<close>: the JSON datagrams between the rover's node and the
  aircraft. A validator returns the exception it raises: \<open>NodeError\<close> is
  \<open>NodeMessageError\<close>, \<open>NodeEscape\<close> any other exception.
\<close>

datatype node_exc = NodeError string | NodeEscape pyexc

definition protocol_version :: int where
  "protocol_version = 1"

definition max_datagram_bytes :: nat where
  "max_datagram_bytes = 4096"

definition node_ids :: "string list" where
  "node_ids = [''rover'', ''aircraft_1'', ''aircraft_2'']"

definition message_types :: "string list" where
  "message_types = [''command'', ''mission_begin'', ''mission_item'', ''mission_commit'', ''ack'', ''nack'', ''status'']"

definition command_actions :: "string list" where
  "command_actions = [''guided'', ''loiter'', ''follow'', ''auto'', ''land'', ''arm'', ''disarm'', ''network_phone'']"

definition transaction_stages :: "string list" where
  "transaction_stages = [''RECEIVED'', ''QUEUED'', ''EXECUTING'', ''VERIFIED'', ''FAILED'']"

definition required_fields :: "string list" where
  "required_fields = [''version'', ''type'', ''source'', ''target'', ''command_id'', ''sequence'', ''timestamp'', ''payload'']"

subsection \<open>Field checks\<close>

definition node_unless :: "bool \<Rightarrow> string \<Rightarrow> node_exc option" where
  "node_unless ok msg = unless ok (NodeError msg)"

definition exact_fields :: "json \<Rightarrow> string list \<Rightarrow> string list \<Rightarrow> node_exc option" where
  "exact_fields v req opt = first_error
     [node_unless (is_obj v) ''payload must be an object'',
      node_unless (set req \<subseteq> fst ` set (dict_of v) \<and> fst ` set (dict_of v) \<subseteq> set req \<union> set opt)
        ''invalid payload fields'']"

definition node_string :: "json \<Rightarrow> string \<Rightarrow> node_exc option" where
  "node_string v name = node_unless (is_str v \<and> str_of v \<noteq> []) (name @ '' must be a non-empty string'')"

definition node_number :: "json \<Rightarrow> string \<Rightarrow> real option \<Rightarrow> real option \<Rightarrow> node_exc option" where
  "node_number v name minimum maximum = first_error
     [node_unless (is_number v) (name @ '' must be a finite number''),
      unless (\<not> float_overflow v) (NodeEscape (OverflowError ''int too large to convert to float'')),
      node_unless (is_finite_num v) (name @ '' must be a finite number''),
      (case minimum of None \<Rightarrow> None | Some lo \<Rightarrow> node_unless (\<not> real_of v < lo) (name @ '' is below minimum'')),
      (case maximum of None \<Rightarrow> None | Some hi \<Rightarrow> node_unless (\<not> hi < real_of v) (name @ '' exceeds maximum''))]"

definition node_item_count :: "json \<Rightarrow> node_exc option" where
  "node_item_count v = node_unless (is_int v \<and> 0 \<le> int_of v \<and> int_of v \<le> 100)
     ''item_count must be an integer from 0 to 100''"

definition node_item_index :: "json \<Rightarrow> node_exc option" where
  "node_item_index v = node_unless (is_int v \<and> 0 \<le> int_of v \<and> int_of v < 100)
     ''index must be an integer from 0 to 99''"

definition node_digest :: "json \<Rightarrow> node_exc option" where
  "node_digest v = node_unless (is_str v \<and> is_sha_hex (str_of v)) ''digest must be lowercase SHA-256 hex''"

definition node_when :: "pydict \<Rightarrow> string \<Rightarrow> (json \<Rightarrow> node_exc option) \<Rightarrow> node_exc option" where
  "node_when d k check = (if has d k then check (fld d k) else None)"

definition node_bool :: "string \<Rightarrow> json \<Rightarrow> node_exc option" where
  "node_bool name v = node_unless (is_bool v) (name @ '' must be a boolean'')"

definition node_str :: "string \<Rightarrow> json \<Rightarrow> node_exc option" where
  "node_str name v = node_unless (is_str v) (name @ '' must be a string'')"

definition validate_node_item :: "json \<Rightarrow> int \<Rightarrow> node_exc option" where
  "validate_node_item item expected =
     (let p = dict_of item in first_error
       [exact_fields item [''index'', ''lat'', ''lon'', ''alt'']
          [''command'', ''frame'', ''param1'', ''param2'', ''param3'', ''param4'', ''autocontinue''],
        node_item_index (fld p ''index''),
        node_unless (int_of (fld p ''index'') = expected) ''mission item index mismatch'',
        node_number (fld p ''lat'') ''lat'' (Some (- 90)) (Some 90),
        node_number (fld p ''lon'') ''lon'' (Some (- 180)) (Some 180),
        node_number (fld p ''alt'') ''alt'' (Some (- 1000)) (Some 100000),
        node_when p ''command'' (\<lambda>v. node_unless (is_int v \<and> 0 \<le> int_of v \<and> int_of v \<le> 0xFFFF)
          ''command must fit uint16''),
        node_when p ''frame'' (\<lambda>v. node_unless (is_int v \<and> 0 \<le> int_of v \<and> int_of v \<le> 0xFF)
          ''frame must fit uint8''),
        node_when p ''param1'' (\<lambda>v. node_number v ''param1'' None None),
        node_when p ''param2'' (\<lambda>v. node_number v ''param2'' None None),
        node_when p ''param3'' (\<lambda>v. node_number v ''param3'' None None),
        node_when p ''param4'' (\<lambda>v. node_number v ''param4'' None None),
        node_when p ''autocontinue'' (node_bool ''autocontinue'')])"

definition node_stage :: "json \<Rightarrow> node_exc option" where
  "node_stage v = first_error
     [node_str ''stage'' v,
      node_unless (str_of v \<in> set transaction_stages) ''invalid transaction stage'']"

definition status_fields :: "string list" where
  "status_fields = [''online'', ''fc_connected'', ''blocked'', ''mode'', ''armed'', ''heartbeat_at'',
     ''lat'', ''lon'', ''position_observed'', ''altitude'', ''speed'', ''heading'', ''battery'',
     ''mission_stage'', ''mission_id'', ''fault'', ''link_state'', ''event'']"

definition validate_status :: "json \<Rightarrow> node_exc option" where
  "validate_status payload =
     (let p = dict_of payload; ev = fld p ''event''; e = dict_of ev in first_error
       ([exact_fields payload status_fields []]
        @ map (\<lambda>n. node_bool n (fld p n)) [''online'', ''fc_connected'', ''blocked'', ''armed'', ''position_observed'']
        @ map (\<lambda>n. node_string (fld p n) n) [''mode'', ''mission_stage'', ''link_state'']
        @ [node_unless (fld p ''link_state'' \<in> {JStr ''ONLINE'', JStr ''OFFLINE'', JStr ''OPTICAL_BLOCKED''})
            ''invalid link_state'']
        @ map (\<lambda>n. node_str n (fld p n)) [''mission_id'', ''fault'']
        @ map (\<lambda>n. node_number (fld p n) n None None) [''heartbeat_at'', ''altitude'', ''speed'', ''heading'', ''battery'']
        @ [node_number (fld p ''lat'') ''lat'' (Some (- 90)) (Some 90),
           node_number (fld p ''lon'') ''lon'' (Some (- 180)) (Some 180),
           exact_fields ev [''timestamp'', ''sequence'', ''type'', ''text''] [],
           node_number (fld e ''timestamp'') ''event.timestamp'' (Some 0) None,
           node_unless (is_int (fld e ''sequence'') \<and> 0 \<le> int_of (fld e ''sequence'')
             \<and> int_of (fld e ''sequence'') \<le> 0xFFFFFFFF) ''event.sequence must fit uint32'',
           node_string (fld e ''type'') ''event.type'',
           node_str ''event.text'' (fld e ''text'')]))"

definition validate_node_payload :: "string \<Rightarrow> json \<Rightarrow> node_exc option" where
  "validate_node_payload mt payload =
     (let p = dict_of payload in
      if mt = ''command'' then first_error
        [exact_fields payload [''action''] [''parameters''],
         node_str ''action'' (fld p ''action''),
         node_unless (str_of (fld p ''action'') \<in> set command_actions) ''unsupported command action'',
         node_when p ''parameters'' (\<lambda>v. node_unless (is_obj v) ''parameters must be an object'')]
      else if mt = ''status'' then validate_status payload
      else if mt = ''ack'' then first_error
        [exact_fields payload [''stage''] [''detail'', ''duplicate''],
         node_stage (fld p ''stage''),
         node_when p ''detail'' (node_str ''detail''),
         node_when p ''duplicate'' (node_bool ''duplicate'')]
      else if mt = ''nack'' then first_error
        [exact_fields payload [''reason''] [''stage''],
         node_string (fld p ''reason'') ''reason'',
         node_when p ''stage'' node_stage]
      else if mt = ''mission_begin'' \<or> mt = ''mission_commit'' then first_error
        [exact_fields payload [''mission_id'', ''item_count'', ''digest''] [],
         node_string (fld p ''mission_id'') ''mission_id'',
         node_item_count (fld p ''item_count''),
         node_digest (fld p ''digest'')]
      else if mt = ''mission_item'' then first_error
        [exact_fields payload [''mission_id'', ''index'', ''item''] [],
         node_string (fld p ''mission_id'') ''mission_id'',
         node_item_index (fld p ''index''),
         validate_node_item (fld p ''item'') (int_of (fld p ''index''))]
      else None)"

subsection \<open>Messages\<close>

definition canonical_json :: "json \<Rightarrow> node_exc + bytes" where
  "canonical_json v = (case dumps False v of
     None \<Rightarrow> Inl (NodeError ''message is not valid JSON'') | Some t \<Rightarrow> Inr (utf8 t))"

definition node_enum :: "json \<Rightarrow> string list \<Rightarrow> string \<Rightarrow> string \<Rightarrow> node_exc option" where
  "node_enum v allowed not_str invalid = first_error
     [node_unless (is_str v) not_str, node_unless (str_of v \<in> set allowed) invalid]"

definition validate_node_message :: "json \<Rightarrow> string option \<Rightarrow> node_exc option" where
  "validate_node_message message expected =
     (let m = dict_of message in first_error
       [node_unless (is_obj message) ''message must be an object'',
        node_unless (fst ` set m = set required_fields) ''invalid fields'',
        node_unless (fld m ''version'' = JInt protocol_version) ''unsupported version'',
        node_enum (fld m ''type'') message_types ''message type must be a string'' ''invalid message type'',
        node_enum (fld m ''source'') node_ids ''source must be a string'' ''invalid source'',
        node_enum (fld m ''target'') node_ids ''target must be a string'' ''invalid target'',
        node_unless (expected = None \<or> Some (str_of (fld m ''target'')) = expected)
          ''message target does not match receiver'',
        node_unless (is_str (fld m ''command_id'') \<and> uuid_parse (str_of (fld m ''command_id'')) \<noteq> None)
          ''command_id must be a UUID'',
        node_unless (is_int (fld m ''sequence'')) ''sequence must be an integer'',
        node_unless (0 \<le> int_of (fld m ''sequence'') \<and> int_of (fld m ''sequence'') \<le> 0xFFFFFFFF)
          ''sequence must fit uint32'',
        node_unless (is_number (fld m ''timestamp'')) ''timestamp must be a non-negative finite number'',
        unless (\<not> float_overflow (fld m ''timestamp''))
          (NodeEscape (OverflowError ''int too large to convert to float'')),
        node_unless (is_finite_num (fld m ''timestamp'') \<and> \<not> real_of (fld m ''timestamp'') < 0)
          ''timestamp must be a non-negative finite number'',
        node_unless (is_obj (fld m ''payload'')) ''payload must be an object'',
        validate_node_payload (str_of (fld m ''type'')) (fld m ''payload''),
        (case canonical_json message of Inl e \<Rightarrow> Some e | Inr _ \<Rightarrow> None)])"

definition make_node_message ::
  "json \<Rightarrow> json \<Rightarrow> json \<Rightarrow> json \<Rightarrow> json \<Rightarrow> json \<Rightarrow> json \<Rightarrow> node_exc + pydict" where
  "make_node_message mt source target cid sq ts payload =
     (let m = [(''version'', JInt protocol_version), (''type'', mt), (''source'', source), (''target'', target),
               (''command_id'', cid), (''sequence'', sq), (''timestamp'', ts), (''payload'', payload)]
      in case validate_node_message (JObj m) None of Some e \<Rightarrow> Inl e | None \<Rightarrow> Inr m)"

text \<open>The identity arguments every builder passes on\<close>

record node_identity =
  ni_source :: json
  ni_target :: json
  ni_command_id :: json
  ni_sequence :: json
  ni_timestamp :: json

definition make_with :: "string \<Rightarrow> pydict \<Rightarrow> node_identity \<Rightarrow> node_exc + pydict" where
  "make_with mt payload i = make_node_message (JStr mt) (ni_source i) (ni_target i) (ni_command_id i)
     (ni_sequence i) (ni_timestamp i) (JObj payload)"

definition opt_field :: "string \<Rightarrow> json option \<Rightarrow> pydict" where
  "opt_field k v = (case v of None \<Rightarrow> [] | Some w \<Rightarrow> [(k, w)])"

definition build_command_message :: "json \<Rightarrow> json option \<Rightarrow> node_identity \<Rightarrow> node_exc + pydict" where
  "build_command_message action parameters = make_with ''command''
     [(''action'', action), (''parameters'', case parameters of None \<Rightarrow> JObj [] | Some p \<Rightarrow> p)]"

definition build_status_message :: "json \<Rightarrow> pydict \<Rightarrow> node_identity \<Rightarrow> node_exc + pydict" where
  "build_status_message online extra = make_with ''status'' ((''online'', online) # extra)"

definition build_ack_message :: "json \<Rightarrow> json \<Rightarrow> json option \<Rightarrow> node_identity \<Rightarrow> node_exc + pydict" where
  "build_ack_message stage duplicate detail = make_with ''ack''
     ([(''stage'', stage), (''duplicate'', duplicate)] @ opt_field ''detail'' detail)"

definition build_nack_message :: "json \<Rightarrow> json option \<Rightarrow> node_identity \<Rightarrow> node_exc + pydict" where
  "build_nack_message reason stage = make_with ''nack'' ([(''reason'', reason)] @ opt_field ''stage'' stage)"

definition build_mission_begin_message :: "json \<Rightarrow> json \<Rightarrow> json \<Rightarrow> node_identity \<Rightarrow> node_exc + pydict" where
  "build_mission_begin_message mission_id item_count digest = make_with ''mission_begin''
     [(''mission_id'', mission_id), (''item_count'', item_count), (''digest'', digest)]"

definition build_mission_item_message :: "json \<Rightarrow> json \<Rightarrow> json \<Rightarrow> node_identity \<Rightarrow> node_exc + pydict" where
  "build_mission_item_message mission_id index item = make_with ''mission_item''
     [(''mission_id'', mission_id), (''index'', index), (''item'', item)]"

definition build_mission_commit_message :: "json \<Rightarrow> json \<Rightarrow> json \<Rightarrow> node_identity \<Rightarrow> node_exc + pydict" where
  "build_mission_commit_message mission_id item_count digest = make_with ''mission_commit''
     [(''mission_id'', mission_id), (''item_count'', item_count), (''digest'', digest)]"

definition encode_node_message :: "pydict \<Rightarrow> nat \<Rightarrow> node_exc + bytes" where
  "encode_node_message m max_bytes =
     (if max_bytes = 0 then Inl (NodeError ''max datagram size must be positive'')
      else case validate_node_message (JObj m) None of
        Some e \<Rightarrow> Inl e
      | None \<Rightarrow> (case canonical_json (JObj m) of
           Inl e \<Rightarrow> Inl e
         | Inr wire \<Rightarrow> if max_bytes < length wire then Inl (NodeError ''datagram exceeds size limit'') else Inr wire))"

definition decode_node_message :: "bytes \<Rightarrow> string option \<Rightarrow> nat \<Rightarrow> node_exc + pydict" where
  "decode_node_message wire expected max_bytes =
     (if max_bytes < length wire then Inl (NodeError ''datagram exceeds size limit'')
      else case Option.bind (utf8_decode wire) loads of
        None \<Rightarrow> Inl (NodeError ''datagram is not valid UTF-8 JSON'')
      | Some j \<Rightarrow> (case validate_node_message j expected of
           Some e \<Rightarrow> Inl e
         | None \<Rightarrow> Inr (dict_of j)))"

definition mission_digest :: "pydict list \<Rightarrow> node_exc + string" where
  "mission_digest items =
     (case canonical_json (JArr (map JObj items)) of Inl e \<Rightarrow> Inl e | Inr w \<Rightarrow> Inr (sha256_hex w))"

subsection \<open>What a validated message guarantees\<close>

lemma exact_fields_ok:
  "exact_fields v req opt = None \<longleftrightarrow>
    is_obj v \<and> (\<forall>k \<in> set req. has (dict_of v) k) \<and> fst ` set (dict_of v) \<subseteq> set req \<union> set opt"
  unfolding exact_fields_def first_error_None_iff has_iff_key node_unless_def by auto

lemma node_checks_ok:
  "node_unless ok msg = None \<longleftrightarrow> ok"
  "node_string v n = None \<longleftrightarrow> is_str v \<and> str_of v \<noteq> []"
  "node_item_count v = None \<longleftrightarrow> is_int v \<and> 0 \<le> int_of v \<and> int_of v \<le> 100"
  "node_item_index v = None \<longleftrightarrow> is_int v \<and> 0 \<le> int_of v \<and> int_of v < 100"
  "node_digest v = None \<longleftrightarrow> is_str v \<and> is_sha_hex (str_of v)"
  "node_bool n v = None \<longleftrightarrow> is_bool v"
  "node_str n v = None \<longleftrightarrow> is_str v"
  "node_enum v ss a b = None \<longleftrightarrow> is_str v \<and> str_of v \<in> set ss"
  "node_stage v = None \<longleftrightarrow> is_str v \<and> str_of v \<in> set transaction_stages"
  by (auto simp: node_unless_def node_string_def node_item_count_def node_item_index_def node_digest_def
      node_bool_def node_str_def node_enum_def node_stage_def first_error_None_iff)

lemma node_number_ok:
  "node_number v n lo hi = None \<longleftrightarrow> is_number v \<and> \<not> float_overflow v \<and> is_finite_num v \<and>
     (\<forall>l. lo = Some l \<longrightarrow> l \<le> real_of v) \<and> (\<forall>h. hi = Some h \<longrightarrow> real_of v \<le> h)"
  by (auto simp: node_number_def first_error_None_iff node_unless_def split: option.splits)

lemmas node_ok = first_error_None_iff exact_fields_ok node_checks_ok node_number_ok node_when_def Let_def

lemma validated_node_message:
  assumes "validate_node_message j expected = None"
  shows "is_obj j" and "fst ` set (dict_of j) = set required_fields"
    and "fld (dict_of j) ''version'' = JInt 1"
    and "\<exists>t. fld (dict_of j) ''type'' = JStr t \<and> t \<in> set message_types
      \<and> validate_node_payload t (fld (dict_of j) ''payload'') = None"
    and "is_str (fld (dict_of j) ''source'') \<and> str_of (fld (dict_of j) ''source'') \<in> set node_ids"
    and "is_str (fld (dict_of j) ''target'') \<and> str_of (fld (dict_of j) ''target'') \<in> set node_ids"
    and "\<And>t. expected = Some t \<Longrightarrow> fld (dict_of j) ''target'' = JStr t"
    and "is_str (fld (dict_of j) ''command_id'')" and "uuid_parse (str_of (fld (dict_of j) ''command_id'')) \<noteq> None"
    and "is_int (fld (dict_of j) ''sequence'')"
    and "0 \<le> int_of (fld (dict_of j) ''sequence'') \<and> int_of (fld (dict_of j) ''sequence'') \<le> 0xFFFFFFFF"
    and "0 \<le> real_of (fld (dict_of j) ''timestamp'')"
    and "is_obj (fld (dict_of j) ''payload'')"
    and "\<exists>w. canonical_json j = Inr w"
  using assms
  by (auto simp: validate_node_message_def node_ok protocol_version_def is_str_iff split: sum.splits)

lemma validated_node_command:
  "validate_node_payload ''command'' p = None \<Longrightarrow>
    is_str (fld (dict_of p) ''action'') \<and> str_of (fld (dict_of p) ''action'') \<in> set command_actions
    \<and> (has (dict_of p) ''parameters'' \<longrightarrow> is_obj (fld (dict_of p) ''parameters''))"
  by (simp add: validate_node_payload_def node_ok split: if_splits)

lemma validated_node_begin:
  "validate_node_payload mt p = None \<Longrightarrow> mt = ''mission_begin'' \<or> mt = ''mission_commit'' \<Longrightarrow>
    is_str (fld (dict_of p) ''mission_id'') \<and> str_of (fld (dict_of p) ''mission_id'') \<noteq> []
    \<and> is_int (fld (dict_of p) ''item_count'') \<and> 0 \<le> int_of (fld (dict_of p) ''item_count'')
    \<and> int_of (fld (dict_of p) ''item_count'') \<le> 100
    \<and> is_str (fld (dict_of p) ''digest'') \<and> is_sha_hex (str_of (fld (dict_of p) ''digest''))"
  by (auto simp: validate_node_payload_def node_ok)

lemma validated_node_item:
  "validate_node_payload ''mission_item'' p = None \<Longrightarrow>
    is_str (fld (dict_of p) ''mission_id'') \<and> is_int (fld (dict_of p) ''index'')
    \<and> 0 \<le> int_of (fld (dict_of p) ''index'') \<and> int_of (fld (dict_of p) ''index'') < 100
    \<and> is_obj (fld (dict_of p) ''item'')
    \<and> int_of (fld (dict_of (fld (dict_of p) ''item'')) ''index'') = int_of (fld (dict_of p) ''index'')"
  by (simp add: validate_node_payload_def validate_node_item_def node_ok)

subsection \<open>Validation does not depend on the order of keys\<close>

lemma node_checks_sorted [simp]:
  "node_string (sort_json v) n = node_string v n"
  "node_number (sort_json v) n lo hi = node_number v n lo hi"
  "node_item_count (sort_json v) = node_item_count v"
  "node_item_index (sort_json v) = node_item_index v"
  "node_digest (sort_json v) = node_digest v"
  "node_bool n (sort_json v) = node_bool n v"
  "node_str n (sort_json v) = node_str n v"
  "node_stage (sort_json v) = node_stage v"
  "node_enum (sort_json v) ss a b = node_enum v ss a b"
  by (simp_all add: node_string_def node_number_def node_item_count_def node_item_index_def node_digest_def
      node_bool_def node_str_def node_stage_def node_enum_def cong: option.case_cong)

lemma dict_of_sort_json: "is_obj v \<Longrightarrow> dict_of (sort_json v) = dict_sorted (dict_of v)"
  by (auto simp: is_obj_iff dict_sorted_def)

lemma exact_fields_sorted:
  "json_wf v \<Longrightarrow> exact_fields (sort_json v) req opt = None \<longleftrightarrow> exact_fields v req opt = None"
proof (cases v)
  case (JObj d)
  moreover assume "json_wf v"
  ultimately show ?thesis
    using keys_dict_sorted [of d] dict_sorted_access(1) [of d]
    by (simp add: exact_fields_ok sort_json_obj del: sort_json.simps)
qed (simp_all add: exact_fields_ok)

lemma fld_wf: "json_wf (JObj d) \<Longrightarrow> json_wf (fld d k)"
  by (auto simp: fld_def split: option.splits dest!: map_of_SomeD)

lemma dict_of_wf: "json_wf v \<Longrightarrow> distinct (map fst (dict_of v)) \<and> (\<forall>k. json_wf (fld (dict_of v) k))"
  using fld_wf by (cases v) (auto simp: fld_def)

lemma sorted_access:
  assumes "json_wf v" "is_obj v"
  shows "fld (dict_of (sort_json v)) k = sort_json (fld (dict_of v) k)"
    and "has (dict_of (sort_json v)) k = has (dict_of v) k"
    and "node_when (dict_of (sort_json v)) k c = node_when (dict_of v) k (\<lambda>w. c (sort_json w))"
  using dict_sorted_access [of "dict_of v" k] dict_of_wf [OF assms(1)]
  by (simp_all add: dict_of_sort_json [OF assms(2)] node_when_def)

end
