(* ===== verification/NodeRoundtrip.thy ===== *)
theory NodeRoundtrip
  imports NodeMessages
begin

text \<open>
  The node datagrams round-trip up to the order of keys, a decoded datagram is valid for its
  receiver, and an integer too large for a float escapes as another exception.
\<close>

lemma not_obj_exact: "\<not> is_obj v \<Longrightarrow> (exact_fields v req opt = None) = False"
  by (simp add: exact_fields_ok)

lemma validate_node_item_sorted:
  assumes "json_wf v"
  shows "validate_node_item (sort_json v) i = None \<longleftrightarrow> validate_node_item v i = None"
proof (cases "is_obj v")
  case True
  show ?thesis
    by (simp add: validate_node_item_def first_error_None_iff Let_def exact_fields_sorted [OF assms]
        sorted_access [OF assms True] comp_def)
next
  case False
  then show ?thesis
    by (simp add: validate_node_item_def first_error_None_iff Let_def not_obj_exact)
qed

lemma validated_status_objs:
  "validate_status v = None \<Longrightarrow> is_obj v \<and> is_obj (fld (dict_of v) ''event'')"
  by (simp add: validate_status_def Let_def first_error_None_iff exact_fields_ok)

lemma validate_status_sorted:
  assumes "json_wf v"
  shows "validate_status (sort_json v) = None \<longleftrightarrow> validate_status v = None"
proof (cases "is_obj v \<and> is_obj (fld (dict_of v) ''event'')")
  case True
  then have o: "is_obj v" and e: "is_obj (fld (dict_of v) ''event'')" by auto
  have w: "json_wf (fld (dict_of v) ''event'')" using dict_of_wf [OF assms] by blast
  show ?thesis
    by (simp add: validate_status_def first_error_None_iff Let_def exact_fields_sorted [OF assms]
        exact_fields_sorted [OF w] sorted_access [OF assms o] sorted_access [OF w e] node_unless_def)
next
  case False
  have "validate_status v \<noteq> None" using False validated_status_objs by blast
  moreover have "validate_status (sort_json v) \<noteq> None"
  proof
    assume "validate_status (sort_json v) = None"
    from validated_status_objs [OF this] have "is_obj v" "is_obj (fld (dict_of (sort_json v)) ''event'')" by simp_all
    then show False using False sorted_access(1) [OF assms] by simp
  qed
  ultimately show ?thesis by blast
qed

lemma message_type_cases:
  assumes "mt \<in> set message_types"
  obtains "mt = ''command''" | "mt = ''mission_begin''" | "mt = ''mission_item''" | "mt = ''mission_commit''"
    | "mt = ''ack''" | "mt = ''nack''" | "mt = ''status''"
proof -
  from assms consider "mt = ''command''" | "mt = ''mission_begin''" | "mt = ''mission_item''" | "mt = ''mission_commit''"
    | "mt = ''ack''" | "mt = ''nack''" | "mt = ''status''"
    unfolding message_types_def list.set insert_iff by (elim insertE disjE emptyE FalseE)
  then show thesis by cases (rule that; assumption)+
qed

lemma not_obj_status: "\<not> is_obj v \<Longrightarrow> validate_status v \<noteq> None"
  by (simp only: validate_status_def Let_def first_error_None_iff) (simp add: not_obj_exact)

lemma not_obj_payload:
  assumes "\<not> is_obj v" "mt \<in> set message_types"
  shows "validate_node_payload mt v \<noteq> None"
proof -
  note e = not_obj_exact [OF assms(1)]
  have f: "first_error (exact_fields v req opt # cs) \<noteq> None" for req opt cs
    using e [of req opt] by (cases "exact_fields v req opt") simp_all
  show ?thesis
    using assms(2)
  proof (cases rule: message_type_cases)
    case 7
    then show ?thesis using not_obj_status [OF assms(1)] by (simp add: validate_node_payload_def)
  qed (simp only: validate_node_payload_def Let_def, simp add: f del: first_error.simps not_None_eq)+
qed

lemma validate_node_payload_sorted:
  assumes "json_wf v" "mt \<in> set message_types"
  shows "validate_node_payload mt (sort_json v) = None \<longleftrightarrow> validate_node_payload mt v = None"
proof (cases "is_obj v")
  case True
  have w: "json_wf (fld (dict_of v) k)" for k using dict_of_wf [OF assms(1)] by blast
  show ?thesis
    using assms(2)
    by (cases rule: message_type_cases)
      (simp_all add: validate_node_payload_def first_error_None_iff Let_def
        exact_fields_sorted [OF assms(1)] sorted_access [OF assms(1) True]
        validate_status_sorted [OF assms(1)] validate_node_item_sorted [OF w] node_unless_def)
next
  case False
  then have "\<not> is_obj (sort_json v)" by simp
  with not_obj_payload [OF False assms(2)] not_obj_payload [OF _ assms(2)] show ?thesis by blast
qed

lemma canonical_json_ok: "json_ok v \<Longrightarrow> \<exists>w. canonical_json v = Inr w"
  using dumps_total [of v False] by (auto simp: canonical_json_def)

lemma validate_node_message_sorted:
  assumes ok: "json_ok v"
  shows "validate_node_message (sort_json v) t = None \<longleftrightarrow> validate_node_message v t = None"
proof (cases "is_obj v")
  case True
  have wf: "json_wf v" using json_ok_wf [OF ok] .
  have keys: "fst ` set (dict_of (sort_json v)) = fst ` set (dict_of v)"
    using keys_dict_sorted [of "dict_of v"] by (simp add: dict_of_sort_json [OF True])
  obtain w1 w2 where c: "canonical_json (sort_json v) = Inr w1" "canonical_json v = Inr w2"
    using canonical_json_ok [OF ok] canonical_json_ok [OF sort_json_ok [OF ok]] by blast
  have wp: "json_wf (fld (dict_of v) ''payload'')" using dict_of_wf [OF wf] by blast
  have ver: "sort_json (fld (dict_of v) ''version'') = JInt n \<longleftrightarrow> fld (dict_of v) ''version'' = JInt n" for n
    by (cases "fld (dict_of v) ''version''") simp_all
  have en: "node_enum j message_types a b = None \<Longrightarrow> str_of j \<in> set message_types" for j a b
    by (simp add: node_checks_ok)
  have pl: "node_enum (fld (dict_of v) ''type'') message_types a b = None \<Longrightarrow>
      validate_node_payload (str_of (fld (dict_of v) ''type'')) (sort_json (fld (dict_of v) ''payload'')) = None
      \<longleftrightarrow> validate_node_payload (str_of (fld (dict_of v) ''type'')) (fld (dict_of v) ''payload'') = None" for a b
    using validate_node_payload_sorted [OF wp en] by blast
  show ?thesis
    unfolding validate_node_message_def Let_def first_error_None_iff
    by (simp add: keys c sorted_access [OF wf True] ver node_unless_def pl cong: conj_cong)
next
  case False
  then show ?thesis by (simp add: validate_node_message_def first_error_None_iff node_unless_def Let_def)
qed

lemma node_decode_encode:
  assumes enc: "encode_node_message m n = Inr wire" and ok: "json_ok (JObj m)"
    and target: "expected = None \<or> (\<exists>t. expected = Some t \<and> fld m ''target'' = JStr t)"
  shows "decode_node_message wire expected n = Inr (dict_sorted m)"
proof -
  obtain t where t: "dumps False (JObj m) = Some t" "wire = utf8 t" and len: "length wire \<le> n"
    and val: "validate_node_message (JObj m) None = None"
    using enc by (auto simp: encode_node_message_def canonical_json_def split: if_splits option.splits sum.splits)
  have l: "Option.bind (utf8_decode wire) loads = Some (sort_json (JObj m))"
    using loads_dumps [OF ok t(1)] by (simp add: t(2) utf8_decode_utf8)
  have "validate_node_message (JObj m) expected = None"
    using val target by (auto simp: validate_node_message_def node_ok)
  then have "validate_node_message (sort_json (JObj m)) expected = None"
    using validate_node_message_sorted [OF ok] by blast
  then show ?thesis using len
    by (simp add: decode_node_message_def l dict_sorted_def del: sort_json.simps)
qed

subsection \<open>Properties\<close>

text \<open>C11: decoding an encoded node message at the receiver it is addressed to (or without a
  check of the target) gives the message back, with the keys of its objects in order.\<close>

theorem node_message_roundtrip:
  assumes "encode_node_message m n = Inr wire" and "json_ok (JObj m)"
    and "expected = None \<or> (\<exists>t. expected = Some t \<and> fld m ''target'' = JStr t)"
  shows "decode_node_message wire expected n = Inr (dict_sorted m)
    \<and> (\<forall>k. map_of (dict_sorted m) k = map_option sort_json (map_of m k))"
  using node_decode_encode [OF assms] assms(2) by (simp add: map_of_dict_sorted)

definition sample_node_message :: pydict where
  "sample_node_message =
     [(''version'', JInt 1), (''type'', JStr ''command''), (''source'', JStr ''rover''),
      (''target'', JStr ''aircraft_2''), (''command_id'', JStr (uuid_str 5)), (''sequence'', JInt 3),
      (''timestamp'', JInt 10), (''payload'', JObj [(''action'', JStr ''land'')])]"

lemma sample_node_message_facts:
  "json_ok (JObj sample_node_message)" "validate_node_message (JObj sample_node_message) None = None"
proof -
  show ok: "json_ok (JObj sample_node_message)" by (simp add: sample_node_message_def)
  obtain w where w: "canonical_json (JObj sample_node_message) = Inr w"
    using canonical_json_ok [OF ok] by blast
  have p: "validate_node_payload ''command'' (JObj [(''action'', JStr ''land'')]) = None"
    by (simp add: validate_node_payload_def node_ok command_actions_def)
  show "validate_node_message (JObj sample_node_message) None = None"
    unfolding validate_node_message_def Let_def first_error_None_iff
    using w p by (simp add: sample_node_message_def node_checks_ok required_fields_def protocol_version_def
        message_types_def node_ids_def real_of_def)
qed

theorem node_message_roundtrip_witness:
  "\<exists>wire n. encode_node_message sample_node_message n = Inr wire
     \<and> decode_node_message wire (Some ''aircraft_2'') n = Inr (dict_sorted sample_node_message)"
proof -
  obtain w where w: "canonical_json (JObj sample_node_message) = Inr w"
    using canonical_json_ok [OF sample_node_message_facts(1)] by blast
  have e: "encode_node_message sample_node_message (Suc (length w)) = Inr w"
    using w sample_node_message_facts(2) by (simp add: encode_node_message_def)
  have "fld sample_node_message ''target'' = JStr ''aircraft_2''" by (simp add: sample_node_message_def)
  with node_message_roundtrip [OF e sample_node_message_facts(1), of "Some ''aircraft_2''"] e show ?thesis
    by blast
qed

text \<open>C12: a datagram that \<open>decode_node_message\<close> accepts for a receiver passes the validation of that receiver: it is
  addressed to it, of version 1, from a known node, has
  exactly the eight fields, a known type, a parsable command id, a 32-bit sequence,
  a non-negative time and a payload that is valid for its type.\<close>

theorem node_message_decoded_valid:
  assumes "decode_node_message wire (Some me) n = Inr m"
  shows "validate_node_message (JObj m) (Some me) = None
    \<and> fld m ''target'' = JStr me \<and> me \<in> set node_ids \<and> fst ` set m = set required_fields
    \<and> fld m ''version'' = JInt 1 \<and> is_str (fld m ''source'') \<and> str_of (fld m ''source'') \<in> set node_ids
    \<and> (\<exists>t. fld m ''type'' = JStr t \<and> t \<in> set message_types \<and> validate_node_payload t (fld m ''payload'') = None)
    \<and> uuid_parse (str_of (fld m ''command_id'')) \<noteq> None
    \<and> 0 \<le> int_of (fld m ''sequence'') \<and> int_of (fld m ''sequence'') \<le> 0xFFFFFFFF
    \<and> 0 \<le> real_of (fld m ''timestamp'') \<and> length wire \<le> n"
proof -
  obtain j where j: "validate_node_message j (Some me) = None" "m = dict_of j" "length wire \<le> n"
    using assms by (auto simp: decode_node_message_def split: if_splits option.splits)
  note v = validated_node_message [OF j(1)]
  have "JObj m = j" using v(1) j(2) by (cases j) auto
  with j(1) have "validate_node_message (JObj m) (Some me) = None" by simp
  then show ?thesis using v(2-12) j(2,3) by auto
qed

theorem node_message_decoded_valid_witness:
  "\<exists>wire n m. decode_node_message wire (Some ''aircraft_2'') n = Inr m \<and> fld m ''target'' = JStr ''aircraft_2''
     \<and> validate_node_message (JObj m) (Some ''aircraft_2'') = None"
proof -
  obtain w where w: "canonical_json (JObj sample_node_message) = Inr w"
    using canonical_json_ok [OF sample_node_message_facts(1)] by blast
  have e: "encode_node_message sample_node_message (Suc (length w)) = Inr w"
    using w sample_node_message_facts(2) by (simp add: encode_node_message_def)
  have "fld sample_node_message ''target'' = JStr ''aircraft_2''" by (simp add: sample_node_message_def)
  with node_decode_encode [OF e sample_node_message_facts(1), of "Some ''aircraft_2''"]
  have d: "decode_node_message w (Some ''aircraft_2'') (Suc (length w)) = Inr (dict_sorted sample_node_message)" by blast
  from node_message_decoded_valid [OF d] d show ?thesis by blast
qed

text \<open>A datagram that is valid but for a timestamp too large for a float is not refused with
  \<open>NodeMessageError\<close>: \<open>decode_node_message\<close> lets the OverflowError of \<open>math.isfinite\<close> escape,
  whoever sent it.\<close>

theorem node_message_overflow_escapes:
  assumes "validate_node_message (JObj (AList.update ''timestamp'' (JInt 0) m)) expected = None"
    and "json_ok (JObj m)" and "map_of m ''timestamp'' = Some (JInt i)" and "float_overflow (JInt i)"
    and "dumps False (JObj m) = Some t" and "length (utf8 t) \<le> n"
  shows "decode_node_message (utf8 t) expected n
    = Inl (NodeEscape (OverflowError ''int too large to convert to float''))"
proof -
  let ?u = "AList.update ''timestamp'' (JInt 0) m"
  let ?d = "dict_sorted m"
  have l: "Option.bind (utf8_decode (utf8 t)) loads = Some (JObj ?d)"
    using loads_dumps [OF assms(2,5)] by (simp only: sort_json_obj utf8_decode_utf8 bind.simps)
  have dm: "distinct (map fst m)" using assms(2) by simp
  have f: "fld ?d k = sort_json (fld m k)" for k
    using dict_sorted_access(2) dm by simp
  have fu: "fld ?u k = (if k = ''timestamp'' then JInt 0 else fld m k)" for k by (simp add: fld_def)
  have keys: "fst ` set ?d = fst ` set m"
    using keys_dict_sorted [of m] by simp
  have ku: "fst ` set ?u = insert ''timestamp'' (fst ` set m)"
    using dom_update [of "''timestamp''" "JInt 0" m] by (simp add: dom_map_of_conv_image_fst [symmetric])
  have kt: "''timestamp'' \<in> fst ` set m" using assms(3) by (force dest: map_of_SomeD)
  note v = validated_node_message [OF assms(1), simplified, unfolded fu, simplified]
  have ts: "fld ?d ''timestamp'' = JInt i" using f [of "''timestamp''"] fld_map_of [OF assms(3)] by simp
  have "validate_node_message (JObj ?d) expected
      = Some (NodeEscape (OverflowError ''int too large to convert to float''))"
  proof -
    have tg: "expected = None \<or> Some (str_of (fld m ''target'')) = expected"
      using v(7) by (cases expected) auto
    have e: "fst ` set ?d = set required_fields" using v(2) ku kt keys by (metis insert_absorb)
    show ?thesis
      unfolding validate_node_message_def Let_def
      using v(3-6,8-11) tg e ts assms(4)
      by (auto simp: first_error_Cons node_unless_def node_enum_def f protocol_version_def
          unless_def simp del: float_overflow.simps)
  qed
  then show ?thesis using assms(6) by (simp add: decode_node_message_def l)
qed

definition poison_node_message :: pydict where
  "poison_node_message = AList.update ''timestamp'' (JInt poison_number) sample_node_message"

theorem node_message_overflow_escapes_witness:
  "\<exists>t. dumps False (JObj poison_node_message) = Some t \<and>
     decode_node_message (utf8 t) (Some ''aircraft_2'') (length (utf8 t))
       = Inl (NodeEscape (OverflowError ''int too large to convert to float''))"
proof -
  have ok: "json_ok (JObj poison_node_message)"
    using sample_node_message_facts(1) by (simp add: poison_node_message_def sample_node_message_def)
  obtain t where t: "dumps False (JObj poison_node_message) = Some t" using dumps_total [OF ok] by blast
  have z: "json_ok (JObj (AList.update ''timestamp'' (JInt 0) poison_node_message))"
    by (simp add: poison_node_message_def sample_node_message_def)
  obtain w where w: "canonical_json (JObj (AList.update ''timestamp'' (JInt 0) poison_node_message)) = Inr w"
    using canonical_json_ok [OF z] by blast
  have p: "validate_node_payload ''command'' (JObj [(''action'', JStr ''land'')]) = None"
    by (simp add: validate_node_payload_def node_ok command_actions_def)
  have val: "validate_node_message (JObj (AList.update ''timestamp'' (JInt 0) poison_node_message))
      (Some ''aircraft_2'') = None"
    unfolding validate_node_message_def Let_def first_error_None_iff
    using w p by (simp add: poison_node_message_def sample_node_message_def node_checks_ok required_fields_def
        protocol_version_def message_types_def node_ids_def real_of_def)
  have "map_of poison_node_message ''timestamp'' = Some (JInt poison_number)"
    by (simp add: poison_node_message_def)
  from node_message_overflow_escapes [OF val ok this poison_number_facts(1) t order_refl] t show ?thesis by blast
qed

end
