(* ===== verification/Inbox.thy ===== *)
theory Inbox
  imports Frame
begin

text \<open>
  \<open>aircraft_agent/state_store.py\<close> and \<open>aircraft_agent/inbox.py\<close>: the crash-safe JSON file
  and the durable inbox of the aircraft, which deduplicates frames, stages missions, queues
  the jobs for the command worker and remembers their results.
\<close>

subsection \<open>\<open>AtomicJsonStore\<close>\<close>

text \<open>
  The two paths the store writes. \<open>save\<close> writes the temporary file, syncs it, renames it over
  the target and syncs the directory; a crash stops it after some of these steps, in the middle
  of the write too.
\<close>

record store_files =
  target_file :: "bytes option"
  temp_file :: "bytes option"

datatype save_step = OpenTemp | WriteTemp nat | FsyncFile | ReplaceTarget | FsyncDirectory

definition encode_state :: "nat \<Rightarrow> json \<Rightarrow> pyexc + bytes" where
  "encode_state max_bytes v =
     (case dumps False v of
        None \<Rightarrow> Inl (ValueError ''Out of range float values are not JSON compliant'')
      | Some t \<Rightarrow> if max_bytes < length (utf8 t) then Inl (ValueError ''state size exceeds limit'')
                  else Inr (utf8 t))"

definition store_step :: "bytes \<Rightarrow> save_step \<Rightarrow> store_files \<Rightarrow> store_files" where
  "store_step raw st fs = (case st of
     OpenTemp \<Rightarrow> fs\<lparr>temp_file := Some []\<rparr>
   | WriteTemp n \<Rightarrow> fs\<lparr>temp_file := Some (take n raw)\<rparr>
   | FsyncFile \<Rightarrow> fs
   | ReplaceTarget \<Rightarrow> fs\<lparr>target_file := temp_file fs, temp_file := None\<rparr>
   | FsyncDirectory \<Rightarrow> fs)"

text \<open>The steps of one \<open>save\<close>; the write may reach the disk in two parts\<close>

definition save_steps :: "bytes \<Rightarrow> nat \<Rightarrow> save_step list" where
  "save_steps raw part = [OpenTemp, WriteTemp part, WriteTemp (length raw), FsyncFile, ReplaceTarget, FsyncDirectory]"

definition store_save_until :: "nat \<Rightarrow> nat \<Rightarrow> bytes \<Rightarrow> store_files \<Rightarrow> store_files" where
  "store_save_until k part raw fs = fold (store_step raw) (take k (save_steps raw part)) fs"

definition store_load :: "nat \<Rightarrow> json \<Rightarrow> store_files \<Rightarrow> pyexc + json" where
  "store_load max_bytes default_value fs =
     (case target_file fs of
        None \<Rightarrow> Inr default_value
      | Some raw \<Rightarrow>
          if max_bytes < length raw then Inl (ValueError ''persisted state exceeds state size limit'')
          else (case Option.bind (utf8_decode raw) loads of
             None \<Rightarrow> Inl (ValueError ''invalid JSON'')
           | Some v \<Rightarrow> if is_obj v then Inr v else Inl (ValueError ''persisted state must be an object'')))"

subsection \<open>The state of the inbox\<close>

text \<open>
  The \<open>_state\<close> dictionary: the active job, the queue, the staged missions by key, the seen
  frames and the results. A staged mission keeps its items by index.
\<close>

datatype job =
    CommandJob string string json
  | MissionJob string string "json list" string

fun job_command_id :: "job \<Rightarrow> string" where
  "job_command_id (CommandJob c a p) = c"
| "job_command_id (MissionJob c m items ck) = c"

record staged =
  st_command_id :: string
  st_mission_id :: json
  st_item_count :: int
  st_vehicle :: json
  st_checksum :: json
  st_items :: "(int \<times> pydict) list"

record seen_entry =
  se_id :: string
  se_fingerprint :: string
  se_stage :: string

record outcome =
  o_command_id :: string
  o_stage :: string
  o_detail :: string
  o_extra :: pydict

record inbox_state =
  i_active :: "job option"
  i_queue :: "job list"
  i_staged :: "(string \<times> staged) list"
  i_seen :: "seen_entry list"
  i_results :: "outcome list"

record inbox_limits =
  max_queue :: nat
  max_history :: nat
  max_staged :: nat
  max_resume_items :: nat
  max_results :: nat

datatype inbox_exc = InboxRejected string "int list" | InboxPy pyexc | InboxSaveFailed

text \<open>
  What \<open>store.save\<close> does: it returns, it raises before the rename or after it (the sync of the
  directory can fail when the new file is in place already).
\<close>

datatype save_result = Saved | FailedBefore | FailedAfter

record inbox =
  mem :: inbox_state
  disk :: inbox_state

definition persist :: "save_result \<Rightarrow> inbox \<Rightarrow> inbox_state \<Rightarrow> bool \<times> inbox" where
  "persist sv b st = (case sv of
     Saved \<Rightarrow> (True, b\<lparr>mem := st, disk := st\<rparr>)
   | FailedBefore \<Rightarrow> (False, b)
   | FailedAfter \<Rightarrow> (False, b\<lparr>disk := st\<rparr>))"

definition empty_inbox :: inbox_state where
  "empty_inbox = \<lparr>i_active = None, i_queue = [], i_staged = [], i_seen = [], i_results = []\<rparr>"

definition validate_loaded :: "inbox_limits \<Rightarrow> inbox_state \<Rightarrow> pyexc option" where
  "validate_loaded lm st = first_error
     [unless (length (i_queue st) \<le> max_queue lm) (ValueError ''persisted queue exceeds limit''),
      unless (length (i_staged st) \<le> max_staged lm) (ValueError ''persisted staging exceeds limit''),
      unless (length (i_seen st) \<le> max_history lm) (ValueError ''persisted history exceeds limit''),
      unless (length (i_results st) \<le> max_results lm) (ValueError ''persisted results exceed limit'')]"

definition inbox_init :: "inbox_limits \<Rightarrow> inbox_state option \<Rightarrow> pyexc + inbox" where
  "inbox_init lm stored =
     (if max_queue lm < 1 \<or> max_history lm < 1 \<or> max_staged lm < 1 \<or> max_resume_items lm < 1 \<or> max_results lm < 1
        then Inl (ValueError ''limit must be positive'')
      else
        let st = (case stored of None \<Rightarrow> empty_inbox | Some st \<Rightarrow> st) in
        case validate_loaded lm st of Some e \<Rightarrow> Inl e | None \<Rightarrow> Inr \<lparr>mem = st, disk = st\<rparr>)"

subsection \<open>Keys and fingerprints\<close>

definition frame_identity :: "frame \<Rightarrow> string" where
  "frame_identity f = uuid_str (f_command_id f) @ '':'' @ show_nat (f_sequence f)"

definition mission_key :: "uuid \<Rightarrow> string \<Rightarrow> string" where
  "mission_key cid mid = uuid_str cid @ '':'' @ mid"

text \<open>\<open>json.dumps\<close> with ASCII output, which raises ValueError on a non-finite float\<close>

definition ascii_digest :: "json \<Rightarrow> inbox_exc + string" where
  "ascii_digest v = (case dumps True v of
     None \<Rightarrow> Inl (InboxPy (ValueError ''Out of range float values are not JSON compliant''))
   | Some t \<Rightarrow> Inr (sha256_hex (utf8 t)))"

definition fingerprint :: "frame \<Rightarrow> inbox_exc + string" where
  "fingerprint f = ascii_digest (JObj
     [(''type'', JInt (int (type_code (f_type f)))), (''command_id'', JStr (uuid_str (f_command_id f))),
      (''sequence'', JInt (int (f_sequence f))), (''payload'', JObj (f_payload f))])"

subsection \<open>Staging and queueing\<close>

definition command_record :: "frame \<Rightarrow> job" where
  "command_record f = CommandJob (uuid_str (f_command_id f)) (str_of (fld (f_payload f) ''action''))
     (get_or (f_payload f) ''parameters'' (JObj []))"

definition enqueue :: "inbox_limits \<Rightarrow> job \<Rightarrow> inbox_state \<Rightarrow> inbox_exc + inbox_state" where
  "enqueue lm j st =
     (if i_active st = None then Inr (st\<lparr>i_active := Some j\<rparr>)
      else if max_queue lm \<le> length (i_queue st) then Inl (InboxRejected ''queue_full'' [])
      else Inr (st\<lparr>i_queue := i_queue st @ [j]\<rparr>))"

definition frame_key :: "frame \<Rightarrow> string" where
  "frame_key f = mission_key (f_command_id f) (str_of (fld (f_payload f) ''mission_id''))"

definition stage_begin :: "inbox_limits \<Rightarrow> frame \<Rightarrow> inbox_state \<Rightarrow> inbox_exc + inbox_state" where
  "stage_begin lm f st =
     (let candidate = \<lparr>st_command_id = uuid_str (f_command_id f), st_mission_id = fld (f_payload f) ''mission_id'',
            st_item_count = int_of (fld (f_payload f) ''item_count''), st_vehicle = fld (f_payload f) ''vehicle'',
            st_checksum = get_or (f_payload f) ''checksum'' (JStr []), st_items = []\<rparr>
      in case map_of (i_staged st) (frame_key f) of
           Some m \<Rightarrow> if m\<lparr>st_items := []\<rparr> \<noteq> candidate then Inl (InboxRejected ''mission_begin_conflict'' []) else Inr st
         | None \<Rightarrow>
             if max_staged lm \<le> length (i_staged st) then Inl (InboxRejected ''staging_full'' [])
             else Inr (st\<lparr>i_staged := AList.update (frame_key f) candidate (i_staged st)\<rparr>))"

definition stage_item :: "frame \<Rightarrow> inbox_state \<Rightarrow> inbox_exc + inbox_state" where
  "stage_item f st =
     (case map_of (i_staged st) (frame_key f) of
        None \<Rightarrow> Inl (InboxRejected ''mission_not_found'' [])
      | Some m \<Rightarrow>
          let index = int_of (fld (f_payload f) ''index'') in
          if st_item_count m \<le> index then Inl (InboxRejected ''item_out_of_range'' [])
          else if (case map_of (st_items m) index of None \<Rightarrow> False | Some p \<Rightarrow> \<not> dict_eq p (f_payload f))
            then Inl (InboxRejected ''mission_item_conflict'' [])
          else Inr (st\<lparr>i_staged := AList.update (frame_key f)
                 (m\<lparr>st_items := AList.update index (f_payload f) (st_items m)\<rparr>) (i_staged st)\<rparr>))"

text \<open>\<open>resume\<close>: the first missing indices of a staged mission\<close>

definition staged_missing :: "inbox_limits \<Rightarrow> staged \<Rightarrow> int list" where
  "staged_missing lm m = take (max_resume_items lm)
     (filter (\<lambda>i. map_of (st_items m) i = None) [0..st_item_count m - 1])"

definition inbox_resume :: "inbox_limits \<Rightarrow> inbox_state \<Rightarrow> uuid \<Rightarrow> string \<Rightarrow> inbox_exc + int list" where
  "inbox_resume lm st cid mid = (case map_of (i_staged st) (mission_key cid mid) of
     None \<Rightarrow> Inl (InboxRejected ''mission_not_found'' []) | Some m \<Rightarrow> Inr (staged_missing lm m))"

definition staged_list :: "staged \<Rightarrow> json list" where
  "staged_list m = map (\<lambda>i. JObj (case map_of (st_items m) i of Some p \<Rightarrow> p | None \<Rightarrow> [])) [0..st_item_count m - 1]"

text \<open>Python's \<open>a or b\<close> on strings\<close>

definition str_or :: "string \<Rightarrow> string \<Rightarrow> string" where
  "str_or a b = (if a = [] then b else a)"

definition stage_commit :: "inbox_limits \<Rightarrow> frame \<Rightarrow> inbox_state \<Rightarrow> inbox_exc + inbox_state" where
  "stage_commit lm f st =
     (case map_of (i_staged st) (frame_key f) of
        None \<Rightarrow> Inl (InboxRejected ''mission_not_found'' [])
      | Some m \<Rightarrow>
          if int_of (fld (f_payload f) ''item_count'') \<noteq> st_item_count m
            then Inl (InboxRejected ''count_mismatch'' [])
          else if staged_missing lm m \<noteq> [] then Inl (InboxRejected ''missing_items'' (staged_missing lm m))
          else (case ascii_digest (JArr (staged_list m)) of
               Inl e \<Rightarrow> Inl e
             | Inr checksum \<Rightarrow>
                 let expected = str_or (str_of (get_or (f_payload f) ''checksum'' (JStr []))) (str_of (st_checksum m)) in
                 if expected = [] \<or> checksum \<noteq> expected then Inl (InboxRejected ''checksum_mismatch'' [])
                 else map_sum id (\<lambda>st'. st'\<lparr>i_staged := AList.delete (frame_key f) (i_staged st')\<rparr>)
                   (enqueue lm (MissionJob (uuid_str (f_command_id f)) (str_of (fld (f_payload f) ''mission_id''))
                      (staged_list m) checksum) st)))"

subsection \<open>\<open>accept\<close>\<close>

record inbox_result =
  ir_acked_sequence :: nat
  ir_stage :: string
  ir_duplicate :: bool

definition apply_frame :: "inbox_limits \<Rightarrow> frame \<Rightarrow> inbox_state \<Rightarrow> inbox_exc + string \<times> inbox_state" where
  "apply_frame lm f st = (case f_type f of
     COMMAND \<Rightarrow> map_sum id (Pair ''COMMAND_STAGED'') (enqueue lm (command_record f) st)
   | MISSION_BEGIN \<Rightarrow> map_sum id (Pair ''MISSION_STAGING'') (stage_begin lm f st)
   | MISSION_ITEM \<Rightarrow> map_sum id (Pair ''MISSION_STAGING'') (stage_item f st)
   | MISSION_COMMIT \<Rightarrow> map_sum id (Pair ''MISSION_STAGED'') (stage_commit lm f st)
   | _ \<Rightarrow> Inl (InboxRejected ''unsupported_message'' []))"

definition remember :: "inbox_limits \<Rightarrow> string \<Rightarrow> string \<Rightarrow> string \<Rightarrow> inbox_state \<Rightarrow> inbox_state" where
  "remember lm ident fp stage st = st\<lparr>i_seen := last_n (max_history lm)
     (i_seen st @ [\<lparr>se_id = ident, se_fingerprint = fp, se_stage = stage\<rparr>])\<rparr>"

definition inbox_accept :: "inbox_limits \<Rightarrow> save_result \<Rightarrow> inbox \<Rightarrow> frame \<Rightarrow> (inbox_exc + inbox_result) \<times> inbox" where
  "inbox_accept lm sv b f =
     (case validate_payload (f_type f) (JObj (f_payload f)) of
        Some e \<Rightarrow> (Inl (InboxPy e), b)
      | None \<Rightarrow>
          (case fingerprint f of
             Inl e \<Rightarrow> (Inl e, b)
           | Inr fp \<Rightarrow>
               (case find (\<lambda>s. se_id s = frame_identity f) (i_seen (mem b)) of
                  Some s \<Rightarrow>
                    if se_fingerprint s \<noteq> fp then (Inl (InboxRejected ''duplicate_conflict'' []), b)
                    else (Inr \<lparr>ir_acked_sequence = f_sequence f, ir_stage = se_stage s, ir_duplicate = True\<rparr>, b)
                | None \<Rightarrow>
                    (case apply_frame lm f (mem b) of
                       Inl e \<Rightarrow> (Inl e, b)
                     | Inr (stage, st) \<Rightarrow>
                         (case persist sv b (remember lm (frame_identity f) fp stage st) of
                            (True, b') \<Rightarrow> (Inr \<lparr>ir_acked_sequence = f_sequence f, ir_stage = stage, ir_duplicate = False\<rparr>, b')
                          | (False, b') \<Rightarrow> (Inl InboxSaveFailed, b'))))))"

subsection \<open>Finishing the active job\<close>

definition next_job :: "inbox_state \<Rightarrow> inbox_state" where
  "next_job st = (case i_queue st of
     [] \<Rightarrow> st\<lparr>i_active := None\<rparr> | j # js \<Rightarrow> st\<lparr>i_active := Some j, i_queue := js\<rparr>)"

text \<open>\<open>complete_active\<close>: the memory has changed by the time the save can fail\<close>

definition complete_active :: "save_result \<Rightarrow> inbox \<Rightarrow> (inbox_exc + job option) \<times> inbox" where
  "complete_active sv b =
     (case i_active (mem b) of
        None \<Rightarrow> (Inr None, b)
      | Some j \<Rightarrow>
          let st = next_job (mem b) in
          (case sv of
             Saved \<Rightarrow> (Inr (Some j), b\<lparr>mem := st, disk := st\<rparr>)
           | FailedBefore \<Rightarrow> (Inl InboxSaveFailed, b\<lparr>mem := st\<rparr>)
           | FailedAfter \<Rightarrow> (Inl InboxSaveFailed, b\<lparr>mem := st, disk := st\<rparr>)))"

definition finish_active :: "inbox_limits \<Rightarrow> save_result \<Rightarrow> inbox \<Rightarrow> string \<Rightarrow> string \<Rightarrow> pydict \<Rightarrow>
    (inbox_exc + outcome) \<times> inbox" where
  "finish_active lm sv b stage detail extra =
     (case i_active (mem b) of
        None \<Rightarrow> (Inl (InboxRejected ''no_active_command'' []), b)
      | Some j \<Rightarrow>
          let r = \<lparr>o_command_id = job_command_id j, o_stage = stage, o_detail = take 256 detail, o_extra = extra\<rparr>;
              st = next_job (mem b)
          in (case persist sv b (st\<lparr>i_results := last_n (max_results lm) (i_results st @ [r])\<rparr>) of
                (True, b') \<Rightarrow> (Inr r, b')
              | (False, b') \<Rightarrow> (Inl InboxSaveFailed, b')))"

end
