(* ===== verification/InboxProps.thy ===== *)
theory InboxProps
  imports Inbox FrameRoundtrip
begin

text \<open>
  The durable inbox: atomic saves, bounds in every reachable state, acknowledged frames survive
  a restart, jobs leave in the order they were accepted, and a queued mission is complete.
\<close>

subsection \<open>The store\<close>

lemma save_until_target:
  "target_file (store_save_until k part raw fs) = target_file fs
   \<or> target_file (store_save_until k part raw fs) = Some raw"
proof -
  consider "k = 0" | "k = 1" | "k = 2" | "k = 3" | "k = 4" | "k = 5" | "6 \<le> k" by linarith
  then show ?thesis
  proof cases
    case 7
    then have "take k (save_steps raw part) = save_steps raw part" by (simp add: save_steps_def)
    then show ?thesis by (simp add: store_save_until_def store_step_def save_steps_def)
  qed (simp_all add: store_save_until_def store_step_def save_steps_def numeral_eq_Suc)
qed

lemma load_saved:
  assumes "json_ok v" "is_obj v" "encode_state n v = Inr raw" "target_file fs = Some raw"
  shows "store_load n d fs = Inr (sort_json v)"
proof -
  obtain t where t: "dumps False v = Some t" "raw = utf8 t" "length raw \<le> n"
    using assms(3) by (auto simp: encode_state_def split: option.splits if_splits)
  have "Option.bind (utf8_decode raw) loads = Some (sort_json v)"
    using loads_dumps [OF assms(1) t(1)] by (simp add: t(2) utf8_decode_utf8)
  then show ?thesis using assms(2,4) t(3) by (simp add: store_load_def)
qed

subsection \<open>Invariant\<close>

definition jobs :: "inbox_state \<Rightarrow> job list" where
  "jobs st = (case i_active st of None \<Rightarrow> [] | Some j \<Rightarrow> [j]) @ i_queue st"

definition limits_ok :: "inbox_limits \<Rightarrow> bool" where
  "limits_ok lm \<longleftrightarrow> 1 \<le> max_queue lm \<and> 1 \<le> max_history lm \<and> 1 \<le> max_staged lm
     \<and> 1 \<le> max_resume_items lm \<and> 1 \<le> max_results lm"

definition state_inv :: "inbox_limits \<Rightarrow> inbox_state \<Rightarrow> bool" where
  "state_inv lm st \<longleftrightarrow> (i_active st = None \<longrightarrow> i_queue st = []) \<and> length (i_queue st) \<le> max_queue lm
     \<and> length (i_staged st) \<le> max_staged lm \<and> length (i_seen st) \<le> max_history lm
     \<and> length (i_results st) \<le> max_results lm"

definition inbox_inv :: "inbox_limits \<Rightarrow> inbox \<Rightarrow> bool" where
  "inbox_inv lm b \<longleftrightarrow> state_inv lm (mem b) \<and> state_inv lm (disk b)"

lemma enqueue_ok:
  "enqueue lm j st = Inr st' \<Longrightarrow> state_inv lm st \<Longrightarrow> state_inv lm st' \<and> jobs st' = jobs st @ [j]
    \<and> i_staged st' = i_staged st \<and> i_seen st' = i_seen st"
  by (auto simp: enqueue_def state_inv_def jobs_def split: if_splits option.splits)

lemma stage_begin_ok:
  "stage_begin lm f st = Inr st' \<Longrightarrow> state_inv lm st \<Longrightarrow> state_inv lm st' \<and> jobs st' = jobs st \<and> i_seen st' = i_seen st"
  by (auto simp: stage_begin_def Let_def state_inv_def jobs_def length_update_absent split: if_splits option.splits)

lemma stage_item_ok:
  "stage_item f st = Inr st' \<Longrightarrow> state_inv lm st \<Longrightarrow> state_inv lm st' \<and> jobs st' = jobs st \<and> i_seen st' = i_seen st"
  by (auto simp: stage_item_def Let_def state_inv_def jobs_def length_update_present split: if_splits option.splits)

definition commit_job :: "frame \<Rightarrow> staged \<Rightarrow> string \<Rightarrow> job" where
  "commit_job f m ck = MissionJob (uuid_str (f_command_id f)) (str_of (fld (f_payload f) ''mission_id'')) (staged_list m) ck"

lemma stage_commit_shape:
  assumes "stage_commit lm f st = Inr st'" "state_inv lm st" "limits_ok lm"
  obtains m ck where "map_of (i_staged st) (frame_key f) = Some m"
    "int_of (fld (f_payload f) ''item_count'') = st_item_count m"
    "\<forall>i. 0 \<le> i \<and> i < st_item_count m \<longrightarrow> map_of (st_items m) i \<noteq> None"
    "ascii_digest (JArr (staged_list m)) = Inr ck" "ck \<noteq> []"
    "ck = str_or (str_of (get_or (f_payload f) ''checksum'' (JStr []))) (str_of (st_checksum m))"
    "jobs st' = jobs st @ [commit_job f m ck]" "state_inv lm st'" "i_seen st' = i_seen st"
    "i_staged st' = AList.delete (frame_key f) (i_staged st)"
proof -
  obtain m where m: "map_of (i_staged st) (frame_key f) = Some m"
    and cnt: "int_of (fld (f_payload f) ''item_count'') = st_item_count m" and miss: "staged_missing lm m = []"
    using assms(1) by (auto simp: stage_commit_def split: option.splits if_splits)
  obtain ck where ck: "ascii_digest (JArr (staged_list m)) = Inr ck"
    using assms(1) m cnt miss by (auto simp: stage_commit_def split: sum.splits)
  let ?ex = "str_or (str_of (get_or (f_payload f) ''checksum'' (JStr []))) (str_of (st_checksum m))"
  have e: "?ex \<noteq> []" "ck = ?ex"
    and st: "map_sum id (\<lambda>st'. st'\<lparr>i_staged := AList.delete (frame_key f) (i_staged st')\<rparr>)
      (enqueue lm (commit_job f m ck) st) = Inr st'"
    using assms(1) m cnt miss ck
    by (auto simp: stage_commit_def Let_def commit_job_def split: if_splits)
  obtain st1 where s1: "enqueue lm (commit_job f m ck) st = Inr st1"
    and st': "st' = st1\<lparr>i_staged := AList.delete (frame_key f) (i_staged st1)\<rparr>"
    using st by (cases "enqueue lm (commit_job f m ck) st") auto
  have ok: "state_inv lm st1" "jobs st1 = jobs st @ [commit_job f m ck]"
    "i_staged st1 = i_staged st" "i_seen st1 = i_seen st"
    using enqueue_ok [OF s1 assms(2)] by simp_all
  have all: "\<forall>i. 0 \<le> i \<and> i < st_item_count m \<longrightarrow> map_of (st_items m) i \<noteq> None"
    using miss assms(3) by (auto simp: staged_missing_def limits_ok_def filter_empty_conv)
  have "length (AList.delete (frame_key f) (i_staged st)) \<le> max_staged lm"
    using assms(2) length_delete_le [of "frame_key f" "i_staged st"] by (simp add: state_inv_def)
  then have "state_inv lm st'" using ok by (simp add: st' state_inv_def)
  moreover have "jobs st' = jobs st @ [commit_job f m ck]" "i_seen st' = i_seen st"
    "i_staged st' = AList.delete (frame_key f) (i_staged st)"
    using ok by (simp_all add: st' jobs_def)
  ultimately show thesis using that m cnt all ck e by metis
qed

text \<open>What a frame adds to the job list\<close>

lemma apply_frame_ok:
  assumes "apply_frame lm f st = Inr (stage, st')" "state_inv lm st" "limits_ok lm"
  shows "state_inv lm st'" and "i_seen st' = i_seen st" and "\<exists>js. jobs st' = jobs st @ js"
proof -
  have "state_inv lm st' \<and> i_seen st' = i_seen st \<and> (\<exists>js. jobs st' = jobs st @ js)"
  proof (cases "f_type f")
    case COMMAND
    then show ?thesis using assms enqueue_ok [of lm "command_record f" st]
      by (cases "enqueue lm (command_record f) st") (auto simp: apply_frame_def)
  next
    case MISSION_BEGIN
    then show ?thesis using assms stage_begin_ok [of lm f st]
      by (cases "stage_begin lm f st") (auto simp: apply_frame_def)
  next
    case MISSION_ITEM
    then show ?thesis using assms stage_item_ok [of f st _ lm]
      by (cases "stage_item f st") (auto simp: apply_frame_def)
  next
    case MISSION_COMMIT
    then obtain s where s: "stage_commit lm f st = Inr s" "st' = s"
      using assms(1) by (cases "stage_commit lm f st") (auto simp: apply_frame_def)
    show ?thesis unfolding s(2) by (rule stage_commit_shape [OF s(1) assms(2,3)]) auto
  qed (use assms in \<open>auto simp: apply_frame_def\<close>)
  then show "state_inv lm st'" "i_seen st' = i_seen st" "\<exists>js. jobs st' = jobs st @ js" by auto
qed

lemma remember_ok:
  "state_inv lm st \<Longrightarrow> state_inv lm (remember lm i fp sg st)"
  "jobs (remember lm i fp sg st) = jobs st"
  by (simp_all add: remember_def state_inv_def jobs_def)

lemma next_job_ok: "state_inv lm st \<Longrightarrow> state_inv lm (next_job st)" "jobs (next_job st) = tl (jobs st) \<or> i_active st = None"
  by (auto simp: next_job_def state_inv_def jobs_def split: list.splits option.splits)

lemma persist_inv:
  "persist sv b st = (r, b') \<Longrightarrow> inbox_inv lm b \<Longrightarrow> state_inv lm st \<Longrightarrow> inbox_inv lm b'"
  by (auto simp: persist_def inbox_inv_def split: save_result.splits)

text \<open>One accepted frame, in the three ways it can end\<close>

lemma inbox_accept_cases:
  assumes "inbox_accept lm sv b f = (r, b')"
  obtains (err) e where "r = Inl e" "b' = b"
  | (dup) s fp where "find (\<lambda>s. se_id s = frame_identity f) (i_seen (mem b)) = Some s"
      "r = Inr \<lparr>ir_acked_sequence = f_sequence f, ir_stage = se_stage s, ir_duplicate = True\<rparr>" "b' = b"
      "fingerprint f = Inr fp" "se_fingerprint s = fp"
  | (new) fp stage st where "validate_payload (f_type f) (JObj (f_payload f)) = None" "fingerprint f = Inr fp"
      "find (\<lambda>s. se_id s = frame_identity f) (i_seen (mem b)) = None" "apply_frame lm f (mem b) = Inr (stage, st)"
      "(case persist sv b (remember lm (frame_identity f) fp stage st) of
          (True, b') \<Rightarrow> (Inr \<lparr>ir_acked_sequence = f_sequence f, ir_stage = stage, ir_duplicate = False\<rparr>, b')
        | (False, b') \<Rightarrow> (Inl InboxSaveFailed, b')) = (r, b')"
proof (cases "validate_payload (f_type f) (JObj (f_payload f))")
  case (Some e)
  with assms show ?thesis by (intro err) (auto simp: inbox_accept_def)
next
  case val: None
  show ?thesis
  proof (cases "fingerprint f")
    case (Inl e)
    with assms val show ?thesis by (intro err) (auto simp: inbox_accept_def)
  next
    case fp: (Inr fp)
    show ?thesis
    proof (cases "find (\<lambda>s. se_id s = frame_identity f) (i_seen (mem b))")
      case (Some s)
      show ?thesis
      proof (cases "se_fingerprint s = fp")
        case True
        with assms val fp Some show ?thesis by (intro dup [of s fp]) (auto simp: inbox_accept_def)
      next
        case False
        with assms val fp Some show ?thesis by (intro err) (auto simp: inbox_accept_def)
      qed
    next
      case new': None
      show ?thesis
      proof (cases "apply_frame lm f (mem b)")
        case (Inl e)
        with assms val fp new' show ?thesis by (intro err) (auto simp: inbox_accept_def)
      next
        case (Inr p)
        obtain stage st where "p = (stage, st)" by (cases p)
        with assms val fp new' Inr show ?thesis
          by (intro new [of fp stage st]) (simp_all add: inbox_accept_def)
      qed
    qed
  qed
qed

lemma inbox_accept_inv:
  assumes "inbox_inv lm b" "limits_ok lm"
  shows "inbox_inv lm (snd (inbox_accept lm sv b f))"
proof (cases "inbox_accept lm sv b f")
  case (Pair r b')
  from Pair show ?thesis
  proof (cases rule: inbox_accept_cases)
    case (new fp stage st)
    obtain ok b1 where p: "persist sv b (remember lm (frame_identity f) fp stage st) = (ok, b1)"
      by (cases "persist sv b (remember lm (frame_identity f) fp stage st)")
    have "state_inv lm st"
      using apply_frame_ok(1) [OF new(4)] assms by (simp add: inbox_inv_def)
    then have "inbox_inv lm b1" using persist_inv [OF p assms(1)] remember_ok(1) by blast
    moreover have "b' = b1" using new(5) p by (cases ok) auto
    ultimately show ?thesis by (simp add: Pair)
  qed (use assms Pair in simp_all)
qed

lemma finish_active_inv: "inbox_inv lm b \<Longrightarrow> inbox_inv lm (snd (finish_active lm sv b stage detail extra))"
proof (cases "i_active (mem b)")
  case (Some j)
  assume inv: "inbox_inv lm b"
  let ?r = "\<lparr>o_command_id = job_command_id j, o_stage = stage, o_detail = take 256 detail, o_extra = extra\<rparr>"
  let ?st = "(next_job (mem b))\<lparr>i_results := last_n (max_results lm) (i_results (next_job (mem b)) @ [?r])\<rparr>"
  obtain ok b1 where p: "persist sv b ?st = (ok, b1)" by (cases "persist sv b ?st")
  have "state_inv lm ?st" using next_job_ok(1) [of lm "mem b"] inv by (simp add: inbox_inv_def state_inv_def)
  from persist_inv [OF p inv this] show ?thesis
    using p by (cases ok) (simp_all add: finish_active_def Some Let_def)
qed (simp add: finish_active_def)

lemma complete_active_inv: "inbox_inv lm b \<Longrightarrow> inbox_inv lm (snd (complete_active sv b))"
  using next_job_ok(1) [of lm "mem b"]
  by (auto simp: complete_active_def inbox_inv_def Let_def split: option.splits save_result.splits)

subsection \<open>Reachable states\<close>

inductive inbox_reach :: "inbox_limits \<Rightarrow> inbox \<Rightarrow> bool" for lm where
  start: "inbox_init lm None = Inr b \<Longrightarrow> inbox_reach lm b"
| accept: "inbox_reach lm b \<Longrightarrow> inbox_reach lm (snd (inbox_accept lm sv b f))"
| finish: "inbox_reach lm b \<Longrightarrow> inbox_reach lm (snd (finish_active lm sv b stage detail extra))"
| complete: "inbox_reach lm b \<Longrightarrow> inbox_reach lm (snd (complete_active sv b))"
| restart: "inbox_reach lm b \<Longrightarrow> inbox_init lm (Some (disk b)) = Inr b' \<Longrightarrow> inbox_reach lm b'"

lemma inbox_reach_inv: "inbox_reach lm b \<Longrightarrow> limits_ok lm \<and> inbox_inv lm b"
proof (induction rule: inbox_reach.induct)
  case (start b)
  then show ?case
    by (auto simp: inbox_init_def Let_def limits_ok_def inbox_inv_def state_inv_def empty_inbox_def split: if_splits option.splits)
next
  case (restart b b')
  then have "b' = \<lparr>mem = disk b, disk = disk b\<rparr>"
    by (auto simp: inbox_init_def Let_def split: if_splits option.splits)
  with restart show ?case by (simp add: inbox_inv_def)
qed (simp_all add: inbox_accept_inv finish_active_inv complete_active_inv)

text \<open>A restart never fails on a state the inbox wrote itself.\<close>

lemma inbox_restart_total:
  assumes "inbox_reach lm b"
  shows "inbox_init lm (Some (disk b)) = Inr \<lparr>mem = disk b, disk = disk b\<rparr>"
proof -
  have "limits_ok lm" "state_inv lm (disk b)" using inbox_reach_inv [OF assms] by (simp_all add: inbox_inv_def)
  then show ?thesis
    by (auto simp: inbox_init_def validate_loaded_def limits_ok_def state_inv_def Let_def)
qed


subsection \<open>Runs of the inbox\<close>

text \<open>
  What the aircraft does to its inbox: it accepts frames, the worker finishes the active job, the
  process restarts from the disk. A save fails before its file is in place or after it; in the second case the
  memory keeps the old state and the disk has the new one.

  Seen from outside, a run is a list of events on two copies of a queue of jobs, the one in the memory and the one on
  the disk.
\<close>

datatype inbox_op = AcceptOp save_result frame | FinishOp save_result string string pydict | RestartOp

definition frame_jobs :: "inbox_state \<Rightarrow> frame \<Rightarrow> job list" where
  "frame_jobs st f = (case f_type f of
     COMMAND \<Rightarrow> [command_record f]
   | MISSION_COMMIT \<Rightarrow> (case map_of (i_staged st) (frame_key f) of
       None \<Rightarrow> []
     | Some m \<Rightarrow> [commit_job f m (str_or (str_of (get_or (f_payload f) ''checksum'' (JStr []))) (str_of (st_checksum m)))])
   | _ \<Rightarrow> [])"

datatype queue_event = Asked "job list" | Served job | AskedOnDisk "job list" | ServedOnDisk job | Reloaded | Nothing

fun run_op :: "inbox_limits \<Rightarrow> inbox_op \<Rightarrow> inbox \<Rightarrow> queue_event \<times> inbox" where
  "run_op lm (AcceptOp sv f) b = (case inbox_accept lm sv b f of
     (Inr r, b') \<Rightarrow> (if ir_duplicate r then Nothing else Asked (frame_jobs (mem b) f), b')
   | (Inl e, b') \<Rightarrow> (if disk b' = disk b then Nothing else AskedOnDisk (frame_jobs (mem b) f), b'))"
| "run_op lm (FinishOp sv stage detail extra) b = (case finish_active lm sv b stage detail extra of
     (Inr r, b') \<Rightarrow> (Served (the (i_active (mem b))), b')
   | (Inl e, b') \<Rightarrow> (if disk b' = disk b then Nothing else ServedOnDisk (the (i_active (mem b))), b'))"
| "run_op lm RestartOp b = (case inbox_init lm (Some (disk b)) of Inr b' \<Rightarrow> (Reloaded, b') | Inl e \<Rightarrow> (Nothing, b))"

fun inbox_run :: "inbox_limits \<Rightarrow> inbox_op list \<Rightarrow> inbox \<Rightarrow> queue_event list \<times> inbox" where
  "inbox_run lm [] b = ([], b)"
| "inbox_run lm (p # ps) b = (let (ev, b1) = run_op lm p b; (evs, b2) = inbox_run lm ps b1 in (ev # evs, b2))"

text \<open>The queues: jobs are taken from the front only, and only the job at the front can be served\<close>

fun queue_step :: "queue_event \<Rightarrow> job list \<times> job list \<Rightarrow> (job list \<times> job list) option" where
  "queue_step (Asked js) (m, d) = Some (m @ js, m @ js)"
| "queue_step (AskedOnDisk js) (m, d) = Some (m, m @ js)"
| "queue_step (Served j) (m, d) = (case m of [] \<Rightarrow> None | k # m' \<Rightarrow> if k = j then Some (m', m') else None)"
| "queue_step (ServedOnDisk j) (m, d) = (case m of [] \<Rightarrow> None | k # m' \<Rightarrow> if k = j then Some (m, m') else None)"
| "queue_step Reloaded (m, d) = Some (d, d)"
| "queue_step Nothing (m, d) = Some (m, d)"

fun queue_run :: "queue_event list \<Rightarrow> job list \<times> job list \<Rightarrow> (job list \<times> job list) option" where
  "queue_run [] q = Some q"
| "queue_run (ev # evs) q = (case queue_step ev q of None \<Rightarrow> None | Some q' \<Rightarrow> queue_run evs q')"

fun jobs_asked :: "queue_event list \<Rightarrow> job list" where
  "jobs_asked [] = []"
| "jobs_asked (Asked js # evs) = js @ jobs_asked evs"
| "jobs_asked (_ # evs) = jobs_asked evs"

fun jobs_served :: "queue_event list \<Rightarrow> job list" where
  "jobs_served [] = []"
| "jobs_served (Served j # evs) = j # jobs_served evs"
| "jobs_served (_ # evs) = jobs_served evs"

fun on_disk_only :: "queue_event \<Rightarrow> bool" where
  "on_disk_only (AskedOnDisk js) = True"
| "on_disk_only (ServedOnDisk j) = True"
| "on_disk_only _ = False"

lemma apply_frame_jobs:
  assumes "apply_frame lm f st = Inr (stage, st')" "state_inv lm st" "limits_ok lm"
  shows "jobs st' = jobs st @ frame_jobs st f"
proof (cases "f_type f")
  case COMMAND
  then show ?thesis using assms enqueue_ok [of lm "command_record f" st]
    by (cases "enqueue lm (command_record f) st") (auto simp: apply_frame_def frame_jobs_def)
next
  case MISSION_BEGIN
  then show ?thesis using assms stage_begin_ok [of lm f st]
    by (cases "stage_begin lm f st") (auto simp: apply_frame_def frame_jobs_def)
next
  case MISSION_ITEM
  then show ?thesis using assms stage_item_ok [of f st _ lm]
    by (cases "stage_item f st") (auto simp: apply_frame_def frame_jobs_def)
next
  case MISSION_COMMIT
  then obtain s where s: "stage_commit lm f st = Inr s" "st' = s"
    using assms(1) by (cases "stage_commit lm f st") (auto simp: apply_frame_def)
  show ?thesis unfolding s(2)
    by (rule stage_commit_shape [OF s(1) assms(2,3)]) (simp add: frame_jobs_def MISSION_COMMIT)
qed (use assms in \<open>auto simp: apply_frame_def\<close>)

lemma accept_new:
  assumes "inbox_accept lm sv b f = (Inr r, b')" "\<not> ir_duplicate r"
  obtains fp stage st where "fingerprint f = Inr fp" "validate_payload (f_type f) (JObj (f_payload f)) = None"
    "find (\<lambda>s. se_id s = frame_identity f) (i_seen (mem b)) = None" "apply_frame lm f (mem b) = Inr (stage, st)"
    "r = \<lparr>ir_acked_sequence = f_sequence f, ir_stage = stage, ir_duplicate = False\<rparr>"
    "mem b' = remember lm (frame_identity f) fp stage st" "disk b' = mem b'"
  using assms(1)
proof (cases rule: inbox_accept_cases)
  case (new fp stage st)
  from new(5) have "r = \<lparr>ir_acked_sequence = f_sequence f, ir_stage = stage, ir_duplicate = False\<rparr>"
    "mem b' = remember lm (frame_identity f) fp stage st" "disk b' = mem b'"
    by (cases sv; auto simp: persist_def)+
  with new that show ?thesis by blast
qed (use assms(2) in auto)

text \<open>The same frame when the save fails with its file in place\<close>

lemma accept_failed_after:
  assumes "inbox_accept lm sv b f = (Inr r, b')" "\<not> ir_duplicate r"
  shows "inbox_accept lm FailedAfter b f = (Inl InboxSaveFailed, b\<lparr>disk := disk b'\<rparr>)"
proof -
  obtain fp stage st where "fingerprint f = Inr fp" "validate_payload (f_type f) (JObj (f_payload f)) = None"
    "find (\<lambda>s. se_id s = frame_identity f) (i_seen (mem b)) = None" "apply_frame lm f (mem b) = Inr (stage, st)"
    "mem b' = remember lm (frame_identity f) fp stage st" "disk b' = mem b'"
    using assms by (rule accept_new)
  then show ?thesis by (simp add: inbox_accept_def persist_def)
qed

lemma accept_unchanged:
  assumes "inbox_accept lm sv b f = (r, b')" "\<forall>x. r = Inr x \<longrightarrow> ir_duplicate x"
  shows "mem b' = mem b" and "sv \<noteq> FailedAfter \<Longrightarrow> disk b' = disk b"
  using assms(1) by (cases rule: inbox_accept_cases; use assms(2) in \<open>cases sv; auto simp: persist_def\<close>)+

lemma finish_cases:
  assumes "finish_active lm sv b stage detail extra = (r, b')"
  obtains (err) e where "r = Inl e" "mem b' = mem b" "sv \<noteq> FailedAfter \<Longrightarrow> disk b' = disk b"
  | (ok) j x where "i_active (mem b) = Some j" "r = Inr x" "sv = Saved" "disk b' = mem b'"
      "x = \<lparr>o_command_id = job_command_id j, o_stage = stage, o_detail = take 256 detail, o_extra = extra\<rparr>"
      "mem b' = (next_job (mem b))\<lparr>i_results := last_n (max_results lm) (i_results (next_job (mem b)) @ [x])\<rparr>"
proof (cases "i_active (mem b)")
  case None
  with assms show ?thesis by (intro err) (auto simp: finish_active_def)
next
  case (Some j)
  show ?thesis
  proof (cases sv)
    case Saved
    with assms Some show ?thesis by (intro ok) (auto simp: finish_active_def persist_def Let_def)
  qed (use assms Some in \<open>intro err; auto simp: finish_active_def persist_def Let_def\<close>)+
qed

lemma next_jobs: "i_active st = Some j \<Longrightarrow> jobs st = j # jobs (next_job st)"
  by (auto simp: jobs_def next_job_def split: list.splits)

abbreviation copies :: "inbox \<Rightarrow> job list \<times> job list" where
  "copies b \<equiv> (jobs (mem b), jobs (disk b))"

lemma accept_step:
  assumes "inbox_reach lm b" "inbox_accept lm sv b f = (r, b')" "run_op lm (AcceptOp sv f) b = (ev, b')"
  shows "queue_step ev (copies b) = Some (copies b')"
  using assms(2)
proof (cases rule: inbox_accept_cases)
  case (new fp stage st)
  have inv: "limits_ok lm" "state_inv lm (mem b)" using inbox_reach_inv [OF assms(1)] by (simp_all add: inbox_inv_def)
  have j: "jobs (remember lm (frame_identity f) fp stage st) = jobs (mem b) @ frame_jobs (mem b) f"
    using apply_frame_jobs [OF new(4) inv(2,1)] by (simp add: remember_ok(2))
  show ?thesis
  proof (cases sv)
    case Saved
    with new(5) assms(2,3) j show ?thesis by (auto simp: persist_def)
  next
    case FailedBefore
    with new(5) assms(2,3) show ?thesis by (auto simp: persist_def)
  next
    case FailedAfter
    with new(5) assms(2,3) j show ?thesis by (auto simp: persist_def split: if_splits)
  qed
qed (use assms(2,3) in auto)

lemma finish_step:
  assumes "finish_active lm sv b stage detail extra = (r, b')" "run_op lm (FinishOp sv stage detail extra) b = (ev, b')"
  shows "queue_step ev (copies b) = Some (copies b')"
proof (cases "i_active (mem b)")
  case None
  with assms show ?thesis by (auto simp: finish_active_def)
next
  case (Some j)
  have [simp]: "jobs (st\<lparr>i_results := rs\<rparr>) = jobs st" for st rs by (simp add: jobs_def)
  show ?thesis
  proof (cases sv)
    case Saved
    with assms Some next_jobs [OF Some] show ?thesis by (auto simp: finish_active_def persist_def Let_def)
  next
    case FailedBefore
    with assms Some show ?thesis by (auto simp: finish_active_def persist_def Let_def)
  next
    case FailedAfter
    with assms Some next_jobs [OF Some] show ?thesis
      by (auto simp: finish_active_def persist_def Let_def split: if_splits)
  qed
qed

lemma run_op_step:
  assumes "inbox_reach lm b" "run_op lm p b = (ev, b')"
  shows "inbox_reach lm b' \<and> queue_step ev (copies b) = Some (copies b')"
proof (cases p)
  case (AcceptOp sv f)
  obtain r b1 where r: "inbox_accept lm sv b f = (r, b1)" by (cases "inbox_accept lm sv b f")
  then have "b1 = b'" using assms(2) by (auto simp: AcceptOp split: sum.splits)
  with r have r: "inbox_accept lm sv b f = (r, b')" by simp
  have "inbox_reach lm b'" using inbox_reach.accept [OF assms(1), of sv f] r by simp
  with accept_step [OF assms(1) r] assms(2) show ?thesis by (simp add: AcceptOp)
next
  case (FinishOp sv stage detail extra)
  obtain r b1 where r: "finish_active lm sv b stage detail extra = (r, b1)"
    by (cases "finish_active lm sv b stage detail extra")
  then have "b1 = b'" using assms(2) by (auto simp: FinishOp split: sum.splits)
  with r have r: "finish_active lm sv b stage detail extra = (r, b')" by simp
  have "inbox_reach lm b'" using inbox_reach.finish [OF assms(1), of sv stage detail extra] r by simp
  with finish_step [OF r] assms(2) show ?thesis by (simp add: FinishOp)
next
  case RestartOp
  have "inbox_init lm (Some (disk b)) = Inr \<lparr>mem = disk b, disk = disk b\<rparr>"
    by (rule inbox_restart_total [OF assms(1)])
  with assms show ?thesis
    by (auto simp: RestartOp intro: inbox_reach.restart)
qed

lemma inbox_run_queue:
  "inbox_reach lm b \<Longrightarrow> inbox_run lm ps b = (evs, b') \<Longrightarrow> queue_run evs (copies b) = Some (copies b')"
proof (induction ps arbitrary: b evs)
  case (Cons p ps)
  obtain ev b1 where r1: "run_op lm p b = (ev, b1)" by (cases "run_op lm p b")
  obtain evs2 b2 where r2: "inbox_run lm ps b1 = (evs2, b2)" by (cases "inbox_run lm ps b1")
  have e: "evs = ev # evs2" "b2 = b'" using Cons.prems(2) r1 r2 by simp_all
  have s: "inbox_reach lm b1" "queue_step ev (copies b) = Some (copies b1)" using run_op_step [OF Cons.prems(1) r1] by simp_all
  from Cons.IH [OF s(1), of evs2] r2 e(2) have "queue_run evs2 (copies b1) = Some (copies b')" by simp
  with s(2) show ?case by (simp add: e(1))
qed simp

text \<open>As long as the two copies agree the queue is one FIFO\<close>

lemma queue_run_fifo:
  "queue_run evs (m, m) = Some (m', d') \<Longrightarrow> \<forall>ev \<in> set evs. \<not> on_disk_only ev \<Longrightarrow>
     d' = m' \<and> jobs_served evs @ m' = m @ jobs_asked evs"
proof (induction evs arbitrary: m)
  case (Cons ev evs)
  show ?case
  proof (cases ev)
    case (Served j)
    with Cons show ?thesis by (auto split: list.splits if_splits)
  next
    case (Asked js)
    with Cons have "d' = m' \<and> jobs_served evs @ m' = (m @ js) @ jobs_asked evs" by (intro Cons.IH) auto
    with Asked show ?thesis by simp
  qed (use Cons in auto)
qed auto

subsection \<open>Properties\<close>

definition small_limits :: inbox_limits where
  "small_limits = \<lparr>max_queue = 2, max_history = 4, max_staged = 1, max_resume_items = 2, max_results = 2\<rparr>"

definition arm_frame :: frame where
  "arm_frame = \<lparr>f_type = COMMAND, f_flags = 1, f_sequence = 1, f_command_id = 5,
     f_payload = [(''action'', JStr ''arm'')]\<rparr>"

lemma find_snoc: "\<forall>x \<in> set xs. \<not> P x \<Longrightarrow> P y \<Longrightarrow> find P (xs @ [y]) = Some y"
  by (induction xs) auto

lemma fingerprint_total: "json_ok (JObj (f_payload f)) \<Longrightarrow> \<exists>fp. fingerprint f = Inr fp"
  using dumps_total [of "JObj [(''type'', JInt (int (type_code (f_type f)))), (''command_id'', JStr (uuid_str (f_command_id f))),
      (''sequence'', JInt (int (f_sequence f))), (''payload'', JObj (f_payload f))]" True]
  by (auto simp: fingerprint_def ascii_digest_def split: option.splits)

lemma fresh_inbox: "inbox_init small_limits None = Inr \<lparr>mem = empty_inbox, disk = empty_inbox\<rparr>"
  by (simp add: inbox_init_def small_limits_def validate_loaded_def empty_inbox_def Let_def)

lemma arm_accepted:
  obtains b' where "inbox_accept small_limits Saved \<lparr>mem = empty_inbox, disk = empty_inbox\<rparr> arm_frame
      = (Inr \<lparr>ir_acked_sequence = 1, ir_stage = ''COMMAND_STAGED'', ir_duplicate = False\<rparr>, b')"
    "disk b' = mem b'" "jobs (mem b') = [command_record arm_frame]"
proof -
  obtain fp where fp: "fingerprint arm_frame = Inr fp" using fingerprint_total [of arm_frame] by (auto simp: arm_frame_def)
  have v: "validate_payload COMMAND (JObj (f_payload arm_frame)) = None" by code_simp
  have t: "f_type arm_frame = COMMAND" "f_sequence arm_frame = 1" by (simp_all add: arm_frame_def)
  from fp v t that show thesis
    by (simp add: inbox_accept_def empty_inbox_def apply_frame_def enqueue_def persist_def remember_def jobs_def)
qed

text \<open>Wherever a save of the JSON store is cut off, in the middle of writing the temporary file
  too, a later load finds the state as it was before the save or the state that was being saved,
  and once the rename is done it finds the new state.\<close>

theorem store_crash_atomic:
  assumes "json_ok v" and "is_obj v" and "encode_state n v = Inr raw"
  shows "store_load n d (store_save_until k part raw fs) \<in> {store_load n d fs, Inr (sort_json v)}
    \<and> (5 \<le> k \<longrightarrow> store_load n d (store_save_until k part raw fs) = Inr (sort_json v))"
proof (intro conjI impI)
  show "store_load n d (store_save_until k part raw fs) \<in> {store_load n d fs, Inr (sort_json v)}"
    using save_until_target [of k part raw fs] load_saved [OF assms, of "store_save_until k part raw fs" d]
    by (auto simp: store_load_def)
  assume "5 \<le> k"
  then have "k = 5 \<or> take k (save_steps raw part) = save_steps raw part" by (auto simp: save_steps_def)
  then have "target_file (store_save_until k part raw fs) = Some raw"
    by (auto simp: store_save_until_def store_step_def save_steps_def numeral_eq_Suc)
  then show "store_load n d (store_save_until k part raw fs) = Inr (sort_json v)"
    using load_saved [OF assms] by simp
qed

theorem store_crash_atomic_witness:
  "\<exists>raw. encode_state 100 (JObj [(''a'', JInt 1)]) = Inr raw
     \<and> store_load 100 JNull (store_save_until 5 1 raw \<lparr>target_file = None, temp_file = None\<rparr>)
         = Inr (sort_json (JObj [(''a'', JInt 1)]))"
proof -
  have "the (dumps False (JObj [(''a'', JInt 1)])) = ''{\"a\":1}''" by code_simp
  then obtain raw where raw: "encode_state 100 (JObj [(''a'', JInt 1)]) = Inr raw"
    using dumps_total [of "JObj [(''a'', JInt 1)]" False] by (auto simp: encode_state_def utf8_def utf8_char_def)
  show ?thesis using store_crash_atomic [OF _ _ raw, of JNull 5] raw by auto
qed

text \<open>C7: a frame the inbox answers as newly accepted is on the disk: after a restart from the disk
  the same frame is answered as a duplicate with the same sequence and stage and changes nothing,
  and its job is in the list of jobs.\<close>

theorem acknowledged_is_durable:
  assumes "inbox_reach lm b" and "inbox_accept lm sv b f = (Inr r, b')" and "\<not> ir_duplicate r"
  shows "inbox_init lm (Some (disk b')) = Inr b'
    \<and> inbox_accept lm sv' b' f = (Inr (r\<lparr>ir_duplicate := True\<rparr>), b')
    \<and> jobs (mem b') = jobs (mem b) @ frame_jobs (mem b) f"
proof (intro conjI)
  have inv: "limits_ok lm" "state_inv lm (mem b)" using inbox_reach_inv [OF assms(1)] by (simp_all add: inbox_inv_def)
  obtain fp stage st where n: "fingerprint f = Inr fp" "validate_payload (f_type f) (JObj (f_payload f)) = None"
    "find (\<lambda>s. se_id s = frame_identity f) (i_seen (mem b)) = None" "apply_frame lm f (mem b) = Inr (stage, st)"
    "r = \<lparr>ir_acked_sequence = f_sequence f, ir_stage = stage, ir_duplicate = False\<rparr>"
    "mem b' = remember lm (frame_identity f) fp stage st" "disk b' = mem b'"
    using assms(2,3) by (rule accept_new)
  let ?e = "\<lparr>se_id = frame_identity f, se_fingerprint = fp, se_stage = stage\<rparr>"
  have "inbox_reach lm b'" using inbox_reach.accept [OF assms(1), of sv f] assms(2) by simp
  from inbox_restart_total [OF this] n(7) show "inbox_init lm (Some (disk b')) = Inr b'" by simp
  show "jobs (mem b') = jobs (mem b) @ frame_jobs (mem b) f"
    using apply_frame_jobs [OF n(4) inv(2,1)] by (simp add: n(6) remember_ok(2))
  have "i_seen st = i_seen (mem b)" by (rule apply_frame_ok(2) [OF n(4) inv(2,1)])
  moreover have "0 < max_history lm" using inv(1) by (simp add: limits_ok_def)
  ultimately have seen: "i_seen (mem b') = last_n (max_history lm - 1) (i_seen (mem b)) @ [?e]"
    by (simp add: n(6) remember_def last_n_snoc)
  have "\<forall>s \<in> set (last_n (max_history lm - 1) (i_seen (mem b))). se_id s \<noteq> frame_identity f"
    using n(3) set_last_n [of "max_history lm - 1" "i_seen (mem b)"] by (auto simp: find_None_iff)
  then have "find (\<lambda>s. se_id s = frame_identity f) (i_seen (mem b')) = Some ?e"
    unfolding seen by (intro find_snoc) simp_all
  with n(1,2,5) show "inbox_accept lm sv' b' f = (Inr (r\<lparr>ir_duplicate := True\<rparr>), b')"
    by (simp add: inbox_accept_def)
qed

theorem acknowledged_is_durable_witness:
  "\<exists>r b'. inbox_accept small_limits Saved \<lparr>mem = empty_inbox, disk = empty_inbox\<rparr> arm_frame = (Inr r, b')
     \<and> inbox_accept small_limits FailedBefore b' arm_frame = (Inr (r\<lparr>ir_duplicate := True\<rparr>), b')"
proof -
  obtain b' where "inbox_accept small_limits Saved \<lparr>mem = empty_inbox, disk = empty_inbox\<rparr> arm_frame
      = (Inr \<lparr>ir_acked_sequence = 1, ir_stage = ''COMMAND_STAGED'', ir_duplicate = False\<rparr>, b')"
    by (rule arm_accepted)
  with acknowledged_is_durable [OF inbox_reach.start [OF fresh_inbox] this] show ?thesis by auto
qed

text \<open>C8: over every run of accepted frames, finished jobs, saves that fail before or after their file is in
  place, and restarts, the jobs in the memory and the jobs on the disk behave as two copies of a queue: what a frame
  asked for is appended, only the job at the front is served, a save that failed with its file in place changes the copy
  on the disk only, and a restart goes on from that copy. While no save fails that way, from a state that is saved, the
  jobs served and then the jobs still held are exactly the jobs held at first and then those the frames asked for, in
  that order, and the two copies agree.\<close>

theorem inbox_fifo:
  assumes "inbox_reach lm b" and "inbox_run lm ps b = (evs, b')"
  shows "queue_run evs (jobs (mem b), jobs (disk b)) = Some (jobs (mem b'), jobs (disk b'))
    \<and> (jobs (disk b) = jobs (mem b) \<and> (\<forall>ev \<in> set evs. \<not> on_disk_only ev) \<longrightarrow>
        jobs_served evs @ jobs (mem b') = jobs (mem b) @ jobs_asked evs \<and> jobs (disk b') = jobs (mem b'))"
  using inbox_run_queue [OF assms] queue_run_fifo by auto

text \<open>A command that is accepted, and one that is refused with its file in place and comes back by a restart\<close>

theorem inbox_fifo_witness:
  "\<exists>b' b''. inbox_run small_limits [AcceptOp Saved arm_frame] \<lparr>mem = empty_inbox, disk = empty_inbox\<rparr>
       = ([Asked [command_record arm_frame]], b') \<and> jobs (mem b') = [command_record arm_frame]
     \<and> inbox_run small_limits [AcceptOp FailedAfter arm_frame, RestartOp] \<lparr>mem = empty_inbox, disk = empty_inbox\<rparr>
       = ([AskedOnDisk [command_record arm_frame], Reloaded], b'') \<and> jobs (mem b'') = [command_record arm_frame]"
proof -
  let ?b = "\<lparr>mem = empty_inbox, disk = empty_inbox\<rparr>"
  obtain b' where acc: "inbox_accept small_limits Saved ?b arm_frame
      = (Inr \<lparr>ir_acked_sequence = 1, ir_stage = ''COMMAND_STAGED'', ir_duplicate = False\<rparr>, b')"
    and saved: "disk b' = mem b'" "jobs (mem b') = [command_record arm_frame]"
    by (rule arm_accepted)
  have fj: "frame_jobs empty_inbox arm_frame = [command_record arm_frame]" by (simp add: frame_jobs_def arm_frame_def)
  have run: "inbox_run small_limits [AcceptOp Saved arm_frame] ?b = ([Asked [command_record arm_frame]], b')"
    using acc fj by simp
  have "inbox_accept small_limits FailedAfter ?b arm_frame = (Inl InboxSaveFailed, ?b\<lparr>disk := disk b'\<rparr>)"
    by (rule accept_failed_after [OF acc]) simp
  moreover have d: "disk b' \<noteq> empty_inbox" using saved by (auto simp: jobs_def empty_inbox_def)
  moreover have "inbox_reach small_limits b'" using inbox_reach.accept [OF inbox_reach.start [OF fresh_inbox], of Saved arm_frame] acc by simp
  then have "inbox_init small_limits (Some (disk b')) = Inr \<lparr>mem = disk b', disk = disk b'\<rparr>" by (rule inbox_restart_total)
  ultimately have run2: "inbox_run small_limits [AcceptOp FailedAfter arm_frame, RestartOp] ?b
      = ([AskedOnDisk [command_record arm_frame], Reloaded], \<lparr>mem = disk b', disk = disk b'\<rparr>)"
    using fj by simp
  have e: "jobs empty_inbox = []" by (simp add: jobs_def empty_inbox_def)
  have "queue_run [Asked [command_record arm_frame]] (jobs (mem ?b), jobs (disk ?b)) = Some (jobs (mem b'), jobs (disk b'))"
    using inbox_fifo [OF inbox_reach.start [OF fresh_inbox] run] by (rule conjunct1)
  then have "jobs (mem b') = [command_record arm_frame]" "jobs (disk b') = [command_record arm_frame]" by (auto simp: e)
  then show ?thesis using run run2 by (intro exI conjI) (assumption | simp)+
qed

end
