(* ===== verification/CommandWorker.thy ===== *)
theory CommandWorker
  imports InboxProps
begin

text \<open>
  \<open>aircraft_agent/command_worker.py\<close>: the worker that takes the jobs of the durable inbox, or
  of its own bounded deque, one at a time to the flight controller. The interface it needs of a
  source of jobs is the locale \<open>job_source\<close>; both sources are interpretations of it.
\<close>

subsection \<open>Calls to the flight controller\<close>

text \<open>
  \<open>_execute\<close> calls one of three methods of \<open>operations\<close>, code outside this file. What the
  call does is an input: it returns an object, whose attributes the worker reads with defaults, or
  it raises.
\<close>

datatype fc_call = Execute job | Arm bool | SetMode string

datatype fc_answer = Returned "string option" "bool option" "bool option" | UnsafeResidual string | RaisedOther string

definition lower_is :: "string \<Rightarrow> string \<Rightarrow> bool" where
  "lower_is a s \<longleftrightarrow> py_lower a = s"

fun worker_call :: "job \<Rightarrow> fc_call" where
  "worker_call (MissionJob c m items ck) = Execute (MissionJob c m items ck)"
| "worker_call (CommandJob c a p) =
     (if lower_is a ''arm'' then Arm True else if lower_is a ''disarm'' then Arm False
      else SetMode (py_upper (py_lower a)))"

text \<open>\<open>set_mode\<close>'s result is dropped: \<open>_execute\<close> returns None then\<close>

definition call_result :: "fc_call \<Rightarrow> fc_answer \<Rightarrow> fc_answer" where
  "call_result c a = (case (c, a) of (SetMode m, Returned r v e) \<Rightarrow> Returned None None None | _ \<Rightarrow> a)"

definition or_true :: "bool option \<Rightarrow> bool" where
  "or_true v = (case v of None \<Rightarrow> True | Some b \<Rightarrow> b)"

definition flags :: "bool \<Rightarrow> bool \<Rightarrow> pydict" where
  "flags verified ready = [(''verified'', JBool verified), (''execution_ready'', JBool ready)]"

text \<open>Stage, detail and extra fields of the result\<close>

definition worker_outcome :: "job \<Rightarrow> fc_answer \<Rightarrow> string \<times> string \<times> pydict" where
  "worker_outcome j a =
     (case call_result (worker_call j) a of
        Returned reason verified ready \<Rightarrow>
          (case j of MissionJob c m items ck \<Rightarrow> ''VERIFIED'' | CommandJob c act p \<Rightarrow> ''COMPLETED'',
           case reason of None \<Rightarrow> [] | Some r \<Rightarrow> r, flags (or_true verified) (or_true ready))
      | UnsafeResidual e \<Rightarrow> (''UNSAFE_RESIDUAL'', e, flags False False)
      | RaisedOther e \<Rightarrow> (''FAILED'', e, flags False False))"

subsection \<open>One step of the worker\<close>

text \<open>
  With an inbox: the active job is executed and then finished; the save inside
  \<open>finish_active\<close> may fail, and then the exception leaves \<open>run_once\<close> after the call was made.
  The result carries the job for the statements below.
\<close>

type_synonym fc_input = "fc_answer \<times> save_result"

definition run_once :: "inbox_limits \<Rightarrow> fc_input \<Rightarrow> inbox \<Rightarrow> (inbox_exc + (job \<times> outcome) option) \<times> inbox" where
  "run_once lm e b =
     (case i_active (mem b) of
        None \<Rightarrow> (Inr None, b)
      | Some j \<Rightarrow>
          (case worker_outcome j (fst e) of (stage, detail, extra) \<Rightarrow>
             (case finish_active lm (snd e) b stage detail extra of
                (Inr r, b') \<Rightarrow> (Inr (Some (j, r)), b')
              | (Inl x, b') \<Rightarrow> (Inl x, b'))))"

text \<open>Without one: the worker's own deque\<close>

record deque_worker =
  w_queue :: "job list"
  w_max_pending :: nat
  w_closed :: bool

datatype worker_exc = WorkerClosed | WorkerFull | WorkerValueError

definition worker_init :: "int \<Rightarrow> worker_exc + deque_worker" where
  "worker_init max_pending =
     (if max_pending < 1 then Inl WorkerValueError
      else Inr \<lparr>w_queue = [], w_max_pending = nat max_pending, w_closed = False\<rparr>)"

definition worker_submit :: "job \<Rightarrow> deque_worker \<Rightarrow> (worker_exc + unit) \<times> deque_worker" where
  "worker_submit j w =
     (if w_closed w then (Inl WorkerClosed, w)
      else if w_max_pending w \<le> length (w_queue w) then (Inl WorkerFull, w)
      else (Inr (), w\<lparr>w_queue := w_queue w @ [j]\<rparr>))"

definition worker_close :: "deque_worker \<Rightarrow> deque_worker" where
  "worker_close w = w\<lparr>w_closed := True\<rparr>"

definition worker_pop :: "deque_worker \<Rightarrow> job option \<times> deque_worker" where
  "worker_pop w = (case w_queue w of [] \<Rightarrow> (None, w) | j # js \<Rightarrow> (Some j, w\<lparr>w_queue := js\<rparr>))"

definition run_once_deque :: "fc_answer \<Rightarrow> deque_worker \<Rightarrow> (worker_exc + (job \<times> outcome) option) \<times> deque_worker" where
  "run_once_deque a w =
     (case worker_pop w of
        (None, w') \<Rightarrow> (Inr None, w')
      | (Some j, w') \<Rightarrow>
          (case worker_outcome j a of (stage, detail, extra) \<Rightarrow>
             (Inr (Some (j, \<lparr>o_command_id = job_command_id j, o_stage = stage, o_detail = detail, o_extra = extra\<rparr>)), w')))"

subsection \<open>\<open>run_queued\<close>\<close>

text \<open>
  The loop of \<open>run_queued\<close> over the answers of the flight controller, one for each turn: it ends
  with an empty source, with an exception, or still has jobs when the answers given run out.
\<close>

datatype 'x ending = Drained | Raised 'x | MoreJobs

fun run_queued :: "('e \<Rightarrow> 's \<Rightarrow> ('x + ('j \<times> 'o) option) \<times> 's) \<Rightarrow> 'e list \<Rightarrow> 's \<Rightarrow> ('j \<times> 'o) list \<times> 'x ending \<times> 's" where
  "run_queued step [] s = ([], MoreJobs, s)"
| "run_queued step (e # es) s =
     (case step e s of
        (Inr None, s') \<Rightarrow> ([], Drained, s')
      | (Inl x, s') \<Rightarrow> ([], Raised x, s')
      | (Inr (Some r), s') \<Rightarrow> (case run_queued step es s' of (rs, en, s'') \<Rightarrow> (r # rs, en, s'')))"

locale job_source =
  fixes step :: "'e \<Rightarrow> 's \<Rightarrow> ('x + ('j \<times> 'o) option) \<times> 's"
    and held :: "'s \<Rightarrow> 'j list"
    and ok :: "'s \<Rightarrow> bool"
    and report :: "'j \<Rightarrow> 'e \<Rightarrow> 'o"
  assumes idle: "ok s \<Longrightarrow> step e s = (Inr None, s') \<Longrightarrow> held s = [] \<and> s' = s"
    and taken: "ok s \<Longrightarrow> step e s = (Inr (Some (j, r)), s') \<Longrightarrow> held s = j # held s' \<and> r = report j e \<and> ok s'"
    and failed: "ok s \<Longrightarrow> step e s = (Inl x, s') \<Longrightarrow> held s' = held s \<and> held s \<noteq> []"
begin

lemma run_exactly_once:
  "ok s \<Longrightarrow> run_queued step es s = (rs, en, s') \<Longrightarrow>
     map fst rs @ held s' = held s \<and> (en = Drained \<longrightarrow> held s' = []) \<and> (\<forall>x. en = Raised x \<longrightarrow> held s' \<noteq> [])
       \<and> list_all2 (\<lambda>r e. snd r = report (fst r) e) rs (take (length rs) es)"
proof (induction es arbitrary: s rs en s')
  case (Cons e es)
  obtain r s1 where r: "step e s = (r, s1)" by (cases "step e s")
  consider (idle') "r = Inr None" | (fail') x where "r = Inl x" | (job') j o' where "r = Inr (Some (j, o'))"
    by (cases r; cases "projr r") auto
  then show ?case
  proof cases
    case idle'
    with idle [OF Cons.prems(1)] r Cons.prems(2) show ?thesis by auto
  next
    case fail'
    with failed [OF Cons.prems(1)] r Cons.prems(2) show ?thesis by auto
  next
    case job'
    obtain rs1 en1 s2 where q: "run_queued step es s1 = (rs1, en1, s2)" by (cases "run_queued step es s1")
    have t: "held s = j # held s1" "o' = report j e" "ok s1"
      using taken [OF Cons.prems(1)] r job' by blast+
    from Cons.IH [OF t(3) q] Cons.prems(2) t r job' q show ?thesis by auto
  qed
qed simp

lemma run_drains:
  "ok s \<Longrightarrow> run_queued step es s = (rs, en, s') \<Longrightarrow> length (held s) < length es \<Longrightarrow> en = Drained \<or> (\<exists>x. en = Raised x)"
proof (induction es arbitrary: s rs en s')
  case (Cons e es)
  obtain r s1 where r: "step e s = (r, s1)" by (cases "step e s")
  consider "r = Inr None" | x where "r = Inl x" | (job') j o' where "r = Inr (Some (j, o'))"
    by (cases r; cases "projr r") auto
  then show ?case
  proof cases
    case job'
    obtain rs1 en1 s2 where q: "run_queued step es s1 = (rs1, en1, s2)" by (cases "run_queued step es s1")
    have t: "held s = j # held s1" "ok s1" using taken [OF Cons.prems(1)] r job' by blast+
    from Cons.IH [OF t(2) q] Cons.prems(2,3) t r job' q show ?thesis by auto
  qed (use r Cons.prems(2) in auto)
qed simp

end

definition inbox_report :: "job \<Rightarrow> fc_input \<Rightarrow> outcome" where
  "inbox_report j e = (case worker_outcome j (fst e) of (stage, detail, extra) \<Rightarrow>
     \<lparr>o_command_id = job_command_id j, o_stage = stage, o_detail = take 256 detail, o_extra = extra\<rparr>)"

definition deque_report :: "job \<Rightarrow> fc_answer \<Rightarrow> outcome" where
  "deque_report j a = (case worker_outcome j a of (stage, detail, extra) \<Rightarrow>
     \<lparr>o_command_id = job_command_id j, o_stage = stage, o_detail = detail, o_extra = extra\<rparr>)"

definition idle_empty :: "inbox \<Rightarrow> bool" where
  "idle_empty b \<longleftrightarrow> (i_active (mem b) = None \<longrightarrow> i_queue (mem b) = [])"

lemma run_once_cases:
  assumes "run_once lm e b = (r, b')"
  obtains (idle) "r = Inr None" "b' = b" "i_active (mem b) = None"
  | (fail) x j where "r = Inl x" "mem b' = mem b" "i_active (mem b) = Some j" "snd e \<noteq> Saved"
  | (job) j o' where "r = Inr (Some (j, o'))" "i_active (mem b) = Some j" "o' = inbox_report j e" "disk b' = mem b'"
      "mem b' = (next_job (mem b))\<lparr>i_results := last_n (max_results lm) (i_results (next_job (mem b)) @ [o'])\<rparr>"
proof (cases "i_active (mem b)")
  case None
  with assms show ?thesis by (intro idle) (auto simp: run_once_def)
next
  case (Some j)
  obtain st d x where w: "worker_outcome j (fst e) = (st, d, x)" by (cases "worker_outcome j (fst e)")
  obtain q b1 where f: "finish_active lm (snd e) b st d x = (q, b1)" by (cases "finish_active lm (snd e) b st d x")
  from f show ?thesis
  proof (cases rule: finish_cases)
    case (err y)
    have "snd e \<noteq> Saved"
      using f err(1) Some by (auto simp: finish_active_def persist_def Let_def)
    with assms Some w f err show ?thesis by (intro fail) (auto simp: run_once_def)
  next
    case (ok j' o')
    with assms Some w f show ?thesis by (intro job [of j o']) (auto simp: run_once_def inbox_report_def)
  qed
qed

interpretation inbox_jobs: job_source "run_once lm" "\<lambda>b. jobs (mem b)" idle_empty inbox_report
proof
  show "jobs (mem s) = [] \<and> s' = s" if "idle_empty s" "run_once lm e s = (Inr None, s')" for s e s'
    using that(2,1) by (cases rule: run_once_cases) (auto simp: idle_empty_def jobs_def)
  show "jobs (mem s) = j # jobs (mem s') \<and> r = inbox_report j e \<and> idle_empty s'"
    if "idle_empty s" "run_once lm e s = (Inr (Some (j, r)), s')" for s e j r s'
    using that(2,1) by (cases rule: run_once_cases)
      (auto simp: idle_empty_def jobs_def next_job_def split: list.splits)
  show "jobs (mem s') = jobs (mem s) \<and> jobs (mem s) \<noteq> []"
    if "idle_empty s" "run_once lm e s = (Inl x, s')" for s e x s'
    using that(2,1) by (cases rule: run_once_cases) (auto simp: jobs_def)
qed

interpretation deque_jobs: job_source run_once_deque w_queue "\<lambda>w. True" deque_report
  by unfold_locales
    (auto simp: run_once_deque_def worker_pop_def deque_report_def split: list.splits prod.splits)


subsection \<open>Properties\<close>

lemma reach_idle_empty: "inbox_reach lm b \<Longrightarrow> idle_empty b"
  using inbox_reach_inv [of lm b] by (simp add: inbox_inv_def state_inv_def idle_empty_def)

lemma saved_never_raises:
  "list_all (\<lambda>e. snd e = Saved) es \<Longrightarrow> run_queued (run_once lm) es b = (rs, en, b') \<Longrightarrow> en \<noteq> Raised x"
proof (induction es arbitrary: b rs en b')
  case (Cons e es)
  obtain r b1 where r: "run_once lm e b = (r, b1)" by (cases "run_once lm e b")
  obtain rs1 en1 b2 where q: "run_queued (run_once lm) es b1 = (rs1, en1, b2)"
    by (cases "run_queued (run_once lm) es b1")
  from r show ?case
  proof (cases rule: run_once_cases)
    case job
    with Cons.prems r q Cons.IH [OF _ q] show ?thesis by auto
  qed (use Cons.prems r in auto)
qed simp

text \<open>C15: the command worker on the durable inbox takes the jobs in the order they were accepted,
  one result for each, with the stage that fits the kind of job and what the call did; when its
  results are saved it empties the inbox, and when a save fails it stops with the job it has just
  executed still the first of the inbox, to be executed again.\<close>

theorem worker_serves_in_order:
  assumes "inbox_reach lm b" and "run_queued (run_once lm) es b = (rs, en, b')"
  shows "map fst rs @ jobs (mem b') = jobs (mem b)
    \<and> list_all2 (\<lambda>r e. snd r = inbox_report (fst r) e) rs (take (length rs) es)
    \<and> (\<forall>x. en = Raised x \<longrightarrow> jobs (mem b') \<noteq> [])
    \<and> (list_all (\<lambda>e. snd e = Saved) es \<and> length (jobs (mem b)) < length es \<longrightarrow> en = Drained \<and> jobs (mem b') = [])"
  using inbox_jobs.run_exactly_once [OF reach_idle_empty [OF assms(1)] assms(2)]
    inbox_jobs.run_drains [OF reach_idle_empty [OF assms(1)] assms(2)] saved_never_raises [OF _ assms(2)]
  by blast

theorem worker_serves_in_order_witness:
  "\<exists>b' rs b''. inbox_run small_limits [AcceptOp Saved arm_frame] \<lparr>mem = empty_inbox, disk = empty_inbox\<rparr>
       = ([Asked [command_record arm_frame]], b')
     \<and> run_queued (run_once small_limits) (replicate 3 (Returned None None None, Saved)) b' = (rs, Drained, b'')
     \<and> map fst rs = [command_record arm_frame] \<and> worker_call (command_record arm_frame) = Arm True"
proof -
  obtain b' where acc: "inbox_accept small_limits Saved \<lparr>mem = empty_inbox, disk = empty_inbox\<rparr> arm_frame
      = (Inr \<lparr>ir_acked_sequence = 1, ir_stage = ''COMMAND_STAGED'', ir_duplicate = False\<rparr>, b')"
    and j: "jobs (mem b') = [command_record arm_frame]"
    by (rule arm_accepted)
  then have reach: "inbox_reach small_limits b'"
    using inbox_reach.accept [OF inbox_reach.start [OF fresh_inbox], of Saved arm_frame] by simp
  obtain rs en b'' where r: "run_queued (run_once small_limits) (replicate 3 (Returned None None None, Saved)) b' = (rs, en, b'')"
    by (cases "run_queued (run_once small_limits) (replicate 3 (Returned None None None, Saved)) b'")
  have run: "inbox_run small_limits [AcceptOp Saved arm_frame] \<lparr>mem = empty_inbox, disk = empty_inbox\<rparr>
       = ([Asked [command_record arm_frame]], b')"
    using acc by (simp add: frame_jobs_def arm_frame_def)
  have "worker_call (command_record arm_frame) = Arm True" by code_simp
  moreover from worker_serves_in_order [OF reach r] j
  have "en = Drained \<and> jobs (mem b'') = []" "map fst rs @ jobs (mem b'') = jobs (mem b')"
    by (auto simp: numeral_eq_Suc)
  ultimately show ?thesis using run r j by auto
qed

end
