(* ===== verification/PyFloat.thy ===== *)
theory PyFloat
  imports PyValue
begin

text \<open>
  The arithmetic of Python floats where its rounding shows: a float is written as the decimal that prints it, and
  a product of floats is the double nearest to the product of the two doubles.

  A double is a fraction, a mantissa of 53 bits times a power of two. The range of its exponent is left to the users:
  a product is compared with \<open>2 ^ 1024\<close> where the code raises on infinity, and numbers too small for a normal
  double are only truncated or rounded to integers, which gives zero for them in any case.
\<close>

subsection \<open>Rounding to a double\<close>

text \<open>The integer nearest to \<open>a / b\<close>, ties to even\<close>

definition div_even :: "int \<Rightarrow> int \<Rightarrow> int" where
  "div_even a b = (let q = a div b; r = a mod b in if 2 * r < b \<or> 2 * r = b \<and> even q then q else q + 1)"

function bit_length :: "int \<Rightarrow> int" where
  "bit_length n = (if n \<le> 0 then 0 else 1 + bit_length (n div 2))"
  by pat_completeness auto
termination
  by (relation "measure nat") auto

declare bit_length.simps [simp del]

text \<open>\<open>a / b\<close> with a power of two moved to the side where it is an integer\<close>

definition scale_two :: "int \<Rightarrow> int \<Rightarrow> int \<Rightarrow> int \<times> int" where
  "scale_two a b k = (if 0 \<le> k then (a, b * 2 ^ nat k) else (a * 2 ^ nat (- k), b))"

text \<open>The double nearest to \<open>a / b\<close> as a fraction: a mantissa of 53 bits times \<open>2 ^ k\<close>\<close>

definition nearest_double :: "int \<Rightarrow> int \<Rightarrow> int \<times> int" where
  "nearest_double a b =
     (let k0 = bit_length \<bar>a\<bar> - bit_length b - 53;
          (p, q) = scale_two a b k0;
          k = (if 2 ^ 53 * q \<le> \<bar>p\<bar> then k0 + 1 else k0);
          (p, q) = scale_two a b k
      in if 0 \<le> k then (div_even p q * 2 ^ nat k, 1) else (div_even p q, 2 ^ nat (- k)))"

text \<open>The double that prints as \<open>m * 10 ^ e\<close>, and its product with a float \<open>k\<close> that is an integer\<close>

definition double_of :: "int \<Rightarrow> int \<Rightarrow> int \<times> int" where
  "double_of m e = nearest_double (if 0 \<le> e then m * 10 ^ nat e else m) (if 0 \<le> e then 1 else 10 ^ nat (- e))"

definition double_times :: "int \<Rightarrow> int \<Rightarrow> int \<Rightarrow> int \<times> int" where
  "double_times m e k = (case double_of m e of (a, b) \<Rightarrow> nearest_double (a * k) b)"

definition ratio :: "int \<times> int \<Rightarrow> real" where
  "ratio x = of_int (fst x) / of_int (snd x)"

text \<open>\<open>int(x)\<close> and \<open>round(x)\<close> of a double\<close>

definition trunc_double :: "int \<times> int \<Rightarrow> int" where
  "trunc_double x = (case x of (a, b) \<Rightarrow> if 0 \<le> a then a div b else - (- a div b))"

definition round_double :: "int \<times> int \<Rightarrow> int" where
  "round_double x = (case x of (a, b) \<Rightarrow> div_even a b)"

text \<open>\<open>int(round(float(v) * k))\<close> of a JSON number; what is no finite number counts as zero\<close>

fun json_scaled :: "json \<Rightarrow> int \<Rightarrow> int" where
  "json_scaled (JInt i) k = round_double (double_times i 0 k)"
| "json_scaled (JFloat (Fin m e)) k = round_double (double_times m e k)"
| "json_scaled (JBool b) k = round_double (double_times (if b then 1 else 0) 0 k)"
| "json_scaled _ k = 0"

declare json_scaled.simps [simp del]

subsection \<open>How near the double is\<close>

lemma div_even_near:
  assumes "0 < b"
  shows "\<bar>2 * (a - div_even a b * b)\<bar> \<le> b"
proof -
  define q r where "q = a div b" and "r = a mod b"
  have r: "0 \<le> r" "r < b" "a = q * b + r" using assms by (simp_all add: q_def r_def)
  have "div_even a b = (if 2 * r < b \<or> 2 * r = b \<and> even q then q else q + 1)" by (simp add: div_even_def q_def r_def Let_def)
  then have "2 * r \<le> b \<and> div_even a b = q \<or> b \<le> 2 * r \<and> div_even a b = q + 1" by auto
  moreover have "a - q * b = r" "a - (q + 1) * b = r - b" using r(3) by (simp_all add: distrib_right)
  ultimately have "2 * r \<le> b \<and> a - div_even a b * b = r \<or> b \<le> 2 * r \<and> a - div_even a b * b = r - b" by auto
  then show ?thesis using r(1,2) by (elim disjE) simp_all
qed

lemma bit_length_bounds:
  "0 < n \<Longrightarrow> 0 < bit_length n \<and> 2 ^ nat (bit_length n - 1) \<le> n \<and> n < 2 ^ nat (bit_length n)"
proof (induction n rule: bit_length.induct)
  case (1 n)
  show ?case
  proof (cases "n = 1")
    case True
    then show ?thesis by (simp add: bit_length.simps)
  next
    case False
    with 1 have n: "0 < n div 2" by simp
    with 1 False have ih: "0 < bit_length (n div 2)" "2 ^ nat (bit_length (n div 2) - 1) \<le> n div 2"
        "n div 2 < 2 ^ nat (bit_length (n div 2))" by auto
    have l: "bit_length n = 1 + bit_length (n div 2)" using 1(2) by (simp add: bit_length.simps [of n])
    have e: "nat (bit_length n - 1) = Suc (nat (bit_length (n div 2) - 1))" "nat (bit_length n) = Suc (nat (bit_length (n div 2)))"
      using l ih(1) by auto
    have "2 * (n div 2) \<le> n" "n < 2 * (n div 2) + 2" by presburger+
    with ih(2,3) show ?thesis unfolding e power_Suc using l ih(1) by linarith
  qed
qed

lemma ratio_scale_two:
  assumes "0 < b"
  shows "0 < snd (scale_two a b k)" "ratio (scale_two a b k) = ratio (a, b) / 2 powi k"
  using assms by (auto simp: scale_two_def ratio_def power_int_def field_simps)

lemma ratio_bits:
  assumes "a \<noteq> 0" "0 < b"
  shows "2 powi 52 < \<bar>ratio (a, b)\<bar> / 2 powi (bit_length \<bar>a\<bar> - bit_length b - 53)"
proof -
  let ?x = "\<bar>a\<bar>"
  have x: "2 ^ nat (bit_length ?x - 1) \<le> ?x" "0 < bit_length ?x" and y: "b < 2 ^ nat (bit_length b)" "0 < bit_length b"
    using assms bit_length_bounds [of ?x] bit_length_bounds [of b] by auto
  have "(2 :: real) powi (bit_length ?x - 1) = 2 ^ nat (bit_length ?x - 1)" "(2 :: real) powi bit_length b = 2 ^ nat (bit_length b)"
    using x(2) y(2) by (simp_all add: power_int_def)
  moreover have "(2 ^ nat (bit_length ?x - 1) :: real) \<le> of_int ?x" using x(1) by (metis of_int_le_iff of_int_numeral of_int_power)
  moreover have "(of_int b :: real) < 2 ^ nat (bit_length b)" using y(1) by (metis of_int_less_iff of_int_numeral of_int_power)
  ultimately have xy: "(2 :: real) powi (bit_length ?x - 1) \<le> of_int ?x" "(of_int b :: real) < 2 powi bit_length b" by simp_all
  have "(2 :: real) powi (bit_length ?x - 1) = 2 powi (52 + (bit_length ?x - bit_length b - 53)) * 2 powi bit_length b"
    by (simp add: power_int_add [symmetric])
  then have "2 powi (52 + (bit_length ?x - bit_length b - 53)) * 2 powi bit_length b \<le> (of_int ?x :: real)" using xy(1) by simp
  moreover have "2 powi (52 + (bit_length ?x - bit_length b - 53)) * of_int b
      < 2 powi (52 + (bit_length ?x - bit_length b - 53)) * (2 :: real) powi bit_length b"
    by (intro mult_strict_left_mono xy(2)) simp
  ultimately have "2 powi (52 + (bit_length ?x - bit_length b - 53)) * of_int b < (of_int ?x :: real)" by linarith
  then have "(2 :: real) powi (52 + (bit_length ?x - bit_length b - 53)) < \<bar>ratio (a, b)\<bar>"
    using assms(2) by (simp add: ratio_def field_simps)
  moreover have "(2 :: real) powi (52 + (bit_length ?x - bit_length b - 53))
      = 2 powi 52 * 2 powi (bit_length ?x - bit_length b - 53)" by (rule power_int_add) simp
  ultimately show ?thesis by (simp only: pos_less_divide_eq zero_less_power_int zero_less_numeral)
qed

text \<open>The double is nearer than \<open>2 ^ - 53\<close> of the number\<close>

lemma nearest_double_near:
  assumes "0 < b"
  shows "0 < snd (nearest_double a b)"
    "\<bar>ratio (nearest_double a b) - ratio (a, b)\<bar> * 2 ^ 53 \<le> \<bar>ratio (a, b)\<bar>"
proof -
  define k0 where "k0 = bit_length \<bar>a\<bar> - bit_length b - 53"
  define k where "k = (if 2 ^ 53 * snd (scale_two a b k0) \<le> \<bar>fst (scale_two a b k0)\<bar> then k0 + 1 else k0)"
  obtain p q where pq: "scale_two a b k = (p, q)" by (cases "scale_two a b k")
  have n: "nearest_double a b = (if 0 \<le> k then (div_even p q * 2 ^ nat k, 1) else (div_even p q, 2 ^ nat (- k)))"
    unfolding nearest_double_def Let_def case_prod_beta k0_def [symmetric] k_def [symmetric] pq fst_conv snd_conv by (rule refl)
  then show "0 < snd (nearest_double a b)" by simp
  have r: "ratio (nearest_double a b) = of_int (div_even p q) * 2 powi k"
    by (simp add: n ratio_def power_int_def field_simps)
  have q: "0 < q" "ratio (p, q) = ratio (a, b) / 2 powi k" using ratio_scale_two [OF assms, of a k] pq by auto
  show "\<bar>ratio (nearest_double a b) - ratio (a, b)\<bar> * 2 ^ 53 \<le> \<bar>ratio (a, b)\<bar>"
  proof (cases "a = 0")
    case True
    then have "p = 0" using pq by (auto simp: scale_two_def split: if_splits)
    then show ?thesis using True q(1) r by (simp add: ratio_def div_even_def)
  next
    case False
    have big: "2 ^ 52 \<le> \<bar>ratio (p, q)\<bar>"
    proof (cases "2 ^ 53 * snd (scale_two a b k0) \<le> \<bar>fst (scale_two a b k0)\<bar>")
      case True
      then have k: "k = k0 + 1" by (simp add: k_def)
      have "(of_int (2 ^ 53 * snd (scale_two a b k0)) :: real) \<le> of_int \<bar>fst (scale_two a b k0)\<bar>" using True by (simp only: of_int_le_iff)
      then have "2 ^ 53 \<le> \<bar>ratio (scale_two a b k0)\<bar>"
        using ratio_scale_two(1) [OF assms, of a k0] by (simp add: ratio_def field_simps)
      then have "2 ^ 53 \<le> \<bar>ratio (a, b)\<bar> / 2 powi k0" using ratio_scale_two(2) [OF assms, of a k0] by simp
      then show ?thesis unfolding q(2) k by (simp add: power_int_add field_simps)
    next
      case False
      with ratio_bits [OF \<open>a \<noteq> 0\<close> assms] show ?thesis unfolding q(2) k_def k0_def by (simp add: k0_def)
    qed
    have "\<bar>of_int (2 * (p - div_even p q * q))\<bar> \<le> (of_int q :: real)"
      using div_even_near [OF q(1), of p] by (metis of_int_abs of_int_le_iff)
    then have "\<bar>of_int (div_even p q) - ratio (p, q)\<bar> * 2 \<le> 1"
      using q(1) by (simp add: ratio_def field_simps abs_if split: if_splits)
    with big have "\<bar>of_int (div_even p q) - ratio (p, q)\<bar> * 2 ^ 53 \<le> \<bar>ratio (p, q)\<bar>" by simp
    moreover have "ratio (nearest_double a b) - ratio (a, b) = (of_int (div_even p q) - ratio (p, q)) * 2 powi k"
      using q(2) r by (simp add: field_simps)
    ultimately have "\<bar>ratio (nearest_double a b) - ratio (a, b)\<bar> * 2 ^ 53 \<le> \<bar>ratio (p, q)\<bar> * 2 powi k"
      by (simp add: abs_mult mult_right_mono mult.assoc mult.left_commute)
    then show ?thesis using q(2) by (simp add: field_simps)
  qed
qed

lemma double_of_near:
  "0 < snd (double_of m e)" "\<bar>ratio (double_of m e) - dec_val m e\<bar> * 2 ^ 53 \<le> \<bar>dec_val m e\<bar>"
proof -
  have v: "ratio (if 0 \<le> e then m * 10 ^ nat e else m, if 0 \<le> e then 1 else 10 ^ nat (- e)) = dec_val m e"
    by (simp add: ratio_def dec_val_def)
  have b: "0 < (if 0 \<le> e then 1 else 10 ^ nat (- e) :: int)" by simp
  show "0 < snd (double_of m e)" unfolding double_of_def by (rule nearest_double_near(1) [OF b])
  show "\<bar>ratio (double_of m e) - dec_val m e\<bar> * 2 ^ 53 \<le> \<bar>dec_val m e\<bar>"
    using nearest_double_near(2) [OF b, of "if 0 \<le> e then m * 10 ^ nat e else m"] unfolding double_of_def v .
qed

text \<open>Both roundings of a product together\<close>

lemma two_roundings:
  fixes p d v :: real
  assumes "\<bar>p - d\<bar> * 2 ^ 53 \<le> \<bar>d\<bar>" "\<bar>d - v\<bar> * 2 ^ 53 \<le> \<bar>v\<bar>"
  shows "\<bar>p - v\<bar> * 2 ^ 51 \<le> \<bar>v\<bar>"
proof -
  have lin: "x * 2 ^ 51 \<le> w" if "a * 2 ^ 53 \<le> c" "b * 2 ^ 53 \<le> w" "x \<le> a + b" "c \<le> b + w" "0 \<le> b" for a b c w x :: real
    using that by simp
  have "\<bar>p - v\<bar> \<le> \<bar>p - d\<bar> + \<bar>d - v\<bar>" "\<bar>d\<bar> \<le> \<bar>d - v\<bar> + \<bar>v\<bar>" by linarith+
  with assms show ?thesis by (rule lin) simp
qed

lemma double_times_near:
  "0 < snd (double_times m e k)"
  "\<bar>ratio (double_times m e k) - dec_val m e * of_int k\<bar> * 2 ^ 51 \<le> \<bar>dec_val m e * of_int k\<bar>"
proof -
  obtain a b where d: "double_of m e = (a, b)" by (cases "double_of m e")
  let ?v = "dec_val m e" and ?d = "ratio (a, b)" and ?k = "of_int k :: real"
  have b: "0 < b" and dv: "\<bar>?d - ?v\<bar> * 2 ^ 53 \<le> \<bar>?v\<bar>" using double_of_near [where m = m and e = e] unfolding d by auto
  have p: "double_times m e k = nearest_double (a * k) b" by (simp add: double_times_def d)
  then show "0 < snd (double_times m e k)" using nearest_double_near(1) [OF b] by simp
  have "ratio (a * k, b) = ?d * ?k" by (simp add: ratio_def)
  then have "\<bar>ratio (double_times m e k) - ?d * ?k\<bar> * 2 ^ 53 \<le> \<bar>?d * ?k\<bar>"
    using nearest_double_near(2) [OF b, of "a * k"] p by simp
  moreover have "\<bar>?d * ?k - ?v * ?k\<bar> * 2 ^ 53 \<le> \<bar>?v * ?k\<bar>"
  proof -
    have "\<bar>?d * ?k - ?v * ?k\<bar> * 2 ^ 53 = (\<bar>?d - ?v\<bar> * 2 ^ 53) * \<bar>?k\<bar>" by (simp add: left_diff_distrib [symmetric] abs_mult)
    also have "\<dots> \<le> \<bar>?v\<bar> * \<bar>?k\<bar>" by (intro mult_right_mono dv) simp
    finally show ?thesis by (simp add: abs_mult)
  qed
  ultimately show "\<bar>ratio (double_times m e k) - ?v * ?k\<bar> * 2 ^ 51 \<le> \<bar>?v * ?k\<bar>" by (rule two_roundings)
qed

lemma trunc_double_near: "0 < snd x \<Longrightarrow> \<bar>of_int (trunc_double x) - ratio x\<bar> < 1"
proof -
  assume x: "0 < snd x"
  obtain a b where ab: "x = (a, b)" by (cases x)
  have q: "\<bar>of_int (a div b) - of_int a / of_int b\<bar> < (1 :: real)" if "0 < b" for a b :: int
  proof -
    have "of_int (a div b) \<le> (of_int a / of_int b :: real)" "of_int a / of_int b < (of_int (a div b) + 1 :: real)"
      using floor_divide_of_int_eq [of a b, where 'a = real, symmetric] by linarith+
    then show ?thesis by linarith
  qed
  have "0 < b" using x ab by simp
  show ?thesis
  proof (cases "0 \<le> a")
    case True
    with q [OF \<open>0 < b\<close>, of a] show ?thesis by (simp add: ab ratio_def trunc_double_def)
  next
    case False
    have "\<bar>of_int (- (- a div b)) - of_int a / of_int b\<bar> = \<bar>of_int (- a div b) - of_int (- a) / (of_int b :: real)\<bar>" by simp
    with q [OF \<open>0 < b\<close>, of "- a"] False show ?thesis by (simp add: ab ratio_def trunc_double_def)
  qed
qed

end
