(* ===== verification/MissionWorker.thy ===== *)
theory MissionWorker
  imports Inbox PyFloat
begin

text \<open>
  \<open>aircraft_agent/telemetry.py\<close> and \<open>aircraft_agent/mission_worker.py\<close>: the telemetry the
  aircraft keeps and the gate it derives, and the upload, readback and verification of a mission
  against the flight controller.

  A MAVLink message is a record of its type and fields; the fields the code reads as numbers are
  integers, floats or the special floats. Floats are real numbers, so rounding is not modelled.
\<close>

unbundle bit_operations_syntax

subsection \<open>Messages of the flight controller\<close>

datatype mav_value = MInt int | MReal real | MNaN | MInf | MStr string

record fc_msg =
  fm_type :: string
  fm_mission_type :: "int option"
  fm_target_system :: "int option"
  fm_target_component :: "int option"
  fm_source_system :: "int option"
  fm_source_component :: "int option"
  fm_fields :: "(string \<times> mav_value) list"

definition mav_field :: "fc_msg \<Rightarrow> string \<Rightarrow> mav_value \<Rightarrow> mav_value" where
  "mav_field m k d = (case map_of (fm_fields m) k of Some v \<Rightarrow> v | None \<Rightarrow> d)"

text \<open>\<open>int(v)\<close> truncates a float and raises on NaN, infinity and text; \<open>round\<close> goes to even\<close>

definition trunc :: "real \<Rightarrow> int" where
  "trunc x = (if 0 \<le> x then \<lfloor>x\<rfloor> else \<lceil>x\<rceil>)"

fun to_int :: "mav_value \<Rightarrow> int option" where
  "to_int (MInt i) = Some i"
| "to_int (MReal x) = Some (trunc x)"
| "to_int _ = None"

definition py_round :: "real \<Rightarrow> int" where
  "py_round x =
     (let f = \<lfloor>x\<rfloor>; d = x - of_int f in
      if d < 1 / 2 then f else if 1 / 2 < d then f + 1 else if even f then f else f + 1)"

datatype fl = Fl real | FlNaN | FlInf

fun to_float :: "mav_value \<Rightarrow> fl option" where
  "to_float (MInt i) = Some (Fl (of_int i))"
| "to_float (MReal x) = Some (Fl x)"
| "to_float MNaN = Some FlNaN"
| "to_float MInf = Some FlInf"
| "to_float (MStr s) = None"

text \<open>\<open>abs(wanted - received) > tolerance\<close>, which is False when \<open>received\<close> is NaN\<close>

fun differs :: "real \<Rightarrow> fl \<Rightarrow> real \<Rightarrow> bool" where
  "differs wanted (Fl r) tol = (tol < \<bar>wanted - r\<bar>)"
| "differs wanted FlNaN tol = False"
| "differs wanted FlInf tol = True"

subsection \<open>Telemetry\<close>

record telemetry =
  t_mode :: string
  t_armed :: bool
  t_gps_fix :: int
  t_satellites :: int
  t_lat :: int
  t_lon :: int
  t_home_valid :: bool
  t_home_lat :: int
  t_home_lon :: int
  t_home_alt :: real
  t_ekf_flags :: int
  t_gps_at :: real
  t_position_at :: real
  t_home_at :: real
  t_ekf_at :: real

definition telemetry_init :: telemetry where
  "telemetry_init = \<lparr>t_mode = ''UNKNOWN'', t_armed = False, t_gps_fix = 0, t_satellites = 0, t_lat = 0, t_lon = 0,
     t_home_valid = False, t_home_lat = 0, t_home_lon = 0, t_home_alt = 0, t_ekf_flags = 0,
     t_gps_at = 0, t_position_at = 0, t_home_at = 0, t_ekf_at = 0\<rparr>"

text \<open>The fields of telemetry messages are integers on the wire; the mode is a text\<close>

definition int_field :: "fc_msg \<Rightarrow> string \<Rightarrow> int" where
  "int_field m k = (case to_int (mav_field m k (MInt 0)) of Some i \<Rightarrow> i | None \<Rightarrow> 0)"

definition mode_text :: "fc_msg \<Rightarrow> string" where
  "mode_text m = (case mav_field m ''mode'' (mav_field m ''custom_mode'' (MStr ''UNKNOWN'')) of
     MStr s \<Rightarrow> s | MInt i \<Rightarrow> (if i < 0 then ''-'' @ show_nat (nat (- i)) else show_nat (nat i)) | _ \<Rightarrow> [])"

definition telemetry_update :: "fc_msg \<Rightarrow> real \<Rightarrow> telemetry \<Rightarrow> telemetry" where
  "telemetry_update m now t =
     (if fm_type m = ''HEARTBEAT'' then
        t\<lparr>t_armed := (int_field m ''base_mode'' AND 128 \<noteq> 0), t_mode := mode_text m\<rparr>
      else if fm_type m = ''GPS_RAW_INT'' then
        t\<lparr>t_gps_fix := int_field m ''fix_type'', t_satellites := int_field m ''satellites_visible'', t_gps_at := now\<rparr>
      else if fm_type m = ''GLOBAL_POSITION_INT'' then
        t\<lparr>t_lat := int_field m ''lat'', t_lon := int_field m ''lon'', t_position_at := now\<rparr>
      else if fm_type m = ''HOME_POSITION'' then
        t\<lparr>t_home_valid := (int_field m ''latitude'' \<noteq> 0 \<and> int_field m ''longitude'' \<noteq> 0),
          t_home_lat := int_field m ''latitude'', t_home_lon := int_field m ''longitude'',
          t_home_alt := of_int (int_field m ''altitude'') / 1000, t_home_at := now\<rparr>
      else if fm_type m = ''EKF_STATUS_REPORT'' then
        t\<lparr>t_ekf_flags := int_field m ''flags'', t_ekf_at := now\<rparr>
      else t)"

definition gate_missing :: "real \<Rightarrow> real \<Rightarrow> telemetry \<Rightarrow> string list" where
  "gate_missing freshness now t =
     map snd (filter (\<lambda>(valid, lbl). \<not> valid)
       [(3 \<le> t_gps_fix t, ''GPS fix''), (6 \<le> t_satellites t, ''satellites''),
        (t_lat t \<noteq> 0 \<and> t_lon t \<noteq> 0, ''position''), (t_home_valid t, ''Home''),
        (t_ekf_flags t AND 0x11 = 0x11, ''EKF'')])
     @ map (\<lambda>(lbl, stamp). lbl @ '' stale'') (filter (\<lambda>(lbl, stamp). stamp \<le> 0 \<or> freshness < now - stamp)
       [(''GPS'', t_gps_at t), (''position'', t_position_at t), (''Home'', t_home_at t), (''EKF'', t_ekf_at t)])"

fun join_comma :: "string list \<Rightarrow> string" where
  "join_comma [] = []"
| "join_comma [s] = s"
| "join_comma (s # ss) = s @ '', '' @ join_comma ss"

definition execution_gate :: "real \<Rightarrow> real \<Rightarrow> telemetry \<Rightarrow> bool \<times> string" where
  "execution_gate freshness now t =
     (let missing = gate_missing freshness now t in
      (missing = [], if missing = [] then [] else ''missing '' @ join_comma missing))"

subsection \<open>The worker\<close>

text \<open>
  The exceptions; the texts of the code with their numbers as a list. What \<open>execute\<close> wraps is
  \<open>MissionUnsafeResidual\<close>.
\<close>

datatype mission_exc =
    MissionTimeout string "int list"
  | MissionDenied string "int list"
  | MissionVerificationError string "int list"
  | MissionValueError string
  | MissionSendError string
  | MissionBusy
  | MissionUnsafeResidual mission_exc

record mission_item =
  mi_seq :: int
  mi_frame :: int
  mi_command :: int
  mi_x :: int
  mi_y :: int
  mi_z :: real
  mi_params :: "real list"
  mi_autocontinue :: int

record readback =
  rb_frame :: int
  rb_command :: int
  rb_x :: int
  rb_y :: int
  rb_z :: fl
  rb_params :: "fl list"
  rb_autocontinue :: int

record mw_config =
  mw_timeout :: real
  mw_retries :: int
  mw_operation_timeout :: real
  mw_max_requests :: nat
  mw_coordinate_tol :: int
  mw_altitude_tol :: real
  mw_param_tol :: real
  mw_gcs_system :: int
  mw_gcs_component :: int
  mw_target_system :: int
  mw_target_component :: int

text \<open>
  What the worker sends, and what the connection makes of it: the text of the exception that
  \<open>session.send\<close> raises, or None. The sends of the transfer are numbered from 0. \<open>ms_busy\<close> tells that another
  transaction is open.
\<close>

datatype fc_out = ClearAll | MissionCount nat | ItemInt mission_item | RequestList | RequestInt nat
  | AckOut int | SetModeAuto

type_synonym mw_link = "nat \<Rightarrow> string option"

record mw_sends =
  ms_busy :: bool
  ms_transfer :: mw_link
  ms_cancel :: "string option"
  ms_clear :: "string option"
  ms_auto :: "string option"

text \<open>
  What the worker meets, one entry for each time it asks the transaction for a message: the clock
  at that moment and the message the transaction's queue holds next, or None when the wait times
  out. The transaction drops messages of other types without a look at the clock of the worker.
  A run that needs more entries than there are is \<open>Waiting\<close>.
\<close>

type_synonym mw_event = "real \<times> fc_msg option"

datatype 'a mres = Ok 'a | Exc mission_exc | Waiting

definition opt_is :: "int option \<Rightarrow> int \<Rightarrow> bool" where
  "opt_is v i \<longleftrightarrow> (case v of None \<Rightarrow> True | Some j \<Rightarrow> j = i)"

definition mw_matches :: "mw_config \<Rightarrow> fc_msg \<Rightarrow> bool" where
  "mw_matches c m \<longleftrightarrow> opt_is (fm_mission_type m) 0 \<and> opt_is (fm_target_system m) (mw_gcs_system c)
     \<and> opt_is (fm_target_component m) (mw_gcs_component c) \<and> opt_is (fm_source_system m) (mw_target_system c)
     \<and> opt_is (fm_source_component m) (mw_target_component c)"

fun mw_receive :: "mw_config \<Rightarrow> real \<Rightarrow> string list \<Rightarrow> mw_event list \<Rightarrow> fc_msg option mres \<times> mw_event list" where
  "mw_receive c dl accepted [] = (Waiting, [])"
| "mw_receive c dl accepted ((t, m) # es) =
     (if dl - t \<le> 0 then (Exc (MissionTimeout ''mission global deadline exceeded'' []), (t, m) # es)
      else case m of
        None \<Rightarrow> (Ok None, es)
      | Some msg \<Rightarrow>
          if fm_type msg \<in> set accepted \<and> mw_matches c msg then (Ok (Some msg), es)
          else mw_receive c dl accepted es)"

lemma mw_receive_shorter: "mw_receive c dl acc es = (Ok r, es') \<Longrightarrow> length es' < length es"
  by (induction c dl acc es rule: mw_receive.induct) (fastforce split: if_splits option.splits)+

text \<open>\<open>_ack_result\<close>: None when \<open>int\<close> raises\<close>

definition ack_result :: "fc_msg \<Rightarrow> int option" where
  "ack_result m = to_int (mav_field m ''result'' (mav_field m ''type'' (MInt (- 1))))"

definition not_a_number :: mission_exc where
  "not_a_number = MissionValueError ''field is not a number''"

subsection \<open>Clearing and uploading\<close>

text \<open>The send with the number \<open>k\<close>, and what follows when it does not raise\<close>

definition mw_send :: "mw_link \<Rightarrow> nat \<Rightarrow> fc_out \<Rightarrow> mw_event list \<Rightarrow> 'a mres \<times> fc_out list \<times> mw_event list \<Rightarrow>
    'a mres \<times> fc_out list \<times> mw_event list" where
  "mw_send tx k msg es r =
     (case tx k of
        Some x \<Rightarrow> (Exc (MissionSendError x), [], es)
      | None \<Rightarrow> (case r of (q, out, es') \<Rightarrow> (q, msg # out, es')))"

fun mw_clear :: "mw_config \<Rightarrow> real \<Rightarrow> mw_link \<Rightarrow> nat \<Rightarrow> nat \<Rightarrow> mw_event list \<Rightarrow> unit mres \<times> fc_out list \<times> mw_event list" where
  "mw_clear c dl tx k 0 es = (Exc (MissionTimeout ''mission clear acknowledgement timeout'' []), [], es)"
| "mw_clear c dl tx k (Suc n) es =
     mw_send tx k ClearAll es
       (case mw_receive c dl [''MISSION_ACK''] es of
          (Ok None, es') \<Rightarrow> mw_clear c dl tx (Suc k) n es'
        | (Ok (Some m), es') \<Rightarrow>
            (case ack_result m of
               None \<Rightarrow> Exc not_a_number
             | Some a \<Rightarrow> if a \<noteq> 0 then Exc (MissionDenied ''mission clear denied'' []) else Ok (), [], es')
        | (Exc e, es') \<Rightarrow> (Exc e, [], es')
        | (Waiting, es') \<Rightarrow> (Waiting, [], es'))"

text \<open>The \<open>while\<close> loop of \<open>_upload\<close>; \<open>attempts\<close> and \<open>_requests\<close> are its state\<close>

definition request_types :: "string list" where
  "request_types = [''MISSION_REQUEST'', ''MISSION_REQUEST_INT'', ''MISSION_ACK'']"

definition request_count :: "(int \<times> nat) list \<Rightarrow> int \<Rightarrow> nat" where
  "request_count rq i = (case map_of rq i of Some k \<Rightarrow> k | None \<Rightarrow> 0)"

function upload_loop :: "mw_config \<Rightarrow> real \<Rightarrow> mw_link \<Rightarrow> nat \<Rightarrow> mission_item list \<Rightarrow> int \<Rightarrow> (int \<times> nat) list \<Rightarrow> mw_event list \<Rightarrow>
    unit mres \<times> fc_out list \<times> mw_event list" where
  "upload_loop c dl tx k items attempts rq es =
     (case mw_receive c dl request_types es of
        (Exc e, es') \<Rightarrow> (Exc e, [], es')
      | (Waiting, es') \<Rightarrow> (Waiting, [], es')
      | (Ok None, es') \<Rightarrow>
          if mw_retries c \<le> attempts then (Exc (MissionTimeout ''mission item request timeout'' []), [], es')
          else mw_send tx k (MissionCount (length items)) es' (upload_loop c dl tx (Suc k) items (attempts + 1) rq es')
      | (Ok (Some m), es') \<Rightarrow>
          if fm_type m = ''MISSION_ACK'' then
            (case ack_result m of
               None \<Rightarrow> Exc not_a_number
             | Some a \<Rightarrow> if a \<noteq> 0 then Exc (MissionDenied ''mission upload denied'' []) else Ok (), [], es')
          else (case to_int (mav_field m ''seq'' (MInt (- 1))) of
             None \<Rightarrow> (Exc not_a_number, [], es')
           | Some i \<Rightarrow>
               if \<not> (0 \<le> i \<and> i < int (length items)) then (Exc (MissionDenied ''invalid mission request'' [i]), [], es')
               else if mw_max_requests c < request_count rq i + 1
                 then (Exc (MissionDenied ''mission request repeat limit'' [i]), [], es')
               else mw_send tx k (ItemInt (items ! nat i)) es'
                 (upload_loop c dl tx (Suc k) items 0 (AList.update i (request_count rq i + 1) rq) es')))"
  by pat_completeness auto
termination
  by (relation "measure (\<lambda>(c, dl, tx, k, items, a, rq, es). length es)") (auto dest: mw_receive_shorter [OF sym])

declare upload_loop.simps [simp del]

definition mw_upload :: "mw_config \<Rightarrow> real \<Rightarrow> mw_link \<Rightarrow> nat \<Rightarrow> mission_item list \<Rightarrow> mw_event list \<Rightarrow>
    unit mres \<times> fc_out list \<times> mw_event list" where
  "mw_upload c dl tx k items es =
     mw_send tx k (MissionCount (length items)) es (upload_loop c dl tx (Suc k) items 0 [] es)"


subsection \<open>Reading the mission back\<close>

fun mw_count :: "mw_config \<Rightarrow> real \<Rightarrow> mw_link \<Rightarrow> nat \<Rightarrow> nat \<Rightarrow> mw_event list \<Rightarrow> int mres \<times> fc_out list \<times> mw_event list" where
  "mw_count c dl tx k 0 es = (Exc (MissionTimeout ''mission readback count timeout'' []), [], es)"
| "mw_count c dl tx k (Suc n) es =
     mw_send tx k RequestList es
       (case mw_receive c dl [''MISSION_COUNT''] es of
          (Ok None, es') \<Rightarrow> mw_count c dl tx (Suc k) n es'
        | (Ok (Some m), es') \<Rightarrow>
            (case to_int (mav_field m ''count'' (MInt (- 1))) of None \<Rightarrow> Exc not_a_number | Some i \<Rightarrow> Ok i, [], es')
        | (Exc e, es') \<Rightarrow> (Exc e, [], es')
        | (Waiting, es') \<Rightarrow> (Waiting, [], es'))"

text \<open>A coordinate of MISSION_ITEM is a single, whose 24 bits times the 17 odd bits of 1e7 fit a double: the product is exact\<close>

definition read_coordinate :: "bool \<Rightarrow> mav_value \<Rightarrow> int option" where
  "read_coordinate is_float v =
     (if is_float then (case to_float v of Some (Fl x) \<Rightarrow> Some (py_round (x * 10000000)) | _ \<Rightarrow> None) else to_int v)"

definition all_some :: "'a option list \<Rightarrow> 'a list option" where
  "all_some xs = (if None \<in> set xs then None else Some (map the xs))"

definition read_item :: "fc_msg \<Rightarrow> readback option" where
  "read_item m =
     (let fp = (fm_type m = ''MISSION_ITEM'') in
      case (to_int (mav_field m ''frame'' (MInt (- 1))), to_int (mav_field m ''command'' (MInt (- 1))),
            read_coordinate fp (mav_field m ''x'' (MInt 0)), read_coordinate fp (mav_field m ''y'' (MInt 0)),
            to_float (mav_field m ''z'' (MReal 0)),
            all_some (map (\<lambda>k. to_float (mav_field m k (MReal 0))) [''param1'', ''param2'', ''param3'', ''param4'']),
            to_int (mav_field m ''autocontinue'' (MInt 1))) of
        (Some fr, Some cmd, Some x, Some y, Some z, Some ps, Some au) \<Rightarrow>
          Some \<lparr>rb_frame = fr, rb_command = cmd, rb_x = x, rb_y = y, rb_z = z, rb_params = ps, rb_autocontinue = au\<rparr>
      | _ \<Rightarrow> None)"

fun mw_read_one :: "mw_config \<Rightarrow> real \<Rightarrow> mw_link \<Rightarrow> nat \<Rightarrow> nat \<Rightarrow> nat \<Rightarrow> mw_event list \<Rightarrow>
    readback mres \<times> fc_out list \<times> mw_event list" where
  "mw_read_one c dl tx k i 0 es = (Exc (MissionTimeout ''mission readback item timeout'' [int i]), [], es)"
| "mw_read_one c dl tx k i (Suc n) es =
     mw_send tx k (RequestInt i) es
       (case mw_receive c dl [''MISSION_ITEM'', ''MISSION_ITEM_INT''] es of
          (Ok None, es') \<Rightarrow> mw_read_one c dl tx (Suc k) i n es'
        | (Ok (Some m), es') \<Rightarrow>
            (case to_int (mav_field m ''seq'' (MInt (- 1))) of
               None \<Rightarrow> (Exc not_a_number, [], es')
             | Some q \<Rightarrow>
                 if q \<noteq> int i then mw_read_one c dl tx (Suc k) i n es'
                 else (case read_item m of None \<Rightarrow> Exc not_a_number | Some rb \<Rightarrow> Ok rb, [], es'))
        | (Exc e, es') \<Rightarrow> (Exc e, [], es')
        | (Waiting, es') \<Rightarrow> (Waiting, [], es'))"

definition attempts_of :: "mw_config \<Rightarrow> nat" where
  "attempts_of c = nat (mw_retries c + 1)"

fun mw_read_all :: "mw_config \<Rightarrow> real \<Rightarrow> mw_link \<Rightarrow> nat \<Rightarrow> nat list \<Rightarrow> mw_event list \<Rightarrow>
    readback list mres \<times> fc_out list \<times> mw_event list" where
  "mw_read_all c dl tx k [] es = (Ok [], [], es)"
| "mw_read_all c dl tx k (i # ks) es =
     (case mw_read_one c dl tx k i (attempts_of c) es of
        (Ok rb, out, es') \<Rightarrow> (case mw_read_all c dl tx (k + length out) ks es' of
            (Ok rbs, out', es'') \<Rightarrow> (Ok (rb # rbs), out @ out', es'')
          | (Exc e, out', es'') \<Rightarrow> (Exc e, out @ out', es'')
          | (Waiting, out', es'') \<Rightarrow> (Waiting, out @ out', es''))
      | (Exc e, out, es') \<Rightarrow> (Exc e, out, es')
      | (Waiting, out, es') \<Rightarrow> (Waiting, out, es'))"

definition mw_download :: "mw_config \<Rightarrow> real \<Rightarrow> mw_link \<Rightarrow> nat \<Rightarrow> nat \<Rightarrow> mw_event list \<Rightarrow>
    readback list mres \<times> fc_out list \<times> mw_event list" where
  "mw_download c dl tx k expected es =
     (case mw_count c dl tx k (attempts_of c) es of
        (Ok i, out, es') \<Rightarrow>
          if i \<noteq> int expected
            then (Exc (MissionVerificationError ''mission readback count'' [int expected, i]), out, es')
          else (case mw_read_all c dl tx (k + length out) [0..<expected] es' of
              (Ok rbs, out', es'') \<Rightarrow>
                (case tx (k + length out + length out') of
                   Some x \<Rightarrow> (Exc (MissionSendError x), out @ out', es'')
                 | None \<Rightarrow> (Ok rbs, out @ out' @ [AckOut 0], es''))
            | (r, out', es'') \<Rightarrow> (r, out @ out', es''))
      | (Exc e, out, es') \<Rightarrow> (Exc e, out, es')
      | (Waiting, out, es') \<Rightarrow> (Waiting, out, es'))"

subsection \<open>Verification\<close>

definition position_differs :: "mw_config \<Rightarrow> mission_item \<Rightarrow> readback \<Rightarrow> bool" where
  "position_differs c w r \<longleftrightarrow> mw_coordinate_tol c < \<bar>mi_x w - rb_x r\<bar> \<or> mw_coordinate_tol c < \<bar>mi_y w - rb_y r\<bar>
     \<or> differs (mi_z w) (rb_z r) (mw_altitude_tol c)"

definition verify_item :: "mw_config \<Rightarrow> mission_item \<Rightarrow> readback \<Rightarrow> mission_exc option" where
  "verify_item c w r = first_error
     [unless (mi_command w = rb_command r \<and> mi_frame w = rb_frame r)
        (MissionVerificationError ''mission readback command/frame mismatch'' [mi_seq w]),
      unless (\<not> position_differs c w r)
        (MissionVerificationError ''mission readback position mismatch'' [mi_seq w]),
      unless (list_all (\<lambda>(p, q). \<not> differs p q (mw_param_tol c)) (zip (mi_params w) (rb_params r)))
        (MissionVerificationError ''mission readback param mismatch'' [mi_seq w]),
      unless (mi_autocontinue w = rb_autocontinue r)
        (MissionVerificationError ''mission readback autocontinue mismatch'' [mi_seq w])]"

definition mw_verify :: "mw_config \<Rightarrow> mission_item list \<Rightarrow> readback list \<Rightarrow> mission_exc option" where
  "mw_verify c ws rs = first_error (map (\<lambda>(w, r). verify_item c w r) (zip ws rs))"

definition verify_home :: "mw_config \<Rightarrow> mission_item \<Rightarrow> readback \<Rightarrow> mission_exc option" where
  "verify_home c w r = first_error
     [unless (rb_command r = 16 \<and> rb_frame r = 0)
        (MissionVerificationError ''mission readback protocol Home command/frame mismatch'' [0]),
      unless (\<not> position_differs c w r)
        (MissionVerificationError ''mission readback protocol Home position mismatch'' [0])]"

subsection \<open>The mission of a durable record\<close>

definition item_params :: "pydict \<Rightarrow> real list" where
  "item_params d = map (\<lambda>k. real_of (get_or d k (JInt 0))) [''param1'', ''param2'', ''param3'', ''param4'']"

definition item_of_raw :: "int \<Rightarrow> pydict \<Rightarrow> mission_exc + mission_item" where
  "item_of_raw i d =
     (let cmd = int_of (get_or d ''command'' (JInt 16));
          fr = int_of (get_or d ''frame'' (JInt 6))
      in if cmd = 16 \<and> list_ex (\<lambda>p. p \<noteq> 0) (item_params d)
           then Inl (MissionValueError ''unsupported simple NAV_WAYPOINT params must be zero'')
         else Inr \<lparr>mi_seq = i, mi_frame = (if fr = 6 then 3 else fr), mi_command = cmd,
           mi_x = json_scaled (fld d ''lat'') 10000000, mi_y = json_scaled (fld d ''lon'') 10000000,
           mi_z = real_of (fld d ''alt''), mi_params = item_params d,
           mi_autocontinue = (if bool_of (get_or d ''autocontinue'' (JBool True)) then 1 else 0)\<rparr>)"

fun items_of_raws :: "int \<Rightarrow> json list \<Rightarrow> mission_exc + mission_item list" where
  "items_of_raws i [] = Inr []"
| "items_of_raws i (v # vs) =
     (case item_of_raw i (dict_of v) of
        Inl e \<Rightarrow> Inl e
      | Inr it \<Rightarrow> map_sum id (Cons it) (items_of_raws (i + 1) vs))"

fun items_from_record :: "job \<Rightarrow> mission_exc + mission_item list" where
  "items_from_record (CommandJob cid a p) = Inl (MissionValueError ''complete durable mission record is required'')"
| "items_from_record (MissionJob cid mid raws checksum) =
     (if raws = [] then Inl (MissionValueError ''complete durable mission items are required'')
      else if 100 \<le> length raws then Inl (MissionValueError ''aircraft mission exceeds 99 user items plus protocol Home'')
      else (case ascii_digest (JArr raws) of
          Inl e \<Rightarrow> Inl (MissionValueError ''Out of range float values are not JSON compliant'')
        | Inr ck \<Rightarrow>
            if ck \<noteq> checksum then Inl (MissionValueError ''durable mission checksum mismatch'')
            else items_of_raws 0 raws))"

definition protocol_home :: "telemetry \<Rightarrow> mission_item" where
  "protocol_home t = \<lparr>mi_seq = 0, mi_frame = 0, mi_command = 16,
     mi_x = (if t_home_valid t then t_home_lat t else 0), mi_y = (if t_home_valid t then t_home_lon t else 0),
     mi_z = (if t_home_valid t then t_home_alt t else 0), mi_params = [0, 0, 0, 0], mi_autocontinue = 1\<rparr>"

definition protocol_items :: "telemetry \<Rightarrow> mission_item list \<Rightarrow> mission_item list" where
  "protocol_items t us = protocol_home t # map (\<lambda>(i, u). u\<lparr>mi_seq := int i\<rparr>) (enumerate 1 us)"

subsection \<open>\<open>execute\<close>\<close>

text \<open>\<open>_cleanup\<close>: the clock of its first entry is the one its deadline is counted from\<close>

fun cleanup_loop :: "mw_config \<Rightarrow> real \<Rightarrow> mw_event list \<Rightarrow> bool mres \<times> mw_event list" where
  "cleanup_loop c dl [] = (Waiting, [])"
| "cleanup_loop c dl ((t, m) # es) =
     (if \<not> t < dl then (Ok False, (t, m) # es)
      else case m of
        None \<Rightarrow> (Ok False, es)
      | Some msg \<Rightarrow>
          if fm_type msg = ''MISSION_ACK'' \<and> mw_matches c msg
            then (case ack_result msg of None \<Rightarrow> Exc not_a_number | Some a \<Rightarrow> Ok (a = 0), es)
          else cleanup_loop c dl es)"

definition mw_cleanup :: "mw_config \<Rightarrow> mw_sends \<Rightarrow> mw_event list \<Rightarrow> bool mres \<times> fc_out list \<times> mw_event list" where
  "mw_cleanup c sn es =
     (case ms_cancel sn of
        Some x \<Rightarrow> (Exc (MissionSendError x), [], es)
      | None \<Rightarrow>
          (case ms_clear sn of
             Some x \<Rightarrow> (Exc (MissionSendError x), [AckOut 15], es)
           | None \<Rightarrow>
               (case es of
                  [] \<Rightarrow> (Waiting, [AckOut 15, ClearAll], [])
                | (t, m) # _ \<Rightarrow> (case cleanup_loop c (t + max 1 (mw_timeout c)) es of
                      (r, es') \<Rightarrow> (r, [AckOut 15, ClearAll], es')))))"

record mission_result =
  mr_verified :: bool
  mr_execution_ready :: bool
  mr_reason :: string
  mr_item_count :: nat

text \<open>The body of the \<open>try\<close>: clear, upload, download, verify\<close>

definition mw_transfer :: "mw_config \<Rightarrow> real \<Rightarrow> mw_link \<Rightarrow> mission_item list \<Rightarrow> mw_event list \<Rightarrow>
    unit mres \<times> fc_out list \<times> mw_event list" where
  "mw_transfer c dl tx items es =
     (case mw_clear c dl tx 0 (attempts_of c) es of
        (Ok _, o1, es1) \<Rightarrow>
          (case mw_upload c dl tx (length o1) items es1 of
             (Ok _, o2, es2) \<Rightarrow>
               (case mw_download c dl tx (length o1 + length o2) (length items) es2 of
                  (Ok rbs, o3, es3) \<Rightarrow>
                    (case first_error [verify_home c (hd items) (hd rbs), mw_verify c (tl items) (tl rbs)] of
                       None \<Rightarrow> Ok () | Some e \<Rightarrow> Exc e, o1 @ o2 @ o3, es3)
                | (Exc e, o3, es3) \<Rightarrow> (Exc e, o1 @ o2 @ o3, es3)
                | (Waiting, o3, es3) \<Rightarrow> (Waiting, o1 @ o2 @ o3, es3))
           | (Exc e, o2, es2) \<Rightarrow> (Exc e, o1 @ o2, es2)
           | (Waiting, o2, es2) \<Rightarrow> (Waiting, o1 @ o2, es2))
      | (Exc e, o1, es1) \<Rightarrow> (Exc e, o1, es1)
      | (Waiting, o1, es1) \<Rightarrow> (Waiting, o1, es1))"

text \<open>
  \<open>t0\<close> is the clock when the operation starts, \<open>tel\<close> the telemetry then, and \<open>gate\<close> what
  \<open>execution_gate\<close> says after the readback. An exception of the cleanup replaces the one of the transfer, and
  one of the last send leaves the verified mission where it is.
\<close>

definition mw_execute :: "mw_config \<Rightarrow> mw_sends \<Rightarrow> job \<Rightarrow> bool \<Rightarrow> telemetry \<Rightarrow> real \<Rightarrow> bool \<times> string \<Rightarrow> mw_event list \<Rightarrow>
    mission_result mres \<times> fc_out list \<times> mw_event list" where
  "mw_execute c sn j start_auto tel t0 gate es =
     (case items_from_record j of
        Inl e \<Rightarrow> (Exc e, [], es)
      | Inr us \<Rightarrow>
          if ms_busy sn then (Exc MissionBusy, [], es)
          else (case mw_transfer c (t0 + mw_operation_timeout c) (ms_transfer sn) (protocol_items tel us) es of
             (Ok _, out, es') \<Rightarrow>
               (let ok = Ok \<lparr>mr_verified = True, mr_execution_ready = fst gate, mr_reason = snd gate, mr_item_count = length us\<rparr> in
                if start_auto \<and> fst gate then
                  (case ms_auto sn of Some x \<Rightarrow> (Exc (MissionSendError x), out, es') | None \<Rightarrow> (ok, out @ [SetModeAuto], es'))
                else (ok, out, es'))
           | (Exc e, out, es') \<Rightarrow>
               (case mw_cleanup c sn es' of
                  (Ok True, out', es'') \<Rightarrow> (Exc e, out @ out', es'')
                | (Ok False, out', es'') \<Rightarrow> (Exc (MissionUnsafeResidual e), out @ out', es'')
                | (Exc e', out', es'') \<Rightarrow> (Exc e', out @ out', es'')
                | (Waiting, out', es'') \<Rightarrow> (Waiting, out @ out', es''))
           | (Waiting, out, es') \<Rightarrow> (Waiting, out, es')))"

end
