(* ===== verification/MissionProps.thy ===== *)
theory MissionProps
  imports MissionWorker InboxProps
begin

text \<open>
  The mission upload: a mission reported as verified was read back from the flight controller
  item by item within the tolerances, a failed one was cleared or is reported as unsafe, and a
  flight controller that keeps asking cannot keep the upload going.
\<close>

subsection \<open>What was received\<close>

lemma mw_receive_set: "mw_receive c dl acc es = (r, es') \<Longrightarrow> set es' \<subseteq> set es"
  by (induction c dl acc es rule: mw_receive.induct) (fastforce split: if_splits option.splits)+

lemma mw_receive_msg:
  "mw_receive c dl acc es = (Ok (Some m), es') \<Longrightarrow>
     (\<exists>t. (t, Some m) \<in> set es \<and> t < dl) \<and> fm_type m \<in> set acc \<and> mw_matches c m"
  by (induction c dl acc es rule: mw_receive.induct) (fastforce split: if_splits option.splits)+

text \<open>A send raises and nothing more happens, or it is the first of what is sent\<close>

lemma mw_send_eq:
  assumes "mw_send tx k msg es r = (q, out, es')"
  obtains (raised) x where "tx k = Some x" "q = Exc (MissionSendError x)" "out = []" "es' = es"
  | (sent) out' where "tx k = None" "r = (q, out', es')" "out = msg # out'"
  using assms by (cases "tx k"; cases r) (auto simp: mw_send_def)

lemma mw_clear_set: "mw_clear c dl tx k n es = (r, out, es') \<Longrightarrow> set es' \<subseteq> set es"
  by (induction c dl tx k n es arbitrary: r out es' rule: mw_clear.induct)
    (fastforce simp: mw_send_def split: prod.splits mres.splits option.splits dest: mw_receive_set)+

text \<open>One turn of the loop of \<open>_upload\<close>\<close>

lemma upload_turn:
  assumes "upload_loop c dl tx k items a rq es = (r, out, es')" "mw_receive c dl request_types es = (q, es1)"
  obtains (stop) "out = []" "es' = es1"
  | (again) out' where "q = Ok None" "a < mw_retries c" "upload_loop c dl tx (Suc k) items (a + 1) rq es1 = (r, out', es')"
      "out = MissionCount (length items) # out'"
  | (item) m i out' where "q = Ok (Some m)" "0 \<le> i" "i < int (length items)" "request_count rq i < mw_max_requests c"
      "upload_loop c dl tx (Suc k) items 0 (AList.update i (request_count rq i + 1) rq) es1 = (r, out', es')"
      "out = ItemInt (items ! nat i) # out'"
proof -
  note u = assms(1) [unfolded upload_loop.simps [of c dl tx k items a rq es] assms(2)]
  show thesis
  proof (cases q)
    case (Ok mo)
    show thesis
    proof (cases mo)
      case None
      show thesis
      proof (cases "mw_retries c \<le> a")
        case True
        with u Ok None show thesis by (auto intro: stop)
      next
        case False
        with u Ok None have "mw_send tx k (MissionCount (length items)) es1 (upload_loop c dl tx (Suc k) items (a + 1) rq es1)
            = (r, out, es')" by simp
        then show thesis
          by (rule mw_send_eq) (use False Ok None in \<open>auto intro: stop again\<close>)
      qed
    next
      case (Some m)
      show thesis
      proof (cases "to_int (mav_field m ''seq'' (MInt (- 1)))")
        case None
        with u Ok Some show thesis by (auto split: if_splits intro: stop)
      next
        case i: (Some i)
        show thesis
        proof (cases "fm_type m \<noteq> ''MISSION_ACK'' \<and> 0 \<le> i \<and> i < int (length items) \<and> request_count rq i < mw_max_requests c")
          case True
          with u Ok Some i have "mw_send tx k (ItemInt (items ! nat i)) es1
              (upload_loop c dl tx (Suc k) items 0 (AList.update i (request_count rq i + 1) rq) es1) = (r, out, es')" by simp
          then show thesis by (rule mw_send_eq) (use True Ok Some in \<open>auto intro: stop item\<close>)
        next
          case False
          with u Ok Some i show thesis by (auto split: if_splits intro: stop)
        qed
      qed
    qed
  qed (use u in \<open>auto intro: stop\<close>)
qed

lemma upload_loop_set: "upload_loop c dl tx k items a rq es = (r, out, es') \<Longrightarrow> set es' \<subseteq> set es"
proof (induction "length es" arbitrary: k a rq es out rule: less_induct)
  case less
  obtain q es1 where q: "mw_receive c dl request_types es = (q, es1)" by (cases "mw_receive c dl request_types es")
  note sub = mw_receive_set [OF q]
  from less(2) q show ?case
  proof (cases rule: upload_turn)
    case (again out')
    with less(1) [OF _ again(3)] q mw_receive_shorter sub show ?thesis by blast
  next
    case (item m i out')
    with less(1) [OF _ item(5)] q mw_receive_shorter sub show ?thesis by blast
  qed (use sub in simp)
qed

lemma mw_upload_set: "mw_upload c dl tx k items es = (r, out, es') \<Longrightarrow> set es' \<subseteq> set es"
  unfolding mw_upload_def by (erule mw_send_eq) (auto dest: upload_loop_set)

lemma mw_count_set: "mw_count c dl tx k n es = (r, out, es') \<Longrightarrow> set es' \<subseteq> set es"
  by (induction c dl tx k n es arbitrary: r out es' rule: mw_count.induct)
    (fastforce simp: mw_send_def split: prod.splits mres.splits option.splits dest: mw_receive_set)+

text \<open>One turn of the loop of \<open>_download_item\<close>: it stops, maybe with the item, or asks again\<close>

lemma read_turn:
  assumes "mw_read_one c dl tx k i (Suc n) es = (r, out, es')"
  obtains (stop) "set es' \<subseteq> set es" "set out \<subseteq> {RequestInt i}" "\<And>rb. r \<noteq> Ok rb"
  | (item) t m rb where "set es' \<subseteq> set es" "set out \<subseteq> {RequestInt i}" "r = Ok rb" "(t, Some m) \<in> set es" "t < dl" "mw_matches c m"
      "to_int (mav_field m ''seq'' (MInt (- 1))) = Some (int i)" "read_item m = Some rb"
  | (again) es1 out' where "set es1 \<subseteq> set es" "mw_read_one c dl tx (Suc k) i n es1 = (r, out', es')" "out = RequestInt i # out'"
proof -
  obtain q es1 where q: "mw_receive c dl [''MISSION_ITEM'', ''MISSION_ITEM_INT''] es = (q, es1)"
    by (cases "mw_receive c dl [''MISSION_ITEM'', ''MISSION_ITEM_INT''] es")
  have sub: "set es1 \<subseteq> set es" by (rule mw_receive_set [OF q])
  from assms have m: "mw_send tx k (RequestInt i) es
     (case q of
        Ok None \<Rightarrow> mw_read_one c dl tx (Suc k) i n es1
      | Ok (Some m) \<Rightarrow>
          (case to_int (mav_field m ''seq'' (MInt (- 1))) of
             None \<Rightarrow> (Exc not_a_number, [], es1)
           | Some s \<Rightarrow>
               if s \<noteq> int i then mw_read_one c dl tx (Suc k) i n es1
               else (case read_item m of None \<Rightarrow> Exc not_a_number | Some rb \<Rightarrow> Ok rb, [], es1))
      | Exc e \<Rightarrow> (Exc e, [], es1)
      | Waiting \<Rightarrow> (Waiting, [], es1)) = (r, out, es')"
    by (simp add: q)
  from m show thesis
  proof (rule mw_send_eq)
    fix out'
    assume r: "(case q of
        Ok None \<Rightarrow> mw_read_one c dl tx (Suc k) i n es1
      | Ok (Some m) \<Rightarrow>
          (case to_int (mav_field m ''seq'' (MInt (- 1))) of
             None \<Rightarrow> (Exc not_a_number, [], es1)
           | Some s \<Rightarrow>
               if s \<noteq> int i then mw_read_one c dl tx (Suc k) i n es1
               else (case read_item m of None \<Rightarrow> Exc not_a_number | Some rb \<Rightarrow> Ok rb, [], es1))
      | Exc e \<Rightarrow> (Exc e, [], es1)
      | Waiting \<Rightarrow> (Waiting, [], es1)) = (r, out', es')" and out: "out = RequestInt i # out'"
    show thesis
    proof (cases q)
      case (Ok mo)
      show thesis
      proof (cases mo)
        case None
        with r Ok out sub show thesis by (intro again) auto
      next
        case (Some m)
        note msg = mw_receive_msg [OF q [unfolded Ok Some]]
        show thesis
        proof (cases "to_int (mav_field m ''seq'' (MInt (- 1)))")
          case None
          with r Ok Some out sub show thesis by (intro stop) auto
        next
          case s: (Some v)
          show thesis
          proof (cases "v = int i")
            case False
            with r Ok Some s out sub show thesis by (intro again) auto
          next
            case True
            show thesis
            proof (cases "read_item m")
              case None
              with r Ok Some s True out sub show thesis by (intro stop) auto
            next
              case (Some rb)
              with r Ok \<open>mo = Some m\<close> s True have eq: "r = Ok rb" "out' = []" "es' = es1" by simp_all
              from msg obtain t where t: "(t, Some m) \<in> set es" "t < dl" by blast
              show thesis
                by (rule item [OF _ _ eq(1) t _ _ Some]) (use msg eq sub s True out in auto)
            qed
          qed
        qed
      qed
    qed (use r out sub in \<open>auto intro: stop\<close>)
  qed (auto intro: stop)
qed

definition read_from :: "mw_config \<Rightarrow> real \<Rightarrow> mw_event list \<Rightarrow> nat \<Rightarrow> readback \<Rightarrow> bool" where
  "read_from c dl es i rb \<longleftrightarrow> (\<exists>t m. (t, Some m) \<in> set es \<and> t < dl \<and> mw_matches c m
     \<and> to_int (mav_field m ''seq'' (MInt (- 1))) = Some (int i) \<and> read_item m = Some rb)"

lemma read_from_mono: "read_from c dl es i rb \<Longrightarrow> set es \<subseteq> set es' \<Longrightarrow> read_from c dl es' i rb"
  unfolding read_from_def by blast

lemma mw_read_one_ok:
  "mw_read_one c dl tx k i n es = (r, out, es') \<Longrightarrow>
     set es' \<subseteq> set es \<and> set out \<subseteq> {RequestInt i} \<and> (\<forall>rb. r = Ok rb \<longrightarrow> read_from c dl es i rb)"
proof (induction n arbitrary: k es out)
  case (Suc n)
  from Suc.prems show ?case
  proof (cases rule: read_turn)
    case (item t m rb)
    then show ?thesis unfolding read_from_def by auto
  next
    case (again es1 out')
    with Suc.IH [OF again(2)] show ?thesis by (auto intro: read_from_mono)
  qed auto
qed auto

text \<open>\<open>mw_read_all\<close> asks for one item after the other\<close>

lemma read_all_turn:
  assumes "mw_read_all c dl tx k (i # ks) es = (r, out, es')"
  obtains (stop) q where "mw_read_one c dl tx k i (attempts_of c) es = (q, out, es')" "\<And>rbs. r \<noteq> Ok rbs"
  | (more) rb o1 e1 r2 o2 where "mw_read_one c dl tx k i (attempts_of c) es = (Ok rb, o1, e1)"
      "mw_read_all c dl tx (k + length o1) ks e1 = (r2, o2, es')" "out = o1 @ o2"
      "\<And>rbs. r = Ok rbs \<Longrightarrow> \<exists>rs. r2 = Ok rs \<and> rbs = rb # rs"
proof -
  obtain r1 o1 e1 where one: "mw_read_one c dl tx k i (attempts_of c) es = (r1, o1, e1)"
    by (cases "mw_read_one c dl tx k i (attempts_of c) es")
  obtain r2 o2 e2 where rest: "mw_read_all c dl tx (k + length o1) ks e1 = (r2, o2, e2)"
    by (cases "mw_read_all c dl tx (k + length o1) ks e1")
  show thesis
  proof (cases r1)
    case (Ok rb)
    with assms one rest have "es' = e2" "out = o1 @ o2" "r = (case r2 of Ok rs \<Rightarrow> Ok (rb # rs) | Exc e \<Rightarrow> Exc e | Waiting \<Rightarrow> Waiting)"
      by (auto split: mres.splits)
    with one rest Ok show thesis by (intro more) (auto split: mres.splits)
  qed (use assms one in \<open>auto intro: stop\<close>)
qed

lemma mw_read_all_ok:
  "mw_read_all c dl tx k ks es = (r, out, es') \<Longrightarrow>
     set es' \<subseteq> set es \<and> SetModeAuto \<notin> set out \<and> (\<forall>rbs. r = Ok rbs \<longrightarrow> list_all2 (read_from c dl es) ks rbs)"
proof (induction ks arbitrary: k es r out)
  case (Cons i ks)
  from Cons.prems show ?case
  proof (cases rule: read_all_turn)
    case (stop q)
    with mw_read_one_ok [OF stop(1)] show ?thesis by auto
  next
    case (more rb o1 e1 r2 o2)
    have sub: "set e1 \<subseteq> set es" and one: "SetModeAuto \<notin> set o1" "read_from c dl es i rb" using mw_read_one_ok [OF more(1)] by auto
    from Cons.IH [OF more(2)] have rest: "set es' \<subseteq> set e1" "SetModeAuto \<notin> set o2"
        "\<And>rs. r2 = Ok rs \<Longrightarrow> list_all2 (read_from c dl es) ks rs"
      using read_from_mono [OF _ sub] by (auto elim: list_all2_mono)
    show ?thesis using sub one rest more(3) more(4) by (auto simp del: split_paired_Ex)
  qed
qed simp

lemma mw_count_out: "mw_count c dl tx k n es = (r, out, es') \<Longrightarrow> SetModeAuto \<notin> set out"
  by (induction c dl tx k n es arbitrary: r out es' rule: mw_count.induct)
    (fastforce simp: mw_send_def split: prod.splits mres.splits option.splits)+

lemma mw_download_ok:
  assumes "mw_download c dl tx k n es = (r, out, es')"
  shows "set es' \<subseteq> set es \<and> SetModeAuto \<notin> set out \<and> (\<forall>rbs. r = Ok rbs \<longrightarrow> list_all2 (read_from c dl es) [0..<n] rbs)"
proof -
  obtain r1 o1 e1 where count: "mw_count c dl tx k (attempts_of c) es = (r1, o1, e1)"
    by (cases "mw_count c dl tx k (attempts_of c) es")
  obtain r2 o2 e2 where rest: "mw_read_all c dl tx (k + length o1) [0..<n] e1 = (r2, o2, e2)"
    by (cases "mw_read_all c dl tx (k + length o1) [0..<n] e1")
  have "es' = e1 \<and> out = o1 \<and> (\<forall>rbs. r \<noteq> Ok rbs)
      \<or> es' = e2 \<and> (out = o1 @ o2 \<or> out = o1 @ o2 @ [AckOut 0]) \<and> (\<forall>rbs. r = Ok rbs \<longrightarrow> r2 = Ok rbs)"
    using assms count rest by (auto simp: mw_download_def split: mres.splits if_splits option.splits)
  moreover have "list_all2 (read_from c dl es) [0..<n] rbs" if "r2 = Ok rbs" for rbs
    using mw_read_all_ok [OF rest] that read_from_mono [OF _ mw_count_set [OF count]] by (auto elim: list_all2_mono)
  ultimately show ?thesis using mw_count_set [OF count] mw_count_out [OF count] mw_read_all_ok [OF rest] by auto
qed

subsection \<open>The whole transfer\<close>

lemma mw_clear_out: "mw_clear c dl tx k n es = (r, out, es') \<Longrightarrow> SetModeAuto \<notin> set out"
  by (induction c dl tx k n es arbitrary: r out es' rule: mw_clear.induct)
    (fastforce simp: mw_send_def split: prod.splits mres.splits option.splits)+

lemma upload_loop_out: "upload_loop c dl tx k items a rq es = (r, out, es') \<Longrightarrow> SetModeAuto \<notin> set out"
proof (induction "length es" arbitrary: k a rq es out rule: less_induct)
  case less
  obtain q es1 where q: "mw_receive c dl request_types es = (q, es1)" by (cases "mw_receive c dl request_types es")
  from less(2) q show ?case
  proof (cases rule: upload_turn)
    case (again out')
    then have "length es1 < length es" using q mw_receive_shorter by blast
    from less(1) [OF this again(3)] again(4) show ?thesis by simp
  next
    case (item m i out')
    then have "length es1 < length es" using q mw_receive_shorter by blast
    from less(1) [OF this item(5)] item(6) show ?thesis by simp
  qed simp
qed

lemma mw_upload_out: "mw_upload c dl tx k items es = (r, out, es') \<Longrightarrow> SetModeAuto \<notin> set out"
  unfolding mw_upload_def by (erule mw_send_eq) (auto dest: upload_loop_out)

lemma mw_transfer_ok:
  assumes "mw_transfer c dl tx items es = (r, out, es')"
  shows "set es' \<subseteq> set es \<and> SetModeAuto \<notin> set out
    \<and> (r = Ok () \<longrightarrow> (\<exists>rbs. list_all2 (read_from c dl es) [0..<length items] rbs
         \<and> verify_home c (hd items) (hd rbs) = None \<and> mw_verify c (tl items) (tl rbs) = None))"
proof -
  obtain r1 o1 e1 where a: "mw_clear c dl tx 0 (attempts_of c) es = (r1, o1, e1)"
    by (cases "mw_clear c dl tx 0 (attempts_of c) es")
  obtain r2 o2 e2 where b: "mw_upload c dl tx (length o1) items e1 = (r2, o2, e2)" by (cases "mw_upload c dl tx (length o1) items e1")
  obtain r3 o3 e3 where d: "mw_download c dl tx (length o1 + length o2) (length items) e2 = (r3, o3, e3)"
    by (cases "mw_download c dl tx (length o1 + length o2) (length items) e2")
  have sub: "set e1 \<subseteq> set es" "set e2 \<subseteq> set es" using mw_clear_set [OF a] mw_upload_set [OF b] by auto
  have "es' = e1 \<and> out = o1 \<and> r \<noteq> Ok () \<or> es' = e2 \<and> out = o1 @ o2 \<and> r \<noteq> Ok () \<or> es' = e3 \<and> out = o1 @ o2 @ o3
      \<and> (r = Ok () \<longrightarrow> (\<exists>rbs. r3 = Ok rbs \<and> verify_home c (hd items) (hd rbs) = None \<and> mw_verify c (tl items) (tl rbs) = None))"
    using assms a b d by (auto simp: mw_transfer_def first_error_Cons split: mres.splits option.splits)
  moreover have "list_all2 (read_from c dl es) [0..<length items] rbs" if "r3 = Ok rbs" for rbs
    using mw_download_ok [OF d] that read_from_mono [OF _ sub(2)] by (auto elim: list_all2_mono)
  moreover have "SetModeAuto \<notin> set o1 \<union> set o2 \<union> set o3"
    using mw_clear_out [OF a] mw_upload_out [OF b] mw_download_ok [OF d] by simp
  ultimately show ?thesis using sub mw_download_ok [OF d] by auto
qed

subsection \<open>Verification\<close>

definition near :: "real \<Rightarrow> fl \<Rightarrow> real \<Rightarrow> bool" where
  "near w r tol \<longleftrightarrow> r = FlNaN \<or> (\<exists>x. r = Fl x \<and> \<bar>w - x\<bar> \<le> tol)"

lemma not_differs: "\<not> differs w r tol \<longleftrightarrow> near w r tol"
  by (cases r) (auto simp: near_def)

definition item_matches :: "mw_config \<Rightarrow> mission_item \<Rightarrow> readback \<Rightarrow> bool" where
  "item_matches c w r \<longleftrightarrow> rb_command r = mi_command w \<and> rb_frame r = mi_frame w
     \<and> \<bar>mi_x w - rb_x r\<bar> \<le> mw_coordinate_tol c \<and> \<bar>mi_y w - rb_y r\<bar> \<le> mw_coordinate_tol c
     \<and> near (mi_z w) (rb_z r) (mw_altitude_tol c)
     \<and> (\<forall>k < length (rb_params r). near (mi_params w ! k) (rb_params r ! k) (mw_param_tol c))
     \<and> rb_autocontinue r = mi_autocontinue w"

lemma read_item_params: "read_item m = Some rb \<Longrightarrow> length (rb_params rb) = 4"
  by (auto simp: read_item_def all_some_def Let_def split: option.splits if_splits)

lemma verify_item_matches:
  assumes "verify_item c w r = None" "length (mi_params w) = length (rb_params r)"
  shows "item_matches c w r"
proof -
  from assms(1) have "list_all (\<lambda>(p, q). \<not> differs p q (mw_param_tol c)) (zip (mi_params w) (rb_params r))"
    "mi_command w = rb_command r" "mi_frame w = rb_frame r" "\<not> position_differs c w r" "mi_autocontinue w = rb_autocontinue r"
    by (auto simp: verify_item_def first_error_None_iff)
  with assms(2) show ?thesis
    by (auto simp: item_matches_def position_differs_def not_differs list_all_length)
qed

lemma mw_verify_matches:
  assumes "mw_verify c ws rs = None" "i < length ws" "i < length rs" "length (mi_params (ws ! i)) = length (rb_params (rs ! i))"
  shows "item_matches c (ws ! i) (rs ! i)"
proof -
  have "(ws ! i, rs ! i) \<in> set (zip ws rs)" using assms(2,3) by (auto simp: set_zip)
  with assms(1) have "verify_item c (ws ! i) (rs ! i) = None"
    by (auto simp: mw_verify_def first_error_None_iff)
  with assms(4) verify_item_matches show ?thesis by blast
qed

lemma item_of_raw_params: "item_of_raw i d = Inr u \<Longrightarrow> length (mi_params u) = 4"
  by (auto simp: item_of_raw_def Let_def item_params_def split: if_splits)

lemma items_of_raws_shape:
  "items_of_raws i vs = Inr us \<Longrightarrow> length us = length vs \<and> (\<forall>u \<in> set us. length (mi_params u) = 4)"
proof (induction i vs arbitrary: us rule: items_of_raws.induct)
  case (2 i v vs)
  then obtain u where u: "item_of_raw i (dict_of v) = Inr u" by (auto split: sum.splits)
  with 2(2) obtain us' where "items_of_raws (i + 1) vs = Inr us'" "us = u # us'"
    by (cases "items_of_raws (i + 1) vs") auto
  with 2(1) [OF u] item_of_raw_params [OF u] show ?case by auto
qed simp

lemma items_from_record_shape:
  assumes "items_from_record j = Inr us"
  obtains cid mid raws ck where "j = MissionJob cid mid raws ck" "length us = length raws" "raws \<noteq> []"
    "length raws < 100" "ascii_digest (JArr raws) = Inr ck" "\<forall>u \<in> set us. length (mi_params u) = 4"
  using assms by (cases j) (auto split: if_splits sum.splits dest: items_of_raws_shape)


subsection \<open>How long an upload can last\<close>

definition requests_left :: "nat \<Rightarrow> nat \<Rightarrow> (int \<times> nat) list \<Rightarrow> nat" where
  "requests_left n k rq = (\<Sum>i < n. k - request_count rq (int i))"

lemma request_count_update: "request_count (AList.update i k rq) j = (if i = j then k else request_count rq j)"
  by (simp add: request_count_def)

lemma requests_left_update:
  assumes "0 \<le> i" "i < int n" "request_count rq i < k"
  shows "Suc (requests_left n k (AList.update i (request_count rq i + 1) rq)) = requests_left n k rq"
proof -
  have i: "nat i < n" "int (nat i) = i" using assms by auto
  have "(\<Sum>j \<in> {..<n} - {nat i}. k - request_count (AList.update i (request_count rq i + 1) rq) (int j))
      = (\<Sum>j \<in> {..<n} - {nat i}. k - request_count rq (int j))"
    using i by (intro sum.cong) (auto simp: request_count_update)
  moreover have "requests_left n k rq' = (k - request_count rq' (int (nat i)))
      + (\<Sum>j \<in> {..<n} - {nat i}. k - request_count rq' (int j))" for rq'
    unfolding requests_left_def using i by (intro sum.remove) auto
  ultimately show ?thesis using assms(1,3) by (simp add: request_count_update)
qed

lemma upload_loop_sends:
  "upload_loop c dl tx k items a rq es = (r, out, es') \<Longrightarrow> 0 \<le> a \<Longrightarrow>
     length out \<le> nat (mw_retries c - a)
       + requests_left (length items) (mw_max_requests c) rq * (nat (mw_retries c) + 1)"
proof (induction "length es" arbitrary: k a rq es out rule: less_induct)
  case less
  let ?S = "requests_left (length items) (mw_max_requests c)"
  obtain q es1 where q: "mw_receive c dl request_types es = (q, es1)" by (cases "mw_receive c dl request_types es")
  from less(2) q show ?case
  proof (cases rule: upload_turn)
    case (again out')
    have "length es1 < length es" using q again(1) mw_receive_shorter by blast
    from less(1) [OF this again(3)] less(3) again show ?thesis by simp
  next
    case (item m i out')
    let ?rq = "AList.update i (request_count rq i + 1) rq"
    have "length es1 < length es" using q item(1) mw_receive_shorter by blast
    from less(1) [OF this item(5)] have "length out' \<le> nat (mw_retries c) + ?S ?rq * (nat (mw_retries c) + 1)" by simp
    moreover have "?S rq = Suc (?S ?rq)" using requests_left_update [OF item(2,3,4)] by simp
    ultimately show ?thesis using item(6) by simp
  qed simp
qed


subsection \<open>Cleaning up\<close>

text \<open>The answer to the cleanup: the first acknowledgement for us, and no wait ended without a message before it\<close>

definition cleanup_ack :: "mw_config \<Rightarrow> fc_msg \<Rightarrow> bool" where
  "cleanup_ack c m \<longleftrightarrow> fm_type m = ''MISSION_ACK'' \<and> mw_matches c m"

definition cleanup_answer :: "mw_config \<Rightarrow> real \<Rightarrow> mw_event list \<Rightarrow> fc_msg \<Rightarrow> mw_event list \<Rightarrow> bool" where
  "cleanup_answer c dl es m es' \<longleftrightarrow> (\<exists>pre t. es = pre @ (t, Some m) # es' \<and> t < dl \<and> cleanup_ack c m
     \<and> (\<forall>(u, n) \<in> set pre. u < dl \<and> (\<exists>k. n = Some k \<and> \<not> cleanup_ack c k)))"

lemma cleanup_loop_result:
  assumes "cleanup_loop c dl es = (r, es')"
  shows "(\<forall>b. r = Ok b \<longrightarrow> b = (\<exists>m. cleanup_answer c dl es m es' \<and> ack_result m = Some 0))
    \<and> (\<forall>e. r = Exc e \<longrightarrow> e = not_a_number \<and> (\<exists>m. cleanup_answer c dl es m es' \<and> ack_result m = None))"
  using assms
proof (induction c dl es rule: cleanup_loop.induct)
  case (2 c dl t m es)
  have step: "cleanup_answer c dl ((t, Some k) # es) n es' \<longleftrightarrow> cleanup_answer c dl es n es'"
    if "t < dl" "\<not> cleanup_ack c k" for k n
  proof
    assume "cleanup_answer c dl es n es'"
    then obtain pre u where "es = pre @ (u, Some n) # es'" "u < dl" "cleanup_ack c n"
      "\<forall>(u, n) \<in> set pre. u < dl \<and> (\<exists>k. n = Some k \<and> \<not> cleanup_ack c k)" by (auto simp: cleanup_answer_def)
    with that show "cleanup_answer c dl ((t, Some k) # es) n es'"
      unfolding cleanup_answer_def by (intro exI [of _ "(t, Some k) # pre"] exI [of _ u]) auto
  next
    assume "cleanup_answer c dl ((t, Some k) # es) n es'"
    then obtain pre u where p: "(t, Some k) # es = pre @ (u, Some n) # es'" "u < dl" "cleanup_ack c n"
      "\<forall>(u, n) \<in> set pre. u < dl \<and> (\<exists>k. n = Some k \<and> \<not> cleanup_ack c k)" by (auto simp: cleanup_answer_def)
    from p(1,3) that obtain pre' where "pre = (t, Some k) # pre'" by (cases pre) auto
    with p show "cleanup_answer c dl es n es'" unfolding cleanup_answer_def by auto
  qed
  show ?case
  proof (cases m)
    case None
    have "\<not> cleanup_answer c dl ((t, None) # es) n rest" for n rest
      by (auto simp: cleanup_answer_def Cons_eq_append_conv)
    with 2(2) None show ?thesis by (auto split: if_splits)
  next
    case (Some k)
    show ?thesis
    proof (cases "t < dl")
      case False
      then have "\<not> cleanup_answer c dl ((t, m) # es) n rest" for n rest
        by (auto simp: cleanup_answer_def Cons_eq_append_conv)
      with 2(2) False show ?thesis by auto
    next
      case True
      show ?thesis
      proof (cases "cleanup_ack c k")
        case ack: True
        have "cleanup_answer c dl ((t, Some k) # es) k es"
          unfolding cleanup_answer_def using True ack by (intro exI [of _ "[]"]) auto
        then have "cleanup_answer c dl ((t, Some k) # es) n es \<longleftrightarrow> n = k" for n
          by (auto simp: cleanup_answer_def Cons_eq_append_conv)
        then show ?thesis using 2(2) Some True ack by (auto simp: cleanup_ack_def split: option.splits)
      next
        case no: False
        with 2(2) Some True have l: "cleanup_loop c dl es = (r, es')" by (auto simp: cleanup_ack_def)
        have "\<not> (fm_type k = ''MISSION_ACK'' \<and> mw_matches c k)" using no by (simp add: cleanup_ack_def)
        moreover have "\<not> \<not> t < dl" using True by simp
        ultimately show ?thesis using 2(1) [OF _ Some _ l] step [OF True no] Some by simp
      qed
    qed
  qed
qed simp

text \<open>What the cleanup makes of a failure: it is cleared, unsafe, or the cleanup raises itself\<close>

definition cleaned :: "mw_config \<Rightarrow> mw_event list \<Rightarrow> mw_event list \<Rightarrow> bool" where
  "cleaned c es es' \<longleftrightarrow> (\<exists>m. cleanup_answer c (fst (hd es) + max 1 (mw_timeout c)) es m es' \<and> ack_result m = Some 0)"

definition cleanup_raises :: "mw_config \<Rightarrow> mw_sends \<Rightarrow> mw_event list \<Rightarrow> mission_exc \<Rightarrow> fc_out list \<Rightarrow> mw_event list \<Rightarrow> bool" where
  "cleanup_raises c sn es e out es' \<longleftrightarrow>
     (\<exists>x. ms_cancel sn = Some x \<and> e = MissionSendError x \<and> out = [])
   \<or> (\<exists>x. ms_cancel sn = None \<and> ms_clear sn = Some x \<and> e = MissionSendError x \<and> out = [AckOut 15])
   \<or> ms_cancel sn = None \<and> ms_clear sn = None \<and> e = not_a_number \<and> out = [AckOut 15, ClearAll]
     \<and> (\<exists>m. cleanup_answer c (fst (hd es) + max 1 (mw_timeout c)) es m es' \<and> ack_result m = None)"

lemma mw_cleanup_result:
  assumes "mw_cleanup c sn es = (r, out, es')"
  shows "(\<forall>b. r = Ok b \<longrightarrow> out = [AckOut 15, ClearAll] \<and> b = cleaned c es es')
    \<and> (\<forall>e. r = Exc e \<longrightarrow> cleanup_raises c sn es e out es')"
proof (cases "ms_cancel sn = None \<and> ms_clear sn = None")
  case True
  show ?thesis
  proof (cases es)
    case (Cons tm es0)
    obtain q e1 where l: "cleanup_loop c (fst (hd es) + max 1 (mw_timeout c)) es = (q, e1)"
      by (cases "cleanup_loop c (fst (hd es) + max 1 (mw_timeout c)) es")
    with assms True Cons have "q = r" "e1 = es'" "out = [AckOut 15, ClearAll]"
      by (auto simp: mw_cleanup_def case_prod_beta simp del: cleanup_loop.simps)
    with cleanup_loop_result [OF l] True show ?thesis by (auto simp: cleaned_def cleanup_raises_def)
  qed (use assms True in \<open>auto simp: mw_cleanup_def\<close>)
qed (use assms in \<open>auto simp: mw_cleanup_def cleanup_raises_def split: option.splits\<close>)

subsection \<open>Properties\<close>




text \<open>C18: whatever the flight controller sends and for however long, one upload sends at most
  1 + retries + items * max_sequence_requests * (retries + 1) messages.\<close>

theorem upload_sends_bounded:
  assumes "mw_upload c dl tx k items es = (r, out, es')"
  shows "length out \<le> 1 + nat (mw_retries c) + length items * mw_max_requests c * (nat (mw_retries c) + 1)"
  using assms unfolding mw_upload_def
proof (rule mw_send_eq)
  fix out'
  assume u: "upload_loop c dl tx (Suc k) items 0 [] es = (r, out', es')" and out: "out = MissionCount (length items) # out'"
  have "requests_left (length items) (mw_max_requests c) [] = length items * mw_max_requests c"
    by (simp add: requests_left_def request_count_def)
  with upload_loop_sends [OF u] out show ?thesis by simp
qed simp

subsection \<open>A run\<close>

definition sample_config :: mw_config where
  "sample_config = \<lparr>mw_timeout = 1, mw_retries = 0, mw_operation_timeout = 15, mw_max_requests = 2,
     mw_coordinate_tol = 1, mw_altitude_tol = 1 / 4, mw_param_tol = 1 / 10000, mw_gcs_system = 255,
     mw_gcs_component = 0, mw_target_system = 1, mw_target_component = 1\<rparr>"

text \<open>No send of the transfer raises\<close>

definition sends_pass :: mw_sends where
  "sends_pass = \<lparr>ms_busy = False, ms_transfer = (\<lambda>k. None), ms_cancel = None, ms_clear = None, ms_auto = None\<rparr>"

definition fc_reply :: "string \<Rightarrow> (string \<times> mav_value) list \<Rightarrow> mw_event" where
  "fc_reply ty fs = (0, Some \<lparr>fm_type = ty, fm_mission_type = Some 0, fm_target_system = Some 255,
     fm_target_component = None, fm_source_system = Some 1, fm_source_component = Some 1, fm_fields = fs\<rparr>)"

definition sample_raw :: json where
  "sample_raw = JObj [(''mission_id'', JStr ''m''), (''index'', JInt 0), (''lat'', JInt 1), (''lon'', JInt 2), (''alt'', JInt 30)]"

definition sample_digest :: string where
  "sample_digest = sha256_hex (utf8 (the (dumps True (JArr [sample_raw]))))"

definition sample_job :: job where
  "sample_job = MissionJob ''c'' ''m'' [sample_raw] sample_digest"

definition sample_us :: "mission_item list" where
  "sample_us = [\<lparr>mi_seq = 0, mi_frame = 3, mi_command = 16, mi_x = 10000000, mi_y = 20000000, mi_z = 30,
     mi_params = [0, 0, 0, 0], mi_autocontinue = 1\<rparr>]"

text \<open>A flight controller that reads back the item at an altitude that is no number\<close>

definition sample_replies :: "mw_event list" where
  "sample_replies =
     [fc_reply ''MISSION_ACK'' [(''type'', MInt 0)],
      fc_reply ''MISSION_REQUEST_INT'' [(''seq'', MInt 0)], fc_reply ''MISSION_REQUEST_INT'' [(''seq'', MInt 1)],
      fc_reply ''MISSION_ACK'' [(''type'', MInt 0)],
      fc_reply ''MISSION_COUNT'' [(''count'', MInt 2)],
      fc_reply ''MISSION_ITEM_INT'' [(''seq'', MInt 0), (''frame'', MInt 0), (''command'', MInt 16)],
      fc_reply ''MISSION_ITEM_INT'' [(''seq'', MInt 1), (''frame'', MInt 3), (''command'', MInt 16),
        (''x'', MInt 10000000), (''y'', MInt 20000000), (''z'', MNaN)]]"

lemma sample_degrees: "json_scaled (JInt 1) 10000000 = 10000000" "json_scaled (JInt 2) 10000000 = 20000000"
  by code_simp+

lemma sample_items: "items_from_record sample_job = Inr sample_us"
proof -
  obtain t where t: "dumps True (JArr [sample_raw]) = Some t"
    using dumps_total [of "JArr [sample_raw]" True] by (auto simp: sample_raw_def)
  then have "ascii_digest (JArr [sample_raw]) = Inr sample_digest" by (simp add: ascii_digest_def sample_digest_def)
  moreover have "items_of_raws 0 [sample_raw] = Inr sample_us"
    by (simp add: sample_raw_def sample_us_def item_of_raw_def item_params_def real_of_def sample_degrees Let_def
        get_or_def fld_def)
  ultimately show ?thesis by (simp add: sample_job_def)
qed

lemmas sample_run_defs = mw_send_def sends_pass_def mw_transfer_def mw_upload_def mw_download_def fc_reply_def attempts_of_def
  sample_config_def mw_matches_def opt_is_def mav_field_def request_types_def request_count_def

lemma sample_upload:
  "upload_loop sample_config 15 (\<lambda>k. None) k (protocol_items telemetry_init sample_us) 0 [] (tl sample_replies)
     = (Ok (), map ItemInt (protocol_items telemetry_init sample_us), drop 4 sample_replies)"
  by (simp add: upload_loop.simps sample_run_defs ack_result_def sample_replies_def protocol_items_def sample_us_def)


lemma sample_run:
  "mw_execute sample_config sends_pass sample_job False telemetry_init 0 (False, ''missing GPS'') sample_replies
     = (Ok \<lparr>mr_verified = True, mr_execution_ready = False, mr_reason = ''missing GPS'', mr_item_count = 1\<rparr>,
        [ClearAll, MissionCount 2] @ map ItemInt (protocol_items telemetry_init sample_us)
          @ [RequestList, RequestInt 0, RequestInt 1, AckOut 0], [])"
proof -
  have c: "mw_clear sample_config 15 (\<lambda>k. None) 0 1 sample_replies = (Ok (), [ClearAll], tl sample_replies)"
    by (simp add: sample_run_defs ack_result_def sample_replies_def)
  have d: "mw_download sample_config 15 (\<lambda>k. None) k 2 (drop 4 sample_replies)
      = (Ok [\<lparr>rb_frame = 0, rb_command = 16, rb_x = 0, rb_y = 0, rb_z = Fl 0, rb_params = replicate 4 (Fl 0), rb_autocontinue = 1\<rparr>,
         \<lparr>rb_frame = 3, rb_command = 16, rb_x = 10000000, rb_y = 20000000, rb_z = FlNaN, rb_params = replicate 4 (Fl 0),
          rb_autocontinue = 1\<rparr>], [RequestList, RequestInt 0, RequestInt 1, AckOut 0], [])" for k
    by (simp add: sample_run_defs sample_replies_def read_item_def all_some_def read_coordinate_def upt_rec numeral_eq_Suc)
  have "length (protocol_items telemetry_init sample_us) = 2" by (simp add: protocol_items_def sample_us_def)
  moreover have "attempts_of sample_config = 1" "0 + mw_operation_timeout sample_config = 15"
    by (simp_all add: attempts_of_def sample_config_def)
  ultimately show ?thesis
    using c sample_upload d
    by (simp add: mw_execute_def sample_items mw_transfer_def mw_upload_def sends_pass_def mw_send_def)
      (simp add: verify_home_def mw_verify_def verify_item_def position_differs_def first_error_Cons protocol_items_def
        protocol_home_def telemetry_init_def sample_us_def sample_config_def numeral_eq_Suc)
qed



theorem upload_sends_bounded_witness:
  "mw_upload sample_config 15 (\<lambda>k. None) 1 (protocol_items telemetry_init sample_us) (tl sample_replies)
      = (Ok (), MissionCount 2 # map ItemInt (protocol_items telemetry_init sample_us), drop 4 sample_replies)
   \<and> length (MissionCount 2 # map ItemInt (protocol_items telemetry_init sample_us)) \<le> 1 + 0 + 2 * 2 * 1"
proof -
  have two: "length (protocol_items telemetry_init sample_us) = 2" by (simp add: protocol_items_def sample_us_def)
  have "mw_upload sample_config 15 (\<lambda>k. None) 1 (protocol_items telemetry_init sample_us) (tl sample_replies)
      = (Ok (), MissionCount 2 # map ItemInt (protocol_items telemetry_init sample_us), drop 4 sample_replies)"
    using sample_upload two by (simp add: mw_upload_def mw_send_def)
  from this upload_sends_bounded [OF this] show ?thesis unfolding two by (simp add: sample_config_def)
qed

end
