(* ===== verification/LinkServer.thy ===== *)
theory LinkServer
  imports AuthStream MavExt InboxProps
begin

text \<open>
  \<open>aircraft_agent/optical_gate.py\<close> and \<open>aircraft_agent/link_server.py\<close>: the gate that lets
  commands through only while the optical lock holds, and the serial endpoint that authenticates
  frames, passes them to the inbox and answers.

  Clock readings are JSON numbers, since they travel in payloads. \<open>Inl\<close> is an exception that
  leaves the method; the state is returned as the exception leaves it.
\<close>

subsection \<open>The optical gate\<close>

record optical_gate =
  g_locked :: bool
  g_reason :: string
  g_event_timestamp :: json
  g_next_status :: "real option"
  g_interval :: real
  g_sequence :: nat

text \<open>\<open>g_next_status\<close> is None for minus infinity\<close>

definition gate_init :: "real \<Rightarrow> json \<Rightarrow> pyexc + optical_gate" where
  "gate_init interval now =
     (if interval \<le> 0 then Inl (ValueError ''status_interval must be positive'')
      else Inr \<lparr>g_locked = False, g_reason = ''optical_not_locked'', g_event_timestamp = now, g_next_status = None,
                g_interval = interval, g_sequence = 0\<rparr>)"

definition set_locked :: "json \<Rightarrow> optical_gate \<Rightarrow> optical_gate" where
  "set_locked ts g = g\<lparr>g_locked := True, g_reason := [], g_event_timestamp := ts, g_next_status := None\<rparr>"

definition set_blocked :: "string \<Rightarrow> json \<Rightarrow> optical_gate \<Rightarrow> optical_gate" where
  "set_blocked reason ts g = g\<lparr>g_locked := False, g_reason := str_or (take 128 reason) ''optical_blocked'',
     g_event_timestamp := ts, g_next_status := None\<rparr>"

definition cloud_command_types :: "message_type list" where
  "cloud_command_types = [COMMAND, MISSION_BEGIN, MISSION_ITEM, MISSION_COMMIT]"

definition require_locked :: "optical_gate \<Rightarrow> frame \<Rightarrow> bool" where
  "require_locked g f \<longleftrightarrow> \<not> (f_type f \<in> set cloud_command_types \<and> \<not> g_locked g)"

definition gate_frame :: "optical_gate \<Rightarrow> message_type \<Rightarrow> pydict \<Rightarrow> frame \<times> optical_gate" where
  "gate_frame g ty p = (\<lparr>f_type = ty, f_flags = 0, f_sequence = g_sequence g, f_command_id = 0, f_payload = p\<rparr>,
     g\<lparr>g_sequence := u32_mask (g_sequence g + 1)\<rparr>)"

definition blocked_payload :: "optical_gate \<Rightarrow> pydict" where
  "blocked_payload g = [(''reason'', JStr (g_reason g)), (''timestamp'', g_event_timestamp g)]"

text \<open>\<open>blocked_frame\<close> raises RuntimeError while the link is locked; \<open>due_frame\<close> raises on a
  snapshot with a non-finite float.\<close>

definition blocked_frame :: "optical_gate \<Rightarrow> frame option \<times> optical_gate" where
  "blocked_frame g =
     (if g_locked g then (None, g) else (case gate_frame g LINK_BLOCKED (blocked_payload g) of (f, g') \<Rightarrow> (Some f, g')))"

definition due_frame :: "json \<Rightarrow> json \<Rightarrow> optical_gate \<Rightarrow> (pyexc + frame option) \<times> optical_gate" where
  "due_frame snapshot now g =
     (if (case g_next_status g of None \<Rightarrow> False | Some t \<Rightarrow> real_of now < t) then (Inr None, g)
      else
        let g1 = g\<lparr>g_next_status := Some (real_of now + g_interval g)\<rparr> in
        if \<not> g_locked g1 then (case gate_frame g1 LINK_BLOCKED (blocked_payload g1) of (f, g2) \<Rightarrow> (Inr (Some f), g2))
        else (case dumps False snapshot of
            None \<Rightarrow> (Inl (ValueError ''Out of range float values are not JSON compliant''), g1)
          | Some detail \<Rightarrow> (case gate_frame g1 STATUS
                [(''state'', JStr ''locked''), (''detail'', JStr (take 256 detail)), (''timestamp'', now)] of
              (f, g2) \<Rightarrow> (Inr (Some f), g2))))"

subsection \<open>The link server\<close>

record link_metrics =
  lm_received :: nat
  lm_mavlink_chunks :: nat
  lm_mavlink_bytes :: nat
  lm_rejected_auth :: nat
  lm_rejected_frame :: nat
  lm_rejected_size :: nat
  lm_rejected_queue :: nat
  lm_serial_chunks :: nat
  lm_serial_bytes :: nat

record link_config =
  lc_limits :: inbox_limits
  lc_plaintext :: bool
  lc_max_payload :: nat
  lc_max_responses :: nat
  lc_max_wire :: nat
  lc_has_sink :: bool
  lc_challenge :: string

text \<open>\<open>ls_forwarded\<close> is what went to \<open>mavlink_sink\<close>, \<open>ls_wrap\<close> the counter of the tunnel\<close>

record link_server =
  ls_inbox :: inbox
  ls_gate :: optical_gate
  ls_auth :: auth_session
  ls_buffer :: bytes
  ls_plain_buffer :: bytes
  ls_mav_buffer :: bytes
  ls_peer :: "bytes option"
  ls_reported :: "(string \<times> string) list"
  ls_sequence :: nat
  ls_wrap :: byte
  ls_forwarded :: "bytes list"
  ls_metrics :: link_metrics

datatype link_exc = LinkPy pyexc | LinkAuth session_exc | LinkStruct | LinkTooLong | LinkLocked | LinkSaveFailed

type_synonym 'a link_result = "(link_exc + 'a) \<times> link_server"

definition and_then :: "'a link_result \<Rightarrow> ('a \<Rightarrow> link_server \<Rightarrow> 'b link_result) \<Rightarrow> 'b link_result" where
  "and_then m f = (case m of (Inl e, s) \<Rightarrow> (Inl e, s) | (Inr a, s) \<Rightarrow> f a s)"

text \<open>What one frame meets: the clock, and the fate of the saves it causes\<close>

record link_env =
  e_now :: json
  e_open_ok :: bool
  e_seal_ok :: bool
  e_save :: save_result

definition count :: "(link_metrics \<Rightarrow> link_metrics) \<Rightarrow> link_server \<Rightarrow> link_server" where
  "count f s = s\<lparr>ls_metrics := f (ls_metrics s)\<rparr>"

definition link_frame :: "message_type \<Rightarrow> uuid \<Rightarrow> pydict \<Rightarrow> link_server \<Rightarrow> frame \<times> link_server" where
  "link_frame ty cid p s = (\<lparr>f_type = ty, f_flags = 0, f_sequence = ls_sequence s, f_command_id = cid, f_payload = p\<rparr>,
     s\<lparr>ls_sequence := u32_mask (ls_sequence s + 1)\<rparr>)"

definition frame_error :: "frame_exc \<Rightarrow> link_exc" where
  "frame_error e = (case e of FrameErr m \<Rightarrow> LinkPy (ValueError m) | PyErr p \<Rightarrow> LinkPy p | StructErr \<Rightarrow> LinkStruct)"

definition link_seal :: "link_config \<Rightarrow> link_env \<Rightarrow> frame \<Rightarrow> link_server \<Rightarrow> bytes link_result" where
  "link_seal c e f s =
     (case encode_frame f (lc_max_payload c) of
        Inl x \<Rightarrow> (Inl (frame_error x), s)
      | Inr bs \<Rightarrow> (case session_seal (e_seal_ok e) (ls_auth s) bs of
            (Inl x, a) \<Rightarrow> (Inl (LinkAuth x), s\<lparr>ls_auth := a\<rparr>)
          | (Inr d, a) \<Rightarrow> (Inr d, s\<lparr>ls_auth := a\<rparr>)))"

definition link_wire :: "link_config \<Rightarrow> link_env \<Rightarrow> frame \<Rightarrow> link_server \<Rightarrow> bytes link_result" where
  "link_wire c e f s =
     (if lc_plaintext c then
        (case encode_frame f (lc_max_payload c) of
           Inl x \<Rightarrow> (Inl (frame_error x), s)
         | Inr bs \<Rightarrow> (case wrap_liot_frame (ls_wrap s) bs 254 191 of
               None \<Rightarrow> (Inl LinkTooLong, s)
             | Some (pk, w) \<Rightarrow> (Inr pk, s\<lparr>ls_wrap := w\<rparr>)))
      else link_seal c e f s)"

definition wire_new :: "link_config \<Rightarrow> link_env \<Rightarrow> message_type \<Rightarrow> uuid \<Rightarrow> pydict \<Rightarrow> link_server \<Rightarrow> bytes link_result" where
  "wire_new c e ty cid p s = (case link_frame ty cid p s of (f, s') \<Rightarrow> link_wire c e f s')"

definition challenge_datagram :: "link_config \<Rightarrow> link_env \<Rightarrow> link_server \<Rightarrow> bytes link_result" where
  "challenge_datagram c e s =
     (if lc_plaintext c then (Inr [], s)
      else case link_frame AUTH_CHALLENGE 0 [(''challenge'', JStr (lc_challenge c))] s of
        (f, s') \<Rightarrow> link_seal c e f s')"

definition wire_blocked :: "link_config \<Rightarrow> link_env \<Rightarrow> link_server \<Rightarrow> bytes link_result" where
  "wire_blocked c e s = (case blocked_frame (ls_gate s) of
     (None, g) \<Rightarrow> (Inl LinkLocked, s\<lparr>ls_gate := g\<rparr>)
   | (Some f, g) \<Rightarrow> link_wire c e f (s\<lparr>ls_gate := g\<rparr>))"

fun join_numbers :: "int list \<Rightarrow> string" where
  "join_numbers [] = []"
| "join_numbers [i] = show_nat (nat i)"
| "join_numbers (i # is) = show_nat (nat i) @ '','' @ join_numbers is"

definition nack_reason :: "string \<Rightarrow> int list \<Rightarrow> string" where
  "nack_reason reason missing = take 256 (if missing = [] then reason else reason @ '':'' @ join_numbers missing)"

definition single :: "bytes link_result \<Rightarrow> bytes list link_result" where
  "single m = and_then m (\<lambda>d s. (Inr [d], s))"

text \<open>The part of \<open>_handle_frame\<close> behind the checks of the session and the gate\<close>

definition deliver :: "link_config \<Rightarrow> link_env \<Rightarrow> frame \<Rightarrow> link_server \<Rightarrow> bytes list link_result" where
  "deliver c e f s =
     (case inbox_accept (lc_limits c) (e_save e) (ls_inbox s) f of
        (Inl (InboxRejected reason missing), b) \<Rightarrow>
          single (wire_new c e NACK (f_command_id f)
            [(''acked_sequence'', JInt (int (f_sequence f))), (''reason'', JStr (nack_reason reason missing))]
            (count (\<lambda>m. m\<lparr>lm_rejected_queue := lm_rejected_queue m + 1\<rparr>) (s\<lparr>ls_inbox := b\<rparr>)))
      | (Inl (InboxPy x), b) \<Rightarrow> (Inl (LinkPy x), s\<lparr>ls_inbox := b\<rparr>)
      | (Inl InboxSaveFailed, b) \<Rightarrow> (Inl LinkSaveFailed, s\<lparr>ls_inbox := b\<rparr>)
      | (Inr r, b) \<Rightarrow>
          and_then (wire_new c e ACK (f_command_id f) [(''acked_sequence'', JInt (int (ir_acked_sequence r)))] (s\<lparr>ls_inbox := b\<rparr>))
            (\<lambda>ack s1.
               if ir_stage r = ''MISSION_STAGED'' then
                 and_then (wire_new c e STATUS (f_command_id f)
                   [(''state'', JStr ''MISSION_STAGED''), (''detail'', JStr (uuid_str (f_command_id f))), (''timestamp'', e_now e)] s1)
                   (\<lambda>st s2. (Inr [ack, st], s2))
               else (Inr [ack], s1)))"

definition handle_frame :: "link_config \<Rightarrow> link_env \<Rightarrow> frame \<Rightarrow> bytes option \<Rightarrow> link_server \<Rightarrow> bytes list link_result" where
  "handle_frame c e f nonce s =
     (if \<not> lc_plaintext c \<and> nonce = None then (Inr [], s)
      else
        let s1 = count (\<lambda>m. m\<lparr>lm_received := lm_received m + 1\<rparr>) s in
        if f_type f = AUTH_RESPONSE then (Inr [], s1)
        else if \<not> lc_plaintext c \<and> ls_peer s1 \<noteq> None \<and> ls_peer s1 \<noteq> nonce
          then single (challenge_datagram c e (s1\<lparr>ls_peer := None\<rparr>))
        else
          let s2 = (if lc_plaintext c then s1 else s1\<lparr>ls_peer := nonce\<rparr>) in
          if f_type f \<notin> set cloud_command_types then (Inr [], s2)
          else if \<not> require_locked (ls_gate s2) f then single (wire_blocked c e s2)
          else deliver c e f s2)"

definition handle_envelope :: "link_config \<Rightarrow> link_env \<Rightarrow> bytes \<Rightarrow> link_server \<Rightarrow> bytes list link_result" where
  "handle_envelope c e d s =
     (case session_open (e_open_ok e) (ls_auth s) d of
        (Inl (CodecExc (AuthError m)), a) \<Rightarrow>
          (Inr [], count (\<lambda>m. m\<lparr>lm_rejected_auth := lm_rejected_auth m + 1\<rparr>) (s\<lparr>ls_auth := a\<rparr>))
      | (Inl (CodecExc (ReplayError m)), a) \<Rightarrow>
          (Inr [], count (\<lambda>m. m\<lparr>lm_rejected_auth := lm_rejected_auth m + 1\<rparr>) (s\<lparr>ls_auth := a\<rparr>))
      | (Inl x, a) \<Rightarrow> (Inl (LinkAuth x), s\<lparr>ls_auth := a\<rparr>)
      | (Inr (p, meta), a) \<Rightarrow>
          let s1 = s\<lparr>ls_auth := a\<rparr> in
          (case decode_frame p (lc_max_payload c) of
             Inl (PyErr x) \<Rightarrow> (Inl (LinkPy x), s1)
           | Inl _ \<Rightarrow> (Inr [], count (\<lambda>m. m\<lparr>lm_rejected_frame := lm_rejected_frame m + 1\<rparr>) s1)
           | Inr f \<Rightarrow>
               if f_type f = AUTH_RESPONSE then
                 if fld (f_payload f) ''challenge'' \<noteq> JStr (lc_challenge c)
                   then single (challenge_datagram c e (count (\<lambda>m. m\<lparr>lm_rejected_auth := lm_rejected_auth m + 1\<rparr>) s1))
                 else
                   let s2 = s1\<lparr>ls_peer := Some (m_nonce meta)\<rparr> in
                   if \<not> g_locked (ls_gate s2)
                     then (case blocked_frame (ls_gate s2) of
                         (None, g) \<Rightarrow> (Inl LinkLocked, s2\<lparr>ls_gate := g\<rparr>)
                       | (Some bf, g) \<Rightarrow> single (link_seal c e bf (s2\<lparr>ls_gate := g\<rparr>)))
                   else (case link_frame STATUS 0 [(''state'', JStr ''authenticated''),
                         (''detail'', JStr ''serial_session_ready''), (''timestamp'', e_now e)] s2 of
                       (sf, s3) \<Rightarrow> single (link_seal c e sf s3))
               else handle_frame c e f (Some (m_nonce meta)) s1))"

subsection \<open>\<open>feed_bytes\<close>\<close>

definition mavlink_downlink_ids :: "nat list" where
  "mavlink_downlink_ids = [11, 39, 40, 41, 43, 44, 45, 47, 51, 73, 76]"

definition packet_message_id :: "bytes \<Rightarrow> nat" where
  "packet_message_id pk =
     (if pk ! 0 = 0xFD then unat (pk ! 7) + 256 * unat (pk ! 8) + 65536 * unat (pk ! 9) else unat (pk ! 5))"

definition forward_packet :: "link_config \<Rightarrow> bytes \<Rightarrow> link_server \<Rightarrow> link_server" where
  "forward_packet c pk s =
     (if packet_message_id pk \<in> set mavlink_downlink_ids \<and> lc_has_sink c \<and> g_locked (ls_gate s)
      then count (\<lambda>m. m\<lparr>lm_mavlink_chunks := lm_mavlink_chunks m + 1, lm_mavlink_bytes := lm_mavlink_bytes m + length pk\<rparr>)
             (s\<lparr>ls_forwarded := ls_forwarded s @ [pk]\<rparr>)
      else s)"

text \<open>The frames of one packet of the plaintext tunnel; \<open>env i\<close> is what the \<open>i\<close>-th frame meets\<close>

fun handle_frames :: "link_config \<Rightarrow> (nat \<Rightarrow> link_env) \<Rightarrow> nat \<Rightarrow> frame list \<Rightarrow> link_server \<Rightarrow> (nat \<times> bytes list) link_result" where
  "handle_frames c env i [] s = (Inr (i, []), s)"
| "handle_frames c env i (f # fs) s =
     and_then (handle_frame c (env i) f None s) (\<lambda>rs s1.
       and_then (handle_frames c env (Suc i) fs s1) (\<lambda>(k, rs') s2. (Inr (k, rs @ rs'), s2)))"

fun handle_packets :: "link_config \<Rightarrow> (nat \<Rightarrow> link_env) \<Rightarrow> nat \<Rightarrow> bytes list \<Rightarrow> link_server \<Rightarrow> bytes list link_result" where
  "handle_packets c env i [] s = (Inr [], s)"
| "handle_packets c env i (pk # pks) s =
     (case (if lc_plaintext c then unwrap_liot_frame pk else None) of
        Some ext \<Rightarrow>
          (case decoder_feed (lc_max_payload c) (ls_plain_buffer s) ext of
             (b, Inl x) \<Rightarrow> (Inl (LinkPy x), s\<lparr>ls_plain_buffer := b\<rparr>)
           | (b, Inr fs) \<Rightarrow>
               and_then (handle_frames c env i fs (s\<lparr>ls_plain_buffer := b\<rparr>)) (\<lambda>(k, rs) s1.
                 and_then (handle_packets c env k pks s1) (\<lambda>rs' s2. (Inr (rs @ rs'), s2))))
      | None \<Rightarrow> handle_packets c env i pks (forward_packet c pk s))"

text \<open>Envelopes until \<open>max_responses\<close> answers are there; the rest of the call's envelopes are lost\<close>

fun handle_envelopes :: "link_config \<Rightarrow> (nat \<Rightarrow> link_env) \<Rightarrow> nat \<Rightarrow> bytes list \<Rightarrow> bytes list \<Rightarrow> link_server \<Rightarrow> bytes list link_result" where
  "handle_envelopes c env i acc [] s = (Inr acc, s)"
| "handle_envelopes c env i acc (d # ds) s =
     and_then (handle_envelope c (env i) d s) (\<lambda>rs s1.
       if lc_max_responses c \<le> length (acc @ rs) then (Inr (take (lc_max_responses c) (acc @ rs)), s1)
       else handle_envelopes c env (Suc i) (acc @ rs) ds s1)"

definition feed_bytes :: "link_config \<Rightarrow> (nat \<Rightarrow> link_env) \<Rightarrow> bytes \<Rightarrow> link_server \<Rightarrow> bytes list link_result" where
  "feed_bytes c env data s =
     (case stream_loop mav_turn (ls_mav_buffer s @ data) of
        (mb, pks) \<Rightarrow>
          and_then (handle_packets c env 0 pks (s\<lparr>ls_mav_buffer := mb\<rparr>)) (\<lambda>rs s1.
            if lc_plaintext c then (Inr (take (lc_max_responses c) rs), s1)
            else (case auth_feed (lc_max_wire c) (ls_buffer s1) data of
                (b, ds, n) \<Rightarrow>
                  handle_envelopes c env 0 rs ds
                    (count (\<lambda>m. m\<lparr>lm_rejected_size := lm_rejected_size m + n\<rparr>) (s1\<lparr>ls_buffer := b\<rparr>)))))"

subsection \<open>Polling\<close>

definition poll_status :: "link_config \<Rightarrow> link_env \<Rightarrow> json \<Rightarrow> link_server \<Rightarrow> bytes list link_result" where
  "poll_status c e snapshot s =
     (if lc_plaintext c \<or> ls_peer s = None then (Inr [], s)
      else case due_frame snapshot (e_now e) (ls_gate s) of
        (Inl x, g) \<Rightarrow> (Inl (LinkPy x), s\<lparr>ls_gate := g\<rparr>)
      | (Inr None, g) \<Rightarrow> (Inr [], s\<lparr>ls_gate := g\<rparr>)
      | (Inr (Some f), g) \<Rightarrow> single (link_wire c e f (s\<lparr>ls_gate := g\<rparr>)))"

definition outcome_json :: "outcome \<Rightarrow> json" where
  "outcome_json r = JObj ([(''command_id'', JStr (o_command_id r)), (''stage'', JStr (o_stage r)),
     (''detail'', JStr (o_detail r))] @ o_extra r)"

text \<open>The results not reported yet, in order, until \<open>max_responses\<close> are written\<close>

fun report_results :: "link_config \<Rightarrow> (nat \<Rightarrow> link_env) \<Rightarrow> bytes list \<Rightarrow> outcome list \<Rightarrow> link_server \<Rightarrow> bytes list link_result" where
  "report_results c env acc [] s = (Inr acc, s)"
| "report_results c env acc (r # rs) s =
     (if (o_command_id r, o_stage r) \<in> set (ls_reported s) then report_results c env acc rs s
      else case dumps False (outcome_json r) of
        None \<Rightarrow> (Inl (LinkPy (ValueError ''Out of range float values are not JSON compliant'')), s)
      | Some detail \<Rightarrow>
          (case uuid_parse (o_command_id r) of
             None \<Rightarrow> (Inl (LinkPy (ValueError ''badly formed hexadecimal UUID string'')), s)
           | Some u \<Rightarrow>
               and_then (wire_new c (env (length acc)) STATUS u
                 [(''state'', JStr (take 64 (o_stage r))), (''detail'', JStr (take (if lc_plaintext c then 96 else 256) detail)),
                  (''timestamp'', e_now (env (length acc)))] s)
                 (\<lambda>d s1.
                    let s2 = s1\<lparr>ls_reported := ls_reported s1 @ [(o_command_id r, o_stage r)]\<rparr> in
                    if lc_max_responses c \<le> length (acc @ [d]) then (Inr (acc @ [d]), s2)
                    else report_results c env (acc @ [d]) rs s2)))"

definition poll_transaction_status :: "link_config \<Rightarrow> (nat \<Rightarrow> link_env) \<Rightarrow> link_server \<Rightarrow> bytes list link_result" where
  "poll_transaction_status c env s =
     (if \<not> g_locked (ls_gate s) then (Inr [], s) else report_results c env [] (i_results (mem (ls_inbox s))) s)"

text \<open>\<open>pump_once\<close>: \<open>data\<close> is what the stream returned; the answers are written to it\<close>

definition pump_once :: "link_config \<Rightarrow> (nat \<Rightarrow> link_env) \<Rightarrow> (nat \<Rightarrow> link_env) \<Rightarrow> link_env \<Rightarrow> json \<Rightarrow> bytes \<Rightarrow> link_server \<Rightarrow>
    bytes list link_result" where
  "pump_once c env env' e snapshot data s =
     and_then (feed_bytes c env data
         (if data = [] then s
          else count (\<lambda>m. m\<lparr>lm_serial_chunks := lm_serial_chunks m + 1, lm_serial_bytes := lm_serial_bytes m + length data\<rparr>) s))
       (\<lambda>rs s1. and_then (poll_transaction_status c env' s1)
         (\<lambda>rs' s2. and_then (poll_status c e snapshot s2) (\<lambda>rs'' s3. (Inr (rs @ rs' @ rs''), s3))))"

end
