(* ===== verification/LinkProps.thy ===== *)
theory LinkProps
  imports LinkServer
begin

text \<open>
  What reaches the inbox through the link server: only frames of the command types, only while
  the optical gate is locked, and on the authenticated link only frames sealed with the shared
  key.
\<close>

subsection \<open>How a step changes the server\<close>

definition accept_one :: "inbox_limits \<Rightarrow> inbox \<Rightarrow> save_result \<times> frame \<Rightarrow> inbox" where
  "accept_one lm b = (\<lambda>(sv, f). snd (inbox_accept lm sv b f))"

definition led_to :: "link_config \<Rightarrow> (frame \<Rightarrow> bool) \<Rightarrow> link_server \<Rightarrow> link_server \<Rightarrow> bool" where
  "led_to c A s s' \<longleftrightarrow>
     (\<exists>fs. ls_inbox s' = foldl (accept_one (lc_limits c)) (ls_inbox s) fs
        \<and> (\<forall>(sv, f) \<in> set fs. f_type f \<in> set cloud_command_types \<and> g_locked (ls_gate s) \<and> A f))
     \<and> g_locked (ls_gate s') = g_locked (ls_gate s) \<and> a_psk (s_codec (ls_auth s')) = a_psk (s_codec (ls_auth s))
     \<and> (\<not> g_locked (ls_gate s) \<longrightarrow> ls_forwarded s' = ls_forwarded s)"

definition kept :: "link_server \<Rightarrow> link_server \<Rightarrow> bool" where
  "kept s s' \<longleftrightarrow> ls_inbox s' = ls_inbox s \<and> g_locked (ls_gate s') = g_locked (ls_gate s)
     \<and> a_psk (s_codec (ls_auth s')) = a_psk (s_codec (ls_auth s)) \<and> ls_forwarded s' = ls_forwarded s"

lemma kept_led_to: "kept s s' \<Longrightarrow> led_to c A s s'"
  by (auto simp: kept_def led_to_def intro: exI [of _ "[]"])

lemma led_to_trans: "led_to c A s s1 \<Longrightarrow> led_to c A s1 s2 \<Longrightarrow> led_to c A s s2"
  unfolding led_to_def by (fastforce intro: exI [of _ "_ @ _"])

lemma led_to_mono: "led_to c A s s' \<Longrightarrow> (\<And>f. A f \<Longrightarrow> B f) \<Longrightarrow> led_to c B s s'"
  unfolding led_to_def by fastforce

lemma kept_refl [simp]: "kept s s"
  by (simp add: kept_def)

lemma kept_trans: "kept s s1 \<Longrightarrow> kept s1 s2 \<Longrightarrow> kept s s2"
  by (simp add: kept_def)

lemma and_then_cases:
  assumes "and_then m f = (r, s')"
  obtains (err) e where "m = (Inl e, s')" "r = Inl e"
  | (ok) a s1 where "m = (Inr a, s1)" "f a s1 = (r, s')"
  using assms by (cases m; cases "fst m") (auto simp: and_then_def)

lemma single_kept: "single m = (r, s') \<Longrightarrow> \<exists>q. m = (q, s')"
  by (auto simp: single_def elim!: and_then_cases)

lemma count_kept [simp]: "kept s (count f s)"
  by (simp add: kept_def count_def)

lemma link_frame_kept: "link_frame ty cid p s = (f, s') \<Longrightarrow> kept s s'"
  by (auto simp: link_frame_def kept_def)

lemma session_psk:
  "session_seal ok s p = (r, s') \<Longrightarrow> a_psk (s_codec s') = a_psk (s_codec s)"
  "session_open ok s d = (q, s') \<Longrightarrow> a_psk (s_codec s') = a_psk (s_codec s)"
  by (auto simp: session_seal_def session_open_def dest: auth_seal_fields auth_open_fields split: prod.splits sum.splits if_splits)

lemma link_seal_kept: "link_seal c e f s = (r, s') \<Longrightarrow> kept s s'"
  by (auto simp: link_seal_def kept_def dest: session_psk split: sum.splits prod.splits)

lemma link_wire_kept: "link_wire c e f s = (r, s') \<Longrightarrow> kept s s'"
  by (auto simp: link_wire_def kept_def split: sum.splits prod.splits option.splits if_splits
      dest: link_seal_kept [unfolded kept_def])

lemma wire_new_kept: "wire_new c e ty cid p s = (r, s') \<Longrightarrow> kept s s'"
  using link_frame_kept link_wire_kept kept_trans by (fastforce simp: wire_new_def split: prod.splits)

lemma challenge_kept: "challenge_datagram c e s = (r, s') \<Longrightarrow> kept s s'"
  using link_frame_kept link_seal_kept kept_trans by (fastforce simp: challenge_datagram_def split: prod.splits if_splits)

lemma blocked_frame_gate: "blocked_frame g = (r, g') \<Longrightarrow> g_locked g' = g_locked g"
  by (auto simp: blocked_frame_def gate_frame_def split: if_splits)

lemma wire_blocked_kept: "wire_blocked c e s = (r, s') \<Longrightarrow> kept s s'"
  by (auto simp: wire_blocked_def kept_def split: prod.splits option.splits
      dest!: blocked_frame_gate link_wire_kept [unfolded kept_def])

text \<open>A frame handed to the inbox\<close>

lemma deliver_inbox:
  assumes "deliver c e f s = (r, s')"
  shows "\<exists>b. kept (s\<lparr>ls_inbox := b\<rparr>) s' \<and> b = snd (inbox_accept (lc_limits c) (e_save e) (ls_inbox s) f)"
proof -
  obtain q b where q: "inbox_accept (lc_limits c) (e_save e) (ls_inbox s) f = (q, b)"
    by (cases "inbox_accept (lc_limits c) (e_save e) (ls_inbox s) f")
  have "kept (s\<lparr>ls_inbox := b\<rparr>) s'"
  proof (cases q)
    case (Inl x)
    with assms q show ?thesis
      by (cases x) (auto simp: deliver_def dest!: single_kept wire_new_kept intro: kept_trans [OF count_kept])
  next
    case (Inr y)
    let ?k = "\<lambda>ack s1. if ir_stage y = ''MISSION_STAGED'' then
        and_then (wire_new c e STATUS (f_command_id f)
          [(''state'', JStr ''MISSION_STAGED''), (''detail'', JStr (uuid_str (f_command_id f))), (''timestamp'', e_now e)] s1)
          (\<lambda>st s2. (Inr [ack, st], s2)) else (Inr [ack], s1)"
    have k: "?k ack s1 = (r, s') \<Longrightarrow> kept s1 s'" for ack s1
      by (auto split: if_splits elim!: and_then_cases dest: wire_new_kept)
    from assms q Inr have "and_then (wire_new c e ACK (f_command_id f)
        [(''acked_sequence'', JInt (int (ir_acked_sequence y)))] (s\<lparr>ls_inbox := b\<rparr>)) ?k = (r, s')"
      by (simp add: deliver_def)
    then show ?thesis
    proof (cases rule: and_then_cases)
      case (ok a s1)
      with k wire_new_kept kept_trans show ?thesis by blast
    qed (use wire_new_kept in blast)
  qed
  with q show ?thesis by auto
qed

lemma deliver_led_to:
  assumes "deliver c e f s = (r, s')" "f_type f \<in> set cloud_command_types" "g_locked (ls_gate s)" "A f"
  shows "led_to c A s s'"
proof -
  obtain b where "kept (s\<lparr>ls_inbox := b\<rparr>) s'" "b = snd (inbox_accept (lc_limits c) (e_save e) (ls_inbox s) f)"
    using deliver_inbox [OF assms(1)] by blast
  with assms show ?thesis
    by (auto simp: led_to_def kept_def accept_one_def intro!: exI [of _ "[(e_save e, f)]"])
qed

lemma handle_frame_led_to:
  assumes "handle_frame c e f nonce s = (r, s')" "A f"
  shows "led_to c A s s'"
proof (cases "\<not> lc_plaintext c \<and> nonce = None")
  case True
  with assms show ?thesis by (simp add: handle_frame_def kept_led_to)
next
  case en: False
  define s1 where "s1 = count (\<lambda>m. m\<lparr>lm_received := lm_received m + 1\<rparr>) s"
  define s2 where "s2 = (if lc_plaintext c then s1 else s1\<lparr>ls_peer := nonce\<rparr>)"
  have k: "kept s s1" "kept s s2" by (simp_all add: s1_def s2_def kept_def count_def)
  consider "s' = s1" | "s' = s2"
    | q where "challenge_datagram c e (s1\<lparr>ls_peer := None\<rparr>) = (q, s')"
    | q where "wire_blocked c e s2 = (q, s')"
    | "deliver c e f s2 = (r, s')" "f_type f \<in> set cloud_command_types" "require_locked (ls_gate s2) f"
    using assms(1) en unfolding handle_frame_def Let_def s1_def [symmetric] s2_def [symmetric]
    by (auto split: if_splits dest!: single_kept)
  then show ?thesis
  proof cases
    case 3
    have "kept s (s1\<lparr>ls_peer := None\<rparr>)" using k(1) by (simp add: kept_def)
    with challenge_kept [OF 3] show ?thesis by (blast intro: kept_led_to kept_trans)
  next
    case 4
    with wire_blocked_kept [OF 4] k(2) show ?thesis by (blast intro: kept_led_to kept_trans)
  next
    case 5
    then have "g_locked (ls_gate s2)" by (simp add: require_locked_def)
    from deliver_led_to [OF 5(1,2) this, of A] assms(2) kept_led_to [OF k(2)] show ?thesis
      by (blast intro: led_to_trans)
  qed (use k kept_led_to in blast)+
qed

text \<open>One envelope\<close>

definition sealed_frame :: "bytes \<Rightarrow> nat \<Rightarrow> bytes list \<Rightarrow> frame \<Rightarrow> bool" where
  "sealed_frame psk n ds f \<longleftrightarrow> (\<exists>nonce counter p. decode_frame p n = Inr f
     \<and> auth_header nonce counter (length p) @ p @ hmac_sha256 psk (auth_header nonce counter (length p) @ p) \<in> set ds)"

lemma session_open_sealed:
  assumes "session_open ok s d = (Inr (p, m), s')"
  shows "d = auth_header (m_nonce m) (m_counter m) (length p) @ p
      @ hmac_sha256 (a_psk (s_codec s)) (auth_header (m_nonce m) (m_counter m) (length p) @ p)"
  using assms by (auto simp: session_open_def split: prod.splits sum.splits if_splits dest: auth_open_shape)

lemma handle_envelope_led_to:
  assumes "handle_envelope c e d s = (r, s')" "d \<in> set ds"
  shows "led_to c (sealed_frame (a_psk (s_codec (ls_auth s))) (lc_max_payload c) ds) s s'"
proof -
  let ?A = "sealed_frame (a_psk (s_codec (ls_auth s))) (lc_max_payload c) ds"
  obtain q a where q: "session_open (e_open_ok e) (ls_auth s) d = (q, a)"
    by (cases "session_open (e_open_ok e) (ls_auth s) d")
  define s1 where "s1 = s\<lparr>ls_auth := a\<rparr>"
  have k1: "kept s s1" using session_psk(2) [OF q] by (simp add: s1_def kept_def)
  then have kc: "kept s (count f s1)" for f by (blast intro: kept_trans count_kept)
  show ?thesis
  proof (cases q)
    case (Inl x)
    have "s' = s1 \<or> (\<exists>f. s' = count f s1)"
      using assms(1) q Inl by (auto simp: handle_envelope_def s1_def split: session_exc.splits auth_exc.splits)
    with k1 kc show ?thesis by (blast intro: kept_led_to)
  next
    case (Inr pm)
    obtain p m where pm: "pm = (p, m)" by (cases pm)
    note h = assms(1) [unfolded handle_envelope_def q Inr pm sum.case prod.case Let_def s1_def [symmetric]]
    show ?thesis
    proof (cases "decode_frame p (lc_max_payload c)")
      case (Inl x)
      have "s' = s1 \<or> (\<exists>f. s' = count f s1)" using h Inl by (auto split: frame_exc.splits)
      with k1 kc show ?thesis by (blast intro: kept_led_to)
    next
      case f: (Inr f)
      have A: "?A f" using f assms(2) session_open_sealed [of "e_open_ok e" "ls_auth s" d p m a] q Inr pm
        unfolding sealed_frame_def by auto
      define s2 where "s2 = s1\<lparr>ls_peer := Some (m_nonce m)\<rparr>"
      have k2: "kept s s2" using k1 by (simp add: s2_def kept_def)
      show ?thesis
      proof (cases "f_type f = AUTH_RESPONSE")
        case False
        with h f have "handle_frame c e f (Some (m_nonce m)) s1 = (r, s')" by simp
        from handle_frame_led_to [OF this, of ?A] A kept_led_to [OF k1] show ?thesis
          by (blast intro: led_to_trans)
      next
        case True
        have "kept s s'"
        proof (cases "fld (f_payload f) ''challenge'' = JStr (lc_challenge c)")
          case False
          with h f True obtain q' where "challenge_datagram c e
              (count (\<lambda>m. m\<lparr>lm_rejected_auth := lm_rejected_auth m + 1\<rparr>) s1) = (q', s')"
            by (auto dest: single_kept)
          with challenge_kept kc show ?thesis by (blast intro: kept_trans)
        next
          case ch: True
          show ?thesis
          proof (cases "g_locked (ls_gate s2)")
            case True
            obtain sf s3 where lf: "link_frame STATUS 0 [(''state'', JStr ''authenticated''),
                (''detail'', JStr ''serial_session_ready''), (''timestamp'', e_now e)] s2 = (sf, s3)"
              by (cases "link_frame STATUS 0 [(''state'', JStr ''authenticated''),
                (''detail'', JStr ''serial_session_ready''), (''timestamp'', e_now e)] s2")
            with h f \<open>f_type f = AUTH_RESPONSE\<close> ch True obtain q' where "link_seal c e sf s3 = (q', s')"
              by (auto simp: s2_def [symmetric] dest: single_kept)
            with link_frame_kept [OF lf] link_seal_kept k2 show ?thesis by (blast intro: kept_trans)
          next
            case False
            obtain bo g where b: "blocked_frame (ls_gate s2) = (bo, g)" by (cases "blocked_frame (ls_gate s2)")
            have k3: "kept s (s2\<lparr>ls_gate := g\<rparr>)" using blocked_frame_gate [OF b] k2 by (simp add: kept_def)
            show ?thesis
            proof (cases bo)
              case None
              with h f \<open>f_type f = AUTH_RESPONSE\<close> ch False b k3 show ?thesis by (simp add: s2_def [symmetric])
            next
              case (Some bf)
              with h f \<open>f_type f = AUTH_RESPONSE\<close> ch False b obtain q' where
                "link_seal c e bf (s2\<lparr>ls_gate := g\<rparr>) = (q', s')"
                by (auto simp: s2_def [symmetric] dest: single_kept)
              with link_seal_kept k3 show ?thesis by (blast intro: kept_trans)
            qed
          qed
        qed
        then show ?thesis by (rule kept_led_to)
      qed
    qed
  qed
qed

subsection \<open>A whole call\<close>

lemma led_to_refl [simp]: "led_to c A s s"
  by (rule kept_led_to) simp

lemma handle_frames_led_to: "handle_frames c env i fs s = (r, s') \<Longrightarrow> led_to c (\<lambda>f. True) s s'"
proof (induction fs arbitrary: i s r)
  case (Cons f fs)
  from Cons.prems [unfolded handle_frames.simps] show ?case
  proof (cases rule: and_then_cases)
    case (err x)
    then show ?thesis by (auto intro: handle_frame_led_to)
  next
    case (ok a s1)
    obtain q where "handle_frames c env (Suc i) fs s1 = (q, s')"
      using ok(2) by (auto elim!: and_then_cases split: prod.splits)
    from Cons.IH [OF this] handle_frame_led_to [OF ok(1), of "\<lambda>f. True"] show ?thesis
      by (blast intro: led_to_trans)
  qed
qed simp

lemma forward_packet_led_to: "led_to c A s (forward_packet c pk s)"
  by (auto simp: forward_packet_def led_to_def count_def intro: exI [of _ "[]"])

lemma handle_packets_led_to:
  "handle_packets c env i pks s = (r, s') \<Longrightarrow> led_to c (\<lambda>f. lc_plaintext c) s s' \<and> (\<not> lc_plaintext c \<longrightarrow> ls_buffer s' = ls_buffer s)"
proof (induction pks arbitrary: i s r)
  case (Cons pk pks)
  show ?case
  proof (cases "if lc_plaintext c then unwrap_liot_frame pk else None")
    case None
    then have "handle_packets c env i pks (forward_packet c pk s) = (r, s')" using Cons.prems by simp
    from Cons.IH [OF this] show ?thesis
      by (auto simp: forward_packet_def count_def intro: led_to_trans [OF forward_packet_led_to, unfolded forward_packet_def count_def])
  next
    case (Some ext)
    then have plain: "lc_plaintext c" by (simp split: if_splits)
    obtain b q where d: "decoder_feed (lc_max_payload c) (ls_plain_buffer s) ext = (b, q)"
      by (cases "decoder_feed (lc_max_payload c) (ls_plain_buffer s) ext")
    have k: "kept s (s\<lparr>ls_plain_buffer := b\<rparr>)" by (simp add: kept_def)
    have "led_to c (\<lambda>f. True) s s'"
    proof (cases q)
      case (Inl x)
      with Cons.prems Some d k show ?thesis by (simp add: kept_led_to)
    next
      case (Inr fs)
      with Cons.prems Some d have "and_then (handle_frames c env i fs (s\<lparr>ls_plain_buffer := b\<rparr>))
        (\<lambda>(k, rs) s1. and_then (handle_packets c env k pks s1) (\<lambda>rs' s2. (Inr (rs @ rs'), s2))) = (r, s')" by simp
      then show ?thesis
      proof (cases rule: and_then_cases)
        case (err x)
        with handle_frames_led_to kept_led_to [OF k] show ?thesis by (blast intro: led_to_trans)
      next
        case (ok a s1)
        obtain kk q' where "handle_packets c env kk pks s1 = (q', s')"
          using ok(2) by (auto elim!: and_then_cases split: prod.splits)
        with Cons.IH plain have "led_to c (\<lambda>f. True) s1 s'" by (auto intro: led_to_mono)
        with handle_frames_led_to [OF ok(1)] kept_led_to [OF k] show ?thesis by (blast intro: led_to_trans)
      qed
    qed
    with plain show ?thesis by (auto intro: led_to_mono)
  qed
qed simp

lemma led_to_psk: "led_to c A s s' \<Longrightarrow> a_psk (s_codec (ls_auth s')) = a_psk (s_codec (ls_auth s))"
  by (simp add: led_to_def)

lemma handle_envelopes_led_to:
  "handle_envelopes c env i acc ds s = (r, s') \<Longrightarrow> set ds \<subseteq> set es \<Longrightarrow>
     led_to c (sealed_frame (a_psk (s_codec (ls_auth s))) (lc_max_payload c) es) s s'"
proof (induction ds arbitrary: i acc s r)
  case (Cons d ds)
  then have d: "d \<in> set es" by simp
  from Cons.prems(1) [unfolded handle_envelopes.simps] show ?case
  proof (cases rule: and_then_cases)
    case (err x)
    with handle_envelope_led_to d show ?thesis by blast
  next
    case (ok a s1)
    note one = handle_envelope_led_to [OF ok(1) d]
    show ?thesis
    proof (cases "lc_max_responses c \<le> length (acc @ a)")
      case True
      with ok one show ?thesis by simp
    next
      case False
      with ok have "handle_envelopes c env (Suc i) (acc @ a) ds s1 = (r, s')" by simp
      from Cons.IH [OF this] Cons.prems(2) led_to_psk [OF one] one show ?thesis
        by (auto intro: led_to_trans)
    qed
  qed
qed simp

lemma feed_bytes_led_to:
  assumes "feed_bytes c env data s = (r, s')"
  shows "led_to c (\<lambda>f. lc_plaintext c \<or> sealed_frame (a_psk (s_codec (ls_auth s))) (lc_max_payload c)
      (fst (snd (auth_feed (lc_max_wire c) (ls_buffer s) data))) f) s s'"
proof -
  obtain mb pks where m: "stream_loop mav_turn (ls_mav_buffer s @ data) = (mb, pks)"
    by (cases "stream_loop mav_turn (ls_mav_buffer s @ data)")
  let ?s0 = "s\<lparr>ls_mav_buffer := mb\<rparr>"
  have k: "kept s ?s0" by (simp add: kept_def)
  from assms [unfolded feed_bytes_def m prod.case] show ?thesis
  proof (cases rule: and_then_cases)
    case (err x)
    from handle_packets_led_to [OF err(1)] kept_led_to [OF k] show ?thesis
      by (blast intro: led_to_trans led_to_mono)
  next
    case (ok rs s1)
    note one = handle_packets_led_to [OF ok(1)]
    have s1: "led_to c (\<lambda>f. lc_plaintext c) s s1" using one kept_led_to [OF k] by (blast intro: led_to_trans)
    show ?thesis
    proof (cases "lc_plaintext c")
      case True
      with ok s1 show ?thesis by (auto intro: led_to_mono)
    next
      case False
      obtain b ds n where a: "auth_feed (lc_max_wire c) (ls_buffer s1) data = (b, ds, n)"
        by (cases "auth_feed (lc_max_wire c) (ls_buffer s1) data")
      let ?s2 = "count (\<lambda>m. m\<lparr>lm_rejected_size := lm_rejected_size m + n\<rparr>) (s1\<lparr>ls_buffer := b\<rparr>)"
      have k2: "kept s1 ?s2" by (simp add: kept_def count_def)
      have h: "handle_envelopes c env 0 rs ds ?s2 = (r, s')" using ok(2) False a by simp
      have "ls_buffer s1 = ls_buffer s" using one False by simp
      with a have ds: "fst (snd (auth_feed (lc_max_wire c) (ls_buffer s) data)) = ds" by simp
      have psk: "a_psk (s_codec (ls_auth ?s2)) = a_psk (s_codec (ls_auth s))"
        using led_to_psk [OF s1] by (simp add: count_def)
      let ?A = "\<lambda>f. lc_plaintext c \<or> sealed_frame (a_psk (s_codec (ls_auth s))) (lc_max_payload c) ds f"
      have "led_to c (sealed_frame (a_psk (s_codec (ls_auth s))) (lc_max_payload c) ds) ?s2 s'"
        using handle_envelopes_led_to [OF h subset_refl] unfolding psk .
      then have e: "led_to c ?A ?s2 s'" by (rule led_to_mono) (rule disjI2)
      have "led_to c ?A s s1" using s1 by (rule led_to_mono) (rule disjI1)
      then have "led_to c ?A s s'" by (rule led_to_trans [OF led_to_trans [OF _ kept_led_to [OF k2]] e])
      then show ?thesis unfolding ds .
    qed
  qed
qed

subsection \<open>Properties\<close>

text \<open>C13: whatever bytes arrive on the serial line, the inbox of the aircraft changes only by frames
  of the four command types and only while the optical gate is locked; on the authenticated link
  each of them is the payload of an envelope of the stream that carries the right HMAC under the
  shared key. While the gate is not locked no MAVLink packet is forwarded either, and no byte on
  the line changes the gate.\<close>

theorem command_path_guarded:
  assumes "feed_bytes c env data s = (r, s')"
  shows "\<exists>fs. ls_inbox s' = foldl (accept_one (lc_limits c)) (ls_inbox s) fs
      \<and> (\<forall>(sv, f) \<in> set fs. f_type f \<in> {COMMAND, MISSION_BEGIN, MISSION_ITEM, MISSION_COMMIT} \<and> g_locked (ls_gate s)
          \<and> (lc_plaintext c \<or> sealed_frame (a_psk (s_codec (ls_auth s))) (lc_max_payload c)
              (fst (snd (auth_feed (lc_max_wire c) (ls_buffer s) data))) f))
      \<and> g_locked (ls_gate s') = g_locked (ls_gate s)
      \<and> (\<not> g_locked (ls_gate s) \<longrightarrow> ls_inbox s' = ls_inbox s \<and> ls_forwarded s' = ls_forwarded s)"
proof -
  obtain fs where fs: "ls_inbox s' = foldl (accept_one (lc_limits c)) (ls_inbox s) fs"
    "\<forall>(sv, f) \<in> set fs. f_type f \<in> set cloud_command_types \<and> g_locked (ls_gate s)
          \<and> (lc_plaintext c \<or> sealed_frame (a_psk (s_codec (ls_auth s))) (lc_max_payload c)
              (fst (snd (auth_feed (lc_max_wire c) (ls_buffer s) data))) f)"
    using feed_bytes_led_to [OF assms] unfolding led_to_def by blast
  have "fs = [] \<or> g_locked (ls_gate s)" using fs(2) by (cases fs) auto
  with fs feed_bytes_led_to [OF assms] show ?thesis
    by (intro exI [of _ fs]) (auto simp: led_to_def cloud_command_types_def)
qed

definition sample_gate :: optical_gate where
  "sample_gate = \<lparr>g_locked = False, g_reason = ''optical_not_locked'', g_event_timestamp = JInt 1, g_next_status = None,
     g_interval = 1, g_sequence = 0\<rparr>"

definition sample_link_config :: link_config where
  "sample_link_config = \<lparr>lc_limits = small_limits, lc_plaintext = False, lc_max_payload = 8192, lc_max_responses = 8,
     lc_max_wire = 65535, lc_has_sink = True, lc_challenge = []\<rparr>"

definition sample_link :: link_server where
  "sample_link = \<lparr>ls_inbox = \<lparr>mem = empty_inbox, disk = empty_inbox\<rparr>, ls_gate = sample_gate,
     ls_auth = \<lparr>s_codec = sample_codec, s_disk = None\<rparr>, ls_buffer = [], ls_plain_buffer = [], ls_mav_buffer = [],
     ls_peer = None, ls_reported = [], ls_sequence = 0, ls_wrap = 0, ls_forwarded = [],
     ls_metrics = \<lparr>lm_received = 0, lm_mavlink_chunks = 0, lm_mavlink_bytes = 0, lm_rejected_auth = 0,
       lm_rejected_frame = 0, lm_rejected_size = 0, lm_rejected_queue = 0, lm_serial_chunks = 0, lm_serial_bytes = 0\<rparr>\<rparr>"

definition sample_env :: link_env where
  "sample_env = \<lparr>e_now = JInt 2, e_open_ok = True, e_seal_ok = True, e_save = Saved\<rparr>"

theorem command_path_guarded_witness:
  "\<exists>r s'. feed_bytes sample_link_config (\<lambda>i. sample_env) [0x4C, 0x49, 0xFD, 9] sample_link = (r, s')
     \<and> ls_inbox s' = ls_inbox sample_link \<and> ls_forwarded s' = []"
proof -
  obtain r s' where f: "feed_bytes sample_link_config (\<lambda>i. sample_env) [0x4C, 0x49, 0xFD, 9] sample_link = (r, s')"
    by (cases "feed_bytes sample_link_config (\<lambda>i. sample_env) [0x4C, 0x49, 0xFD, 9] sample_link")
  from command_path_guarded [OF f] f show ?thesis by (auto simp: sample_link_def sample_gate_def)
qed

text \<open>Frames of the server leave its peer as it is\<close>

lemma link_seal_peer: "link_seal c e f s = (r, s') \<Longrightarrow> ls_peer s' = ls_peer s"
  by (auto simp: link_seal_def split: sum.splits prod.splits)

lemma wire_new_peer: "wire_new c e ty cid p s = (r, s') \<Longrightarrow> ls_peer s' = ls_peer s"
  by (auto simp: wire_new_def link_wire_def link_frame_def split: sum.splits prod.splits option.splits if_splits
      dest!: link_seal_peer)

lemma deliver_peer:
  assumes "deliver c e f s = (r, s')"
  shows "ls_peer s' = ls_peer s"
proof -
  obtain q b where q: "inbox_accept (lc_limits c) (e_save e) (ls_inbox s) f = (q, b)"
    by (cases "inbox_accept (lc_limits c) (e_save e) (ls_inbox s) f")
  show ?thesis
  proof (cases q)
    case (Inl x)
    with assms q show ?thesis
      by (cases x) (auto simp: deliver_def count_def dest!: single_kept wire_new_peer)
  next
    case (Inr y)
    let ?k = "\<lambda>ack s1. if ir_stage y = ''MISSION_STAGED'' then
        and_then (wire_new c e STATUS (f_command_id f)
          [(''state'', JStr ''MISSION_STAGED''), (''detail'', JStr (uuid_str (f_command_id f))), (''timestamp'', e_now e)] s1)
          (\<lambda>st s2. (Inr [ack, st], s2)) else (Inr [ack], s1)"
    have k: "?k ack s1 = (r, s') \<Longrightarrow> ls_peer s' = ls_peer s1" for ack s1
      by (auto split: if_splits elim!: and_then_cases dest: wire_new_peer)
    from assms q Inr have "and_then (wire_new c e ACK (f_command_id f)
        [(''acked_sequence'', JInt (int (ir_acked_sequence y)))] (s\<lparr>ls_inbox := b\<rparr>)) ?k = (r, s')"
      by (simp add: deliver_def)
    then show ?thesis
    proof (cases rule: and_then_cases)
      case (ok a s1)
      with k [OF ok(2)] wire_new_peer [OF ok(1)] show ?thesis by simp
    next
      case (err x)
      with wire_new_peer [OF err(1)] show ?thesis by simp
    qed
  qed
qed

text \<open>C14: the challenge does not stand before commands: a server that has just started, or has just
  dropped its peer, hands the first authenticated command frame it opens to the inbox and takes the
  sender's session as its peer, though no AUTH_RESPONSE was ever received.\<close>

theorem command_without_challenge_response:
  assumes "\<not> lc_plaintext c" and "ls_peer s = None" and "g_locked (ls_gate s)"
    and "session_open (e_open_ok e) (ls_auth s) d = (Inr (p, m), a)" and "decode_frame p (lc_max_payload c) = Inr f"
    and "f_type f \<in> {COMMAND, MISSION_BEGIN, MISSION_ITEM, MISSION_COMMIT}"
    and "handle_envelope c e d s = (r, s')"
  shows "ls_inbox s' = snd (inbox_accept (lc_limits c) (e_save e) (ls_inbox s) f) \<and> ls_peer s' = Some (m_nonce m)"
proof -
  define s2 where "s2 = count (\<lambda>m. m\<lparr>lm_received := lm_received m + 1\<rparr>) (s\<lparr>ls_auth := a\<rparr>)\<lparr>ls_peer := Some (m_nonce m)\<rparr>"
  have "f_type f \<in> set cloud_command_types" "f_type f \<noteq> AUTH_RESPONSE"
    using assms(6) by (auto simp: cloud_command_types_def)
  with assms(1-5,7) have d: "deliver c e f s2 = (r, s')"
    by (simp add: handle_envelope_def handle_frame_def require_locked_def s2_def count_def)
  from deliver_inbox [OF d] deliver_peer [OF d] show ?thesis by (auto simp: kept_def s2_def count_def)
qed

lemma arm_wire:
  obtains bs where "encode_frame arm_frame 8192 = Inr bs" "decode_frame bs 8192 = Inr arm_frame" "length bs \<le> max_auth_payload"
proof -
  have ok: "json_ok (JObj (f_payload arm_frame))" "frame_ok arm_frame" by (simp_all add: arm_frame_def frame_ok_def)
  have v: "validate_payload COMMAND (JObj (f_payload arm_frame)) = None" by code_simp
  have l: "length (utf8 (the (dumps False (JObj (f_payload arm_frame))))) = 16" by code_simp
  from v l dumps_total [OF ok(1), of False] obtain bs where bs: "encode_frame arm_frame 8192 = Inr bs" "length bs \<le> max_auth_payload"
    by (auto simp: encode_frame_def canonical_payload_def arm_frame_def seal_crc_def pack_header_def max_auth_payload_def magic_def)
  have "frame_canonical arm_frame = arm_frame"
    by (simp add: frame_canonical_def arm_frame_def dict_sorted_def)
  with decode_encode [OF bs(1) ok(2,1)] bs that show thesis by simp
qed

theorem command_without_challenge_response_witness:
  "\<exists>bs d s'. encode_frame arm_frame 8192 = Inr bs \<and> fst (auth_seal sample_codec bs) = Inr d
     \<and> snd (handle_envelope sample_link_config sample_env d (sample_link\<lparr>ls_gate := set_locked (JInt 1) sample_gate\<rparr>)) = s'
     \<and> jobs (mem (ls_inbox s')) = [command_record arm_frame] \<and> ls_peer s' \<noteq> None"
proof -
  let ?s = "sample_link\<lparr>ls_gate := set_locked (JInt 1) sample_gate\<rparr>"
  obtain bs where bs: "encode_frame arm_frame 8192 = Inr bs" "decode_frame bs 8192 = Inr arm_frame" "length bs \<le> max_auth_payload"
    by (rule arm_wire)
  obtain d a1 where d: "auth_seal sample_codec bs = (Inr d, a1)"
    using bs(3) by (simp add: auth_seal_def sample_codec_def not_less Let_def)
  have "length (a_nonce sample_codec) = 16" by (simp add: sample_codec_def)
  with d bs(3) obtain m a2 where "auth_open sample_codec d = (Inr (bs, m), a2)"
    using auth_seal_wire [OF d] auth_open_wire [of "a_nonce sample_codec" "a_counter sample_codec" bs sample_codec]
    by (auto simp: accept_counter_def sample_codec_def)
  then obtain a where o: "session_open (e_open_ok sample_env) (ls_auth ?s) d = (Inr (bs, m), a)"
    by (simp add: session_open_def sample_link_def sample_env_def)
  obtain r s' where h: "handle_envelope sample_link_config sample_env d ?s = (r, s')"
    by (cases "handle_envelope sample_link_config sample_env d ?s")
  have inb: "ls_inbox s' = snd (inbox_accept (lc_limits sample_link_config) (e_save sample_env) (ls_inbox ?s) arm_frame)
      \<and> ls_peer s' = Some (m_nonce m)"
    using o bs(2) h by (intro command_without_challenge_response [of sample_link_config ?s sample_env d bs m a])
      (simp_all add: sample_link_config_def sample_link_def set_locked_def arm_frame_def)
  moreover obtain b' where "inbox_accept small_limits Saved \<lparr>mem = empty_inbox, disk = empty_inbox\<rparr> arm_frame
      = (Inr \<lparr>ir_acked_sequence = 1, ir_stage = ''COMMAND_STAGED'', ir_duplicate = False\<rparr>, b')"
    "jobs (mem b') = [command_record arm_frame]"
    by (rule arm_accepted)
  ultimately have "jobs (mem (ls_inbox s')) = [command_record arm_frame]"
    using inb by (simp add: sample_link_config_def sample_env_def sample_link_def)
  with bs(1) d h inb show ?thesis by auto
qed

end
