(* ===== verification/Follow.thy ===== *)
theory Follow
  imports MavExt MissionWorker
begin

text \<open>
  The follow target: \<open>aircraft_agent/follow_target.py\<close> publishes the leader's position,
  \<open>rdk_agent/follow_relay.py\<close> forwards the frames to the slave and
  \<open>slave_agent/follow_receiver.py\<close> injects them into the slave's flight controller.
\<close>

definition follow_message_id :: nat where
  "follow_message_id = 33"

subsection \<open>Publisher\<close>

record follow_position =
  fp_timestamp_ms :: int
  fp_lat :: int
  fp_lon :: int
  fp_alt :: int
  fp_relative_alt :: "int option"
  fp_vx :: int
  fp_vy :: int
  fp_vz :: int
  fp_hdg :: "int option"

record publisher =
  pb_period :: real
  pb_max_age :: real
  pb_source_system :: int
  pb_heartbeat_at :: "real option"
  pb_position_at :: "real option"
  pb_last_emit_at :: "real option"
  pb_position :: "follow_position option"
  pb_produced :: nat
  pb_stale :: nat
  pb_dropped :: nat

definition publisher_init :: "real \<Rightarrow> real \<Rightarrow> int \<Rightarrow> publisher" where
  "publisher_init rate_hz max_age source = \<lparr>pb_period = 1 / rate_hz, pb_max_age = max_age, pb_source_system = source,
     pb_heartbeat_at = None, pb_position_at = None, pb_last_emit_at = None, pb_position = None,
     pb_produced = 0, pb_stale = 0, pb_dropped = 0\<rparr>"

definition opt_int_field :: "fc_msg \<Rightarrow> string \<Rightarrow> int option" where
  "opt_int_field m k = (case map_of (fm_fields m) k of None \<Rightarrow> None | Some v \<Rightarrow> to_int v)"

definition publisher_observe :: "fc_msg \<Rightarrow> real \<Rightarrow> publisher \<Rightarrow> publisher" where
  "publisher_observe m now p =
     (if (case fm_source_system m of Some i \<Rightarrow> i | None \<Rightarrow> 0) \<noteq> pb_source_system p then p
      else if fm_type m = ''HEARTBEAT'' then p\<lparr>pb_heartbeat_at := Some now\<rparr>
      else if fm_type m = ''GLOBAL_POSITION_INT'' then
        p\<lparr>pb_position := Some \<lparr>fp_timestamp_ms = (case opt_int_field m ''time_boot_ms'' of Some t \<Rightarrow> t | None \<Rightarrow> trunc (now * 1000)),
            fp_lat = int_field m ''lat'', fp_lon = int_field m ''lon'', fp_alt = int_field m ''alt'',
            fp_relative_alt = opt_int_field m ''relative_alt'', fp_vx = int_field m ''vx'', fp_vy = int_field m ''vy'',
            fp_vz = int_field m ''vz'', fp_hdg = opt_int_field m ''hdg''\<rparr>,
          pb_position_at := Some now\<rparr>
      else p)"

definition recent :: "real \<Rightarrow> real \<Rightarrow> real option \<Rightarrow> bool" where
  "recent max_age now t = (case t of None \<Rightarrow> False | Some s \<Rightarrow> now - s \<le> max_age)"

definition publisher_fresh :: "real \<Rightarrow> publisher \<Rightarrow> bool" where
  "publisher_fresh now p = (case pb_position p of
     None \<Rightarrow> False
   | Some q \<Rightarrow> recent (pb_max_age p) now (pb_heartbeat_at p) \<and> recent (pb_max_age p) now (pb_position_at p)
       \<and> fp_lat q \<noteq> 0 \<and> fp_lon q \<noteq> 0 \<and> fp_relative_alt q \<noteq> None
       \<and> fp_hdg q \<noteq> None \<and> fp_hdg q \<noteq> Some 0xFFFF)"

text \<open>
  \<open>next_frame\<close>: \<open>encode\<close> is the encoder, pymavlink, with None when it raises. The result says
  whether a frame is due and what the encoder made of it.
\<close>

datatype next_result = NotDue | Produced bytes | EncodeFailed

definition publisher_next :: "(follow_position \<Rightarrow> bytes option) \<Rightarrow> real \<Rightarrow> publisher \<Rightarrow> next_result \<times> publisher" where
  "publisher_next encode now p =
     (if \<not> publisher_fresh now p then (NotDue, p\<lparr>pb_stale := pb_stale p + 1\<rparr>)
      else if (case pb_last_emit_at p of None \<Rightarrow> False | Some t \<Rightarrow> now - t + 1 / 1000000000 < pb_period p) then (NotDue, p)
      else
        let p1 = p\<lparr>pb_last_emit_at := Some now\<rparr> in
        case Option.bind (pb_position p) encode of
          None \<Rightarrow> (EncodeFailed, p1\<lparr>pb_dropped := pb_dropped p1 + 1\<rparr>)
        | Some f \<Rightarrow> (Produced f, p1\<lparr>pb_produced := pb_produced p1 + 1\<rparr>))"

subsection \<open>Relay\<close>

record relay =
  rl_max_age :: real
  rl_buffer :: bytes
  rl_sent :: nat
  rl_rejected :: nat
  rl_stale :: nat
  rl_send_errors :: nat
  rl_last_frame_at :: "real option"

definition frame_message_id :: "bytes \<Rightarrow> nat" where
  "frame_message_id f = unat (f ! 7) + 256 * unat (f ! 8) + 65536 * unat (f ! 9)"

text \<open>One parsed frame; \<open>ok\<close> is whether \<open>sendto\<close> succeeds\<close>

definition relay_frame :: "real \<Rightarrow> real \<Rightarrow> bool \<Rightarrow> bytes \<Rightarrow> relay \<Rightarrow> bytes list \<times> relay" where
  "relay_frame observed_at now ok f r =
     (if f ! 0 \<noteq> 0xFD then ([], r\<lparr>rl_rejected := rl_rejected r + 1\<rparr>)
      else if frame_message_id f \<noteq> follow_message_id \<or> f ! 5 \<noteq> 1 then ([], r\<lparr>rl_rejected := rl_rejected r + 1\<rparr>)
      else if rl_max_age r < now - observed_at then ([], r\<lparr>rl_stale := rl_stale r + 1\<rparr>)
      else if \<not> ok then ([], r\<lparr>rl_send_errors := rl_send_errors r + 1\<rparr>)
      else ([f], r\<lparr>rl_sent := rl_sent r + 1, rl_last_frame_at := Some now\<rparr>))"

fun relay_frames :: "real \<Rightarrow> real \<Rightarrow> (nat \<Rightarrow> bool) \<Rightarrow> nat \<Rightarrow> bytes list \<Rightarrow> relay \<Rightarrow> bytes list \<times> relay" where
  "relay_frames observed_at now ok i [] r = ([], r)"
| "relay_frames observed_at now ok i (f # fs) r =
     (case relay_frame observed_at now (ok i) f r of (out, r1) \<Rightarrow>
        (case relay_frames observed_at now ok (Suc i) fs r1 of (out', r2) \<Rightarrow> (out @ out', r2)))"

definition relay_observe :: "nat \<Rightarrow> real \<Rightarrow> real \<Rightarrow> (nat \<Rightarrow> bool) \<Rightarrow> bytes \<Rightarrow> relay \<Rightarrow> bytes list \<times> relay" where
  "relay_observe max_buffer observed_at now ok data r =
     (case relay_feed max_buffer (rl_buffer r) data of
        (b, fs) \<Rightarrow> relay_frames observed_at now ok 0 fs (r\<lparr>rl_buffer := b\<rparr>))"

subsection \<open>Receiver\<close>

definition exact_follow_position :: "bytes \<Rightarrow> bool" where
  "exact_follow_position f =
     (if length f < 12 \<or> f ! 0 \<noteq> 0xFD then False
      else if length f \<noteq> 10 + unat (f ! 1) + 2 + (if f ! 2 AND 0x01 \<noteq> 0 then 13 else 0) then False
      else frame_message_id f = follow_message_id \<and> f ! 5 = 1)"

record follow_receiver =
  fr_rover_ip :: string
  fr_received :: nat
  fr_rejected :: nat
  fr_write_errors :: nat
  fr_last_target_at :: "real option"

text \<open>What \<open>recvfrom\<close> gives and, for a datagram, whether \<open>write_raw\<close> succeeds and the clock\<close>

datatype recv_event = Datagram bytes string bool real | WouldBlock | RecvError

fun receiver_run :: "nat \<Rightarrow> recv_event list \<Rightarrow> follow_receiver \<Rightarrow> bytes list \<times> follow_receiver" where
  "receiver_run 0 es r = ([], r)"
| "receiver_run (Suc n) [] r = ([], r)"
| "receiver_run (Suc n) (WouldBlock # es) r = ([], r)"
| "receiver_run (Suc n) (RecvError # es) r = ([], r\<lparr>fr_write_errors := fr_write_errors r + 1\<rparr>)"
| "receiver_run (Suc n) (Datagram f peer ok now # es) r =
     (if peer \<noteq> fr_rover_ip r \<or> \<not> exact_follow_position f
        then receiver_run n es (r\<lparr>fr_rejected := fr_rejected r + 1\<rparr>)
      else if \<not> ok then receiver_run n es (r\<lparr>fr_write_errors := fr_write_errors r + 1\<rparr>)
      else (case receiver_run n es (r\<lparr>fr_received := fr_received r + 1, fr_last_target_at := Some now\<rparr>) of
              (fs, r') \<Rightarrow> (f # fs, r')))"

subsection \<open>What the relay sends\<close>

lemma relay_turn_shape:
  assumes "relay_turn b = Take n es" "f \<in> set es"
  shows "is_mav_magic (f ! 0) \<and> length f = mav_frame_length f \<and> 8 \<le> length f"
proof -
  have n: "es = [take (mav_frame_length b) b]" "mav_frame_length b \<le> length b" "is_mav_magic (b ! 0)"
    using assms by (auto simp: relay_turn_def split: if_splits)
  have l: "8 \<le> mav_frame_length b" by (rule mav_frame_length_bounds)
  have f: "f = take (mav_frame_length b) b" using assms(2) n(1) by simp
  have "mav_frame_length f = mav_frame_length b"
    using mav_frame_length_append [of "take (mav_frame_length b) b" "drop (mav_frame_length b) b"] l n(2) unfolding f by simp
  then show ?thesis using n l by (simp add: f)
qed

lemma relay_feed_shape:
  assumes "relay_feed k b data = (b', fs)" "f \<in> set fs"
  shows "is_mav_magic (f ! 0) \<and> length f = mav_frame_length f \<and> 8 \<le> length f"
proof -
  have "f \<in> set (snd (stream_loop relay_turn (b @ data)))"
    using assms by (auto simp: relay_feed_def split: prod.splits)
  then show ?thesis by (rule relay_stream.loop_invariant [rotated]) (rule relay_turn_shape)
qed

lemma relay_frames_sent:
  "relay_frames oa now ok i fs r = (out, r') \<Longrightarrow> f \<in> set out \<Longrightarrow>
     f \<in> set fs \<and> f ! 0 = 0xFD \<and> frame_message_id f = follow_message_id \<and> f ! 5 = 1 \<and> now - oa \<le> rl_max_age r"
proof (induction fs arbitrary: i r out r')
  case (Cons g fs)
  obtain o1 r1 where 1: "relay_frame oa now (ok i) g r = (o1, r1)" by (cases "relay_frame oa now (ok i) g r")
  obtain o2 r2 where 2: "relay_frames oa now ok (Suc i) fs r1 = (o2, r2)" by (cases "relay_frames oa now ok (Suc i) fs r1")
  have age: "rl_max_age r1 = rl_max_age r" using 1 by (auto simp: relay_frame_def split: if_splits)
  from Cons.prems 1 2 have "f \<in> set o1 \<or> f \<in> set o2" by auto
  then show ?case
  proof
    assume "f \<in> set o1"
    with 1 show ?thesis by (auto simp: relay_frame_def split: if_splits)
  next
    assume "f \<in> set o2"
    from Cons.IH [OF 2 this] age show ?thesis by simp
  qed
qed simp

lemma receiver_all:
  "length fs \<le> n \<Longrightarrow> \<forall>f \<in> set fs. exact_follow_position f \<Longrightarrow>
     fst (receiver_run n (map (\<lambda>f. Datagram f (fr_rover_ip r) True now) fs) r) = fs"
proof (induction fs arbitrary: n r)
  case (Cons f fs)
  then obtain m where m: "n = Suc m" by (cases n) auto
  let ?r = "r\<lparr>fr_received := fr_received r + 1, fr_last_target_at := Some now\<rparr>"
  have "fr_rover_ip ?r = fr_rover_ip r" by simp
  with Cons.IH [of m ?r] Cons.prems m show ?case by (auto split: prod.splits)
next
  case Nil
  show ?case by (cases n) simp_all
qed

lemma relayed_exact:
  assumes "relay_observe max_buffer observed_at now ok data r = (out, r')" "f \<in> set out"
  shows "exact_follow_position f \<and> now - observed_at \<le> rl_max_age r"
proof -
  obtain b fs where fs: "relay_feed max_buffer (rl_buffer r) data = (b, fs)"
    by (cases "relay_feed max_buffer (rl_buffer r) data")
  have run: "relay_frames observed_at now ok 0 fs (r\<lparr>rl_buffer := b\<rparr>) = (out, r')"
    using assms(1) fs by (simp add: relay_observe_def)
  note s = relay_frames_sent [OF run assms(2)]
  with relay_feed_shape [OF fs] have "length f = mav_frame_length f" by blast
  with s show ?thesis by (auto simp: exact_follow_position_def mav_frame_length_def Let_def)
qed

text \<open>A frame the receiver accepts is one frame for the parser of the relay, and passes its checks\<close>

lemma exact_relayed:
  assumes "exact_follow_position f" "now - observed_at \<le> rl_max_age r"
  shows "fst (relay_observe max_buffer observed_at now (\<lambda>i. True) f (r\<lparr>rl_buffer := []\<rparr>)) = [f]"
proof -
  have f: "12 \<le> length f" "f ! 0 = 0xFD" "length f = mav_frame_length f" "frame_message_id f = follow_message_id" "f ! 5 = 1"
    using assms(1) by (auto simp: exact_follow_position_def mav_frame_length_def Let_def split: if_splits)
  then have "relay_turn f = Take (length f) [f]" by (simp add: relay_turn_def is_mav_magic_def)
  moreover have "relay_turn [] = Stop" by (simp add: relay_turn_def)
  ultimately have "stream_loop relay_turn f = ([], [f])"
    by (subst relay_stream.loop_unfold) (simp add: relay_stream.loop_unfold [of "[]"])
  then show ?thesis using f(2,4,5) assms(2) by (simp add: relay_observe_def relay_feed_def relay_frame_def)
qed

text \<open>C21: the relay and the receiver accept the same frames. Every datagram the relay sends, from any state of its
  parser and for any bytes, is at most \<open>max_age\<close> old and is injected by a receiver that hears the rover and can write,
  in order. And of any bytes at all, as long as they are fresh and can be sent, the relay sends just these as
  one datagram if and only if the receiver injects that datagram.\<close>

theorem relayed_frames_are_injected:
  assumes "relay_observe max_buffer observed_at now ok data r = (out, r')" and "length out \<le> n"
  shows "fst (receiver_run n (map (\<lambda>f. Datagram f (fr_rover_ip v) True t) out) v) = out
    \<and> (\<forall>f \<in> set out. f ! 0 = 0xFD \<and> frame_message_id f = 33 \<and> f ! 5 = 1 \<and> now - observed_at \<le> rl_max_age r)
    \<and> (\<forall>f. now - observed_at \<le> rl_max_age r \<longrightarrow>
          (fst (relay_observe max_buffer observed_at now (\<lambda>i. True) f (r\<lparr>rl_buffer := []\<rparr>)) = [f]
           \<longleftrightarrow> fst (receiver_run (Suc k) [Datagram f (fr_rover_ip v) True t] v) = [f]))"
proof -
  have "fst (receiver_run n (map (\<lambda>f. Datagram f (fr_rover_ip v) True t) out) v) = out"
    using relayed_exact [OF assms(1)] assms(2) by (intro receiver_all) auto
  moreover have "\<forall>f \<in> set out. f ! 0 = 0xFD \<and> frame_message_id f = 33 \<and> f ! 5 = 1 \<and> now - observed_at \<le> rl_max_age r"
  proof
    fix f assume "f \<in> set out"
    then have "exact_follow_position f" "now - observed_at \<le> rl_max_age r" using relayed_exact [OF assms(1)] by blast+
    then show "f ! 0 = 0xFD \<and> frame_message_id f = 33 \<and> f ! 5 = 1 \<and> now - observed_at \<le> rl_max_age r"
      by (simp add: exact_follow_position_def follow_message_id_def split: if_splits)
  qed
  moreover have "fst (relay_observe max_buffer observed_at now (\<lambda>i. True) f (r\<lparr>rl_buffer := []\<rparr>)) = [f]
      \<longleftrightarrow> fst (receiver_run (Suc k) [Datagram f (fr_rover_ip v) True t] v) = [f]"
    if age: "now - observed_at \<le> rl_max_age r" for f
  proof -
    have "fst (receiver_run k [] q) = []" for q by (cases k) simp_all
    then have "fst (receiver_run (Suc k) [Datagram f (fr_rover_ip v) True t] v) = [f] \<longleftrightarrow> exact_follow_position f"
      by (simp split: prod.split) (metis fst_conv)
    moreover obtain out2 r2 where o2: "relay_observe max_buffer observed_at now (\<lambda>i. True) f (r\<lparr>rl_buffer := []\<rparr>) = (out2, r2)"
      by (cases "relay_observe max_buffer observed_at now (\<lambda>i. True) f (r\<lparr>rl_buffer := []\<rparr>)")
    have "out2 = [f] \<longleftrightarrow> exact_follow_position f"
      using relayed_exact [OF o2, of f] exact_relayed [OF _ age, of f max_buffer] o2 by auto
    ultimately show ?thesis by (simp add: o2)
  qed
  ultimately show ?thesis by blast
qed

definition sample_follow :: bytes where
  "sample_follow = [0xFD, 0, 0, 0, 9, 1, 1, 33, 0, 0, 7, 7]"

definition sample_relay :: relay where
  "sample_relay = \<lparr>rl_max_age = 3 / 2, rl_buffer = [], rl_sent = 0, rl_rejected = 0, rl_stale = 0, rl_send_errors = 0,
     rl_last_frame_at = None\<rparr>"

definition sample_follow_receiver :: follow_receiver where
  "sample_follow_receiver = \<lparr>fr_rover_ip = ''192.168.4.2'', fr_received = 0, fr_rejected = 0, fr_write_errors = 0,
     fr_last_target_at = None\<rparr>"

theorem relayed_frames_are_injected_witness:
  "fst (relay_observe 65536 0 1 (\<lambda>i. True) ([0x00] @ sample_follow) sample_relay) = [sample_follow]
   \<and> fst (receiver_run 32 [Datagram sample_follow ''192.168.4.2'' True 1] sample_follow_receiver) = [sample_follow]"
proof -
  obtain out r' where o: "relay_observe 65536 0 1 (\<lambda>i. True) ([0x00] @ sample_follow) sample_relay = (out, r')"
    by (cases "relay_observe 65536 0 1 (\<lambda>i. True) ([0x00] @ sample_follow) sample_relay")
  have "stream_loop relay_turn ([0x00] @ sample_follow) = ([], [sample_follow])" by code_simp
  then have out: "out = [sample_follow]"
    using o by (auto simp: relay_observe_def relay_feed_def sample_relay_def relay_frame_def sample_follow_def
        frame_message_id_def follow_message_id_def)
  from relayed_frames_are_injected [OF o, of 32 sample_follow_receiver 1 31] o out show ?thesis
    by (simp add: sample_follow_receiver_def)
qed

subsection \<open>What the publisher emits\<close>

datatype publisher_op = Observe fc_msg real | Poll real

fun publisher_step :: "(follow_position \<Rightarrow> bytes option) \<Rightarrow> publisher \<Rightarrow> publisher_op \<Rightarrow> real list \<times> publisher" where
  "publisher_step encode p (Observe m now) = ([], publisher_observe m now p)"
| "publisher_step encode p (Poll now) = (case publisher_next encode now p of
     (NotDue, p') \<Rightarrow> ([], p') | (_, p') \<Rightarrow> ([now], p'))"

text \<open>The times at which the encoder was called\<close>

fun emissions :: "(follow_position \<Rightarrow> bytes option) \<Rightarrow> publisher \<Rightarrow> publisher_op list \<Rightarrow> real list" where
  "emissions encode p [] = []"
| "emissions encode p (x # xs) = (case publisher_step encode p x of (ts, p') \<Rightarrow> ts @ emissions encode p' xs)"

fun spaced_from :: "real \<Rightarrow> real option \<Rightarrow> real list \<Rightarrow> bool" where
  "spaced_from d prev [] \<longleftrightarrow> True"
| "spaced_from d prev (t # ts) \<longleftrightarrow> (case prev of None \<Rightarrow> True | Some l \<Rightarrow> d \<le> t - l) \<and> spaced_from d (Some t) ts"

lemma publisher_observe_fields:
  "pb_period (publisher_observe m now p) = pb_period p" "pb_last_emit_at (publisher_observe m now p) = pb_last_emit_at p"
  "pb_max_age (publisher_observe m now p) = pb_max_age p"
  by (simp_all add: publisher_observe_def)

lemma publisher_next_cases:
  assumes "publisher_next encode now p = (r, p')"
  obtains (idle) "r = NotDue" "pb_last_emit_at p' = pb_last_emit_at p" "pb_period p' = pb_period p"
  | (emit) "r \<noteq> NotDue" "publisher_fresh now p" "pb_last_emit_at p' = Some now" "pb_period p' = pb_period p"
      "case pb_last_emit_at p of None \<Rightarrow> True | Some t \<Rightarrow> pb_period p - 1 / 1000000000 \<le> now - t"
  using assms by (auto simp: publisher_next_def Let_def split: if_splits option.splits)

text \<open>In any run of observed messages and polls the publisher calls its encoder at times at least a
  period apart (less the nanosecond of tolerance the code allows), and each time the last heartbeat and
  the last position are at most \<open>max_age_s\<close> old and the position has coordinates, an altitude and a
  heading.\<close>

theorem publisher_is_rate_limited:
  "spaced_from (pb_period p - 1 / 1000000000) (pb_last_emit_at p) (emissions encode p xs)
   \<and> (publisher_next encode now p = (r, p') \<and> r \<noteq> NotDue \<longrightarrow> publisher_fresh now p)"
proof
  show "spaced_from (pb_period p - 1 / 1000000000) (pb_last_emit_at p) (emissions encode p xs)"
  proof (induction xs arbitrary: p)
    case (Cons x xs)
    show ?case
    proof (cases x)
      case (Observe m t)
      then show ?thesis using Cons [of "publisher_observe m t p"] by (simp add: publisher_observe_fields)
    next
      case (Poll t)
      obtain q p1 where n: "publisher_next encode t p = (q, p1)" by (cases "publisher_next encode t p")
      then show ?thesis
      proof (cases rule: publisher_next_cases)
        case idle
        then show ?thesis using Cons [of p1] n Poll by simp
      next
        case emit
        then show ?thesis using Cons [of p1] n Poll by (cases q) (auto split: option.splits)
      qed
    qed
  qed simp
  show "publisher_next encode now p = (r, p') \<and> r \<noteq> NotDue \<longrightarrow> publisher_fresh now p"
    by (auto elim!: publisher_next_cases)
qed

definition sample_publisher :: publisher where
  "sample_publisher = \<lparr>pb_period = 1 / 10, pb_max_age = 3 / 2, pb_source_system = 1, pb_heartbeat_at = Some 1,
     pb_position_at = Some 1, pb_last_emit_at = None,
     pb_position = Some \<lparr>fp_timestamp_ms = 5, fp_lat = 1, fp_lon = 2, fp_alt = 3, fp_relative_alt = Some 4, fp_vx = 0,
       fp_vy = 0, fp_vz = 0, fp_hdg = Some 9000\<rparr>,
     pb_produced = 0, pb_stale = 0, pb_dropped = 0\<rparr>"

theorem publisher_is_rate_limited_witness:
  "emissions (\<lambda>q. Some [0xFD]) sample_publisher [Poll 1, Poll (21 / 20), Poll (11 / 10), Poll 3] = [1, 11 / 10]
   \<and> spaced_from (1 / 10 - 1 / 1000000000) None [1, 11 / 10] \<and> publisher_fresh 1 sample_publisher"
proof -
  obtain p' where n: "publisher_next (\<lambda>q. Some [0xFD]) 1 sample_publisher = (Produced [0xFD], p')"
    by (simp add: publisher_next_def publisher_fresh_def recent_def sample_publisher_def)
  have e: "emissions (\<lambda>q. Some [0xFD]) sample_publisher [Poll 1, Poll (21 / 20), Poll (11 / 10), Poll 3] = [1, 11 / 10]"
    by (simp add: publisher_next_def publisher_fresh_def recent_def sample_publisher_def Let_def)
  from publisher_is_rate_limited [of sample_publisher "\<lambda>q. Some [0xFD]" "[Poll 1, Poll (21 / 20), Poll (11 / 10), Poll 3]"
      1 "Produced [0xFD]" p'] n e
  show ?thesis by (simp add: sample_publisher_def)
qed

end
