(* ===== verification/SlaveTransport.thy ===== *)
theory SlaveTransport
  imports NodeMessages Transport
begin

text \<open>
  \<open>rdk_agent/slave_transport.py\<close>: the rover's side of the transaction channel to the slave
  aircraft. Commands and missions become datagrams that are repeated until a terminal answer, the
  retry budget or a silent slave ends the transaction.

  Clock readings that travel in messages are JSON numbers; those that drive retries are real
  numbers. Command payloads come from the cloud as JSON values.
\<close>

subsection \<open>Commands\<close>

record cloud_command =
  cc_command_id :: uuid
  cc_timestamp :: pyfloat
  cc_target :: string
  cc_action :: string
  cc_payload :: pydict

text \<open>\<open>float(v)\<close>, \<open>int(v)\<close>, \<open>bool(v)\<close> of a JSON value; None when the conversion raises\<close>

fun json_float :: "json \<Rightarrow> json option" where
  "json_float (JInt i) = (if float_overflow (JInt i) then None else Some (JFloat (norm_dec i 0)))"
| "json_float (JBool b) = Some (JFloat (Fin (if b then 1 else 0) 0))"
| "json_float (JFloat x) = Some (JFloat x)"
| "json_float (JStr s) = map_option JFloat (float_text s)"
| "json_float _ = None"

fun json_int :: "json \<Rightarrow> json option" where
  "json_int (JInt i) = Some (JInt i)"
| "json_int (JBool b) = Some (JInt (if b then 1 else 0))"
| "json_int (JFloat (Fin m e)) = Some (JInt (if 0 \<le> m then \<lfloor>dec_val m e\<rfloor> else \<lceil>dec_val m e\<rceil>))"
| "json_int (JStr s) = map_option JInt (int_text s)"
| "json_int _ = None"

fun json_truthy :: "json \<Rightarrow> bool" where
  "json_truthy JNull = False"
| "json_truthy (JBool b) = b"
| "json_truthy (JInt i) = (i \<noteq> 0)"
| "json_truthy (JFloat (Fin m e)) = (m \<noteq> 0)"
| "json_truthy (JFloat x) = True"
| "json_truthy (JStr s) = (s \<noteq> [])"
| "json_truthy (JArr xs) = (xs \<noteq> [])"
| "json_truthy (JObj d) = (d \<noteq> [])"

datatype transport_exc = SlaveUnavailable string | TransportValueError string | TransportNode node_exc | BadNumber string

subsection \<open>State\<close>

record pending_entry =
  pe_wires :: "bytes list"
  pe_next_retry :: real
  pe_stage :: string
  pe_mission_id :: string
  pe_attempts :: nat

record fragment =
  fg_mission_id :: string
  fg_item_count :: int
  fg_checksum :: string
  fg_items :: "(int \<times> pydict) list"

type_synonym response_key = "string \<times> int \<times> string \<times> json \<times> json"

record transport_config =
  tc_retry_interval :: real
  tc_status_timeout :: real
  tc_max_pending :: nat
  tc_max_attempts :: nat
  tc_history_limit :: nat

text \<open>
  \<open>st_history\<close> is the deque of response keys and, with them, the set \<open>_seen_responses\<close>;
  \<open>st_sent\<close> is what was given to the socket.
\<close>

record slave_transport =
  st_sequence :: nat
  st_pending :: "(string \<times> pending_entry) list"
  st_fragments :: "(string \<times> fragment) list"
  st_last_status_at :: "real option"
  st_status :: pydict
  st_history :: "response_key list"
  st_sent :: "bytes list"
  st_rx_packets :: nat
  st_rx_wrong_peer :: nat
  st_rx_invalid :: nat
  st_rx_duplicates :: nat

definition no_event :: "json \<Rightarrow> json \<Rightarrow> string \<Rightarrow> string \<Rightarrow> json" where
  "no_event ts sq ty txt = JObj [(''timestamp'', ts), (''sequence'', sq), (''type'', JStr ty), (''text'', JStr txt)]"

definition offline_state :: pydict where
  "offline_state =
     [(''online'', JBool False), (''fc_connected'', JBool False), (''blocked'', JBool False), (''mode'', JStr ''UNKNOWN''),
      (''armed'', JBool False), (''heartbeat_at'', JFloat (Fin 0 0)), (''lat'', JFloat (Fin 0 0)), (''lon'', JFloat (Fin 0 0)),
      (''position_observed'', JBool False), (''altitude'', JFloat (Fin 0 0)), (''speed'', JFloat (Fin 0 0)),
      (''heading'', JFloat (Fin 0 0)), (''battery'', JFloat (Fin (- 1) 0)), (''mission_stage'', JStr ''IDLE''),
      (''mission_id'', JStr []), (''fault'', JStr []), (''link_state'', JStr ''OFFLINE''),
      (''event'', no_event (JFloat (Fin 0 0)) (JInt 0) ''NONE'' []), (''updated_at'', JFloat (Fin 0 0))]"

definition transport_init :: slave_transport where
  "transport_init = \<lparr>st_sequence = 0, st_pending = [], st_fragments = [], st_last_status_at = None, st_status = offline_state,
     st_history = [], st_sent = [], st_rx_packets = 0, st_rx_wrong_peer = 0, st_rx_invalid = 0, st_rx_duplicates = 0\<rparr>"

text \<open>The fields of \<open>snapshot\<close> that decide: whether the slave is online, and its state\<close>

definition transport_online :: "transport_config \<Rightarrow> real \<Rightarrow> slave_transport \<Rightarrow> bool" where
  "transport_online c now s =
     ((case st_last_status_at s of None \<Rightarrow> False | Some t \<Rightarrow> now - t \<le> tc_status_timeout c)
      \<and> json_truthy (get_or (st_status s) ''online'' (JBool False)))"

definition transport_blocked :: "slave_transport \<Rightarrow> bool" where
  "transport_blocked s = json_truthy (get_or (st_status s) ''blocked'' JNull)"

subsection \<open>Building the datagrams\<close>

definition next_sequence :: "slave_transport \<Rightarrow> nat \<times> slave_transport" where
  "next_sequence s = (st_sequence s, s\<lparr>st_sequence := u32_mask (st_sequence s + 1)\<rparr>)"

definition opt_number :: "pydict \<Rightarrow> (json \<Rightarrow> json option) \<Rightarrow> string \<Rightarrow> transport_exc + pydict" where
  "opt_number raw conv k = (case map_of raw k of
     None \<Rightarrow> Inr []
   | Some v \<Rightarrow> (case conv v of None \<Rightarrow> Inl (BadNumber k) | Some w \<Rightarrow> Inr [(k, w)]))"

fun join_parts :: "(transport_exc + pydict) list \<Rightarrow> transport_exc + pydict" where
  "join_parts [] = Inr []"
| "join_parts (Inl e # ps) = Inl e"
| "join_parts (Inr d # ps) = map_sum id (\<lambda>d'. d @ d') (join_parts ps)"

definition needed_number :: "string \<Rightarrow> json option \<Rightarrow> transport_exc + pydict" where
  "needed_number k v = (case Option.bind v json_float of None \<Rightarrow> Inl (BadNumber k) | Some w \<Rightarrow> Inr [(k, w)])"

definition transport_item :: "json \<Rightarrow> int \<Rightarrow> transport_exc + pydict" where
  "transport_item v i =
     (if \<not> is_obj v then Inl (TransportValueError ''mission item must be an object'')
      else
        let raw = dict_of v in
        map_sum id (\<lambda>d. (''index'', JInt i) # d) (join_parts
          ([needed_number ''lat'' (map_of raw ''lat''),
            needed_number ''lon'' (case map_of raw ''lon'' of None \<Rightarrow> map_of raw ''lng'' | Some w \<Rightarrow> Some w),
            needed_number ''alt'' (Some (get_or raw ''alt'' (get_or raw ''altitude'' (get_or raw ''target_alt'' (JInt 0)))))]
           @ map (opt_number raw json_int) [''command'', ''frame'']
           @ map (opt_number raw json_float) [''param1'', ''param2'', ''param3'', ''param4'']
           @ [opt_number raw (\<lambda>w. Some (JBool (json_truthy w))) ''autocontinue''])))"

fun transport_items :: "int \<Rightarrow> json list \<Rightarrow> transport_exc + pydict list" where
  "transport_items i [] = Inr []"
| "transport_items i (v # vs) = (case transport_item v i of
     Inl e \<Rightarrow> Inl e | Inr d \<Rightarrow> map_sum id (Cons d) (transport_items (i + 1) vs))"

definition identity_of :: "cloud_command \<Rightarrow> json \<Rightarrow> nat \<Rightarrow> node_identity" where
  "identity_of cmd now sq = \<lparr>ni_source = JStr ''rover'', ni_target = JStr ''aircraft_2'',
     ni_command_id = JStr (uuid_str (cc_command_id cmd)), ni_sequence = JInt (int sq), ni_timestamp = now\<rparr>"

fun encode_all :: "(node_exc + pydict) list \<Rightarrow> transport_exc + bytes list" where
  "encode_all [] = Inr []"
| "encode_all (Inl e # ms) = Inl (TransportNode e)"
| "encode_all (Inr m # ms) = (case encode_node_message m max_datagram_bytes of
     Inl e \<Rightarrow> Inl (TransportNode e) | Inr w \<Rightarrow> map_sum id (Cons w) (encode_all ms))"

text \<open>
  \<open>_messages_for\<close> and the encoding of its messages. The messages take the sequence numbers
  from the counter on, in order, each before it is built; a builder that raises ends the sequence,
  and the numbers up to its own stay drawn.
\<close>

definition seq_from :: "slave_transport \<Rightarrow> nat \<Rightarrow> nat" where
  "seq_from s k = u32_mask (st_sequence s + k)"

definition mission_messages :: "cloud_command \<Rightarrow> json \<Rightarrow> json \<Rightarrow> pydict list \<Rightarrow> string \<Rightarrow> slave_transport \<Rightarrow> (node_exc + pydict) list" where
  "mission_messages cmd now mid items digest s =
     [build_mission_begin_message mid (JInt (int (length items))) (JStr digest) (identity_of cmd now (seq_from s 0))]
     @ map (\<lambda>(k, it). build_mission_item_message mid (JInt (int k)) (JObj it) (identity_of cmd now (seq_from s (Suc k)))) (enumerate 0 items)
     @ [build_mission_commit_message mid (JInt (int (length items))) (JStr digest) (identity_of cmd now (seq_from s (Suc (length items))))]"

definition messages_for :: "cloud_command \<Rightarrow> json \<Rightarrow> slave_transport \<Rightarrow> transport_exc + (node_exc + pydict) list" where
  "messages_for cmd now s =
     (if cc_action cmd \<noteq> ''mission'' then
        Inr [build_command_message (JStr (cc_action cmd)) (Some (JObj (cc_payload cmd))) (identity_of cmd now (seq_from s 0))]
      else
        let raws = get_or (cc_payload cmd) ''items'' JNull;
            m = get_or (cc_payload cmd) ''mission_id'' JNull;
            mid = JStr (if json_truthy m then py_str m else uuid_str (cc_command_id cmd))
        in if \<not> is_list raws then Inl (TransportValueError ''aircraft_2 mission requires items'')
           else if 99 < length (list_of raws) then Inl (TransportValueError ''aircraft_2 mission supports at most 99 waypoints'')
           else (case transport_items 0 (list_of raws) of
               Inl e \<Rightarrow> Inl e
             | Inr items \<Rightarrow> (case mission_digest items of
                 Inl e \<Rightarrow> Inl (TransportNode e)
               | Inr digest \<Rightarrow> Inr (mission_messages cmd now mid items digest s))))"

definition draw :: "nat \<Rightarrow> slave_transport \<Rightarrow> slave_transport" where
  "draw k s = s\<lparr>st_sequence := u32_mask (st_sequence s + k)\<rparr>"

definition drawn :: "(node_exc + pydict) list \<Rightarrow> nat" where
  "drawn ms = min (length ms) (Suc (length (takeWhile (\<lambda>m. \<not> isl m) ms)))"

definition send_wires :: "bytes list \<Rightarrow> slave_transport \<Rightarrow> slave_transport" where
  "send_wires ws s = s\<lparr>st_sent := st_sent s @ ws\<rparr>"

text \<open>The result dictionary: \<open>accepted\<close>, the stage and the message\<close>

type_synonym transport_answer = "string \<times> string"

definition queue_command :: "transport_config \<Rightarrow> real \<Rightarrow> json \<Rightarrow> cloud_command \<Rightarrow> slave_transport \<Rightarrow>
    (transport_exc + transport_answer) \<times> slave_transport" where
  "queue_command c now wall cmd s =
     (let cid = uuid_str (cc_command_id cmd) in
      if map_of (st_pending s) cid \<noteq> None then (Inr (''QUEUED'', ''duplicate pending command''), s)
      else if tc_max_pending c \<le> length (st_pending s) then (Inl (SlaveUnavailable ''aircraft_2 command queue full''), s)
      else (case messages_for cmd wall s of
          Inl e \<Rightarrow> (Inl e, s)
        | Inr ms \<Rightarrow>
            let s1 = draw (drawn ms) s in
            (case encode_all ms of
               Inl e \<Rightarrow> (Inl e, s1)
             | Inr ws \<Rightarrow>
                 (Inr (''QUEUED'', ''aircraft_2 '' @ cc_action cmd @ '' queued''),
                  send_wires ws (s1\<lparr>st_pending := AList.update cid
                    \<lparr>pe_wires = ws, pe_next_retry = now + tc_retry_interval c, pe_stage = ''QUEUED'',
                      pe_mission_id = py_str (get_or (cc_payload cmd) ''mission_id'' (JStr [])), pe_attempts = 1\<rparr>
                    (st_pending s1)\<rparr>)))))"

subsection \<open>Missions in fragments\<close>

definition fragment_item_count :: "pydict \<Rightarrow> transport_exc + int" where
  "fragment_item_count p = (case get_or p ''item_count'' JNull of
     JInt i \<Rightarrow> if 0 \<le> i \<and> i \<le> 99 then Inr i else Inl (TransportValueError ''aircraft_2 mission item_count must be from 0 to 99'')
   | _ \<Rightarrow> Inl (TransportValueError ''aircraft_2 mission item_count must be from 0 to 99''))"

definition fragment_checksum :: "pydict \<Rightarrow> transport_exc + string" where
  "fragment_checksum p =
     (let v = py_str (get_or p ''checksum'' (get_or p ''digest'' (JStr []))) in
      if length v \<noteq> 64 \<or> \<not> list_all is_lower_hex v
        then Inl (TransportValueError ''aircraft_2 mission checksum must be SHA-256 hex'')
      else Inr v)"

definition fragment_begin :: "transport_config \<Rightarrow> string \<Rightarrow> string \<Rightarrow> pydict \<Rightarrow> slave_transport \<Rightarrow>
    (transport_exc + transport_answer) \<times> slave_transport" where
  "fragment_begin c cid mid p s =
     (case (fragment_item_count p, fragment_checksum p) of
        (Inl e, _) \<Rightarrow> (Inl e, s)
      | (_, Inl e) \<Rightarrow> (Inl e, s)
      | (Inr n, Inr ck) \<Rightarrow>
          (case map_of (st_fragments s) cid of
             Some g \<Rightarrow>
               if (fg_mission_id g, fg_item_count g, fg_checksum g) \<noteq> (mid, n, ck)
                 then (Inl (TransportValueError ''conflicting aircraft_2 mission_begin''), s)
               else (Inr (''RECEIVED'', ''duplicate mission_begin''), s)
           | None \<Rightarrow>
               if tc_max_pending c \<le> length (st_fragments s)
                 then (Inl (SlaveUnavailable ''aircraft_2 mission staging queue full''), s)
               else (Inr (''RECEIVED'', ''mission_begin received''),
                 s\<lparr>st_fragments := AList.update cid \<lparr>fg_mission_id = mid, fg_item_count = n, fg_checksum = ck, fg_items = []\<rparr>
                     (st_fragments s)\<rparr>)))"

definition fragment_item :: "string \<Rightarrow> pydict \<Rightarrow> fragment \<Rightarrow> slave_transport \<Rightarrow>
    (transport_exc + transport_answer) \<times> slave_transport" where
  "fragment_item cid p g s =
     (case get_or p ''index'' JNull of
        JInt i \<Rightarrow>
          if \<not> (0 \<le> i \<and> i < fg_item_count g) then (Inl (TransportValueError ''aircraft_2 mission index out of range''), s)
          else (case transport_item (JObj p) i of
              Inl e \<Rightarrow> (Inl e, s)
            | Inr it \<Rightarrow>
                if (case map_of (fg_items g) i of None \<Rightarrow> False | Some old \<Rightarrow> \<not> dict_eq old it)
                  then (Inl (TransportValueError ''conflicting aircraft_2 mission_item''), s)
                else (Inr (''RECEIVED'', if map_of (fg_items g) i \<noteq> None then ''duplicate mission_item'' else ''mission_item received''),
                  s\<lparr>st_fragments := AList.update cid (g\<lparr>fg_items := AList.update i it (fg_items g)\<rparr>) (st_fragments s)\<rparr>))
      | _ \<Rightarrow> (Inl (TransportValueError ''aircraft_2 mission index must be an integer''), s))"

definition fragment_items :: "fragment \<Rightarrow> pydict list" where
  "fragment_items g = map (\<lambda>i. case map_of (fg_items g) i of Some d \<Rightarrow> d | None \<Rightarrow> []) [0..fg_item_count g - 1]"

definition ground_item :: "string \<Rightarrow> pydict \<Rightarrow> pydict" where
  "ground_item mid it = foldl (\<lambda>d (k, v). AList.update k v d) [(''mission_id'', JStr mid)] it"

definition fragment_commit :: "transport_config \<Rightarrow> real \<Rightarrow> json \<Rightarrow> cloud_command \<Rightarrow> string \<Rightarrow> string \<Rightarrow> pydict \<Rightarrow> fragment \<Rightarrow>
    slave_transport \<Rightarrow> (transport_exc + transport_answer) \<times> slave_transport" where
  "fragment_commit c now wall cmd cid mid p g s =
     (case (fragment_item_count p, fragment_checksum p) of
        (Inl e, _) \<Rightarrow> (Inl e, s)
      | (_, Inl e) \<Rightarrow> (Inl e, s)
      | (Inr n, Inr ck) \<Rightarrow>
          if n \<noteq> fg_item_count g \<or> ck \<noteq> fg_checksum g
            then (Inl (TransportValueError ''aircraft_2 mission_commit metadata mismatch''), s)
          else if list_ex (\<lambda>i. map_of (fg_items g) i = None) [0..n - 1]
            then (Inl (TransportValueError ''aircraft_2 mission missing items''), s)
          else (case mission_digest (map (ground_item mid) (fragment_items g)) of
              Inl e \<Rightarrow> (Inl (TransportNode e), s)
            | Inr dg \<Rightarrow>
                if dg \<noteq> ck then (Inl (TransportValueError ''aircraft_2 mission checksum mismatch''), s)
                else (case queue_command c now wall (cmd\<lparr>cc_action := ''mission'',
                      cc_payload := [(''mission_id'', JStr mid), (''items'', JArr (map JObj (fragment_items g)))]\<rparr>) s of
                    (Inl e, s1) \<Rightarrow> (Inl e, s1)
                  | (Inr r, s1) \<Rightarrow> (Inr r, s1\<lparr>st_fragments := AList.delete cid (st_fragments s1)\<rparr>))))"

definition accept_fragment :: "transport_config \<Rightarrow> real \<Rightarrow> json \<Rightarrow> cloud_command \<Rightarrow> slave_transport \<Rightarrow>
    (transport_exc + transport_answer) \<times> slave_transport" where
  "accept_fragment c now wall cmd s =
     (let cid = uuid_str (cc_command_id cmd); p = cc_payload cmd;
          mid = py_strip (py_str (get_or p ''mission_id'' (JStr [])))
      in if map_of (st_pending s) cid \<noteq> None then (Inr (''QUEUED'', ''duplicate pending mission fragment''), s)
         else if mid = [] then (Inl (TransportValueError ''aircraft_2 mission_id must not be empty''), s)
         else if cc_action cmd = ''mission_begin'' then fragment_begin c cid mid p s
         else (case map_of (st_fragments s) cid of
             None \<Rightarrow> (Inl (TransportValueError ''aircraft_2 mission_begin not received''), s)
           | Some g \<Rightarrow>
               if mid \<noteq> fg_mission_id g then (Inl (TransportValueError ''aircraft_2 mission_id mismatch''), s)
               else if cc_action cmd = ''mission_item'' then fragment_item cid p g s
               else fragment_commit c now wall cmd cid mid p g s))"

definition transport_execute :: "transport_config \<Rightarrow> real \<Rightarrow> json \<Rightarrow> cloud_command \<Rightarrow> slave_transport \<Rightarrow>
    (transport_exc + transport_answer) \<times> slave_transport" where
  "transport_execute c now wall cmd s =
     (if cc_target cmd \<noteq> ''aircraft_2'' then (Inl (TransportValueError ''SlaveTransport accepts aircraft_2 commands only''), s)
      else if \<not> transport_online c now s then (Inl (SlaveUnavailable ''aircraft_2 offline''), s)
      else if transport_blocked s then (Inl (SlaveUnavailable ''aircraft_2 optical link blocked''), s)
      else if cc_action cmd \<in> {''mission_begin'', ''mission_item'', ''mission_commit''} then accept_fragment c now wall cmd s
      else queue_command c now wall cmd s)"

subsection \<open>Answers of the slave\<close>

definition set_status :: "string \<Rightarrow> json \<Rightarrow> slave_transport \<Rightarrow> slave_transport" where
  "set_status k v s = s\<lparr>st_status := AList.update k v (st_status s)\<rparr>"

definition event_type :: "string \<Rightarrow> string" where
  "event_type mid = (if mid = [] then ''COMMAND'' else ''MISSION'')"

definition set_mission :: "string \<Rightarrow> slave_transport \<Rightarrow> slave_transport" where
  "set_mission mid s = (if mid = [] then s else set_status ''mission_id'' (JStr mid) s)"

definition fail_transaction :: "json \<Rightarrow> string \<Rightarrow> string \<Rightarrow> slave_transport \<Rightarrow> slave_transport" where
  "fail_transaction wall reason cid s =
     (case map_of (st_pending s) cid of
        None \<Rightarrow> s
      | Some e \<Rightarrow>
          set_status ''event'' (no_event wall (JInt 0) (event_type (pe_mission_id e)) (take 160 reason))
            (set_status ''fault'' (JStr (take 160 reason))
              (set_mission (pe_mission_id e)
                (set_status ''mission_stage'' (JStr ''FAILED'') (s\<lparr>st_pending := AList.delete cid (st_pending s)\<rparr>)))))"

definition fail_pending :: "json \<Rightarrow> string \<Rightarrow> slave_transport \<Rightarrow> slave_transport" where
  "fail_pending wall reason s = fold (fail_transaction wall reason) (map fst (st_pending s)) s"

definition response_stage :: "pydict \<Rightarrow> string" where
  "response_stage m = (if fld m ''type'' = JStr ''ack''
     then str_of (get_or (dict_of (fld m ''payload'')) ''stage'' (JStr ''FAILED'')) else ''FAILED'')"

definition response_detail :: "pydict \<Rightarrow> string" where
  "response_detail m = (let p = dict_of (fld m ''payload'') in
     take 160 (py_str (get_or p ''detail'' (get_or p ''reason'' (JStr [])))))"

definition is_terminal :: "string \<Rightarrow> bool" where
  "is_terminal stage \<longleftrightarrow> stage \<in> {''VERIFIED'', ''FAILED''}"

definition apply_response :: "pydict \<Rightarrow> slave_transport \<Rightarrow> slave_transport" where
  "apply_response m s =
     (let cid = str_of (fld m ''command_id''); stage = response_stage m; detail = response_detail m;
          entry = map_of (st_pending s) cid;
          mid = (case entry of Some e \<Rightarrow> pe_mission_id e | None \<Rightarrow> []);
          s1 = (case entry of
              None \<Rightarrow> s
            | Some e \<Rightarrow> s\<lparr>st_pending := if is_terminal stage then AList.delete cid (st_pending s)
                 else AList.update cid (e\<lparr>pe_stage := stage\<rparr>) (st_pending s)\<rparr>)
      in set_status ''event'' (no_event (fld m ''timestamp'') (fld m ''sequence'') (event_type mid) (if detail = [] then stage else detail))
           (set_status ''fault'' (JStr (if stage = ''FAILED'' then detail else []))
             (set_mission mid (set_status ''mission_stage'' (JStr stage) s1))))"

subsection \<open>\<open>pump\<close>\<close>

definition response_key_of :: "pydict \<Rightarrow> response_key" where
  "response_key_of m = (let p = dict_of (fld m ''payload'') in
     (str_of (fld m ''command_id''), int_of (fld m ''sequence''), str_of (fld m ''type''),
      get_or p ''stage'' JNull, get_or p ''reason'' JNull))"

definition remember_response :: "transport_config \<Rightarrow> response_key \<Rightarrow> slave_transport \<Rightarrow> slave_transport" where
  "remember_response c k s = s\<lparr>st_history := last_n (tc_history_limit c) (st_history s @ [k])\<rparr>"

definition invalid_packet :: "slave_transport \<Rightarrow> slave_transport" where
  "invalid_packet s = s\<lparr>st_rx_invalid := st_rx_invalid s + 1\<rparr>"

text \<open>One datagram; None when \<open>decode_node_message\<close> raises something other than NodeMessageError\<close>

definition transport_datagram :: "transport_config \<Rightarrow> real \<Rightarrow> json \<Rightarrow> bytes \<Rightarrow> bool \<Rightarrow> slave_transport \<Rightarrow> slave_transport option" where
  "transport_datagram c now wall wire from_peer s0 =
     (let s = s0\<lparr>st_rx_packets := st_rx_packets s0 + 1\<rparr> in
      if \<not> from_peer then Some (s\<lparr>st_rx_wrong_peer := st_rx_wrong_peer s + 1\<rparr>)
      else case decode_node_message wire (Some ''rover'') max_datagram_bytes of
        Inl (NodeEscape e) \<Rightarrow> None
      | Inl (NodeError e) \<Rightarrow> Some (invalid_packet s)
      | Inr m \<Rightarrow>
          if fld m ''source'' \<noteq> JStr ''aircraft_2'' then Some (invalid_packet s)
          else if fld m ''type'' = JStr ''status'' then
            Some (s\<lparr>st_status := AList.update ''updated_at'' wall (dict_of (fld m ''payload'')), st_last_status_at := Some now\<rparr>)
          else if fld m ''type'' \<notin> {JStr ''ack'', JStr ''nack''} then Some (invalid_packet s)
          else if response_key_of m \<in> set (st_history s) then Some (s\<lparr>st_rx_duplicates := st_rx_duplicates s + 1\<rparr>)
          else if map_of (st_pending s) (str_of (fld m ''command_id'')) = None then Some (invalid_packet s)
          else Some (apply_response m (remember_response c (response_key_of m) s)))"

text \<open>What the socket gives: a datagram and whether it is from the peer, or nothing, or an error\<close>

datatype socket_event = Packet bytes bool | NoPacket | SocketError

fun transport_receive :: "transport_config \<Rightarrow> real \<Rightarrow> json \<Rightarrow> nat \<Rightarrow> socket_event list \<Rightarrow> slave_transport \<Rightarrow> slave_transport option" where
  "transport_receive c now wall 0 es s = Some s"
| "transport_receive c now wall (Suc n) [] s = Some s"
| "transport_receive c now wall (Suc n) (Packet w ok # es) s =
     Option.bind (transport_datagram c now wall w ok s) (transport_receive c now wall n es)"
| "transport_receive c now wall (Suc n) (NoPacket # es) s = Some s"
| "transport_receive c now wall (Suc n) (SocketError # es) s = Some s"

definition retry_one :: "transport_config \<Rightarrow> real \<Rightarrow> json \<Rightarrow> string \<Rightarrow> slave_transport \<Rightarrow> slave_transport" where
  "retry_one c now wall cid s =
     (case map_of (st_pending s) cid of
        None \<Rightarrow> s
      | Some e \<Rightarrow>
          if now < pe_next_retry e then s
          else if tc_max_attempts c \<le> pe_attempts e then fail_transaction wall ''retry budget exhausted'' cid s
          else send_wires (pe_wires e) (s\<lparr>st_pending := AList.update cid
            (e\<lparr>pe_attempts := pe_attempts e + 1, pe_next_retry := now + tc_retry_interval c\<rparr>) (st_pending s)\<rparr>))"

definition status_late :: "transport_config \<Rightarrow> real \<Rightarrow> slave_transport \<Rightarrow> bool" where
  "status_late c now s = (case st_last_status_at s of None \<Rightarrow> False | Some t \<Rightarrow> tc_status_timeout c < now - t)"

definition transport_pump :: "transport_config \<Rightarrow> real \<Rightarrow> json \<Rightarrow> nat \<Rightarrow> socket_event list \<Rightarrow> slave_transport \<Rightarrow> slave_transport option" where
  "transport_pump c now wall max_receive es s =
     map_option (\<lambda>s1.
         let s2 = (if status_late c now s1 then fail_pending wall ''status timeout'' s1 else s1)
         in fold (retry_one c now wall) (map fst (st_pending s2)) s2)
       (transport_receive c now wall max_receive es s)"

end
