(* ===== verification/CommandQueue.thy ===== *)
theory CommandQueue
  imports NodeRoundtrip InboxProps
begin

text \<open>
  \<open>slave_agent/command_queue.py\<close>: the command queue of the slave aircraft. It checks node
  messages, keeps a table of deliveries for deduplication and for the reports of the worker, and
  passes the transactions on to the durable inbox as LIOT frames.

  The two locks make each call one atomic step. A failed save raises; \<open>NqSaveFailed\<close> stands for
  the exceptions of the stores that the queue does not turn into \<open>CommandRejected\<close>.
\<close>

subsection \<open>State\<close>

record delivery =
  d_sequence :: int
  d_stage :: string
  d_mission_id :: string
  d_type :: string
  d_fingerprint :: string
  d_terminal :: string
  d_worker :: string
  d_detail :: string
  d_delivered :: bool
  d_updated :: real

type_synonym deliveries = "(string \<times> delivery) list"

record stage_event =
  se_name :: string
  se_command :: string
  se_sequence :: int
  se_mission :: string

text \<open>\<open>nq_events\<close> is what went to the stage callback, \<open>nq_executing\<close> the \<open>_executing\<close> set\<close>

record node_queue =
  nq_inbox :: inbox
  nq_offset :: "real option"
  nq_delivery :: deliveries
  nq_disk :: deliveries
  nq_events :: "stage_event list"
  nq_executing :: "string list"

record queue_config =
  qc_limits :: inbox_limits
  qc_max_age :: real
  qc_max_skew :: real
  qc_max_records :: nat

record acceptance =
  ac_stage :: string
  ac_duplicate :: bool
  ac_sequence :: int

datatype nq_exc = NodeInvalid node_exc | CommandRejected string "int list" | NqEscape pyexc | NqSaveFailed

type_synonym 'a nq_result = "(nq_exc + 'a) \<times> node_queue"

definition nq_then :: "'a nq_result \<Rightarrow> ('a \<Rightarrow> node_queue \<Rightarrow> 'b nq_result) \<Rightarrow> 'b nq_result" where
  "nq_then m f = (case m of (Inl e, s) \<Rightarrow> (Inl e, s) | (Inr a, s) \<Rightarrow> f a s)"

text \<open>What one call meets: the clock, the optical gate and the fate of its saves\<close>

record queue_env =
  q_now :: real
  q_allows :: "bool option"
  q_inbox_save :: save_result
  q_delivery_ok :: bool
  q_rollback_ok :: bool

text \<open>\<open>except (TypeError, ValueError)\<close> turns these into CommandRejected\<close>

fun rejected_py :: "pyexc \<Rightarrow> nq_exc" where
  "rejected_py (TypeError m) = CommandRejected m []"
| "rejected_py (ValueError m) = CommandRejected m []"
| "rejected_py (OverflowError m) = NqEscape (OverflowError m)"

fun rejected_inbox :: "inbox_exc \<Rightarrow> nq_exc" where
  "rejected_inbox (InboxRejected reason missing) = CommandRejected reason missing"
| "rejected_inbox (InboxPy e) = rejected_py e"
| "rejected_inbox InboxSaveFailed = NqSaveFailed"

fun rejected_node :: "node_exc \<Rightarrow> nq_exc" where
  "rejected_node (NodeError m) = CommandRejected m []"
| "rejected_node (NodeEscape e) = rejected_py e"

subsection \<open>The delivery table\<close>

definition msg_str :: "pydict \<Rightarrow> string \<Rightarrow> string" where
  "msg_str m k = str_of (fld m k)"

definition msg_payload :: "pydict \<Rightarrow> pydict" where
  "msg_payload m = dict_of (fld m ''payload'')"

definition delivery_fingerprint :: "pydict \<Rightarrow> inbox_exc + string" where
  "delivery_fingerprint m =
     ascii_digest (if msg_str m ''type'' = ''command'' then fld m ''payload''
       else JObj [(''type'', fld m ''type''), (''payload'', fld m ''payload'')])"

definition emit_stage :: "string \<Rightarrow> pydict \<Rightarrow> node_queue \<Rightarrow> node_queue" where
  "emit_stage stage m s = s\<lparr>nq_events := nq_events s @
     [\<lparr>se_name = stage, se_command = msg_str m ''command_id'', se_sequence = int_of (fld m ''sequence''),
       se_mission = str_of (get_or (msg_payload m) ''mission_id'' (JStr []))\<rparr>]\<rparr>"

definition save_delivery :: "bool \<Rightarrow> node_queue \<Rightarrow> unit nq_result" where
  "save_delivery ok s = (if ok then (Inr (), s\<lparr>nq_disk := nq_delivery s\<rparr>) else (Inl NqSaveFailed, s))"

text \<open>\<open>_trim_delivery\<close>: the oldest records by \<open>updated_at\<close>, in a stable order, are deleted\<close>

definition trim_delivery :: "nat \<Rightarrow> deliveries \<Rightarrow> deliveries" where
  "trim_delivery n d =
     (if length d \<le> n then d
      else fold AList.delete (take (length d - n) (map fst (sort_key (\<lambda>p. d_updated (snd p)) d))) d)"

definition deduplicate_delivery :: "queue_env \<Rightarrow> pydict \<Rightarrow> node_queue \<Rightarrow> acceptance option nq_result" where
  "deduplicate_delivery e m s =
     (case map_of (nq_delivery s) (msg_str m ''command_id'') of
        None \<Rightarrow> (Inr None, s)
      | Some r \<Rightarrow>
          (case delivery_fingerprint m of
             Inl x \<Rightarrow> (Inl (rejected_inbox x), s)
           | Inr fp \<Rightarrow>
               if d_fingerprint r \<noteq> fp then (Inl (CommandRejected ''duplicate_conflict'' []), s)
               else
                 let sq = int_of (fld m ''sequence'');
                     terminal = d_terminal r \<noteq> [];
                     changed = (d_sequence r \<noteq> sq \<or> terminal \<and> d_delivered r);
                     r1 = r\<lparr>d_sequence := sq, d_delivered := (if terminal then False else d_delivered r)\<rparr>;
                     r2 = (if changed then r1\<lparr>d_updated := q_now e\<rparr> else r1);
                     s1 = s\<lparr>nq_delivery := AList.update (msg_str m ''command_id'') r2 (nq_delivery s)\<rparr>;
                     acc = \<lparr>ac_stage = str_or (d_terminal r) (d_stage r), ac_duplicate = True, ac_sequence = sq\<rparr>
                 in if changed then nq_then (save_delivery (q_delivery_ok e) s1) (\<lambda>_ s2. (Inr (Some acc), s2))
                    else (Inr (Some acc), s1)))"

definition record_delivery :: "queue_config \<Rightarrow> queue_env \<Rightarrow> pydict \<Rightarrow> string \<Rightarrow> node_queue \<Rightarrow> unit nq_result" where
  "record_delivery c e m stage s =
     (case delivery_fingerprint m of
        Inl x \<Rightarrow> (Inl (rejected_inbox x), s)
      | Inr fp \<Rightarrow>
          let r = \<lparr>d_sequence = int_of (fld m ''sequence''), d_stage = stage,
                d_mission_id = str_of (get_or (msg_payload m) ''mission_id'' (JStr [])),
                d_type = msg_str m ''type'', d_fingerprint = fp, d_terminal = [], d_worker = [], d_detail = [],
                d_delivered = False, d_updated = q_now e\<rparr>;
              s1 = s\<lparr>nq_delivery := trim_delivery (qc_max_records c)
                (AList.update (msg_str m ''command_id'') r (nq_delivery s))\<rparr>
          in (case save_delivery (q_delivery_ok e) s1 of
                (Inl x, _) \<Rightarrow> (Inl x, s)
              | (Inr u, s2) \<Rightarrow> (Inr u, s2)))"

subsection \<open>From node messages to LIOT frames\<close>

text \<open>\<open>_frame\<close>: the identity of the message; \<open>uuid.UUID\<close> raises ValueError on other text\<close>

definition queue_frame :: "pydict \<Rightarrow> message_type \<Rightarrow> pydict \<Rightarrow> nq_exc + frame" where
  "queue_frame m ty p =
     (case uuid_parse (msg_str m ''command_id'') of
        None \<Rightarrow> Inl (CommandRejected ''badly formed hexadecimal UUID string'' [])
      | Some u \<Rightarrow> (case make_frame ty 0 (int_of (fld m ''sequence'')) u (JObj p) of
            Inl e \<Rightarrow> Inl (rejected_py e) | Inr f \<Rightarrow> Inr f))"

definition accept_frame :: "queue_config \<Rightarrow> queue_env \<Rightarrow> nq_exc + frame \<Rightarrow> string \<Rightarrow> node_queue \<Rightarrow> acceptance nq_result" where
  "accept_frame c e mf stage s =
     (case mf of
        Inl x \<Rightarrow> (Inl x, s)
      | Inr f \<Rightarrow>
          (case inbox_accept (qc_limits c) (q_inbox_save e) (nq_inbox s) f of
             (Inl x, b) \<Rightarrow> (Inl (rejected_inbox x), s\<lparr>nq_inbox := b\<rparr>)
           | (Inr r, b) \<Rightarrow>
               (Inr \<lparr>ac_stage = stage, ac_duplicate = ir_duplicate r, ac_sequence = int (ir_acked_sequence r)\<rparr>,
                s\<lparr>nq_inbox := b\<rparr>)))"

definition command_frame :: "pydict \<Rightarrow> nq_exc + frame" where
  "command_frame m = queue_frame m COMMAND
     [(''action'', fld (msg_payload m) ''action''),
      (''parameters'', JObj (dict_of (get_or (msg_payload m) ''parameters'' (JObj []))))]"

definition staged_mission :: "node_queue \<Rightarrow> string \<Rightarrow> string \<Rightarrow> staged option" where
  "staged_mission s cid mid = map_of (i_staged (mem (nq_inbox s))) (cid @ '':'' @ mid)"

fun is_mission :: "string \<Rightarrow> string \<Rightarrow> job \<Rightarrow> bool" where
  "is_mission cid mid (MissionJob c m items ck) \<longleftrightarrow> c = cid \<and> m = mid"
| "is_mission cid mid (CommandJob c a p) \<longleftrightarrow> False"

definition queued_mission :: "node_queue \<Rightarrow> string \<Rightarrow> string \<Rightarrow> job option" where
  "queued_mission s cid mid = find (is_mission cid mid) (jobs (mem (nq_inbox s)))"

definition contains_command :: "node_queue \<Rightarrow> string \<Rightarrow> bool" where
  "contains_command s cid \<longleftrightarrow> cid \<in> set (map job_command_id (jobs (mem (nq_inbox s))))
     \<or> cid \<in> set (map o_command_id (i_results (mem (nq_inbox s))))"

definition node_begin :: "queue_config \<Rightarrow> queue_env \<Rightarrow> pydict \<Rightarrow> node_queue \<Rightarrow> acceptance nq_result" where
  "node_begin c e m s =
     (let p = msg_payload m in
      if 99 < int_of (fld p ''item_count'') then (Inl (CommandRejected ''mission_too_large'' []), s)
      else accept_frame c e (queue_frame m MISSION_BEGIN
        [(''mission_id'', fld p ''mission_id''), (''item_count'', fld p ''item_count''), (''vehicle'', JStr ''aircraft''),
         (''checksum'', fld p ''digest'')]) ''RECEIVED'' s)"

text \<open>\<open>{**a, **b}\<close>\<close>

definition dict_union :: "pydict \<Rightarrow> pydict \<Rightarrow> pydict" where
  "dict_union a b = foldl (\<lambda>d (k, v). AList.update k v d) a b"

definition node_item :: "queue_config \<Rightarrow> queue_env \<Rightarrow> pydict \<Rightarrow> node_queue \<Rightarrow> acceptance nq_result" where
  "node_item c e m s =
     (let p = msg_payload m in
      case staged_mission s (msg_str m ''command_id'') (msg_str p ''mission_id'') of
        None \<Rightarrow> (Inl (CommandRejected ''mission_not_found'' []), s)
      | Some mi \<Rightarrow>
          if st_item_count mi \<le> int_of (fld p ''index'') then (Inl (CommandRejected ''item_out_of_range'' []), s)
          else accept_frame c e (queue_frame m MISSION_ITEM
            (dict_union [(''mission_id'', fld p ''mission_id'')] (dict_of (fld p ''item'')))) ''RECEIVED'' s)"

text \<open>What \<open>_mission_commit\<close> reads of the staged or of the queued mission\<close>

record commit_view =
  cv_mission_id :: json
  cv_count :: int
  cv_missing :: "int list"
  cv_items :: "json list"
  cv_committed :: bool
  cv_expected :: json

definition commit_view_of :: "node_queue \<Rightarrow> string \<Rightarrow> string \<Rightarrow> commit_view option" where
  "commit_view_of s cid mid =
     (case staged_mission s cid mid of
        Some mi \<Rightarrow> Some \<lparr>cv_mission_id = st_mission_id mi, cv_count = st_item_count mi,
          cv_missing = filter (\<lambda>i. map_of (st_items mi) i = None) [0..st_item_count mi - 1],
          cv_items = staged_list mi, cv_committed = False, cv_expected = st_checksum mi\<rparr>
      | None \<Rightarrow> (case queued_mission s cid mid of
            Some (MissionJob c' m' items ck) \<Rightarrow> Some \<lparr>cv_mission_id = JStr m', cv_count = int (length items), cv_missing = [], cv_items = items,
              cv_committed = True, cv_expected = JNull\<rparr>
          | _ \<Rightarrow> None))"

definition without_mission_id :: "json \<Rightarrow> pydict" where
  "without_mission_id v = filter (\<lambda>(k, w). k \<noteq> ''mission_id'') (dict_of v)"

definition node_commit :: "queue_config \<Rightarrow> queue_env \<Rightarrow> pydict \<Rightarrow> node_queue \<Rightarrow> acceptance nq_result" where
  "node_commit c e m s =
     (let p = msg_payload m; cid = msg_str m ''command_id''; mid = msg_str p ''mission_id'' in
      case commit_view_of s cid mid of
        None \<Rightarrow> (Inl (CommandRejected ''mission_not_found'' []), s)
      | Some v \<Rightarrow>
          if int_of (fld p ''item_count'') \<noteq> cv_count v then (Inl (CommandRejected ''count_mismatch'' []), s)
          else if cv_missing v \<noteq> [] then (Inl (CommandRejected ''missing_items'' (take 32 (cv_missing v))), s)
          else (case mission_digest (map without_mission_id (cv_items v)) of
               Inl x \<Rightarrow> (Inl (rejected_node x), s)
             | Inr dg \<Rightarrow>
                 let expected = (if cv_committed v then JStr dg else cv_expected v) in
                 if fld p ''digest'' \<noteq> expected \<or> JStr dg \<noteq> expected
                   then (Inl (CommandRejected ''digest_mismatch'' []), s)
                 else (case ascii_digest (JArr (cv_items v)) of
                      Inl x \<Rightarrow> (Inl (rejected_inbox x), s)
                    | Inr checksum \<Rightarrow>
                        accept_frame c e (queue_frame m MISSION_COMMIT
                          [(''mission_id'', cv_mission_id v), (''item_count'', JInt (cv_count v)), (''checksum'', JStr checksum)])
                          ''QUEUED'' s)))"

definition accept_locked :: "queue_config \<Rightarrow> queue_env \<Rightarrow> pydict \<Rightarrow> node_queue \<Rightarrow> acceptance nq_result" where
  "accept_locked c e m s =
     (let ty = msg_str m ''type'' in
      if ty = ''command'' then accept_frame c e (command_frame m) ''QUEUED'' s
      else if ty = ''mission_begin'' then node_begin c e m s
      else if ty = ''mission_item'' then node_item c e m s
      else if ty = ''mission_commit'' then node_commit c e m s
      else (Inl (CommandRejected ''unsupported_message'' []), s))"

subsection \<open>\<open>accept\<close>\<close>

definition message_age :: "real \<Rightarrow> pydict \<Rightarrow> node_queue \<Rightarrow> real \<times> node_queue" where
  "message_age now m s =
     (let peer = real_of (fld m ''timestamp'');
          off = (case nq_offset s of Some o' \<Rightarrow> o' | None \<Rightarrow> now - peer)
      in (now - (peer + off), s\<lparr>nq_offset := Some off\<rparr>))"

definition tracked :: "pydict \<Rightarrow> bool" where
  "tracked m \<longleftrightarrow> msg_str m ''type'' \<in> {''command'', ''mission_commit''}"

text \<open>The rollback of the delivery table, whose save may raise instead\<close>

definition roll_back :: "bool \<Rightarrow> deliveries \<Rightarrow> nq_exc \<Rightarrow> node_queue \<Rightarrow> 'a nq_result" where
  "roll_back ok previous x s =
     (case save_delivery ok (s\<lparr>nq_delivery := previous\<rparr>) of (Inl y, s') \<Rightarrow> (Inl y, s') | (Inr _, s') \<Rightarrow> (Inl x, s'))"

definition queue_new :: "queue_config \<Rightarrow> queue_env \<Rightarrow> pydict \<Rightarrow> node_queue \<Rightarrow> acceptance nq_result" where
  "queue_new c e m s =
     nq_then (if tracked m then record_delivery c e m ''QUEUED'' s else (Inr (), s)) (\<lambda>_ s1.
       (case accept_locked c e m s1 of
          (Inr a, s2) \<Rightarrow> (Inr a, emit_stage (ac_stage a) m s2)
        | (Inl x, s2) \<Rightarrow> (if tracked m then roll_back (q_rollback_ok e) (nq_delivery s) x s2 else (Inl x, s2))))"

definition queue_accept :: "queue_config \<Rightarrow> queue_env \<Rightarrow> json \<Rightarrow> node_queue \<Rightarrow> acceptance nq_result" where
  "queue_accept c e message s =
     (case validate_node_message message (Some ''aircraft_2'') of
        Some x \<Rightarrow> (Inl (NodeInvalid x), s)
      | None \<Rightarrow>
          let m = dict_of message in
          if msg_str m ''source'' \<noteq> ''rover'' then (Inl (CommandRejected ''invalid_source'' []), s)
          else if q_allows e = Some False then (Inl (CommandRejected ''optical_blocked'' []), s)
          else (case message_age (q_now e) m s of (age, s1) \<Rightarrow>
            if qc_max_age c < age then (Inl (CommandRejected ''expired'' []), s1)
            else if age < - qc_max_skew c then (Inl (CommandRejected ''future_timestamp'' []), s1)
            else
              let s2 = emit_stage ''RECEIVED'' m s1 in
              if tracked m then
                nq_then (deduplicate_delivery e m s2) (\<lambda>dup s3.
                  case dup of
                    Some a \<Rightarrow> (Inr a, emit_stage (ac_stage a) m s3)
                  | None \<Rightarrow> queue_new c e m s3)
              else queue_new c e m s2))"

subsection \<open>Reports of the worker\<close>

definition terminal_of :: "string \<Rightarrow> string" where
  "terminal_of stage = (if stage \<in> {''COMPLETED'', ''VERIFIED''} then ''VERIFIED'' else ''FAILED'')"

text \<open>One result of the inbox against its delivery record: the new record, whether it is dirty and
  whether the terminal stage changed\<close>

definition update_delivery :: "outcome \<Rightarrow> delivery \<Rightarrow> delivery \<times> bool \<times> bool" where
  "update_delivery o' r =
     (let terminal = terminal_of (o_stage o'); changed = (d_terminal r \<noteq> terminal);
          r' = r\<lparr>d_terminal := terminal, d_worker := o_stage o', d_detail := o_detail o',
                d_delivered := (if changed then False else d_delivered r)\<rparr>
      in (r', r' \<noteq> r, changed))"

definition terminal_event :: "string \<Rightarrow> string \<Rightarrow> delivery \<Rightarrow> stage_event" where
  "terminal_event cid stage r = \<lparr>se_name = stage, se_command = cid, se_sequence = d_sequence r, se_mission = d_mission_id r\<rparr>"

fun absorb_results :: "outcome list \<Rightarrow> bool \<Rightarrow> node_queue \<Rightarrow> bool \<times> node_queue" where
  "absorb_results [] dirty s = (dirty, s)"
| "absorb_results (o' # os) dirty s =
     (case map_of (nq_delivery s) (o_command_id o') of
        None \<Rightarrow> absorb_results os dirty s
      | Some r \<Rightarrow>
          (case update_delivery o' r of (r', d, changed) \<Rightarrow>
             let s1 = s\<lparr>nq_delivery := AList.update (o_command_id o') r' (nq_delivery s)\<rparr>;
                 s2 = (if changed then s1\<lparr>nq_events := nq_events s1 @ [terminal_event (o_command_id o') (d_terminal r') r']\<rparr> else s1)
             in absorb_results os (dirty \<or> d) s2))"

record report =
  rp_command :: string
  rp_sequence :: int
  rp_stage :: string
  rp_detail :: string
  rp_mission :: string

definition pending_reports :: "deliveries \<Rightarrow> report list" where
  "pending_reports d = map (\<lambda>(cid, r). \<lparr>rp_command = cid, rp_sequence = d_sequence r,
       rp_stage = str_or (d_worker r) (d_terminal r), rp_detail = d_detail r, rp_mission = d_mission_id r\<rparr>)
     (filter (\<lambda>(cid, r). d_terminal r \<noteq> [] \<and> \<not> d_delivered r) d)"

definition completed :: "bool \<Rightarrow> node_queue \<Rightarrow> report list nq_result" where
  "completed ok s =
     (case absorb_results (i_results (mem (nq_inbox s))) False s of
        (dirty, s1) \<Rightarrow> nq_then (if dirty then save_delivery ok s1 else (Inr (), s1))
          (\<lambda>_ s2. (Inr (pending_reports (nq_delivery s2)), s2)))"

definition mark_delivered :: "bool \<Rightarrow> string \<Rightarrow> node_queue \<Rightarrow> bool nq_result" where
  "mark_delivered ok cid s =
     (case map_of (nq_delivery s) cid of
        None \<Rightarrow> (Inr False, s)
      | Some r \<Rightarrow> nq_then (save_delivery ok (s\<lparr>nq_delivery := AList.update cid (r\<lparr>d_delivered := True\<rparr>) (nq_delivery s)\<rparr>))
          (\<lambda>_ s1. (Inr True, s1)))"

text \<open>\<open>_reconcile_delivery\<close>: records without an outcome whose command the inbox does not know\<close>

definition reconcile_delivery :: "bool \<Rightarrow> node_queue \<Rightarrow> unit nq_result" where
  "reconcile_delivery ok s =
     (let orphaned = map fst (filter (\<lambda>(cid, r). d_terminal r = [] \<and> \<not> contains_command s cid) (nq_delivery s)) in
      if orphaned = [] then (Inr (), s)
      else save_delivery ok (s\<lparr>nq_delivery := fold AList.delete orphaned (nq_delivery s)\<rparr>))"

text \<open>\<open>ThreadSafeInbox.active\<close>: the first look at a job emits EXECUTING\<close>

definition queue_active :: "node_queue \<Rightarrow> job option \<times> node_queue" where
  "queue_active s =
     (case i_active (mem (nq_inbox s)) of
        None \<Rightarrow> (None, s)
      | Some j \<Rightarrow>
          let cid = job_command_id j in
          (Some j, if cid \<in> set (nq_executing s) then s
             else s\<lparr>nq_executing := nq_executing s @ [cid],
               nq_events := nq_events s @ [\<lparr>se_name = ''EXECUTING'', se_command = cid,
                 se_sequence = (case map_of (nq_delivery s) cid of Some r \<Rightarrow> d_sequence r | None \<Rightarrow> 0),
                 se_mission = (case j of MissionJob c m items ck \<Rightarrow> m | _ \<Rightarrow> [])\<rparr>]\<rparr>))"

end
