(* ===== verification/QueueProps.thy ===== *)
theory QueueProps
  imports CommandQueue
begin

text \<open>
  The slave's command queue: a refused message leaves no trace, a retransmitted transaction is
  not queued twice, and a committed mission is the one whose digest was announced.
\<close>

subsection \<open>Steps\<close>

lemma nq_then_cases:
  assumes "nq_then m f = (r, s')"
  obtains (err) e where "m = (Inl e, s')" "r = Inl e"
  | (ok) a s1 where "m = (Inr a, s1)" "f a s1 = (r, s')"
  using assms by (cases m; cases "fst m") (auto simp: nq_then_def)

lemma save_delivery_fields:
  "save_delivery ok s = (r, s') \<Longrightarrow> nq_inbox s' = nq_inbox s \<and> nq_delivery s' = nq_delivery s"
  by (auto simp: save_delivery_def split: if_splits)

lemma emit_stage_fields [simp]:
  "nq_inbox (emit_stage st m s) = nq_inbox s" "nq_delivery (emit_stage st m s) = nq_delivery s"
  "nq_offset (emit_stage st m s) = nq_offset s"
  by (simp_all add: emit_stage_def)

lemma record_delivery_inbox: "record_delivery c e m st s = (r, s') \<Longrightarrow> nq_inbox s' = nq_inbox s"
  by (auto simp: record_delivery_def Let_def split: sum.splits prod.splits dest!: save_delivery_fields)

lemma record_delivery_err: "record_delivery c e m st s = (Inl x, s') \<Longrightarrow> s' = s"
  by (auto simp: record_delivery_def Let_def split: sum.splits prod.splits)

lemma deduplicate_inbox: "deduplicate_delivery e m s = (r, s') \<Longrightarrow> nq_inbox s' = nq_inbox s"
  by (auto simp: deduplicate_delivery_def Let_def split: option.splits sum.splits if_splits
      elim!: nq_then_cases dest!: save_delivery_fields)

lemma deduplicate_none: "deduplicate_delivery e m s = (Inr None, s') \<Longrightarrow> s' = s \<and> map_of (nq_delivery s) (msg_str m ''command_id'') = None"
  by (auto simp: deduplicate_delivery_def Let_def split: option.splits sum.splits if_splits elim!: nq_then_cases)

lemma deduplicate_dup: "deduplicate_delivery e m s = (Inr (Some a), s') \<Longrightarrow> ac_duplicate a"
  by (auto simp: deduplicate_delivery_def Let_def split: option.splits sum.splits if_splits elim!: nq_then_cases)

lemma deduplicate_err:
  "deduplicate_delivery e m s = (Inl x, s') \<Longrightarrow> x \<noteq> NqSaveFailed \<Longrightarrow> nq_delivery s' = nq_delivery s"
  by (auto simp: deduplicate_delivery_def save_delivery_def Let_def split: option.splits sum.splits if_splits elim!: nq_then_cases)

lemma accept_frame_fields:
  assumes "accept_frame c e mf st s = (r, s')"
  shows "nq_delivery s' = nq_delivery s" and "r = Inl x \<Longrightarrow> mem (nq_inbox s') = mem (nq_inbox s)"
  using assms accept_unchanged(1) [of "qc_limits c" "q_inbox_save e" "nq_inbox s"]
  by (auto simp: accept_frame_def split: sum.splits prod.splits)

lemma node_ops_fields:
  "node_begin c e m s = (r, s') \<Longrightarrow> nq_delivery s' = nq_delivery s \<and> (\<forall>x. r = Inl x \<longrightarrow> mem (nq_inbox s') = mem (nq_inbox s))"
  "node_item c e m s = (r, s') \<Longrightarrow> nq_delivery s' = nq_delivery s \<and> (\<forall>x. r = Inl x \<longrightarrow> mem (nq_inbox s') = mem (nq_inbox s))"
  "node_commit c e m s = (r, s') \<Longrightarrow> nq_delivery s' = nq_delivery s \<and> (\<forall>x. r = Inl x \<longrightarrow> mem (nq_inbox s') = mem (nq_inbox s))"
  by (auto simp: node_begin_def node_item_def node_commit_def Let_def split: if_splits option.splits sum.splits
      dest: accept_frame_fields)

lemma accept_locked_fields:
  "accept_locked c e m s = (r, s') \<Longrightarrow> nq_delivery s' = nq_delivery s \<and> (\<forall>x. r = Inl x \<longrightarrow> mem (nq_inbox s') = mem (nq_inbox s))"
  unfolding accept_locked_def Let_def
  by (auto split: if_splits dest: accept_frame_fields node_ops_fields)

lemma roll_back_fields:
  assumes "roll_back ok prev x s = (r, s')"
  shows "nq_inbox s' = nq_inbox s \<and> nq_delivery s' = prev \<and> (\<exists>y. r = Inl y)"
  using assms by (auto simp: roll_back_def save_delivery_def split: if_splits)

lemma queue_new_err:
  assumes "queue_new c e m s = (Inl x, s')"
  shows "mem (nq_inbox s') = mem (nq_inbox s) \<and> nq_delivery s' = nq_delivery s"
proof -
  from assms [unfolded queue_new_def] show ?thesis
  proof (cases rule: nq_then_cases)
    case (err y)
    then show ?thesis by (auto split: if_splits dest: record_delivery_err)
  next
    case (ok u s1)
    obtain q s2 where q: "accept_locked c e m s1 = (q, s2)" by (cases "accept_locked c e m s1")
    have i1: "nq_inbox s1 = nq_inbox s" and d1: "\<not> tracked m \<Longrightarrow> s1 = s"
      using ok(1) by (auto split: if_splits dest: record_delivery_inbox)
    obtain y where y: "q = Inl y" using ok(2) q by (cases q) auto
    have f: "nq_delivery s2 = nq_delivery s1" "mem (nq_inbox s2) = mem (nq_inbox s1)"
      using accept_locked_fields [OF q] y by auto
    show ?thesis
    proof (cases "tracked m")
      case True
      with ok(2) q y have "roll_back (q_rollback_ok e) (nq_delivery s) y s2 = (Inl x :: nq_exc + acceptance, s')" by simp
      from roll_back_fields [OF this] f i1 show ?thesis by simp
    next
      case False
      with ok(2) q y d1 f show ?thesis by simp
    qed
  qed
qed

lemma message_age_fields:
  "message_age now m s = (age, s') \<Longrightarrow> nq_inbox s' = nq_inbox s \<and> nq_delivery s' = nq_delivery s"
  by (auto simp: message_age_def Let_def)

text \<open>The ways a call of \<open>accept\<close> can go\<close>

lemma queue_accept_cases:
  assumes "queue_accept c e msg s = (r, s')"
  obtains (early) x where "r = Inl x" "nq_inbox s' = nq_inbox s" "nq_delivery s' = nq_delivery s"
  | (dup) d s2 where "validate_node_message msg (Some ''aircraft_2'') = None" "tracked (dict_of msg)"
      "nq_inbox s2 = nq_inbox s" "nq_delivery s2 = nq_delivery s"
      "deduplicate_delivery e (dict_of msg) s2 = (d, s')" "r = Inl (projl d)" "\<exists>x. d = Inl x"
  | (again) a s2 s3 where "validate_node_message msg (Some ''aircraft_2'') = None" "tracked (dict_of msg)"
      "nq_inbox s2 = nq_inbox s" "nq_delivery s2 = nq_delivery s"
      "deduplicate_delivery e (dict_of msg) s2 = (Inr (Some a), s3)" "r = Inr a" "s' = emit_stage (ac_stage a) (dict_of msg) s3"
  | (fresh) s2 where "validate_node_message msg (Some ''aircraft_2'') = None"
      "nq_inbox s2 = nq_inbox s" "nq_delivery s2 = nq_delivery s"
      "tracked (dict_of msg) \<Longrightarrow> map_of (nq_delivery s) (msg_str (dict_of msg) ''command_id'') = None"
      "queue_new c e (dict_of msg) s2 = (r, s')"
proof -
  let ?m = "dict_of msg"
  obtain age s1 where age: "message_age (q_now e) ?m s = (age, s1)" by (cases "message_age (q_now e) ?m s")
  note f1 = message_age_fields [OF age]
  let ?s2 = "emit_stage ''RECEIVED'' ?m s1"
  have f2: "nq_inbox ?s2 = nq_inbox s" "nq_delivery ?s2 = nq_delivery s" using f1 by simp_all
  note a = assms [unfolded queue_accept_def Let_def age prod.case]
  show thesis
  proof (cases "\<exists>x. r = Inl x \<and> nq_inbox s' = nq_inbox s \<and> nq_delivery s' = nq_delivery s")
    case True
    with early show thesis by blast
  next
    case False
    have v: "validate_node_message msg (Some ''aircraft_2'') = None"
      using a False by (auto split: option.splits)
    show thesis
    proof (cases "tracked ?m")
      case t: True
      have n: "nq_then (deduplicate_delivery e ?m ?s2) (\<lambda>dup s3.
          case dup of Some a \<Rightarrow> (Inr a, emit_stage (ac_stage a) ?m s3) | None \<Rightarrow> queue_new c e ?m s3) = (r, s')"
        using a v t False f1 by (auto split: if_splits)
      then show thesis
      proof (cases rule: nq_then_cases)
        case (err x)
        with dup v t f2 show thesis by (metis sum.sel(1))
      next
        case (ok o' s3)
        show thesis
        proof (cases o')
          case None
          note d = deduplicate_none [OF ok(1) [unfolded None]]
          with fresh [OF v f2] ok(2) None f2 show thesis by auto
        next
          case (Some a')
          with again [OF v t f2] ok show thesis by auto
        qed
      qed
    next
      case nt: False
      have "queue_new c e ?m ?s2 = (r, s')" using a v nt False f1 by (auto split: if_splits)
      with fresh [OF v f2] nt show thesis by blast
    qed
  qed
qed

subsection \<open>The record of a new delivery survives the trimming\<close>

lemma map_of_fold_delete_other: "k \<notin> set ks \<Longrightarrow> map_of (fold AList.delete ks d) k = map_of d k"
  by (induction ks arbitrary: d) (auto simp: AList.delete_conv)

lemma sort_key_maximal_last:
  assumes "\<forall>x \<in> set xs. f x \<le> f y"
  shows "sort_key f (xs @ [y]) = sort_key f xs @ [y]"
proof (rule properties_for_sort_key)
  show "sorted (map f (sort_key f xs @ [y]))" using assms by (simp add: sorted_append)
  show "filter (\<lambda>x. f k = f x) (sort_key f xs @ [y]) = filter (\<lambda>x. f k = f x) (xs @ [y])" for k
    using sort_key_stable [of f "f k" xs] by (simp add: eq_commute)
qed simp

lemma trim_keeps_newest:
  assumes "map_of d k = None" "1 \<le> n" "\<forall>p \<in> set d. d_updated (snd p) \<le> d_updated r"
  shows "map_of (trim_delivery n (d @ [(k, r)])) k = Some r"
proof (cases "length (d @ [(k, r)]) \<le> n")
  case True
  with assms(1) show ?thesis by (simp add: trim_delivery_def map_add_def)
next
  case False
  let ?ks = "take (length (d @ [(k, r)]) - n) (map fst (sort_key (\<lambda>p. d_updated (snd p)) (d @ [(k, r)])))"
  have "length (d @ [(k, r)]) - n \<le> length d" using assms(2) by simp
  moreover have "sort_key (\<lambda>p. d_updated (snd p)) (d @ [(k, r)]) = sort_key (\<lambda>p. d_updated (snd p)) d @ [(k, r)]"
    using assms(3) by (intro sort_key_maximal_last) simp
  ultimately have "set ?ks \<subseteq> fst ` set d"
    using set_take_subset [of "length (d @ [(k, r)]) - n" "map fst (sort_key (\<lambda>p. d_updated (snd p)) d)"] by simp
  then have "k \<notin> set ?ks" using assms(1) by (auto simp: map_of_eq_None_iff)
  with False assms(1) show ?thesis
    by (simp add: trim_delivery_def map_of_fold_delete_other map_add_def del: take_append)
qed

lemma record_delivery_entry:
  assumes "record_delivery c e m st s = (Inr u, s')" "map_of (nq_delivery s) (msg_str m ''command_id'') = None"
    and "1 \<le> qc_max_records c" "\<forall>p \<in> set (nq_delivery s). d_updated (snd p) \<le> q_now e"
  obtains r fp where "map_of (nq_delivery s') (msg_str m ''command_id'') = Some r"
    "delivery_fingerprint m = Inr fp" "d_fingerprint r = fp"
proof -
  obtain fp where fp: "delivery_fingerprint m = Inr fp" using assms(1) by (auto simp: record_delivery_def split: sum.splits)
  let ?r = "\<lparr>d_sequence = int_of (fld m ''sequence''), d_stage = st,
                d_mission_id = str_of (get_or (msg_payload m) ''mission_id'' (JStr [])),
                d_type = msg_str m ''type'', d_fingerprint = fp, d_terminal = [], d_worker = [], d_detail = [],
                d_delivered = False, d_updated = q_now e\<rparr>"
  have "nq_delivery s' = trim_delivery (qc_max_records c) (nq_delivery s @ [(msg_str m ''command_id'', ?r)])"
    using assms(1) fp update_absent [OF assms(2)]
    by (auto simp: record_delivery_def save_delivery_def Let_def split: if_splits prod.splits sum.splits)
  with trim_keeps_newest [OF assms(2,3), of ?r] assms(4) fp that show thesis by simp
qed

lemma queue_new_entry:
  assumes "queue_new c e m s = (Inr a, s')" "tracked m" "map_of (nq_delivery s) (msg_str m ''command_id'') = None"
    and "1 \<le> qc_max_records c" "\<forall>p \<in> set (nq_delivery s). d_updated (snd p) \<le> q_now e"
  obtains r fp where "map_of (nq_delivery s') (msg_str m ''command_id'') = Some r"
    "delivery_fingerprint m = Inr fp" "d_fingerprint r = fp"
  using assms(1) [unfolded queue_new_def]
proof (cases rule: nq_then_cases)
  case (ok u s1)
  then have "record_delivery c e m ''QUEUED'' s = (Inr u, s1)" using assms(2) by simp
  then obtain r fp where r: "map_of (nq_delivery s1) (msg_str m ''command_id'') = Some r"
    "delivery_fingerprint m = Inr fp" "d_fingerprint r = fp"
    using assms(3,4,5) by (rule record_delivery_entry)
  obtain q s2 where q: "accept_locked c e m s1 = (q, s2)" by (cases "accept_locked c e m s1")
  with ok(2) have "\<exists>x. s' = emit_stage x m s2 \<or> (\<exists>y. roll_back (q_rollback_ok e) (nq_delivery s) y s2 = (Inr a :: nq_exc + acceptance, s'))"
    using assms(2) by (cases q) auto
  then have "nq_delivery s' = nq_delivery s1"
    using accept_locked_fields [OF q] roll_back_fields by fastforce
  with r that show thesis by simp
qed simp

subsection \<open>How long a record stays\<close>

text \<open>
  A record can only be trimmed while every other record is newer, or as new and behind it. \<open>K\<close> are the commands
  that were recorded or repeated since the record of \<open>cid\<close> was made, \<open>t\<close> is the latest time of the clock.
\<close>

definition recent :: "nat \<Rightarrow> string \<Rightarrow> string set \<Rightarrow> real \<Rightarrow> deliveries \<Rightarrow> bool" where
  "recent n cid K t d \<longleftrightarrow> distinct (map fst d) \<and> length d \<le> n \<and> (\<forall>p \<in> set d. d_updated (snd p) \<le> t)
     \<and> (\<exists>xs r ys. d = xs @ (cid, r) # ys
          \<and> (\<forall>p \<in> set xs. fst p \<notin> K \<longrightarrow> d_updated (snd p) \<le> d_updated r)
          \<and> (\<forall>p \<in> set ys. fst p \<notin> K \<longrightarrow> d_updated (snd p) < d_updated r))"

lemma recent_weaken:
  assumes "recent n cid K t d" "K \<subseteq> K'" "t \<le> t'"
  shows "recent n cid K' t' d"
proof -
  obtain xs r ys where "d = xs @ (cid, r) # ys" "\<forall>p \<in> set xs. fst p \<notin> K \<longrightarrow> d_updated (snd p) \<le> d_updated r"
      "\<forall>p \<in> set ys. fst p \<notin> K \<longrightarrow> d_updated (snd p) < d_updated r"
    and g: "distinct (map fst d)" "length d \<le> n" "\<forall>p \<in> set d. d_updated (snd p) \<le> t"
    using assms(1) unfolding recent_def by blast
  with assms(2) have "\<exists>xs r ys. d = xs @ (cid, r) # ys \<and> (\<forall>p \<in> set xs. fst p \<notin> K' \<longrightarrow> d_updated (snd p) \<le> d_updated r)
      \<and> (\<forall>p \<in> set ys. fst p \<notin> K' \<longrightarrow> d_updated (snd p) < d_updated r)" by blast
  moreover have "\<forall>p \<in> set d. d_updated (snd p) \<le> t'" using g(3) assms(3) by force
  ultimately show ?thesis using g(1,2) unfolding recent_def by blast
qed

lemma recent_known: "recent n cid K t d \<Longrightarrow> map_of d cid \<noteq> None"
  by (auto simp: recent_def map_of_eq_None_iff)

lemma update_present:
  "distinct (map fst d) \<Longrightarrow> k \<in> fst ` set d \<Longrightarrow> AList.update k v d = map (\<lambda>p. if fst p = k then (k, v) else p) d"
proof (induction d)
  case (Cons p d)
  show ?case
  proof (cases "fst p = k")
    case True
    with Cons.prems(1) have "\<forall>q \<in> set d. fst q \<noteq> k" by (auto intro: rev_image_eqI)
    then have "map (\<lambda>p. if fst p = k then (k, v) else p) d = d" by (intro map_idI) simp
    with True show ?thesis by (cases p) simp
  next
    case False
    with Cons show ?thesis by (cases p) auto
  qed
qed simp

lemma recent_update:
  assumes "recent n cid K t d" "map_of d k = Some r0" "t \<le> t'"
    and "d_updated r' = d_updated r0 \<or> k \<in> insert cid K \<and> d_updated r' = t'"
  shows "recent n cid K t' (AList.update k r' d)"
proof -
  obtain xs r ys where d: "d = xs @ (cid, r) # ys" "\<forall>p \<in> set xs. fst p \<notin> K \<longrightarrow> d_updated (snd p) \<le> d_updated r"
      "\<forall>p \<in> set ys. fst p \<notin> K \<longrightarrow> d_updated (snd p) < d_updated r"
    and g: "distinct (map fst d)" "length d \<le> n" "\<forall>p \<in> set d. d_updated (snd p) \<le> t"
    using assms(1) unfolding recent_def by blast
  let ?f = "\<lambda>p. if fst p = k then (k, r') else p"
  have k: "k \<in> fst ` set d" "(k, r0) \<in> set d" using assms(2) by (auto dest: map_of_SomeD intro: rev_image_eqI)
  have u: "AList.update k r' d = map ?f xs @ ?f (cid, r) # map ?f ys" using update_present [OF g(1) k(1)] d(1) by simp
  have old: "p = (k, r0)" if "p \<in> set d" "fst p = k" for p
  proof -
    have "p = (k, snd p)" using that(2) by (cases p) simp
    with that(1) have "(k, snd p) \<in> set d" by metis
    then have "snd p = r0" using eq_key_imp_eq_value [OF g(1) _ k(2)] by blast
    with that(2) show ?thesis by (cases p) simp
  qed
  have "d_updated r' \<le> t'" using assms(3,4) g(3) k(2) by fastforce
  then have t: "\<forall>p \<in> set (AList.update k r' d). d_updated (snd p) \<le> t'"
    unfolding update_present [OF g(1) k(1)] using g(3) assms(3) by (auto intro: order.trans)
  have dist: "distinct (map fst (AList.update k r' d))" using g(1) by (rule distinct_update)
  have len: "length (AList.update k r' d) \<le> n" using u d(1) g(2) by simp
  have ex: "\<exists>s. ?f (cid, r) = (cid, s) \<and> (\<forall>p \<in> set (map ?f xs). fst p \<notin> K \<longrightarrow> d_updated (snd p) \<le> d_updated s)
      \<and> (\<forall>p \<in> set (map ?f ys). fst p \<notin> K \<longrightarrow> d_updated (snd p) < d_updated s)"
  proof (cases "k = cid")
    case True
    then have "r0 = r" using old [of "(cid, r)"] d(1) by simp
    have "cid \<notin> fst ` set xs" "cid \<notin> fst ` set ys" using g(1) d(1) by auto
    then have "\<forall>p \<in> set xs \<union> set ys. fst p \<noteq> k" using True by (auto intro: rev_image_eqI)
    then have "map ?f xs = xs" "map ?f ys = ys" by (simp_all add: map_idI)
    moreover have "d_updated r \<le> d_updated r'" using assms(3,4) \<open>r0 = r\<close> g(3) d(1) by auto
    ultimately show ?thesis using True d(2,3) by (intro exI [of _ r']) force
  next
    case False
    have "d_updated (snd (?f p)) = d_updated (snd p)" if "p \<in> set d" "fst p \<notin> K" for p
    proof (cases "fst p = k")
      case True
      then have "snd p = r0" "d_updated r' = d_updated r0" using old [OF that(1)] that(2) assms(4) False by (auto dest: arg_cong [of _ _ snd])
      with True show ?thesis by simp
    qed simp
    note upd = this
    have part: "(\<forall>q \<in> set (map ?f zs). fst q \<notin> K \<longrightarrow> P (d_updated (snd q)))"
      if zs: "set zs \<subseteq> set d" "\<forall>q \<in> set zs. fst q \<notin> K \<longrightarrow> P (d_updated (snd q))" for zs P
    proof (intro ballI impI)
      fix q assume "q \<in> set (map ?f zs)" "fst q \<notin> K"
      then obtain p where p: "p \<in> set zs" "q = ?f p" unfolding set_map by blast
      then have "fst p \<notin> K" using \<open>fst q \<notin> K\<close> by (auto split: if_splits)
      with p upd [of p] zs show "P (d_updated (snd q))" by auto
    qed
    have sub: "set xs \<subseteq> set d" "set ys \<subseteq> set d" using d(1) by auto
    have "?f (cid, r) = (cid, r)" using False by simp
    then show ?thesis
      using part [OF sub(1) d(2)] part [OF sub(2) d(3)] by (intro exI [of _ r] conjI)
  qed
  then obtain s where "?f (cid, r) = (cid, s)" "\<forall>p \<in> set (map ?f xs). fst p \<notin> K \<longrightarrow> d_updated (snd p) \<le> d_updated s"
      "\<forall>p \<in> set (map ?f ys). fst p \<notin> K \<longrightarrow> d_updated (snd p) < d_updated s" by blast
  with u have "AList.update k r' d = map ?f xs @ (cid, s) # map ?f ys"
      "\<forall>p \<in> set (map ?f xs). fst p \<notin> K \<longrightarrow> d_updated (snd p) \<le> d_updated s"
      "\<forall>p \<in> set (map ?f ys). fst p \<notin> K \<longrightarrow> d_updated (snd p) < d_updated s"
    by simp_all
  then have "\<exists>xs r ys. AList.update k r' d = xs @ (cid, r) # ys \<and> (\<forall>p \<in> set xs. fst p \<notin> K \<longrightarrow> d_updated (snd p) \<le> d_updated r)
      \<and> (\<forall>p \<in> set ys. fst p \<notin> K \<longrightarrow> d_updated (snd p) < d_updated r)" by blast
  with dist len t show ?thesis unfolding recent_def by blast
qed

lemma fold_delete_filter: "fold AList.delete ks d = filter (\<lambda>p. fst p \<notin> set ks) d"
  by (induction ks arbitrary: d) (auto simp: AList.delete_eq filter_filter intro!: filter_cong)

lemma delete_filter: "AList.delete k d = filter (\<lambda>p. fst p \<noteq> k) d"
  using fold_delete_filter [of "[k]" d] by simp

lemma trim_filter: "\<exists>P. trim_delivery n d = filter P d"
proof (cases "length d \<le> n")
  case True
  then show ?thesis by (intro exI [of _ "\<lambda>x. True"]) (simp add: trim_delivery_def)
next
  case False
  then show ?thesis unfolding trim_delivery_def fold_delete_filter by (simp only: if_False) blast
qed

text \<open>The head of a stable sort: what stands before it is greater, what stands behind it is not less\<close>

lemma sort_key_head:
  assumes "hd (sort_key f (xs @ x # ys)) = x" "distinct (xs @ x # ys)"
  shows "(\<forall>y \<in> set xs. f x < f y) \<and> (\<forall>y \<in> set ys. f x \<le> f y)"
proof -
  let ?l = "xs @ x # ys"
  obtain zs where z: "sort_key f ?l = x # zs" using assms(1) by (cases "sort_key f ?l") (auto dest: arg_cong [of _ _ length])
  have "sorted (map f (x # zs))" using z sorted_sort_key [of f ?l] by simp
  moreover have "set ?l = set (x # zs)" using z by (metis set_sort)
  ultimately have least: "\<forall>y \<in> set ?l. f x \<le> f y" by auto
  have "filter (\<lambda>y. f y = f x) ?l = filter (\<lambda>y. f y = f x) (x # zs)" using sort_key_stable [of f "f x" ?l] z by simp
  then have "filter (\<lambda>y. f y = f x) xs @ x # filter (\<lambda>y. f y = f x) ys = x # filter (\<lambda>y. f y = f x) zs" by simp
  then have "filter (\<lambda>y. f y = f x) xs = []" using assms(2) by (cases "filter (\<lambda>y. f y = f x) xs") (auto dest: filter_eq_ConsD)
  then have "\<forall>y \<in> set xs. f y \<noteq> f x" by (simp add: filter_empty_conv)
  with least show ?thesis by (auto simp: less_le)
qed

lemma trim_length:
  assumes "distinct (map fst d)"
  shows "length (trim_delivery n d) \<le> n" "distinct (map fst (trim_delivery n d))"
proof -
  let ?f = "\<lambda>p. d_updated (snd p)"
  show "length (trim_delivery n d) \<le> n"
  proof (cases "length d \<le> n")
    case False
    let ?m = "length d - n"
    let ?ks = "take ?m (map fst (sort_key ?f d))"
    have "mset (map fst (sort_key ?f d)) = mset (map fst d)" by simp
    then have dk: "distinct (map fst (sort_key ?f d))" "set (map fst (sort_key ?f d)) = set (map fst d)"
      using assms by (metis mset_eq_imp_distinct_iff, metis mset_eq_setD)
    have ks: "distinct ?ks" "length ?ks = ?m" "set ?ks \<subseteq> set (map fst d)"
      using dk(1) set_take_subset [of ?m "map fst (sort_key ?f d)"] unfolding dk(2) by simp_all
    have c: "card (set (map fst d)) = length d" using distinct_card [OF assms] by simp
    have "length (trim_delivery n d) = length (filter (\<lambda>k. k \<notin> set ?ks) (map fst d))"
      using False by (simp add: trim_delivery_def fold_delete_filter filter_map comp_def)
    also have "\<dots> = card (set (map fst d) - set ?ks)"
      using assms distinct_card [of "filter (\<lambda>k. k \<notin> set ?ks) (map fst d)"] by (simp add: set_diff_eq Collect_conj_eq [symmetric])
    also have "\<dots> = length d - ?m"
      unfolding card_Diff_subset [OF finite_set ks(3)] c distinct_card [OF ks(1)] ks(2) ..
    finally show ?thesis using False by simp
  qed (simp add: trim_delivery_def)
  show "distinct (map fst (trim_delivery n d))"
    using assms by (simp add: trim_delivery_def fold_delete_filter distinct_map_filter)
qed

lemma recent_trim:
  assumes "recent (Suc n) cid K t d" "finite K" "card (K - {cid}) < n"
  shows "recent n cid K t (trim_delivery n d)"
proof (cases "length d \<le> n")
  case True
  with assms(1) show ?thesis by (simp add: trim_delivery_def recent_def)
next
  case False
  obtain xs r ys where d: "d = xs @ (cid, r) # ys" "\<forall>p \<in> set xs. fst p \<notin> K \<longrightarrow> d_updated (snd p) \<le> d_updated r"
      "\<forall>p \<in> set ys. fst p \<notin> K \<longrightarrow> d_updated (snd p) < d_updated r"
    and g: "distinct (map fst d)" "length d \<le> Suc n" "\<forall>p \<in> set d. d_updated (snd p) \<le> t"
    using assms(1) unfolding recent_def by blast
  have l: "length d - n = 1" using False g(2) by simp
  let ?f = "\<lambda>p. d_updated (snd p)"
  obtain p zs where z: "sort_key ?f d = p # zs" using d(1) by (cases "sort_key ?f d") (auto dest: arg_cong [of _ _ length])
  then have trim: "trim_delivery n d = filter (\<lambda>q. fst q \<noteq> fst p) d" using False l by (simp add: trim_delivery_def delete_filter)
  have "fst p \<noteq> cid"
  proof
    assume "fst p = cid"
    moreover have "p \<in> set d" using z by (metis list.set_intros(1) set_sort)
    ultimately have "p = (cid, r)" using eq_key_imp_eq_value [OF g(1), of cid "snd p" r] d(1) by (cases p) auto
    moreover have "distinct d" using g(1) by (simp add: distinct_map)
    ultimately have "(\<forall>y \<in> set xs. d_updated r < ?f y) \<and> (\<forall>y \<in> set ys. d_updated r \<le> ?f y)"
      using sort_key_head [of ?f xs "(cid, r)" ys] z d(1) by simp
    with d(2,3) have "fst ` set (xs @ ys) \<subseteq> K" by fastforce
    moreover have "cid \<notin> fst ` set (xs @ ys)" using g(1) d(1) by auto
    ultimately have "card (set (map fst (xs @ ys))) \<le> card (K - {cid})"
      using assms(2) by (intro card_mono) auto
    moreover have "distinct (map fst (xs @ ys))" using g(1) d(1) by auto
    then have "card (set (map fst (xs @ ys))) = length (xs @ ys)" by (simp add: distinct_card del: set_map map_append)
    ultimately show False using assms(3) False d(1) by simp
  qed
  then have "trim_delivery n d = filter (\<lambda>q. fst q \<noteq> fst p) xs @ (cid, r) # filter (\<lambda>q. fst q \<noteq> fst p) ys"
    unfolding trim unfolding d(1) by simp
  moreover have "\<forall>q \<in> set (trim_delivery n d). d_updated (snd q) \<le> t" using g(3) by (simp add: trim)
  ultimately show ?thesis unfolding recent_def using trim_length [OF g(1), of n] d(2,3)
    by (intro conjI exI [of _ "filter (\<lambda>q. fst q \<noteq> fst p) xs"] exI [of _ r] exI [of _ "filter (\<lambda>q. fst q \<noteq> fst p) ys"]) simp_all
qed

text \<open>A new record, of this command or of another one\<close>

lemma recent_record:
  assumes "recent n cid K t d" "t \<le> t'" "d_updated r' = t'" "finite K" "card (insert k K - {cid}) < n"
  shows "recent n cid (insert k K) t' (trim_delivery n (AList.update k r' d))"
proof (cases "map_of d k")
  case (Some r0)
  have "recent n cid (insert k K) t d" using assms(1) by (rule recent_weaken) auto
  from recent_update [OF this Some assms(2)] assms(3) have u: "recent n cid (insert k K) t' (AList.update k r' d)" by simp
  then have "length (AList.update k r' d) \<le> n" by (simp add: recent_def)
  with u show ?thesis by (simp add: trim_delivery_def)
next
  case None
  obtain xs r ys where d: "d = xs @ (cid, r) # ys" "\<forall>p \<in> set xs. fst p \<notin> K \<longrightarrow> d_updated (snd p) \<le> d_updated r"
      "\<forall>p \<in> set ys. fst p \<notin> K \<longrightarrow> d_updated (snd p) < d_updated r"
    and g: "distinct (map fst d)" "length d \<le> n" "\<forall>p \<in> set d. d_updated (snd p) \<le> t"
    using assms(1) unfolding recent_def by blast
  have u: "AList.update k r' d = xs @ (cid, r) # (ys @ [(k, r')])" using update_absent [OF None] d(1) by simp
  have "distinct (map fst (AList.update k r' d))" using g(1) by (rule distinct_update)
  moreover have "length (AList.update k r' d) \<le> Suc n" using u d(1) g(2) by simp
  moreover have "\<forall>p \<in> set (AList.update k r' d). d_updated (snd p) \<le> t'" using u d(1) g(3) assms(2,3) by force
  ultimately have "recent (Suc n) cid (insert k K) t' (AList.update k r' d)"
    unfolding recent_def using u d(2,3) by (intro conjI exI [of _ xs] exI [of _ r] exI [of _ "ys @ [(k, r')]"]) auto
  then show ?thesis using assms(4,5) by (intro recent_trim) auto
qed

lemma recent_start:
  assumes "distinct (map fst d)" "map_of d cid = None" "1 \<le> n" "\<forall>p \<in> set d. d_updated (snd p) \<le> d_updated r" "finite K"
  shows "recent n cid K (d_updated r) (trim_delivery n (d @ [(cid, r)]))"
proof -
  let ?d = "d @ [(cid, r)]"
  have dist: "distinct (map fst ?d)" using assms(1,2) by (auto simp: map_of_eq_None_iff)
  obtain P where P: "trim_delivery n ?d = filter P ?d" using trim_filter by blast
  have "map_of (trim_delivery n ?d) cid = Some r" using trim_keeps_newest [OF assms(2,3,4)] .
  then have "(cid, r) \<in> set (filter P ?d)" unfolding P by (rule map_of_SomeD)
  then have "P (cid, r)" by (auto simp only: set_filter mem_Collect_eq)
  then have "trim_delivery n ?d = filter P d @ (cid, r) # []" unfolding P by simp
  then show ?thesis unfolding recent_def using trim_length [OF dist, of n] assms(4)
    by (intro conjI exI [of _ "filter P d"] exI [of _ r] exI [of _ "[]"]) auto
qed

subsection \<open>The calls of a queue\<close>

text \<open>What the agent does with the queue of a running process: it accepts messages, asks for the reports, marks one as
  delivered, and the worker looks at the active job and finishes it\<close>

datatype queue_call =
    QAccept queue_env json
  | QReports bool
  | QDelivered bool string
  | QActive
  | QFinish save_result string string pydict

fun queue_call_step :: "queue_config \<Rightarrow> node_queue \<Rightarrow> queue_call \<Rightarrow> node_queue" where
  "queue_call_step c s (QAccept e m) = snd (queue_accept c e m s)"
| "queue_call_step c s (QReports ok) = snd (completed ok s)"
| "queue_call_step c s (QDelivered ok cid) = snd (mark_delivered ok cid s)"
| "queue_call_step c s QActive = snd (queue_active s)"
| "queue_call_step c s (QFinish sv stage detail extra) =
     s\<lparr>nq_inbox := snd (finish_active (qc_limits c) sv (nq_inbox s) stage detail extra)\<rparr>"

text \<open>The clock readings of the calls, and the commands whose record a call can make or renew\<close>

fun call_times :: "queue_call list \<Rightarrow> real list" where
  "call_times [] = []"
| "call_times (QAccept e m # qs) = q_now e # call_times qs"
| "call_times (_ # qs) = call_times qs"

fun call_names :: "queue_call list \<Rightarrow> string set" where
  "call_names [] = {}"
| "call_names (QAccept e m # qs) =
     (if tracked (dict_of m) then insert (msg_str (dict_of m) ''command_id'') (call_names qs) else call_names qs)"
| "call_names (_ # qs) = call_names qs"

lemma call_names_finite [simp]: "finite (call_names qs)"
  by (induction qs rule: call_names.induct) auto

lemma deduplicate_delivery_change:
  assumes "deduplicate_delivery e m s = (q, s')"
  shows "nq_delivery s' = nq_delivery s \<or> (\<exists>r0 r. map_of (nq_delivery s) (msg_str m ''command_id'') = Some r0
    \<and> (d_updated r = d_updated r0 \<or> d_updated r = q_now e)
    \<and> nq_delivery s' = AList.update (msg_str m ''command_id'') r (nq_delivery s))"
proof (cases "map_of (nq_delivery s) (msg_str m ''command_id'')")
  case (Some r0)
  show ?thesis
  proof (cases "delivery_fingerprint m")
    case (Inr fp)
    define r1 where "r1 = r0\<lparr>d_sequence := int_of (fld m ''sequence''),
      d_delivered := (if d_terminal r0 \<noteq> [] then False else d_delivered r0)\<rparr>"
    define r where "r = (if d_sequence r0 \<noteq> int_of (fld m ''sequence'') \<or> d_terminal r0 \<noteq> [] \<and> d_delivered r0
      then r1\<lparr>d_updated := q_now e\<rparr> else r1)"
    have "nq_delivery s' = nq_delivery s \<or> nq_delivery s' = AList.update (msg_str m ''command_id'') r (nq_delivery s)"
      using assms Some Inr unfolding deduplicate_delivery_def Let_def r_def r1_def
      by (simp add: save_delivery_def nq_then_def split: if_splits) (auto simp: save_delivery_def nq_then_def split: if_splits)
    moreover have "d_updated r = d_updated r0 \<or> d_updated r = q_now e" by (simp add: r_def r1_def)
    ultimately show ?thesis using Some by blast
  qed (use assms Some in \<open>auto simp: deduplicate_delivery_def\<close>)
qed (use assms in \<open>auto simp: deduplicate_delivery_def\<close>)

lemma record_delivery_change:
  assumes "record_delivery c e m st s = (Inr u, s')"
  shows "\<exists>r. d_updated r = q_now e
    \<and> nq_delivery s' = trim_delivery (qc_max_records c) (AList.update (msg_str m ''command_id'') r (nq_delivery s))"
proof -
  obtain fp where fp: "delivery_fingerprint m = Inr fp" using assms by (auto simp: record_delivery_def split: sum.splits)
  let ?r = "\<lparr>d_sequence = int_of (fld m ''sequence''), d_stage = st,
                d_mission_id = str_of (get_or (msg_payload m) ''mission_id'' (JStr [])),
                d_type = msg_str m ''type'', d_fingerprint = fp, d_terminal = [], d_worker = [], d_detail = [],
                d_delivered = False, d_updated = q_now e\<rparr>"
  have "nq_delivery s' = trim_delivery (qc_max_records c) (AList.update (msg_str m ''command_id'') ?r (nq_delivery s))"
    using assms fp by (auto simp: record_delivery_def save_delivery_def Let_def split: if_splits prod.splits sum.splits)
  then show ?thesis by (intro exI [of _ ?r]) simp
qed

lemma queue_new_change:
  assumes "queue_new c e m s = (q, s')"
  shows "nq_delivery s' = nq_delivery s \<or> tracked m \<and> (\<exists>r. d_updated r = q_now e
    \<and> nq_delivery s' = trim_delivery (qc_max_records c) (AList.update (msg_str m ''command_id'') r (nq_delivery s)))"
  using assms [unfolded queue_new_def]
proof (cases rule: nq_then_cases)
  case (err x)
  then show ?thesis by (auto split: if_splits dest: record_delivery_err)
next
  case (ok u s1)
  obtain a s2 where a: "accept_locked c e m s1 = (a, s2)" by (cases "accept_locked c e m s1")
  have d2: "nq_delivery s2 = nq_delivery s1" using accept_locked_fields [OF a] by simp
  show ?thesis
  proof (cases "tracked m")
    case False
    with ok d2 a show ?thesis by (cases a) auto
  next
    case True
    with ok(1) record_delivery_change have r: "\<exists>r. d_updated r = q_now e
        \<and> nq_delivery s1 = trim_delivery (qc_max_records c) (AList.update (msg_str m ''command_id'') r (nq_delivery s))" by auto
    show ?thesis
    proof (cases a)
      case (Inr b)
      with ok(2) a d2 have "nq_delivery s' = nq_delivery s1" by auto
      with r True show ?thesis by simp
    next
      case (Inl x)
      with ok(2) a True have "roll_back (q_rollback_ok e) (nq_delivery s) x s2 = (q, s')" by simp
      from roll_back_fields [OF this] show ?thesis by simp
    qed
  qed
qed

lemma queue_accept_recent:
  assumes "recent (qc_max_records c) cid K t (nq_delivery s)" "t \<le> q_now e" "finite K"
    and "queue_accept c e msg s = (q, s')"
    and "card ((if tracked (dict_of msg) then insert (msg_str (dict_of msg) ''command_id'') K else K) - {cid}) < qc_max_records c"
  shows "recent (qc_max_records c) cid (if tracked (dict_of msg) then insert (msg_str (dict_of msg) ''command_id'') K else K)
    (q_now e) (nq_delivery s')"
proof -
  let ?k = "msg_str (dict_of msg) ''command_id''"
  let ?K = "if tracked (dict_of msg) then insert ?k K else K"
  have same: "recent (qc_max_records c) cid ?K (q_now e) (nq_delivery s)"
    using assms(1) by (rule recent_weaken) (use assms(2) in auto)
  have dedup: "recent (qc_max_records c) cid ?K (q_now e) (nq_delivery s3)"
    if d: "deduplicate_delivery e (dict_of msg) s2 = (x, s3)" "nq_delivery s2 = nq_delivery s" "tracked (dict_of msg)" for s2 s3 x
    using deduplicate_delivery_change [OF d(1)] d(2,3) same recent_update [OF same, of ?k] by auto
  from assms(4) show ?thesis
  proof (cases rule: queue_accept_cases)
    case (early x)
    with same show ?thesis by simp
  next
    case (dup d s2)
    with dedup show ?thesis by blast
  next
    case (again a s2 s3)
    with dedup [OF again(5,4,2)] show ?thesis by simp
  next
    case (fresh s2)
    from queue_new_change [OF fresh(5)] fresh(3) same recent_record [OF assms(1,2) _ assms(3), of _ ?k] assms(5)
    show ?thesis by (auto split: if_splits)
  qed
qed

lemma absorb_results_recent:
  "recent n cid K t (nq_delivery s) \<Longrightarrow> absorb_results os dirty s = (d, s') \<Longrightarrow> recent n cid K t (nq_delivery s')"
proof (induction os dirty s rule: absorb_results.induct)
  case (2 o' os dirty s)
  show ?case
  proof (cases "map_of (nq_delivery s) (o_command_id o')")
    case None
    with 2 show ?thesis by simp
  next
    case (Some r)
    obtain r' dd ch where u: "update_delivery o' r = (r', dd, ch)" by (cases "update_delivery o' r")
    then have "d_updated r' = d_updated r" by (auto simp: update_delivery_def Let_def)
    then have "recent n cid K t (AList.update (o_command_id o') r' (nq_delivery s))"
      using recent_update [OF 2(3) Some order.refl] by simp
    with 2(2) [OF Some u [symmetric] refl refl refl] 2(4) Some u show ?thesis by (simp add: Let_def split: if_splits)
  qed
qed simp

lemma queue_step_recent:
  assumes "recent (qc_max_records c) cid K t (nq_delivery s)" "finite K" "sorted (t # call_times [q])"
    and "card ((call_names [q] \<union> K) - {cid}) < qc_max_records c"
  shows "recent (qc_max_records c) cid (call_names [q] \<union> K) (last (t # call_times [q])) (nq_delivery (queue_call_step c s q))"
proof (cases q)
  case (QAccept e m)
  obtain x s' where a: "queue_accept c e m s = (x, s')" by (cases "queue_accept c e m s")
  from queue_accept_recent [OF assms(1) _ assms(2) a] assms(3,4) show ?thesis by (auto simp: QAccept a)
next
  case (QReports ok)
  obtain d s1 where b: "absorb_results (i_results (mem (nq_inbox s))) False s = (d, s1)"
    by (cases "absorb_results (i_results (mem (nq_inbox s))) False s")
  have "nq_delivery (snd (completed ok s)) = nq_delivery s1"
    by (auto simp: completed_def b nq_then_def save_delivery_def split: if_splits)
  with absorb_results_recent [OF assms(1) b] show ?thesis by (simp add: QReports)
next
  case (QDelivered ok k)
  show ?thesis
  proof (cases "map_of (nq_delivery s) k")
    case None
    with assms(1) show ?thesis by (simp add: QDelivered mark_delivered_def)
  next
    case (Some r)
    have "nq_delivery (snd (mark_delivered ok k s)) = AList.update k (r\<lparr>d_delivered := True\<rparr>) (nq_delivery s)"
      using Some by (simp add: mark_delivered_def nq_then_def save_delivery_def)
    with recent_update [OF assms(1) Some order.refl, of "r\<lparr>d_delivered := True\<rparr>"] show ?thesis by (simp add: QDelivered)
  qed
next
  case QActive
  have "nq_delivery (snd (queue_active s)) = nq_delivery s" by (simp add: queue_active_def Let_def split: option.splits)
  with assms(1) show ?thesis by (simp add: QActive)
next
  case (QFinish sv stage detail extra)
  with assms(1) show ?thesis by simp
qed

lemma queue_run_recent:
  "recent (qc_max_records c) cid K t (nq_delivery s) \<Longrightarrow> finite K \<Longrightarrow> sorted (t # call_times qs) \<Longrightarrow>
     card ((call_names qs \<union> K) - {cid}) < qc_max_records c \<Longrightarrow>
     map_of (nq_delivery (foldl (queue_call_step c) s qs)) cid \<noteq> None"
proof (induction qs arbitrary: K t s)
  case Nil
  then show ?case by (simp add: recent_known)
next
  case (Cons q qs)
  let ?K = "call_names [q] \<union> K" and ?t = "last (t # call_times [q])"
  have n: "call_names (q # qs) \<union> K = call_names qs \<union> ?K" and t: "call_times (q # qs) = call_times [q] @ call_times qs"
    by (cases q; auto)+
  have fin: "finite (call_names qs \<union> ?K - {cid})" using Cons.prems(2) by simp
  have "card (?K - {cid}) \<le> card (call_names qs \<union> ?K - {cid})" by (rule card_mono [OF fin]) auto
  then have k: "card (?K - {cid}) < qc_max_records c" using Cons.prems(4) n by simp
  have st: "sorted (t # call_times [q])" "sorted (?t # call_times qs)"
    using Cons.prems(3) unfolding t by (cases q; auto simp: sorted_append)+
  show ?case
    using Cons.IH [OF queue_step_recent [OF Cons.prems(1,2) st(1) k] _ st(2)] Cons.prems(2,4) n by simp
qed

subsection \<open>Properties\<close>

text \<open>A node message that is refused leaves no trace: when \<open>accept\<close> raises anything but the
  failure of a store, the inbox in memory and the delivery table are as before.\<close>

theorem refused_message_leaves_no_trace:
  assumes "queue_accept c e msg s = (Inl x, s')" and "x \<noteq> NqSaveFailed"
  shows "mem (nq_inbox s') = mem (nq_inbox s) \<and> nq_delivery s' = nq_delivery s"
  using assms(1)
proof (cases rule: queue_accept_cases)
  case (dup d s2)
  then have "deduplicate_delivery e (dict_of msg) s2 = (Inl x, s')" by auto
  with deduplicate_err [OF this assms(2)] deduplicate_inbox [OF this] dup(3,4) show ?thesis by simp
next
  case (fresh s2)
  with queue_new_err [OF fresh(5)] show ?thesis by simp
qed simp_all

lemma known_not_requeued:
  assumes "map_of (nq_delivery s) (msg_str (dict_of msg) ''command_id'') \<noteq> None" "tracked (dict_of msg)"
    "queue_accept c e msg s = (r, s')"
  shows "nq_inbox s' = nq_inbox s \<and> (\<forall>a. r = Inr a \<longrightarrow> ac_duplicate a)"
  using assms(3)
proof (cases rule: queue_accept_cases)
  case (dup d s2)
  with deduplicate_inbox [OF dup(5)] show ?thesis by simp
next
  case (again a' s2 s3)
  with deduplicate_inbox [OF again(5)] deduplicate_dup [OF again(5)] show ?thesis by simp
next
  case (fresh s2)
  with assms(1,2) show ?thesis by simp
qed simp_all

text \<open>C19: a command or mission commit that was taken as new is not queued again by a retransmission as long as the
  process runs and fewer than \<open>max_delivery_records\<close> other commands and commits were presented since: after any calls
  of the queue in between, whatever the sequence number, the timestamp, the payload and the clock of the retransmission
  are, a command or commit with the same command id leaves the inbox alone, and if it is answered at all, as a
  duplicate. The clock must not run backwards up to then; the delivery table is a dictionary.\<close>

theorem retransmission_not_requeued:
  assumes "queue_accept c e msg s = (Inr a, s')" and "\<not> ac_duplicate a" and "tracked (dict_of msg)"
    and "distinct (map fst (nq_delivery s))" and "\<forall>p \<in> set (nq_delivery s). d_updated (snd p) \<le> q_now e"
    and "sorted (q_now e # call_times qs)"
    and "card (call_names qs - {msg_str (dict_of msg) ''command_id''}) < qc_max_records c"
    and "fld (dict_of msg') ''command_id'' = fld (dict_of msg) ''command_id''"
    and "tracked (dict_of msg')" and "queue_accept c e' msg' (foldl (queue_call_step c) s' qs) = (r, s'')"
  shows "nq_inbox s'' = nq_inbox (foldl (queue_call_step c) s' qs) \<and> (\<forall>a'. r = Inr a' \<longrightarrow> ac_duplicate a')"
proof -
  let ?k = "msg_str (dict_of msg) ''command_id''"
  have same: "msg_str (dict_of msg') ''command_id'' = ?k" using assms(8) by (simp add: msg_str_def)
  have n: "1 \<le> qc_max_records c" using assms(7) by simp
  have "recent (qc_max_records c) ?k {} (q_now e) (nq_delivery s')"
    using assms(1)
  proof (cases rule: queue_accept_cases)
    case (again a' s2 s3)
    with deduplicate_dup [OF again(5)] assms(2) show ?thesis by simp
  next
    case (fresh s2)
    from fresh(4) [OF assms(3)] have none: "map_of (nq_delivery s) ?k = None" .
    obtain p fp where "map_of (nq_delivery s') ?k = Some p"
      using queue_new_entry [OF fresh(5) assms(3)] none fresh(3) n assms(5) by metis
    with none have "nq_delivery s' \<noteq> nq_delivery s" by auto
    with queue_new_change [OF fresh(5)] fresh(3) obtain q where q: "d_updated q = q_now e"
      "nq_delivery s' = trim_delivery (qc_max_records c) (AList.update ?k q (nq_delivery s))" by auto
    with recent_start [OF assms(4) none n _ finite.emptyI, of q] assms(5) update_absent [OF none] show ?thesis by simp
  qed simp_all
  from queue_run_recent [OF this finite.emptyI assms(6)] assms(7)
  have "map_of (nq_delivery (foldl (queue_call_step c) s' qs)) ?k \<noteq> None" by simp
  then show ?thesis using assms(9,10) known_not_requeued [of _ msg'] by (simp add: same)
qed

subsection \<open>A run\<close>

definition sample_queue_config :: queue_config where
  "sample_queue_config = \<lparr>qc_limits = small_limits, qc_max_age = 3, qc_max_skew = 1, qc_max_records = 2\<rparr>"

definition sample_queue :: node_queue where
  "sample_queue = \<lparr>nq_inbox = \<lparr>mem = empty_inbox, disk = empty_inbox\<rparr>, nq_offset = None, nq_delivery = [], nq_disk = [],
     nq_events = [], nq_executing = []\<rparr>"

definition queue_env_at :: "real \<Rightarrow> queue_env" where
  "queue_env_at t = \<lparr>q_now = t, q_allows = Some True, q_inbox_save = Saved, q_delivery_ok = True, q_rollback_ok = True\<rparr>"

lemma sample_message_valid: "validate_node_message (JObj sample_node_message) (Some ''aircraft_2'') = None"
proof -
  obtain w where w: "canonical_json (JObj sample_node_message) = Inr w"
    using canonical_json_ok [OF sample_node_message_facts(1)] by blast
  have p: "validate_node_payload ''command'' (JObj [(''action'', JStr ''land'')]) = None"
    by (simp add: validate_node_payload_def node_ok command_actions_def)
  show ?thesis
    unfolding validate_node_message_def Let_def first_error_None_iff
    using w p by (simp add: sample_node_message_def node_checks_ok required_fields_def protocol_version_def
        message_types_def node_ids_def real_of_def)
qed

lemmas sample_message_fields = msg_str_def msg_payload_def sample_node_message_def tracked_def message_age_def
  real_of_def queue_env_at_def sample_queue_config_def sample_queue_def

lemma sample_accepted:
  obtains a s' where "queue_accept sample_queue_config (queue_env_at 100) (JObj sample_node_message) sample_queue = (Inr a, s')"
    "\<not> ac_duplicate a"
proof -
  let ?p = "[(''action'', JStr ''land''), (''parameters'', JObj [])]"
  let ?f = "\<lparr>f_type = COMMAND, f_flags = 0, f_sequence = 3, f_command_id = 5, f_payload = ?p\<rparr>"
  have v: "validate_payload COMMAND (JObj ?p) = None" by code_simp
  obtain fp where fp: "fingerprint ?f = Inr fp" using fingerprint_total [of ?f] by auto
  obtain t where "dumps True (JObj [(''action'', JStr ''land'')]) = Some t"
    using dumps_total [of "JObj [(''action'', JStr ''land'')]" True] by auto
  then obtain dfp where dfp: "delivery_fingerprint sample_node_message = Inr dfp"
    by (simp add: delivery_fingerprint_def ascii_digest_def sample_message_fields)
  have frame: "command_frame sample_node_message = Inr ?f"
    by (simp add: command_frame_def queue_frame_def make_frame_def sample_message_fields get_or_def)
  obtain b where b: "inbox_accept small_limits Saved \<lparr>mem = empty_inbox, disk = empty_inbox\<rparr> ?f
      = (Inr \<lparr>ir_acked_sequence = 3, ir_stage = ''COMMAND_STAGED'', ir_duplicate = False\<rparr>, b)"
    using v fp by (simp add: inbox_accept_def empty_inbox_def apply_frame_def enqueue_def persist_def)
  show thesis
    using that dfp frame b sample_message_valid
    by (auto simp: queue_accept_def sample_message_fields deduplicate_delivery_def nq_then_def queue_new_def
        record_delivery_def save_delivery_def accept_locked_def accept_frame_def emit_stage_def Let_def)
qed

text \<open>With two records: the reports are asked for, the job is finished, and a second command comes between\<close>

theorem retransmission_not_requeued_witness:
  "\<exists>a s'. queue_accept sample_queue_config (queue_env_at 100) (JObj sample_node_message) sample_queue = (Inr a, s')
     \<and> (\<forall>m. \<exists>r s''. queue_accept sample_queue_config (queue_env_at 103) (JObj sample_node_message)
            (foldl (queue_call_step sample_queue_config) s' [QReports True, QFinish Saved ''COMPLETED'' [] [], QAccept (queue_env_at 101) m])
          = (r, s'') \<and> nq_inbox s'' = nq_inbox (foldl (queue_call_step sample_queue_config) s'
            [QReports True, QFinish Saved ''COMPLETED'' [] [], QAccept (queue_env_at 101) m]))"
proof -
  let ?qs = "\<lambda>m. [QReports True, QFinish Saved ''COMPLETED'' [] [], QAccept (queue_env_at 101) m]"
  obtain a s' where a: "queue_accept sample_queue_config (queue_env_at 100) (JObj sample_node_message) sample_queue = (Inr a, s')"
      "\<not> ac_duplicate a"
    by (rule sample_accepted)
  have t: "tracked (dict_of (JObj sample_node_message))" by (simp add: sample_message_fields)
  have d: "nq_delivery sample_queue = []" by (simp add: sample_queue_def)
  have "\<exists>r s''. queue_accept sample_queue_config (queue_env_at 103) (JObj sample_node_message)
      (foldl (queue_call_step sample_queue_config) s' (?qs m)) = (r, s'') \<and> nq_inbox s'' = nq_inbox (foldl (queue_call_step sample_queue_config) s' (?qs m))"
    for m
  proof -
    obtain r s'' where r: "queue_accept sample_queue_config (queue_env_at 103) (JObj sample_node_message)
        (foldl (queue_call_step sample_queue_config) s' (?qs m)) = (r, s'')"
      by (cases "queue_accept sample_queue_config (queue_env_at 103) (JObj sample_node_message)
        (foldl (queue_call_step sample_queue_config) s' (?qs m))")
    have "sorted (q_now (queue_env_at 100) # call_times (?qs m))" by (simp add: queue_env_at_def)
    moreover have "card (call_names (?qs m) - {k}) < qc_max_records sample_queue_config" for k
    proof -
      have "card (call_names (?qs m) - {k}) \<le> card {msg_str (dict_of m) ''command_id''}" by (rule card_mono) auto
      then show ?thesis by (simp add: sample_queue_config_def)
    qed
    ultimately show ?thesis using retransmission_not_requeued [OF a t _ _ _ _ refl t r] d r by simp
  qed
  with a(1) show ?thesis by blast
qed

theorem refused_message_leaves_no_trace_witness:
  "\<exists>x s'. queue_accept sample_queue_config (queue_env_at 100) (JObj sample_node_message) (sample_queue\<lparr>nq_offset := Some 0\<rparr>)
       = (Inl x, s') \<and> mem (nq_inbox s') = empty_inbox \<and> nq_delivery s' = []"
proof -
  obtain s' where r: "queue_accept sample_queue_config (queue_env_at 100) (JObj sample_node_message)
      (sample_queue\<lparr>nq_offset := Some 0\<rparr>) = (Inl (CommandRejected ''expired'' []), s')"
    using sample_message_valid by (simp add: queue_accept_def sample_message_fields Let_def)
  from refused_message_leaves_no_trace [OF r] r show ?thesis by (simp add: sample_queue_def)
qed

end
