(* ===== verification/SlaveTransportProps.thy ===== *)
theory SlaveTransportProps
  imports SlaveTransport QueueProps
begin

text \<open>
  The slave transport: its tables stay bounded and consistent, a transaction is sent at most
  \<open>max_attempts\<close> times and then ends, and what a retransmitted mission comes to when the slave has
  queued it already.
\<close>

subsection \<open>Invariant\<close>

definition pending_ok :: "transport_config \<Rightarrow> string \<times> pending_entry \<Rightarrow> bool" where
  "pending_ok c = (\<lambda>(cid, e). 1 \<le> pe_attempts e \<and> pe_attempts e \<le> tc_max_attempts c \<and> \<not> is_terminal (pe_stage e))"

definition fragment_ok :: "string \<times> fragment \<Rightarrow> bool" where
  "fragment_ok = (\<lambda>(cid, g). \<forall>i d. map_of (fg_items g) i = Some d \<longrightarrow> 0 \<le> i \<and> i < fg_item_count g)"

definition transport_inv :: "transport_config \<Rightarrow> slave_transport \<Rightarrow> bool" where
  "transport_inv c s \<longleftrightarrow> distinct (map fst (st_pending s)) \<and> length (st_pending s) \<le> tc_max_pending c
     \<and> (\<forall>p \<in> set (st_pending s). pending_ok c p)
     \<and> length (st_fragments s) \<le> tc_max_pending c \<and> (\<forall>p \<in> set (st_fragments s). fragment_ok p)
     \<and> length (st_history s) \<le> tc_history_limit c"

lemma ball_update: "\<forall>p \<in> set d. P p \<Longrightarrow> P (k, v) \<Longrightarrow> \<forall>p \<in> set (AList.update k v d). P p"
  by (induction d) (auto split: if_splits)

lemma ball_delete: "\<forall>p \<in> set d. P p \<Longrightarrow> \<forall>p \<in> set (AList.delete k d). P p"
  by (auto simp: delete_as_filter)

lemma length_update_le: "length (AList.update k v d) \<le> Suc (length d)"
  by (cases "map_of d k") (simp_all add: length_update_absent length_update_present)

lemma transport_inv_cong:
  "transport_inv c s \<Longrightarrow> st_pending s' = st_pending s \<Longrightarrow> st_fragments s' = st_fragments s \<Longrightarrow> st_history s' = st_history s
     \<Longrightarrow> transport_inv c s'"
  by (simp add: transport_inv_def)

lemma status_fields [simp]:
  "st_pending (set_status k v s) = st_pending s" "st_fragments (set_status k v s) = st_fragments s"
  "st_history (set_status k v s) = st_history s" "st_pending (set_mission mid s) = st_pending s"
  "st_fragments (set_mission mid s) = st_fragments s" "st_history (set_mission mid s) = st_history s"
  "st_pending (send_wires ws s) = st_pending s" "st_fragments (send_wires ws s) = st_fragments s"
  "st_history (send_wires ws s) = st_history s" "st_pending (draw n s) = st_pending s"
  "st_fragments (draw n s) = st_fragments s" "st_history (draw n s) = st_history s"
  by (simp_all add: set_status_def set_mission_def send_wires_def draw_def)

lemma transport_inv_delete:
  "transport_inv c s \<Longrightarrow> transport_inv c (s\<lparr>st_pending := AList.delete cid (st_pending s)\<rparr>)"
  using length_delete_le [of cid "st_pending s"] ball_delete [of "st_pending s" "pending_ok c" cid]
  by (simp add: transport_inv_def AList.distinct_delete)

lemma transport_inv_update:
  assumes "transport_inv c s" "map_of (st_pending s) cid \<noteq> None \<or> length (st_pending s) < tc_max_pending c"
    and "1 \<le> pe_attempts e" "pe_attempts e \<le> tc_max_attempts c" "\<not> is_terminal (pe_stage e)"
  shows "transport_inv c (s\<lparr>st_pending := AList.update cid e (st_pending s)\<rparr>)"
proof -
  have "length (AList.update cid e (st_pending s)) \<le> tc_max_pending c"
    using assms(1,2) length_update_le [of cid e "st_pending s"]
    by (auto simp: transport_inv_def length_update_present)
  then show ?thesis
    using assms ball_update [of "st_pending s" "pending_ok c" cid e]
    by (simp add: transport_inv_def distinct_keys_update) (simp add: pending_ok_def)
qed

lemma transport_inv_iff [simp]:
  "transport_inv c (send_wires ws s) \<longleftrightarrow> transport_inv c s" "transport_inv c (draw k s) \<longleftrightarrow> transport_inv c s"
  by (simp_all add: transport_inv_def)

lemma queue_command_inv:
  assumes "transport_inv c s" "1 \<le> tc_max_attempts c"
  shows "transport_inv c (snd (queue_command c now wall cmd s))"
proof (cases "map_of (st_pending s) (uuid_str (cc_command_id cmd)) \<noteq> None \<or> tc_max_pending c \<le> length (st_pending s)")
  case True
  then show ?thesis using assms(1) by (auto simp: queue_command_def Let_def)
next
  case False
  have u: "transport_inv c (draw k s\<lparr>st_pending := AList.update cid
      \<lparr>pe_wires = ws, pe_next_retry = t, pe_stage = ''QUEUED'', pe_mission_id = mid, pe_attempts = 1\<rparr> (st_pending (draw k s))\<rparr>)"
    for k cid ws t mid
    by (rule transport_inv_update) (use False assms in \<open>simp_all add: is_terminal_def\<close>)
  from False u assms(1) show ?thesis
    by (simp add: queue_command_def Let_def split: sum.split)
qed

lemma transport_inv_fragment:
  assumes "transport_inv c s" "map_of (st_fragments s) cid \<noteq> None \<or> length (st_fragments s) < tc_max_pending c"
    and "\<forall>i d. map_of (fg_items g) i = Some d \<longrightarrow> 0 \<le> i \<and> i < fg_item_count g"
  shows "transport_inv c (s\<lparr>st_fragments := AList.update cid g (st_fragments s)\<rparr>)"
proof -
  have "length (AList.update cid g (st_fragments s)) \<le> tc_max_pending c"
    using assms(1,2) length_update_le [of cid g "st_fragments s"]
    by (auto simp: transport_inv_def length_update_present)
  then show ?thesis
    using assms ball_update [of "st_fragments s" fragment_ok cid g]
    by (simp add: transport_inv_def) (simp add: fragment_ok_def)
qed

lemma accept_fragment_inv:
  assumes "transport_inv c s" "1 \<le> tc_max_attempts c"
  shows "transport_inv c (snd (accept_fragment c now wall cmd s))"
proof -
  let ?cid = "uuid_str (cc_command_id cmd)" and ?p = "cc_payload cmd"
  have b: "transport_inv c (snd (fragment_begin c ?cid mid ?p s))" for mid
    using assms(1) transport_inv_fragment [OF assms(1), of ?cid]
    by (auto simp: fragment_begin_def split: sum.splits option.splits)
  have g_ok: "\<forall>i d. map_of (fg_items g) i = Some d \<longrightarrow> 0 \<le> i \<and> i < fg_item_count g"
    if "map_of (st_fragments s) ?cid = Some g" for g
    using assms(1) map_of_SomeD [OF that] by (fastforce simp: transport_inv_def fragment_ok_def)
  have i: "transport_inv c (snd (fragment_item ?cid ?p g s))" if g: "map_of (st_fragments s) ?cid = Some g" for g
    using assms(1) transport_inv_fragment [OF assms(1), of ?cid] g g_ok [OF g]
    by (auto simp: fragment_item_def split: json.splits sum.splits if_splits)
  have k: "transport_inv c (snd (fragment_commit c now wall cmd ?cid mid ?p g s))" for mid g
  proof -
    let ?cmd = "cmd\<lparr>cc_action := ''mission'', cc_payload := [(''mission_id'', JStr mid), (''items'', JArr (map JObj (fragment_items g)))]\<rparr>"
    obtain q s1 where q: "queue_command c now wall ?cmd s = (q, s1)" by (cases "queue_command c now wall ?cmd s")
    have "transport_inv c s1" using queue_command_inv [OF assms, of now wall ?cmd] q by simp
    moreover from this have "transport_inv c (s1\<lparr>st_fragments := AList.delete ?cid (st_fragments s1)\<rparr>)"
      using length_delete_le [of ?cid "st_fragments s1"] ball_delete [of "st_fragments s1" fragment_ok ?cid]
      by (simp add: transport_inv_def)
    ultimately show ?thesis using assms(1) q
      by (auto simp: fragment_commit_def split: sum.splits)
  qed
  show ?thesis using assms(1) b i k by (auto simp: accept_fragment_def Let_def split: option.splits)
qed

lemma transport_execute_inv:
  "transport_inv c s \<Longrightarrow> 1 \<le> tc_max_attempts c \<Longrightarrow> transport_inv c (snd (transport_execute c now wall cmd s))"
  using queue_command_inv [of c s] accept_fragment_inv [of c s] by (simp add: transport_execute_def)

lemma fail_transaction_inv: "transport_inv c s \<Longrightarrow> transport_inv c (fail_transaction wall reason cid s)"
  unfolding fail_transaction_def
  by (auto split: option.splits intro: transport_inv_cong [OF transport_inv_delete])

lemma apply_response_inv: "transport_inv c s \<Longrightarrow> transport_inv c (apply_response m s)"
proof (cases "map_of (st_pending s) (str_of (fld m ''command_id''))")
  case (Some e)
  assume inv: "transport_inv c s"
  let ?cid = "str_of (fld m ''command_id'')" and ?st = "response_stage m"
  have e: "1 \<le> pe_attempts e" "pe_attempts e \<le> tc_max_attempts c"
    using inv map_of_SomeD [OF Some] by (auto simp: transport_inv_def pending_ok_def)
  show ?thesis
  proof (cases "is_terminal ?st")
    case True
    with Some show ?thesis
      by (intro transport_inv_cong [OF transport_inv_delete [OF inv, of ?cid]]) (simp_all add: apply_response_def Let_def)
  next
    case False
    with Some e show ?thesis
      by (intro transport_inv_cong [OF transport_inv_update [OF inv, of ?cid "e\<lparr>pe_stage := ?st\<rparr>"]])
        (simp_all add: apply_response_def Let_def)
  qed
qed (auto simp: apply_response_def Let_def intro: transport_inv_cong)

lemma transport_datagram_inv:
  assumes "transport_inv c s" "transport_datagram c now wall w ok s = Some s'"
  shows "transport_inv c s'"
proof -
  let ?s = "s\<lparr>st_rx_packets := st_rx_packets s + 1\<rparr>"
  have i: "transport_inv c ?s" using assms(1) by (intro transport_inv_cong [OF assms(1)]) simp_all
  have r: "transport_inv c (remember_response c k ?s)" for k
    using i by (auto simp: remember_response_def transport_inv_def)
  have keep: "transport_inv c t" if "st_pending t = st_pending ?s" "st_fragments t = st_fragments ?s" "st_history t = st_history ?s" for t
    using that by (intro transport_inv_cong [OF i])
  have "st_pending s' = st_pending ?s \<and> st_fragments s' = st_fragments ?s \<and> st_history s' = st_history ?s
    \<or> (\<exists>m k. s' = apply_response m (remember_response c k ?s))"
  proof (cases "decode_node_message w (Some ''rover'') max_datagram_bytes")
    case (Inl e)
    with assms(2) show ?thesis
      by (cases e) (auto simp: transport_datagram_def invalid_packet_def Let_def split: if_splits)
  next
    case (Inr m)
    have "s' = apply_response m (remember_response c (response_key_of m) ?s)
      \<or> st_pending s' = st_pending ?s \<and> st_fragments s' = st_fragments ?s \<and> st_history s' = st_history ?s"
      using assms(2) Inr unfolding transport_datagram_def Let_def by (auto simp: invalid_packet_def split: if_splits)
    then show ?thesis by blast
  qed
  with keep apply_response_inv [OF r] show ?thesis by blast
qed

lemma transport_receive_inv:
  "transport_inv c s \<Longrightarrow> transport_receive c now wall n es s = Some s' \<Longrightarrow> transport_inv c s'"
  by (induction c now wall n es s rule: transport_receive.induct)
    (auto simp: bind_eq_Some_conv dest: transport_datagram_inv)

lemma retry_one_inv: "transport_inv c s \<Longrightarrow> transport_inv c (retry_one c now wall cid s)"
proof (cases "map_of (st_pending s) cid")
  case (Some e)
  assume inv: "transport_inv c s"
  have e: "1 \<le> pe_attempts e" "\<not> is_terminal (pe_stage e)"
    using inv map_of_SomeD [OF Some] by (auto simp: transport_inv_def pending_ok_def)
  let ?e = "e\<lparr>pe_attempts := pe_attempts e + 1, pe_next_retry := now + tc_retry_interval c\<rparr>"
  have "pe_attempts e < tc_max_attempts c \<Longrightarrow>
      transport_inv c (send_wires (pe_wires e) (s\<lparr>st_pending := AList.update cid ?e (st_pending s)\<rparr>))"
    using e Some by (intro transport_inv_cong [OF transport_inv_update [OF inv, of cid ?e]]) simp_all
  then show ?thesis using inv fail_transaction_inv [OF inv] Some by (auto simp: retry_one_def)
qed (simp add: retry_one_def)

lemma fold_inv: "transport_inv c s \<Longrightarrow> (\<And>x s. transport_inv c s \<Longrightarrow> transport_inv c (f x s)) \<Longrightarrow> transport_inv c (fold f xs s)"
  by (induction xs arbitrary: s) auto

lemma transport_pump_inv:
  assumes "transport_inv c s" "transport_pump c now wall n es s = Some s'"
  shows "transport_inv c s'"
proof -
  obtain s1 where s1: "transport_receive c now wall n es s = Some s1"
    and s': "s' = (let s2 = (if status_late c now s1 then fail_pending wall ''status timeout'' s1 else s1)
         in fold (retry_one c now wall) (map fst (st_pending s2)) s2)"
    using assms(2) by (auto simp: transport_pump_def)
  have i1: "transport_inv c s1" by (rule transport_receive_inv [OF assms(1) s1])
  have "transport_inv c (fail_pending wall r s1)" for r
    unfolding fail_pending_def using i1 by (rule fold_inv) (rule fail_transaction_inv)
  with i1 show ?thesis unfolding s' Let_def by (intro fold_inv retry_one_inv) (auto split: if_splits)
qed

inductive transport_reach :: "transport_config \<Rightarrow> slave_transport \<Rightarrow> bool" for c where
  start: "transport_reach c transport_init"
| execute: "transport_reach c s \<Longrightarrow> transport_reach c (snd (transport_execute c now wall cmd s))"
| pump: "transport_reach c s \<Longrightarrow> transport_pump c now wall n es s = Some s' \<Longrightarrow> transport_reach c s'"

lemma transport_reach_inv: "transport_reach c s \<Longrightarrow> 1 \<le> tc_max_attempts c \<Longrightarrow> transport_inv c s"
  by (induction rule: transport_reach.induct)
    (auto simp: transport_execute_inv intro: transport_pump_inv, simp add: transport_inv_def transport_init_def)


subsection \<open>A transaction without an answer\<close>

text \<open>What one pass of the retry loop makes of an entry: None when the transaction is failed\<close>

definition next_entry :: "transport_config \<Rightarrow> real \<Rightarrow> pending_entry \<Rightarrow> pending_entry option" where
  "next_entry c now e = (if now < pe_next_retry e then Some e
     else if tc_max_attempts c \<le> pe_attempts e then None
     else Some (e\<lparr>pe_attempts := pe_attempts e + 1, pe_next_retry := now + tc_retry_interval c\<rparr>))"

definition reported_failed :: "slave_transport \<Rightarrow> bool" where
  "reported_failed s \<longleftrightarrow> map_of (st_status s) ''mission_stage'' = Some (JStr ''FAILED'')"

lemma fail_transaction_pending:
  "map_of (st_pending (fail_transaction wall r k s)) cid = (if k = cid then None else map_of (st_pending s) cid)"
  by (auto simp: fail_transaction_def AList.delete_conv split: option.splits)

lemma fail_transaction_failed:
  "reported_failed s \<or> map_of (st_pending s) k \<noteq> None \<Longrightarrow> reported_failed (fail_transaction wall r k s)"
  by (auto simp: fail_transaction_def reported_failed_def set_status_def set_mission_def update_conv' split: option.splits)

lemma retry_one_pending:
  "map_of (st_pending (retry_one c now wall k s)) cid =
     (if k = cid then Option.bind (map_of (st_pending s) cid) (next_entry c now) else map_of (st_pending s) cid)"
  by (auto simp: retry_one_def next_entry_def fail_transaction_pending update_conv' split: option.splits)

lemma retry_one_failed:
  "reported_failed s \<or> map_of (st_pending s) k \<noteq> None \<and> map_of (st_pending (retry_one c now wall k s)) k = None
     \<Longrightarrow> reported_failed (retry_one c now wall k s)"
  by (cases "map_of (st_pending s) k")
    (auto simp: retry_one_def fail_transaction_failed [unfolded reported_failed_def] update_conv' reported_failed_def send_wires_def split: if_splits)

lemma retry_all_pending:
  "distinct ks \<Longrightarrow> map_of (st_pending (fold (retry_one c now wall) ks s)) cid =
     (if cid \<in> set ks then Option.bind (map_of (st_pending s) cid) (next_entry c now) else map_of (st_pending s) cid)"
  by (induction ks arbitrary: s) (auto simp: retry_one_pending)

lemma retry_all_failed:
  "reported_failed s \<or> map_of (st_pending s) cid \<noteq> None \<and> map_of (st_pending (fold (retry_one c now wall) ks s)) cid = None
     \<Longrightarrow> reported_failed (fold (retry_one c now wall) ks s)"
proof (induction ks arbitrary: s)
  case (Cons k ks)
  show ?case
  proof (cases "map_of (st_pending (retry_one c now wall k s)) cid = None \<and> map_of (st_pending s) cid \<noteq> None")
    case True
    then have "k = cid" by (auto simp: retry_one_pending split: if_splits)
    with True retry_one_failed [of s k c now wall] Cons.IH [of "retry_one c now wall k s"] show ?thesis by simp
  next
    case False
    with Cons.prems retry_one_failed [of s k c now wall] Cons.IH [of "retry_one c now wall k s"] show ?thesis by auto
  qed
qed auto

lemma fail_pending_pending: "map_of (st_pending (fail_pending wall r s)) cid = None"
proof -
  have "map_of (st_pending (fold (fail_transaction wall r) ks s)) cid = (if cid \<in> set ks then None else map_of (st_pending s) cid)" for ks s
    by (induction ks arbitrary: s) (auto simp: fail_transaction_pending)
  then show ?thesis by (auto simp: fail_pending_def map_of_eq_None_iff)
qed

lemma fail_pending_failed: "reported_failed s \<or> st_pending s \<noteq> [] \<Longrightarrow> reported_failed (fail_pending wall r s)"
proof -
  have f: "reported_failed s \<Longrightarrow> reported_failed (fold (fail_transaction wall r) ks s)" for ks s
    by (induction ks arbitrary: s) (auto simp: fail_transaction_failed)
  assume "reported_failed s \<or> st_pending s \<noteq> []"
  then show ?thesis
    by (cases "st_pending s") (auto simp: fail_pending_def fail_transaction_failed f)
qed

text \<open>Passes of \<open>pump\<close> at the given times in which the socket has nothing\<close>

fun silent_pumps :: "transport_config \<Rightarrow> json \<Rightarrow> nat \<Rightarrow> real list \<Rightarrow> slave_transport \<Rightarrow> slave_transport" where
  "silent_pumps c wall n [] s = s"
| "silent_pumps c wall n (t # ts) s = (case transport_pump c t wall n [] s of
     None \<Rightarrow> s | Some s' \<Rightarrow> silent_pumps c wall n ts s')"

definition silent_pump :: "transport_config \<Rightarrow> json \<Rightarrow> real \<Rightarrow> slave_transport \<Rightarrow> slave_transport" where
  "silent_pump c wall t s = (let s2 = (if status_late c t s then fail_pending wall ''status timeout'' s else s)
     in fold (retry_one c t wall) (map fst (st_pending s2)) s2)"

lemma transport_pump_silent: "transport_pump c t wall n [] s = Some (silent_pump c wall t s)"
  by (cases n) (simp_all add: transport_pump_def silent_pump_def)

lemma silent_pump_step:
  assumes "transport_inv c s"
  shows "map_of (st_pending (silent_pump c wall t s)) cid =
      (if status_late c t s then None else Option.bind (map_of (st_pending s) cid) (next_entry c t))"
    and "reported_failed s \<or> map_of (st_pending s) cid \<noteq> None \<and> map_of (st_pending (silent_pump c wall t s)) cid = None
      \<Longrightarrow> reported_failed (silent_pump c wall t s)"
    and "transport_inv c (silent_pump c wall t s)"
proof -
  let ?s2 = "if status_late c t s then fail_pending wall ''status timeout'' s else s"
  show inv: "transport_inv c (silent_pump c wall t s)"
    using transport_pump_inv [OF assms transport_pump_silent] by simp
  have "transport_inv c (fail_pending wall r s)" for r
    unfolding fail_pending_def using assms by (rule fold_inv) (rule fail_transaction_inv)
  then have d: "distinct (map fst (st_pending ?s2))" using assms by (simp add: transport_inv_def)
  show "map_of (st_pending (silent_pump c wall t s)) cid =
      (if status_late c t s then None else Option.bind (map_of (st_pending s) cid) (next_entry c t))"
    using retry_all_pending [OF d, where c = c and now = t and wall = wall and s = ?s2 and cid = cid]
    by (auto simp: silent_pump_def Let_def fail_pending_pending map_of_eq_None_iff [symmetric])
  show "reported_failed (silent_pump c wall t s)"
    if a: "reported_failed s \<or> map_of (st_pending s) cid \<noteq> None \<and> map_of (st_pending (silent_pump c wall t s)) cid = None"
  proof (cases "status_late c t s")
    case True
    then have "reported_failed ?s2" using a by (auto intro: fail_pending_failed)
    then show ?thesis unfolding silent_pump_def Let_def by (intro retry_all_failed) simp
  next
    case False
    with a show ?thesis unfolding silent_pump_def Let_def by (intro retry_all_failed [of _ cid]) simp
  qed
qed

lemma silent_pumps_keep:
  "transport_inv c s \<Longrightarrow> map_of (st_pending s) cid = None \<Longrightarrow> reported_failed s \<Longrightarrow>
     map_of (st_pending (silent_pumps c wall n ts s)) cid = None \<and> reported_failed (silent_pumps c wall n ts s)"
  by (induction ts arbitrary: s) (simp_all add: transport_pump_silent silent_pump_step)

fun spaced :: "real \<Rightarrow> real \<Rightarrow> real list \<Rightarrow> bool" where
  "spaced d t0 [] \<longleftrightarrow> True"
| "spaced d t0 (t # ts) \<longleftrightarrow> t0 \<le> t \<and> spaced d (t + d) ts"

lemma silent_pumps_end:
  "transport_inv c s \<Longrightarrow> map_of (st_pending s) cid = Some e \<Longrightarrow> spaced (tc_retry_interval c) (pe_next_retry e) ts
     \<Longrightarrow> tc_max_attempts c < pe_attempts e + length ts
     \<Longrightarrow> map_of (st_pending (silent_pumps c wall n ts s)) cid = None \<and> reported_failed (silent_pumps c wall n ts s)"
proof (induction ts arbitrary: s e)
  case Nil
  then show ?case using map_of_SomeD [OF Nil.prems(2)] by (auto simp: transport_inv_def pending_ok_def)
next
  case (Cons t ts)
  let ?s = "silent_pump c wall t s"
  note st = silent_pump_step [OF Cons.prems(1), where wall = wall and t = t]
  show ?case
  proof (cases "map_of (st_pending ?s) cid")
    case None
    then have "reported_failed ?s" using st(2) [where cid = cid] Cons.prems(2) by simp
    with silent_pumps_keep [OF st(3) None] show ?thesis by (simp add: transport_pump_silent)
  next
    case (Some e')
    then have e': "e' = e\<lparr>pe_attempts := pe_attempts e + 1, pe_next_retry := t + tc_retry_interval c\<rparr>"
      using Cons.prems(2,3) st(1) [where cid = cid] by (auto simp: next_entry_def split: if_splits)
    from Cons.IH [OF st(3) Some] Cons.prems(3,4) show ?thesis
      by (simp add: e' transport_pump_silent)
  qed
qed

text \<open>The tables of the transport stay bounded and consistent in every state it can reach: at most
  \<open>max_pending\<close> transactions, each sent between once and \<open>max_attempts\<close> times and without a terminal
  stage, at most \<open>max_pending\<close> missions being put together, whose items have indices below the announced
  count, and at most \<open>response_history_limit\<close> remembered answers.\<close>

theorem transport_tables_bounded:
  assumes "transport_reach c s" and "1 \<le> tc_max_attempts c"
  shows "length (st_pending s) \<le> tc_max_pending c \<and> length (st_fragments s) \<le> tc_max_pending c
    \<and> length (st_history s) \<le> tc_history_limit c
    \<and> (\<forall>(cid, e) \<in> set (st_pending s). 1 \<le> pe_attempts e \<and> pe_attempts e \<le> tc_max_attempts c \<and> \<not> is_terminal (pe_stage e))
    \<and> (\<forall>(cid, g) \<in> set (st_fragments s). \<forall>i \<in> dom (map_of (fg_items g)). 0 \<le> i \<and> i < fg_item_count g)"
  using transport_reach_inv [OF assms]
  by (auto simp: transport_inv_def pending_ok_def fragment_ok_def)

text \<open>C20: a transaction the slave never answers ends: after at most \<open>max_attempts\<close> passes of \<open>pump\<close>, the
  first when its retry is due and each a retry interval after the one before, it is no longer pending and
  the mission stage is reported as FAILED.\<close>

theorem unanswered_transaction_ends:
  assumes "transport_reach c s" and "1 \<le> tc_max_attempts c" and "map_of (st_pending s) cid = Some e"
    and "spaced (tc_retry_interval c) (pe_next_retry e) ts" and "tc_max_attempts c \<le> length ts"
  shows "map_of (st_pending (silent_pumps c wall n ts s)) cid = None \<and> reported_failed (silent_pumps c wall n ts s)"
proof -
  have inv: "transport_inv c s" by (rule transport_reach_inv [OF assms(1,2)])
  then have "1 \<le> pe_attempts e" using map_of_SomeD [OF assms(3)] by (auto simp: transport_inv_def pending_ok_def)
  with silent_pumps_end [OF inv assms(3,4), where n = n and wall = wall] assms(5) show ?thesis by simp
qed


subsection \<open>A run\<close>

definition sample_transport_config :: transport_config where
  "sample_transport_config = \<lparr>tc_retry_interval = 1 / 2, tc_status_timeout = 3, tc_max_pending = 64, tc_max_attempts = 6,
     tc_history_limit = 256\<rparr>"

definition sample_status :: pydict where
  "sample_status =
     [(''online'', JBool True), (''fc_connected'', JBool True), (''blocked'', JBool False), (''mode'', JStr ''GUIDED''),
      (''armed'', JBool True), (''heartbeat_at'', JInt 9), (''lat'', JInt 30), (''lon'', JInt 120),
      (''position_observed'', JBool True), (''altitude'', JInt 5), (''speed'', JInt 0), (''heading'', JInt 0),
      (''battery'', JInt 80), (''mission_stage'', JStr ''IDLE''), (''mission_id'', JStr []), (''fault'', JStr []),
      (''link_state'', JStr ''ONLINE''), (''event'', no_event (JInt 0) (JInt 0) ''NONE'' [])]"

definition sample_status_message :: pydict where
  "sample_status_message = [(''version'', JInt 1), (''type'', JStr ''status''), (''source'', JStr ''aircraft_2''),
      (''target'', JStr ''rover''), (''command_id'', JStr (uuid_str 5)), (''sequence'', JInt 0),
      (''timestamp'', JInt 9), (''payload'', JObj sample_status)]"

definition sample_land :: cloud_command where
  "sample_land = \<lparr>cc_command_id = 5, cc_timestamp = Fin 10 0, cc_target = ''aircraft_2'', cc_action = ''land'', cc_payload = []\<rparr>"

definition sample_land_message :: pydict where
  "sample_land_message = [(''version'', JInt 1), (''type'', JStr ''command''), (''source'', JStr ''rover''),
      (''target'', JStr ''aircraft_2''), (''command_id'', JStr (uuid_str 5)), (''sequence'', JInt 0),
      (''timestamp'', JInt 10), (''payload'', JObj [(''action'', JStr ''land''), (''parameters'', JObj [])])]"

lemma sample_status_valid: "validate_node_message (JObj sample_status_message) None = None" "json_ok (JObj sample_status_message)"
proof -
  show ok: "json_ok (JObj sample_status_message)"
    by (simp add: sample_status_message_def sample_status_def no_event_def)
  obtain w where w: "canonical_json (JObj sample_status_message) = Inr w" using canonical_json_ok [OF ok] by blast
  have "validate_status (JObj sample_status) = None"
    unfolding validate_status_def Let_def first_error_None_iff
    by (simp add: sample_status_def no_event_def node_ok status_fields_def real_of_def)
  then have p: "validate_node_payload ''status'' (JObj sample_status) = None"
    by (simp add: validate_node_payload_def)
  show "validate_node_message (JObj sample_status_message) None = None"
    unfolding validate_node_message_def Let_def first_error_None_iff
    using w p by (simp add: sample_status_message_def node_checks_ok required_fields_def protocol_version_def
        message_types_def node_ids_def real_of_def)
qed

lemma sample_land_valid: "validate_node_message (JObj sample_land_message) None = None" "json_ok (JObj sample_land_message)"
proof -
  show ok: "json_ok (JObj sample_land_message)" by (simp add: sample_land_message_def)
  obtain w where w: "canonical_json (JObj sample_land_message) = Inr w" using canonical_json_ok [OF ok] by blast
  have p: "validate_node_payload ''command'' (JObj [(''action'', JStr ''land''), (''parameters'', JObj [])]) = None"
    by (simp add: validate_node_payload_def node_ok command_actions_def)
  show "validate_node_message (JObj sample_land_message) None = None"
    unfolding validate_node_message_def Let_def first_error_None_iff
    using w p by (simp add: sample_land_message_def node_checks_ok required_fields_def protocol_version_def
        message_types_def node_ids_def real_of_def)
qed

lemma sample_lengths:
  "map_option (\<lambda>t. length (utf8 t) \<le> 4096) (dumps False (JObj sample_status_message)) = Some True"
  "map_option (\<lambda>t. length (utf8 t) \<le> 4096) (dumps False (JObj sample_land_message)) = Some True"
  by code_simp+

lemma encode_fits:
  assumes "validate_node_message (JObj m) None = None" "map_option (\<lambda>t. length (utf8 t) \<le> 4096) (dumps False (JObj m)) = Some True"
  shows "\<exists>w. encode_node_message m max_datagram_bytes = Inr w"
  using assms by (auto simp: encode_node_message_def canonical_json_def max_datagram_bytes_def)


lemma sample_online:
  obtains s where "transport_reach sample_transport_config s" "transport_online sample_transport_config 1 s"
    "\<not> transport_blocked s" "st_pending s = []" "st_sequence s = 0" "st_history s = []"
proof -
  obtain w where w: "encode_node_message sample_status_message max_datagram_bytes = Inr w"
    using encode_fits [OF sample_status_valid(1) sample_lengths(1)] by blast
  have d: "decode_node_message w (Some ''rover'') max_datagram_bytes = Inr (dict_sorted sample_status_message)"
    by (rule node_decode_encode [OF w sample_status_valid(2)]) (simp add: sample_status_message_def)
  have f: "fld (dict_sorted sample_status_message) k = sort_json (fld sample_status_message k)" for k
    using map_of_dict_sorted [of sample_status_message k]
    by (simp add: fld_def sample_status_message_def)
  then have flds: "fld (dict_sorted sample_status_message) ''source'' = JStr ''aircraft_2''"
    "fld (dict_sorted sample_status_message) ''type'' = JStr ''status''"
    "fld (dict_sorted sample_status_message) ''payload'' = sort_json (JObj sample_status)"
    unfolding f by (simp_all add: sample_status_message_def)
  have g: "map_of (dict_of (sort_json (JObj sample_status))) k = map_option sort_json (map_of sample_status k)" for k
    using map_of_dict_sorted [of sample_status k] by (simp add: dict_of_sort_json sample_status_def)
  let ?s = "transport_init\<lparr>st_rx_packets := 1, st_status := AList.update ''updated_at'' (JInt 10) (dict_of (sort_json (JObj sample_status))),
    st_last_status_at := Some 0\<rparr>"
  have p: "transport_datagram sample_transport_config 0 (JInt 10) w True transport_init = Some ?s"
    by (simp add: transport_datagram_def d flds transport_init_def Let_def)
  have "transport_pump sample_transport_config 0 (JInt 10) 1 [Packet w True] transport_init = Some ?s"
  proof -
    have "transport_receive sample_transport_config 0 (JInt 10) 1 [Packet w True] transport_init = Some ?s"
      unfolding One_nat_def transport_receive.simps by (simp only: p bind.bind_lunit transport_receive.simps One_nat_def)
    moreover have "\<not> status_late sample_transport_config 0 ?s" "st_pending ?s = []"
      by (simp_all add: status_late_def sample_transport_config_def transport_init_def)
    ultimately show ?thesis by (simp only: transport_pump_def option.map Let_def if_False list.map fold_simps)
  qed
  from transport_reach.pump [OF transport_reach.start this]
  have "transport_reach sample_transport_config ?s" .
  moreover have "transport_online sample_transport_config 1 ?s" "\<not> transport_blocked ?s"
    by (simp_all add: transport_online_def transport_blocked_def sample_transport_config_def get_or_def update_conv' g)
      (simp_all add: sample_status_def)
  ultimately show thesis by (intro that [of ?s]) (simp_all add: transport_init_def)
qed

lemma sample_pending:
  obtains s e where "transport_reach sample_transport_config s" "map_of (st_pending s) (uuid_str 5) = Some e"
    "pe_next_retry e = 3 / 2" "pe_mission_id e = []" "st_history s = []"
proof -
  obtain s where s: "transport_reach sample_transport_config s" "transport_online sample_transport_config 1 s"
    "\<not> transport_blocked s" "st_pending s = []" "st_sequence s = 0" "st_history s = []" by (rule sample_online)
  obtain w where w: "encode_node_message sample_land_message max_datagram_bytes = Inr w"
    using encode_fits [OF sample_land_valid(1) sample_lengths(2)] by blast
  let ?id = "identity_of sample_land (JInt 10) 0"
  have m: "build_command_message (JStr ''land'') (Some (JObj [])) ?id = Inr sample_land_message"
    using sample_land_valid(1)
    by (simp add: build_command_message_def make_with_def make_node_message_def identity_of_def sample_land_def
        sample_land_message_def protocol_version_def)
  have ms: "messages_for sample_land (JInt 10) s = Inr [Inr sample_land_message]"
    using m s(5) by (simp add: messages_for_def sample_land_def seq_from_def u32_mask_def)
  let ?r = "transport_execute sample_transport_config 1 (JInt 10) sample_land s"
  have "map_of (st_pending (snd ?r)) (uuid_str 5) = Some \<lparr>pe_wires = [w], pe_next_retry = 3 / 2, pe_stage = ''QUEUED'',
      pe_mission_id = [], pe_attempts = 1\<rparr> \<and> st_history (snd ?r) = []"
    using s ms w
    by (simp add: transport_execute_def sample_land_def queue_command_def sample_transport_config_def get_or_def Let_def)
  with transport_reach.execute [OF s(1), of 1 "JInt 10" sample_land] that show thesis by fastforce
qed

theorem transport_tables_bounded_witness:
  "\<exists>s e. transport_reach sample_transport_config s \<and> map_of (st_pending s) (uuid_str 5) = Some e \<and> length (st_pending s) \<le> 64"
proof -
  obtain s e where "transport_reach sample_transport_config s" "map_of (st_pending s) (uuid_str 5) = Some e"
    by (rule sample_pending)
  with transport_tables_bounded [of sample_transport_config s] show ?thesis by (auto simp: sample_transport_config_def)
qed

theorem unanswered_transaction_ends_witness:
  "\<exists>s e. transport_reach sample_transport_config s \<and> map_of (st_pending s) (uuid_str 5) = Some e
     \<and> map_of (st_pending (silent_pumps sample_transport_config (JInt 10) 64 [3/2, 2, 5/2, 3, 7/2, 4] s)) (uuid_str 5) = None"
proof -
  obtain s e where s: "transport_reach sample_transport_config s" "map_of (st_pending s) (uuid_str 5) = Some e"
    "pe_next_retry e = 3 / 2" by (rule sample_pending)
  have "spaced (tc_retry_interval sample_transport_config) (pe_next_retry e) [3/2, 2, 5/2, 3, 7/2, 4]"
    by (simp add: sample_transport_config_def s(3))
  from unanswered_transaction_ends [OF s(1) _ s(2) this] s show ?thesis by (auto simp: sample_transport_config_def)
qed

end
