(* ===== verification/RetryProps.thy ===== *)
theory RetryProps
  imports SlaveTransportProps QueueProps
begin

text \<open>
  Both ends of the transaction channel between the rover and the slave aircraft together: what a
  retransmitted mission meets in the slave's queue after its commit was taken, and what the rover
  makes of the answer.
\<close>

subsection \<open>The keys of the staged missions\<close>

definition staged_keyed :: "inbox_state \<Rightarrow> bool" where
  "staged_keyed st \<longleftrightarrow> (\<forall>k m. map_of (i_staged st) k = Some m \<longrightarrow>
     (\<exists>u. st_command_id m = uuid_str u \<and> k = mission_key u (str_of (st_mission_id m))))"

lemma staged_keyed_cong: "staged_keyed st \<Longrightarrow> i_staged st' = i_staged st \<Longrightarrow> staged_keyed st'"
  by (simp add: staged_keyed_def)

lemma map_sum_Inr: "map_sum id f x = Inr y \<longleftrightarrow> (\<exists>z. x = Inr z \<and> y = f z)"
  by (cases x) auto

lemma stage_begin_keyed: "stage_begin lm f st = Inr st' \<Longrightarrow> staged_keyed st \<Longrightarrow> staged_keyed st'"
  by (auto simp: stage_begin_def Let_def frame_key_def staged_keyed_def update_conv' uuid_str_inj split: option.splits if_splits)

lemma stage_item_keyed: "stage_item f st = Inr st' \<Longrightarrow> staged_keyed st \<Longrightarrow> staged_keyed st'"
  by (auto simp: stage_item_def Let_def staged_keyed_def update_conv' split: option.splits if_splits)

lemma enqueue_staged: "enqueue lm j st = Inr st' \<Longrightarrow> i_staged st' = i_staged st"
  by (auto simp: enqueue_def split: if_splits)

lemma stage_commit_staged:
  assumes "stage_commit lm f st = Inr st'"
  shows "i_staged st' = AList.delete (frame_key f) (i_staged st)"
proof -
  obtain m ck st1 where e: "enqueue lm (MissionJob (uuid_str (f_command_id f)) (str_of (fld (f_payload f) ''mission_id''))
      (staged_list m) ck) st = Inr st1" "st' = st1\<lparr>i_staged := AList.delete (frame_key f) (i_staged st1)\<rparr>"
    using assms by (auto simp: stage_commit_def Let_def map_sum_Inr split: option.splits if_splits sum.splits)
  with enqueue_staged [OF e(1)] show ?thesis by simp
qed

lemma stage_commit_keyed: "stage_commit lm f st = Inr st' \<Longrightarrow> staged_keyed st \<Longrightarrow> staged_keyed st'"
  by (auto simp: stage_commit_staged staged_keyed_def AList.delete_conv')

lemma apply_frame_keyed: "apply_frame lm f st = Inr (sg, st') \<Longrightarrow> staged_keyed st \<Longrightarrow> staged_keyed st'"
  by (cases "f_type f")
    (auto simp: apply_frame_def map_sum_Inr dest: stage_begin_keyed stage_item_keyed stage_commit_keyed
      staged_keyed_cong [OF _ enqueue_staged])

definition inbox_keyed :: "inbox \<Rightarrow> bool" where
  "inbox_keyed b \<longleftrightarrow> staged_keyed (mem b) \<and> staged_keyed (disk b)"

lemma persist_keyed: "persist sv b st = (ok, b') \<Longrightarrow> inbox_keyed b \<Longrightarrow> staged_keyed st \<Longrightarrow> inbox_keyed b'"
  by (cases sv) (auto simp: persist_def inbox_keyed_def)

lemma remember_staged [simp]: "i_staged (remember lm i fp sg st) = i_staged st"
  by (simp add: remember_def)

lemma next_job_staged [simp]: "i_staged (next_job st) = i_staged st"
  by (simp add: next_job_def split: list.split)

lemma inbox_accept_keyed: "inbox_keyed b \<Longrightarrow> inbox_keyed (snd (inbox_accept lm sv b f))"
proof (cases "inbox_accept lm sv b f")
  case (Pair r b')
  assume k: "inbox_keyed b"
  from Pair show ?thesis
  proof (cases rule: inbox_accept_cases)
    case (new fp sg st)
    have "staged_keyed (remember lm (frame_identity f) fp sg st)"
      using apply_frame_keyed [OF new(4)] k by (simp add: staged_keyed_def inbox_keyed_def)
    with new(5) Pair k show ?thesis by (auto split: prod.splits bool.splits dest: persist_keyed)
  qed (use k Pair in simp_all)
qed

lemma finish_active_keyed: "inbox_keyed b \<Longrightarrow> inbox_keyed (snd (finish_active lm sv b stage detail extra))"
proof -
  assume k: "inbox_keyed b"
  have "staged_keyed (next_job (mem b)\<lparr>i_results := r\<rparr>)" for r
    using k by (simp add: staged_keyed_def inbox_keyed_def)
  with k show ?thesis
    by (auto simp: finish_active_def Let_def split: option.split prod.split bool.split dest: persist_keyed)
qed

lemma complete_active_keyed: "inbox_keyed b \<Longrightarrow> inbox_keyed (snd (complete_active sv b))"
proof -
  assume k: "inbox_keyed b"
  have "staged_keyed (next_job (mem b))"
    using k by (simp add: staged_keyed_def inbox_keyed_def)
  with k show ?thesis by (cases sv) (auto simp: complete_active_def inbox_keyed_def Let_def split: option.splits)
qed

lemma inbox_reach_keyed: "inbox_reach lm b \<Longrightarrow> inbox_keyed b"
proof (induction rule: inbox_reach.induct)
  case (start b)
  then show ?case by (auto simp: inbox_init_def Let_def inbox_keyed_def staged_keyed_def empty_inbox_def split: if_splits option.splits)
next
  case (restart b b')
  then show ?case by (auto simp: inbox_init_def Let_def inbox_keyed_def split: if_splits option.splits)
qed (simp_all add: inbox_accept_keyed finish_active_keyed complete_active_keyed)


subsection \<open>A committed mission is no longer staged\<close>

lemma commit_unstages:
  assumes "inbox_accept lm sv b f = (Inr r, b')" "\<not> ir_duplicate r" "f_type f = MISSION_COMMIT"
  shows "map_of (i_staged (mem b')) (frame_key f) = None"
proof -
  obtain sg st fp where a: "apply_frame lm f (mem b) = Inr (sg, st)" "mem b' = remember lm (frame_identity f) fp sg st"
    using assms(1,2) by (rule accept_new)
  then show ?thesis
    using assms(3) by (auto simp: apply_frame_def map_sum_Inr stage_commit_staged AList.delete_conv')
qed

lemma queue_frame_ok:
  assumes "queue_frame m ty p = Inr f" "msg_str m ''command_id'' = uuid_str u"
  shows "f_type f = ty \<and> f_command_id f = u \<and> f_payload f = p"
  using assms by (auto simp: queue_frame_def make_frame_def Let_def split: sum.splits option.splits if_splits)

lemma staged_view_id:
  assumes "inbox_keyed (nq_inbox s)" "staged_mission s (uuid_str u) mid = Some mi"
  shows "str_of (st_mission_id mi) = mid"
proof -
  obtain v where "uuid_str u @ '':'' @ mid = mission_key v (str_of (st_mission_id mi))"
    using assms unfolding inbox_keyed_def staged_keyed_def staged_mission_def by blast
  then show ?thesis by (simp add: mission_key_def)
qed

lemma commit_view_id:
  assumes "inbox_keyed (nq_inbox s)" "commit_view_of s (uuid_str u) mid = Some v"
  shows "str_of (cv_mission_id v) = mid"
proof (cases "staged_mission s (uuid_str u) mid")
  case (Some mi)
  with staged_view_id [OF assms(1) Some] assms(2) show ?thesis by (auto simp: commit_view_of_def)
next
  case None
  then obtain c' m' its ck where j: "queued_mission s (uuid_str u) mid = Some (MissionJob c' m' its ck)"
    using assms(2) by (auto simp: commit_view_of_def split: option.splits job.splits)
  then have "is_mission (uuid_str u) mid (MissionJob c' m' its ck)" unfolding queued_mission_def by (metis find_Some_iff)
  then have "m' = mid" by simp
  with None j assms(2) show ?thesis by (auto simp: commit_view_of_def)
qed

lemma node_commit_unstages:
  assumes "node_commit c e m s = (Inr a, s')" "\<not> ac_duplicate a" "inbox_keyed (nq_inbox s)"
    and "msg_str m ''command_id'' = uuid_str u"
  shows "staged_mission s' (uuid_str u) (msg_str (msg_payload m) ''mission_id'') = None"
proof -
  let ?mid = "msg_str (msg_payload m) ''mission_id''"
  obtain v ck where v: "commit_view_of s (uuid_str u) ?mid = Some v"
    and a: "accept_frame c e (queue_frame m MISSION_COMMIT
      [(''mission_id'', cv_mission_id v), (''item_count'', JInt (cv_count v)), (''checksum'', JStr ck)]) ''QUEUED'' s = (Inr a, s')"
    using assms(1,4) by (auto simp: node_commit_def Let_def split: option.splits if_splits sum.splits)
  then obtain f r b where f: "queue_frame m MISSION_COMMIT
      [(''mission_id'', cv_mission_id v), (''item_count'', JInt (cv_count v)), (''checksum'', JStr ck)] = Inr f"
    and b: "inbox_accept (qc_limits c) (q_inbox_save e) (nq_inbox s) f = (Inr r, b)" "\<not> ir_duplicate r" "s' = s\<lparr>nq_inbox := b\<rparr>"
    using assms(2) by (auto simp: accept_frame_def split: sum.splits prod.splits)
  have fo: "f_type f = MISSION_COMMIT" "frame_key f = uuid_str u @ '':'' @ ?mid"
    using queue_frame_ok [OF f assms(4)] commit_view_id [OF assms(3) v]
    by (simp_all add: frame_key_def mission_key_def fld_def)
  show ?thesis using commit_unstages [OF b(1,2) fo(1)] fo(2) b(3) by (simp add: staged_mission_def)
qed

lemma queue_accept_commit_unstages:
  assumes "queue_accept c e msg s = (Inr a, s')" "\<not> ac_duplicate a" "inbox_keyed (nq_inbox s)"
    and "msg_str (dict_of msg) ''type'' = ''mission_commit''" "msg_str (dict_of msg) ''command_id'' = uuid_str u"
  shows "staged_mission s' (uuid_str u) (msg_str (msg_payload (dict_of msg)) ''mission_id'') = None"
  using assms(1)
proof (cases rule: queue_accept_cases)
  case (again a' s2 s3)
  with deduplicate_dup [OF again(5)] assms(2) show ?thesis by simp
next
  case (fresh s2)
  let ?m = "dict_of msg"
  have t: "tracked ?m" using assms(4) by (simp add: tracked_def)
  from fresh(5) [unfolded queue_new_def] show ?thesis
  proof (cases rule: nq_then_cases)
    case (ok u' s1)
    have i: "inbox_keyed (nq_inbox s1)" using ok(1) t fresh(2) assms(3) by (auto dest: record_delivery_inbox)
    obtain q s4 where q: "accept_locked c e ?m s1 = (q, s4)" by (cases "accept_locked c e ?m s1")
    with ok(2) t have "q = Inr a \<and> s' = emit_stage (ac_stage a) ?m s4"
      by (cases q) (auto dest: roll_back_fields)
    with q have "node_commit c e ?m s1 = (Inr a, s4)" "nq_inbox s' = nq_inbox s4"
      using assms(4) by (auto simp: accept_locked_def)
    with node_commit_unstages [OF this(1) assms(2) i assms(5)] show ?thesis by (simp add: staged_mission_def)
  qed simp
qed simp_all

text \<open>once the slave has queued a mission, an item of that mission that is sent again is refused with
  mission_not_found, because the commit removed the staged mission: \<open>accept\<close> treats only commands and
  commits as possible retransmissions, not the items.\<close>

theorem retried_item_after_commit_refused:
  assumes "inbox_reach (qc_limits c) (nq_inbox s)" and "queue_accept c e commit s = (Inr a, s')" and "\<not> ac_duplicate a"
    and "fld (dict_of commit) ''type'' = JStr ''mission_commit''" and "fld (dict_of commit) ''command_id'' = JStr (uuid_str u)"
    and "validate_node_message item (Some ''aircraft_2'') = None" and "fld (dict_of item) ''source'' = JStr ''rover''"
    and "fld (dict_of item) ''type'' = JStr ''mission_item''" and "fld (dict_of item) ''command_id'' = JStr (uuid_str u)"
    and "fld (msg_payload (dict_of item)) ''mission_id'' = fld (msg_payload (dict_of commit)) ''mission_id''"
    and "q_allows e' \<noteq> Some False" and "message_age (q_now e') (dict_of item) s' = (age, s1)"
    and "age \<le> qc_max_age c" and "- qc_max_skew c \<le> age"
  shows "fst (queue_accept c e' item s') = Inl (CommandRejected ''mission_not_found'' [])"
proof -
  have "staged_mission s' (uuid_str u) (msg_str (msg_payload (dict_of item)) ''mission_id'') = None"
    using queue_accept_commit_unstages [OF assms(2,3) inbox_reach_keyed [OF assms(1)]] assms(4,5,10) by (simp add: msg_str_def)
  moreover have "nq_inbox (emit_stage ''RECEIVED'' (dict_of item) s1) = nq_inbox s'"
    using message_age_fields [OF assms(12)] by simp
  ultimately show ?thesis
    using assms(6-9,11-14)
    by (simp add: queue_accept_def queue_new_def nq_then_def accept_locked_def node_item_def staged_mission_def
        msg_str_def tracked_def Let_def)
qed

subsection \<open>The answer at the rover\<close>

lemma apply_response_failed:
  "response_stage m = ''FAILED'' \<Longrightarrow> reported_failed (apply_response m s)"
  by (simp add: apply_response_def Let_def reported_failed_def set_status_def set_mission_def update_conv')

lemma nack_applied:
  assumes "decode_node_message w (Some ''rover'') max_datagram_bytes = Inr m" and "fld m ''source'' = JStr ''aircraft_2''"
    and "fld m ''type'' = JStr ''nack''" and "fld m ''command_id'' = JStr cid" and "map_of (st_pending s) cid \<noteq> None"
    and "response_key_of m \<notin> set (st_history s)"
  obtains s' where "transport_datagram c now wall w True s = Some s'" "map_of (st_pending s') cid = None" "reported_failed s'"
proof -
  let ?s = "remember_response c (response_key_of m) (s\<lparr>st_rx_packets := st_rx_packets s + 1\<rparr>)"
  have t: "transport_datagram c now wall w True s = Some (apply_response m ?s)"
    using assms by (auto simp: transport_datagram_def Let_def)
  have f: "response_stage m = ''FAILED''" using assms(3) by (simp add: response_stage_def)
  have "map_of (st_pending (apply_response m ?s)) cid = None"
    using assms(4) f
    by (auto simp: apply_response_def is_terminal_def AList.delete_conv' remember_response_def Let_def split: option.splits)
  with that t apply_response_failed [OF f] show thesis by blast
qed

lemma late_ack_dropped:
  assumes "map_of (st_pending s) cid = None" "decode_node_message w (Some ''rover'') max_datagram_bytes = Inr m"
    and "fld m ''type'' = JStr ''ack''" "fld m ''command_id'' = JStr cid" "transport_datagram c now wall w ok s = Some s'"
  shows "st_status s' = st_status s"
  using assms by (auto simp: transport_datagram_def invalid_packet_def Let_def split: if_splits)

text \<open>A refusal ends a transaction at the rover for good: a nack for a pending command id, such as
  the answer to a repeated mission item, makes the rover forget the transaction and report FAILED, and an
  acknowledgement that arrives afterwards, VERIFIED included, does not change the reported status.\<close>

theorem nack_is_final:
  assumes "decode_node_message w (Some ''rover'') max_datagram_bytes = Inr m" and "fld m ''source'' = JStr ''aircraft_2''"
    and "fld m ''type'' = JStr ''nack''" and "fld m ''command_id'' = JStr cid" and "map_of (st_pending s) cid \<noteq> None"
    and "response_key_of m \<notin> set (st_history s)"
    and "decode_node_message w' (Some ''rover'') max_datagram_bytes = Inr m'"
    and "fld m' ''type'' = JStr ''ack''" and "fld m' ''command_id'' = JStr cid"
  shows "\<exists>s'. transport_datagram c now wall w True s = Some s' \<and> map_of (st_pending s') cid = None \<and> reported_failed s'
    \<and> (\<forall>s''. transport_datagram c now' wall' w' ok s' = Some s'' \<longrightarrow> st_status s'' = st_status s')"
  using nack_applied [OF assms(1-6), of c now wall] late_ack_dropped [OF _ assms(7-9)] by metis

subsection \<open>Runs\<close>

lemma wire_decodes:
  assumes "validate_node_message (JObj m) None = None" "json_ok (JObj m)" "fld m ''target'' = JStr ''rover''"
    and "map_option (\<lambda>t. length (utf8 t) \<le> 4096) (dumps False (JObj m)) = Some True"
  shows "\<exists>w. decode_node_message w (Some ''rover'') max_datagram_bytes = Inr (dict_sorted m)"
  using encode_fits [OF assms(1,4)] node_decode_encode [OF _ assms(2)] assms(3) by blast

definition sample_answer :: "string \<Rightarrow> pydict \<Rightarrow> pydict" where
  "sample_answer ty p = [(''version'', JInt 1), (''type'', JStr ty), (''source'', JStr ''aircraft_2''),
      (''target'', JStr ''rover''), (''command_id'', JStr (uuid_str 5)), (''sequence'', JInt 7),
      (''timestamp'', JInt 9), (''payload'', JObj p)]"

lemma sample_answer_valid:
  assumes "validate_node_payload ty (JObj p) = None" "ty \<in> set message_types" "json_ok (JObj p)" "json_ok (JStr ty)"
  shows "validate_node_message (JObj (sample_answer ty p)) None = None \<and> json_ok (JObj (sample_answer ty p))"
proof
  show ok: "json_ok (JObj (sample_answer ty p))" using assms(3,4) by (simp add: sample_answer_def)
  obtain w where w: "canonical_json (JObj (sample_answer ty p)) = Inr w" using canonical_json_ok [OF ok] by blast
  show "validate_node_message (JObj (sample_answer ty p)) None = None"
    unfolding validate_node_message_def Let_def first_error_None_iff
    using w assms(1,2) by (simp add: sample_answer_def node_checks_ok required_fields_def protocol_version_def
        node_ids_def real_of_def)
qed

lemma sample_answer_target: "fld (sample_answer ty p) ''target'' = JStr ''rover''"
  by (simp add: sample_answer_def)

lemma sample_answer_fields:
  "fld (dict_sorted (sample_answer ty p)) ''source'' = JStr ''aircraft_2''"
  "fld (dict_sorted (sample_answer ty p)) ''type'' = JStr ty"
  "fld (dict_sorted (sample_answer ty p)) ''command_id'' = JStr (uuid_str 5)"
  by (simp_all add: fld_def map_of_dict_sorted sample_answer_def)

lemma sample_answers:
  obtains w w' where
    "decode_node_message w (Some ''rover'') max_datagram_bytes = Inr (dict_sorted (sample_answer ''nack'' [(''reason'', JStr ''mission_not_found'')]))"
    "decode_node_message w' (Some ''rover'') max_datagram_bytes = Inr (dict_sorted (sample_answer ''ack'' [(''stage'', JStr ''VERIFIED'')]))"
proof -
  have n: "validate_node_payload ''nack'' (JObj [(''reason'', JStr ''mission_not_found'')]) = None"
    "validate_node_payload ''ack'' (JObj [(''stage'', JStr ''VERIFIED'')]) = None"
    by (simp_all add: validate_node_payload_def node_ok transaction_stages_def)
  have l: "map_option (\<lambda>t. length (utf8 t) \<le> 4096) (dumps False (JObj (sample_answer ''nack'' [(''reason'', JStr ''mission_not_found'')]))) = Some True"
    "map_option (\<lambda>t. length (utf8 t) \<le> 4096) (dumps False (JObj (sample_answer ''ack'' [(''stage'', JStr ''VERIFIED'')]))) = Some True"
    by code_simp+
  note v = sample_answer_valid [OF n(1)] sample_answer_valid [OF n(2)]
  have "\<exists>w. decode_node_message w (Some ''rover'') max_datagram_bytes
        = Inr (dict_sorted (sample_answer ''nack'' [(''reason'', JStr ''mission_not_found'')]))"
    by (rule wire_decodes [OF _ _ sample_answer_target l(1)]; use v(1) in \<open>simp add: message_types_def\<close>)
  moreover have "\<exists>w. decode_node_message w (Some ''rover'') max_datagram_bytes
        = Inr (dict_sorted (sample_answer ''ack'' [(''stage'', JStr ''VERIFIED'')]))"
    by (rule wire_decodes [OF _ _ sample_answer_target l(2)]; use v(2) in \<open>simp add: message_types_def\<close>)
  ultimately show thesis using that by blast
qed

theorem nack_is_final_witness:
  "\<exists>s e w s'. transport_reach sample_transport_config s \<and> map_of (st_pending s) (uuid_str 5) = Some e
     \<and> transport_datagram sample_transport_config 2 (JInt 11) w True s = Some s' \<and> reported_failed s'"
proof -
  obtain s e where s: "transport_reach sample_transport_config s" "map_of (st_pending s) (uuid_str 5) = Some e" "st_history s = []"
    by (rule sample_pending)
  obtain w w' where w:
    "decode_node_message w (Some ''rover'') max_datagram_bytes = Inr (dict_sorted (sample_answer ''nack'' [(''reason'', JStr ''mission_not_found'')]))"
    "decode_node_message w' (Some ''rover'') max_datagram_bytes = Inr (dict_sorted (sample_answer ''ack'' [(''stage'', JStr ''VERIFIED'')]))"
    by (rule sample_answers)
  from nack_is_final [OF w(1) sample_answer_fields _ _ w(2) sample_answer_fields(2,3)] s
  show ?thesis by fastforce
qed

definition empty_digest :: string where
  "empty_digest = sha256_hex (utf8 ''[]'')"

definition sample_begin :: frame where
  "sample_begin = \<lparr>f_type = MISSION_BEGIN, f_flags = 0, f_sequence = 1, f_command_id = 5,
     f_payload = [(''mission_id'', JStr ''M''), (''item_count'', JInt 0), (''vehicle'', JStr ''aircraft''),
       (''checksum'', JStr empty_digest)]\<rparr>"

definition rover_message :: "string \<Rightarrow> int \<Rightarrow> pydict \<Rightarrow> pydict" where
  "rover_message ty sq p = [(''version'', JInt 1), (''type'', JStr ty), (''source'', JStr ''rover''),
      (''target'', JStr ''aircraft_2''), (''command_id'', JStr (uuid_str 5)), (''sequence'', JInt sq),
      (''timestamp'', JInt 10), (''payload'', JObj p)]"

lemma rover_message_valid:
  assumes "validate_node_payload ty (JObj p) = None" "ty \<in> set message_types" "json_ok (JObj p)" "json_ok (JStr ty)"
    and "0 \<le> sq" "sq \<le> 0xFFFFFFFF"
  shows "validate_node_message (JObj (rover_message ty sq p)) (Some ''aircraft_2'') = None"
proof -
  have ok: "json_ok (JObj (rover_message ty sq p))" using assms(3,4) by (simp add: rover_message_def)
  obtain w where w: "canonical_json (JObj (rover_message ty sq p)) = Inr w" using canonical_json_ok [OF ok] by blast
  show ?thesis
    unfolding validate_node_message_def Let_def first_error_None_iff
    using w assms by (simp add: rover_message_def node_checks_ok required_fields_def protocol_version_def
        node_ids_def real_of_def)
qed

definition sample_commit :: pydict where
  "sample_commit = rover_message ''mission_commit'' 2
     [(''mission_id'', JStr ''M''), (''item_count'', JInt 0), (''digest'', JStr empty_digest)]"

definition sample_item :: pydict where
  "sample_item = rover_message ''mission_item'' 1 [(''mission_id'', JStr ''M''), (''index'', JInt 0),
     (''item'', JObj [(''index'', JInt 0), (''lat'', JInt 1), (''lon'', JInt 2), (''alt'', JInt 5)])]"

lemma empty_digest_hex: "is_sha_hex empty_digest"
  by (simp add: empty_digest_def is_sha_hex_def sha256_hex_lower)

lemma sample_mission_valid:
  "validate_node_message (JObj sample_commit) (Some ''aircraft_2'') = None"
  "validate_node_message (JObj sample_item) (Some ''aircraft_2'') = None"
proof -
  show "validate_node_message (JObj sample_commit) (Some ''aircraft_2'') = None"
    unfolding sample_commit_def using empty_digest_hex
    by (intro rover_message_valid) (simp_all add: validate_node_payload_def node_ok message_types_def)
  have "validate_node_item (JObj [(''index'', JInt 0), (''lat'', JInt 1), (''lon'', JInt 2), (''alt'', JInt 5)]) 0 = None"
    by (simp add: validate_node_item_def node_ok real_of_def)
  then show "validate_node_message (JObj sample_item) (Some ''aircraft_2'') = None"
    unfolding sample_item_def
    by (intro rover_message_valid) (simp_all add: validate_node_payload_def node_ok message_types_def)
qed

lemma sample_begun:
  obtains b fp where "inbox_reach small_limits b"
    "mem b = empty_inbox\<lparr>i_staged := [(uuid_str 5 @ '':M'', \<lparr>st_command_id = uuid_str 5, st_mission_id = JStr ''M'', st_item_count = 0,
        st_vehicle = JStr ''aircraft'', st_checksum = JStr empty_digest, st_items = []\<rparr>)],
      i_seen := [\<lparr>se_id = frame_identity sample_begin, se_fingerprint = fp, se_stage = ''MISSION_STAGING''\<rparr>]\<rparr>"
proof -
  obtain fp where fp: "fingerprint sample_begin = Inr fp"
    using fingerprint_total [of sample_begin] by (auto simp: sample_begin_def)
  have v: "validate_payload MISSION_BEGIN (JObj (f_payload sample_begin)) = None"
    using empty_digest_hex by (simp add: sample_begin_def validate_payload_def check_ok max_mission_items_def)
  let ?b = "inbox_accept small_limits Saved \<lparr>mem = empty_inbox, disk = empty_inbox\<rparr> sample_begin"
  have f: "f_type sample_begin = MISSION_BEGIN" "f_command_id sample_begin = 5" by (simp_all add: sample_begin_def)
  have "mem (snd ?b) = empty_inbox\<lparr>i_staged := [(uuid_str 5 @ '':M'', \<lparr>st_command_id = uuid_str 5, st_mission_id = JStr ''M'',
        st_item_count = 0, st_vehicle = JStr ''aircraft'', st_checksum = JStr empty_digest, st_items = []\<rparr>)],
      i_seen := [\<lparr>se_id = frame_identity sample_begin, se_fingerprint = fp, se_stage = ''MISSION_STAGING''\<rparr>]\<rparr>"
    using fp v f
    by (simp add: inbox_accept_def empty_inbox_def apply_frame_def stage_begin_def persist_def remember_def small_limits_def
        Let_def last_n_def frame_key_def mission_key_def)
      (simp add: sample_begin_def get_or_def fld_def)
  with inbox_reach.accept [OF inbox_reach.start [OF fresh_inbox]] that show thesis by blast
qed

lemma sample_commit_fields:
  "fld sample_commit ''type'' = JStr ''mission_commit''" "fld sample_commit ''source'' = JStr ''rover''"
  "fld sample_commit ''command_id'' = JStr (uuid_str 5)" "fld sample_commit ''sequence'' = JInt 2"
  "fld sample_commit ''timestamp'' = JInt 10"
  "msg_payload sample_commit = [(''mission_id'', JStr ''M''), (''item_count'', JInt 0), (''digest'', JStr empty_digest)]"
  by (simp_all add: sample_commit_def rover_message_def msg_payload_def)

lemma sample_item_fields:
  "fld sample_item ''type'' = JStr ''mission_item''" "fld sample_item ''source'' = JStr ''rover''"
  "fld sample_item ''command_id'' = JStr (uuid_str 5)" "fld sample_item ''timestamp'' = JInt 10"
  "fld (msg_payload sample_item) ''mission_id'' = JStr ''M''"
  by (simp_all add: sample_item_def rover_message_def msg_payload_def)

definition sample_commit_frame :: frame where
  "sample_commit_frame = \<lparr>f_type = MISSION_COMMIT, f_flags = 0, f_sequence = 2, f_command_id = 5,
     f_payload = [(''mission_id'', JStr ''M''), (''item_count'', JInt 0), (''checksum'', JStr empty_digest)]\<rparr>"

lemma sample_commit_inbox:
  assumes "mem b = empty_inbox\<lparr>i_staged := [(uuid_str 5 @ '':M'', \<lparr>st_command_id = uuid_str 5, st_mission_id = JStr ''M'', st_item_count = 0,
        st_vehicle = JStr ''aircraft'', st_checksum = JStr empty_digest, st_items = []\<rparr>)],
      i_seen := [\<lparr>se_id = frame_identity sample_begin, se_fingerprint = fp, se_stage = ''MISSION_STAGING''\<rparr>]\<rparr>"
  obtains b' where "inbox_accept small_limits Saved b sample_commit_frame
    = (Inr \<lparr>ir_acked_sequence = 2, ir_stage = ''MISSION_STAGED'', ir_duplicate = False\<rparr>, b')"
proof -
  obtain fp' where fp: "fingerprint sample_commit_frame = Inr fp'"
    using fingerprint_total [of sample_commit_frame] by (auto simp: sample_commit_frame_def)
  have v: "validate_payload MISSION_COMMIT (JObj (f_payload sample_commit_frame)) = None"
    using empty_digest_hex by (simp add: sample_commit_frame_def validate_payload_def check_ok max_mission_items_def)
  have k: "frame_key sample_commit_frame = uuid_str 5 @ '':M''" "f_type sample_commit_frame = MISSION_COMMIT"
    "f_sequence sample_commit_frame = 2" "fld (f_payload sample_commit_frame) ''item_count'' = JInt 0"
    "get_or (f_payload sample_commit_frame) ''checksum'' (JStr []) = JStr empty_digest"
    by (simp_all add: frame_key_def mission_key_def sample_commit_frame_def fld_def get_or_def)
  have n: "frame_identity sample_commit_frame \<noteq> frame_identity sample_begin"
    by (simp add: frame_identity_def sample_commit_frame_def sample_begin_def) code_simp
  have d: "ascii_digest (JArr []) = Inr empty_digest"
    by (simp add: ascii_digest_def empty_digest_def dumps_def)
  have e: "empty_digest \<noteq> []" by (simp add: empty_digest_def)
  have "\<exists>st. stage_commit small_limits sample_commit_frame (mem b) = Inr st"
    using assms k d e
    by (simp add: stage_commit_def staged_missing_def staged_list_def str_or_def enqueue_def small_limits_def empty_inbox_def)
  then obtain st where "stage_commit small_limits sample_commit_frame (mem b) = Inr st" ..
  with that fp v n k assms show thesis
    by (simp add: inbox_accept_def apply_frame_def persist_def)
qed

lemma sample_commit_taken:
  obtains b a s' where "inbox_reach small_limits b" "\<not> ac_duplicate a" "nq_offset s' = Some 90"
    "queue_accept sample_queue_config (queue_env_at 100) (JObj sample_commit) (sample_queue\<lparr>nq_inbox := b\<rparr>) = (Inr a, s')"
proof -
  obtain b fp where r: "inbox_reach small_limits b" and b:
    "mem b = empty_inbox\<lparr>i_staged := [(uuid_str 5 @ '':M'', \<lparr>st_command_id = uuid_str 5, st_mission_id = JStr ''M'', st_item_count = 0,
        st_vehicle = JStr ''aircraft'', st_checksum = JStr empty_digest, st_items = []\<rparr>)],
      i_seen := [\<lparr>se_id = frame_identity sample_begin, se_fingerprint = fp, se_stage = ''MISSION_STAGING''\<rparr>]\<rparr>"
    by (rule sample_begun)
  obtain b' where b': "inbox_accept small_limits Saved b sample_commit_frame
    = (Inr \<lparr>ir_acked_sequence = 2, ir_stage = ''MISSION_STAGED'', ir_duplicate = False\<rparr>, b')"
    using b by (rule sample_commit_inbox)
  have qf: "queue_frame sample_commit MISSION_COMMIT
      [(''mission_id'', JStr ''M''), (''item_count'', JInt 0), (''checksum'', JStr empty_digest)] = Inr sample_commit_frame"
    by (simp add: queue_frame_def msg_str_def sample_commit_fields make_frame_def sample_commit_frame_def)
  have md: "mission_digest [] = Inr empty_digest" and ad: "ascii_digest (JArr []) = Inr empty_digest"
    by (simp_all add: mission_digest_def canonical_json_def dumps_def empty_digest_def ascii_digest_def)
  have nc: "node_commit sample_queue_config (queue_env_at 100) sample_commit s
      = (Inr \<lparr>ac_stage = ''QUEUED'', ac_duplicate = False, ac_sequence = 2\<rparr>, s\<lparr>nq_inbox := b'\<rparr>)" if "nq_inbox s = b" for s
    using that b b' qf md ad
    by (simp add: node_commit_def commit_view_of_def staged_mission_def msg_str_def sample_commit_fields staged_list_def
        accept_frame_def sample_queue_config_def queue_env_at_def Let_def)
  obtain dfp where dfp: "delivery_fingerprint sample_commit = Inr dfp"
    using dumps_total [of "JObj [(''type'', fld sample_commit ''type''), (''payload'', fld sample_commit ''payload'')]" True]
    by (auto simp: delivery_fingerprint_def ascii_digest_def msg_str_def sample_commit_fields sample_commit_def rover_message_def fld_def)
  have "\<exists>a s'. queue_accept sample_queue_config (queue_env_at 100) (JObj sample_commit) (sample_queue\<lparr>nq_inbox := b\<rparr>) = (Inr a, s')
      \<and> \<not> ac_duplicate a \<and> nq_offset s' = Some 90"
    using dfp sample_mission_valid(1)
    by (simp add: queue_accept_def queue_new_def nq_then_def accept_locked_def msg_str_def sample_commit_fields tracked_def
        message_age_def real_of_def queue_env_at_def [of 100] deduplicate_delivery_def record_delivery_def save_delivery_def
        emit_stage_def sample_queue_config_def sample_queue_def Let_def nc [unfolded sample_queue_config_def queue_env_at_def])
  with r that show thesis by blast
qed

theorem retried_item_after_commit_refused_witness:
  "\<exists>b a s'. queue_accept sample_queue_config (queue_env_at 100) (JObj sample_commit) (sample_queue\<lparr>nq_inbox := b\<rparr>) = (Inr a, s')
     \<and> fst (queue_accept sample_queue_config (queue_env_at 100) (JObj sample_item) s') = Inl (CommandRejected ''mission_not_found'' [])"
proof -
  obtain b a s' where r: "inbox_reach small_limits b" "\<not> ac_duplicate a" "nq_offset s' = Some 90"
    and a: "queue_accept sample_queue_config (queue_env_at 100) (JObj sample_commit) (sample_queue\<lparr>nq_inbox := b\<rparr>) = (Inr a, s')"
    by (rule sample_commit_taken)
  have l: "qc_limits sample_queue_config = small_limits" by (simp add: sample_queue_config_def)
  have age: "message_age (q_now (queue_env_at 100)) (dict_of (JObj sample_item)) s' = (0, s'\<lparr>nq_offset := Some 90\<rparr>)"
    using r(3) by (simp add: message_age_def queue_env_at_def sample_item_fields real_of_def)
  have "fst (queue_accept sample_queue_config (queue_env_at 100) (JObj sample_item) s') = Inl (CommandRejected ''mission_not_found'' [])"
    by (rule retried_item_after_commit_refused [where u = 5, OF _ a r(2) _ _ sample_mission_valid(2) _ _ _ _ _ age])
      (use r in \<open>simp_all add: sample_item_fields sample_commit_fields l queue_env_at_def sample_queue_config_def\<close>)
  with a show ?thesis by blast
qed

end
