(* ===== verification/SlaveState.thy ===== *)
theory SlaveState
  imports MissionWorker
begin

text \<open>
  \<open>slave_agent/state.py\<close> and the \<open>VerifiedOperations\<close> of \<open>slave_agent/command_queue.py\<close>: the state
  the slave builds from the messages of its flight controller, and the mode and arm commands that
  wait for a heartbeat which confirms them.

  Numbers are real; \<open>decode\<close> is pymavlink's decoder of the flight mode, with None when it fails or
  gives nothing. A field that no conversion accepts makes \<open>update\<close> raise, after the assignments it
  has made by then.
\<close>

subsection \<open>State\<close>

record state_event =
  ev_timestamp :: real
  ev_sequence :: nat
  ev_type :: string
  ev_text :: string

record slave_state =
  ss_token :: nat
  ss_heartbeat_at :: real
  ss_mode :: string
  ss_armed :: bool
  ss_lat :: real
  ss_lon :: real
  ss_observed :: bool
  ss_altitude :: real
  ss_speed :: real
  ss_heading :: real
  ss_battery :: real
  ss_mission_stage :: string
  ss_mission_id :: string
  ss_fault :: string
  ss_event :: state_event

definition slave_state_init :: slave_state where
  "slave_state_init = \<lparr>ss_token = 0, ss_heartbeat_at = 0, ss_mode = ''UNKNOWN'', ss_armed = False, ss_lat = 0, ss_lon = 0,
     ss_observed = False, ss_altitude = 0, ss_speed = 0, ss_heading = 0, ss_battery = - 1, ss_mission_stage = ''IDLE'',
     ss_mission_id = [], ss_fault = [],
     ss_event = \<lparr>ev_timestamp = 0, ev_sequence = 0, ev_type = ''NONE'', ev_text = []\<rparr>\<rparr>"

subsection \<open>Conversions\<close>

text \<open>
  \<open>int(v or 0)\<close> and \<open>float(v or 0)\<close>: zero and the empty text become 0; None when the conversion
  raises, for other texts in this model and for NaN and infinity in \<open>int\<close>. In \<open>float\<close> they would be
  kept; the fields read so are integers on the wire, and the model raises.
\<close>

fun or_zero :: "mav_value \<Rightarrow> mav_value" where
  "or_zero (MStr s) = (if s = [] then MInt 0 else MStr s)"
| "or_zero v = v"

definition int_or_zero :: "fc_msg \<Rightarrow> string \<Rightarrow> int option" where
  "int_or_zero m k = to_int (or_zero (mav_field m k (MInt 0)))"

definition real_or_zero :: "fc_msg \<Rightarrow> string \<Rightarrow> mav_value \<Rightarrow> real option" where
  "real_or_zero m k d = (case to_float (or_zero (mav_field m k d)) of Some (Fl x) \<Rightarrow> Some x | _ \<Rightarrow> None)"

definition mav_text :: "mav_value \<Rightarrow> string" where
  "mav_text v = (case v of MStr s \<Rightarrow> s | MInt i \<Rightarrow> show_int i | _ \<Rightarrow> [])"

definition decoded_mode :: "(fc_msg \<Rightarrow> string option) \<Rightarrow> fc_msg \<Rightarrow> string" where
  "decoded_mode decode m =
     (case map_of (fm_fields m) ''mode'' of
        Some (MStr (c # cs)) \<Rightarrow> py_upper (c # cs)
      | _ \<Rightarrow> (case decode m of
          Some (d # ds) \<Rightarrow> py_upper (d # ds)
        | _ \<Rightarrow> mav_text (mav_field m ''custom_mode'' (MStr ''UNKNOWN''))))"

subsection \<open>\<open>update\<close>\<close>

text \<open>The result: whether \<open>update\<close> returned, and the state\<close>

definition update_heartbeat :: "(fc_msg \<Rightarrow> string option) \<Rightarrow> fc_msg \<Rightarrow> real \<Rightarrow> slave_state \<Rightarrow> bool \<times> slave_state" where
  "update_heartbeat decode m now s =
     (let s1 = s\<lparr>ss_token := ss_token s + 1, ss_heartbeat_at := now\<rparr> in
      case int_or_zero m ''base_mode'' of
        None \<Rightarrow> (False, s1)
      | Some b \<Rightarrow> (True, s1\<lparr>ss_armed := (b AND 128 \<noteq> 0), ss_mode := decoded_mode decode m\<rparr>))"

definition update_position :: "fc_msg \<Rightarrow> slave_state \<Rightarrow> bool \<times> slave_state" where
  "update_position m s =
     (case (int_or_zero m ''lat'', int_or_zero m ''lon'') of
        (Some lat, Some lon) \<Rightarrow>
          (let s1 = s\<lparr>ss_lat := of_int lat / 10000000, ss_lon := of_int lon / 10000000, ss_observed := (lat \<noteq> 0 \<or> lon \<noteq> 0)\<rparr> in
           case real_or_zero m ''relative_alt'' (MInt 0) of
             None \<Rightarrow> (False, s1)
           | Some alt \<Rightarrow>
               (let s2 = s1\<lparr>ss_altitude := alt / 1000\<rparr> in
                case (real_or_zero m ''vx'' (MInt 0), real_or_zero m ''vy'' (MInt 0)) of
                  (Some vx, Some vy) \<Rightarrow>
                    (let s3 = s2\<lparr>ss_speed := sqrt ((vx / 100)\<^sup>2 + (vy / 100)\<^sup>2)\<rparr> in
                     case int_or_zero m ''hdg'' of
                       None \<Rightarrow> (False, s3)
                     | Some h \<Rightarrow> (True, if h \<noteq> 0xFFFF then s3\<lparr>ss_heading := of_int h / 100\<rparr> else s3))
                | _ \<Rightarrow> (False, s2)))
      | _ \<Rightarrow> (False, s))"

definition state_update :: "(fc_msg \<Rightarrow> string option) \<Rightarrow> fc_msg \<Rightarrow> real \<Rightarrow> slave_state \<Rightarrow> bool \<times> slave_state" where
  "state_update decode m now s =
     (if fm_type m = ''HEARTBEAT'' then update_heartbeat decode m now s
      else if fm_type m = ''GLOBAL_POSITION_INT'' then update_position m s
      else if fm_type m = ''BATTERY_STATUS'' then
        (case real_or_zero m ''battery_remaining'' (MInt (- 1)) of
           None \<Rightarrow> (False, s)
         | Some r \<Rightarrow> (True, s\<lparr>ss_battery := min 100 (max (- 1) r)\<rparr>))
      else (True, s))"

definition set_fault :: "string \<Rightarrow> slave_state \<Rightarrow> slave_state" where
  "set_fault fault s = s\<lparr>ss_fault := take 160 fault\<rparr>"

text \<open>\<open>safe_update\<close>, the text of the exception left out of the fault\<close>

definition safe_update :: "(fc_msg \<Rightarrow> string option) \<Rightarrow> fc_msg \<Rightarrow> real \<Rightarrow> slave_state \<Rightarrow> slave_state" where
  "safe_update decode m now s =
     (case state_update decode m now s of (ok, s') \<Rightarrow> if ok then s' else set_fault ''telemetry_update'' s')"

subsection \<open>Events and the snapshot\<close>

definition record_event :: "real \<Rightarrow> string \<Rightarrow> string \<Rightarrow> int \<Rightarrow> string \<Rightarrow> string option \<Rightarrow> slave_state \<Rightarrow> slave_state" where
  "record_event now ty txt sq mid stage s =
     (let s1 = (case stage of None \<Rightarrow> s | Some st \<Rightarrow> s\<lparr>ss_mission_stage := st, ss_mission_id := mid\<rparr>)
      in s1\<lparr>ss_event := \<lparr>ev_timestamp = now, ev_sequence = nat (sq mod 2 ^ 32), ev_type = ty, ev_text = take 160 txt\<rparr>\<rparr>)"

definition record_stage :: "real \<Rightarrow> string \<Rightarrow> int \<Rightarrow> string \<Rightarrow> slave_state \<Rightarrow> slave_state" where
  "record_stage now stage sq mid s =
     record_event now (if mid = [] then ''COMMAND'' else ''MISSION'') stage sq mid (Some stage) s"

record state_snapshot =
  sn_online :: bool
  sn_blocked :: bool
  sn_link_state :: string
  sn_state :: slave_state

definition state_snapshot_of :: "real \<Rightarrow> real \<Rightarrow> bool option \<Rightarrow> slave_state \<Rightarrow> state_snapshot" where
  "state_snapshot_of freshness now gate_blocked s =
     (let connected = (0 < ss_heartbeat_at s \<and> now - ss_heartbeat_at s \<le> freshness); blocked = (gate_blocked = Some True)
      in \<lparr>sn_online = connected, sn_blocked = blocked,
          sn_link_state = (if blocked then ''OPTICAL_BLOCKED'' else if connected then ''ONLINE'' else ''OFFLINE''), sn_state = s\<rparr>)"

subsection \<open>Waiting for a heartbeat\<close>

text \<open>
  One turn of the waiting loop: the messages the reader thread updates the state with while the call
  waits, and the clock the loop has read before it waits.
\<close>

type_synonym wake = "(fc_msg \<times> real) list \<times> real"

definition absorb :: "(fc_msg \<Rightarrow> string option) \<Rightarrow> (fc_msg \<times> real) list \<Rightarrow> slave_state \<Rightarrow> slave_state" where
  "absorb decode ms s = fold (\<lambda>(m, t). safe_update decode m t) ms s"

text \<open>None: still waiting\<close>

fun wait_for_heartbeat :: "(fc_msg \<Rightarrow> string option) \<Rightarrow> nat \<Rightarrow> (slave_state \<Rightarrow> bool) \<Rightarrow> real \<Rightarrow> wake list \<Rightarrow> slave_state \<Rightarrow>
    bool option \<times> slave_state" where
  "wait_for_heartbeat decode tok pred deadline [] s = (if tok < ss_token s \<and> pred s then (Some True, s) else (None, s))"
| "wait_for_heartbeat decode tok pred deadline ((ms, t) # ws) s =
     (if tok < ss_token s \<and> pred s then (Some True, s)
      else if deadline - t \<le> 0 then (Some False, s)
      else wait_for_heartbeat decode tok pred deadline ws (absorb decode ms s))"

text \<open>
  \<open>VerifiedOperations.set_mode\<close> and \<open>arm\<close>. The delegate call gives its result or raises; while it
  runs the messages of \<open>during\<close> arrive.
\<close>

datatype 'a verified = Confirmed 'a | DelegateRaised | NotConfirmed | StillWaiting

definition verified_call :: "(fc_msg \<Rightarrow> string option) \<Rightarrow> (slave_state \<Rightarrow> bool) \<Rightarrow> 'a option \<Rightarrow> (fc_msg \<times> real) list \<Rightarrow>
    real \<Rightarrow> wake list \<Rightarrow> slave_state \<Rightarrow> 'a verified \<times> slave_state" where
  "verified_call decode pred result during deadline ws s =
     (let tok = ss_token s; s1 = absorb decode during s in
      case result of
        None \<Rightarrow> (DelegateRaised, s1)
      | Some r \<Rightarrow> (case wait_for_heartbeat decode tok pred deadline ws s1 of
            (Some True, s2) \<Rightarrow> (Confirmed r, s2)
          | (Some False, s2) \<Rightarrow> (NotConfirmed, s2)
          | (None, s2) \<Rightarrow> (StillWaiting, s2)))"

definition verified_set_mode :: "(fc_msg \<Rightarrow> string option) \<Rightarrow> string \<Rightarrow> 'a option \<Rightarrow> (fc_msg \<times> real) list \<Rightarrow>
    real \<Rightarrow> wake list \<Rightarrow> slave_state \<Rightarrow> 'a verified \<times> slave_state" where
  "verified_set_mode decode mode = verified_call decode (\<lambda>s. ss_mode s = py_upper mode)"

definition verified_arm :: "(fc_msg \<Rightarrow> string option) \<Rightarrow> bool \<Rightarrow> 'a option \<Rightarrow> (fc_msg \<times> real) list \<Rightarrow>
    real \<Rightarrow> wake list \<Rightarrow> slave_state \<Rightarrow> 'a verified \<times> slave_state" where
  "verified_arm decode value = verified_call decode (\<lambda>s. ss_armed s = value)"

subsection \<open>A confirmation is a new heartbeat\<close>

definition is_heartbeat :: "fc_msg \<Rightarrow> bool" where
  "is_heartbeat m \<longleftrightarrow> fm_type m = ''HEARTBEAT''"

definition readable :: "(fc_msg \<times> real) list \<Rightarrow> bool" where
  "readable ms \<longleftrightarrow> (\<forall>(m, t) \<in> set ms. is_heartbeat m \<longrightarrow> int_or_zero m ''base_mode'' \<noteq> None)"

lemma absorb_simps [simp]:
  "absorb decode [] s = s" "absorb decode ((m, t) # ms) s = absorb decode ms (safe_update decode m t s)"
  "absorb decode (ms @ ms') s = absorb decode ms' (absorb decode ms s)"
  by (simp_all add: absorb_def)

lemma safe_update_other:
  assumes "\<not> is_heartbeat m"
  shows "ss_token (safe_update decode m t s) = ss_token s" "ss_mode (safe_update decode m t s) = ss_mode s"
    "ss_armed (safe_update decode m t s) = ss_armed s"
  using assms by (simp_all add: safe_update_def state_update_def is_heartbeat_def update_position_def set_fault_def Let_def
      split: option.split)

lemma safe_update_heartbeat:
  assumes "is_heartbeat m" "int_or_zero m ''base_mode'' = Some b"
  shows "ss_token (safe_update decode m t s) = ss_token s + 1" "ss_mode (safe_update decode m t s) = decoded_mode decode m"
    "ss_armed (safe_update decode m t s) = (b AND 128 \<noteq> 0)"
  using assms by (simp_all add: safe_update_def state_update_def is_heartbeat_def update_heartbeat_def Let_def)

definition last_heartbeat :: "(fc_msg \<times> real) list \<Rightarrow> fc_msg option" where
  "last_heartbeat ms = find is_heartbeat (rev (map fst ms))"

lemma find_snoc_or: "find P (xs @ ys) = (case find P xs of Some x \<Rightarrow> Some x | None \<Rightarrow> find P ys)"
  by (induction xs) auto

lemma absorb_last_heartbeat:
  assumes "readable ms"
  shows "case last_heartbeat ms of
      None \<Rightarrow> ss_token (absorb decode ms s) = ss_token s
    | Some m \<Rightarrow> ss_mode (absorb decode ms s) = decoded_mode decode m
        \<and> (\<exists>b. int_or_zero m ''base_mode'' = Some b \<and> ss_armed (absorb decode ms s) = (b AND 128 \<noteq> 0))"
  using assms
proof (induction ms rule: rev_induct)
  case (snoc p ms)
  obtain m t where p: "p = (m, t)" by (cases p)
  have r: "readable ms" "is_heartbeat m \<longrightarrow> int_or_zero m ''base_mode'' \<noteq> None"
    using snoc.prems by (auto simp: readable_def p)
  show ?case
  proof (cases "is_heartbeat m")
    case True
    with r(2) obtain b where b: "int_or_zero m ''base_mode'' = Some b" by auto
    with True safe_update_heartbeat [OF True b] show ?thesis by (simp add: p last_heartbeat_def)
  next
    case False
    have "last_heartbeat (ms @ [(m, t)]) = last_heartbeat ms" using False by (simp add: last_heartbeat_def)
    with snoc.IH [OF r(1)] safe_update_other [OF False] show ?thesis by (simp add: p split: option.splits)
  qed
qed (simp add: last_heartbeat_def)

lemma wait_confirms:
  "wait_for_heartbeat decode tok pred dl ws s = (Some True, s') \<Longrightarrow>
     \<exists>k \<le> length ws. s' = absorb decode (concat (map fst (take k ws))) s \<and> tok < ss_token s' \<and> pred s'"
proof (induction ws arbitrary: s)
  case (Cons w ws)
  obtain ms t where w: "w = (ms, t)" by (cases w)
  show ?case
  proof (cases "tok < ss_token s \<and> pred s")
    case True
    with Cons.prems w show ?thesis by (intro exI [of _ 0]) auto
  next
    case False
    with Cons.prems w have "wait_for_heartbeat decode tok pred dl ws (absorb decode ms s) = (Some True, s')"
      by (auto split: if_splits)
    from Cons.IH [OF this] obtain k where "k \<le> length ws"
      "s' = absorb decode (concat (map fst (take k ws))) (absorb decode ms s)" "tok < ss_token s'" "pred s'" by auto
    then show ?thesis by (intro exI [of _ "Suc k"]) (simp add: w)
  qed
qed (auto split: if_splits)

lemma readable_prefix: "readable (ms @ ms') \<Longrightarrow> readable ms"
  by (simp add: readable_def)

lemma verified_call_confirmed:
  assumes "verified_call decode pred res during dl ws s = (Confirmed r, s')" "readable (during @ concat (map fst ws))"
  obtains k m where "s' = absorb decode (during @ concat (map fst (take k ws))) s" "pred s'"
    "last_heartbeat (during @ concat (map fst (take k ws))) = Some m"
proof -
  have w: "wait_for_heartbeat decode (ss_token s) pred dl ws (absorb decode during s) = (Some True, s')"
    using assms(1) by (auto simp: verified_call_def Let_def split: option.splits prod.splits bool.splits)
  from wait_confirms [OF w] obtain k where k: "s' = absorb decode (concat (map fst (take k ws))) (absorb decode during s)"
    "ss_token s < ss_token s'" "pred s'" by blast
  let ?ms = "during @ concat (map fst (take k ws))"
  have "concat (map fst ws) = concat (map fst (take k ws)) @ concat (map fst (drop k ws))"
    by (metis append_take_drop_id concat_append map_append)
  then have "readable ?ms" using assms(2) readable_prefix [of ?ms "concat (map fst (drop k ws))"] by simp
  from absorb_last_heartbeat [OF this, of decode s] k have "last_heartbeat ?ms \<noteq> None" by (auto split: option.splits)
  with that [of k] k show thesis by auto
qed

text \<open>C22: a mode or arming command that \<open>VerifiedOperations\<close> reports as done was confirmed by a new
  heartbeat: the last heartbeat among the messages that arrived since the call began shows the mode that
  was asked for, and after \<open>arm\<close> the arming state.\<close>

theorem verified_by_new_heartbeat:
  assumes "readable (during @ concat (map fst ws))"
  shows "(verified_set_mode decode mode res during dl ws s = (Confirmed r, s') \<longrightarrow>
      (\<exists>k m. last_heartbeat (during @ concat (map fst (take k ws))) = Some m \<and> decoded_mode decode m = py_upper mode))
    \<and> (verified_arm decode value res during dl ws s = (Confirmed r, s') \<longrightarrow>
      (\<exists>k m b. last_heartbeat (during @ concat (map fst (take k ws))) = Some m \<and> int_or_zero m ''base_mode'' = Some b
        \<and> (b AND 128 \<noteq> 0) = value))"
proof (intro conjI impI)
  have pre: "readable (during @ concat (map fst (take k ws)))" for k
  proof -
    have "concat (map fst ws) = concat (map fst (take k ws)) @ concat (map fst (drop k ws))"
      by (metis append_take_drop_id concat_append map_append)
    then show ?thesis using assms readable_prefix [of "during @ concat (map fst (take k ws))"] by simp
  qed
  note last = absorb_last_heartbeat [OF pre, of decode _ s]
  show "\<exists>k m. last_heartbeat (during @ concat (map fst (take k ws))) = Some m \<and> decoded_mode decode m = py_upper mode"
    if "verified_set_mode decode mode res during dl ws s = (Confirmed r, s')"
    using that [unfolded verified_set_mode_def] assms
  proof (rule verified_call_confirmed)
    fix k m
    assume "s' = absorb decode (during @ concat (map fst (take k ws))) s" "ss_mode s' = py_upper mode"
      "last_heartbeat (during @ concat (map fst (take k ws))) = Some m"
    with last [of k] show ?thesis by auto
  qed
  show "\<exists>k m b. last_heartbeat (during @ concat (map fst (take k ws))) = Some m \<and> int_or_zero m ''base_mode'' = Some b
        \<and> (b AND 128 \<noteq> 0) = value"
    if "verified_arm decode value res during dl ws s = (Confirmed r, s')"
    using that [unfolded verified_arm_def] assms
  proof (rule verified_call_confirmed)
    fix k m
    assume "s' = absorb decode (during @ concat (map fst (take k ws))) s" "ss_armed s' = value"
      "last_heartbeat (during @ concat (map fst (take k ws))) = Some m"
    with last [of k] show ?thesis by auto
  qed
qed

definition guided_heartbeat :: fc_msg where
  "guided_heartbeat = \<lparr>fm_type = ''HEARTBEAT'', fm_mission_type = None, fm_target_system = None, fm_target_component = None,
     fm_source_system = Some 1, fm_source_component = Some 1, fm_fields = [(''base_mode'', MInt 209), (''mode'', MStr ''guided'')]\<rparr>"

theorem verified_by_new_heartbeat_witness:
  "fst (verified_set_mode (\<lambda>_. None) ''guided'' (Some ()) [] 2 [([], 0), ([(guided_heartbeat, 1)], 1)] slave_state_init) = Confirmed ()
   \<and> (\<exists>k m. last_heartbeat (concat (map fst (take k [([], 0), ([(guided_heartbeat, 1)], 1 :: real)]))) = Some m
        \<and> decoded_mode (\<lambda>_. None) m = ''GUIDED'')"
proof -
  let ?ws = "[([], 0), ([(guided_heartbeat, 1)], 1 :: real)] :: wake list"
  have u: "py_upper ''guided'' = ''GUIDED''" by code_simp
  have h: "is_heartbeat guided_heartbeat" "int_or_zero guided_heartbeat ''base_mode'' = Some 209"
    "decoded_mode (\<lambda>_. None) guided_heartbeat = ''GUIDED''" "py_upper ''guided'' = ''GUIDED''"
    by (simp_all add: is_heartbeat_def guided_heartbeat_def int_or_zero_def mav_field_def decoded_mode_def u)
  have r: "readable ([] @ concat (map fst ?ws))" using h(2) by (simp add: readable_def)
  obtain s' where c: "verified_set_mode (\<lambda>_. None) ''guided'' (Some ()) [] 2 ?ws slave_state_init = (Confirmed (), s')"
    using safe_update_heartbeat [OF h(1,2)] h(3,4)
    by (simp add: verified_set_mode_def verified_call_def slave_state_init_def Let_def)
  from verified_by_new_heartbeat [OF r, of "\<lambda>_. None" "''guided''" "Some ()" 2 slave_state_init "()" s' True] c h(4) show ?thesis
    by auto
qed

end
