(* ===== verification/SlaveLink.thy ===== *)
theory SlaveLink
  imports CommandQueue
begin

text \<open>
  \<open>slave_agent/link.py\<close>: the slave's end of the UDP channel. One thread receives datagrams and
  publishes results and status, another passes the received messages on to the command queue; the
  intake queue lies between them.

  The socket is a list of what was sent; whether \<open>sendto\<close> succeeds is an input of each call. The
  aircraft's state is another component: its snapshot is an input, and what the link reports to it
  (\<open>record_event\<close>, \<open>set_fault\<close>) is a list of notes.
\<close>

subsection \<open>State\<close>

type_synonym address = "string \<times> nat"

datatype link_note = NoteEvent string string int string string | NoteFault string

datatype slave_exc = SlNode node_exc | SlSocket | SlQueue nq_exc

record slave_params =
  sp_peer :: address
  sp_capacity :: nat
  sp_interval :: real
  sp_queue :: queue_config

record slave_link =
  sl_queue :: node_queue
  sl_intake :: "pydict list"
  sl_closing :: bool
  sl_status_sequence :: nat
  sl_last_status_at :: "real option"
  sl_last_peer_at :: real
  sl_sent :: "(bytes \<times> address) list"
  sl_notes :: "link_note list"

definition slave_link_init :: "node_queue \<Rightarrow> slave_link" where
  "slave_link_init q = \<lparr>sl_queue = q, sl_intake = [], sl_closing = False, sl_status_sequence = 0,
     sl_last_status_at = None, sl_last_peer_at = 0, sl_sent = [], sl_notes = []\<rparr>"

text \<open>What a call of the link gives: None when it returned, and the state\<close>

type_synonym link_result = "slave_exc option \<times> slave_link"

definition sl_then :: "link_result \<Rightarrow> (slave_link \<Rightarrow> link_result) \<Rightarrow> link_result" where
  "sl_then r f = (case r of (Some e, s) \<Rightarrow> (Some e, s) | (None, s) \<Rightarrow> f s)"

subsection \<open>Sending\<close>

definition slave_identity :: "json \<Rightarrow> json \<Rightarrow> json \<Rightarrow> node_identity" where
  "slave_identity cid sq now = \<lparr>ni_source = JStr ''aircraft_2'', ni_target = JStr ''rover'', ni_command_id = cid,
     ni_sequence = sq, ni_timestamp = now\<rparr>"

definition reply_identity :: "json \<Rightarrow> pydict \<Rightarrow> node_identity" where
  "reply_identity now m = slave_identity (fld m ''command_id'') (fld m ''sequence'') now"

definition slave_send :: "bool \<Rightarrow> address \<Rightarrow> node_exc + pydict \<Rightarrow> slave_link \<Rightarrow> link_result" where
  "slave_send ok addr msg s =
     (case msg of
        Inl e \<Rightarrow> (Some (SlNode e), s)
      | Inr m \<Rightarrow> (case encode_node_message m max_datagram_bytes of
          Inl e \<Rightarrow> (Some (SlNode e), s)
        | Inr w \<Rightarrow> if ok then (None, s\<lparr>sl_sent := sl_sent s @ [(w, addr)]\<rparr>) else (Some SlSocket, s)))"

definition add_note :: "link_note \<Rightarrow> slave_link \<Rightarrow> slave_link" where
  "add_note n s = s\<lparr>sl_notes := sl_notes s @ [n]\<rparr>"

subsection \<open>Receiving\<close>

definition recover_identity :: "slave_params \<Rightarrow> json \<Rightarrow> bytes \<Rightarrow> address \<Rightarrow> node_identity option" where
  "recover_identity p now wire addr =
     (if addr \<noteq> sp_peer p then None
      else case Option.bind (utf8_decode wire) loads of
        None \<Rightarrow> None
      | Some v \<Rightarrow>
          (let m = dict_of v; cid = py_str (fld m ''command_id'') in
           if \<not> is_obj v \<or> get_or m ''source'' JNull \<noteq> JStr ''rover'' \<or> get_or m ''target'' JNull \<noteq> JStr ''aircraft_2''
             \<or> \<not> has m ''command_id'' \<or> uuid_parse cid = None \<or> \<not> has m ''sequence'' \<or> \<not> is_int (fld m ''sequence'')
             \<or> \<not> (0 \<le> int_of (fld m ''sequence'') \<and> int_of (fld m ''sequence'') \<le> 0xFFFFFFFF) then None
           else Some (slave_identity (JStr cid) (fld m ''sequence'') now)))"

definition send_nack :: "bool \<Rightarrow> address \<Rightarrow> string \<Rightarrow> node_identity \<Rightarrow> slave_link \<Rightarrow> link_result" where
  "send_nack ok addr reason i = slave_send ok addr (build_nack_message (JStr reason) (Some (JStr ''FAILED'')) i)"

definition slave_enqueue :: "slave_params \<Rightarrow> pydict \<Rightarrow> slave_link \<Rightarrow> slave_link option" where
  "slave_enqueue p m s =
     (if sl_closing s \<or> sp_capacity p \<le> length (sl_intake s) then None
      else Some (s\<lparr>sl_intake := sl_intake s @ [m]\<rparr>))"

text \<open>One datagram of \<open>receive_available\<close>\<close>

definition slave_datagram :: "slave_params \<Rightarrow> json \<Rightarrow> bytes \<Rightarrow> address \<Rightarrow> bool \<Rightarrow> slave_link \<Rightarrow> link_result" where
  "slave_datagram p now wire addr ok s =
     (case decode_node_message wire None max_datagram_bytes of
        Inl (NodeEscape e) \<Rightarrow> (Some (SlNode (NodeEscape e)), s)
      | Inl (NodeError e) \<Rightarrow>
          (case recover_identity p now wire addr of
             None \<Rightarrow> (None, s)
           | Some i \<Rightarrow> send_nack ok (sp_peer p) ''malformed_message'' i s)
      | Inr m \<Rightarrow>
          if addr \<noteq> sp_peer p then send_nack ok addr ''invalid_peer'' (reply_identity now m) s
          else if fld m ''target'' \<noteq> JStr ''aircraft_2'' then send_nack ok addr ''invalid_target'' (reply_identity now m) s
          else if fld m ''source'' \<noteq> JStr ''rover'' then send_nack ok addr ''invalid_source'' (reply_identity now m) s
          else
            let s1 = s\<lparr>sl_last_peer_at := real_of now\<rparr> in
            (case slave_enqueue p m s1 of
               Some s2 \<Rightarrow> (None, s2)
             | None \<Rightarrow> send_nack ok (sp_peer p) ''intake_full'' (reply_identity now m) s1))"

fun receive_available :: "slave_params \<Rightarrow> json \<Rightarrow> nat \<Rightarrow> (bytes \<times> address \<times> bool) list \<Rightarrow> slave_link \<Rightarrow> link_result" where
  "receive_available p now 0 ds s = (None, s)"
| "receive_available p now (Suc n) [] s = (None, s)"
| "receive_available p now (Suc n) ((w, a, ok) # ds) s =
     sl_then (slave_datagram p now w a ok s) (receive_available p now n ds)"

subsection \<open>The intake worker\<close>

text \<open>The reply to one message; a reply that cannot be built ends the thread unless \<open>accept\<close> had
  returned, when it is answered as a failure\<close>

definition intake_reply :: "json \<Rightarrow> pydict \<Rightarrow> nq_exc + acceptance \<Rightarrow> (node_exc + pydict) \<times> link_note list" where
  "intake_reply now m r =
     (let i = reply_identity now m;
          failed = build_nack_message (JStr ''persistence_failed'') (Some (JStr ''FAILED'')) i
      in case r of
        Inr a \<Rightarrow> (case build_ack_message (JStr (ac_stage a)) (JBool (ac_duplicate a)) None i of
            Inr msg \<Rightarrow> (Inr msg, [])
          | Inl e \<Rightarrow> (failed, [NoteFault ''command_persistence'']))
      | Inl (CommandRejected reason missing) \<Rightarrow> (build_nack_message (JStr reason) (Some (JStr ''FAILED'')) i, [])
      | Inl _ \<Rightarrow> (failed, [NoteFault ''command_persistence'']))"

definition persist_intake :: "slave_params \<Rightarrow> queue_env \<Rightarrow> json \<Rightarrow> bool \<Rightarrow> slave_link \<Rightarrow> link_result" where
  "persist_intake p e now ok s =
     (case sl_intake s of
        [] \<Rightarrow> (None, s)
      | m # rest \<Rightarrow>
          (case queue_accept (sp_queue p) e (JObj m) (sl_queue s) of (r, q) \<Rightarrow>
             (case intake_reply now m r of (msg, notes) \<Rightarrow>
                let s1 = s\<lparr>sl_intake := rest, sl_queue := q, sl_notes := sl_notes s @ notes\<rparr> in
                (case slave_send ok (sp_peer p) msg s1 of
                   (Some SlSocket, s2) \<Rightarrow> (None, add_note (NoteFault ''udp_send'') s2)
                 | res \<Rightarrow> res))))"

subsection \<open>Publishing\<close>

text \<open>One result: \<open>ok\<close> is for \<open>sendto\<close>, \<open>saved\<close> for the save of \<open>mark_delivered\<close>\<close>

definition publish_report :: "slave_params \<Rightarrow> json \<Rightarrow> bool \<Rightarrow> bool \<Rightarrow> report \<Rightarrow> slave_link \<Rightarrow> link_result" where
  "publish_report p now ok saved r s =
     (let stage = terminal_of (rp_stage r); detail = take 160 (rp_detail r);
          s1 = add_note (NoteEvent (if rp_mission r = [] then ''COMMAND'' else ''MISSION'') (str_or detail stage) (rp_sequence r)
            (rp_mission r) stage) s
      in sl_then (slave_send ok (sp_peer p) (build_ack_message (JStr stage) (JBool False) (Some (JStr detail))
             (slave_identity (JStr (rp_command r)) (JInt (rp_sequence r)) now)) s1)
           (\<lambda>s2. case mark_delivered saved (rp_command r) (sl_queue s2) of
              (Inl e, q) \<Rightarrow> (Some (SlQueue e), s2\<lparr>sl_queue := q\<rparr>)
            | (Inr b, q) \<Rightarrow> (None, s2\<lparr>sl_queue := q\<rparr>)))"

fun publish_reports :: "slave_params \<Rightarrow> json \<Rightarrow> (nat \<Rightarrow> bool) \<Rightarrow> (nat \<Rightarrow> bool) \<Rightarrow> nat \<Rightarrow> report list \<Rightarrow> slave_link \<Rightarrow> link_result" where
  "publish_reports p now ok saved i [] s = (None, s)"
| "publish_reports p now ok saved i (r # rs) s =
     sl_then (publish_report p now (ok i) (saved i) r s) (publish_reports p now ok saved (Suc i) rs)"

text \<open>The snapshot of the state: \<open>online\<close> and its other fields\<close>

definition publish_status :: "slave_params \<Rightarrow> json \<Rightarrow> json \<times> pydict \<Rightarrow> uuid \<Rightarrow> bool \<Rightarrow> slave_link \<Rightarrow> link_result" where
  "publish_status p now snapshot u ok s =
     (if (case sl_last_status_at s of None \<Rightarrow> False | Some t \<Rightarrow> real_of now - t < sp_interval p) then (None, s)
      else
        let s1 = s\<lparr>sl_last_status_at := Some (real_of now)\<rparr> in
        case build_status_message (fst snapshot) (snd snapshot) (slave_identity (JStr (uuid_str u)) (JInt (int (sl_status_sequence s1))) now) of
          Inl e \<Rightarrow> (Some (SlNode e), s1)
        | Inr m \<Rightarrow> slave_send ok (sp_peer p) (Inr m) (s1\<lparr>sl_status_sequence := (sl_status_sequence s1 + 1) mod 2 ^ 32\<rparr>))"

definition publish_due :: "slave_params \<Rightarrow> json \<Rightarrow> json \<times> pydict \<Rightarrow> uuid \<Rightarrow> bool \<Rightarrow> (nat \<Rightarrow> bool) \<Rightarrow> (nat \<Rightarrow> bool) \<Rightarrow> bool \<Rightarrow>
    slave_link \<Rightarrow> link_result" where
  "publish_due p now snapshot u completed_saved ok saved status_ok s =
     (case completed completed_saved (sl_queue s) of
        (Inl e, q) \<Rightarrow> (Some (SlQueue e), s\<lparr>sl_queue := q\<rparr>)
      | (Inr rs, q) \<Rightarrow> sl_then (publish_reports p now ok saved 0 rs (s\<lparr>sl_queue := q\<rparr>))
          (publish_status p now snapshot u status_ok))"

definition slave_close :: "slave_link \<Rightarrow> slave_link" where
  "slave_close s = s\<lparr>sl_closing := True\<rparr>"

definition peer_online :: "real \<Rightarrow> real \<Rightarrow> slave_link \<Rightarrow> bool" where
  "peer_online max_age now s \<longleftrightarrow> 0 < sl_last_peer_at s \<and> now - sl_last_peer_at s \<le> max_age"

end
