(* ===== verification/SlaveLinkProps.thy ===== *)
theory SlaveLinkProps
  imports SlaveLink QueueProps
begin

text \<open>
  The slave's link: only checked messages of the rover reach the command queue, and an outcome is
  marked delivered only after its acknowledgement was sent.
\<close>

subsection \<open>Results\<close>

lemma sl_then_cases:
  assumes "sl_then r f = (e, s')"
  obtains (err) x where "r = (Some x, s')" "e = Some x" | (ok) s where "r = (None, s)" "f s = (e, s')"
  using assms by (cases r; cases "fst r") (auto simp: sl_then_def)

lemma slave_send_cases:
  assumes "slave_send ok addr msg s = (e, s')"
  obtains (err) x where "e = Some x" "s' = s"
  | (sent) m w where "e = None" "msg = Inr m" "encode_node_message m max_datagram_bytes = Inr w"
      "s' = s\<lparr>sl_sent := sl_sent s @ [(w, addr)]\<rparr>"
  using assms by (auto simp: slave_send_def split: sum.splits if_splits)

lemma slave_send_fields:
  assumes "slave_send ok addr msg s = (e, s')"
  shows "sl_queue s' = sl_queue s" "sl_intake s' = sl_intake s" "\<exists>ws. sl_sent s' = sl_sent s @ ws"
  using assms by (cases rule: slave_send_cases; simp)+

subsection \<open>What reaches the intake\<close>

lemma validate_expected:
  "validate_node_message j None = None \<Longrightarrow> fld (dict_of j) ''target'' = JStr t \<Longrightarrow> validate_node_message j (Some t) = None"
  by (simp add: validate_node_message_def Let_def first_error_None_iff node_unless_def)

lemma decode_expected:
  "decode_node_message w None n = Inr m \<Longrightarrow> fld m ''target'' = JStr t \<Longrightarrow> decode_node_message w (Some t) n = Inr m"
  by (auto simp: decode_node_message_def validate_expected split: if_splits option.splits)

definition from_rover :: "slave_params \<Rightarrow> (bytes \<times> address \<times> bool) list \<Rightarrow> pydict \<Rightarrow> bool" where
  "from_rover p ds m \<longleftrightarrow> (\<exists>w ok. (w, sp_peer p, ok) \<in> set ds \<and> decode_node_message w (Some ''aircraft_2'') max_datagram_bytes = Inr m
     \<and> fld m ''source'' = JStr ''rover'')"

lemma slave_datagram_intake:
  assumes "slave_datagram p now w a ok s = (e, s')"
  shows "sl_queue s' = sl_queue s \<and> (sl_intake s' = sl_intake s
    \<or> (\<exists>m. sl_intake s' = sl_intake s @ [m] \<and> length (sl_intake s) < sp_capacity p \<and> \<not> sl_closing s
        \<and> from_rover p [(w, a, ok)] m))"
proof -
  have n: "sl_queue t' = sl_queue t \<and> sl_intake t' = sl_intake t" if "send_nack ok' ad reason i t = (x, t')" for ok' ad reason i t x t'
    using that slave_send_fields by (auto simp: send_nack_def)
  show ?thesis
  proof (cases "decode_node_message w None max_datagram_bytes")
    case (Inl x)
    with assms n show ?thesis by (cases x) (auto simp: slave_datagram_def split: option.splits)
  next
    case (Inr m)
    show ?thesis
    proof (cases "a = sp_peer p \<and> fld m ''target'' = JStr ''aircraft_2'' \<and> fld m ''source'' = JStr ''rover''")
      case True
      with Inr decode_expected [OF Inr, of "''aircraft_2''"] have f: "from_rover p [(w, a, ok)] m" by (auto simp: from_rover_def)
      from assms Inr True f show ?thesis
        by (auto simp: slave_datagram_def slave_enqueue_def Let_def split: if_splits dest!: n)
    next
      case False
      with assms Inr show ?thesis by (auto simp: slave_datagram_def dest!: n split: if_splits)
    qed
  qed
qed

lemma from_rover_mono: "from_rover p ds m \<Longrightarrow> set ds \<subseteq> set ds' \<Longrightarrow> from_rover p ds' m"
  by (auto simp: from_rover_def)

lemma receive_available_intake:
  "receive_available p now n ds s = (e, s') \<Longrightarrow> sl_queue s' = sl_queue s \<and>
     (\<exists>ms. sl_intake s' = sl_intake s @ ms \<and> (\<forall>m \<in> set ms. from_rover p ds m)
       \<and> length (sl_intake s') \<le> max (length (sl_intake s)) (sp_capacity p))"
proof (induction p now n ds s arbitrary: e s' rule: receive_available.induct)
  case (3 p now n w a ok ds s)
  have one: "from_rover p [(w, a, ok)] m \<Longrightarrow> from_rover p ((w, a, ok) # ds) m" for m by (rule from_rover_mono) auto
  from 3(2) show ?case unfolding receive_available.simps
  proof (cases rule: sl_then_cases)
    case (err x)
    from slave_datagram_intake [OF err(1)] one show ?thesis by auto
  next
    case ok': (ok s1)
    note ok = ok'
    from 3(1) [OF ok(2)] obtain ms where ms: "sl_intake s' = sl_intake s1 @ ms" "\<forall>m \<in> set ms. from_rover p ds m"
      "length (sl_intake s') \<le> max (length (sl_intake s1)) (sp_capacity p)" "sl_queue s' = sl_queue s1" by auto
    have up: "\<forall>m \<in> set ms. from_rover p ((w, a, ok) # ds) m" for ok
      using ms(2) by (auto intro: from_rover_mono [of p ds])
    from slave_datagram_intake [OF ok(1)] ms up one show ?thesis by auto
  qed
qed auto

subsection \<open>Publishing\<close>

text \<open>The last result the worker left for a command, fresh or not\<close>

definition last_result :: "string \<Rightarrow> outcome list \<Rightarrow> outcome option" where
  "last_result cid os = find (\<lambda>o'. o_command_id o' = cid) (rev os)"

lemma last_result_Cons:
  "last_result cid (o' # os) = (case last_result cid os of Some x \<Rightarrow> Some x | None \<Rightarrow> if o_command_id o' = cid then Some o' else None)"
proof -
  have "find P (xs @ ys) = (case find P xs of Some x \<Rightarrow> Some x | None \<Rightarrow> find P ys)" for P and xs ys :: "outcome list"
    by (induction xs) auto
  then show ?thesis by (simp add: last_result_def split: option.split)
qed

text \<open>
  What has to be reported of a command in the delivery table: its last result, when the table does not have its stage
  yet or has not delivered it, or, when the inbox has no result of it any more, the outcome of the table.
\<close>

definition outcome_due :: "node_queue \<Rightarrow> string \<Rightarrow> string \<Rightarrow> string \<Rightarrow> int \<Rightarrow> bool" where
  "outcome_due q cid stage detail sq \<longleftrightarrow> (\<exists>r. map_of (nq_delivery q) cid = Some r \<and> sq = d_sequence r
     \<and> (case last_result cid (i_results (mem (nq_inbox q))) of
          Some o' \<Rightarrow> stage = terminal_of (o_stage o') \<and> detail = o_detail o' \<and> (stage \<noteq> d_terminal r \<or> \<not> d_delivered r)
        | None \<Rightarrow> stage = d_terminal r \<and> detail = d_detail r \<and> \<not> d_delivered r \<and> stage \<in> {''VERIFIED'', ''FAILED''}
            \<and> (d_worker r = [] \<or> terminal_of (d_worker r) = stage)))"

text \<open>The acknowledgement of an outcome: exactly its stage, and its detail cut to 160 characters\<close>

definition outcome_acked :: "slave_params \<Rightarrow> json \<Rightarrow> (bytes \<times> address) list \<Rightarrow> string \<Rightarrow> string \<Rightarrow> string \<Rightarrow> int \<Rightarrow> bool" where
  "outcome_acked p now ws cid stage detail sq \<longleftrightarrow> (\<exists>m w. (w, sp_peer p) \<in> set ws
     \<and> build_ack_message (JStr stage) (JBool False) (Some (JStr (take 160 detail))) (slave_identity (JStr cid) (JInt sq) now) = Inr m
     \<and> encode_node_message m max_datagram_bytes = Inr w)"

lemma outcome_acked_append [simp]:
  "outcome_acked p now (ws @ ws') cid st dt sq \<longleftrightarrow> outcome_acked p now ws cid st dt sq \<or> outcome_acked p now ws' cid st dt sq"
  by (auto simp: outcome_acked_def)

lemma terminal_of_range: "terminal_of st \<in> {''VERIFIED'', ''FAILED''}"
  by (simp add: terminal_of_def)

lemma terminal_of_terminal: "st \<in> {''VERIFIED'', ''FAILED''} \<Longrightarrow> terminal_of st = st"
  by (auto simp: terminal_of_def)

text \<open>The same once \<open>completed\<close> has put the results into the table\<close>

definition waiting :: "node_queue \<Rightarrow> string \<Rightarrow> string \<Rightarrow> string \<Rightarrow> int \<Rightarrow> bool" where
  "waiting q cid stage detail sq \<longleftrightarrow> (\<exists>r. map_of (nq_delivery q) cid = Some r \<and> sq = d_sequence r \<and> stage = d_terminal r
     \<and> detail = d_detail r \<and> \<not> d_delivered r \<and> stage \<in> {''VERIFIED'', ''FAILED''} \<and> (d_worker r = [] \<or> terminal_of (d_worker r) = stage))"

definition absorbed :: "node_queue \<Rightarrow> bool" where
  "absorbed q \<longleftrightarrow> (\<forall>cid r o'. map_of (nq_delivery q) cid = Some r \<and> last_result cid (i_results (mem (nq_inbox q))) = Some o' \<longrightarrow>
     d_terminal r = terminal_of (o_stage o') \<and> d_worker r = o_stage o' \<and> d_detail r = o_detail o')"

lemma waiting_due: "absorbed q \<Longrightarrow> waiting q cid st dt sq \<longleftrightarrow> outcome_due q cid st dt sq"
  using terminal_of_range unfolding absorbed_def waiting_def outcome_due_def by (fastforce split: option.splits)

lemma absorb_results_inbox: "absorb_results os d q = (d', q') \<Longrightarrow> nq_inbox q' = nq_inbox q"
  by (induction os d q rule: absorb_results.induct)
    (auto simp: Let_def split: option.splits prod.splits if_splits)

lemma absorb_results_distinct:
  "absorb_results os d q = (d', q') \<Longrightarrow> distinct (map fst (nq_delivery q)) \<Longrightarrow> distinct (map fst (nq_delivery q'))"
  by (induction os d q rule: absorb_results.induct)
    (auto simp: Let_def distinct_update split: option.splits prod.splits if_splits)

lemma absorb_results_record:
  "absorb_results os d q = (d', q') \<Longrightarrow> map_of (nq_delivery q) cid = Some r \<Longrightarrow>
     \<exists>r'. map_of (nq_delivery q') cid = Some r' \<and> d_sequence r' = d_sequence r
       \<and> (case last_result cid os of
            None \<Rightarrow> r' = r
          | Some o' \<Rightarrow> d_terminal r' = terminal_of (o_stage o') \<and> d_worker r' = o_stage o' \<and> d_detail r' = o_detail o'
              \<and> (d_delivered r' \<longrightarrow> d_delivered r \<and> d_terminal r = terminal_of (o_stage o')))"
proof (induction os arbitrary: d q r)
  case Nil
  then show ?case by (simp add: last_result_def)
next
  case (Cons o' os)
  show ?case
  proof (cases "map_of (nq_delivery q) (o_command_id o')")
    case None
    with Cons.prems(2) have "o_command_id o' \<noteq> cid" by auto
    then have l: "last_result cid (o' # os) = last_result cid os" by (simp add: last_result_Cons split: option.split)
    from Cons None show ?thesis unfolding l by simp
  next
    case (Some r0)
    obtain r1 d1 ch where u: "update_delivery o' r0 = (r1, d1, ch)" by (cases "update_delivery o' r0")
    define q1 where "q1 = (let q1 = q\<lparr>nq_delivery := AList.update (o_command_id o') r1 (nq_delivery q)\<rparr> in
      if ch then q1\<lparr>nq_events := nq_events q1 @ [terminal_event (o_command_id o') (d_terminal r1) r1]\<rparr> else q1)"
    have rec: "absorb_results os (d \<or> d1) q1 = (d', q')" using Cons.prems(1) Some u by (auto simp: q1_def Let_def)
    have tab: "nq_delivery q1 = AList.update (o_command_id o') r1 (nq_delivery q)" by (simp add: q1_def Let_def)
    show ?thesis
    proof (cases "o_command_id o' = cid")
      case True
      then have "r0 = r" using Some Cons.prems(2) by simp
      then have "r1 = fst (update_delivery o' r)" using u by simp
      then have r1: "d_sequence r1 = d_sequence r" "d_terminal r1 = terminal_of (o_stage o')" "d_worker r1 = o_stage o'"
          "d_detail r1 = o_detail o'" "d_delivered r1 \<longrightarrow> d_delivered r \<and> d_terminal r = terminal_of (o_stage o')"
        by (simp_all add: update_delivery_def Let_def)
      have "map_of (nq_delivery q1) cid = Some r1" using True by (simp add: tab)
      from Cons.IH [OF rec this] r1 True show ?thesis by (auto simp: last_result_Cons split: option.splits)
    next
      case False
      then have l: "last_result cid (o' # os) = last_result cid os" by (simp add: last_result_Cons split: option.split)
      have "map_of (nq_delivery q1) cid = Some r" using False Cons.prems(2) by (simp add: tab)
      from Cons.IH [OF rec this] show ?thesis unfolding l .
    qed
  qed
qed

lemma absorb_results_keys:
  "absorb_results os d q = (d', q') \<Longrightarrow> map_of (nq_delivery q) cid = None \<Longrightarrow> map_of (nq_delivery q') cid = None"
proof (induction os arbitrary: d q)
  case (Cons o' os)
  show ?case
  proof (cases "map_of (nq_delivery q) (o_command_id o')")
    case None
    with Cons show ?thesis by simp
  next
    case (Some r0)
    obtain r1 d1 ch where u: "update_delivery o' r0 = (r1, d1, ch)" by (cases "update_delivery o' r0")
    have "cid \<noteq> o_command_id o'" using Some Cons.prems(2) by auto
    with Cons.prems Some u show ?thesis by (cases ch) (auto simp: Let_def intro!: Cons.IH)
  qed
qed simp

text \<open>\<open>completed\<close> puts every outcome that is due into the table, whether its save fails or not, and reports them\<close>

lemma completed_due:
  assumes "completed ok q = (r, q')" "distinct (map fst (nq_delivery q))"
  shows "absorbed q'" "distinct (map fst (nq_delivery q'))"
    and "outcome_due q cid st dt sq \<Longrightarrow> waiting q' cid st dt sq"
    and "r = Inr rs \<Longrightarrow> rs = pending_reports (nq_delivery q')"
proof -
  let ?os = "i_results (mem (nq_inbox q))"
  obtain d q1 where a: "absorb_results ?os False q = (d, q1)" by (cases "absorb_results ?os False q")
  have same: "nq_delivery q' = nq_delivery q1" "nq_inbox q' = nq_inbox q"
    using assms(1) a absorb_results_inbox [OF a] by (auto simp: completed_def nq_then_def save_delivery_def split: if_splits)
  show "distinct (map fst (nq_delivery q'))" using absorb_results_distinct [OF a assms(2)] same(1) by simp
  show "r = Inr rs \<Longrightarrow> rs = pending_reports (nq_delivery q')"
    using assms(1) a by (auto simp: completed_def nq_then_def save_delivery_def split: if_splits)
  show "absorbed q'" unfolding absorbed_def same
  proof (intro allI impI, elim conjE)
    fix cid r o' assume r: "map_of (nq_delivery q1) cid = Some r" and l: "last_result cid ?os = Some o'"
    obtain r0 where "map_of (nq_delivery q) cid = Some r0"
      using absorb_results_keys [OF a, of cid] r by (cases "map_of (nq_delivery q) cid") auto
    from absorb_results_record [OF a this] r l
    show "d_terminal r = terminal_of (o_stage o') \<and> d_worker r = o_stage o' \<and> d_detail r = o_detail o'" by auto
  qed
  show "waiting q' cid st dt sq" if due: "outcome_due q cid st dt sq"
  proof -
    from due obtain r where r: "map_of (nq_delivery q) cid = Some r" "sq = d_sequence r" by (auto simp: outcome_due_def)
    from absorb_results_record [OF a r(1)] obtain r' where r': "map_of (nq_delivery q1) cid = Some r'" "d_sequence r' = d_sequence r"
      "case last_result cid ?os of None \<Rightarrow> r' = r
         | Some o' \<Rightarrow> d_terminal r' = terminal_of (o_stage o') \<and> d_worker r' = o_stage o' \<and> d_detail r' = o_detail o'
             \<and> (d_delivered r' \<longrightarrow> d_delivered r \<and> d_terminal r = terminal_of (o_stage o'))" by blast
    show ?thesis
    proof (cases "last_result cid ?os")
      case None
      with due r r' show ?thesis by (auto simp: waiting_def outcome_due_def same)
    next
      case (Some o')
      with due r r' terminal_of_range [of "o_stage o'"] show ?thesis by (auto simp: waiting_def outcome_due_def same)
    qed
  qed
qed

text \<open>Marking as delivered is all that happens to the table afterwards\<close>

definition but_delivered :: "node_queue \<Rightarrow> string \<Rightarrow> delivery option" where
  "but_delivered q cid = map_option (\<lambda>r. r\<lparr>d_delivered := True\<rparr>) (map_of (nq_delivery q) cid)"

lemma mark_delivered_fields:
  assumes "mark_delivered ok k q = (r, q')"
  shows "nq_inbox q' = nq_inbox q" "but_delivered q' = but_delivered q" "\<not> waiting q' k st dt sq"
    and "cid \<noteq> k \<Longrightarrow> waiting q' cid st dt sq = waiting q cid st dt sq"
    and "waiting q' cid st dt sq \<Longrightarrow> waiting q cid st dt sq"
  using assms
  by (auto simp: mark_delivered_def nq_then_def save_delivery_def waiting_def but_delivered_def fun_eq_iff update_conv'
      split: option.splits if_splits)

lemma absorbed_stays: "absorbed q \<Longrightarrow> but_delivered q' = but_delivered q \<Longrightarrow> nq_inbox q' = nq_inbox q \<Longrightarrow> absorbed q'"
  unfolding absorbed_def
proof (intro allI impI, elim conjE)
  fix cid r o'
  assume q: "\<forall>cid r o'. map_of (nq_delivery q) cid = Some r \<and> last_result cid (i_results (mem (nq_inbox q))) = Some o' \<longrightarrow>
      d_terminal r = terminal_of (o_stage o') \<and> d_worker r = o_stage o' \<and> d_detail r = o_detail o'"
    and same: "but_delivered q' = but_delivered q" "nq_inbox q' = nq_inbox q"
    and r: "map_of (nq_delivery q') cid = Some r" and l: "last_result cid (i_results (mem (nq_inbox q'))) = Some o'"
  have "but_delivered q cid = Some (r\<lparr>d_delivered := True\<rparr>)" using fun_cong [OF same(1), of cid] r by (simp add: but_delivered_def)
  then obtain r0 where r0: "map_of (nq_delivery q) cid = Some r0" "r0\<lparr>d_delivered := True\<rparr> = r\<lparr>d_delivered := True\<rparr>"
    by (auto simp: but_delivered_def)
  from r0(2) have "d_terminal r0 = d_terminal r" "d_worker r0 = d_worker r" "d_detail r0 = d_detail r"
    by (cases r0; cases r; simp)+
  with q r0(1) l same(2) show "d_terminal r = terminal_of (o_stage o') \<and> d_worker r = o_stage o' \<and> d_detail r = o_detail o'" by auto
qed

text \<open>What publishing does from one state to another: it sends \<open>ws\<close>, and no outcome disappears without
  its acknowledgement among them\<close>

definition publishes :: "slave_params \<Rightarrow> json \<Rightarrow> (bytes \<times> address) list \<Rightarrow> slave_link \<Rightarrow> slave_link \<Rightarrow> bool" where
  "publishes p now ws s s' \<longleftrightarrow> sl_sent s' = sl_sent s @ ws
     \<and> (\<forall>cid st dt sq. waiting (sl_queue s) cid st dt sq \<longrightarrow> waiting (sl_queue s') cid st dt sq \<or> outcome_acked p now ws cid st dt sq)
     \<and> (\<forall>cid st dt sq. waiting (sl_queue s') cid st dt sq \<longrightarrow> waiting (sl_queue s) cid st dt sq)
     \<and> nq_inbox (sl_queue s') = nq_inbox (sl_queue s) \<and> but_delivered (sl_queue s') = but_delivered (sl_queue s)"

lemma publishes_trans: "publishes p now ws s s1 \<Longrightarrow> publishes p now ws' s1 s2 \<Longrightarrow> publishes p now (ws @ ws') s s2"
  unfolding publishes_def by (metis append.assoc outcome_acked_append)

lemma publishes_same: "sl_sent s' = sl_sent s @ ws \<Longrightarrow> sl_queue s' = sl_queue s \<Longrightarrow> publishes p now ws s s'"
  by (simp add: publishes_def)

text \<open>A report says of its command what is waiting of it\<close>

definition report_fits :: "node_queue \<Rightarrow> report \<Rightarrow> bool" where
  "report_fits q r \<longleftrightarrow> (\<forall>st dt sq. waiting q (rp_command r) st dt sq \<longrightarrow>
     st = terminal_of (rp_stage r) \<and> dt = rp_detail r \<and> sq = rp_sequence r)"

lemma publish_report_step:
  assumes "publish_report p now ok saved r s = (e, s')" "report_fits (sl_queue s) r"
  shows "\<exists>ws. publishes p now ws s s' \<and> (e = None \<longrightarrow> (\<forall>st dt sq. \<not> waiting (sl_queue s') (rp_command r) st dt sq))"
  using assms(1) [unfolded publish_report_def Let_def]
proof (cases rule: sl_then_cases)
  case (err x)
  then show ?thesis by (cases rule: slave_send_cases) (auto simp: add_note_def intro!: exI [of _ "[]"] publishes_same)
next
  case (ok s2)
  let ?stage = "terminal_of (rp_stage r)"
  from ok(1) obtain m w where m: "build_ack_message (JStr ?stage) (JBool False) (Some (JStr (take 160 (rp_detail r))))
      (slave_identity (JStr (rp_command r)) (JInt (rp_sequence r)) now) = Inr m"
    "encode_node_message m max_datagram_bytes = Inr w" "sl_sent s2 = sl_sent s @ [(w, sp_peer p)]" "sl_queue s2 = sl_queue s"
    by (cases rule: slave_send_cases) (auto simp: add_note_def)
  then have a: "outcome_acked p now [(w, sp_peer p)] (rp_command r) ?stage (rp_detail r) (rp_sequence r)"
    unfolding outcome_acked_def by auto
  obtain x q where q: "mark_delivered saved (rp_command r) (sl_queue s) = (x, q)" by (cases "mark_delivered saved (rp_command r) (sl_queue s)")
  with ok(2) m(4) have s': "s' = s2\<lparr>sl_queue := q\<rparr>" by (auto split: sum.splits)
  note mk = mark_delivered_fields [OF q]
  have "waiting q cid st dt sq \<or> outcome_acked p now [(w, sp_peer p)] cid st dt sq" if "waiting (sl_queue s) cid st dt sq" for cid st dt sq
    using that a assms(2) mk(4) [of cid st dt sq] by (cases "cid = rp_command r") (auto simp: report_fits_def)
  with m(3) mk(1,2,5) have "publishes p now [(w, sp_peer p)] s s'" unfolding publishes_def s' by auto
  with mk(3) show ?thesis by (auto simp: s')
qed

lemma report_fits_later: "report_fits (sl_queue s) r \<Longrightarrow> publishes p now ws s s' \<Longrightarrow> report_fits (sl_queue s') r"
  unfolding report_fits_def publishes_def by blast

lemma publish_reports_step:
  "publish_reports p now ok saved i rs s = (e, s') \<Longrightarrow> \<forall>r \<in> set rs. report_fits (sl_queue s) r \<Longrightarrow> \<exists>ws. publishes p now ws s s'
      \<and> (e = None \<longrightarrow> (\<forall>r \<in> set rs. \<forall>st dt sq. \<not> waiting (sl_queue s') (rp_command r) st dt sq))"
proof (induction rs arbitrary: i s)
  case (Cons r rs)
  from Cons.prems(2) have fit: "report_fits (sl_queue s) r" by simp
  from Cons.prems(1) show ?case unfolding publish_reports.simps
  proof (cases rule: sl_then_cases)
    case (err x)
    from publish_report_step [OF err(1) fit] err(2) show ?thesis by auto
  next
    case (ok s1)
    from publish_report_step [OF ok(1) fit] obtain ws where ws: "publishes p now ws s s1"
      "\<forall>st dt sq. \<not> waiting (sl_queue s1) (rp_command r) st dt sq" by auto
    have "\<forall>r \<in> set rs. report_fits (sl_queue s1) r" using Cons.prems(2) report_fits_later [OF _ ws(1)] by auto
    from Cons.IH [OF ok(2) this] obtain ws' where ws': "publishes p now ws' s1 s'"
      "e = None \<longrightarrow> (\<forall>r \<in> set rs. \<forall>st dt sq. \<not> waiting (sl_queue s') (rp_command r) st dt sq)" by auto
    have "\<forall>st dt sq. \<not> waiting (sl_queue s') (rp_command r) st dt sq" using ws(2) ws'(1) unfolding publishes_def by blast
    with publishes_trans [OF ws(1) ws'(1)] ws'(2) show ?thesis by (intro exI [of _ "ws @ ws'"]) auto
  qed
qed (auto simp: publishes_def)

lemma publish_status_step: "publish_status p now sn u ok s = (e, s') \<Longrightarrow> \<exists>ws. publishes p now ws s s'"
  by (auto simp: publish_status_def Let_def split: if_splits sum.splits elim!: slave_send_cases
      simp: publishes_def)

text \<open>The reports of a table: each fits, and everything that waits is among them\<close>

lemma pending_reports_fit:
  assumes "distinct (map fst (nq_delivery q))"
  shows "\<forall>r \<in> set (pending_reports (nq_delivery q)). report_fits q r"
    and "waiting q cid st dt sq \<Longrightarrow> \<exists>r \<in> set (pending_reports (nq_delivery q)). rp_command r = cid"
proof
  fix rp assume "rp \<in> set (pending_reports (nq_delivery q))"
  then obtain k r where r: "(k, r) \<in> set (nq_delivery q)" "rp = \<lparr>rp_command = k, rp_sequence = d_sequence r,
       rp_stage = str_or (d_worker r) (d_terminal r), rp_detail = d_detail r, rp_mission = d_mission_id r\<rparr>"
    by (auto simp: pending_reports_def)
  from map_of_is_SomeI [OF assms r(1)] have m: "map_of (nq_delivery q) k = Some r" .
  show "report_fits q rp"
    unfolding report_fits_def r(2) using m by (auto simp: waiting_def str_or_def terminal_of_terminal)
next
  assume "waiting q cid st dt sq"
  then obtain r where "map_of (nq_delivery q) cid = Some r" "d_terminal r \<noteq> []" "\<not> d_delivered r" by (auto simp: waiting_def)
  with map_of_SomeD [of "nq_delivery q" cid r] show "\<exists>r \<in> set (pending_reports (nq_delivery q)). rp_command r = cid"
    by (force simp: pending_reports_def)
qed

text \<open>C23: no outcome of a command is lost between the worker and the rover. An outcome is due when the worker left a
  result for a command of the delivery table whose stage the table does not have yet or has not delivered, or when the
  table itself has an undelivered outcome. When \<open>publish_due\<close> ends, with an exception or without, each outcome that was
  due is still due, with the same stage, detail and sequence number, or the acknowledgement with exactly this stage and
  sequence number and its detail cut to 160 characters was sent to the peer; when it ends without an exception,
  all of them were sent and none is due. The delivery table is a dictionary.\<close>

theorem outcomes_reported:
  assumes "publish_due p now sn u cs ok saved so s = (e, s')" and "distinct (map fst (nq_delivery (sl_queue s)))"
  shows "\<exists>ws. sl_sent s' = sl_sent s @ ws
    \<and> (\<forall>cid st dt sq. outcome_due (sl_queue s) cid st dt sq \<longrightarrow>
         outcome_due (sl_queue s') cid st dt sq \<or> outcome_acked p now ws cid st dt sq)
    \<and> (e = None \<longrightarrow> (\<forall>cid st dt sq. \<not> outcome_due (sl_queue s') cid st dt sq
         \<and> (outcome_due (sl_queue s) cid st dt sq \<longrightarrow> outcome_acked p now ws cid st dt sq)))"
proof -
  obtain r q where c: "completed cs (sl_queue s) = (r, q)" by (cases "completed cs (sl_queue s)")
  note cd = completed_due [OF c assms(2)]
  show ?thesis
  proof (cases r)
    case (Inl x)
    with assms(1) c have "e \<noteq> None" "sl_queue s' = q" "sl_sent s' = sl_sent s" by (auto simp: publish_due_def)
    with cd(3) waiting_due [OF cd(1)] show ?thesis by (intro exI [of _ "[]"]) auto
  next
    case (Inr rs)
    let ?s = "s\<lparr>sl_queue := q\<rparr>"
    note pr = pending_reports_fit [OF cd(2), folded cd(4) [OF Inr]]
    have fit: "\<forall>r \<in> set rs. report_fits (sl_queue ?s) r" using pr(1) by simp
    have settled: "outcome_due (sl_queue s') cid st dt sq \<longleftrightarrow> waiting (sl_queue s') cid st dt sq"
      if "publishes p now ws ?s s'" for ws cid st dt sq
    proof -
      have "absorbed (sl_queue s')"
        using that by (intro absorbed_stays [OF cd(1)]) (simp_all add: publishes_def)
      then show ?thesis by (simp add: waiting_due)
    qed
    have "sl_then (publish_reports p now ok saved 0 rs ?s) (publish_status p now sn u so) = (e, s')"
      using assms(1) c Inr by (simp add: publish_due_def)
    then show ?thesis
    proof (cases rule: sl_then_cases)
      case (err x)
      from publish_reports_step [OF err(1) fit] obtain ws where ws: "publishes p now ws ?s s'" by blast
      have "outcome_due (sl_queue s') cid st dt sq \<or> outcome_acked p now ws cid st dt sq"
        if "outcome_due (sl_queue s) cid st dt sq" for cid st dt sq
        using ws cd(3) [OF that] unfolding settled [OF ws] by (auto simp: publishes_def)
      with ws err(2) show ?thesis by (intro exI [of _ ws]) (auto simp: publishes_def)
    next
      case (ok s1)
      from publish_reports_step [OF ok(1) fit] obtain ws where ws: "publishes p now ws ?s s1"
        "\<forall>r \<in> set rs. \<forall>st dt sq. \<not> waiting (sl_queue s1) (rp_command r) st dt sq" by auto
      from publish_status_step [OF ok(2)] obtain ws' where ws': "publishes p now ws' s1 s'" by blast
      note all = publishes_trans [OF ws(1) ws']
      have none: "\<not> waiting (sl_queue s') cid st dt sq" for cid st dt sq
      proof
        assume w: "waiting (sl_queue s') cid st dt sq"
        with all have "waiting q cid st dt sq" by (auto simp: publishes_def)
        from pr(2) [OF this] obtain rp where "rp \<in> set rs" "rp_command rp = cid" by blast
        with ws(2) have "\<not> waiting (sl_queue s1) cid st dt sq" by blast
        with w ws' show False by (auto simp: publishes_def)
      qed
      have "outcome_acked p now (ws @ ws') cid st dt sq" if "outcome_due (sl_queue s) cid st dt sq" for cid st dt sq
        using all cd(3) [OF that] none unfolding publishes_def by auto
      moreover have "sl_sent s' = sl_sent s @ (ws @ ws')" using all by (simp add: publishes_def)
      ultimately show ?thesis using none unfolding settled [OF all] by blast
    qed
  qed
qed

subsection \<open>Runs\<close>

text \<open>
  Runs of the two threads in any order: \<open>ds\<close> are the datagrams received so far, \<open>ms\<close> the messages
  passed on to the command queue. The worker of the aircraft and the publishing change the command
  queue in between.
\<close>

inductive link_run :: "slave_params \<Rightarrow> (bytes \<times> address \<times> bool) list \<Rightarrow> pydict list \<Rightarrow> slave_link \<Rightarrow> bool" for p where
  start: "link_run p [] [] (slave_link_init q)"
| receive: "link_run p ds ms s \<Longrightarrow> receive_available p now n ds' s = (e, s') \<Longrightarrow> link_run p (ds @ ds') ms s'"
| persist: "link_run p ds ms s \<Longrightarrow> sl_intake s = m # rest \<Longrightarrow> persist_intake p env now ok s = (e, s') \<Longrightarrow> link_run p ds (ms @ [m]) s'"
| publish: "link_run p ds ms s \<Longrightarrow> publish_due p now sn u cs ok' saved so s = (e, s') \<Longrightarrow> link_run p ds ms s'"
| work: "link_run p ds ms s \<Longrightarrow> link_run p ds ms (s\<lparr>sl_queue := q\<rparr>)"
| close: "link_run p ds ms s \<Longrightarrow> link_run p ds ms (slave_close s)"

lemma persist_intake_intake: "persist_intake p env now ok s = (e, s') \<Longrightarrow> sl_intake s = m # rest \<Longrightarrow> sl_intake s' = rest"
  by (auto simp: persist_intake_def add_note_def Let_def split: prod.splits option.splits slave_exc.splits dest!: slave_send_fields(2))

lemma publish_reports_intake: "publish_reports p now ok saved i rs s = (e, s') \<Longrightarrow> sl_intake s' = sl_intake s"
proof (induction rs arbitrary: i s)
  case (Cons r rs)
  have one: "sl_intake s2 = sl_intake s" if "publish_report p now (ok i) (saved i) r s = (x, s2)" for x s2
    using that [unfolded publish_report_def Let_def]
    by (cases rule: sl_then_cases) (auto simp: add_note_def split: sum.splits prod.splits dest!: slave_send_fields(2))
  from Cons.prems show ?case unfolding publish_reports.simps
  proof (cases rule: sl_then_cases)
    case (ok s1)
    with one [OF ok(1)] Cons.IH [OF ok(2)] show ?thesis by simp
  qed (use one in simp)
qed simp

lemma publish_due_intake: "publish_due p now sn u cs ok saved so s = (e, s') \<Longrightarrow> sl_intake s' = sl_intake s"
proof -
  have st: "sl_intake s2 = sl_intake s1" if "publish_status p now sn u so s1 = (x, s2)" for s1 x s2
    using that by (auto simp: publish_status_def Let_def split: if_splits sum.splits dest!: slave_send_fields(2))
  assume a: "publish_due p now sn u cs ok saved so s = (e, s')"
  show ?thesis
  proof (cases "completed cs (sl_queue s)")
    case (Pair r q)
    with a show ?thesis
      by (cases r) (auto simp: publish_due_def elim!: sl_then_cases dest!: publish_reports_intake st)
  qed
qed

text \<open>However the threads interleave, everything that reaches the command queue, and everything
  waiting for it, came in a datagram from the exact peer address that decodes to a valid message from
  the rover to aircraft_2, and no more than \<open>intake_capacity\<close> messages wait.\<close>

theorem only_rover_messages_queued:
  assumes "link_run p ds ms s"
  shows "(\<forall>m \<in> set ms \<union> set (sl_intake s). from_rover p ds m) \<and> length (sl_intake s) \<le> sp_capacity p"
  using assms
proof (induction rule: link_run.induct)
  case (receive ds ms s now n ds' e s')
  from receive_available_intake [OF receive.hyps(2)] obtain ms' where
    "sl_intake s' = sl_intake s @ ms'" "\<forall>m \<in> set ms'. from_rover p ds' m"
    "length (sl_intake s') \<le> max (length (sl_intake s)) (sp_capacity p)" by auto
  with receive.IH show ?case by (auto intro: from_rover_mono [of p ds] from_rover_mono [of p ds'])
next
  case (persist ds ms s m rest env now ok e s')
  with persist_intake_intake [OF persist.hyps(3,2)] show ?case by auto
qed (auto simp: slave_link_init_def slave_close_def publish_due_intake)

subsection \<open>Samples\<close>

definition sample_params :: slave_params where
  "sample_params = \<lparr>sp_peer = (''192.168.4.2'', 14610), sp_capacity = 2, sp_interval = 1, sp_queue = sample_queue_config\<rparr>"

lemma sample_wire:
  obtains w where "decode_node_message w None max_datagram_bytes = Inr (dict_sorted sample_node_message)"
proof -
  have "map_option (\<lambda>t. length (utf8 t) \<le> 4096) (dumps False (JObj sample_node_message)) = Some True" by code_simp
  then obtain w where "encode_node_message sample_node_message max_datagram_bytes = Inr w"
    using sample_node_message_facts(2) by (auto simp: encode_node_message_def canonical_json_def max_datagram_bytes_def)
  from node_decode_encode [OF this sample_node_message_facts(1)] that show thesis by blast
qed

lemma sample_wire_fields:
  "fld (dict_sorted sample_node_message) ''target'' = JStr ''aircraft_2''"
  "fld (dict_sorted sample_node_message) ''source'' = JStr ''rover''"
  by (simp_all add: fld_def map_of_dict_sorted sample_node_message_def)

theorem only_rover_messages_queued_witness:
  "\<exists>w s. link_run sample_params [(w, (''192.168.4.2'', 14610), True)] [] s \<and> sl_intake s = [dict_sorted sample_node_message]
     \<and> from_rover sample_params [(w, (''192.168.4.2'', 14610), True)] (dict_sorted sample_node_message)"
proof -
  obtain w where w: "decode_node_message w None max_datagram_bytes = Inr (dict_sorted sample_node_message)" by (rule sample_wire)
  let ?ds = "[(w, (''192.168.4.2'', 14610), True)]" and ?s = "(slave_link_init sample_queue)\<lparr>sl_last_peer_at := real_of (JInt 9),
    sl_intake := [dict_sorted sample_node_message]\<rparr>"
  have "receive_available sample_params (JInt 9) (Suc 0) ?ds (slave_link_init sample_queue) = (None, ?s)"
    by (simp add: slave_datagram_def w sample_wire_fields slave_enqueue_def sample_params_def slave_link_init_def sl_then_def Let_def)
  from link_run.receive [OF link_run.start this] have r: "link_run sample_params ?ds [] ?s" by simp
  from only_rover_messages_queued [OF r] r show ?thesis by fastforce
qed

text \<open>One command whose result the table does not have yet\<close>

definition sample_outcome_queue :: node_queue where
  "sample_outcome_queue = sample_queue\<lparr>nq_inbox := \<lparr>mem = empty_inbox\<lparr>i_results := [\<lparr>o_command_id = uuid_str 5,
       o_stage = ''COMPLETED'', o_detail = ''landed'', o_extra = []\<rparr>]\<rparr>, disk = empty_inbox\<rparr>,
     nq_delivery := [(uuid_str 5, \<lparr>d_sequence = 3, d_stage = ''QUEUED'', d_mission_id = [],
     d_type = ''command'', d_fingerprint = [], d_terminal = [], d_worker = [], d_detail = [],
     d_delivered = False, d_updated = 1\<rparr>)]\<rparr>"

theorem outcomes_reported_witness:
  "\<exists>e s'. publish_due sample_params (JInt 9) (JBool True, []) 1 True (\<lambda>_. True) (\<lambda>_. True) True
       (slave_link_init sample_outcome_queue) = (e, s')
     \<and> (outcome_due (sl_queue s') (uuid_str 5) ''VERIFIED'' ''landed'' 3
        \<or> outcome_acked sample_params (JInt 9) (sl_sent s') (uuid_str 5) ''VERIFIED'' ''landed'' 3)"
proof -
  obtain e s' where r: "publish_due sample_params (JInt 9) (JBool True, []) 1 True (\<lambda>_. True) (\<lambda>_. True) True
       (slave_link_init sample_outcome_queue) = (e, s')" by (metis surj_pair)
  have "outcome_due (sl_queue (slave_link_init sample_outcome_queue)) (uuid_str 5) ''VERIFIED'' ''landed'' 3"
    "sl_sent (slave_link_init sample_outcome_queue) = []" "distinct (map fst (nq_delivery (sl_queue (slave_link_init sample_outcome_queue))))"
    by (simp_all add: outcome_due_def slave_link_init_def sample_outcome_queue_def last_result_def terminal_of_def)
  with outcomes_reported [OF r] r show ?thesis by auto
qed

end
