(* ===== verification/Vision.thy ===== *)
theory Vision
  imports MissionWorker
begin

text \<open>
  The vision core: \<open>vision/config.py\<close>, \<open>optical_state.py\<close>, \<open>geometry.py\<close>, \<open>guided_tracker.py\<close>,
  \<open>precision_landing.py\<close> and \<open>mode_controller.py\<close>. The detector works on images with OpenCV or numpy;
  its detections are inputs. Floats are real numbers, so neither rounding nor NaN is modelled.
\<close>

subsection \<open>Configuration\<close>

record camera_config =
  cam_width :: int
  cam_height :: int
  cam_fx :: real
  cam_fy :: real
  cam_cx :: real
  cam_cy :: real
  cam_forward :: real
  cam_right :: real

text \<open>The checks of the constructors; the orientation is FORWARD\<close>

definition camera_ok :: "camera_config \<Rightarrow> bool" where
  "camera_ok c \<longleftrightarrow> \<not> (cam_fx c \<le> 0 \<or> cam_fy c \<le> 0)"

record tracker_config =
  tk_alpha :: real
  tk_deadband :: real
  tk_gain_forward :: real
  tk_gain_right :: real
  tk_max_speed :: real
  tk_max_accel :: real
  tk_stale_after :: real
  tk_pixel_deadzone :: real
  tk_pixel_gain_forward :: real
  tk_pixel_gain_right :: real
  tk_pixel_max_speed :: real
  tk_pixel_send_hz :: real

definition tracker_ok :: "tracker_config \<Rightarrow> bool" where
  "tracker_ok c \<longleftrightarrow> 0 < tk_alpha c \<and> tk_alpha c \<le> 1
     \<and> \<not> list_ex (\<lambda>x. x < 0) [tk_deadband c, tk_max_speed c, tk_max_accel c, tk_stale_after c, tk_pixel_deadzone c,
         tk_pixel_max_speed c]
     \<and> \<not> tk_pixel_send_hz c \<le> 0"

record landing_config =
  pl_acquire_count :: int
  pl_loss_count :: int
  pl_send_hz :: real
  pl_stale_after :: real
  pl_min_altitude :: real

definition landing_ok :: "landing_config \<Rightarrow> bool" where
  "landing_ok c \<longleftrightarrow> \<not> (pl_acquire_count c < 1 \<or> pl_loss_count c < 1) \<and> \<not> (pl_send_hz c \<le> 0 \<or> pl_stale_after c < 0)
     \<and> \<not> pl_min_altitude c \<le> 0"

record detection =
  dt_x :: real
  dt_y :: real
  dt_area :: real
  dt_confidence :: real
  dt_timestamp :: real

subsection \<open>Optical state\<close>

record optical_state =
  os_acquire :: nat
  os_loss :: nat
  os_locked :: bool

definition optical_init :: optical_state where
  "optical_init = \<lparr>os_acquire = 0, os_loss = 0, os_locked = False\<rparr>"

record optical_snapshot =
  op_locked :: bool
  op_blocked :: bool
  op_confidence :: real
  op_area :: real
  op_acquire :: nat
  op_loss :: nat
  op_timestamp :: real

definition optical_update :: "int \<Rightarrow> detection option \<Rightarrow> real \<Rightarrow> optical_state \<Rightarrow> optical_snapshot \<times> optical_state" where
  "optical_update need d ts s =
     (case d of
        None \<Rightarrow>
          (let s' = \<lparr>os_acquire = 0, os_loss = os_loss s + 1, os_locked = False\<rparr> in
           (\<lparr>op_locked = False, op_blocked = True, op_confidence = 0, op_area = 0, op_acquire = 0,
             op_loss = os_loss s', op_timestamp = ts\<rparr>, s'))
      | Some t \<Rightarrow>
          (let s' = \<lparr>os_acquire = os_acquire s + 1, os_loss = 0, os_locked = (need \<le> int (os_acquire s + 1))\<rparr> in
           (\<lparr>op_locked = os_locked s', op_blocked = (\<not> os_locked s'), op_confidence = dt_confidence t, op_area = dt_area t,
             op_acquire = os_acquire s', op_loss = 0, op_timestamp = dt_timestamp t\<rparr>, s')))"

subsection \<open>Geometry\<close>

record body_offset =
  bo_forward :: real
  bo_right :: real

record body_angles =
  ba_x :: real
  ba_y :: real

text \<open>\<open>math.atan2(y, x)\<close> for a positive \<open>x\<close>, which is all the code calls it with\<close>

definition atan2_pos :: "real \<Rightarrow> real \<Rightarrow> real" where
  "atan2_pos y x = arctan (y / x)"

text \<open>None: ValueError\<close>

definition body_offset_of :: "real \<Rightarrow> real \<Rightarrow> real \<Rightarrow> camera_config \<Rightarrow> body_offset option" where
  "body_offset_of x y altitude cam =
     (if altitude \<le> 0 then None
      else
        let right = (x - cam_cx cam) / cam_fx cam * altitude; down = (y - cam_cy cam) / cam_fy cam * altitude
        in Some \<lparr>bo_forward = - down - cam_forward cam, bo_right = right - cam_right cam\<rparr>)"

definition body_angles_of :: "real \<Rightarrow> real \<Rightarrow> camera_config \<Rightarrow> real \<Rightarrow> body_angles" where
  "body_angles_of x y cam altitude =
     (let right = (x - cam_cx cam) / cam_fx cam; forward = - (y - cam_cy cam) / cam_fy cam;
          forward1 = (if 0 < altitude then forward - cam_forward cam / altitude else forward);
          right1 = (if 0 < altitude then right - cam_right cam / altitude else right)
      in \<lparr>ba_x = atan2_pos right1 1, ba_y = atan2_pos (- forward1) 1\<rparr>)"

subsection \<open>Guided tracker\<close>

record correction =
  co_forward :: real
  co_right :: real
  co_down :: real
  co_timestamp :: real

record tracker =
  tr_filtered :: "body_offset option"
  tr_velocity :: body_offset
  tr_last_update :: "real option"
  tr_last_pixel :: "real option"

definition no_offset :: body_offset where
  "no_offset = \<lparr>bo_forward = 0, bo_right = 0\<rparr>"

definition tracker_init :: tracker where
  "tracker_init = \<lparr>tr_filtered = None, tr_velocity = no_offset, tr_last_update = None, tr_last_pixel = None\<rparr>"

definition tracker_reset :: "tracker \<Rightarrow> tracker" where
  "tracker_reset s = s\<lparr>tr_filtered := None, tr_velocity := no_offset, tr_last_update := None, tr_last_pixel := None\<rparr>"

text \<open>\<open>max(-limit, min(limit, v))\<close>\<close>

definition clamp :: "real \<Rightarrow> real \<Rightarrow> real" where
  "clamp bound v = max (- bound) (min bound v)"

definition low_pass :: "tracker_config \<Rightarrow> body_offset \<Rightarrow> tracker \<Rightarrow> body_offset" where
  "low_pass c off s = (case tr_filtered s of
     None \<Rightarrow> off
   | Some f \<Rightarrow> \<lparr>bo_forward = tk_alpha c * bo_forward off + (1 - tk_alpha c) * bo_forward f,
       bo_right = tk_alpha c * bo_right off + (1 - tk_alpha c) * bo_right f\<rparr>)"

definition axis_target :: "tracker_config \<Rightarrow> real \<Rightarrow> real \<Rightarrow> real" where
  "axis_target c err gain = (if \<bar>err\<bar> < tk_deadband c then 0 else clamp (tk_max_speed c) (gain * err))"

definition accel_limit :: "tracker_config \<Rightarrow> real \<Rightarrow> real \<Rightarrow> real \<Rightarrow> real" where
  "accel_limit c previous target dt =
     (let d = tk_max_accel c * dt in max (previous - d) (min (previous + d) target))"

definition pixel_axis :: "tracker_config \<Rightarrow> real \<Rightarrow> real \<Rightarrow> real \<Rightarrow> real" where
  "pixel_axis c pixels normalized gain =
     (if \<bar>pixels\<bar> \<le> tk_pixel_deadzone c then 0 else clamp (tk_pixel_max_speed c) (gain * normalized))"

definition mode_is :: "string \<Rightarrow> string \<Rightarrow> bool" where
  "mode_is mode m \<longleftrightarrow> py_upper (py_strip mode) = m"

definition stale :: "real \<Rightarrow> real \<Rightarrow> real option \<Rightarrow> bool" where
  "stale after now t = (case t of None \<Rightarrow> True | Some x \<Rightarrow> after < now - x)"

definition tracker_update :: "tracker_config \<Rightarrow> body_offset option \<Rightarrow> string \<Rightarrow> real option \<Rightarrow> real \<Rightarrow> tracker \<Rightarrow>
    correction option \<times> tracker" where
  "tracker_update c off mode frame_at now s =
     (case off of
        None \<Rightarrow> (None, tracker_reset s)
      | Some o' \<Rightarrow>
          if \<not> mode_is mode ''GUIDED'' \<or> stale (tk_stale_after c) now frame_at then (None, s)
          else
            let f = low_pass c o' s; s1 = s\<lparr>tr_filtered := Some f\<rparr>;
                target_forward = axis_target c (bo_forward f) (tk_gain_forward c);
                target_right = axis_target c (bo_right f) (tk_gain_right c)
            in case tr_last_update s of
                 None \<Rightarrow> (Some \<lparr>co_forward = 0, co_right = 0, co_down = 0, co_timestamp = now\<rparr>,
                   s1\<lparr>tr_last_update := Some now, tr_velocity := no_offset\<rparr>)
               | Some t \<Rightarrow>
                   let dt = max 0 (now - t);
                       forward = accel_limit c (bo_forward (tr_velocity s)) target_forward dt;
                       right = accel_limit c (bo_right (tr_velocity s)) target_right dt
                   in (Some \<lparr>co_forward = forward, co_right = right, co_down = 0, co_timestamp = now\<rparr>,
                       s1\<lparr>tr_velocity := \<lparr>bo_forward = forward, bo_right = right\<rparr>, tr_last_update := Some now\<rparr>))"

record pixel_target =
  px_x :: "real option"
  px_y :: "real option"
  px_width :: int
  px_height :: int
  px_desired_x :: "real option"
  px_desired_y :: "real option"

definition or_centre :: "int \<Rightarrow> real option \<Rightarrow> real" where
  "or_centre extent d = (case d of None \<Rightarrow> of_int extent / 2 | Some x \<Rightarrow> x)"

definition update_pixels :: "tracker_config \<Rightarrow> pixel_target \<Rightarrow> string \<Rightarrow> real option \<Rightarrow> real \<Rightarrow> tracker \<Rightarrow>
    correction option \<times> tracker" where
  "update_pixels c p mode frame_at now s =
     (case (px_x p, px_y p) of
        (Some x, Some y) \<Rightarrow>
          if \<not> mode_is mode ''GUIDED'' \<or> stale (tk_stale_after c) now frame_at \<or> px_width p \<le> 0 \<or> px_height p \<le> 0
            then (None, tracker_reset s)
          else if (case tr_last_pixel s of None \<Rightarrow> False | Some t \<Rightarrow> now - t < 1 / tk_pixel_send_hz c) then (None, s)
          else
            let error_x = x - or_centre (px_width p) (px_desired_x p); error_y = y - or_centre (px_height p) (px_desired_y p);
                normalized_x = error_x / (of_int (px_width p) / 2);
                normalized_forward = - error_y / (of_int (px_height p) / 2)
            in (Some \<lparr>co_forward = pixel_axis c error_y normalized_forward (tk_pixel_gain_forward c),
                  co_right = pixel_axis c error_x normalized_x (tk_pixel_gain_right c), co_down = 0, co_timestamp = now\<rparr>,
                s\<lparr>tr_last_pixel := Some now\<rparr>)
      | _ \<Rightarrow> (None, tracker_reset s))"

subsection \<open>Precision landing\<close>

record landing_target =
  lt_time_usec :: int
  lt_angle_x :: real
  lt_angle_y :: real
  lt_distance :: real
  lt_position_valid :: int
  lt_altitude :: real
  lt_altitude_source :: string
  lt_confidence :: real
  lt_horizontal_error :: real
  lt_frequency :: real

record landing_snapshot =
  ls_acquired :: bool
  ls_acquire_count :: nat
  ls_loss_count :: nat
  ls_angle_x :: "real option"
  ls_angle_y :: "real option"
  ls_altitude :: "real option"
  ls_altitude_source :: string
  ls_confidence :: real
  ls_horizontal_error :: "real option"
  ls_frequency :: real

record landing =
  ld_acquire :: nat
  ld_loss :: nat
  ld_acquired :: bool
  ld_last_emit :: "real option"
  ld_snapshot :: landing_snapshot

definition empty_snapshot :: landing_snapshot where
  "empty_snapshot = \<lparr>ls_acquired = False, ls_acquire_count = 0, ls_loss_count = 0, ls_angle_x = None, ls_angle_y = None,
     ls_altitude = None, ls_altitude_source = ''unknown'', ls_confidence = 0, ls_horizontal_error = None, ls_frequency = 0\<rparr>"

definition landing_init :: landing where
  "landing_init = \<lparr>ld_acquire = 0, ld_loss = 0, ld_acquired = False, ld_last_emit = None, ld_snapshot = empty_snapshot\<rparr>"

definition record_loss :: "landing_config \<Rightarrow> string \<Rightarrow> landing \<Rightarrow> landing" where
  "record_loss c src s =
     (let lost = (pl_loss_count c \<le> int (ld_loss s + 1));
          s1 = s\<lparr>ld_loss := ld_loss s + 1, ld_acquired := (if lost then False else ld_acquired s),
            ld_acquire := (if lost then 0 else ld_acquire s)\<rparr>
      in s1\<lparr>ld_snapshot := \<lparr>ls_acquired = ld_acquired s1, ls_acquire_count = ld_acquire s1, ls_loss_count = ld_loss s1,
           ls_angle_x = None, ls_angle_y = None, ls_altitude = None,
           ls_altitude_source = (if src = [] then ''unknown'' else src), ls_confidence = 0, ls_horizontal_error = None,
           ls_frequency = 0\<rparr>\<rparr>)"

definition set_snapshot :: "body_angles \<Rightarrow> real \<Rightarrow> string \<Rightarrow> real \<Rightarrow> real \<Rightarrow> real \<Rightarrow> landing \<Rightarrow> landing" where
  "set_snapshot a altitude src confidence err freq s =
     s\<lparr>ld_snapshot := \<lparr>ls_acquired = ld_acquired s, ls_acquire_count = ld_acquire s, ls_loss_count = ld_loss s,
        ls_angle_x = Some (ba_x a), ls_angle_y = Some (ba_y a), ls_altitude = Some altitude, ls_altitude_source = src,
        ls_confidence = confidence, ls_horizontal_error = Some err, ls_frequency = freq\<rparr>\<rparr>"

definition source_known :: "string \<Rightarrow> bool" where
  "source_known src \<longleftrightarrow> py_strip src \<noteq> [] \<and> py_lower (py_strip src) \<noteq> ''unknown''"

record landing_input =
  li_offset :: "body_offset option"
  li_detection :: "detection option"
  li_altitude :: real
  li_source :: string
  li_frame_at :: "real option"
  li_angles :: "body_angles option"
  li_distance :: "real option"

definition landing_valid :: "landing_config \<Rightarrow> landing_input \<Rightarrow> real \<Rightarrow> bool" where
  "landing_valid c i now \<longleftrightarrow> li_detection i \<noteq> None
     \<and> (case li_frame_at i of None \<Rightarrow> False | Some t \<Rightarrow> 0 \<le> now - t \<and> now - t \<le> pl_stale_after c)
     \<and> (li_angles i \<noteq> None \<or> li_offset i \<noteq> None \<and> pl_min_altitude c \<le> li_altitude i \<and> source_known (li_source i))"

text \<open>\<open>update\<close>, whose argument \<open>mode\<close> the code does not look at\<close>

definition landing_update :: "landing_config \<Rightarrow> landing_input \<Rightarrow> real \<Rightarrow> landing \<Rightarrow> landing_target option \<times> landing" where
  "landing_update c i now s =
     (if \<not> landing_valid c i now then (None, record_loss c (li_source i) s)
      else
        let s1 = s\<lparr>ld_loss := 0, ld_acquire := ld_acquire s + 1,
              ld_acquired := (if pl_acquire_count c \<le> int (ld_acquire s + 1) then True else ld_acquired s)\<rparr>;
            a = (case li_angles i of
                Some x \<Rightarrow> x
              | None \<Rightarrow> (case li_offset i of
                    Some o' \<Rightarrow> \<lparr>ba_x = atan2_pos (bo_right o') (li_altitude i), ba_y = atan2_pos (- bo_forward o') (li_altitude i)\<rparr>
                  | None \<Rightarrow> \<lparr>ba_x = 0, ba_y = 0\<rparr>));
            err = (case li_offset i of Some o' \<Rightarrow> sqrt ((bo_forward o')\<^sup>2 + (bo_right o')\<^sup>2) | None \<Rightarrow> 0);
            conf = (case li_detection i of Some d \<Rightarrow> dt_confidence d | None \<Rightarrow> 0)
        in if (case ld_last_emit s of None \<Rightarrow> False | Some t \<Rightarrow> now - t < 1 / pl_send_hz c)
           then (None, set_snapshot a (li_altitude i) (li_source i) conf err (ls_frequency (ld_snapshot s1)) s1)
           else
             let freq = (case ld_last_emit s of None \<Rightarrow> 0 | Some t \<Rightarrow> if 0 < now - t then 1 / (now - t) else 0);
                 s2 = set_snapshot a (li_altitude i) (li_source i) conf err freq s1
             in if \<not> ld_acquired s2 then (None, s2)
                else (Some \<lparr>lt_time_usec = trunc (now * 1000000), lt_angle_x = ba_x a, lt_angle_y = ba_y a,
                    lt_distance = (case li_distance i of Some d \<Rightarrow> d | None \<Rightarrow> sqrt ((li_altitude i)\<^sup>2 + err\<^sup>2)),
                    lt_position_valid = 0, lt_altitude = li_altitude i, lt_altitude_source = li_source i, lt_confidence = conf,
                    lt_horizontal_error = err, lt_frequency = freq\<rparr>, s2\<lparr>ld_last_emit := Some now\<rparr>))"

definition landing_reset :: "landing \<Rightarrow> landing" where
  "landing_reset s = landing_init"

subsection \<open>Mode controller\<close>

record vision_config =
  vc_optical_acquire :: int
  vc_camera :: camera_config
  vc_tracker :: tracker_config
  vc_landing :: landing_config
  vc_final_altitude :: real

record vision =
  vs_optical :: optical_state
  vs_tracker :: tracker
  vs_landing :: landing
  vs_final :: bool

definition vision_init :: vision where
  "vision_init = \<lparr>vs_optical = optical_init, vs_tracker = tracker_init, vs_landing = landing_init, vs_final = False\<rparr>"

text \<open>What \<open>process\<close> is called with, the detector's answer and the shape of the frame\<close>

record frame_input =
  fi_detection :: "detection option"
  fi_width :: int
  fi_height :: int
  fi_mode :: string
  fi_altitude :: real
  fi_source :: string
  fi_timestamp :: real
  fi_now :: real

record vision_output =
  vo_detection :: "detection option"
  vo_optical :: optical_snapshot
  vo_correction :: "correction option"
  vo_takeover :: bool
  vo_landing :: "landing_target option"
  vo_final :: bool

definition fresh_detection :: "vision_config \<Rightarrow> frame_input \<Rightarrow> detection option" where
  "fresh_detection c i = (case fi_detection i of
     None \<Rightarrow> None
   | Some d \<Rightarrow> if fi_now i - dt_timestamp d \<le> tk_stale_after (vc_tracker c) then Some d else None)"

definition final_descent :: "vision_config \<Rightarrow> frame_input \<Rightarrow> bool \<Rightarrow> bool" where
  "final_descent c i active =
     (if py_upper (py_strip (fi_mode i)) \<notin> {''LAND'', ''QLAND''} then False
      else active \<or> 0 < fi_altitude i \<and> source_known (fi_source i) \<and> fi_altitude i \<le> vc_final_altitude c)"

text \<open>The pixel the beacon should have; None for the division by an image size of zero\<close>

definition desired_centre :: "vision_config \<Rightarrow> frame_input \<Rightarrow> (real \<times> real) option" where
  "desired_centre c i =
     (let w = of_int (fi_width i) :: real; h = of_int (fi_height i) :: real; cam = vc_camera c; alt = fi_altitude i in
      if 0 < alt then
        (if cam_width cam = 0 \<or> cam_height cam = 0 then None
         else
           let fx = cam_fx cam * w / of_int (cam_width cam); fy = cam_fy cam * h / of_int (cam_height cam)
           in Some (max 0 (min w (w / 2 - cam_right cam / alt * fx)), max 0 (min h (h / 2 + cam_forward cam / alt * fy))))
      else Some (w / 2, h / 2))"

definition vision_track :: "vision_config \<Rightarrow> frame_input \<Rightarrow> detection option \<Rightarrow> bool \<Rightarrow> tracker \<Rightarrow>
    (correction option \<times> tracker) option" where
  "vision_track c i d locked s =
     (case d of
        Some t \<Rightarrow>
          if py_upper (py_strip (fi_mode i)) = ''GUIDED'' \<and> locked then
            map_option (\<lambda>(x, y). update_pixels (vc_tracker c)
                \<lparr>px_x = Some (dt_x t), px_y = Some (dt_y t), px_width = fi_width i, px_height = fi_height i,
                  px_desired_x = Some x, px_desired_y = Some y\<rparr> (fi_mode i) (Some (dt_timestamp t)) (fi_now i) s)
              (desired_centre c i)
          else Some (tracker_update (vc_tracker c) None (fi_mode i) None (fi_now i) s)
      | None \<Rightarrow> Some (tracker_update (vc_tracker c) None (fi_mode i) None (fi_now i) s))"

definition vision_process :: "vision_config \<Rightarrow> frame_input \<Rightarrow> vision \<Rightarrow> (vision_output \<times> vision) option" where
  "vision_process c i s =
     (let d = fresh_detection c i in
      case optical_update (vc_optical_acquire c) d (fi_timestamp i) (vs_optical s) of (op, o') \<Rightarrow>
        let fin = final_descent c i (vs_final s);
            off = (case d of None \<Rightarrow> None | Some t \<Rightarrow> if 0 < fi_altitude i
              then body_offset_of (dt_x t) (dt_y t) (fi_altitude i) (vc_camera c) else None);
            angles = map_option (\<lambda>t. body_angles_of (dt_x t) (dt_y t) (vc_camera c) (fi_altitude i)) d
        in (case vision_track c i d (op_locked op) (vs_tracker s) of
              None \<Rightarrow> None
            | Some (corr, tr) \<Rightarrow>
                (let lres = (if fin then (None, vs_landing s) else landing_update (vc_landing c)
                   \<lparr>li_offset = off, li_detection = d, li_altitude = fi_altitude i, li_source = fi_source i,
                     li_frame_at = map_option dt_timestamp d, li_angles = angles,
                     li_distance = (if 0 < fi_altitude i then None else Some 0)\<rparr> (fi_now i) (vs_landing s))
                 in Some (\<lparr>vo_detection = d, vo_optical = op, vo_correction = corr, vo_takeover = op_blocked op,
                      vo_landing = fst lres, vo_final = fin\<rparr>,
                     \<lparr>vs_optical = o', vs_tracker = tr, vs_landing = snd lres, vs_final = fin\<rparr>))))"

end
