(* ===== verification/VisionProps.thy ===== *)
theory VisionProps
  imports Vision
begin

text \<open>
  The vision core: when the optical link counts as locked, when the tracker steers and how hard, and
  when and how often landing targets are sent.
\<close>

subsection \<open>The lock is a run of detections\<close>

text \<open>The detections at the end of a list of frames, without a gap\<close>

definition trailing :: "'a option list \<Rightarrow> nat" where
  "trailing ds = length (takeWhile (\<lambda>d. d \<noteq> None) (rev ds))"

lemma trailing_snoc: "trailing (ds @ [d]) = (if d = None then 0 else trailing ds + 1)"
  by (simp add: trailing_def)

lemma trailing_nth:
  assumes "k < trailing ds"
  shows "ds ! (length ds - 1 - k) \<noteq> None"
proof -
  have k: "k < length ds" using assms length_takeWhile_le [of "\<lambda>d. d \<noteq> None" "rev ds"] by (simp add: trailing_def)
  let ?t = "takeWhile (\<lambda>d. d \<noteq> None) (rev ds)"
  have l: "k < length ?t" using assms by (simp only: trailing_def)
  have "?t ! k \<noteq> None" using set_takeWhileD [OF nth_mem [OF l]] by blast
  then have "rev ds ! k \<noteq> None" by (simp only: takeWhile_nth [OF l] not_False_eq_True)
  with k show ?thesis by (simp add: rev_nth)
qed

subsection \<open>Runs of the controller\<close>

fun vision_run :: "vision_config \<Rightarrow> frame_input list \<Rightarrow> vision \<Rightarrow> (vision_output list \<times> vision) option" where
  "vision_run c [] s = Some ([], s)"
| "vision_run c (i # is) s = (case vision_process c i s of
     None \<Rightarrow> None
   | Some (out, s1) \<Rightarrow> map_option (\<lambda>(outs, s2). (out # outs, s2)) (vision_run c is s1))"

lemma vision_run_append:
  "vision_run c (is @ [i]) s = Some (outs, s') \<longleftrightarrow>
     (\<exists>outs1 s1 out. vision_run c is s = Some (outs1, s1) \<and> vision_process c i s1 = Some (out, s') \<and> outs = outs1 @ [out])"
proof (induction "is" arbitrary: s outs)
  case Nil
  show ?case by (auto split: option.splits)
next
  case (Cons j js)
  show ?case by (auto simp: Cons split: option.splits prod.splits)
qed

lemma vision_run_nth:
  assumes "vision_run c is s = Some (outs, s')" "j < length is"
  obtains s0 s1 where "vision_run c (take j is) s = Some (take j outs, s0)" "vision_process c (is ! j) s0 = Some (outs ! j, s1)"
    "vision_run c (take (Suc j) is) s = Some (take (Suc j) outs, s1)"
proof -
  have "\<exists>s0 s1. vision_run c (take j is) s = Some (take j outs, s0) \<and> vision_process c (is ! j) s0 = Some (outs ! j, s1)
      \<and> vision_run c (take (Suc j) is) s = Some (take (Suc j) outs, s1)"
    using assms
  proof (induction "is" arbitrary: s outs j)
    case (Cons i "is")
    from Cons.prems(1) obtain out s1 outs1 where r: "vision_process c i s = Some (out, s1)" "vision_run c is s1 = Some (outs1, s')"
      "outs = out # outs1" by (auto split: option.splits prod.splits)
    show ?case
    proof (cases j)
      case 0
      with r show ?thesis by simp
    next
      case (Suc k)
      with Cons.IH [OF r(2), of k] Cons.prems(2) r show ?thesis by auto
    qed
  qed simp
  with that show thesis by blast
qed

lemma vision_process_optical:
  assumes "vision_process c i s = Some (out, s')"
  shows "vs_optical s' = snd (optical_update (vc_optical_acquire c) (fresh_detection c i) (fi_timestamp i) (vs_optical s))"
    and "vo_optical out = fst (optical_update (vc_optical_acquire c) (fresh_detection c i) (fi_timestamp i) (vs_optical s))"
    and "vo_takeover out = op_blocked (vo_optical out)"
  using assms by (auto simp: vision_process_def Let_def split: prod.splits option.splits)

lemma optical_update_state:
  "snd (optical_update need d ts s) = \<lparr>os_acquire = (if d = None then 0 else os_acquire s + 1),
     os_loss = (if d = None then os_loss s + 1 else 0), os_locked = (d \<noteq> None \<and> need \<le> int (os_acquire s + 1))\<rparr>"
  "op_locked (fst (optical_update need d ts s)) = os_locked (snd (optical_update need d ts s))"
  "op_blocked (fst (optical_update need d ts s)) = (\<not> os_locked (snd (optical_update need d ts s)))"
  by (simp_all add: optical_update_def Let_def split: option.split)

lemma vision_run_optical:
  "vision_run c is vision_init = Some (outs, s) \<Longrightarrow>
     os_acquire (vs_optical s) = trailing (map (fresh_detection c) is)
     \<and> (os_locked (vs_optical s) \<longleftrightarrow> is \<noteq> [] \<and> fresh_detection c (last is) \<noteq> None
         \<and> vc_optical_acquire c \<le> int (trailing (map (fresh_detection c) is)))"
proof (induction "is" arbitrary: outs s rule: rev_induct)
  case Nil
  then show ?case by (auto simp: vision_init_def optical_init_def trailing_def)
next
  case (snoc i "is")
  from snoc.prems obtain outs1 s1 out where r: "vision_run c is vision_init = Some (outs1, s1)" "vision_process c i s1 = Some (out, s)"
    by (auto simp: vision_run_append)
  from snoc.IH [OF r(1)] vision_process_optical(1) [OF r(2)] show ?case
    by (simp add: optical_update_state trailing_snoc)
qed

subsection \<open>Corrections\<close>

lemma clamp_bounds: "0 \<le> b \<Longrightarrow> \<bar>clamp b v\<bar> \<le> b"
  by (auto simp: clamp_def)

lemma pixel_axis_bounds: "0 \<le> tk_pixel_max_speed c \<Longrightarrow> \<bar>pixel_axis c p n g\<bar> \<le> tk_pixel_max_speed c"
  by (simp add: pixel_axis_def clamp_bounds)

lemma update_pixels_correction:
  assumes "update_pixels c p mode frame_at now s = (Some k, s')" "0 \<le> tk_pixel_max_speed c"
  shows "mode_is mode ''GUIDED'' \<and> \<not> stale (tk_stale_after c) now frame_at
    \<and> \<bar>co_forward k\<bar> \<le> tk_pixel_max_speed c \<and> \<bar>co_right k\<bar> \<le> tk_pixel_max_speed c \<and> co_down k = 0"
  using assms pixel_axis_bounds [OF assms(2)]
  by (auto simp: update_pixels_def Let_def split: option.splits if_splits)

lemma vision_process_correction:
  assumes "vision_process c i s = Some (out, s')" "vo_correction out = Some k" "0 \<le> tk_pixel_max_speed (vc_tracker c)"
  shows "mode_is (fi_mode i) ''GUIDED'' \<and> op_locked (vo_optical out) \<and> fresh_detection c i \<noteq> None
    \<and> \<bar>co_forward k\<bar> \<le> tk_pixel_max_speed (vc_tracker c) \<and> \<bar>co_right k\<bar> \<le> tk_pixel_max_speed (vc_tracker c) \<and> co_down k = 0"
proof -
  obtain op o' where op: "optical_update (vc_optical_acquire c) (fresh_detection c i) (fi_timestamp i) (vs_optical s) = (op, o')"
    by (cases "optical_update (vc_optical_acquire c) (fresh_detection c i) (fi_timestamp i) (vs_optical s)")
  obtain tr where t: "vision_track c i (fresh_detection c i) (op_locked op) (vs_tracker s) = Some (Some k, tr)" "vo_optical out = op"
    using assms(1,2) op by (auto simp: vision_process_def Let_def split: option.splits prod.splits)
  then obtain d where d: "fresh_detection c i = Some d" "mode_is (fi_mode i) ''GUIDED''" "op_locked op"
    by (auto simp: vision_track_def tracker_update_def mode_is_def split: option.splits if_splits)
  obtain x y where "update_pixels (vc_tracker c) \<lparr>px_x = Some (dt_x d), px_y = Some (dt_y d), px_width = fi_width i,
      px_height = fi_height i, px_desired_x = Some x, px_desired_y = Some y\<rparr> (fi_mode i) (Some (dt_timestamp d)) (fi_now i)
      (vs_tracker s) = (Some k, tr)"
    using t d by (auto simp: vision_track_def mode_is_def split: prod.splits)
  from update_pixels_correction [OF this assms(3)] d t(2) show ?thesis by simp
qed

text \<open>C24: in every run of the vision controller, a frame that yields a correction was taken in GUIDED mode,
  and it and the frames before it, \<open>acquire_count\<close> in all, each had a fresh detection, the link being
  reported as not blocked; the velocities are at most \<open>pixel_max_speed_mps\<close> and never vertical.\<close>

theorem corrections_only_when_locked:
  assumes "vision_run c is vision_init = Some (outs, s)" and "tracker_ok (vc_tracker c)"
    and "j < length is" and "vo_correction (outs ! j) = Some k"
  shows "mode_is (fi_mode (is ! j)) ''GUIDED'' \<and> \<not> vo_takeover (outs ! j)
    \<and> (\<forall>n. int n < vc_optical_acquire c \<longrightarrow> n \<le> j \<and> fresh_detection c (is ! (j - n)) \<noteq> None)
    \<and> \<bar>co_forward k\<bar> \<le> tk_pixel_max_speed (vc_tracker c) \<and> \<bar>co_right k\<bar> \<le> tk_pixel_max_speed (vc_tracker c) \<and> co_down k = 0"
proof -
  obtain s0 s1 where r: "vision_run c (take j is) vision_init = Some (take j outs, s0)"
    "vision_process c (is ! j) s0 = Some (outs ! j, s1)" "vision_run c (take (Suc j) is) vision_init = Some (take (Suc j) outs, s1)"
    by (rule vision_run_nth [OF assms(1,3)])
  have m: "0 \<le> tk_pixel_max_speed (vc_tracker c)" using assms(2) by (simp add: tracker_ok_def)
  note k = vision_process_correction [OF r(2) assms(4) m]
  have locked: "os_locked (vs_optical s1)"
    using k vision_process_optical(1,2) [OF r(2)] by (simp add: optical_update_state)
  have "\<not> vo_takeover (outs ! j)"
    using locked vision_process_optical [OF r(2)] by (simp add: optical_update_state)
  moreover have "n \<le> j \<and> fresh_detection c (is ! (j - n)) \<noteq> None" if n: "int n < vc_optical_acquire c" for n
  proof -
    let ?ds = "map (fresh_detection c) (take (Suc j) is)"
    have l: "length ?ds = Suc j" using assms(3) by simp
    have t: "n < trailing ?ds" using vision_run_optical [OF r(3)] locked n by simp
    moreover have "trailing ?ds \<le> length ?ds"
      unfolding trailing_def using length_takeWhile_le [of "\<lambda>d. d \<noteq> None" "rev ?ds"] by simp
    ultimately have "n \<le> j" using l by simp
    with trailing_nth [OF t] l assms(3) show ?thesis by simp
  qed
  ultimately show ?thesis using k by blast
qed

subsection \<open>Landing targets\<close>

lemma landing_update_target:
  assumes "landing_update c i now s = (Some t, s')"
  shows "landing_valid c i now \<and> ld_acquired s' \<and> ld_last_emit s' = Some now \<and> lt_position_valid t = 0
    \<and> (case ld_last_emit s of None \<Rightarrow> True | Some t0 \<Rightarrow> 1 / pl_send_hz c \<le> now - t0)"
  using assms by (auto simp: landing_update_def set_snapshot_def Let_def split: if_splits option.splits)

lemma landing_update_none:
  "landing_update c i now s = (None, s') \<Longrightarrow> ld_last_emit s' = ld_last_emit s"
  by (auto simp: landing_update_def set_snapshot_def record_loss_def Let_def split: if_splits option.splits)

lemma vision_process_landing:
  assumes "vision_process c i s = Some (out, s')"
  shows "case vo_landing out of
      None \<Rightarrow> ld_last_emit (vs_landing s') = ld_last_emit (vs_landing s)
    | Some t \<Rightarrow> ld_last_emit (vs_landing s') = Some (fi_now i) \<and> \<not> vo_final out \<and> fresh_detection c i \<noteq> None
        \<and> lt_position_valid t = 0
        \<and> (case ld_last_emit (vs_landing s) of None \<Rightarrow> True | Some t0 \<Rightarrow> 1 / pl_send_hz (vc_landing c) \<le> fi_now i - t0)"
proof -
  obtain tr op o' k where v: "optical_update (vc_optical_acquire c) (fresh_detection c i) (fi_timestamp i) (vs_optical s) = (op, o')"
    "vision_track c i (fresh_detection c i) (op_locked op) (vs_tracker s) = Some (k, tr)"
    using assms by (auto simp: vision_process_def Let_def split: option.splits prod.splits)
  show ?thesis
  proof (cases "final_descent c i (vs_final s)")
    case True
    with assms v show ?thesis by (auto simp: vision_process_def Let_def)
  next
    case False
    let ?in = "\<lparr>li_offset = (case fresh_detection c i of None \<Rightarrow> None | Some t \<Rightarrow> if 0 < fi_altitude i
              then body_offset_of (dt_x t) (dt_y t) (fi_altitude i) (vc_camera c) else None),
       li_detection = fresh_detection c i, li_altitude = fi_altitude i, li_source = fi_source i,
       li_frame_at = map_option dt_timestamp (fresh_detection c i),
       li_angles = map_option (\<lambda>t. body_angles_of (dt_x t) (dt_y t) (vc_camera c) (fi_altitude i)) (fresh_detection c i),
       li_distance = (if 0 < fi_altitude i then None else Some 0)\<rparr>"
    obtain lt ld where l: "landing_update (vc_landing c) ?in (fi_now i) (vs_landing s) = (lt, ld)"
      by (cases "landing_update (vc_landing c) ?in (fi_now i) (vs_landing s)")
    with assms v False have o: "vo_landing out = lt" "vs_landing s' = ld" "\<not> vo_final out"
      by (auto simp: vision_process_def Let_def)
    show ?thesis
    proof (cases lt)
      case None
      with landing_update_none [OF l [unfolded None]] o show ?thesis by simp
    next
      case (Some t)
      from landing_update_target [OF l [unfolded Some]] have "fresh_detection c i \<noteq> None" by (auto simp: landing_valid_def)
      with landing_update_target [OF l [unfolded Some]] o Some show ?thesis by simp
    qed
  qed
qed

text \<open>The clock at the frames that gave a landing target\<close>

fun target_times :: "frame_input list \<Rightarrow> vision_output list \<Rightarrow> real list" where
  "target_times (i # is) (out # outs) = (case vo_landing out of
     None \<Rightarrow> target_times is outs | Some t \<Rightarrow> fi_now i # target_times is outs)"
| "target_times _ _ = []"

fun gaps_at_least :: "real \<Rightarrow> real option \<Rightarrow> real list \<Rightarrow> bool" where
  "gaps_at_least d prev [] \<longleftrightarrow> True"
| "gaps_at_least d prev (t # ts) \<longleftrightarrow> (case prev of None \<Rightarrow> True | Some t0 \<Rightarrow> d \<le> t - t0) \<and> gaps_at_least d (Some t) ts"

lemma vision_run_targets:
  "vision_run c is s = Some (outs, s') \<Longrightarrow>
     gaps_at_least (1 / pl_send_hz (vc_landing c)) (ld_last_emit (vs_landing s)) (target_times is outs)
     \<and> (\<forall>j < length is. \<forall>t. vo_landing (outs ! j) = Some t \<longrightarrow> \<not> vo_final (outs ! j) \<and> fresh_detection c (is ! j) \<noteq> None
          \<and> lt_position_valid t = 0)"
proof (induction "is" arbitrary: s outs)
  case (Cons i "is")
  from Cons.prems obtain out s1 outs1 where r: "vision_process c i s = Some (out, s1)" "vision_run c is s1 = Some (outs1, s')"
    "outs = out # outs1" by (auto split: option.splits prod.splits)
  note p = vision_process_landing [OF r(1)]
  show ?case
  proof (cases "vo_landing out")
    case None
    with Cons.IH [OF r(2)] p show ?thesis by (auto simp: r(3) nth_Cons split: nat.splits)
  next
    case (Some t)
    with Cons.IH [OF r(2)] p show ?thesis by (auto simp: r(3) nth_Cons split: nat.splits)
  qed
qed simp

text \<open>In every run of the vision controller landing targets are at least \<open>1 / send_hz\<close> apart, whatever the
  clock does, are sent only for frames with a fresh detection and never during the final descent, and
  never claim a valid position.\<close>

theorem landing_targets_paced:
  assumes "vision_run c is vision_init = Some (outs, s)"
  shows "gaps_at_least (1 / pl_send_hz (vc_landing c)) None (target_times is outs)
    \<and> (\<forall>j < length is. \<forall>t. vo_landing (outs ! j) = Some t \<longrightarrow> \<not> vo_final (outs ! j) \<and> fresh_detection c (is ! j) \<noteq> None
         \<and> lt_position_valid t = 0)"
  using vision_run_targets [OF assms] by (simp add: vision_init_def landing_init_def)

subsection \<open>Samples\<close>

definition sample_vision_config :: vision_config where
  "sample_vision_config = \<lparr>vc_optical_acquire = 3,
     vc_camera = \<lparr>cam_width = 640, cam_height = 480, cam_fx = 460, cam_fy = 460, cam_cx = 320, cam_cy = 240, cam_forward = 0,
       cam_right = 0\<rparr>,
     vc_tracker = \<lparr>tk_alpha = 1 / 2, tk_deadband = 0, tk_gain_forward = 1, tk_gain_right = 1, tk_max_speed = 1, tk_max_accel = 1,
       tk_stale_after = 1 / 5, tk_pixel_deadzone = 25, tk_pixel_gain_forward = 1, tk_pixel_gain_right = 1,
       tk_pixel_max_speed = 1 / 4, tk_pixel_send_hz = 10\<rparr>,
     vc_landing = \<lparr>pl_acquire_count = 3, pl_loss_count = 2, pl_send_hz = 10, pl_stale_after = 1 / 5, pl_min_altitude = 1 / 20\<rparr>,
     vc_final_altitude = 1 / 4\<rparr>"

definition sample_spot :: detection where
  "sample_spot = \<lparr>dt_x = 500, dt_y = 100, dt_area = 40, dt_confidence = 1, dt_timestamp = 1\<rparr>"

definition sample_frame :: frame_input where
  "sample_frame = \<lparr>fi_detection = Some sample_spot, fi_width = 640, fi_height = 480, fi_mode = ''GUIDED'', fi_altitude = 0,
     fi_source = ''rangefinder'', fi_timestamp = 1, fi_now = 1\<rparr>"

lemma sample_mode: "py_upper (py_strip ''GUIDED'') = ''GUIDED''"
  by code_simp

lemma sample_fresh: "fresh_detection sample_vision_config sample_frame = Some sample_spot"
  by (simp add: fresh_detection_def sample_frame_def sample_spot_def sample_vision_config_def)

lemma sample_step:
  assumes "vs_final s = False" "os_acquire (vs_optical s) = n" "tr_last_pixel (vs_tracker s) = None"
  obtains out s' where "vision_process sample_vision_config sample_frame s = Some (out, s')" "vs_final s' = False"
    "os_acquire (vs_optical s') = Suc n" "n < 2 \<longrightarrow> tr_last_pixel (vs_tracker s') = None" "2 \<le> n \<longrightarrow> vo_correction out \<noteq> None"
proof -
  have f: "final_descent sample_vision_config sample_frame False = False"
    by (simp add: final_descent_def sample_frame_def sample_mode)
  let ?op = "optical_update 3 (Some sample_spot) 1 (vs_optical s)"
  have v: "vc_optical_acquire sample_vision_config = 3" "fi_timestamp sample_frame = 1"
    by (simp_all add: sample_vision_config_def sample_frame_def)
  have t: "\<exists>k tr. vision_track sample_vision_config sample_frame (Some sample_spot) b (vs_tracker s) = Some (k, tr)
      \<and> (if b then k \<noteq> None else tr_last_pixel tr = None)" for b
    using assms(3) by (auto simp: vision_track_def sample_frame_def sample_mode desired_centre_def update_pixels_def mode_is_def
        stale_def sample_vision_config_def sample_spot_def tracker_update_def tracker_reset_def Let_def)
  obtain k tr where k: "vision_track sample_vision_config sample_frame (Some sample_spot) (op_locked (fst ?op)) (vs_tracker s) = Some (k, tr)"
    "if op_locked (fst ?op) then k \<noteq> None else tr_last_pixel tr = None" using t by blast
  have l: "op_locked (fst ?op) \<longleftrightarrow> 2 \<le> n" "os_acquire (snd ?op) = Suc n"
    using assms(2) by (auto simp: optical_update_state)
  obtain op o' where op: "?op = (op, o')" by (cases ?op)
  have "\<exists>out s'. vision_process sample_vision_config sample_frame s = Some (out, s') \<and> vs_final s' = False \<and> vs_optical s' = o'
      \<and> vs_tracker s' = tr \<and> vo_correction out = k"
    using k(1) assms(1) by (simp add: vision_process_def sample_fresh v f op Let_def)
  with that k(2) l op show thesis by (auto split: if_splits)
qed

lemma sample_vision_run:
  obtains outs s k where "vision_run sample_vision_config [sample_frame, sample_frame, sample_frame] vision_init = Some (outs, s)"
    "vo_correction (outs ! 2) = Some k"
proof -
  have i: "vs_final vision_init = False" "os_acquire (vs_optical vision_init) = 0" "tr_last_pixel (vs_tracker vision_init) = None"
    by (simp_all add: vision_init_def optical_init_def tracker_init_def)
  obtain o1 s1 where 1: "vision_process sample_vision_config sample_frame vision_init = Some (o1, s1)" "vs_final s1 = False"
    "os_acquire (vs_optical s1) = Suc 0" "tr_last_pixel (vs_tracker s1) = None" using sample_step [OF i] by auto
  obtain o2 s2 where 2: "vision_process sample_vision_config sample_frame s1 = Some (o2, s2)" "vs_final s2 = False"
    "os_acquire (vs_optical s2) = Suc (Suc 0)" "tr_last_pixel (vs_tracker s2) = None" using sample_step [OF 1(2,3,4)] by auto
  obtain o3 s3 where 3: "vision_process sample_vision_config sample_frame s2 = Some (o3, s3)"
    "vs_final s3 = False" "os_acquire (vs_optical s3) = Suc (Suc (Suc 0))"
    "Suc (Suc 0) < 2 \<longrightarrow> tr_last_pixel (vs_tracker s3) = None" "2 \<le> Suc (Suc 0) \<longrightarrow> vo_correction o3 \<noteq> None"
    by (rule sample_step [OF 2(2,3,4)])
  from 1 2 3 that show thesis by (auto simp: numeral_2_eq_2)
qed

theorem corrections_only_when_locked_witness:
  "\<exists>outs s k. vision_run sample_vision_config [sample_frame, sample_frame, sample_frame] vision_init = Some (outs, s)
     \<and> vo_correction (outs ! 2) = Some k \<and> \<not> vo_takeover (outs ! 2) \<and> \<bar>co_forward k\<bar> \<le> 1 / 4"
proof -
  obtain outs s k where r: "vision_run sample_vision_config [sample_frame, sample_frame, sample_frame] vision_init = Some (outs, s)"
    "vo_correction (outs ! 2) = Some k" by (rule sample_vision_run)
  have "tracker_ok (vc_tracker sample_vision_config)" by (simp add: tracker_ok_def sample_vision_config_def)
  from corrections_only_when_locked [OF r(1) this _ r(2)] r show ?thesis by (auto simp: sample_vision_config_def)
qed

theorem landing_targets_paced_witness:
  "\<exists>outs s. vision_run sample_vision_config [sample_frame, sample_frame, sample_frame] vision_init = Some (outs, s)
     \<and> gaps_at_least (1 / 10) None (target_times [sample_frame, sample_frame, sample_frame] outs)"
proof -
  obtain outs s k where r: "vision_run sample_vision_config [sample_frame, sample_frame, sample_frame] vision_init = Some (outs, s)"
    "vo_correction (outs ! 2) = Some k" by (rule sample_vision_run)
  from landing_targets_paced [OF r(1)] r(1) show ?thesis by (auto simp: sample_vision_config_def)
qed

end
