(* ===== verification/AircraftLink.thy ===== *)
theory AircraftLink
  imports SlaveTransport
begin

text \<open>
  \<open>rdk_agent/aircraft_link.py\<close>: the rover's producer of LIOT frames for the aircraft. It turns a
  command, a mission or a fragment of a mission into frames of one transaction, hands them to the
  \<open>RetrySender\<close> and follows the answers.
\<close>

subsection \<open>State\<close>

datatype al_exc = AlPy pyexc | AlFrame frame_exc | AlKey string

record terminal_entry =
  te_stage :: string
  te_error :: string
  te_revision :: nat

record aircraft_link =
  al_sender :: retry_sender
  al_next :: nat
  al_stage :: string
  al_error :: string
  al_transaction :: string
  al_active :: "uuid option"
  al_revision :: nat
  al_terminal :: "(uuid \<times> terminal_entry) list"
  al_limit :: nat
  al_fragments :: "uuid list"
  al_commits :: "uuid list"

definition aircraft_link_init :: "int \<Rightarrow> real \<Rightarrow> int \<Rightarrow> pyexc + aircraft_link" where
  "aircraft_link_init max_attempts interval history =
     (if history < 1 then Inl (ValueError ''history_limit must be positive'')
      else map_sum id (\<lambda>rs. \<lparr>al_sender = rs, al_next = 0, al_stage = ''idle'', al_error = [], al_transaction = [], al_active = None,
        al_revision = 0, al_terminal = [], al_limit = nat history, al_fragments = [], al_commits = []\<rparr>)
        (retry_sender_init max_attempts interval 1024))"

definition al_pending_count :: "aircraft_link \<Rightarrow> nat" where
  "al_pending_count s = length (rs_pending (al_sender s))"

subsection \<open>Frames of a command\<close>

text \<open>
The numbers of an item; whatever a conversion raises is one TypeError here.
\<close>

definition need_float :: "pydict \<Rightarrow> string \<Rightarrow> al_exc + json" where
  "need_float d k = (case map_of d k of
     None \<Rightarrow> Inl (AlKey k)
   | Some v \<Rightarrow> (case json_float v of None \<Rightarrow> Inl (AlPy (TypeError k)) | Some w \<Rightarrow> Inr w))"

definition conv_or :: "(json \<Rightarrow> json option) \<Rightarrow> pydict \<Rightarrow> string \<Rightarrow> json \<Rightarrow> al_exc + json" where
  "conv_or conv d k dflt = (case conv (get_or d k dflt) of None \<Rightarrow> Inl (AlPy (TypeError k)) | Some w \<Rightarrow> Inr w)"

fun collect_fields :: "(string \<times> (al_exc + json)) list \<Rightarrow> al_exc + pydict" where
  "collect_fields [] = Inr []"
| "collect_fields ((k, Inl e) # fs) = Inl e"
| "collect_fields ((k, Inr v) # fs) = map_sum id (Cons (k, v)) (collect_fields fs)"

abbreviation float_lit :: "int \<Rightarrow> json" where
  "float_lit i \<equiv> JFloat (Fin i 0)"

definition link_item :: "string \<Rightarrow> json \<Rightarrow> pydict \<Rightarrow> al_exc + pydict" where
  "link_item mid index it = collect_fields
     [(''mission_id'', Inr (JStr mid)), (''index'', Inr index),
      (''lat'', need_float it ''lat''), (''lon'', need_float it ''lon''), (''alt'', need_float it ''alt''),
      (''command'', conv_or json_int it ''command'' (JInt 16)), (''frame'', conv_or json_int it ''frame'' (JInt 6)),
      (''param1'', conv_or json_float it ''param1'' (float_lit 0)),
      (''param2'', conv_or json_float it ''param2'' (get_or it ''acceptance_radius'' (float_lit 0))),
      (''param3'', conv_or json_float it ''param3'' (float_lit 0)), (''param4'', conv_or json_float it ''param4'' (float_lit 0)),
      (''autocontinue'', Inr (JBool (json_truthy (get_or it ''autocontinue'' (JBool True)))))]"

definition al_frame :: "aircraft_link \<Rightarrow> message_type \<Rightarrow> uuid \<Rightarrow> json \<Rightarrow> nat \<Rightarrow> al_exc + frame" where
  "al_frame s ty cid p off =
     (case make_frame ty 0 (int (u32_mask (al_next s + off))) cid p of
        Inl e \<Rightarrow> Inl (AlPy e)
      | Inr f \<Rightarrow> (case encode_frame f default_max_payload of Inl e \<Rightarrow> Inl (AlFrame e) | Inr w \<Rightarrow> Inr f))"

fun al_frames :: "aircraft_link \<Rightarrow> uuid \<Rightarrow> nat \<Rightarrow> (message_type \<times> pydict) list \<Rightarrow> al_exc + frame list" where
  "al_frames s cid off [] = Inr []"
| "al_frames s cid off ((ty, p) # ps) = (case al_frame s ty cid (JObj p) off of
     Inl e \<Rightarrow> Inl e | Inr f \<Rightarrow> map_sum id (Cons f) (al_frames s cid (Suc off) ps))"

fun link_items :: "string \<Rightarrow> int \<Rightarrow> json list \<Rightarrow> al_exc + pydict list" where
  "link_items mid i [] = Inr []"
| "link_items mid i (v # vs) =
     (if \<not> is_obj v then Inl (AlPy (TypeError ''mission item must be an object''))
      else case link_item mid (JInt i) (dict_of v) of
        Inl e \<Rightarrow> Inl e | Inr d \<Rightarrow> map_sum id (Cons d) (link_items mid (i + 1) vs))"

definition mission_payloads :: "string \<Rightarrow> pydict list \<Rightarrow> string \<Rightarrow> (message_type \<times> pydict) list" where
  "mission_payloads mid items checksum =
     [(MISSION_BEGIN, [(''mission_id'', JStr mid), (''item_count'', JInt (int (length items))), (''vehicle'', JStr ''aircraft''),
        (''checksum'', JStr checksum)])]
     @ map (Pair MISSION_ITEM) items
     @ [(MISSION_COMMIT, [(''mission_id'', JStr mid), (''item_count'', JInt (int (length items))), (''checksum'', JStr checksum)])]"

definition build_mission :: "cloud_command \<Rightarrow> aircraft_link \<Rightarrow> al_exc + frame list" where
  "build_mission cmd s =
     (let mid = py_strip (py_str (get_or (cc_payload cmd) ''mission_id'' (JStr []))); items = get_or (cc_payload cmd) ''items'' JNull in
      if mid = [] then Inl (AlPy (ValueError ''mission_id must not be empty''))
      else if \<not> is_list items then Inl (AlPy (TypeError ''mission items must be a list''))
      else if max_mission_items < int (length (list_of items)) then Inl (AlPy (ValueError ''item_count exceeds mission limit''))
      else (case link_items mid 0 (list_of items) of
          Inl e \<Rightarrow> Inl e
        | Inr ds \<Rightarrow> (case dumps True (JArr (map JObj ds)) of
            None \<Rightarrow> Inl (AlPy (ValueError ''Out of range float values are not JSON compliant''))
          | Some t \<Rightarrow> al_frames s (cc_command_id cmd) 0 (mission_payloads mid ds (sha256_hex (utf8 t))))))"

subsection \<open>\<open>execute\<close>\<close>

definition set_stage :: "string \<Rightarrow> aircraft_link \<Rightarrow> aircraft_link" where
  "set_stage stage s = (if stage \<noteq> al_stage s then s\<lparr>al_stage := stage, al_revision := al_revision s + 1\<rparr> else s)"

fun queue_all :: "frame list \<Rightarrow> real \<Rightarrow> retry_sender \<Rightarrow> (pyexc option) \<times> retry_sender" where
  "queue_all [] now rs = (None, rs)"
| "queue_all (f # fs) now rs = (case retry_queue rs f now of Inl e \<Rightarrow> (Some e, rs) | Inr rs' \<Rightarrow> queue_all fs now rs')"

text \<open>The result: the stage and the number of frames\<close>

definition acquire_and_queue :: "uuid \<Rightarrow> frame list \<Rightarrow> real \<Rightarrow> string \<Rightarrow> aircraft_link \<Rightarrow> (al_exc + string \<times> nat) \<times> aircraft_link" where
  "acquire_and_queue cid fs now stage s =
     (case queue_all fs now (al_sender s) of
        (Some e, rs) \<Rightarrow> (Inl (AlPy e), s\<lparr>al_sender := snd (retry_cancel rs cid), al_active := None\<rparr>)
      | (None, rs) \<Rightarrow> (Inr (stage, length fs),
          set_stage stage (s\<lparr>al_sender := rs, al_active := Some cid, al_transaction := uuid_str cid, al_error := [],
            al_next := u32_mask (al_next s + length fs)\<rparr>)))"

definition fragment_type :: "string \<Rightarrow> message_type option" where
  "fragment_type action = map_of [(''mission_begin'', MISSION_BEGIN), (''mission_item'', MISSION_ITEM), (''mission_commit'', MISSION_COMMIT)] action"

definition fragment_payload :: "cloud_command \<Rightarrow> al_exc + pydict" where
  "fragment_payload cmd =
     (let p = cc_payload cmd in
      if cc_action cmd = ''mission_item'' then
        (case (map_of p ''mission_id'', map_of p ''index'') of
           (None, _) \<Rightarrow> Inl (AlKey ''mission_id'')
         | (Some m, None) \<Rightarrow> Inl (AlKey ''index'')
         | (Some m, Some i) \<Rightarrow> (case json_int i of None \<Rightarrow> Inl (AlPy (TypeError ''index'')) | Some k \<Rightarrow> link_item (py_str m) k p))
      else Inr p)"

definition add_id :: "uuid \<Rightarrow> uuid list \<Rightarrow> uuid list" where
  "add_id u us = (if u \<in> set us then us else us @ [u])"

definition al_execute :: "cloud_command \<Rightarrow> real \<Rightarrow> aircraft_link \<Rightarrow> (al_exc + string \<times> nat) \<times> aircraft_link" where
  "al_execute cmd now s =
     (let cid = cc_command_id cmd; ty = fragment_type (cc_action cmd) in
      if cc_target cmd \<noteq> ''aircraft'' then (Inl (AlPy (ValueError ''AircraftLink accepts aircraft commands only'')), s)
      else if al_active s \<noteq> None \<and> \<not> (ty \<noteq> None \<and> al_active s = Some cid)
        then (Inl (AlPy (ValueError ''aircraft transaction already active'')), s)
      else
        let s1 = (if ty \<noteq> None \<and> cid \<in> set (al_fragments s) then s\<lparr>al_active := None\<rparr> else s) in
        if map_of (al_terminal s1) cid \<noteq> None \<and> ty = None
          then (Inl (AlPy (ValueError ''aircraft transaction is already terminal'')), s1)
        else (case ty of
            Some mt \<Rightarrow>
              (case fragment_payload cmd of
                 Inl e \<Rightarrow> (Inl e, s1)
               | Inr p \<Rightarrow> (case al_frame s1 mt cid (JObj p) 0 of
                   Inl e \<Rightarrow> (Inl e, s1)
                 | Inr f \<Rightarrow> acquire_and_queue cid [f] now (cc_action cmd)
                     (s1\<lparr>al_fragments := add_id cid (al_fragments s1),
                       al_commits := (if cc_action cmd = ''mission_commit'' then add_id cid (al_commits s1) else al_commits s1)\<rparr>)))
          | None \<Rightarrow>
              if cc_action cmd = ''mission'' then
                (case build_mission cmd s1 of Inl e \<Rightarrow> (Inl e, s1) | Inr fs \<Rightarrow> acquire_and_queue cid fs now ''staged'' s1)
              else
                (case al_frame s1 COMMAND cid (JObj [(''action'', JStr (cc_action cmd)), (''parameters'', JObj (cc_payload cmd))]) 0 of
                   Inl e \<Rightarrow> (Inl e, s1)
                 | Inr f \<Rightarrow> acquire_and_queue cid [f] now ''queued'' s1)))"

subsection \<open>Answers\<close>

definition set_terminal :: "uuid \<Rightarrow> string \<Rightarrow> string \<Rightarrow> aircraft_link \<Rightarrow> aircraft_link" where
  "set_terminal cid stage err s =
     (let s1 = s\<lparr>al_sender := snd (retry_cancel (al_sender s) cid), al_revision := al_revision s + 1\<rparr>;
          s2 = s1\<lparr>al_terminal := last_n (al_limit s1) (AList.delete cid (al_terminal s1)
            @ [(cid, \<lparr>te_stage = stage, te_error = err, te_revision = al_revision s1\<rparr>)])\<rparr>;
          s3 = (if uuid_str cid = al_transaction s2 then s2\<lparr>al_stage := stage, al_error := err\<rparr> else s2)
      in if al_active s3 = Some cid then s3\<lparr>al_active := None\<rparr> else s3)"

text \<open>The text of the error of an exhausted retry is the command and sequence\<close>

definition exhausted_text :: "delivery_id \<Rightarrow> string" where
  "exhausted_text i = ''command '' @ uuid_str (fst i) @ '' sequence '' @ show_nat (snd i) @ '' retry exhausted''"

fun encode_frames :: "frame list \<Rightarrow> frame_exc + bytes list" where
  "encode_frames [] = Inr []"
| "encode_frames (f # fs) = (case encode_frame f default_max_payload of
     Inl e \<Rightarrow> Inl e | Inr w \<Rightarrow> map_sum id (Cons w) (encode_frames fs))"

definition due_bytes :: "real \<Rightarrow> aircraft_link \<Rightarrow> (frame_exc + bytes list) \<times> aircraft_link" where
  "due_bytes now s =
     (case retry_due (al_sender s) now of (due, rs) \<Rightarrow>
        (case retry_pop_exhausted rs of (exhausted, rs') \<Rightarrow>
           let s1 = s\<lparr>al_sender := rs'\<rparr>;
               s2 = (if due \<noteq> [] \<and> exhausted = [] then set_stage ''awaiting_ack'' s1 else s1);
               s3 = fold (\<lambda>i. set_terminal (fst i) ''retry_exhausted'' (exhausted_text i)) exhausted s2;
               due' = (if exhausted = [] then due else filter (\<lambda>f. map_of (al_terminal s3) (f_command_id f) = None) due)
           in (encode_frames due', s3)))"

definition discard :: "uuid \<Rightarrow> uuid list \<Rightarrow> uuid list" where
  "discard u us = filter (\<lambda>v. v \<noteq> u) us"

definition accept_ack :: "frame \<Rightarrow> aircraft_link \<Rightarrow> bool \<times> aircraft_link" where
  "accept_ack f s =
     (let cid = f_command_id f in
      if f_type f \<noteq> ACK \<or> map_of (al_terminal s) cid \<noteq> None then (False, s)
      else (case retry_acknowledge (al_sender s) cid (nat (int_of (fld (f_payload f) ''acked_sequence''))) of
          (accepted, rs) \<Rightarrow>
            let s1 = s\<lparr>al_sender := rs\<rparr> in
            if accepted \<and> al_pending_count s1 = 0 \<and> al_active s1 = Some cid then
              (if cid \<in> set (al_fragments s1) \<and> cid \<notin> set (al_commits s1)
               then (True, set_stage ''fragment_acknowledged'' (s1\<lparr>al_active := None\<rparr>))
               else (True, set_terminal cid ''acknowledged'' []
                 (s1\<lparr>al_fragments := discard cid (al_fragments s1), al_commits := discard cid (al_commits s1)\<rparr>)))
            else (accepted, s1)))"

text \<open>Bytes are decoded first, which may raise\<close>

definition accept_ack_bytes :: "bytes \<Rightarrow> aircraft_link \<Rightarrow> (frame_exc + bool) \<times> aircraft_link" where
  "accept_ack_bytes data s = (case decode_frame data default_max_payload of
     Inl e \<Rightarrow> (Inl e, s) | Inr f \<Rightarrow> (case accept_ack f s of (b, s') \<Rightarrow> (Inr b, s')))"

definition accept_response :: "frame \<Rightarrow> aircraft_link \<Rightarrow> bool \<times> aircraft_link" where
  "accept_response f s =
     (if f_type f = ACK then accept_ack f s
      else if f_type f \<noteq> NACK \<or> map_of (al_terminal s) (f_command_id f) \<noteq> None then (False, s)
      else (case retry_acknowledge (al_sender s) (f_command_id f) (nat (int_of (fld (f_payload f) ''acked_sequence''))) of
          (accepted, rs) \<Rightarrow>
            let s1 = s\<lparr>al_sender := rs\<rparr> in
            (accepted, if accepted then set_terminal (f_command_id f) ''nacked'' (take 120 (str_of (fld (f_payload f) ''reason''))) s1
              else s1)))"

definition fail_active :: "string \<Rightarrow> string \<Rightarrow> uuid option \<Rightarrow> aircraft_link \<Rightarrow> (pyexc + bool) \<times> aircraft_link" where
  "fail_active stage err cid s =
     (if stage \<notin> {''retry_exhausted'', ''link_blocked''} then (Inl (ValueError ''invalid terminal transaction stage''), s)
      else (case (case cid of Some c \<Rightarrow> Some c | None \<Rightarrow> al_active s) of
          None \<Rightarrow> (Inr False, s)
        | Some c \<Rightarrow> if map_of (al_terminal s) c \<noteq> None then (Inr False, s)
            else (Inr True, set_terminal c stage (take 120 err) s)))"

record transaction_state =
  ts_stage :: string
  ts_pending :: nat
  ts_transaction :: string
  ts_revision :: nat
  ts_error :: "string option"

definition transaction_state_of :: "aircraft_link \<Rightarrow> transaction_state" where
  "transaction_state_of s = \<lparr>ts_stage = al_stage s, ts_pending = al_pending_count s, ts_transaction = al_transaction s,
     ts_revision = al_revision s, ts_error = (if al_error s = [] then None else Some (al_error s))\<rparr>"

end
