(* ===== verification/AircraftLinkProps.thy ===== *)
theory AircraftLinkProps
  imports AircraftLink TransportProps
begin

text \<open>
  The aircraft link: one transaction at a time, never stuck with a transaction of which nothing is
  pending, and the path on which the first of these fails.
\<close>

subsection \<open>The identities that are pending\<close>

definition keys :: "retry_sender \<Rightarrow> delivery_id set" where
  "keys rs = fst ` set (rs_pending rs)"

lemma keys_empty [simp]: "keys rs = {} \<longleftrightarrow> rs_pending rs = []"
  by (simp add: keys_def)

lemma keys_fold_delete: "fst ` set (fold AList.delete ks d) = fst ` set d - set ks"
  by (induction ks arbitrary: d) (auto simp: keys_delete)

lemma keys_cancel: "keys (snd (retry_cancel rs cid)) = {i \<in> keys rs. fst i \<noteq> cid}"
  by (auto simp: retry_cancel_def keys_def keys_fold_delete Let_def)

lemma keys_acknowledge:
  assumes "retry_acknowledge rs cid sq = (b, rs')"
  shows "keys rs' = keys rs - {(cid, sq)}" "b \<longleftrightarrow> (cid, sq) \<in> keys rs"
    "rs_max_pending rs' = rs_max_pending rs" "rs_exhausted rs' = rs_exhausted rs"
proof -
  have b: "b = (map_of (rs_pending rs) (cid, sq) \<noteq> None)" and r: "rs' = rs\<lparr>rs_pending := AList.delete (cid, sq) (rs_pending rs)\<rparr>"
    using assms unfolding retry_acknowledge_def by (simp_all only: prod.inject)
  have p: "rs_pending rs' = AList.delete (cid, sq) (rs_pending rs)" by (simp add: r)
  show "keys rs' = keys rs - {(cid, sq)}" unfolding keys_def p keys_delete ..
  show "b \<longleftrightarrow> (cid, sq) \<in> keys rs" unfolding b keys_def map_of_eq_None_iff not_not ..
  show "rs_max_pending rs' = rs_max_pending rs" "rs_exhausted rs' = rs_exhausted rs" by (simp_all add: r)
qed

lemma keys_queue:
  assumes "retry_queue rs f now = Inr rs'"
  shows "keys rs' = insert (frame_id f) (keys rs) \<and> rs_max_pending rs' = rs_max_pending rs \<and> rs_exhausted rs' = rs_exhausted rs"
proof -
  have "rs' = rs\<lparr>rs_pending := AList.update (frame_id f) \<lparr>p_frame = f, p_attempts = 0, p_next_due = now\<rparr> (rs_pending rs)\<rparr>"
    using assms by (simp add: retry_queue_def split: if_splits)
  then show ?thesis by (simp add: keys_def dom_update)
qed

lemma keys_queue_all:
  "queue_all fs now rs = (e, rs') \<Longrightarrow> keys rs' \<subseteq> keys rs \<union> frame_id ` set fs \<and> keys rs \<subseteq> keys rs'
     \<and> (e = None \<longrightarrow> frame_id ` set fs \<subseteq> keys rs') \<and> rs_max_pending rs' = rs_max_pending rs \<and> rs_exhausted rs' = rs_exhausted rs"
proof (induction fs arbitrary: rs)
  case (Cons f fs)
  show ?case
  proof (cases "retry_queue rs f now")
    case (Inr rs1)
    with Cons.prems Cons.IH [of rs1] keys_queue [OF Inr] show ?thesis by auto
  qed (use Cons.prems in auto)
qed simp

lemma last_n_nonempty: "1 \<le> n \<Longrightarrow> xs \<noteq> [] \<Longrightarrow> last_n n xs \<noteq> []"
  using length_last_n [of n xs] by (cases xs) (auto simp flip: length_greater_0_conv)

lemma due_scan_subset:
  "due_scan n d cap now items (tab, ex) = ((tab', ex'), fs) \<Longrightarrow>
     set ex' \<subseteq> set ex \<union> fst ` set items \<and> fst ` set tab' \<subseteq> fst ` set tab \<union> fst ` set items"
proof (induction n d cap now items "(tab, ex)" arbitrary: tab ex fs rule: due_scan.induct)
  case (2 n d cap now i p items tab ex)
  have l: "set (last_n cap (ex @ [i])) \<subseteq> insert i (set ex)" using set_last_n [of cap "ex @ [i]"] by auto
  show ?case
  proof (cases "now < p_next_due p")
    case True
    with 2(1) [OF True] 2(4) show ?thesis by auto
  next
    case late: False
    show ?thesis
    proof (cases "n \<le> p_attempts p")
      case True
      with 2(4) late have "due_scan n d cap now items (AList.delete i tab, last_n cap (ex @ [i])) = ((tab', ex'), fs)" by simp
      from 2(2) [OF late True this] l show ?thesis by (auto simp: keys_delete)
    next
      case False
      let ?tab = "AList.update i (p\<lparr>p_attempts := p_attempts p + 1, p_next_due := now + d\<rparr>) tab"
      obtain fs' where "due_scan n d cap now items (?tab, ex) = ((tab', ex'), fs')"
        using 2(4) late False by (auto simp: apsnd_def map_prod_def split: prod.splits)
      from 2(3) [OF late False this] show ?thesis by (auto simp: dom_update)
    qed
  qed
qed simp

lemma due_scan_exhausted:
  "due_scan n d cap now items (tab, ex) = ((tab', ex'), fs) \<Longrightarrow> 1 \<le> cap \<Longrightarrow> ex \<noteq> [] \<Longrightarrow> ex' \<noteq> []"
proof (induction n d cap now items "(tab, ex)" arbitrary: tab ex fs rule: due_scan.induct)
  case (2 n d cap now i p items tab ex)
  from 2 last_n_nonempty [of cap "ex @ [i]"] show ?case
    by (cases "now < p_next_due p"; cases "n \<le> p_attempts p") (auto simp: apsnd_def map_prod_def split: prod.splits)
qed simp

lemma due_scan_none_exhausted:
  "due_scan n d cap now items (tab, ex) = ((tab', []), fs) \<Longrightarrow> 1 \<le> cap \<Longrightarrow> fst ` set items \<subseteq> fst ` set tab \<Longrightarrow>
     fst ` set tab' = fst ` set tab"
proof (induction n d cap now items "(tab, ex)" arbitrary: tab ex fs rule: due_scan.induct)
  case (2 n d cap now i p items tab ex)
  show ?case
  proof (cases "now < p_next_due p")
    case True
    with 2 show ?thesis by simp
  next
    case late: False
    show ?thesis
    proof (cases "n \<le> p_attempts p")
      case True
      with 2(4) late due_scan_exhausted [of n d cap now items "AList.delete i tab" "last_n cap (ex @ [i])" tab' "[]" fs]
        last_n_nonempty [of cap "ex @ [i]"] 2(5) show ?thesis by auto
    next
      case False
      let ?tab = "AList.update i (p\<lparr>p_attempts := p_attempts p + 1, p_next_due := now + d\<rparr>) tab"
      obtain fs' where "due_scan n d cap now items (?tab, ex) = ((tab', []), fs')"
        using 2(4) late False by (auto simp: apsnd_def map_prod_def split: prod.splits)
      from 2(3) [OF late False this 2(5)] 2(6) show ?thesis by (auto simp: dom_update)
    qed
  qed
qed simp

lemma keys_due:
  assumes "retry_due rs now = (fs, rs')" "1 \<le> rs_max_pending rs" "rs_exhausted rs = []"
  shows "keys rs' \<subseteq> keys rs" "set (rs_exhausted rs') \<subseteq> keys rs" "rs_exhausted rs' = [] \<Longrightarrow> keys rs' = keys rs"
    "rs_max_pending rs' = rs_max_pending rs"
proof -
  obtain tab ex where d: "due_scan (rs_max_attempts rs) (rs_interval rs) (rs_max_pending rs) now (rs_pending rs) (rs_pending rs, [])
      = ((tab, ex), fs)" "rs' = rs\<lparr>rs_pending := tab, rs_exhausted := ex\<rparr>"
    using assms(1,3) by (auto simp: retry_due_def split: prod.splits)
  from due_scan_subset [OF d(1)] show "keys rs' \<subseteq> keys rs" "set (rs_exhausted rs') \<subseteq> keys rs"
    by (auto simp: d(2) keys_def)
  show "keys rs' = keys rs" if e: "rs_exhausted rs' = []"
    using due_scan_none_exhausted [of "rs_max_attempts rs" "rs_interval rs" "rs_max_pending rs" now "rs_pending rs" "rs_pending rs" "[]" tab fs]
      d assms(2) e by (simp add: keys_def)
  show "rs_max_pending rs' = rs_max_pending rs" by (simp add: d(2))
qed

subsection \<open>One transaction at a time\<close>

definition exclusive :: "aircraft_link \<Rightarrow> bool" where
  "exclusive s \<longleftrightarrow> (al_active s = None \<longleftrightarrow> rs_pending (al_sender s) = [])
     \<and> (\<forall>i \<in> keys (al_sender s). al_active s = Some (fst i))
     \<and> 1 \<le> rs_max_pending (al_sender s) \<and> rs_exhausted (al_sender s) = []"

lemma cancel_fields:
  "rs_max_pending (snd (retry_cancel rs cid)) = rs_max_pending rs" "rs_exhausted (snd (retry_cancel rs cid)) = rs_exhausted rs"
  by (simp_all add: retry_cancel_def Let_def)

lemma set_terminal_fields:
  "al_sender (set_terminal cid st err s) = snd (retry_cancel (al_sender s) cid)"
  "al_active (set_terminal cid st err s) = (if al_active s = Some cid then None else al_active s)"
  by (simp_all add: set_terminal_def Let_def)

lemma set_stage_fields [simp]: "al_sender (set_stage st s) = al_sender s" "al_active (set_stage st s) = al_active s"
  by (simp_all add: set_stage_def)

text \<open>Ending the transaction that the pending frames belong to leaves nothing behind\<close>

lemma set_terminal_active:
  assumes "\<forall>i \<in> keys (al_sender s). fst i = c" "1 \<le> rs_max_pending (al_sender s)" "rs_exhausted (al_sender s) = []"
    and "al_active s = Some c"
  shows "exclusive (set_terminal c st err s)" "rs_pending (al_sender (set_terminal c st err s)) = []"
proof -
  have "keys (al_sender (set_terminal c st err s)) = {}" using assms(1) by (auto simp: set_terminal_fields keys_cancel)
  with assms(2-) show "rs_pending (al_sender (set_terminal c st err s)) = []" "exclusive (set_terminal c st err s)"
    by (simp_all add: exclusive_def set_terminal_fields cancel_fields keys_def)
qed

lemma set_terminal_exclusive:
  assumes "exclusive s"
  shows "exclusive (set_terminal c st err s)"
proof (cases "al_active s = Some c")
  case True
  with assms show ?thesis by (intro set_terminal_active) (auto simp: exclusive_def)
next
  case False
  have "keys (al_sender (set_terminal c st err s)) = keys (al_sender s)"
    using assms False by (auto simp: set_terminal_fields keys_cancel exclusive_def)
  moreover from this have "rs_pending (al_sender (set_terminal c st err s)) = [] \<longleftrightarrow> rs_pending (al_sender s) = []"
    by (metis keys_empty)
  ultimately show ?thesis using assms False
    unfolding exclusive_def set_terminal_fields cancel_fields by (simp only: if_False) blast
qed

subsection \<open>The operations keep it\<close>

lemma al_frame_id: "al_frame s ty cid p off = Inr f \<Longrightarrow> f_command_id f = cid"
  by (auto simp: al_frame_def make_frame_def split: sum.splits if_splits)

lemma al_frames_ids:
  "al_frames s cid off ps = Inr fs \<Longrightarrow> fst ` frame_id ` set fs \<subseteq> {cid} \<and> length fs = length ps"
proof (induction ps arbitrary: off fs)
  case (Cons p ps)
  obtain ty d where p: "p = (ty, d)" by (cases p)
  with Cons.prems obtain f gs where "al_frame s ty cid (JObj d) off = Inr f" "al_frames s cid (Suc off) ps = Inr gs" "fs = f # gs"
    by (cases "al_frames s cid (Suc off) ps") (auto split: sum.splits)
  with Cons.IH al_frame_id show ?case by (auto simp: frame_id_def)
qed simp

lemma build_mission_ids:
  assumes "build_mission cmd s = Inr fs"
  shows "fst ` frame_id ` set fs \<subseteq> {cc_command_id cmd}" "fs \<noteq> []"
proof -
  obtain mid ds c where "al_frames s (cc_command_id cmd) 0 (mission_payloads mid ds c) = Inr fs"
    using assms by (auto simp: build_mission_def Let_def split: if_splits sum.splits option.splits)
  from al_frames_ids [OF this] show "fst ` frame_id ` set fs \<subseteq> {cc_command_id cmd}" "fs \<noteq> []"
    by (auto simp: mission_payloads_def)
qed

lemma acquire_exclusive:
  assumes q: "acquire_and_queue cid fs now st s = (r, s')"
    and ids: "fst ` frame_id ` set fs \<subseteq> {cid}" "fs \<noteq> []"
    and s: "\<forall>i \<in> keys (al_sender s). fst i = cid" "1 \<le> rs_max_pending (al_sender s)" "rs_exhausted (al_sender s) = []"
  shows "exclusive s'"
proof -
  obtain e rs where rs: "queue_all fs now (al_sender s) = (e, rs)" by (cases "queue_all fs now (al_sender s)")
  note ks = keys_queue_all [OF rs]
  have all: "\<forall>i \<in> keys rs. fst i = cid"
  proof
    fix i assume "i \<in> keys rs"
    with ks have "i \<in> keys (al_sender s) \<or> i \<in> frame_id ` set fs" by blast
    with s(1) ids(1) show "fst i = cid" by blast
  qed
  show ?thesis
  proof (cases e)
    case None
    obtain f where "f \<in> set fs" using ids(2) by (cases fs) auto
    with None ks have "frame_id f \<in> keys rs" by blast
    then have "rs_pending rs \<noteq> []" using keys_empty [of rs] by blast
    with None q rs ks s(2,3) show ?thesis
      by (auto simp: acquire_and_queue_def exclusive_def dest!: bspec [OF all])
  next
    case (Some x)
    have "keys (snd (retry_cancel rs cid)) = {}" using all by (auto simp: keys_cancel)
    with Some q rs ks s(2,3) show ?thesis by (auto simp: acquire_and_queue_def exclusive_def cancel_fields keys_def)
  qed
qed

lemma exclusive_keys:
  assumes "exclusive s" "al_active s = None \<or> al_active s = Some c"
  shows "\<forall>i \<in> keys (al_sender s). fst i = c"
  using assms by (auto simp: exclusive_def)

text \<open>A fragment of the mission in progress that raises: the one call that gives the link up\<close>

definition gives_up :: "cloud_command \<Rightarrow> al_exc + string \<times> nat \<Rightarrow> aircraft_link \<Rightarrow> bool" where
  "gives_up cmd r s \<longleftrightarrow> isl r \<and> fragment_type (cc_action cmd) \<noteq> None
     \<and> al_active s = Some (cc_command_id cmd) \<and> cc_command_id cmd \<in> set (al_fragments s)"

lemma execute_exclusive:
  assumes x: "al_execute cmd now s = (r, s')" and e: "exclusive s" and ok: "\<not> gives_up cmd r s"
  shows "exclusive s'"
proof -
  let ?c = "cc_command_id cmd" and ?ty = "fragment_type (cc_action cmd)"
  show ?thesis
  proof (cases "cc_target cmd = ''aircraft'' \<and> (al_active s = None \<or> ?ty \<noteq> None \<and> al_active s = Some ?c)")
    case False
    with x e show ?thesis by (auto simp: al_execute_def Let_def split: if_splits)
  next
    case True
    then have ks: "\<forall>i \<in> keys (al_sender s). fst i = ?c" by (intro exclusive_keys [OF e]) blast
    have lim: "1 \<le> rs_max_pending (al_sender s)" "rs_exhausted (al_sender s) = []" using e by (auto simp: exclusive_def)
    consider (same) "s' = s" | (acq) fs st s1 where "acquire_and_queue ?c fs now st s1 = (r, s')" "al_sender s1 = al_sender s"
        "fst ` frame_id ` set fs \<subseteq> {?c}" "fs \<noteq> []"
    proof (cases ?ty)
      case None
      show ?thesis
      proof (cases "cc_action cmd = ''mission''")
        case True
        with None \<open>cc_target cmd = _ \<and> _\<close> x that build_mission_ids [of cmd s] show ?thesis
          unfolding al_execute_def Let_def by (auto split: if_splits sum.splits)
      next
        case False
        with None True x that show ?thesis
          by (auto simp: al_execute_def Let_def frame_id_def dest: al_frame_id split: if_splits sum.splits)
      qed
    next
      case (Some mt)
      have idle: "s\<lparr>al_active := None\<rparr> = s" if "al_active s = None" using that by simp
      from Some True x that ok show ?thesis
        by (auto simp: al_execute_def gives_up_def idle Let_def frame_id_def dest: al_frame_id split: if_splits sum.splits)
    qed
    then show ?thesis
    proof cases
      case acq
      with acquire_exclusive [OF acq(1,3,4)] ks lim show ?thesis by simp
    qed (use e in simp)
  qed
qed

lemma fold_set_terminal_exclusive:
  "exclusive s \<Longrightarrow> exclusive (fold (\<lambda>i. set_terminal (fst i) st (f i)) is s)"
  by (induction "is" arbitrary: s) (simp_all add: set_terminal_exclusive)

lemma due_exclusive:
  assumes d: "due_bytes now s = (r, s')" and e: "exclusive s"
  shows "exclusive s'"
proof -
  obtain due rs where rs: "retry_due (al_sender s) now = (due, rs)" by (cases "retry_due (al_sender s) now")
  have lim: "1 \<le> rs_max_pending (al_sender s)" "rs_exhausted (al_sender s) = []" using e by (auto simp: exclusive_def)
  note ks = keys_due [OF rs lim]
  let ?rs = "rs\<lparr>rs_exhausted := []\<rparr>"
  have kr: "keys ?rs = keys rs" by (simp add: keys_def)
  show ?thesis
  proof (cases "rs_exhausted rs")
    case Nil
    have "exclusive (s\<lparr>al_sender := ?rs\<rparr>)" "exclusive (set_stage ''awaiting_ack'' (s\<lparr>al_sender := ?rs\<rparr>))"
      using e ks(3) [OF Nil] ks(4) kr keys_empty [of rs] keys_empty [of "al_sender s"] by (simp_all add: exclusive_def)
    with Nil rs d show ?thesis by (auto simp: due_bytes_def retry_pop_exhausted_def Let_def split: if_splits)
  next
    case (Cons i ex)
    with ks(2) have i: "i \<in> keys (al_sender s)" by auto
    then have act: "al_active s = Some (fst i)" using e by (auto simp: exclusive_def)
    with e have "\<forall>j \<in> keys (al_sender s). fst j = fst i" by (intro exclusive_keys) auto
    with ks(1) kr have "\<forall>j \<in> keys ?rs. fst j = fst i" by blast
    then have x: "exclusive (set_terminal (fst i) st err (s\<lparr>al_sender := ?rs\<rparr>))" for st err
      using act lim ks(4) by (intro set_terminal_active) auto
    have "s' = fold (\<lambda>i. set_terminal (fst i) ''retry_exhausted'' (exhausted_text i)) (i # ex) (s\<lparr>al_sender := ?rs\<rparr>)"
      using arg_cong [OF d, of snd] rs Cons by (simp add: due_bytes_def retry_pop_exhausted_def Let_def)
    then show ?thesis using fold_set_terminal_exclusive [OF x [of "''retry_exhausted''" "exhausted_text i"]] by simp
  qed
qed

lemma ack_exclusive:
  assumes a: "retry_acknowledge (al_sender s) c sq = (b, rs)" and e: "exclusive s"
  shows "b \<Longrightarrow> al_active s = Some c \<and> (\<forall>i \<in> keys rs. fst i = c)" "\<not> b \<Longrightarrow> exclusive (s\<lparr>al_sender := rs\<rparr>)"
    "1 \<le> rs_max_pending rs" "rs_exhausted rs = []"
proof -
  note ks = keys_acknowledge [OF a]
  show lim: "1 \<le> rs_max_pending rs" "rs_exhausted rs = []" using ks(3,4) e by (auto simp: exclusive_def)
  { assume b
    with ks(2) have "(c, sq) \<in> keys (al_sender s)" by simp
    with e have act: "al_active s = Some c" by (auto simp: exclusive_def)
    moreover have "\<forall>i \<in> keys (al_sender s). fst i = c" using act by (intro exclusive_keys [OF e]) blast
    ultimately show "al_active s = Some c \<and> (\<forall>i \<in> keys rs. fst i = c)" using ks(1) by blast }
  { assume "\<not> b"
    with ks(1,2) have "keys rs = keys (al_sender s)" by auto
    with e lim keys_empty [of rs] keys_empty [of "al_sender s"] show "exclusive (s\<lparr>al_sender := rs\<rparr>)" by (simp add: exclusive_def) }
qed

lemma accept_ack_exclusive:
  assumes a: "accept_ack f s = (b, s')" and e: "exclusive s"
  shows "exclusive s'"
proof -
  let ?c = "f_command_id f" and ?q = "nat (int_of (fld (f_payload f) ''acked_sequence''))"
  obtain ok rs where rs: "retry_acknowledge (al_sender s) ?c ?q = (ok, rs)" by (cases "retry_acknowledge (al_sender s) ?c ?q")
  let ?s1 = "s\<lparr>al_sender := rs\<rparr>"
  note ks = ack_exclusive [OF rs e]
  consider "s' = s" | (no) "\<not> ok" "s' = ?s1" | (more) ok "rs_pending rs \<noteq> []" "s' = ?s1"
    | (part) ok "rs_pending rs = []" "s' = set_stage ''fragment_acknowledged'' (?s1\<lparr>al_active := None\<rparr>)"
    | (fin) ok "rs_pending rs = []" "s' = set_terminal ?c ''acknowledged'' []
        (?s1\<lparr>al_fragments := discard ?c (al_fragments ?s1), al_commits := discard ?c (al_commits ?s1)\<rparr>)"
  proof (cases "f_type f \<noteq> ACK \<or> map_of (al_terminal s) ?c \<noteq> None")
    case True
    with a that show ?thesis by (auto simp: accept_ack_def)
  next
    case False
    with a rs that ks(1) show ?thesis
      by (cases ok; cases "rs_pending rs = []")
        (auto simp: accept_ack_def Let_def al_pending_count_def split: if_splits)
  qed
  then show ?thesis
  proof cases
    case more
    with ks show ?thesis by (auto simp: exclusive_def)
  next
    case part
    with ks show ?thesis by (auto simp: exclusive_def keys_def)
  next
    case fin
    have "exclusive (set_terminal ?c ''acknowledged'' []
        (?s1\<lparr>al_fragments := discard ?c (al_fragments ?s1), al_commits := discard ?c (al_commits ?s1)\<rparr>))"
      using ks(1) [OF fin(1)] ks(3,4) by (intro set_terminal_active) auto
    with fin show ?thesis by simp
  qed (use e ks in simp_all)
qed

lemma accept_response_exclusive:
  assumes a: "accept_response f s = (b, s')" and e: "exclusive s"
  shows "exclusive s'"
proof -
  let ?c = "f_command_id f" and ?q = "nat (int_of (fld (f_payload f) ''acked_sequence''))"
  obtain ok rs where rs: "retry_acknowledge (al_sender s) ?c ?q = (ok, rs)" by (cases "retry_acknowledge (al_sender s) ?c ?q")
  note ks = ack_exclusive [OF rs e]
  have x: "exclusive (set_terminal ?c st err (s\<lparr>al_sender := rs\<rparr>))" if ok for st err
    using ks(1) [OF that] ks(3,4) by (intro set_terminal_active) auto
  show ?thesis
  proof (cases "f_type f = ACK")
    case True
    with a accept_ack_exclusive [OF _ e] show ?thesis by (simp add: accept_response_def)
  next
    case False
    with a e rs x ks(2) show ?thesis by (cases ok) (auto simp: accept_response_def Let_def split: if_splits)
  qed
qed

lemma fail_active_exclusive: "fail_active st err c s = (r, s') \<Longrightarrow> exclusive s \<Longrightarrow> exclusive s'"
  by (auto simp: fail_active_def set_terminal_exclusive split: if_splits option.splits)

subsection \<open>Runs\<close>

text \<open>
  The link started and then driven: commands, those that raise included, the timer, answers and forced failures.
  A fragment of the mission in progress that raises is the one call left out; the last theorem shows what it does.
\<close>

inductive al_reach :: "aircraft_link \<Rightarrow> bool" where
  start: "aircraft_link_init n d h = Inr s \<Longrightarrow> al_reach s"
| command: "al_reach s \<Longrightarrow> al_execute cmd now s = (r, s') \<Longrightarrow> \<not> gives_up cmd r s \<Longrightarrow> al_reach s'"
| timer: "al_reach s \<Longrightarrow> due_bytes now s = (bs, s') \<Longrightarrow> al_reach s'"
| answer: "al_reach s \<Longrightarrow> accept_response f s = (b, s') \<Longrightarrow> al_reach s'"
| ack: "al_reach s \<Longrightarrow> accept_ack_bytes w s = (x, s') \<Longrightarrow> al_reach s'"
| fail: "al_reach s \<Longrightarrow> fail_active st err c s = (y, s') \<Longrightarrow> al_reach s'"

lemma init_exclusive: "aircraft_link_init n d h = Inr s \<Longrightarrow> exclusive s"
  by (auto simp: aircraft_link_init_def retry_sender_init_def exclusive_def keys_def split: if_splits)

lemma reach_exclusive: "al_reach s \<Longrightarrow> exclusive s"
proof (induction rule: al_reach.induct)
  case (ack s w x s')
  then show ?case
    using accept_ack_exclusive by (auto simp: accept_ack_bytes_def split: sum.splits prod.splits)
qed (auto intro: init_exclusive execute_exclusive due_exclusive accept_response_exclusive fail_active_exclusive)


text \<open>A \<open>mission_item\<close> of the transaction in progress that raises while its payload is built (it has no
  \<open>lat\<close>, say) releases the link: the active transaction is forgotten although its frames stay pending,
  and the next command, whichever it is, passes the check that the link is busy.
\<close>

theorem failed_fragment_releases_link:
  assumes c: "cc_target cmd = ''aircraft''" "fragment_type (cc_action cmd) \<noteq> None" "fragment_payload cmd = Inl e"
    and s: "al_active s = Some (cc_command_id cmd)" "cc_command_id cmd \<in> set (al_fragments s)"
    and other: "cc_target cmd' = ''aircraft''" "fragment_type (cc_action cmd') = None" "cc_action cmd' \<noteq> ''mission''"
      "map_of (al_terminal s) (cc_command_id cmd') = None"
    and f: "al_frame s COMMAND (cc_command_id cmd') (JObj [(''action'', JStr (cc_action cmd')), (''parameters'', JObj (cc_payload cmd'))]) 0 = Inr f"
      "retry_queue (al_sender s) f now = Inr rs"
  shows "fst (al_execute cmd' now s) = Inl (AlPy (ValueError ''aircraft transaction already active''))
    \<and> al_execute cmd now s = (Inl e, s\<lparr>al_active := None\<rparr>)
    \<and> fst (al_execute cmd' now (s\<lparr>al_active := None\<rparr>)) = Inr (''queued'', 1)
    \<and> al_sender (snd (al_execute cmd' now (s\<lparr>al_active := None\<rparr>))) = rs
    \<and> set (map fst (rs_pending (al_sender s))) \<subseteq> set (map fst (rs_pending rs))"
proof -
  let ?s = "s\<lparr>al_active := None\<rparr>"
  have b: "fst (al_execute cmd' now s) = Inl (AlPy (ValueError ''aircraft transaction already active''))"
    using other s by (simp add: al_execute_def)
  have r: "al_execute cmd now s = (Inl e, ?s)" using c s by (auto simp: al_execute_def Let_def split: option.splits)
  have "al_frame ?s = al_frame s" by (simp add: al_frame_def fun_eq_iff)
  with other f(1) have "al_execute cmd' now ?s = acquire_and_queue (cc_command_id cmd') [f] now ''queued'' ?s"
    by (simp add: al_execute_def Let_def)
  with f(2) have q: "fst (al_execute cmd' now ?s) = Inr (''queued'', 1)" "al_sender (snd (al_execute cmd' now ?s)) = rs"
    by (simp_all add: acquire_and_queue_def)
  have "set (map fst (rs_pending (al_sender s))) \<subseteq> set (map fst (rs_pending rs))"
    using keys_queue [OF f(2)] by (auto simp: keys_def)
  with b r q show ?thesis by simp
qed


subsection \<open>Witnesses\<close>

definition al_witness_link :: "retry_sender \<Rightarrow> uuid option \<Rightarrow> uuid list \<Rightarrow> aircraft_link" where
  "al_witness_link rs a fr = \<lparr>al_sender = rs, al_next = 0, al_stage = ''idle'', al_error = [], al_transaction = [], al_active = a,
     al_revision = 0, al_terminal = [], al_limit = 128, al_fragments = fr, al_commits = []\<rparr>"

definition al_witness_sender :: retry_sender where
  "al_witness_sender = \<lparr>rs_max_attempts = 4, rs_interval = 1, rs_max_pending = 1024, rs_pending = [], rs_exhausted = []\<rparr>"

definition al_witness_command :: "uuid \<Rightarrow> string \<Rightarrow> cloud_command" where
  "al_witness_command u a = \<lparr>cc_command_id = u, cc_timestamp = Fin 0 0, cc_target = ''aircraft'', cc_action = a, cc_payload = []\<rparr>"

lemma al_witness_frame:
  "\<exists>f. al_frame (al_witness_link rs a fr) COMMAND u (JObj [(''action'', JStr ''arm''), (''parameters'', JObj [])]) 0 = Inr f"
proof -
  let ?p = "[(''action'', JStr ''arm''), (''parameters'', JObj [])]"
  have v: "validate_payload COMMAND (JObj ?p) = None" by code_simp
  have l: "map_option (\<lambda>t. length (utf8 t) \<le> 4096) (dumps False (JObj ?p)) = Some True" by code_simp
  then obtain t where t: "dumps False (JObj ?p) = Some t" "length (utf8 t) \<le> 4096" by auto
  have m: "default_max_payload = 1048576" "u32_mask 0 = 0" by (simp_all add: default_max_payload_def u32_mask_def)
  show ?thesis
    using v t m by (simp add: al_frame_def make_frame_def encode_frame_def canonical_payload_def al_witness_link_def)
qed


lemma failed_fragment_releases_link_witness:
  "\<exists>f. let s = al_witness_link al_witness_sender (Some 7) [7]; cmd = al_witness_command 7 ''mission_item'';
      cmd' = al_witness_command 8 ''arm'' in
    al_frame s COMMAND 8 (JObj [(''action'', JStr ''arm''), (''parameters'', JObj [])]) 0 = Inr f
    \<and> al_execute cmd 0 s = (Inl (AlKey ''mission_id''), s\<lparr>al_active := None\<rparr>)
    \<and> fst (al_execute cmd' 0 (s\<lparr>al_active := None\<rparr>)) = Inr (''queued'', 1)"
proof -
  let ?s = "al_witness_link al_witness_sender (Some 7) [7]" and ?j = "JObj [(''action'', JStr ''arm''), (''parameters'', JObj [])]"
  let ?a = "al_witness_command 7 ''mission_item''" and ?b = "al_witness_command 8 ''arm''"
  obtain f where f: "al_frame ?s COMMAND 8 ?j 0 = Inr f" using al_witness_frame by blast
  obtain rs where q: "retry_queue (al_sender ?s) f 0 = Inr rs"
    by (simp add: retry_queue_def al_witness_link_def al_witness_sender_def)
  from failed_fragment_releases_link [of ?a "AlKey ''mission_id''" ?s ?b f 0 rs] f q show ?thesis
    by (auto simp: al_witness_command_def fragment_type_def fragment_payload_def al_witness_link_def)
qed

end
