(* ===== verification/RoverWorker.thy ===== *)
theory RoverWorker
  imports Prelude
begin

text \<open>
  \<open>RoverMissionWorker\<close> of \<open>rdk_agent/rover_mission.py\<close>: the single thread that uploads the rover's missions,
  its bounded queue and the table of stages that the agent polls.

  Each step below is one holding of the condition's lock, or one call of the queue, so that a run is an
  interleaving of the calling threads with the worker. The items and the telemetry of a job are its
  \<open>data\<close>; the result of the operation and the texts of its exceptions are inputs.
\<close>

subsection \<open>Jobs and stages\<close>

record 'd rover_job =
  rj_id :: string
  rj_source :: real
  rj_data :: 'd

record job_status =
  js_stage :: string
  js_message :: string
  js_error :: string

definition js :: "string \<Rightarrow> string \<Rightarrow> string \<Rightarrow> job_status" where
  "js st m e = \<lparr>js_stage = st, js_message = m, js_error = e\<rparr>"

definition terminal_stages :: "string list" where
  "terminal_stages = [''verified'', ''failed'', ''cancelled'', ''unsafe_residual'']"

definition terminal :: "job_status \<Rightarrow> bool" where
  "terminal s \<longleftrightarrow> js_stage s \<in> set terminal_stages"

record worker_config =
  wc_max_pending :: nat
  wc_max_history :: nat
  wc_max_age :: real

datatype rover_exc = WorkerValueError | RoverClosed | QueueFullError | QueueFull

definition worker_config_init :: "int \<Rightarrow> int \<Rightarrow> real \<Rightarrow> rover_exc + worker_config" where
  "worker_config_init pending history age =
     (if pending < 1 \<or> history < 1 \<or> age \<le> 0 then Inl WorkerValueError
      else Inr \<lparr>wc_max_pending = nat pending, wc_max_history = nat history, wc_max_age = age\<rparr>)"

text \<open>
  Where the thread is: waiting at \<open>get\<close>, holding a job it took, past the check of the job, in the
  operation, behind it (the \<open>finally\<close> is still to come), or ended.
\<close>

datatype 'd worker_phase = Idle | Taken "'d rover_job" | Started "'d rover_job" | Running "'d rover_job"
  | Finishing | Ended

record 'd rover_worker =
  rw_queue :: "'d rover_job option list"
  rw_statuses :: "(string \<times> job_status) list"
  rw_emitted :: "string list"
  rw_active :: "string option"
  rw_latest :: "real option"
  rw_closed :: bool
  rw_phase :: "'d worker_phase"

definition rover_worker_init :: "'d rover_worker" where
  "rover_worker_init = \<lparr>rw_queue = [], rw_statuses = [], rw_emitted = [], rw_active = None, rw_latest = None,
     rw_closed = False, rw_phase = Idle\<rparr>"

subsection \<open>The table of stages\<close>

fun removable :: "string option \<Rightarrow> (string \<times> job_status) list \<Rightarrow> string option" where
  "removable act [] = None"
| "removable act ((i, s) # rest) = (if terminal s \<and> act \<noteq> Some i then Some i else removable act rest)"

lemma removable_mem: "removable act sts = Some i \<Longrightarrow> \<exists>s. (i, s) \<in> set sts \<and> terminal s"
  by (induction sts) (auto split: if_splits)

function trim_history :: "nat \<Rightarrow> string option \<Rightarrow> (string \<times> job_status) list \<Rightarrow> string list \<Rightarrow>
    (string \<times> job_status) list \<times> string list" where
  "trim_history cap act sts em =
     (if length sts \<le> cap then (sts, em)
      else case removable act sts of
        None \<Rightarrow> (sts, em)
      | Some i \<Rightarrow> trim_history cap act (AList.delete i sts) (removeAll i em))"
  by pat_completeness auto
termination
proof (relation "measure (\<lambda>(cap, act, sts, em). length sts)")
  fix cap act and sts :: "(string \<times> job_status) list" and em :: "string list" and i
  assume "removable act sts = Some i"
  then obtain s where "(i, s) \<in> set sts" using removable_mem by blast
  then show "((cap, act, AList.delete i sts, removeAll i em), (cap, act, sts, em)) \<in> measure (\<lambda>(cap, act, sts, em). length sts)"
    by (simp add: delete_as_filter length_filter_less)
qed simp

declare trim_history.simps [simp del]

definition trimmed :: "worker_config \<Rightarrow> 'd rover_worker \<Rightarrow> 'd rover_worker" where
  "trimmed c s = (case trim_history (wc_max_history c) (rw_active s) (rw_statuses s) (rw_emitted s) of
     (sts, em) \<Rightarrow> s\<lparr>rw_statuses := sts, rw_emitted := em\<rparr>)"

text \<open>\<open>_set\<close>: the entry moves to the end\<close>

definition put_status :: "worker_config \<Rightarrow> string \<Rightarrow> job_status \<Rightarrow> 'd rover_worker \<Rightarrow> 'd rover_worker" where
  "put_status c i st s = trimmed c (s\<lparr>rw_statuses := od_touch i st (rw_statuses s)\<rparr>)"

subsection \<open>The calls of the agent\<close>

definition newest :: "real option \<Rightarrow> real \<Rightarrow> real" where
  "newest l t = (case l of None \<Rightarrow> t | Some u \<Rightarrow> max u t)"

definition pending_jobs :: "(string \<times> job_status) list \<Rightarrow> nat" where
  "pending_jobs sts = length (filter (\<lambda>(i, s). \<not> terminal s) sts)"

definition rw_submit :: "worker_config \<Rightarrow> 'd rover_job \<Rightarrow> 'd rover_worker \<Rightarrow> (rover_exc + job_status) \<times> 'd rover_worker" where
  "rw_submit c j s =
     (if rw_closed s then (Inl RoverClosed, s)
      else case map_of (rw_statuses s) (rj_id j) of
        Some st \<Rightarrow> (Inr st, s)
      | None \<Rightarrow>
          if wc_max_pending c \<le> pending_jobs (rw_statuses s) then (Inl QueueFullError, s)
          else
            let s1 = s\<lparr>rw_statuses := rw_statuses s @ [(rj_id j, js ''queued'' [] [])],
                       rw_latest := Some (newest (rw_latest s) (rj_source j))\<rparr>
            in if wc_max_pending c \<le> length (rw_queue s1) then (Inl QueueFull, s1)
               else (Inr (js ''queued'' [] []), trimmed c (s1\<lparr>rw_queue := rw_queue s1 @ [Some j]\<rparr>)))"

definition rw_cancel :: "string \<Rightarrow> 'd rover_worker \<Rightarrow> bool \<times> 'd rover_worker" where
  "rw_cancel i s =
     (case map_of (rw_statuses s) i of
        None \<Rightarrow> (False, s)
      | Some st \<Rightarrow>
          if terminal st \<or> rw_active s = Some i then (False, s)
          else (True, s\<lparr>rw_statuses := AList.update i (js ''cancelled'' ''mission cancelled before execution'' []) (rw_statuses s)\<rparr>))"

definition rw_status :: "string \<Rightarrow> 'd rover_worker \<Rightarrow> job_status option" where
  "rw_status i s = map_of (rw_statuses s) i"

definition rw_completed :: "'d rover_worker \<Rightarrow> (string \<times> job_status) list" where
  "rw_completed s = filter (\<lambda>(i, st). terminal st) (rw_statuses s)"

definition rw_drain :: "worker_config \<Rightarrow> 'd rover_worker \<Rightarrow> (string \<times> job_status) list \<times> 'd rover_worker" where
  "rw_drain c s =
     (let ready = filter (\<lambda>(i, st). terminal st \<and> i \<notin> set (rw_emitted s)) (rw_statuses s)
      in (ready, trimmed c (s\<lparr>rw_emitted := rw_emitted s @ map fst ready\<rparr>)))"

text \<open>\<open>close\<close> sets the flag and then waits until the queue has room for the end mark\<close>

definition rw_close :: "'d rover_worker \<Rightarrow> 'd rover_worker" where
  "rw_close s = s\<lparr>rw_closed := True\<rparr>"

definition rw_put_end :: "worker_config \<Rightarrow> 'd rover_worker \<Rightarrow> 'd rover_worker option" where
  "rw_put_end c s = (if wc_max_pending c \<le> length (rw_queue s) then None else Some (s\<lparr>rw_queue := rw_queue s @ [None]\<rparr>))"

subsection \<open>The thread\<close>

definition rw_take :: "'d rover_worker \<Rightarrow> 'd rover_worker option" where
  "rw_take s = (case (rw_phase s, rw_queue s) of
     (Idle, None # q) \<Rightarrow> Some (s\<lparr>rw_queue := q, rw_phase := Ended\<rparr>)
   | (Idle, Some j # q) \<Rightarrow> Some (s\<lparr>rw_queue := q, rw_phase := Taken j\<rparr>)
   | _ \<Rightarrow> None)"

text \<open>The check of a job that was taken, at the times \<open>t1\<close> and, for the text, \<open>t2\<close>\<close>

definition rw_check :: "worker_config \<Rightarrow> real \<Rightarrow> real \<Rightarrow> 'd rover_worker \<Rightarrow> 'd rover_worker option" where
  "rw_check c t1 t2 s = (case rw_phase s of
     Taken j \<Rightarrow>
       (case map_of (rw_statuses s) (rj_id j) of
          None \<Rightarrow> Some (s\<lparr>rw_phase := Idle\<rparr>)
        | Some st \<Rightarrow>
            if js_stage st = ''cancelled'' then Some (s\<lparr>rw_phase := Idle\<rparr>)
            else if wc_max_age c < t1 - rj_source j \<or> (\<exists>l. rw_latest s = Some l \<and> rj_source j < l) then
              Some (trimmed c (s\<lparr>rw_phase := Idle, rw_statuses := AList.update (rj_id j)
                (js ''failed'' (if wc_max_age c < t2 - rj_source j then ''stale mission expired before execution''
                   else ''mission superseded before execution'') ''MissionError'') (rw_statuses s)\<rparr>))
            else Some (s\<lparr>rw_active := Some (rj_id j), rw_phase := Started j\<rparr>))
   | _ \<Rightarrow> None)"

definition rw_begin :: "worker_config \<Rightarrow> 'd rover_worker \<Rightarrow> 'd rover_worker option" where
  "rw_begin c s = (case rw_phase s of
     Started j \<Rightarrow> Some (put_status c (rj_id j) (js ''uploading'' [] []) (s\<lparr>rw_phase := Running j\<rparr>)) | _ \<Rightarrow> None)"

text \<open>What the operation reports: progress, or its end\<close>

datatype op_report = OpProgress string string | OpVerified | OpRaised bool string string

definition rw_report :: "worker_config \<Rightarrow> op_report \<Rightarrow> 'd rover_worker \<Rightarrow> 'd rover_worker option" where
  "rw_report c out s = (case rw_phase s of
     Running j \<Rightarrow> Some (case out of
         OpProgress st m \<Rightarrow> put_status c (rj_id j) (js st m []) s
       | OpVerified \<Rightarrow> put_status c (rj_id j) (js ''verified'' [] []) (s\<lparr>rw_phase := Finishing\<rparr>)
       | OpRaised unsafe m e \<Rightarrow> put_status c (rj_id j) (js (if unsafe then ''unsafe_residual'' else ''failed'') m e)
           (s\<lparr>rw_phase := Finishing\<rparr>))
   | _ \<Rightarrow> None)"

definition rw_release :: "worker_config \<Rightarrow> 'd rover_worker \<Rightarrow> 'd rover_worker option" where
  "rw_release c s = (case rw_phase s of
     Finishing \<Rightarrow> Some (trimmed c (s\<lparr>rw_active := None, rw_phase := Idle\<rparr>)) | _ \<Rightarrow> None)"

end
