(* ===== verification/RoverWorkerProps.thy ===== *)
theory RoverWorkerProps
  imports RoverWorker "HOL-Library.Sublist"
begin

text \<open>
  The rover's mission worker under every interleaving of its callers with its thread: jobs are executed
  at most once, in the order of their submission, and never after a cancellation that succeeded; and a
  job whose submission meets a queue full of cancelled jobs stays pending for ever.
\<close>

subsection \<open>Trimming keeps what is pending\<close>

lemma removable_lookup:
  "removable act sts = Some i \<Longrightarrow> distinct (map fst sts) \<Longrightarrow> \<exists>s. map_of sts i = Some s \<and> terminal s \<and> act \<noteq> Some i"
proof (induction sts)
  case (Cons p sts)
  obtain k s where p: "p = (k, s)" by (cases p)
  show ?case
  proof (cases "terminal s \<and> act \<noteq> Some k")
    case False
    with Cons.prems p have "removable act sts = Some i" "distinct (map fst sts)" by (auto split: if_splits)
    with Cons.IH obtain s' where "map_of sts i = Some s'" "terminal s'" "act \<noteq> Some i" by auto
    moreover from this(1) have "i \<in> fst ` set sts" by (metis domI dom_map_of_conv_image_fst)
    moreover from this Cons.prems p have "k \<noteq> i" by auto
    ultimately show ?thesis by (simp add: p)
  next
    case True
    with True Cons.prems p show ?thesis by (auto split: if_splits)
  qed
qed simp

lemma trim_history_lookup:
  assumes "trim_history cap act sts em = (sts', em')" "distinct (map fst sts)"
  shows "distinct (map fst sts')
    \<and> (map_of sts' i = map_of sts i \<or> map_of sts' i = None \<and> (\<exists>s. map_of sts i = Some s \<and> terminal s \<and> act \<noteq> Some i))"
  using assms
proof (induction cap act sts em rule: trim_history.induct)
  case (1 cap act sts em)
  show ?case
  proof (cases "length sts \<le> cap \<or> removable act sts = None")
    case True
    with 1(2,3) show ?thesis by (auto simp: trim_history.simps [of cap act sts em] split: if_splits)
  next
    case False
    then obtain k where k: "\<not> length sts \<le> cap" "removable act sts = Some k" by auto
    with 1(2) have r: "trim_history cap act (AList.delete k sts) (removeAll k em) = (sts', em')"
      by (simp add: trim_history.simps [of cap act sts em])
    have d: "distinct (map fst (AList.delete k sts))" using 1(3) by (rule distinct_delete)
    from removable_lookup [OF k(2) 1(3)] 1(1) [OF k r d] show ?thesis by (cases "i = k") auto
  qed
qed

lemma trimmed_fields [simp]:
  "rw_queue (trimmed c s) = rw_queue s" "rw_active (trimmed c s) = rw_active s" "rw_latest (trimmed c s) = rw_latest s"
  "rw_closed (trimmed c s) = rw_closed s" "rw_phase (trimmed c s) = rw_phase s"
  by (simp_all add: trimmed_def split: prod.splits)

lemma trimmed_lookup:
  assumes "distinct (map fst (rw_statuses s))"
  shows "distinct (map fst (rw_statuses (trimmed c s)))"
    "map_of (rw_statuses (trimmed c s)) i = map_of (rw_statuses s) i \<or> map_of (rw_statuses (trimmed c s)) i = None \<and>
      (\<exists>st. map_of (rw_statuses s) i = Some st \<and> terminal st \<and> rw_active s \<noteq> Some i)"
proof -
  obtain sts em where t: "trim_history (wc_max_history c) (rw_active s) (rw_statuses s) (rw_emitted s) = (sts, em)"
    by (cases "trim_history (wc_max_history c) (rw_active s) (rw_statuses s) (rw_emitted s)")
  from trim_history_lookup [OF t assms, of i] t
  show "distinct (map fst (rw_statuses (trimmed c s)))"
    "map_of (rw_statuses (trimmed c s)) i = map_of (rw_statuses s) i \<or> map_of (rw_statuses (trimmed c s)) i = None \<and>
      (\<exists>st. map_of (rw_statuses s) i = Some st \<and> terminal st \<and> rw_active s \<noteq> Some i)"
    by (simp_all add: trimmed_def)
qed

subsection \<open>Runs\<close>

text \<open>
  A run carries the identities accepted, those whose submission raised \<open>queue.Full\<close>, those
  whose cancellation returned True and those executed, each in order. Identities are not reused
  after their status was trimmed (they are fresh UUIDs), and the operation reports no terminal stage as
  its progress (\<open>upload_and_verify\<close> reports \<open>verifying\<close>).
\<close>

inductive rw_run :: "worker_config \<Rightarrow> string list \<Rightarrow> string list \<Rightarrow> string list \<Rightarrow> string list \<Rightarrow> 'd rover_worker \<Rightarrow> bool"
  for c where
  start: "rw_run c [] [] [] [] rover_worker_init"
| known: "rw_run c acc lost can ex s \<Longrightarrow> map_of (rw_statuses s) (rj_id j) \<noteq> None \<Longrightarrow>
    rw_submit c j s = (r, s') \<Longrightarrow> rw_run c acc lost can ex s'"
| submit: "rw_run c acc lost can ex s \<Longrightarrow> rj_id j \<notin> set acc \<union> set lost \<Longrightarrow>
    rw_submit c j s = (r, s') \<Longrightarrow> rw_run c (if isl r then acc else acc @ [rj_id j])
      (if r = Inl QueueFull then lost @ [rj_id j] else lost) can ex s'"
| cancel: "rw_run c acc lost can ex s \<Longrightarrow> rw_cancel i s = (b, s') \<Longrightarrow> rw_run c acc lost (if b then can @ [i] else can) ex s'"
| drain: "rw_run c acc lost can ex s \<Longrightarrow> rw_drain c s = (r, s') \<Longrightarrow> rw_run c acc lost can ex s'"
| close: "rw_run c acc lost can ex s \<Longrightarrow> rw_run c acc lost can ex (rw_close s)"
| put_end: "rw_run c acc lost can ex s \<Longrightarrow> rw_put_end c s = Some s' \<Longrightarrow> rw_run c acc lost can ex s'"
| taken: "rw_run c acc lost can ex s \<Longrightarrow> rw_take s = Some s' \<Longrightarrow> rw_run c acc lost can ex s'"
| check: "rw_run c acc lost can ex s \<Longrightarrow> rw_check c t1 t2 s = Some s' \<Longrightarrow>
    rw_run c acc lost can (ex @ (case rw_phase s' of Started j \<Rightarrow> [rj_id j] | _ \<Rightarrow> [])) s'"
| begins: "rw_run c acc lost can ex s \<Longrightarrow> rw_begin c s = Some s' \<Longrightarrow> rw_run c acc lost can ex s'"
| report: "rw_run c acc lost can ex s \<Longrightarrow> rw_report c rep s = Some s' \<Longrightarrow>
    (\<forall>st m. rep = OpProgress st m \<longrightarrow> st \<notin> set terminal_stages) \<Longrightarrow> rw_run c acc lost can ex s'"
| release: "rw_run c acc lost can ex s \<Longrightarrow> rw_release c s = Some s' \<Longrightarrow> rw_run c acc lost can ex s'"

fun held_ids :: "'d worker_phase \<Rightarrow> string list" where
  "held_ids (Taken j) = [rj_id j]"
| "held_ids (Started j) = [rj_id j]"
| "held_ids (Running j) = [rj_id j]"
| "held_ids _ = []"

definition queued_ids :: "'d rover_worker \<Rightarrow> string list" where
  "queued_ids s = map rj_id (List.map_filter id (rw_queue s))"

text \<open>The order of the jobs\<close>

definition order_inv :: "string list \<Rightarrow> string list \<Rightarrow> string list \<Rightarrow> 'd worker_phase \<Rightarrow> string list \<Rightarrow> string option \<Rightarrow> bool" where
  "order_inv acc lost ex ph qs act \<longleftrightarrow>
     distinct acc \<and> set acc \<inter> set lost = {}
     \<and> (\<exists>done. acc = done @ held_ids ph @ qs \<and> subseq ex (done @ (case ph of Taken j \<Rightarrow> [] | _ \<Rightarrow> held_ids ph)))
     \<and> (case ph of Started j \<Rightarrow> act = Some (rj_id j) \<and> rj_id j \<in> set ex | Running j \<Rightarrow> act = Some (rj_id j) \<and> rj_id j \<in> set ex
          | Finishing \<Rightarrow> \<exists>i \<in> set ex. act = Some i | _ \<Rightarrow> act = None)"

text \<open>The table of stages\<close>

definition table_inv :: "string set \<Rightarrow> string set \<Rightarrow> string set \<Rightarrow> string set \<Rightarrow> (string \<Rightarrow> job_status option) \<Rightarrow> string option \<Rightarrow>
    string set \<Rightarrow> bool" where
  "table_inv acc lost can ex m act busy \<longleftrightarrow>
     dom m \<subseteq> acc \<union> lost
     \<and> (\<forall>i \<in> ex. \<forall>st. m i = Some st \<longrightarrow> terminal st \<or> act = Some i)
     \<and> (\<forall>i \<in> can. i \<in> acc \<union> lost \<and> i \<notin> ex \<and> (\<forall>st. m i = Some st \<longrightarrow> js_stage st = ''cancelled''))
     \<and> (\<forall>i \<in> lost - can. m i = Some (js ''queued'' [] []))
     \<and> (\<forall>i st. m i = Some st \<and> \<not> terminal st \<longrightarrow> i \<in> busy \<or> act = Some i \<or> i \<in> lost)"

text \<open>Behind the operation its stage is terminal\<close>

definition done_inv :: "'d worker_phase \<Rightarrow> (string \<Rightarrow> job_status option) \<Rightarrow> string option \<Rightarrow> bool" where
  "done_inv ph m act \<longleftrightarrow> (ph = Finishing \<longrightarrow> (\<forall>i st. act = Some i \<and> m i = Some st \<longrightarrow> terminal st))"

definition rw_inv :: "string list \<Rightarrow> string list \<Rightarrow> string list \<Rightarrow> string list \<Rightarrow> 'd rover_worker \<Rightarrow> bool" where
  "rw_inv acc lost can ex s \<longleftrightarrow>
     distinct (map fst (rw_statuses s))
     \<and> order_inv acc lost ex (rw_phase s) (queued_ids s) (rw_active s)
     \<and> table_inv (set acc) (set lost) (set can) (set ex) (map_of (rw_statuses s)) (rw_active s)
         (set (held_ids (rw_phase s) @ queued_ids s))
     \<and> done_inv (rw_phase s) (map_of (rw_statuses s)) (rw_active s)"

subsection \<open>Steps of the table\<close>

lemma queued_not_terminal [simp]: "\<not> terminal (js ''queued'' [] [])"
  by (simp add: terminal_def terminal_stages_def js_def)

lemma js_stage_js [simp]: "js_stage (js st m e) = st"
  by (simp add: js_def)

lemma table_sub:
  assumes "table_inv acc lost can ex m act busy"
    and "\<And>i. m' i = m i \<or> m' i = None \<and> (\<exists>st. m i = Some st \<and> terminal st)"
  shows "table_inv acc lost can ex m' act busy"
proof -
  have sub: "m i = Some st" if "m' i = Some st" for i st using assms(2) [of i] that by auto
  have q: "m' i = Some (js ''queued'' [] [])" if "m i = Some (js ''queued'' [] [])" for i
    using assms(2) [of i] that by auto
  show ?thesis using assms(1) unfolding table_inv_def by (auto dest!: sub intro: q)
qed

lemma table_put:
  "table_inv acc lost can ex m (Some i) busy \<Longrightarrow> i \<in> ex \<Longrightarrow> i \<in> acc \<Longrightarrow> i \<notin> lost \<Longrightarrow>
     table_inv acc lost can ex (m(i \<mapsto> st)) (Some i) busy"
  by (auto simp: table_inv_def)

lemma table_cancel:
  "table_inv acc lost can ex m act busy \<Longrightarrow> m i = Some st \<Longrightarrow> \<not> terminal st \<Longrightarrow> act \<noteq> Some i \<Longrightarrow>
     table_inv acc lost (insert i can) ex (m(i \<mapsto> js ''cancelled'' t e)) act busy"
  by (auto simp: table_inv_def terminal_def terminal_stages_def)

lemma table_submit:
  "table_inv acc lost can ex m act busy \<Longrightarrow> i \<notin> acc \<union> lost \<Longrightarrow> i \<notin> ex \<Longrightarrow>
     table_inv (insert i acc) lost can ex (m(i \<mapsto> js ''queued'' [] [])) act (insert i busy)"
  by (auto simp: table_inv_def)

lemma table_lose:
  "table_inv acc lost can ex m act busy \<Longrightarrow> i \<notin> acc \<union> lost \<Longrightarrow> i \<notin> ex \<Longrightarrow>
     table_inv acc (insert i lost) can ex (m(i \<mapsto> js ''queued'' [] [])) act busy"
  by (auto simp: table_inv_def)

lemma table_fail:
  "table_inv acc lost can ex m act (insert i busy) \<Longrightarrow> m i = Some st \<Longrightarrow> js_stage st \<noteq> ''cancelled'' \<Longrightarrow> i \<notin> lost \<Longrightarrow>
     table_inv acc lost can ex (m(i \<mapsto> js ''failed'' t e)) act busy"
  by (auto simp: table_inv_def terminal_def terminal_stages_def)

lemma table_skip:
  "table_inv acc lost can ex m act (insert i busy) \<Longrightarrow> \<forall>st. m i = Some st \<longrightarrow> terminal st \<Longrightarrow>
     table_inv acc lost can ex m act busy"
  by (auto simp: table_inv_def)

lemma table_busy:
  "table_inv acc lost can ex m (Some i) busy \<Longrightarrow> busy \<subseteq> insert i busy' \<Longrightarrow> table_inv acc lost can ex m (Some i) busy'"
  unfolding table_inv_def by blast

lemma table_execute:
  "table_inv acc lost can ex m None busy \<Longrightarrow> m i = Some st \<Longrightarrow> js_stage st \<noteq> ''cancelled'' \<Longrightarrow>
     table_inv acc lost can (insert i ex) m (Some i) busy"
  by (auto simp: table_inv_def)

lemma table_release:
  "table_inv acc lost can ex m act busy \<Longrightarrow> \<forall>i st. act = Some i \<and> m i = Some st \<longrightarrow> terminal st \<Longrightarrow>
     table_inv acc lost can ex m None busy"
  by (cases act) (auto simp: table_inv_def)

subsection \<open>The invariant\<close>

lemma queued_ids_trimmed [simp]: "queued_ids (trimmed c s) = queued_ids s"
  by (simp add: queued_ids_def)

lemma rw_inv_trimmed:
  assumes "rw_inv acc lost can ex s"
  shows "rw_inv acc lost can ex (trimmed c s)"
proof -
  have d: "distinct (map fst (rw_statuses s))" using assms by (simp add: rw_inv_def)
  note l = trimmed_lookup [OF d, of c]
  have "table_inv (set acc) (set lost) (set can) (set ex) (map_of (rw_statuses (trimmed c s))) (rw_active s)
      (set (held_ids (rw_phase s) @ queued_ids s))"
  proof (rule table_sub)
    show "table_inv (set acc) (set lost) (set can) (set ex) (map_of (rw_statuses s)) (rw_active s)
        (set (held_ids (rw_phase s) @ queued_ids s))" using assms by (simp add: rw_inv_def)
  qed (use l(2) in blast)
  moreover have "map_of (rw_statuses s) i = Some st" if "map_of (rw_statuses (trimmed c s)) i = Some st" for i st
    using l(2) [of i] that by auto
  ultimately show ?thesis using assms l(1) unfolding rw_inv_def done_inv_def trimmed_fields queued_ids_trimmed by blast
qed

lemma rw_inv_start: "rw_inv [] [] [] [] rover_worker_init"
  by (simp add: rw_inv_def order_inv_def table_inv_def done_inv_def rover_worker_init_def queued_ids_def)


lemma done_put: "done_inv ph m act \<Longrightarrow> terminal st \<or> (ph = Finishing \<longrightarrow> act \<noteq> Some i) \<Longrightarrow> done_inv ph (m(i \<mapsto> st)) act"
  by (auto simp: done_inv_def)

lemma set_subseq: "subseq xs ys \<Longrightarrow> set xs \<subseteq> set ys"
  by (induction rule: list_emb.induct) auto

lemma distinct_subseq: "subseq xs ys \<Longrightarrow> distinct ys \<Longrightarrow> distinct xs"
  by (induction rule: list_emb.induct) (use set_subseq in auto)

lemma order_ex: "order_inv acc lost ex ph qs act \<Longrightarrow> set ex \<subseteq> set acc - set lost"
proof -
  assume "order_inv acc lost ex ph qs act"
  then obtain dn where a: "acc = dn @ held_ids ph @ qs" and e: "subseq ex (dn @ (case ph of Taken j \<Rightarrow> [] | _ \<Rightarrow> held_ids ph))"
    and d: "set acc \<inter> set lost = {}" unfolding order_inv_def by blast
  have "set (case ph of Taken j \<Rightarrow> [] | _ \<Rightarrow> held_ids ph) \<subseteq> set (held_ids ph)" by (cases ph) auto
  with set_subseq [OF e] have "set ex \<subseteq> set acc" unfolding a by auto
  with d show ?thesis by blast
qed

lemma rw_inv_submit:
  assumes inv: "rw_inv acc lost can ex s" and new: "rj_id j \<notin> set acc \<union> set lost" and r: "rw_submit c j s = (r, s')"
  shows "rw_inv (if isl r then acc else acc @ [rj_id j]) (if r = Inl QueueFull then lost @ [rj_id j] else lost) can ex s'"
proof -
  let ?i = "rj_id j"
  let ?s1 = "s\<lparr>rw_statuses := AList.update ?i (js ''queued'' [] []) (rw_statuses s), rw_latest := Some (newest (rw_latest s) (rj_source j))\<rparr>"
  have ex: "?i \<notin> set ex" using inv new order_ex unfolding rw_inv_def by blast
  have none: "map_of (rw_statuses s) ?i = None" using inv new unfolding rw_inv_def table_inv_def by blast
  then have u: "AList.update ?i v (rw_statuses s) = rw_statuses s @ [(?i, v)]" for v by (rule update_absent)
  have d: "distinct (map fst (AList.update ?i v (rw_statuses s)))" for v
    using inv distinct_keys_update by (auto simp: rw_inv_def)
  have t: "table_inv (set acc) (set lost) (set can) (set ex) (map_of (rw_statuses s)) (rw_active s)
      (set (held_ids (rw_phase s) @ queued_ids s))" "order_inv acc lost ex (rw_phase s) (queued_ids s) (rw_active s)"
    using inv by (simp_all add: rw_inv_def)
  have act: "rw_phase s = Finishing \<Longrightarrow> rw_active s \<noteq> Some ?i" using t(2) ex by (auto simp: order_inv_def)
  consider (no) "s' = s" "isl r" "r \<noteq> Inl QueueFull" | (lost) "s' = ?s1" "r = Inl QueueFull"
    | (ok) "\<not> isl r" "s' = trimmed c (?s1\<lparr>rw_queue := rw_queue s @ [Some j]\<rparr>)"
    using r none unfolding u by (auto simp: rw_submit_def Let_def split: if_splits)
  then show ?thesis
  proof cases
    case lost
    have "table_inv (set acc) (insert ?i (set lost)) (set can) (set ex) ((map_of (rw_statuses s))(?i \<mapsto> js ''queued'' [] []))
        (rw_active s) (set (held_ids (rw_phase s) @ queued_ids s))" using t(1) new ex by (rule table_lose)
    moreover have "order_inv acc (lost @ [?i]) ex (rw_phase s) (queued_ids s) (rw_active s)"
      using t(2) new by (auto simp: order_inv_def)
    moreover have "queued_ids ?s1 = queued_ids s" by (simp add: queued_ids_def)
    ultimately show ?thesis using inv lost d act by (auto simp: rw_inv_def intro!: done_put)
  next
    case ok
    let ?s2 = "?s1\<lparr>rw_queue := rw_queue s @ [Some j]\<rparr>"
    have q: "queued_ids ?s2 = queued_ids s @ [?i]" by (simp add: queued_ids_def map_filter_def)
    have "table_inv (insert ?i (set acc)) (set lost) (set can) (set ex) ((map_of (rw_statuses s))(?i \<mapsto> js ''queued'' [] []))
        (rw_active s) (insert ?i (set (held_ids (rw_phase s) @ queued_ids s)))" using t(1) new ex by (rule table_submit)
    moreover have "order_inv (acc @ [?i]) lost ex (rw_phase s) (queued_ids s @ [?i]) (rw_active s)"
      using t(2) new by (auto simp: order_inv_def)
    ultimately have "rw_inv (acc @ [?i]) lost can ex ?s2" using inv d act by (auto simp: rw_inv_def q intro!: done_put)
    with ok show ?thesis using rw_inv_trimmed by auto
  qed (use inv in auto)
qed

lemma rw_inv_cancel:
  assumes inv: "rw_inv acc lost can ex s" and r: "rw_cancel i s = (b, s')"
  shows "rw_inv acc lost (if b then can @ [i] else can) ex s'"
proof (cases b)
  case False
  with r inv show ?thesis by (auto simp: rw_cancel_def split: option.splits if_splits)
next
  case True
  then obtain st where st: "map_of (rw_statuses s) i = Some st" "\<not> terminal st" "rw_active s \<noteq> Some i"
    "s' = s\<lparr>rw_statuses := AList.update i (js ''cancelled'' ''mission cancelled before execution'' []) (rw_statuses s)\<rparr>"
    using r by (auto simp: rw_cancel_def split: option.splits if_splits)
  have "table_inv (set acc) (set lost) (insert i (set can)) (set ex)
      ((map_of (rw_statuses s))(i \<mapsto> js ''cancelled'' ''mission cancelled before execution'' [])) (rw_active s)
      (set (held_ids (rw_phase s) @ queued_ids s))"
    using inv st(1-3) by (intro table_cancel) (auto simp: rw_inv_def)
  moreover have "queued_ids s' = queued_ids s" by (simp add: st(4) queued_ids_def)
  ultimately show ?thesis using inv st True by (auto simp: rw_inv_def distinct_keys_update intro!: done_put)
qed

lemma rw_inv_emitted: "rw_inv acc lost can ex s \<Longrightarrow> rw_inv acc lost can ex (s\<lparr>rw_emitted := e\<rparr>)"
  by (simp add: rw_inv_def queued_ids_def)

lemma rw_inv_drain: "rw_inv acc lost can ex s \<Longrightarrow> rw_drain c s = (r, s') \<Longrightarrow> rw_inv acc lost can ex s'"
  using rw_inv_trimmed [OF rw_inv_emitted] by (auto simp: rw_drain_def Let_def)


lemma rw_inv_close: "rw_inv acc lost can ex s \<Longrightarrow> rw_inv acc lost can ex (rw_close s)"
  by (simp add: rw_inv_def rw_close_def queued_ids_def)

lemma queued_ids_end: "queued_ids (s\<lparr>rw_queue := rw_queue s @ [None]\<rparr>) = queued_ids s"
  by (simp add: queued_ids_def map_filter_def)

lemma rw_inv_put_end: "rw_inv acc lost can ex s \<Longrightarrow> rw_put_end c s = Some s' \<Longrightarrow> rw_inv acc lost can ex s'"
  using queued_ids_end [of s] by (auto simp: rw_inv_def rw_put_end_def split: if_splits)

lemma rw_inv_take:
  assumes inv: "rw_inv acc lost can ex s" and r: "rw_take s = Some s'"
  shows "rw_inv acc lost can ex s'"
proof -
  obtain m q where m: "rw_queue s = m # q" "rw_phase s = Idle"
    and s': "s' = s\<lparr>rw_queue := q, rw_phase := (case m of None \<Rightarrow> Ended | Some j \<Rightarrow> Taken j)\<rparr>"
    using r by (auto simp: rw_take_def split: worker_phase.splits list.splits option.splits)
  have q: "queued_ids s = (case m of None \<Rightarrow> [] | Some j \<Rightarrow> [rj_id j]) @ queued_ids s'"
    by (simp add: queued_ids_def m s' map_filter_def split: option.split)
  have act: "rw_active s = None" using inv m by (simp add: rw_inv_def order_inv_def)
  show ?thesis
  proof (cases m)
    case None
    with inv m(2) act s' q show ?thesis unfolding rw_inv_def by (auto simp: order_inv_def done_inv_def)
  next
    case (Some j)
    with inv m(2) act s' q show ?thesis unfolding rw_inv_def by (auto simp: order_inv_def done_inv_def)
  qed
qed

lemma order_skip:
  "order_inv acc lost ex (Taken j) qs None \<Longrightarrow> order_inv acc lost ex Idle qs None"
proof -
  assume "order_inv acc lost ex (Taken j) qs None"
  then obtain dn where "acc = dn @ [rj_id j] @ qs" "subseq ex dn" "distinct acc" "set acc \<inter> set lost = {}"
    by (auto simp: order_inv_def)
  moreover from this(2) have "subseq ex (dn @ [rj_id j])" using list_emb_append_mono [of "(=)" ex dn "[]" "[rj_id j]"] by simp
  ultimately show ?thesis by (auto simp: order_inv_def intro!: exI [of _ "dn @ [rj_id j]"])
qed

lemma order_execute:
  "order_inv acc lost ex (Taken j) qs None \<Longrightarrow> order_inv acc lost (ex @ [rj_id j]) (Started j) qs (Some (rj_id j))"
  by (auto simp: order_inv_def list_emb_append_mono)

lemma rw_inv_check:
  assumes inv: "rw_inv acc lost can ex s" and r: "rw_check c t1 t2 s = Some s'"
  shows "rw_inv acc lost can (ex @ (case rw_phase s' of Started j \<Rightarrow> [rj_id j] | _ \<Rightarrow> [])) s'"
proof -
  obtain j where ph: "rw_phase s = Taken j" using r by (auto simp: rw_check_def split: worker_phase.splits)
  let ?m = "map_of (rw_statuses s)" and ?i = "rj_id j"
  have act: "rw_active s = None" and o': "order_inv acc lost ex (Taken j) (queued_ids s) None"
    using inv ph by (auto simp: rw_inv_def order_inv_def)
  have t: "table_inv (set acc) (set lost) (set can) (set ex) ?m None (insert ?i (set (queued_ids s)))"
    using inv ph act by (simp add: rw_inv_def)
  have lo: "?i \<notin> set lost" using o' by (auto simp: order_inv_def)
  have d: "distinct (map fst (rw_statuses s))" using inv by (simp add: rw_inv_def)
  have q: "queued_ids (s\<lparr>rw_phase := p, rw_statuses := st, rw_active := a\<rparr>) = queued_ids s" for p st a
    by (simp add: queued_ids_def)
  consider (skip) "s' = s\<lparr>rw_phase := Idle\<rparr>" "\<forall>st. ?m ?i = Some st \<longrightarrow> terminal st"
    | (failed) st t e where "?m ?i = Some st" "js_stage st \<noteq> ''cancelled''"
        "s' = trimmed c (s\<lparr>rw_phase := Idle, rw_statuses := AList.update ?i (js ''failed'' t e) (rw_statuses s)\<rparr>)"
    | (started) st where "?m ?i = Some st" "js_stage st \<noteq> ''cancelled''" "s' = s\<lparr>rw_active := Some ?i, rw_phase := Started j\<rparr>"
    using r ph by (auto simp: rw_check_def terminal_def terminal_stages_def split: option.splits if_splits)
  then show ?thesis
  proof cases
    case skip
    from table_skip [OF t skip(2)] order_skip [OF o'] skip(1) act d show ?thesis
      by (simp add: rw_inv_def done_inv_def queued_ids_def)
  next
    case failed
    let ?s = "s\<lparr>rw_phase := Idle, rw_statuses := AList.update ?i (js ''failed'' t e) (rw_statuses s)\<rparr>"
    from table_fail [OF t failed(1,2) lo] order_skip [OF o'] act d have "rw_inv acc lost can ex ?s"
      by (simp add: rw_inv_def done_inv_def queued_ids_def distinct_keys_update)
    with failed(3) show ?thesis using rw_inv_trimmed by auto
  next
    case started
    from table_execute [OF t started(1,2)] order_execute [OF o'] started(3) d show ?thesis
      by (simp add: rw_inv_def done_inv_def queued_ids_def)
  qed
qed

lemma rw_inv_put:
  assumes inv: "rw_inv acc lost can ex s" and j: "rw_phase s = Started j \<or> rw_phase s = Running j"
    and p: "p = Running j \<or> p = Finishing \<and> terminal st"
  shows "rw_inv acc lost can ex (put_status c (rj_id j) st (s\<lparr>rw_phase := p\<rparr>))"
proof -
  let ?i = "rj_id j" and ?s = "s\<lparr>rw_phase := p, rw_statuses := od_touch (rj_id j) st (rw_statuses s)\<rparr>"
  have act: "rw_active s = Some ?i" and ex: "?i \<in> set ex" and o': "order_inv acc lost ex (rw_phase s) (queued_ids s) (Some ?i)"
    using inv j by (auto simp: rw_inv_def order_inv_def)
  have d: "distinct (map fst (od_touch ?i st (rw_statuses s)))" using inv by (simp add: rw_inv_def distinct_od_touch)
  have "table_inv (set acc) (set lost) (set can) (set ex) (map_of (rw_statuses s)) (Some ?i)
      (set (held_ids (rw_phase s) @ queued_ids s))" using inv act by (simp add: rw_inv_def)
  moreover have "?i \<in> set acc - set lost" using order_ex [OF o'] ex by blast
  ultimately have "table_inv (set acc) (set lost) (set can) (set ex) ((map_of (rw_statuses s))(?i \<mapsto> st)) (Some ?i)
      (set (held_ids (rw_phase s) @ queued_ids s))" using ex by (intro table_put) auto
  then have t: "table_inv (set acc) (set lost) (set can) (set ex) ((map_of (rw_statuses s))(?i \<mapsto> st)) (Some ?i)
      (set (held_ids p @ queued_ids s))" using j by (elim table_busy) auto
  have "order_inv acc lost ex p (queued_ids s) (Some ?i)"
  proof (cases "p = Finishing")
    case True
    obtain dn where "acc = dn @ [?i] @ queued_ids s" "subseq ex (dn @ [?i])" using o' j by (auto simp: order_inv_def)
    with o' ex True show ?thesis by (auto simp: order_inv_def intro!: exI [of _ "dn @ [?i]"])
  qed (use o' j p in \<open>auto simp: order_inv_def\<close>)
  then have "rw_inv acc lost can ex ?s"
    using t d act p unfolding rw_inv_def by (auto simp: queued_ids_def done_inv_def)
  then show ?thesis unfolding put_status_def using rw_inv_trimmed [of acc lost can ex ?s c] by simp
qed


lemma rw_inv_begin:
  assumes inv: "rw_inv acc lost can ex s" and r: "rw_begin c s = Some s'"
  shows "rw_inv acc lost can ex s'"
proof -
  obtain j where "rw_phase s = Started j" "s' = put_status c (rj_id j) (js ''uploading'' [] []) (s\<lparr>rw_phase := Running j\<rparr>)"
    using r by (auto simp: rw_begin_def split: worker_phase.splits)
  then show ?thesis using rw_inv_put [OF inv] by simp
qed

lemma rw_inv_report:
  assumes inv: "rw_inv acc lost can ex s" and r: "rw_report c rep s = Some s'"
  shows "rw_inv acc lost can ex s'"
proof -
  obtain j where j: "rw_phase s = Running j" using r by (auto simp: rw_report_def split: worker_phase.splits)
  then have s: "s\<lparr>rw_phase := Running j\<rparr> = s" by simp
  show ?thesis
  proof (cases rep)
    case (OpProgress st m)
    with r j rw_inv_put [OF inv, of j "Running j" "js st m []" c] s show ?thesis by (simp add: rw_report_def)
  next
    case OpVerified
    with r j rw_inv_put [OF inv, of j Finishing "js ''verified'' [] []" c] show ?thesis
      by (simp add: rw_report_def terminal_def terminal_stages_def)
  next
    case (OpRaised u m e)
    with r j rw_inv_put [OF inv, of j Finishing "js (if u then ''unsafe_residual'' else ''failed'') m e" c] show ?thesis
      by (simp add: rw_report_def terminal_def terminal_stages_def)
  qed
qed

lemma rw_inv_release:
  assumes inv: "rw_inv acc lost can ex s" and r: "rw_release c s = Some s'"
  shows "rw_inv acc lost can ex s'"
proof -
  have ph: "rw_phase s = Finishing" and s': "s' = trimmed c (s\<lparr>rw_active := None, rw_phase := Idle\<rparr>)"
    using r by (auto simp: rw_release_def split: worker_phase.splits)
  have "table_inv (set acc) (set lost) (set can) (set ex) (map_of (rw_statuses s)) None (set (queued_ids s))"
    using inv ph by (intro table_release [of _ _ _ _ _ "rw_active s"]) (auto simp: rw_inv_def done_inv_def)
  moreover have "order_inv acc lost ex Idle (queued_ids s) None" using inv ph by (auto simp: rw_inv_def order_inv_def)
  ultimately have "rw_inv acc lost can ex (s\<lparr>rw_active := None, rw_phase := Idle\<rparr>)"
    using inv by (simp add: rw_inv_def done_inv_def queued_ids_def)
  then show ?thesis unfolding s' by (rule rw_inv_trimmed)
qed

lemma rw_run_inv: "rw_run c acc lost can ex s \<Longrightarrow> rw_inv acc lost can ex s"
proof (induction rule: rw_run.induct)
  case (known acc lost can ex s j r s')
  then have "s' = s" by (auto simp: rw_submit_def split: option.splits if_splits)
  with known show ?case by simp
next
  case (submit acc lost can ex s j r s')
  then show ?case by (intro rw_inv_submit)
next
  case (cancel acc lost can ex s i b s')
  then show ?case by (intro rw_inv_cancel)
next
  case (check acc lost can ex s t1 t2 s')
  then show ?case by (intro rw_inv_check)
qed (blast intro: rw_inv_start rw_inv_drain rw_inv_close rw_inv_put_end rw_inv_take rw_inv_begin rw_inv_report
    rw_inv_release)+

subsection \<open>What every run keeps\<close>

text \<open>C27: however the agent's calls and the mission thread interleave, each accepted mission is executed at most
  once, missions are executed in the order in which they were accepted, a mission whose cancellation
  returned True is never executed, and every mission shown without a terminal stage is still in
  the queue, in the hands of the thread, or was lost by a full queue.\<close>

theorem missions_executed_once_in_order:
  assumes "rw_run c acc lost can ex s"
  shows "distinct ex \<and> subseq ex acc \<and> set ex \<inter> set can = {}
    \<and> (\<forall>(i, st) \<in> set (rw_statuses s). \<not> terminal st \<longrightarrow>
         i \<in> set (held_ids (rw_phase s) @ queued_ids s) \<or> rw_active s = Some i \<or> i \<in> set lost)"
proof -
  have inv: "rw_inv acc lost can ex s" using assms by (rule rw_run_inv)
  then obtain dn where acc: "acc = dn @ held_ids (rw_phase s) @ queued_ids s" "distinct acc"
    and ex: "subseq ex (dn @ (case rw_phase s of Taken j \<Rightarrow> [] | _ \<Rightarrow> held_ids (rw_phase s)))"
    unfolding rw_inv_def order_inv_def by blast
  have "subseq (dn @ (case rw_phase s of Taken j \<Rightarrow> [] | _ \<Rightarrow> held_ids (rw_phase s))) acc"
    unfolding acc(1) by (cases "rw_phase s") (auto simp: list_emb_append_mono)
  with ex have sub: "subseq ex acc" by (rule subseq_order.trans)
  moreover have "distinct ex" using sub acc(2) by (rule distinct_subseq)
  moreover have "set ex \<inter> set can = {}" using inv unfolding rw_inv_def table_inv_def by blast
  moreover have "i \<in> set (held_ids (rw_phase s) @ queued_ids s) \<or> rw_active s = Some i \<or> i \<in> set lost"
    if m: "(i, st) \<in> set (rw_statuses s)" "\<not> terminal st" for i st
  proof -
    have "map_of (rw_statuses s) i = Some st" using inv m(1) by (simp add: rw_inv_def)
    with inv m(2) show ?thesis unfolding rw_inv_def table_inv_def by blast
  qed
  ultimately show ?thesis by blast
qed

text \<open>A mission whose submission meets a queue that cancelled missions still fill is recorded as queued
  although \<open>submit\<close> raises; it stays queued for ever, whatever the thread does, unless it is cancelled;
  and when \<open>max_pending\<close> missions were lost in this way every new mission is refused.\<close>

theorem lost_mission_stays_queued:
  assumes "rw_run c acc lost can ex s"
  shows "(\<forall>i \<in> set lost - set can. rw_status i s = Some (js ''queued'' [] []) \<and> i \<notin> set ex)
    \<and> (wc_max_pending c \<le> card (set lost - set can) \<and> \<not> rw_closed s \<and> rw_status (rj_id j) s = None \<longrightarrow>
         rw_submit c j s = (Inl QueueFullError, s))"
proof -
  have inv: "rw_inv acc lost can ex s" using assms by (rule rw_run_inv)
  then have st: "map_of (rw_statuses s) i = Some (js ''queued'' [] [])" if "i \<in> set lost - set can" for i
    using that unfolding rw_inv_def table_inv_def by blast
  have ex: "set ex \<subseteq> set acc - set lost" using inv order_ex unfolding rw_inv_def by blast
  have "set lost - set can \<subseteq> fst ` set (filter (\<lambda>(i, st). \<not> terminal st) (rw_statuses s))"
    using st by (force dest: map_of_SomeD)
  then have "card (set lost - set can) \<le> card (fst ` set (filter (\<lambda>(i, st). \<not> terminal st) (rw_statuses s)))"
    by (intro card_mono) auto
  also have "\<dots> \<le> pending_jobs (rw_statuses s)"
    unfolding pending_jobs_def by (meson card_image_le card_length dual_order.trans finite_set)
  finally have "card (set lost - set can) \<le> pending_jobs (rw_statuses s)" .
  with st ex show ?thesis by (auto simp: rw_status_def rw_submit_def)
qed


subsection \<open>Witnesses\<close>

definition small_worker :: worker_config where
  "small_worker = \<lparr>wc_max_pending = 1, wc_max_history = 64, wc_max_age = 10\<rparr>"

definition rover_sample_job :: "string \<Rightarrow> unit rover_job" where
  "rover_sample_job i = \<lparr>rj_id = i, rj_source = 0, rj_data = ()\<rparr>"

text \<open>A first mission is accepted, a second one meets the queue the first, cancelled, still fills\<close>

lemma rover_sample_run:
  "\<exists>s :: unit rover_worker. rw_run small_worker [''a''] [''b''] [''a''] [] s \<and> \<not> rw_closed s \<and> rw_status ''c'' s = None"
proof -
  note defs = rover_worker_init_def rw_submit_def rw_cancel_def rw_status_def small_worker_def rover_sample_job_def pending_jobs_def newest_def
    terminal_def terminal_stages_def js_def trimmed_def
  let ?s0 = "rover_worker_init :: unit rover_worker"
  let ?r1 = "rw_submit small_worker (rover_sample_job ''a'') ?s0"
  let ?r2 = "rw_cancel ''a'' (snd ?r1)" let ?r3 = "rw_submit small_worker (rover_sample_job ''b'') (snd ?r2)"
  have id: "rj_id (rover_sample_job i) = i" for i by (simp add: rover_sample_job_def)
  have t: "trim_history 64 act [x] em = ([x], em)" for act x em by (simp add: trim_history.simps)
  have o1: "\<not> isl (fst ?r1)" "fst ?r1 \<noteq> Inl QueueFull" by (simp_all add: defs t)
  from rw_run.submit [OF rw_run.start, of "rover_sample_job ''a''" small_worker "fst ?r1" "snd ?r1"] o1
  have r1: "rw_run small_worker [''a''] [] [] [] (snd ?r1)" by (simp add: id)
  have "fst ?r2" by (simp add: defs t)
  then have o2: "rw_cancel ''a'' (snd ?r1) = (True, snd ?r2)" by (cases ?r2) simp
  from rw_run.cancel [OF r1 o2]
  have r2: "rw_run small_worker [''a''] [] [''a''] [] (snd ?r2)" by simp
  have o3: "fst ?r3 = Inl QueueFull" "\<not> rw_closed (snd ?r3)" "rw_status ''c'' (snd ?r3) = None" by (simp_all add: defs t)
  have e3: "rw_submit small_worker (rover_sample_job ''b'') (snd ?r2) = (Inl QueueFull, snd ?r3)" using o3(1) by (cases ?r3) simp
  from rw_run.submit [OF r2 _ e3]
  have "rw_run small_worker [''a''] [''b''] [''a''] [] (snd ?r3)" by (simp add: id)
  with o3 show ?thesis by blast
qed

theorem missions_executed_once_in_order_witness:
  "\<exists>s :: unit rover_worker. rw_run small_worker [''a''] [''b''] [''a''] [] s
     \<and> (\<forall>(i, st) \<in> set (rw_statuses s). \<not> terminal st \<longrightarrow>
          i \<in> set (held_ids (rw_phase s) @ queued_ids s) \<or> rw_active s = Some i \<or> i \<in> set [''b''])"
proof -
  obtain s :: "unit rover_worker" where s: "rw_run small_worker [''a''] [''b''] [''a''] [] s" using rover_sample_run by blast
  from missions_executed_once_in_order [OF s] s show ?thesis by blast
qed

theorem lost_mission_stays_queued_witness:
  "\<exists>s :: unit rover_worker. rw_run small_worker [''a''] [''b''] [''a''] [] s \<and> rw_status ''b'' s = Some (js ''queued'' [] [])
     \<and> rw_submit small_worker (rover_sample_job ''c'') s = (Inl QueueFullError, s)"
proof -
  obtain s :: "unit rover_worker" where s: "rw_run small_worker [''a''] [''b''] [''a''] [] s" "\<not> rw_closed s"
    "rw_status ''c'' s = None" using rover_sample_run by blast
  have c: "wc_max_pending small_worker \<le> card (set [''b''] - set [''a''])" by (simp add: small_worker_def)
  have id: "rj_id (rover_sample_job ''c'') = ''c''" by (simp add: rover_sample_job_def)
  from lost_mission_stays_queued [OF s(1), of "rover_sample_job ''c''"] c s id show ?thesis by auto
qed

end
