(* ===== verification/RoverMission.thy ===== *)
theory RoverMission
  imports MissionWorker
begin

text \<open>
  \<open>RoverMissionManager\<close> of \<open>rdk_agent/rover_mission.py\<close>: the upload of a mission to the rover's flight
  controller, its readback and verification, the gate before AUTO and the progress of the mission.

  The clock and the transport are lists of what the coming calls give: readings of the clock, messages
  (or nothing, or an exception) of \<open>recv\<close>, successes of \<open>send\<close>. A run that needs more than there
  is ends as \<open>Blocked\<close>; sends beyond their list succeed. Messages are those of the aircraft's worker,
  with real numbers for floats; a STATUSTEXT carries a text.
\<close>

unbundle bit_operations_syntax

subsection \<open>State\<close>

datatype rm_exc = RmTimeout string | RmDenied string "int list" | RmVerification string "int list" | RmMission string
  | RmValue string | RmRuntime string | RmTransport | RmResidual rm_exc

datatype rm_in = RecvMsg fc_msg | RecvNone | RecvRaises

datatype rm_out = RmClear | RmCount nat | RmItem mission_item | RmList | RmRequest nat | RmAck int | RmAuto

record rm_config =
  rc_timeout :: real
  rc_retries :: nat
  rc_altitude_tol :: real
  rc_coordinate_tol :: int
  rc_gcs_system :: int
  rc_gcs_component :: int
  rc_vehicle_system :: "int option"
  rc_vehicle_component :: "int option"
  rc_operation_timeout :: real
  rc_max_requests :: nat
  rc_param_tol :: real
  rc_freshness :: real
  rc_clear_first :: bool

record mission_status =
  ms_verified :: bool
  ms_ready :: bool
  ms_current :: int
  ms_reached :: int
  ms_endpoint :: bool
  ms_completed :: bool
  ms_unsafe :: bool
  ms_reason :: string

definition fresh_status :: "bool \<Rightarrow> mission_status" where
  "fresh_status unsafe = \<lparr>ms_verified = False, ms_ready = False, ms_current = 0, ms_reached = 0, ms_endpoint = False,
     ms_completed = False, ms_unsafe = unsafe, ms_reason = []\<rparr>"

text \<open>\<open>io_deadline\<close> is None for the initial infinity\<close>

record rover_manager =
  io_clock :: "real list"
  io_recv :: "rm_in list"
  io_sends :: "bool list"
  io_sent :: "rm_out list"
  io_dispatched :: "fc_msg list"
  ra_deadline :: "real option"
  ra_requests :: "(int \<times> nat) list"
  ra_status :: mission_status
  ra_items :: "mission_item list"

definition rover_manager_init :: "real list \<Rightarrow> rm_in list \<Rightarrow> bool list \<Rightarrow> rover_manager" where
  "rover_manager_init clk ins oks = \<lparr>io_clock = clk, io_recv = ins, io_sends = oks, io_sent = [], io_dispatched = [],
     ra_deadline = None, ra_requests = [], ra_status = fresh_status False, ra_items = []\<rparr>"

datatype 'a rres = Done 'a | Fail rm_exc | Blocked

type_synonym 'a rm = "rover_manager \<Rightarrow> 'a rres \<times> rover_manager"

definition bind_rm :: "'a rm \<Rightarrow> ('a \<Rightarrow> 'b rm) \<Rightarrow> 'b rm" where
  "bind_rm m f s = (case m s of
     (Done a, s') \<Rightarrow> f a s' | (Fail e, s') \<Rightarrow> (Fail e, s') | (Blocked, s') \<Rightarrow> (Blocked, s'))"

definition pure_rm :: "'a \<Rightarrow> 'a rm" where
  "pure_rm a s = (Done a, s)"

definition fail_rm :: "rm_exc \<Rightarrow> 'a rm" where
  "fail_rm e s = (Fail e, s)"

definition on_status :: "(mission_status \<Rightarrow> mission_status) \<Rightarrow> rover_manager \<Rightarrow> rover_manager" where
  "on_status f s = s\<lparr>ra_status := f (ra_status s)\<rparr>"

definition read_clock :: "real rm" where
  "read_clock s = (case io_clock s of [] \<Rightarrow> (Blocked, s) | t # ts \<Rightarrow> (Done t, s\<lparr>io_clock := ts\<rparr>))"

definition rm_send :: "rm_out \<Rightarrow> unit rm" where
  "rm_send x s = (case io_sends s of
     False # oks \<Rightarrow> (Fail RmTransport, s\<lparr>io_sends := oks\<rparr>)
   | _ \<Rightarrow> (Done (), s\<lparr>io_sends := tl (io_sends s), io_sent := io_sent s @ [x]\<rparr>))"

text \<open>A number of a message, whose conversion raises for what is not finite\<close>

definition need_int :: "mav_value \<Rightarrow> int rm" where
  "need_int v = (case to_int v of None \<Rightarrow> fail_rm (RmValue ''not a number'') | Some i \<Rightarrow> pure_rm i)"

subsection \<open>Receiving\<close>

definition rm_matches :: "rm_config \<Rightarrow> fc_msg \<Rightarrow> bool" where
  "rm_matches c m \<longleftrightarrow> opt_is (fm_mission_type m) 0 \<and> opt_is (fm_target_system m) (rc_gcs_system c)
     \<and> opt_is (fm_target_component m) (rc_gcs_component c)
     \<and> (case rc_vehicle_system c of None \<Rightarrow> True | Some v \<Rightarrow> opt_is (fm_source_system m) v)
     \<and> (case rc_vehicle_component c of None \<Rightarrow> True | Some v \<Rightarrow> opt_is (fm_source_component m) v)"

definition contains_text :: "string \<Rightarrow> string \<Rightarrow> bool" where
  "contains_text pat t \<longleftrightarrow> find_sub pat t \<noteq> None"

definition observe :: "fc_msg \<Rightarrow> unit rm" where
  "observe m =
     (if fm_type m = ''MISSION_CURRENT'' then
        bind_rm (need_int (mav_field m ''seq'' (MInt 0))) (\<lambda>i s.
          bind_rm (need_int (mav_field m ''mission_state'' (MInt 0))) (\<lambda>k s.
            (Done (), if k = 5 then on_status (\<lambda>t. t\<lparr>ms_completed := True\<rparr>) s else s))
          (on_status (\<lambda>t. t\<lparr>ms_current := i\<rparr>) s))
      else if fm_type m = ''MISSION_ITEM_REACHED'' then
        bind_rm (need_int (mav_field m ''seq'' (MInt 0))) (\<lambda>i s.
          let s1 = on_status (\<lambda>t. t\<lparr>ms_reached := i\<rparr>) s in
          (Done (), if ra_items s \<noteq> [] \<and> mi_seq (last (ra_items s)) \<le> i
             then on_status (\<lambda>t. t\<lparr>ms_endpoint := True\<rparr>) s1 else s1))
      else if fm_type m = ''STATUSTEXT'' then
        (\<lambda>s. (Done (), case mav_field m ''text'' (MStr []) of
           MStr t \<Rightarrow> if ms_endpoint (ra_status s) \<and> contains_text ''mission complete'' (py_lower (py_strip t))
             then on_status (\<lambda>t. t\<lparr>ms_completed := True\<rparr>) s else s
         | _ \<Rightarrow> s))
      else pure_rm ())"

text \<open>One turn before \<open>recv\<close>: the budget of the operation, then whether time remains\<close>

definition turn_check :: "real \<Rightarrow> bool rm" where
  "turn_check dl = bind_rm read_clock (\<lambda>t1 s.
     if (case ra_deadline s of None \<Rightarrow> False | Some d \<Rightarrow> d \<le> t1) then (Fail (RmTimeout ''mission operation deadline exceeded''), s)
     else bind_rm read_clock (\<lambda>t2. pure_rm (0 < dl - t2)) s)"

fun recv_loop :: "rm_config \<Rightarrow> string list \<Rightarrow> real \<Rightarrow> rm_in list \<Rightarrow> fc_msg option rm" where
  "recv_loop c ty dl ins s =
     (case turn_check dl s of
        (Fail e, s1) \<Rightarrow> (Fail e, s1)
      | (Blocked, s1) \<Rightarrow> (Blocked, s1)
      | (Done False, s1) \<Rightarrow> (Done None, s1)
      | (Done True, s1) \<Rightarrow>
          (case ins of
             [] \<Rightarrow> (Blocked, s1)
           | RecvNone # ins' \<Rightarrow> (Done None, s1\<lparr>io_recv := ins'\<rparr>)
           | RecvRaises # ins' \<Rightarrow> (Fail RmTransport, s1\<lparr>io_recv := ins'\<rparr>)
           | RecvMsg m # ins' \<Rightarrow>
               if \<not> rm_matches c m then recv_loop c ty dl ins' (s1\<lparr>io_recv := ins'\<rparr>)
               else
                 let s2 = s1\<lparr>io_recv := ins', io_dispatched := io_dispatched s1 @ [m]\<rparr> in
                 if fm_type m \<in> set ty then (Done (Some m), s2)
                 else (case observe m s2 of
                     (Done u, s3) \<Rightarrow> recv_loop c ty dl ins' s3
                   | (Fail e, s3) \<Rightarrow> (Fail e, s3)
                   | (Blocked, s3) \<Rightarrow> (Blocked, s3))))"

declare recv_loop.simps [simp del]

text \<open>The deadline of one wait, also bounded by that of the operation\<close>

definition recv_until :: "rm_config \<Rightarrow> string list \<Rightarrow> fc_msg option rm" where
  "recv_until c ty = bind_rm read_clock (\<lambda>t s.
     recv_loop c ty (case ra_deadline s of None \<Rightarrow> t + rc_timeout c | Some d \<Rightarrow> min (t + rc_timeout c) d) (io_recv s) s)"

subsection \<open>Clearing and uploading\<close>

definition expect_ack :: "string \<Rightarrow> fc_msg \<Rightarrow> unit rm" where
  "expect_ack denied m = (case ack_result m of
     None \<Rightarrow> fail_rm (RmValue ''not a number'')
   | Some a \<Rightarrow> if a \<noteq> 0 then fail_rm (RmDenied denied [a]) else pure_rm ())"

fun rm_clear :: "rm_config \<Rightarrow> nat \<Rightarrow> unit rm" where
  "rm_clear c 0 = fail_rm (RmTimeout ''timeout waiting for MISSION_CLEAR_ALL acknowledgement'')"
| "rm_clear c (Suc n) =
     bind_rm (rm_send RmClear) (\<lambda>_. bind_rm (recv_until c [''MISSION_ACK'']) (\<lambda>r. case r of
       None \<Rightarrow> rm_clear c n | Some m \<Rightarrow> expect_ack ''mission clear denied'' m))"

lemma read_clock_clock: "read_clock s = (Done t, s') \<Longrightarrow> io_clock s = t # io_clock s'"
  by (auto simp: read_clock_def split: list.splits)

lemma turn_check_clock: "turn_check dl s = (Done b, s') \<Longrightarrow> length (io_clock s') < length (io_clock s)"
  by (auto simp: turn_check_def bind_rm_def pure_rm_def read_clock_def split: list.splits rres.splits prod.splits if_splits)

lemma need_int_same: "need_int v s = (r, s') \<Longrightarrow> s' = s"
  by (auto simp: need_int_def fail_rm_def pure_rm_def split: option.splits)

lemma observe_io: "observe m s = (r, s') \<Longrightarrow> io_clock s' = io_clock s \<and> io_sent s' = io_sent s"
  by (auto simp: observe_def bind_rm_def pure_rm_def on_status_def Let_def dest!: need_int_same
      split: rres.splits prod.splits if_splits mav_value.splits)

lemma recv_loop_clock: "recv_loop c ty dl ins s = (Done r, s') \<Longrightarrow> length (io_clock s') < length (io_clock s)"
proof (induction ins arbitrary: s)
  case Nil
  then show ?case
    by (subst (asm) recv_loop.simps) (auto dest!: turn_check_clock split: prod.splits rres.splits if_splits bool.splits)
next
  case (Cons i ins)
  have ih: "length (io_clock s') < length (io_clock s1)" if "recv_loop c ty dl ins s1 = (Done r, s')" for s1
    using that by (rule Cons.IH)
  from Cons.prems show ?case
    by (subst (asm) recv_loop.simps)
      (fastforce simp: Let_def dest!: turn_check_clock observe_io ih
        split: prod.splits rres.splits rm_in.splits if_splits bool.splits)
qed

lemma recv_until_clock: "recv_until c ty s = (Done r, s') \<Longrightarrow> length (io_clock s') < length (io_clock s)"
  unfolding recv_until_def bind_rm_def
  by (fastforce dest: recv_loop_clock read_clock_clock split: prod.splits rres.splits)

lemma rm_send_clock: "rm_send x s = (r, s') \<Longrightarrow> io_clock s' = io_clock s"
  by (auto simp: rm_send_def split: list.splits bool.splits)

text \<open>The \<open>while\<close> loop of \<open>_upload\<close>; each turn reads the clock\<close>

function rm_upload_loop :: "rm_config \<Rightarrow> mission_item list \<Rightarrow> nat \<Rightarrow> unit rm" where
  "rm_upload_loop c items attempts s =
     (case recv_until c request_types s of
        (Fail e, s1) \<Rightarrow> (Fail e, s1)
      | (Blocked, s1) \<Rightarrow> (Blocked, s1)
      | (Done None, s1) \<Rightarrow>
          if rc_retries c \<le> attempts then (Fail (RmTimeout ''timeout waiting for mission item request''), s1)
          else (case rm_send (RmCount (length items)) s1 of
              (Done u, s2) \<Rightarrow> rm_upload_loop c items (attempts + 1) s2
            | (Fail e, s2) \<Rightarrow> (Fail e, s2)
            | (Blocked, s2) \<Rightarrow> (Blocked, s2))
      | (Done (Some m), s1) \<Rightarrow>
          if fm_type m = ''MISSION_ACK'' then expect_ack ''mission upload denied'' m s1
          else (case to_int (mav_field m ''seq'' (MInt (- 1))) of
             None \<Rightarrow> (Fail (RmValue ''not a number''), s1)
           | Some i \<Rightarrow>
               if \<not> (0 \<le> i \<and> i < int (length items)) then (Fail (RmDenied ''flight controller requested invalid seq'' [i]), s1)
               else
                 let k = request_count (ra_requests s1) i + 1; s2 = s1\<lparr>ra_requests := AList.update i k (ra_requests s1)\<rparr> in
                 if rc_max_requests c < k then (Fail (RmMission ''mission request limit exceeded''), s2)
                 else (case rm_send (RmItem (items ! nat i)) s2 of
                     (Done u, s3) \<Rightarrow> rm_upload_loop c items 0 s3
                   | (Fail e, s3) \<Rightarrow> (Fail e, s3)
                   | (Blocked, s3) \<Rightarrow> (Blocked, s3))))"
  by pat_completeness auto
termination
  by (relation "measure (\<lambda>(c, items, a, s). length (io_clock s))")
    (auto dest!: recv_until_clock [OF sym] rm_send_clock [OF sym])

declare rm_upload_loop.simps [simp del]

definition rm_upload :: "rm_config \<Rightarrow> mission_item list \<Rightarrow> unit rm" where
  "rm_upload c items = bind_rm (rm_send (RmCount (length items))) (\<lambda>_. rm_upload_loop c items 0)"

subsection \<open>Reading back\<close>

fun rm_count :: "rm_config \<Rightarrow> nat \<Rightarrow> int rm" where
  "rm_count c 0 = fail_rm (RmTimeout ''timeout waiting for mission readback count'')"
| "rm_count c (Suc n) =
     bind_rm (rm_send RmList) (\<lambda>_. bind_rm (recv_until c [''MISSION_COUNT'']) (\<lambda>r. case r of
       None \<Rightarrow> rm_count c n | Some m \<Rightarrow> need_int (mav_field m ''count'' (MInt (- 1)))))"

fun download_item :: "rm_config \<Rightarrow> nat \<Rightarrow> nat \<Rightarrow> readback rm" where
  "download_item c i 0 = fail_rm (RmTimeout ''timeout reading mission item'')"
| "download_item c i (Suc n) =
     bind_rm (rm_send (RmRequest i)) (\<lambda>_. bind_rm (recv_until c [''MISSION_ITEM'', ''MISSION_ITEM_INT'']) (\<lambda>r. case r of
       None \<Rightarrow> download_item c i n
     | Some m \<Rightarrow> bind_rm (need_int (mav_field m ''seq'' (MInt (- 1)))) (\<lambda>q.
         if q \<noteq> int i then download_item c i n
         else (case read_item m of None \<Rightarrow> fail_rm (RmValue ''not a number'') | Some rb \<Rightarrow> pure_rm rb))))"

fun download_items :: "rm_config \<Rightarrow> nat list \<Rightarrow> readback list rm" where
  "download_items c [] = pure_rm []"
| "download_items c (i # is) =
     bind_rm (download_item c i (rc_retries c + 1)) (\<lambda>rb. bind_rm (download_items c is) (\<lambda>rbs. pure_rm (rb # rbs)))"

definition rm_download :: "rm_config \<Rightarrow> nat \<Rightarrow> readback list rm" where
  "rm_download c expected = bind_rm (rm_count c (rc_retries c + 1)) (\<lambda>k.
     if k \<noteq> int expected then fail_rm (RmVerification ''readback count mismatch'' [int expected, k])
     else bind_rm (download_items c [0..<expected]) (\<lambda>rbs. bind_rm (rm_send (RmAck 0)) (\<lambda>_. pure_rm rbs)))"

definition rm_position_differs :: "rm_config \<Rightarrow> mission_item \<Rightarrow> readback \<Rightarrow> bool" where
  "rm_position_differs c w r \<longleftrightarrow> rc_coordinate_tol c < \<bar>mi_x w - rb_x r\<bar> \<or> rc_coordinate_tol c < \<bar>mi_y w - rb_y r\<bar>
     \<or> differs (mi_z w) (rb_z r) (rc_altitude_tol c)"

definition rm_verify_item :: "rm_config \<Rightarrow> mission_item \<Rightarrow> readback \<Rightarrow> rm_exc option" where
  "rm_verify_item c w r =
     (if mi_command w \<noteq> rb_command r \<or> mi_frame w \<noteq> rb_frame r
        then Some (RmVerification ''readback mismatch: command/frame'' [mi_seq w])
      else if mi_seq w = 0 then None
      else if rm_position_differs c w r \<and> mi_command w \<noteq> 178 then Some (RmVerification ''readback mismatch: position'' [mi_seq w])
      else if list_ex (\<lambda>(p, q). differs p q (rc_param_tol c)) (zip (mi_params w) (rb_params r))
        then Some (RmVerification ''readback mismatch: param'' [mi_seq w])
      else if mi_autocontinue w \<noteq> rb_autocontinue r then Some (RmVerification ''readback mismatch: autocontinue'' [mi_seq w])
      else None)"

definition rm_verify :: "rm_config \<Rightarrow> mission_item list \<Rightarrow> readback list \<Rightarrow> unit rm" where
  "rm_verify c ws rs = (case first_error (map (\<lambda>(w, r). rm_verify_item c w r) (zip ws rs)) of
     Some e \<Rightarrow> fail_rm e | None \<Rightarrow> pure_rm ())"

subsection \<open>The gate before AUTO\<close>

text \<open>The navigation state of the agent's telemetry; a stamp is its connection generation and monotonic time\<close>

record rover_nav =
  nv_fix :: int
  nv_satellites :: int
  nv_lat :: real
  nv_lng :: real
  nv_ekf :: int
  nv_generation :: int
  nv_gps :: "int \<times> real"
  nv_position :: "int \<times> real"
  nv_ekf_stamp :: "int \<times> real"
  nv_home :: "int \<times> real"

definition nav_stamps :: "rover_nav \<Rightarrow> (string \<times> int \<times> real) list" where
  "nav_stamps n = [(''GPS'', nv_gps n), (''position'', nv_position n), (''EKF'', nv_ekf_stamp n), (''Home'', nv_home n)]"

definition stamp_missing :: "int \<Rightarrow> real \<Rightarrow> real \<Rightarrow> string \<times> int \<times> real \<Rightarrow> string list" where
  "stamp_missing generation freshness now = (\<lambda>(lbl, g, t).
     if g \<noteq> generation then [lbl @ '' generation'']
     else if t \<le> 0 \<or> freshness < now - t then [lbl @ '' stale''] else [])"

definition rover_missing :: "real \<Rightarrow> real \<Rightarrow> bool \<Rightarrow> rover_nav \<Rightarrow> string list" where
  "rover_missing freshness now home n =
     map snd (filter (\<lambda>(ok, lbl). \<not> ok)
       [(3 \<le> nv_fix n, ''GPS fix''), (6 \<le> nv_satellites n, ''satellites''),
        (1 / 1000000 < \<bar>nv_lat n\<bar> \<and> 1 / 1000000 < \<bar>nv_lng n\<bar>, ''location''), (home, ''Home''),
        (nv_ekf n AND 0x11 = 0x11, ''EKF'')])
     @ (if nv_generation n = 0 then [] else concat (map (stamp_missing (nv_generation n) freshness now) (nav_stamps n)))"

definition rover_gate :: "real \<Rightarrow> real \<Rightarrow> bool \<Rightarrow> rover_nav \<Rightarrow> bool \<times> string" where
  "rover_gate freshness now home n =
     (let missing = rover_missing freshness now home n in
      (missing = [], if missing = [] then [] else ''missing '' @ join_comma missing))"

subsection \<open>Cleaning up\<close>

text \<open>The messages that are still there are read without waiting\<close>

fun drain_recv :: "rm_config \<Rightarrow> nat \<Rightarrow> rm_in list \<Rightarrow> unit rm" where
  "drain_recv c 0 ins s = (Done (), s\<lparr>io_recv := ins\<rparr>)"
| "drain_recv c (Suc n) [] s = (Blocked, s\<lparr>io_recv := []\<rparr>)"
| "drain_recv c (Suc n) (RecvNone # ins) s = (Done (), s\<lparr>io_recv := ins\<rparr>)"
| "drain_recv c (Suc n) (RecvRaises # ins) s = (Fail RmTransport, s\<lparr>io_recv := ins\<rparr>)"
| "drain_recv c (Suc n) (RecvMsg m # ins) s =
     drain_recv c n ins (if rm_matches c m then s\<lparr>io_dispatched := io_dispatched s @ [m]\<rparr> else s)"

text \<open>The wait for the answer to one clearing: True is an accepted acknowledgement, False the next attempt\<close>

fun await_cleared :: "rm_config \<Rightarrow> real \<Rightarrow> rm_in list \<Rightarrow> bool rm" where
  "await_cleared c dl ins s =
     (case read_clock s of
        (Done t, s1) \<Rightarrow>
          if \<not> t < dl then (Done False, s1)
          else (case read_clock s1 of
              (Done t', s2) \<Rightarrow>
                (case ins of
                   [] \<Rightarrow> (Blocked, s2)
                 | RecvNone # ins' \<Rightarrow> (Done False, s2\<lparr>io_recv := ins'\<rparr>)
                 | RecvRaises # ins' \<Rightarrow> (Fail RmTransport, s2\<lparr>io_recv := ins'\<rparr>)
                 | RecvMsg m # ins' \<Rightarrow>
                     let s3 = s2\<lparr>io_recv := ins'\<rparr>; s4 = s3\<lparr>io_dispatched := io_dispatched s3 @ [m]\<rparr> in
                     if \<not> rm_matches c m then await_cleared c dl ins' s3
                     else if fm_type m \<noteq> ''MISSION_ACK'' then await_cleared c dl ins' s4
                     else (case ack_result m of None \<Rightarrow> (Fail (RmValue ''not a number''), s4) | Some a \<Rightarrow> (Done (a = 0), s4)))
            | (Fail e, s2) \<Rightarrow> (Fail e, s2)
            | (Blocked, s2) \<Rightarrow> (Blocked, s2))
      | (Fail e, s1) \<Rightarrow> (Fail e, s1)
      | (Blocked, s1) \<Rightarrow> (Blocked, s1))"

declare await_cleared.simps [simp del]

fun clear_attempts :: "rm_config \<Rightarrow> nat \<Rightarrow> bool rm" where
  "clear_attempts c 0 = pure_rm False"
| "clear_attempts c (Suc n) =
     bind_rm (rm_send RmClear) (\<lambda>_. bind_rm read_clock (\<lambda>t. bind_rm
       (\<lambda>s. await_cleared c (t + max 1 (rc_timeout c)) (io_recv s) s)
       (\<lambda>cleared. if cleared then pure_rm True else clear_attempts c n)))"

definition cancel_and_clear :: "rm_config \<Rightarrow> bool rm" where
  "cancel_and_clear c s =
     (case bind_rm (rm_send (RmAck 15)) (\<lambda>_. bind_rm (\<lambda>s. drain_recv c 256 (io_recv s) s)
         (\<lambda>_. clear_attempts c (rc_retries c + 1))) s of
        (Fail e, s') \<Rightarrow> (Done False, s')
      | r \<Rightarrow> r)"

subsection \<open>The operations\<close>

record rm_result =
  rr_ready :: bool
  rr_count :: nat
  rr_reason :: string

definition rover_home :: mission_item where
  "rover_home = \<lparr>mi_seq = 0, mi_frame = 0, mi_command = 16, mi_x = 0, mi_y = 0, mi_z = 0, mi_params = [0, 0, 0, 0],
     mi_autocontinue = 1\<rparr>"

definition renumbered :: "mission_item list \<Rightarrow> mission_item list" where
  "renumbered items = map (\<lambda>(i, u). u\<lparr>mi_seq := int i\<rparr>) (enumerate 1 items)"

text \<open>\<open>post\<close> is what \<open>refresh_home\<close> and \<open>sync_navigation\<close> of the transport leave, or their exception\<close>

definition transfer_and_gate :: "rm_config \<Rightarrow> mission_item list \<Rightarrow> rm_exc + bool \<times> rover_nav \<Rightarrow> rm_result rm" where
  "transfer_and_gate c executable post =
     bind_rm (if rc_clear_first c then rm_clear c (rc_retries c + 1) else pure_rm ()) (\<lambda>_.
     bind_rm (\<lambda>s. (Done (), on_status (\<lambda>t. t\<lparr>ms_unsafe := False\<rparr>) s)) (\<lambda>_.
     bind_rm (rm_upload c (rover_home # executable)) (\<lambda>_.
     bind_rm (rm_download c (length executable + 1)) (\<lambda>rbs.
     bind_rm (rm_verify c (rover_home # executable) rbs) (\<lambda>_.
       case post of
         Inl e \<Rightarrow> fail_rm e
       | Inr (home, nav) \<Rightarrow> bind_rm read_clock (\<lambda>now s.
           case rover_gate (rc_freshness c) now home nav of (ready, reason) \<Rightarrow>
             (Done \<lparr>rr_ready = ready, rr_count = length executable, rr_reason = reason\<rparr>,
              on_status (\<lambda>t. t\<lparr>ms_verified := True, ms_ready := ready, ms_reason := reason\<rparr>) (s\<lparr>ra_items := executable\<rparr>))))))))"

definition upload_failed :: "rm_config \<Rightarrow> rm_exc \<Rightarrow> rm_result rm" where
  "upload_failed c e s =
     bind_rm (cancel_and_clear c) (\<lambda>cleaned s.
       if \<not> cleaned then (Fail (RmResidual e),
         on_status (\<lambda>t. t\<lparr>ms_unsafe := True, ms_reason := ''unsafe residual mission after failed cleanup''\<rparr>) s)
       else (Fail e, on_status (\<lambda>t. t\<lparr>ms_unsafe := False\<rparr>) s))
     (on_status (\<lambda>t. t\<lparr>ms_verified := False, ms_ready := False\<rparr>) (s\<lparr>ra_items := []\<rparr>))"

definition upload_and_verify :: "rm_config \<Rightarrow> mission_item list \<Rightarrow> rm_exc + bool \<times> rover_nav \<Rightarrow> rm_result rm" where
  "upload_and_verify c items post s =
     (if items = [] then (Fail (RmValue ''mission requires at least one executable item''), s)
      else if 100 < length items then (Fail (RmValue ''mission exceeds maximum 100 executable items''), s)
      else bind_rm read_clock (\<lambda>t0 s1.
          case transfer_and_gate c (renumbered items) post (s1\<lparr>ra_deadline := Some (t0 + rc_operation_timeout c), ra_requests := []\<rparr>) of
            (Fail e, s2) \<Rightarrow> upload_failed c e s2
          | r \<Rightarrow> r)
        (on_status (\<lambda>t. fresh_status (ms_unsafe t)) s))"

definition start_auto :: "unit rm" where
  "start_auto s =
     (if ms_unsafe (ra_status s) then (Fail (RmRuntime ''unsafe residual mission blocks AUTO''), s)
      else if \<not> ms_verified (ra_status s) \<or> \<not> ms_ready (ra_status s) then (Fail (RmRuntime ''mission is not execution ready''), s)
      else rm_send RmAuto (on_status (\<lambda>t. t\<lparr>ms_completed := False\<rparr>) s))"

text \<open>The caller gives the time, or the clock is read\<close>

definition refresh_execution_readiness :: "rm_config \<Rightarrow> bool \<Rightarrow> rover_nav \<Rightarrow> real option \<Rightarrow> (bool \<times> string) rm" where
  "refresh_execution_readiness c home nav given s =
     (if ms_unsafe (ra_status s) then (Fail (RmRuntime ''unsafe residual mission blocks AUTO''), s)
      else if \<not> ms_verified (ra_status s) \<or> ra_items s = [] then (Fail (RmRuntime ''mission re-upload required''), s)
      else bind_rm (case given of None \<Rightarrow> read_clock | Some t \<Rightarrow> pure_rm t) (\<lambda>now s.
          let g = rover_gate (rc_freshness c) now home nav in
          (Done g, on_status (\<lambda>t. t\<lparr>ms_ready := fst g, ms_reason := snd g\<rparr>) s)) s)"

definition rm_publish_status :: "rover_manager \<Rightarrow> string option" where
  "rm_publish_status s =
     (let t = ra_status s in
      if ms_completed t then Some (''mission complete seq='' @ show_int (ms_reached t))
      else if ms_endpoint t then Some (''endpoint reached seq='' @ show_int (ms_reached t))
      else if ms_current t \<noteq> 0 then Some (''mission active seq='' @ show_int (ms_current t))
      else None)"

end
