(* ===== verification/RoverMissionProps.thy ===== *)
theory RoverMissionProps
  imports RoverMission
begin

text \<open>
  AUTO is only ever sent for a mission whose readback matched item by item; and a failed upload leaves the
  flight controller cleared, or the manager marked unsafe.
\<close>

subsection \<open>What a call leaves alone\<close>

definition progress_only :: "rover_manager \<Rightarrow> rover_manager \<Rightarrow> bool" where
  "progress_only s s' \<longleftrightarrow> set (io_dispatched s) \<subseteq> set (io_dispatched s') \<and> ra_items s' = ra_items s
     \<and> ms_verified (ra_status s') = ms_verified (ra_status s) \<and> ms_ready (ra_status s') = ms_ready (ra_status s)
     \<and> ms_unsafe (ra_status s') = ms_unsafe (ra_status s)"

definition keeps :: "'a rm \<Rightarrow> bool" where
  "keeps m \<longleftrightarrow> (\<forall>s r s'. m s = (r, s') \<longrightarrow> progress_only s s')"

lemma progress_refl [simp]: "progress_only s s"
  by (simp add: progress_only_def)

lemma progress_inputs [simp]:
  "progress_only (s\<lparr>ra_requests := q\<rparr>) s' = progress_only s s'" "progress_only s (s'\<lparr>ra_requests := q\<rparr>) = progress_only s s'"
  "progress_only (s\<lparr>io_recv := i\<rparr>) s' = progress_only s s'" "progress_only s (s'\<lparr>io_recv := i\<rparr>) = progress_only s s'"
  by (simp_all add: progress_only_def)

lemma progress_trans: "progress_only s s' \<Longrightarrow> progress_only s' s'' \<Longrightarrow> progress_only s s''"
  by (auto simp: progress_only_def)

lemma keepsD: "keeps m \<Longrightarrow> m s = (r, s') \<Longrightarrow> progress_only s s'"
  by (simp add: keeps_def)

lemma keeps_bind [intro]: "keeps m \<Longrightarrow> (\<And>a. keeps (f a)) \<Longrightarrow> keeps (bind_rm m f)"
  unfolding keeps_def bind_rm_def by (fastforce split: prod.splits rres.splits intro: progress_trans)

lemma keeps_pure [intro, simp]: "keeps (pure_rm a)"
  by (simp add: keeps_def pure_rm_def)

lemma keeps_fail [intro, simp]: "keeps (fail_rm e)"
  by (simp add: keeps_def fail_rm_def)

lemma keeps_clock [intro, simp]: "keeps read_clock"
  by (auto simp: keeps_def read_clock_def progress_only_def split: list.splits)

lemma keeps_send [intro, simp]: "keeps (rm_send x)"
  by (auto simp: keeps_def rm_send_def progress_only_def split: list.splits bool.splits)

lemma keeps_need_int [intro, simp]: "keeps (need_int v)"
  by (auto simp: keeps_def dest: need_int_same)

lemma keeps_ack [intro, simp]: "keeps (expect_ack t m)"
  by (auto simp: expect_ack_def split: option.split)

lemma keeps_observe [intro, simp]: "keeps (observe m)"
  unfolding keeps_def
  by (auto simp: observe_def bind_rm_def pure_rm_def on_status_def progress_only_def Let_def dest!: need_int_same
      split: rres.splits prod.splits if_splits mav_value.splits)

lemma keeps_turn_check [intro, simp]: "keeps (turn_check dl)"
  by (auto simp: keeps_def turn_check_def bind_rm_def pure_rm_def read_clock_def progress_only_def
      split: list.splits rres.splits prod.splits if_splits)

lemma keeps_recv_loop [intro, simp]: "keeps (recv_loop c ty dl ins)"
proof -
  have "progress_only s s'" if "recv_loop c ty dl ins s = (r, s')" for s r s'
    using that
  proof (induction ins arbitrary: s)
    case Nil
    then show ?case
      by (subst (asm) recv_loop.simps)
        (auto dest!: keepsD [OF keeps_turn_check] split: prod.splits rres.splits if_splits bool.splits)
  next
    case (Cons i ins)
    obtain b s1 where t: "turn_check dl s = (b, s1)" by (cases "turn_check dl s")
    then have p: "progress_only s s1" by (rule keepsD [OF keeps_turn_check])
    have ih: "progress_only s s'" if "recv_loop c ty dl ins s2 = (r, s')" "progress_only s s2" for s2
      using Cons.IH [OF that(1)] that(2) by (rule progress_trans [rotated])
    have d: "progress_only s (s1\<lparr>io_recv := q, io_dispatched := io_dispatched s1 @ d\<rparr>)" for q d
      using p by (auto simp: progress_only_def)
    show ?case
    proof (cases "b = Done True")
      case False
      with Cons.prems p t show ?thesis
        by (subst (asm) recv_loop.simps) (auto split: prod.splits rres.splits bool.splits)
    next
      case True
      show ?thesis
      proof (cases i)
        case (RecvMsg m)
        let ?s2 = "s1\<lparr>io_recv := ins, io_dispatched := io_dispatched s1 @ [m]\<rparr>"
        obtain o' s3 where o': "observe m ?s2 = (o', s3)" by (cases "observe m ?s2")
        have "progress_only s s3" using d keepsD [OF keeps_observe o'] by (rule progress_trans)
        moreover have "progress_only s (s1\<lparr>io_recv := ins\<rparr>)" using p by simp
        ultimately show ?thesis
          using Cons.prems t True RecvMsg o' d [of "[m]" ins]
          by (subst (asm) recv_loop.simps) (auto simp: Let_def intro: ih split: rres.splits if_splits)
      qed (use Cons.prems p t True in \<open>(subst (asm) recv_loop.simps, auto)+\<close>)
    qed
  qed
  then show ?thesis by (simp add: keeps_def)
qed

lemma keeps_recv_until [intro, simp]: "keeps (recv_until c ty)"
  using keeps_recv_loop unfolding recv_until_def by (intro keeps_bind keeps_clock) (simp add: keeps_def)

lemma keeps_clear [intro, simp]: "keeps (rm_clear c n)"
  by (induction n) (auto intro!: keeps_bind split: option.split)

lemma rm_send_both: "rm_send x s = (r, s') \<Longrightarrow> progress_only s s' \<and> io_clock s' = io_clock s"
  using keepsD [OF keeps_send] rm_send_clock by blast

lemma keeps_upload_loop [intro, simp]: "keeps (rm_upload_loop c items a)"
proof -
  have "progress_only s s'" if "rm_upload_loop c items a s = (r, s')" for s r s'
    using that
  proof (induction "length (io_clock s)" arbitrary: s a rule: less_induct)
    case less
    obtain x s1 where x: "recv_until c request_types s = (x, s1)" by (cases "recv_until c request_types s")
    have p: "progress_only s s1" using keepsD [OF keeps_recv_until x] .
    have ih: "progress_only s s'" if "x = Done y" "progress_only s1 s2" "io_clock s2 = io_clock s1"
      "rm_upload_loop c items b s2 = (r, s')" for y s2 b
      using less.hyps [of s2 b] recv_until_clock [of c request_types s y s1] x that p by (auto intro: progress_trans)
    show ?case
      using less.prems x p
      by (subst (asm) rm_upload_loop.simps)
        (auto simp: Let_def dest!: rm_send_both keepsD [OF keeps_ack] intro: progress_trans ih
          split: prod.splits rres.splits option.splits if_splits)
  qed
  then show ?thesis by (simp add: keeps_def)
qed

lemma keeps_upload [intro, simp]: "keeps (rm_upload c items)"
  unfolding rm_upload_def by (intro keeps_bind keeps_send keeps_upload_loop)

lemma keeps_count [intro, simp]: "keeps (rm_count c n)"
  by (induction n) (auto intro!: keeps_bind split: option.split)

lemma keeps_download_item [intro, simp]: "keeps (download_item c i n)"
  by (induction n) (auto intro!: keeps_bind split: option.split)

lemma keeps_download_items [intro, simp]: "keeps (download_items c is)"
  by (induction "is") (auto intro!: keeps_bind simp del: download_item.simps)

lemma keeps_download [intro, simp]: "keeps (rm_download c k)"
  unfolding rm_download_def by (auto intro!: keeps_bind simp del: rm_count.simps)

lemma keeps_verify [intro, simp]: "keeps (rm_verify c ws rs)"
  by (auto simp: rm_verify_def split: option.split)

subsection \<open>Readback\<close>

lemma bind_doneE:
  assumes "bind_rm m f s = (Done b, s'')"
  obtains a s' where "m s = (Done a, s')" and "f a s' = (Done b, s'')"
  using assms by (auto simp: bind_rm_def split: prod.splits rres.splits)

lemma recv_loop_received:
  "recv_loop c ty dl ins s = (Done (Some m), s') \<Longrightarrow> m \<in> set (io_dispatched s') \<and> rm_matches c m \<and> fm_type m \<in> set ty"
proof (induction ins arbitrary: s)
  case Nil
  then show ?case by (subst (asm) recv_loop.simps) (auto split: prod.splits rres.splits bool.splits)
next
  case (Cons i ins)
  then show ?case
    by (subst (asm) recv_loop.simps)
      (auto simp: Let_def split: prod.splits rres.splits bool.splits rm_in.splits if_splits)
qed

lemma recv_until_received:
  "recv_until c ty s = (Done (Some m), s') \<Longrightarrow> m \<in> set (io_dispatched s') \<and> rm_matches c m \<and> fm_type m \<in> set ty"
  unfolding recv_until_def by (elim bind_doneE) (rule recv_loop_received)

text \<open>An item of the mission as the flight controller sent it\<close>

definition read_back :: "rm_config \<Rightarrow> rover_manager \<Rightarrow> nat \<Rightarrow> readback \<Rightarrow> bool" where
  "read_back c s i rb \<longleftrightarrow> (\<exists>m \<in> set (io_dispatched s). rm_matches c m \<and> fm_type m \<in> {''MISSION_ITEM'', ''MISSION_ITEM_INT''}
     \<and> to_int (mav_field m ''seq'' (MInt (- 1))) = Some (int i) \<and> read_item m = Some rb)"

lemma read_back_progress: "read_back c s i rb \<Longrightarrow> progress_only s s' \<Longrightarrow> read_back c s' i rb"
  by (auto simp: read_back_def progress_only_def)

lemma need_int_done: "need_int v s = (Done k, s') \<longleftrightarrow> to_int v = Some k \<and> s' = s"
  by (auto simp: need_int_def pure_rm_def fail_rm_def split: option.splits)

lemma download_item_read: "download_item c i n s = (Done rb, s') \<Longrightarrow> read_back c s' i rb"
proof (induction n arbitrary: s)
  case 0
  then show ?case by (simp add: fail_rm_def)
next
  case (Suc n)
  from Suc.prems obtain s1 r s2 where r: "recv_until c [''MISSION_ITEM'', ''MISSION_ITEM_INT''] s1 = (Done r, s2)"
    and k: "(case r of None \<Rightarrow> download_item c i n
        | Some m \<Rightarrow> bind_rm (need_int (mav_field m ''seq'' (MInt (- 1)))) (\<lambda>q.
            if q \<noteq> int i then download_item c i n
            else (case read_item m of None \<Rightarrow> fail_rm (RmValue ''not a number'') | Some rb \<Rightarrow> pure_rm rb))) s2 = (Done rb, s')"
    by (auto elim!: bind_doneE)
  show ?case
  proof (cases r)
    case None
    with k show ?thesis by (auto intro: Suc.IH)
  next
    case (Some m)
    have "read_back c s2 i rb'" if "to_int (mav_field m ''seq'' (MInt (- 1))) = Some (int i)" "read_item m = Some rb'" for rb'
      using recv_until_received [OF r [unfolded Some]] that by (auto simp: read_back_def)
    with k Some show ?thesis
      by (auto simp: need_int_done pure_rm_def fail_rm_def dest: Suc.IH elim!: bind_doneE split: if_splits option.splits)
  qed
qed

lemma download_items_read: "download_items c is s = (Done rbs, s') \<Longrightarrow> list_all2 (read_back c s') is rbs"
proof (induction "is" arbitrary: s rbs)
  case Nil
  then show ?case by (simp add: pure_rm_def)
next
  case (Cons i "is")
  from Cons.prems obtain rb s1 rbs' where i: "download_item c i (rc_retries c + 1) s = (Done rb, s1)"
    and r: "download_items c is s1 = (Done rbs', s')" and e: "rbs = rb # rbs'"
    by (auto simp: pure_rm_def simp del: download_item.simps elim!: bind_doneE)
  have "read_back c s' i rb" using read_back_progress [OF download_item_read [OF i] keepsD [OF keeps_download_items r]] .
  with Cons.IH [OF r] e show ?case by simp
qed

lemma download_read:
  assumes "rm_download c k s = (Done rbs, s')"
  shows "list_all2 (read_back c s') [0..<k] rbs"
proof -
  from assms obtain s1 s2 where d: "download_items c [0..<k] s1 = (Done rbs, s2)" and a: "rm_send (RmAck 0) s2 = (Done (), s')"
    unfolding rm_download_def by (auto simp: pure_rm_def fail_rm_def simp del: rm_count.simps elim!: bind_doneE split: if_splits)
  have p: "progress_only s2 s'" using keepsD [OF keeps_send a] .
  show ?thesis
    using download_items_read [OF d] by (rule list_all2_mono) (rule read_back_progress [OF _ p])
qed

subsection \<open>The state between calls\<close>

definition mission_proved :: "rm_config \<Rightarrow> rover_manager \<Rightarrow> mission_item list \<Rightarrow> bool" where
  "mission_proved c s items \<longleftrightarrow> (\<exists>rbs. list_all2 (read_back c s) [0..<length items + 1] rbs
     \<and> list_all2 (\<lambda>w r. rm_verify_item c w r = None) (rover_home # items) rbs)"

definition auto_inv :: "rm_config \<Rightarrow> rover_manager \<Rightarrow> bool" where
  "auto_inv c s \<longleftrightarrow> (ms_verified (ra_status s) \<longrightarrow> \<not> ms_unsafe (ra_status s) \<and> ra_items s \<noteq> [] \<and> mission_proved c s (ra_items s))
     \<and> (ms_ready (ra_status s) \<longrightarrow> ms_verified (ra_status s))"

lemma mission_proved_mono:
  "mission_proved c s items \<Longrightarrow> set (io_dispatched s) \<subseteq> set (io_dispatched s') \<Longrightarrow> mission_proved c s' items"
proof -
  assume p: "mission_proved c s items" and d: "set (io_dispatched s) \<subseteq> set (io_dispatched s')"
  have "read_back c s' i rb" if "read_back c s i rb" for i rb using that d by (auto simp: read_back_def)
  with p show ?thesis unfolding mission_proved_def by (blast intro: list_all2_mono)
qed

lemma mission_proved_same [simp]:
  "mission_proved c (s\<lparr>io_clock := k\<rparr>) = mission_proved c s" "mission_proved c (s\<lparr>ra_items := q\<rparr>) = mission_proved c s"
  "mission_proved c (s\<lparr>ra_status := t\<rparr>) = mission_proved c s" "mission_proved c (s\<lparr>io_recv := i\<rparr>) = mission_proved c s"
  "mission_proved c (s\<lparr>io_sends := d\<rparr>) = mission_proved c s"
  by (simp_all add: mission_proved_def [abs_def] read_back_def [abs_def] del: upt_Suc)

lemma auto_inv_progress: "auto_inv c s \<Longrightarrow> progress_only s s' \<Longrightarrow> auto_inv c s'"
  by (auto simp: auto_inv_def progress_only_def intro: mission_proved_mono)

lemma verify_matches:
  assumes "rm_verify c ws rs s = (Done u, s')" and "length ws = length rs"
  shows "list_all2 (\<lambda>w r. rm_verify_item c w r = None) ws rs \<and> s' = s"
proof -
  have "first_error (map (\<lambda>(w, r). rm_verify_item c w r) (zip ws rs)) = None" "s' = s"
    using assms(1) by (auto simp: rm_verify_def pure_rm_def fail_rm_def split: option.splits)
  with assms(2) show ?thesis by (auto simp: first_error_None_iff list_all2_conv_all_nth set_zip)
qed

lemma transfer_done:
  assumes "transfer_and_gate c items post s = (Done res, s')" and "items \<noteq> []"
  shows "auto_inv c s' \<and> ms_verified (ra_status s') \<and> ra_items s' = items"
proof -
  let ?ws = "rover_home # items"
  obtain s1 s2 rbs s3 u s4 where
      b: "rm_download c (length items + 1) s2 = (Done rbs, s3)"
    and v: "rm_verify c ?ws rbs s3 = (Done u, s4)"
    and a: "rm_upload c ?ws s1 = (Done (), s2)" "\<not> ms_unsafe (ra_status s1)"
    and f: "(case post of Inl e \<Rightarrow> fail_rm e
       | Inr (home, nav) \<Rightarrow> bind_rm read_clock (\<lambda>now s.
           case rover_gate (rc_freshness c) now home nav of (ready, reason) \<Rightarrow>
             (Done \<lparr>rr_ready = ready, rr_count = length items, rr_reason = reason\<rparr>,
              on_status (\<lambda>t. t\<lparr>ms_verified := True, ms_ready := ready, ms_reason := reason\<rparr>) (s\<lparr>ra_items := items\<rparr>)))) s4 = (Done res, s')"
    using assms(1) unfolding transfer_and_gate_def by (fastforce simp: on_status_def elim!: bind_doneE)
  have l: "list_all2 (read_back c s3) [0..<length items + 1] rbs" by (rule download_read [OF b])
  then have "length ?ws = length rbs" by (auto dest: list_all2_lengthD)
  with verify_matches [OF v] l have m: "mission_proved c s3 items" "s4 = s3" by (auto simp: mission_proved_def simp del: upt_Suc)
  have "progress_only s1 s3" using keepsD [OF keeps_upload a(1)] keepsD [OF keeps_download b] by (rule progress_trans)
  then have "\<not> ms_unsafe (ra_status s3)" using a(2) by (simp add: progress_only_def)
  with f m assms(2) show ?thesis
    by (auto simp: auto_inv_def on_status_def read_clock_def fail_rm_def
        split: sum.splits prod.splits list.splits elim!: bind_doneE)
qed

subsection \<open>A failed upload\<close>

definition accepted_clear :: "rm_config \<Rightarrow> rover_manager \<Rightarrow> bool" where
  "accepted_clear c s \<longleftrightarrow> io_sent s \<noteq> [] \<and> last (io_sent s) = RmClear \<and> io_dispatched s \<noteq> []
     \<and> (let m = last (io_dispatched s) in fm_type m = ''MISSION_ACK'' \<and> rm_matches c m \<and> ack_result m = Some 0)"

lemma await_cleared_result:
  "await_cleared c dl ins s = (r, s') \<Longrightarrow> progress_only s s' \<and> io_sent s' = io_sent s
     \<and> (r = Done True \<longrightarrow> io_dispatched s' \<noteq> [] \<and> (let m = last (io_dispatched s') in
          fm_type m = ''MISSION_ACK'' \<and> rm_matches c m \<and> ack_result m = Some 0))"
proof (induction ins arbitrary: s)
  case Nil
  then show ?case
    by (subst (asm) await_cleared.simps) (auto simp: read_clock_def progress_only_def split: list.splits if_splits)
next
  case (Cons i ins)
  show ?case
  proof (cases "\<exists>m. i = RecvMsg m")
    case False
    with Cons.prems show ?thesis
      by (subst (asm) await_cleared.simps)
        (cases i; auto simp: read_clock_def progress_only_def split: list.splits if_splits)
  next
    case True
    then obtain m where i: "i = RecvMsg m" by blast
    let ?P = "progress_only s s' \<and> io_sent s' = io_sent s \<and> (r = Done True \<longrightarrow> io_dispatched s' \<noteq> []
      \<and> (let m = last (io_dispatched s') in fm_type m = ''MISSION_ACK'' \<and> rm_matches c m \<and> ack_result m = Some 0))"
    have ih: ?P if "await_cleared c dl ins s2 = (r, s')" and p: "progress_only s s2" and q: "io_sent s2 = io_sent s" for s2
      using Cons.IH [OF that(1)] progress_trans [OF p] q by simp
    have now: "progress_only s (s\<lparr>io_clock := k\<rparr>)"
      "progress_only s (s\<lparr>io_clock := k, io_recv := ins, io_dispatched := io_dispatched s @ d\<rparr>)"
      "progress_only s (s\<lparr>io_clock := k, io_recv := ins\<rparr>)" for k d
      by (auto simp: progress_only_def)
    show ?thesis
    proof (cases "io_clock s")
      case Nil
      with Cons.prems show ?thesis by (subst (asm) await_cleared.simps) (auto simp: read_clock_def)
    next
      case c1: (Cons t ts)
      show ?thesis
      proof (cases ts)
        case Nil
        with Cons.prems c1 now show ?thesis
          by (subst (asm) await_cleared.simps) (auto simp: read_clock_def split: if_splits)
      next
        case c2: (Cons t' ts')
        show ?thesis
        proof (cases "t < dl")
          case False
          with Cons.prems c1 now show ?thesis by (subst (asm) await_cleared.simps) (auto simp: read_clock_def)
        next
          case True
          let ?s3 = "s\<lparr>io_clock := ts', io_recv := ins\<rparr>"
          let ?s4 = "s\<lparr>io_clock := ts', io_recv := ins, io_dispatched := io_dispatched s @ [m]\<rparr>"
          have e: "(if \<not> rm_matches c m then await_cleared c dl ins ?s3
              else if fm_type m \<noteq> ''MISSION_ACK'' then await_cleared c dl ins ?s4
              else case ack_result m of None \<Rightarrow> (Fail (RmValue ''not a number''), ?s4) | Some a \<Rightarrow> (Done (a = 0), ?s4)) = (r, s')"
            using Cons.prems True unfolding i by (subst (asm) await_cleared.simps) (simp add: read_clock_def c1 c2 Let_def cong: if_cong option.case_cong)
          show ?thesis
          proof (cases "rm_matches c m \<and> fm_type m = ''MISSION_ACK''")
            case True
            with e now show ?thesis by (auto split: option.splits)
          next
            case False
            show ?thesis
            proof (cases "rm_matches c m")
              case True
              with e False have "await_cleared c dl ins ?s4 = (r, s')" by simp
              then show ?thesis by (rule ih) (simp_all add: now)
            next
              case False
              with e have "await_cleared c dl ins ?s3 = (r, s')" by simp
              then show ?thesis by (rule ih) (use now(3) in simp_all)
            qed
          qed
        qed
      qed
    qed
  qed
qed

lemma drain_recv_progress: "drain_recv c n ins s = (r, s') \<Longrightarrow> progress_only s s'"
proof (induction c n ins s rule: drain_recv.induct)
  case (5 c n m ins s)
  have "progress_only s (if rm_matches c m then s\<lparr>io_dispatched := io_dispatched s @ [m]\<rparr> else s)" by (auto simp: progress_only_def)
  with 5 show ?case by (auto intro: progress_trans)
qed auto

lemma clear_attempts_result:
  "clear_attempts c n s = (r, s') \<Longrightarrow> progress_only s s' \<and> (r = Done True \<longrightarrow> accepted_clear c s')"
proof (induction n arbitrary: s)
  case 0
  then show ?case by (auto simp: pure_rm_def)
next
  case (Suc n)
  obtain x s1 where x: "rm_send RmClear s = (x, s1)" by (cases "rm_send RmClear s")
  have p1: "progress_only s s1" using keepsD [OF keeps_send x] .
  show ?case
  proof (cases "x = Done ()")
    case False
    with Suc.prems x p1 show ?thesis by (cases x) (auto simp: bind_rm_def)
  next
    case True
    have sent: "last (io_sent s1) = RmClear \<and> io_sent s1 \<noteq> []"
      using x True by (auto simp: rm_send_def split: list.splits bool.splits)
    obtain y s2 where y: "read_clock s1 = (y, s2)" by (cases "read_clock s1")
    have p2: "progress_only s s2" "io_sent s2 = io_sent s1"
      using y p1 keepsD [OF keeps_clock y] by (auto simp: read_clock_def split: list.splits intro: progress_trans)
    show ?thesis
    proof (cases y)
      case (Done t)
      obtain z s3 where z: "await_cleared c (t + max 1 (rc_timeout c)) (io_recv s2) s2 = (z, s3)"
        by (cases "await_cleared c (t + max 1 (rc_timeout c)) (io_recv s2) s2")
      note w = await_cleared_result [OF z]
      have p3: "progress_only s s3" using p2(1) w by (blast intro: progress_trans)
      show ?thesis
      proof (cases "z = Done False")
        case True
        with Suc.prems x \<open>x = Done ()\<close> y Done z have "clear_attempts c n s3 = (r, s')" by (simp add: bind_rm_def)
        from Suc.IH [OF this] p3 show ?thesis by (blast intro: progress_trans)
      next
        case False
        with Suc.prems x \<open>x = Done ()\<close> y Done z have "r = z" "s' = s3"
          by (cases z; auto simp: bind_rm_def pure_rm_def)+
        with w p3 sent p2(2) show ?thesis by (auto simp: accepted_clear_def)
      qed
    qed (use Suc.prems x True y p2(1) in \<open>auto simp: bind_rm_def\<close>)
  qed
qed

lemma cancel_and_clear_result:
  assumes "cancel_and_clear c s = (r, s')"
  shows "progress_only s s' \<and> (\<forall>e. r \<noteq> Fail e) \<and> (r = Done True \<longrightarrow> accepted_clear c s')"
proof -
  let ?m = "bind_rm (rm_send (RmAck 15)) (\<lambda>_. bind_rm (\<lambda>s. drain_recv c 256 (io_recv s) s) (\<lambda>_. clear_attempts c (rc_retries c + 1)))"
  obtain x where x: "?m s = (x, s')" using assms by (auto simp: cancel_and_clear_def split: prod.splits rres.splits)
  have "keeps (\<lambda>s. drain_recv c 256 (io_recv s) s)" by (auto simp: keeps_def intro: drain_recv_progress)
  moreover have "keeps (clear_attempts c (rc_retries c + 1))"
    using clear_attempts_result [of c "rc_retries c + 1"] unfolding keeps_def by blast
  ultimately have "keeps ?m" by (intro keeps_bind keeps_send)
  moreover have "accepted_clear c s'" if "x = Done True"
    using x that clear_attempts_result by (auto elim!: bind_doneE simp del: clear_attempts.simps drain_recv.simps)
  ultimately show ?thesis
    using assms x by (auto simp: cancel_and_clear_def split: rres.splits dest: keepsD)
qed

lemma upload_failed_result:
  assumes "upload_failed c e s = (r, s')"
  shows "\<not> ms_verified (ra_status s') \<and> \<not> ms_ready (ra_status s') \<and> ra_items s' = [] \<and> (\<forall>a. r \<noteq> Done a)
    \<and> (\<forall>e'. r = Fail e' \<longrightarrow> ms_unsafe (ra_status s') \<and> e' = RmResidual e \<or> \<not> ms_unsafe (ra_status s') \<and> e' = e \<and> accepted_clear c s')"
proof -
  let ?s = "on_status (\<lambda>t. t\<lparr>ms_verified := False, ms_ready := False\<rparr>) (s\<lparr>ra_items := []\<rparr>)"
  obtain x s1 where x: "cancel_and_clear c ?s = (x, s1)" by (cases "cancel_and_clear c ?s")
  from cancel_and_clear_result [OF x] have p: "\<not> ms_verified (ra_status s1)" "\<not> ms_ready (ra_status s1)" "ra_items s1 = []"
      "\<forall>e. x \<noteq> Fail e" "x = Done True \<longrightarrow> accepted_clear c s1"
    by (auto simp: progress_only_def on_status_def)
  have a: "accepted_clear c (on_status f s1) = accepted_clear c s1" for f by (simp add: accepted_clear_def on_status_def)
  show ?thesis
    using assms p a unfolding upload_failed_def bind_rm_def x
    by (cases x) (auto simp: on_status_def split: if_splits)
qed

lemma upload_outcome:
  assumes u: "upload_and_verify c items post s = (r, s')" and r: "r \<noteq> Blocked" and n: "items \<noteq> []" "length items \<le> 100"
  shows "(\<exists>res. r = Done res \<and> auto_inv c s' \<and> ms_verified (ra_status s') \<and> ra_items s' = renumbered items)
    \<or> (\<exists>e. r = Fail e \<and> \<not> ms_verified (ra_status s') \<and> \<not> ms_ready (ra_status s') \<and> ra_items s' = []
        \<and> (ms_unsafe (ra_status s') \<and> (\<exists>e'. e = RmResidual e') \<or> \<not> ms_unsafe (ra_status s') \<and> accepted_clear c s'))"
proof -
  let ?s = "on_status (\<lambda>t. fresh_status (ms_unsafe t)) s"
  from u n have b: "bind_rm read_clock (\<lambda>t0 s1.
          case transfer_and_gate c (renumbered items) post (s1\<lparr>ra_deadline := Some (t0 + rc_operation_timeout c), ra_requests := []\<rparr>) of
            (Fail e, s2) \<Rightarrow> upload_failed c e s2 | r \<Rightarrow> r) ?s = (r, s')"
    by (simp add: upload_and_verify_def)
  then obtain t s1 where t: "read_clock ?s = (Done t, s1)"
    using r by (cases "read_clock ?s" rule: prod.exhaust)
      (auto simp: bind_rm_def read_clock_def split: list.splits)
  obtain x s2 where x: "transfer_and_gate c (renumbered items) post (s1\<lparr>ra_deadline := Some (t + rc_operation_timeout c), ra_requests := []\<rparr>) = (x, s2)"
    by (cases "transfer_and_gate c (renumbered items) post (s1\<lparr>ra_deadline := Some (t + rc_operation_timeout c), ra_requests := []\<rparr>)")
  have ne: "renumbered items \<noteq> []" using n(1) by (cases items) (auto simp: renumbered_def enumerate_eq_zip)
  show ?thesis
  proof (cases x)
    case (Done res)
    with b t x have "r = Done res" "s' = s2" by (auto simp: bind_rm_def)
    with transfer_done [OF x [unfolded Done] ne] show ?thesis by simp
  next
    case (Fail e)
    with b t x have "upload_failed c e s2 = (r, s')" by (simp add: bind_rm_def)
    from upload_failed_result [OF this] r show ?thesis by (cases r) auto
  next
    case Blocked
    with b t x r show ?thesis by (simp add: bind_rm_def)
  qed
qed

subsection \<open>Runs\<close>

text \<open>The states between calls: the environment supplies what the next calls meet, and every method may be called\<close>

inductive rm_reach :: "rm_config \<Rightarrow> rover_manager \<Rightarrow> bool" for c where
  start: "rm_reach c (rover_manager_init clk ins oks)"
| supplied: "rm_reach c s \<Longrightarrow> rm_reach c (s\<lparr>io_clock := clk, io_recv := ins, io_sends := oks\<rparr>)"
| upload: "rm_reach c s \<Longrightarrow> upload_and_verify c items post s = (r, s') \<Longrightarrow> r \<noteq> Blocked \<Longrightarrow> rm_reach c s'"
| observed: "rm_reach c s \<Longrightarrow> observe m s = (r, s') \<Longrightarrow> rm_reach c s'"
| refreshed: "rm_reach c s \<Longrightarrow> refresh_execution_readiness c home nav given s = (r, s') \<Longrightarrow> rm_reach c s'"
| started: "rm_reach c s \<Longrightarrow> start_auto s = (r, s') \<Longrightarrow> rm_reach c s'"

lemma auto_inv_upload:
  assumes "auto_inv c s" and u: "upload_and_verify c items post s = (r, s')" and r: "r \<noteq> Blocked"
  shows "auto_inv c s'"
proof (cases "items \<noteq> [] \<and> length items \<le> 100")
  case True
  with upload_outcome [OF u r] show ?thesis by (auto simp: auto_inv_def)
next
  case False
  with assms(1) u show ?thesis by (auto simp: upload_and_verify_def split: if_splits)
qed

lemma auto_inv_refresh:
  assumes "auto_inv c s" and "refresh_execution_readiness c home nav given s = (r, s')"
  shows "auto_inv c s'"
  using assms unfolding refresh_execution_readiness_def
  by (auto simp: auto_inv_def on_status_def bind_rm_def pure_rm_def read_clock_def Let_def
      split: if_splits option.splits list.splits)

lemma auto_inv_start:
  assumes "auto_inv c s" and "start_auto s = (r, s')"
  shows "auto_inv c s'"
  using assms unfolding start_auto_def
  by (auto simp: auto_inv_def mission_proved_def read_back_def [abs_def] on_status_def rm_send_def split: if_splits list.splits bool.splits)

lemma reach_auto_inv: "rm_reach c s \<Longrightarrow> auto_inv c s"
proof (induction rule: rm_reach.induct)
  case (start clk ins oks)
  then show ?case by (simp add: auto_inv_def rover_manager_init_def fresh_status_def)
next
  case (supplied s clk ins oks)
  then show ?case by (auto simp: auto_inv_def)
next
  case (observed s m r s')
  then show ?case by (blast intro: auto_inv_progress keepsD keeps_observe)
qed (blast intro: auto_inv_upload auto_inv_refresh auto_inv_start)+

subsection \<open>Properties\<close>

text \<open>Whatever was called before, with whatever answers and failures of the transport, AUTO is sent only for a
  mission of which the flight controller sent back the home position and every item, for its sequence number, equal
  in command and frame and, for the items, in position, parameters and autocontinue within the tolerances; and
  never while an earlier mission may remain after a failed cleanup.\<close>

theorem auto_only_after_readback:
  assumes "rm_reach c s" and "start_auto s = (Done (), s')"
  shows "io_sent s' = io_sent s @ [RmAuto] \<and> ms_ready (ra_status s) \<and> \<not> ms_unsafe (ra_status s) \<and> ra_items s \<noteq> []
    \<and> (\<exists>rbs. list_all2 (read_back c s) [0..<length (ra_items s) + 1] rbs
         \<and> list_all2 (\<lambda>w r. rm_verify_item c w r = None) (rover_home # ra_items s) rbs)"
proof -
  have "auto_inv c s" using assms(1) by (rule reach_auto_inv)
  moreover have "io_sent s' = io_sent s @ [RmAuto] \<and> ms_verified (ra_status s) \<and> ms_ready (ra_status s) \<and> \<not> ms_unsafe (ra_status s)"
    using assms(2) by (auto simp: start_auto_def rm_send_def on_status_def split: if_splits list.splits bool.splits)
  ultimately show ?thesis by (simp add: auto_inv_def mission_proved_def del: upt_Suc)
qed

text \<open>C26: When the upload of a mission raises, at whatever point, nothing is verified and AUTO is refused; and either the
  flight controller has acknowledged a clearing of its mission after the failure, or the manager is marked unsafe and
  the exception says so.\<close>

theorem failed_upload_is_cleared_or_unsafe:
  assumes "upload_and_verify c items post s = (Fail e, s')" and "items \<noteq> []" and "length items \<le> 100"
  shows "(\<exists>e'. fst (start_auto s') = Fail e') \<and> snd (start_auto s') = s' \<and> ra_items s' = []
    \<and> (ms_unsafe (ra_status s') \<and> (\<exists>e'. e = RmResidual e') \<or> \<not> ms_unsafe (ra_status s') \<and> accepted_clear c s')"
  using upload_outcome [OF assms(1) _ assms(2,3)] by (auto simp: start_auto_def)

definition rover_sample_config :: rm_config where
  "rover_sample_config = \<lparr>rc_timeout = 1, rc_retries = 0, rc_altitude_tol = 1 / 4, rc_coordinate_tol = 1, rc_gcs_system = 255,
     rc_gcs_component = 0, rc_vehicle_system = None, rc_vehicle_component = None, rc_operation_timeout = 10, rc_max_requests = 5,
     rc_param_tol = 1 / 10000, rc_freshness = 3, rc_clear_first = False\<rparr>"

definition rover_reply :: "string \<Rightarrow> (string \<times> mav_value) list \<Rightarrow> rm_in" where
  "rover_reply ty fs = RecvMsg \<lparr>fm_type = ty, fm_mission_type = Some 0, fm_target_system = Some 255, fm_target_component = Some 0,
     fm_source_system = Some 1, fm_source_component = Some 1, fm_fields = fs\<rparr>"

definition rover_sample_items :: "mission_item list" where
  "rover_sample_items = [\<lparr>mi_seq = 1, mi_frame = 6, mi_command = 16, mi_x = 10, mi_y = 20, mi_z = 3, mi_params = [0, 0, 0, 0],
     mi_autocontinue = 1\<rparr>]"

definition rover_sample_replies :: "rm_in list" where
  "rover_sample_replies =
     [rover_reply ''MISSION_REQUEST'' [(''seq'', MInt 0)], rover_reply ''MISSION_REQUEST'' [(''seq'', MInt 1)],
      rover_reply ''MISSION_ACK'' [(''type'', MInt 0)], rover_reply ''MISSION_COUNT'' [(''count'', MInt 2)],
      rover_reply ''MISSION_ITEM_INT'' [(''seq'', MInt 0), (''frame'', MInt 0), (''command'', MInt 16)],
      rover_reply ''MISSION_ITEM_INT'' [(''seq'', MInt 1), (''frame'', MInt 6), (''command'', MInt 16),
        (''x'', MInt 10), (''y'', MInt 20), (''z'', MReal 3)]]"

definition rover_sample_nav :: rover_nav where
  "rover_sample_nav = \<lparr>nv_fix = 3, nv_satellites = 9, nv_lat = 1, nv_lng = 1, nv_ekf = 17, nv_generation = 0, nv_gps = (0, 0),
     nv_position = (0, 0), nv_ekf_stamp = (0, 0), nv_home = (0, 0)\<rparr>"

lemmas rover_sample_defs = upload_and_verify_def bind_rm_def pure_rm_def fail_rm_def read_clock_def on_status_def fresh_status_def
  transfer_and_gate_def rm_upload_def rm_send_def recv_until_def turn_check_def rover_sample_config_def rover_reply_def
  rm_matches_def opt_is_def mav_field_def request_types_def request_count_def ack_result_def expect_ack_def need_int_def

lemma rover_sample_failure:
  "\<exists>s'. upload_and_verify rover_sample_config rover_sample_items (Inr (True, rover_sample_nav))
      (rover_manager_init (replicate 10 0) [RecvNone, RecvNone, RecvNone] [])
    = (Fail (RmResidual (RmTimeout ''timeout waiting for mission item request'')), s')"
  by (simp add: rover_sample_defs rover_manager_init_def rm_upload_loop.simps recv_loop.simps upload_failed_def
      cancel_and_clear_def await_cleared.simps numeral_eq_Suc rover_sample_items_def)

lemma rover_sample_renumbered: "renumbered rover_sample_items = rover_sample_items"
  by (simp add: renumbered_def rover_sample_items_def)

lemma rover_sample_success:
  "\<exists>s'. upload_and_verify rover_sample_config rover_sample_items (Inr (True, rover_sample_nav))
      (rover_manager_init (replicate 20 0) rover_sample_replies [])
    = (Done \<lparr>rr_ready = True, rr_count = 1, rr_reason = []\<rparr>, s')"
proof -
  have g: "rover_gate 3 0 True rover_sample_nav = (True, [])"
    by (simp add: rover_gate_def rover_missing_def rover_sample_nav_def)
  show ?thesis
    by (simp add: rover_sample_defs rover_manager_init_def rm_upload_loop.simps recv_loop.simps rover_sample_replies_def
        numeral_eq_Suc rover_sample_items_def rover_sample_renumbered [unfolded rover_sample_items_def numeral_eq_Suc] rm_download_def
        upt_rec read_item_def all_some_def read_coordinate_def rm_verify_def first_error_Cons rm_verify_item_def rm_position_differs_def
        rover_home_def g [unfolded numeral_eq_Suc])
qed

theorem auto_only_after_readback_witness:
  "\<exists>s s'. rm_reach rover_sample_config s \<and> start_auto s = (Done (), s') \<and> io_sent s' = io_sent s @ [RmAuto] \<and> ra_items s = rover_sample_items
     \<and> (\<exists>rb. read_back rover_sample_config s 1 rb)"
proof -
  obtain s where u: "upload_and_verify rover_sample_config rover_sample_items (Inr (True, rover_sample_nav))
      (rover_manager_init (replicate 20 0) rover_sample_replies [])
    = (Done \<lparr>rr_ready = True, rr_count = 1, rr_reason = []\<rparr>, s)" using rover_sample_success by blast
  have n: "rover_sample_items \<noteq> []" "length rover_sample_items \<le> 100" by (simp_all add: rover_sample_items_def)
  have reach: "rm_reach rover_sample_config (s\<lparr>io_clock := [], io_recv := [], io_sends := []\<rparr>)"
    by (rule rm_reach.supplied) (rule rm_reach.upload [OF rm_reach.start u], simp)
  let ?s = "s\<lparr>io_clock := [], io_recv := [], io_sends := []\<rparr>"
  from upload_outcome [OF u _ n] have v: "ms_verified (ra_status s)" "ra_items s = rover_sample_items" "auto_inv rover_sample_config s"
    by (auto simp: rover_sample_renumbered)
  have "ms_ready (ra_status s)"
    using u n by (simp add: upload_and_verify_def)
      (auto simp: transfer_and_gate_def upload_failed_def bind_rm_def pure_rm_def fail_rm_def on_status_def
        split: prod.splits rres.splits if_splits sum.splits)
  with v have st: "start_auto ?s = (Done (), snd (start_auto ?s))"
    by (auto simp: start_auto_def rm_send_def on_status_def auto_inv_def)
  note a = auto_only_after_readback [OF reach st]
  then obtain rbs where "list_all2 (read_back rover_sample_config ?s) [0..<length (ra_items ?s) + 1] rbs" by blast
  then have "read_back rover_sample_config ?s 1 (rbs ! 1)"
    using list_all2_nthD [of "read_back rover_sample_config ?s" "[0..<length (ra_items ?s) + 1]" rbs 1] v(2)
    by (simp add: rover_sample_items_def del: upt_Suc)
  moreover have "ra_items ?s = rover_sample_items" using v(2) by simp
  moreover have "io_sent (snd (start_auto ?s)) = io_sent ?s @ [RmAuto]" using a by (rule conjunct1)
  ultimately show ?thesis using reach st by (intro exI [of _ ?s] exI [of _ "snd (start_auto ?s)"] conjI exI [of _ "rbs ! 1"])
qed

theorem failed_upload_is_cleared_or_unsafe_witness:
  "\<exists>s'. upload_and_verify rover_sample_config rover_sample_items (Inr (True, rover_sample_nav))
      (rover_manager_init (replicate 10 0) [RecvNone, RecvNone, RecvNone] [])
    = (Fail (RmResidual (RmTimeout ''timeout waiting for mission item request'')), s') \<and> ra_items s' = []
    \<and> (\<exists>e'. fst (start_auto s') = Fail e')"
proof -
  obtain s' where u: "upload_and_verify rover_sample_config rover_sample_items (Inr (True, rover_sample_nav))
      (rover_manager_init (replicate 10 0) [RecvNone, RecvNone, RecvNone] [])
    = (Fail (RmResidual (RmTimeout ''timeout waiting for mission item request'')), s')"
    using rover_sample_failure by blast
  have "rover_sample_items \<noteq> []" "length rover_sample_items \<le> 100" by (simp_all add: rover_sample_items_def)
  from failed_upload_is_cleared_or_unsafe [OF u this] u show ?thesis by blast
qed

end
