(* ===== verification/MavCommands.thy ===== *)
theory MavCommands
  imports MavExt MissionWorker SlaveTransport
begin

text \<open>
  The packet builders and parsers of \<open>rdk_agent/aircraft_commands.py\<close>: MAVLink 2 packets that command the
  first aircraft directly, and the packets of a mission upload.

  \<open>struct.pack\<close> is modelled field by field; rounding to single precision is that of IEEE 754. The global \<open>_sequence\<close> is a byte that is passed along.
\<close>

subsection \<open>Packing\<close>

datatype mavcmd_exc = MavRuntime string | MavValue | MavOverflow | MavStruct | MavType

datatype pack_field = F32 pyfloat | I32 int | U32 int | U16 int | U8 int

text \<open>
  The bits of a single: for the exponent \<open>e\<close> and the mantissa \<open>m\<close>, rounded to even, of 24 bits they are
  \<open>(e + 126) * 2 ^ 23 + m\<close>, also when \<open>m\<close> was rounded up to \<open>2 ^ 24\<close> and for subnormal numbers.
\<close>

definition f32_bits :: "real \<Rightarrow> int" where
  "f32_bits a =
     (if a = 0 then 0
      else let e = max (- 126) \<lfloor>log 2 a\<rfloor> in (e + 126) * 2 ^ 23 + py_round (a / 2 powr (of_int (e - 23))))"

definition f32_word :: "pyfloat \<Rightarrow> 32 word option" where
  "f32_word v = (case v of
     NaN \<Rightarrow> Some 0x7FC00000
   | PInf \<Rightarrow> Some 0x7F800000
   | NInf \<Rightarrow> Some 0xFF800000
   | Fin m e \<Rightarrow>
       let b = f32_bits \<bar>ratio (double_of m e)\<bar> in
       if 255 * 2 ^ 23 \<le> b then None else Some ((if m < 0 then 0x80000000 else 0) OR word_of_int b))"

definition le32_bytes :: "32 word \<Rightarrow> bytes" where
  "le32_bytes w = [ucast w, ucast (drop_bit 8 w), ucast (drop_bit 16 w), ucast (drop_bit 24 w)]"

fun pack_field_bytes :: "pack_field \<Rightarrow> mavcmd_exc + bytes" where
  "pack_field_bytes (F32 v) = (case f32_word v of None \<Rightarrow> Inl MavOverflow | Some w \<Rightarrow> Inr (le32_bytes w))"
| "pack_field_bytes (I32 i) = (if - (2 ^ 31) \<le> i \<and> i < 2 ^ 31 then Inr (le32_bytes (word_of_int i)) else Inl MavStruct)"
| "pack_field_bytes (U32 i) = (if 0 \<le> i \<and> i < 2 ^ 32 then Inr (le32_bytes (word_of_int i)) else Inl MavStruct)"
| "pack_field_bytes (U16 i) = (if 0 \<le> i \<and> i < 2 ^ 16 then Inr (le16_bytes (word_of_int i)) else Inl MavStruct)"
| "pack_field_bytes (U8 i) = (if 0 \<le> i \<and> i < 2 ^ 8 then Inr [word_of_int i] else Inl MavStruct)"

fun pack_fields :: "pack_field list \<Rightarrow> mavcmd_exc + bytes" where
  "pack_fields [] = Inr []"
| "pack_fields (f # fs) = (case pack_field_bytes f of
     Inl e \<Rightarrow> Inl e | Inr b \<Rightarrow> map_sum id (append b) (pack_fields fs))"

subsection \<open>Packets\<close>

definition crc_extras :: "(nat \<times> byte) list" where
  "crc_extras = [(0, 50), (11, 89), (43, 132), (44, 221), (45, 232), (47, 153), (48, 41), (51, 196), (75, 158), (76, 152),
     (73, 38), (86, 5)]"

definition build_packet :: "nat \<Rightarrow> bytes \<Rightarrow> byte \<Rightarrow> (mavcmd_exc + bytes) \<times> byte" where
  "build_packet msg p sq =
     (case map_of crc_extras msg of
        None \<Rightarrow> (Inl (MavRuntime ''missing MAVLink CRC extra for message''), sq)
      | Some x \<Rightarrow>
          let header = [0xFD, word_of_nat (length p), 0, 0, sq, 255, 190, word_of_nat (msg mod 256),
                word_of_nat (msg div 256 mod 256), word_of_nat (msg div 65536 mod 256)]
          in (Inr (header @ p @ le16_bytes (x25_crc (tl header @ p @ [x]))), sq + 1))"

definition build_fields :: "nat \<Rightarrow> pack_field list \<Rightarrow> byte \<Rightarrow> (mavcmd_exc + bytes) \<times> byte" where
  "build_fields msg fs sq = (case pack_fields fs of Inl e \<Rightarrow> (Inl e, sq) | Inr p \<Rightarrow> build_packet msg p sq)"

type_synonym packet_builder = "byte \<Rightarrow> (mavcmd_exc + bytes) \<times> byte"

definition build_gcs_heartbeat_packet :: packet_builder where
  "build_gcs_heartbeat_packet = build_fields 0 [U32 0, U8 6, U8 8, U8 0, U8 4, U8 3]"

text \<open>\<open>x & 0xFF\<close>\<close>

definition low_byte :: "int \<Rightarrow> pack_field" where
  "low_byte i = U8 (i mod 256)"

definition build_command_long :: "int \<Rightarrow> pyfloat list \<Rightarrow> int \<Rightarrow> int \<Rightarrow> packet_builder" where
  "build_command_long cmd ps sys cmp = build_fields 76
     (map F32 (take 7 (ps @ replicate 7 (Fin 0 0))) @ [U16 cmd, low_byte sys, low_byte cmp, U8 1])"

definition build_set_mode :: "int \<Rightarrow> int \<Rightarrow> packet_builder" where
  "build_set_mode sys mode = build_fields 11 [low_byte sys, U8 1, U32 mode]"

definition build_do_set_mode :: "int \<Rightarrow> int \<Rightarrow> int \<Rightarrow> packet_builder" where
  "build_do_set_mode sys cmp mode = build_command_long 176 [Fin 1 0, Fin mode 0, Fin 0 0, Fin 0 0, Fin 0 0, Fin 0 0, Fin 0 0] sys cmp"

text \<open>\<open>int(x * scale)\<close>: the product is rounded to a double before it is truncated, infinity raises\<close>

definition int_scaled :: "pyfloat \<Rightarrow> int \<Rightarrow> mavcmd_exc + int" where
  "int_scaled v k = (case v of
     Fin m e \<Rightarrow>
       let x = double_times m e k in
       if 2 ^ 1024 * snd x \<le> \<bar>fst x\<bar> then Inl MavOverflow else Inr (trunc_double x)
   | NaN \<Rightarrow> Inl MavValue
   | _ \<Rightarrow> Inl MavOverflow)"

definition with_position :: "pyfloat \<Rightarrow> pyfloat \<Rightarrow> (int \<Rightarrow> int \<Rightarrow> packet_builder) \<Rightarrow> packet_builder" where
  "with_position lat lng f sq =
     (case int_scaled lat 10000000 of
        Inl e \<Rightarrow> (Inl e, sq)
      | Inr x \<Rightarrow> (case int_scaled lng 10000000 of Inl e \<Rightarrow> (Inl e, sq) | Inr y \<Rightarrow> f x y sq))"

definition build_do_set_home :: "int \<Rightarrow> int \<Rightarrow> pyfloat \<Rightarrow> pyfloat \<Rightarrow> pyfloat \<Rightarrow> packet_builder" where
  "build_do_set_home sys cmp lat lng alt = build_command_long 179 [Fin 0 0, Fin 0 0, Fin 0 0, Fin 0 0, lat, lng, alt] sys cmp"

definition build_command_int_do_set_home :: "int \<Rightarrow> int \<Rightarrow> pyfloat \<Rightarrow> pyfloat \<Rightarrow> pyfloat \<Rightarrow> packet_builder" where
  "build_command_int_do_set_home sys cmp lat lng alt = with_position lat lng (\<lambda>x y. build_fields 75
     ([F32 (Fin 0 0), F32 (Fin 0 0), F32 (Fin 0 0), F32 (Fin 0 0), I32 x, I32 y, F32 alt, U16 179, low_byte sys, low_byte cmp,
       U8 0, U8 0, U8 0]))"

definition build_set_gps_global_origin :: "int \<Rightarrow> pyfloat \<Rightarrow> pyfloat \<Rightarrow> pyfloat \<Rightarrow> packet_builder" where
  "build_set_gps_global_origin sys lat lng alt = with_position lat lng (\<lambda>x y sq.
     case int_scaled alt 1000 of Inl e \<Rightarrow> (Inl e, sq) | Inr z \<Rightarrow> build_fields 48 [I32 x, I32 y, I32 z, low_byte sys] sq)"

text \<open>\<open>ms\<close> is \<open>int(time.time() * 1000)\<close>\<close>

definition build_set_position_target :: "int \<Rightarrow> int \<Rightarrow> int \<Rightarrow> pyfloat \<Rightarrow> pyfloat \<Rightarrow> pyfloat \<Rightarrow> packet_builder" where
  "build_set_position_target ms sys cmp lat lng alt = with_position lat lng (\<lambda>x y. build_fields 86
     ([U32 (ms mod 2 ^ 32), I32 x, I32 y, F32 alt] @ replicate 8 (F32 (Fin 0 0)) @ [U16 0xFF8, low_byte sys, low_byte cmp, U8 6]))"

definition build_mission_count :: "int \<Rightarrow> int \<Rightarrow> int \<Rightarrow> packet_builder" where
  "build_mission_count sys cmp n = build_fields 44 [U16 n, low_byte sys, low_byte cmp, U8 0]"

definition build_mission_clear_all :: "int \<Rightarrow> int \<Rightarrow> packet_builder" where
  "build_mission_clear_all sys cmp = build_fields 45 [low_byte sys, low_byte cmp, U8 0]"

definition build_mission_request_list :: "int \<Rightarrow> int \<Rightarrow> packet_builder" where
  "build_mission_request_list sys cmp = build_fields 43 [low_byte sys, low_byte cmp, U8 0]"

definition build_mission_request_int :: "int \<Rightarrow> int \<Rightarrow> int \<Rightarrow> packet_builder" where
  "build_mission_request_int sys cmp i = build_fields 51 [U16 (i mod 2 ^ 16), low_byte sys, low_byte cmp, U8 0]"

text \<open>\<open>max(1.0, min(120.0, alt))\<close>; \<open>min\<close> keeps its first argument unless the second is smaller\<close>

definition clamp_altitude :: "pyfloat \<Rightarrow> pyfloat" where
  "clamp_altitude v = (case v of
     Fin m e \<Rightarrow> if 120 \<le> dec_val m e then Fin 120 0 else if dec_val m e \<le> 1 then Fin 1 0 else v
   | NInf \<Rightarrow> Fin 1 0 | _ \<Rightarrow> Fin 120 0)"

definition build_mission_item_int :: "int \<Rightarrow> int \<Rightarrow> int \<Rightarrow> pyfloat \<Rightarrow> pyfloat \<Rightarrow> pyfloat \<Rightarrow> int \<Rightarrow> packet_builder" where
  "build_mission_item_int sys cmp i lat lng alt current = with_position lat lng (\<lambda>x y. build_fields 73
     [F32 (Fin 0 0), F32 (Fin 0 0), F32 (Fin 0 0), F32 NaN, I32 x, I32 y, F32 (clamp_altitude alt), U16 (i mod 2 ^ 16), U16 16,
      low_byte sys, low_byte cmp, U8 6, low_byte current, U8 1, U8 0])"

subsection \<open>Commands\<close>

fun build_all :: "packet_builder list \<Rightarrow> byte \<Rightarrow> (mavcmd_exc + bytes list) \<times> byte" where
  "build_all [] sq = (Inr [], sq)"
| "build_all (b # bs) sq = (case b sq of
     (Inl e, sq') \<Rightarrow> (Inl e, sq')
   | (Inr pk, sq') \<Rightarrow> (case build_all bs sq' of (r, sq'') \<Rightarrow> (map_sum id (Cons pk) r, sq'')))"

definition mode_ids :: "(string \<times> int) list" where
  "mode_ids = [(''aircraft_guided'', 4), (''aircraft_loiter'', 5), (''aircraft_auto'', 3), (''aircraft_rtl'', 6),
     (''aircraft_land'', 9)]"

definition mode_packets :: "int \<Rightarrow> int \<Rightarrow> int \<Rightarrow> packet_builder list" where
  "mode_packets sys cmp mode = [build_do_set_mode sys cmp mode, build_set_mode sys mode]"

text \<open>\<open>abs(v) < 0.000001\<close>; None is the TypeError of a value that is no number\<close>

definition near_zero :: "json \<Rightarrow> bool option" where
  "near_zero v = (if is_str v then None else
     case json_float v of
       Some (JFloat (Fin m e)) \<Rightarrow> Some (\<bar>dec_val m e\<bar> < 1 / 1000000)
     | Some w \<Rightarrow> Some False
     | None \<Rightarrow> None)"

definition pyfloat_of :: "json \<Rightarrow> pyfloat" where
  "pyfloat_of v = (case json_float v of Some (JFloat x) \<Rightarrow> x | _ \<Rightarrow> NaN)"

definition invalid_target :: "json \<Rightarrow> json \<Rightarrow> bool option" where
  "invalid_target lat lng = (case near_zero lat of None \<Rightarrow> None | Some True \<Rightarrow> Some True | Some False \<Rightarrow> near_zero lng)"

text \<open>An argument that is not given is \<open>JNull\<close>; \<open>ms\<close> is the clock in milliseconds\<close>

definition build_aircraft_command_packets :: "int \<Rightarrow> string \<Rightarrow> int \<Rightarrow> int \<Rightarrow> json \<Rightarrow> json \<Rightarrow> json \<Rightarrow> byte \<Rightarrow>
    (mavcmd_exc + bytes list) \<times> byte" where
  "build_aircraft_command_packets ms cmd sys cmp lat lng alt sq =
     (case map_of mode_ids cmd of
        Some mode \<Rightarrow> build_all (mode_packets sys cmp mode) sq
      | None \<Rightarrow>
          if cmd = ''aircraft_arm'' \<or> cmd = ''aircraft_disarm'' then
            build_all [build_command_long 400 [Fin (if cmd = ''aircraft_arm'' then 1 else 0) 0, Fin 0 0, Fin 0 0, Fin 0 0, Fin 0 0,
              Fin 0 0, Fin 0 0] sys cmp] sq
          else if cmd = ''aircraft_goto'' then
            (if lat = JNull \<or> lng = JNull \<or> alt = JNull then (Inl (MavRuntime ''aircraft_goto missing target lat/lng/alt''), sq)
             else (case invalid_target lat lng of
                 None \<Rightarrow> (Inl MavType, sq)
               | Some True \<Rightarrow> (Inl (MavRuntime ''aircraft_goto invalid target''), sq)
               | Some False \<Rightarrow>
                   (case build_all (mode_packets sys cmp 4) sq of
                      (Inl e, sq') \<Rightarrow> (Inl e, sq')
                    | (Inr ps, sq') \<Rightarrow>
                        if json_float alt = None then (Inl MavValue, sq')
                        else (case build_set_position_target ms sys cmp (pyfloat_of lat) (pyfloat_of lng)
                              (clamp_altitude (pyfloat_of alt)) sq' of
                            (Inl e, sq'') \<Rightarrow> (Inl e, sq'')
                          | (Inr pk, sq'') \<Rightarrow> (Inr (ps @ [pk]), sq'')))))
          else (Inl (MavRuntime ''unknown aircraft command''), sq))"

subsection \<open>The packets of a mission\<close>

definition item_number :: "pydict \<Rightarrow> string list \<Rightarrow> mavcmd_exc + pyfloat" where
  "item_number d ks = (case json_float (case filter (has d) ks of [] \<Rightarrow> JInt 0 | k # _ \<Rightarrow> fld d k) of
     Some (JFloat x) \<Rightarrow> Inr x | _ \<Rightarrow> Inl MavValue)"

definition mission_item_packet :: "int \<Rightarrow> int \<Rightarrow> nat \<Rightarrow> pydict \<Rightarrow> packet_builder" where
  "mission_item_packet sys cmp i d sq =
     (case (item_number d [''lat'', ''x''], item_number d [''lng'', ''lon'', ''y''], item_number d [''alt'', ''z'']) of
        (Inr lat, Inr lng, Inr alt) \<Rightarrow>
          if invalid_target (JFloat lat) (JFloat lng) = Some True then (Inl (MavRuntime ''aircraft mission invalid target''), sq)
          else (case json_int (get_or d ''command'' (JInt 16)) of
              None \<Rightarrow> (Inl MavValue, sq)
            | Some k \<Rightarrow>
                if k \<noteq> JInt 16 then (Inl (MavRuntime ''unsupported aircraft mission command''), sq)
                else build_mission_item_int sys cmp (int i) lat lng alt (if i = 0 then 1 else 0) sq)
      | (Inl e, _, _) \<Rightarrow> (Inl e, sq) | (_, Inl e, _) \<Rightarrow> (Inl e, sq) | (_, _, Inl e) \<Rightarrow> (Inl e, sq))"

fun mission_item_packets :: "int \<Rightarrow> int \<Rightarrow> nat \<Rightarrow> json list \<Rightarrow> byte \<Rightarrow> (mavcmd_exc + bytes list) \<times> byte" where
  "mission_item_packets sys cmp i [] sq = (Inr [], sq)"
| "mission_item_packets sys cmp i (v # vs) sq =
     (if \<not> is_obj v then (Inl MavType, sq)
      else case mission_item_packet sys cmp i (dict_of v) sq of
        (Inl e, sq') \<Rightarrow> (Inl e, sq')
      | (Inr pk, sq') \<Rightarrow> (case mission_item_packets sys cmp (Suc i) vs sq' of (r, sq'') \<Rightarrow> (map_sum id (Cons pk) r, sq'')))"

definition build_aircraft_mission_packets_for_items :: "int \<Rightarrow> int \<Rightarrow> json \<Rightarrow> byte \<Rightarrow>
    (mavcmd_exc + bytes \<times> bytes \<times> bytes list) \<times> byte" where
  "build_aircraft_mission_packets_for_items sys cmp items sq =
     (if \<not> is_list items \<or> list_of items = [] then (Inl (MavRuntime ''aircraft mission requires at least one item''), sq)
      else case mission_item_packets sys cmp 0 (list_of items) sq of
        (Inl e, sq') \<Rightarrow> (Inl e, sq')
      | (Inr ps, sq1) \<Rightarrow> (case build_mission_clear_all sys cmp sq1 of
            (Inl e, sq2) \<Rightarrow> (Inl e, sq2)
          | (Inr cl, sq2) \<Rightarrow> (case build_mission_count sys cmp (int (length ps)) sq2 of
                (Inl e, sq3) \<Rightarrow> (Inl e, sq3) | (Inr ct, sq3) \<Rightarrow> (Inr (cl, ct, ps), sq3))))"

subsection \<open>Reading packets\<close>

definition is_mav_start :: "byte \<Rightarrow> bool" where
  "is_mav_start b \<longleftrightarrow> b = 0xFE \<or> b = 0xFD"

definition packet_length :: "bytes \<Rightarrow> nat" where
  "packet_length buf = (if buf ! 0 = 0xFD then 10 else 6) + unat (buf ! 1) + 2
     + (if buf ! 0 = 0xFD \<and> (buf ! 2 AND 1) \<noteq> 0 then 13 else 0)"

function mavlink_frames :: "bytes \<Rightarrow> (nat \<times> bytes) list" where
  "mavlink_frames buf =
     (if length buf < 8 then []
      else if \<not> is_mav_start (buf ! 0) then mavlink_frames (tl buf)
      else
        let n = packet_length buf; v2 = (buf ! 0 = 0xFD) in
        if length buf < n then []
        else (if v2 then unat (buf ! 7) + 256 * unat (buf ! 8) + 65536 * unat (buf ! 9) else unat (buf ! 5),
              take (unat (buf ! 1)) (drop (if v2 then 10 else 6) buf)) # mavlink_frames (drop n buf))"
  by pat_completeness auto
termination
  by (relation "measure length") (auto simp: packet_length_def)

declare mavlink_frames.simps [simp del]

definition word_at :: "bytes \<Rightarrow> nat \<Rightarrow> nat" where
  "word_at p k = unat (p ! k) + 256 * unat (p ! (k + 1))"

definition mission_request_seq :: "nat \<Rightarrow> bytes \<Rightarrow> nat option" where
  "mission_request_seq msg p = (if msg \<notin> {40, 51} \<or> length p < 2 then None else Some (word_at p 0))"

definition mission_ack_type :: "nat \<Rightarrow> bytes \<Rightarrow> nat option" where
  "mission_ack_type msg p = (if msg \<noteq> 47 \<or> length p < 3 then None else Some (unat (p ! 2)))"

definition mission_count_value :: "nat \<Rightarrow> bytes \<Rightarrow> nat option" where
  "mission_count_value msg p = (if msg \<noteq> 44 \<or> length p < 2 then None else Some (word_at p 0))"

definition le32_at :: "bytes \<Rightarrow> nat \<Rightarrow> 32 word" where
  "le32_at p k = ucast (p ! k) OR push_bit 8 (ucast (p ! (k + 1))) OR push_bit 16 (ucast (p ! (k + 2)))
     OR push_bit 24 (ucast (p ! (k + 3)))"

definition f32_value :: "32 word \<Rightarrow> fl" where
  "f32_value w =
     (let e = unat (drop_bit 23 w AND 0xFF); f = unat (w AND 0x7FFFFF); sgn = (if bit w 31 then - 1 else 1 :: real) in
      if e = 255 then (if f = 0 then FlInf else FlNaN)
      else if e = 0 then Fl (sgn * of_nat f / 2 ^ 149)
      else Fl (sgn * of_nat (2 ^ 23 + f) * 2 powr (of_nat e - 150)))"

record item_value =
  iv_seq :: nat
  iv_command :: nat
  iv_lat :: real
  iv_lng :: real
  iv_alt :: fl

text \<open>
  \<open>struct.unpack_from("<ffffiifHHBBBBBB", payload)\<close> needs 38 bytes, the check before it asks for 37
\<close>

definition mission_item_value :: "nat \<Rightarrow> bytes \<Rightarrow> mavcmd_exc + item_value option" where
  "mission_item_value msg p =
     (if msg \<noteq> 73 \<or> length p < 37 then Inr None
      else if length p < 38 then Inl MavStruct
      else Inr (Some \<lparr>iv_seq = word_at p 28, iv_command = word_at p 30,
        iv_lat = of_int (sint (le32_at p 16)) / 10000000, iv_lng = of_int (sint (le32_at p 20)) / 10000000,
        iv_alt = f32_value (le32_at p 24)\<rparr>))"

datatype mission_event = EvRequest bool nat | EvAck nat | EvCount nat | EvItem item_value

text \<open>The events of one datagram, as \<open>_drain_mission_socket\<close> appends them\<close>

fun mission_events :: "(nat \<times> bytes) list \<Rightarrow> mission_event list \<times> mavcmd_exc option" where
  "mission_events [] = ([], None)"
| "mission_events ((msg, p) # fs) =
     (case mission_request_seq msg p of
        Some i \<Rightarrow> apfst (Cons (EvRequest (msg = 51) i)) (mission_events fs)
      | None \<Rightarrow> (case mission_ack_type msg p of
            Some a \<Rightarrow> apfst (Cons (EvAck a)) (mission_events fs)
          | None \<Rightarrow> (case mission_count_value msg p of
                Some n \<Rightarrow> apfst (Cons (EvCount n)) (mission_events fs)
              | None \<Rightarrow> (case mission_item_value msg p of
                    Inl e \<Rightarrow> ([], Some e)
                  | Inr None \<Rightarrow> mission_events fs
                  | Inr (Some v) \<Rightarrow> apfst (Cons (EvItem v)) (mission_events fs)))))"

end
