(* ===== verification/MavCommandsProps.thy ===== *)
theory MavCommandsProps
  imports MavCommands
begin

text \<open>
  What the packet builders write, the parser of the same file reads back; and the one message it
  cannot read, although the flight controller sends it.
\<close>

lemma le16_length [simp]: "length (le16_bytes w) = 2"
  by (simp add: le16_bytes_def)

lemma packet_parsed:
  assumes b: "build_packet msg p sq = (Inr pk, sq')" and len: "length p < 256" and msg: "msg < 2 ^ 24"
  shows "mavlink_frames (pk @ rest) = (msg, p) # mavlink_frames rest"
proof -
  let ?n = "word_of_nat (length p) :: byte"
  obtain ck where pk: "pk = [0xFD, ?n, 0, 0, sq, 255, 190, word_of_nat (msg mod 256), word_of_nat (msg div 256 mod 256),
      word_of_nat (msg div 65536 mod 256)] @ p @ le16_bytes ck"
    using b by (auto simp: build_packet_def Let_def split: option.splits)
  have n: "unat ?n = length p" using len by (simp add: unat_of_nat)
  have l: "packet_length (pk @ rest) = length pk" by (simp add: packet_length_def pk n)
  have h: "(pk @ rest) ! 0 = 0xFD" "(pk @ rest) ! Suc 0 = ?n" "(pk @ rest) ! 7 = word_of_nat (msg mod 256)"
    "(pk @ rest) ! 8 = word_of_nat (msg div 256 mod 256)" "(pk @ rest) ! 9 = word_of_nat (msg div 65536 mod 256)"
    by (simp_all add: pk)
  have u: "unat (word_of_nat (x mod 256) :: byte) = x mod 256" for x
    by (simp add: unat_of_nat)
  have m: "msg mod 256 + 256 * (msg div 256 mod 256) + 65536 * (msg div 65536 mod 256) = msg"
  proof -
    have "msg div 65536 < 256" using msg by (intro less_mult_imp_div_less) simp
    moreover have "msg div 65536 = msg div 256 div 256" using div_mult2_eq [of msg 256 256] by simp
    ultimately have "msg div 65536 mod 256 = msg div 256 div 256" by simp
    with mod_mult_div_eq [of msg 256] mod_mult_div_eq [of "msg div 256" 256] show ?thesis by linarith
  qed
  have p: "take (length p) (drop 10 (pk @ rest)) = p" by (simp add: pk)
  have d: "drop (length pk) (pk @ rest) = rest" by simp
  have long: "\<not> length (pk @ rest) < 8" "\<not> length (pk @ rest) < length pk" by (simp_all add: pk)
  show ?thesis
    by (subst mavlink_frames.simps) (simp add: long l h n u m p d is_mav_start_def Let_def del: append_assoc length_append drop_append take_append)
qed

fun field_length :: "pack_field \<Rightarrow> nat" where
  "field_length (F32 v) = 4"
| "field_length (I32 i) = 4"
| "field_length (U32 i) = 4"
| "field_length (U16 i) = 2"
| "field_length (U8 i) = 1"

lemma pack_field_length: "pack_field_bytes f = Inr b \<Longrightarrow> length b = field_length f"
  by (cases f) (auto simp: le32_bytes_def split: option.splits if_splits)

lemma pack_fields_append:
  "pack_fields (fs @ gs) = Inr b \<longleftrightarrow> (\<exists>x y. pack_fields fs = Inr x \<and> pack_fields gs = Inr y \<and> b = x @ y)"
proof (induction fs arbitrary: b)
  case (Cons f fs)
  show ?case
  proof (cases "pack_field_bytes f")
    case (Inr c)
    have "pack_fields ((f # fs) @ gs) = Inr b \<longleftrightarrow> (\<exists>d. pack_fields (fs @ gs) = Inr d \<and> b = c @ d)"
      using Inr by (cases "pack_fields (fs @ gs)") auto
    also have "\<dots> \<longleftrightarrow> (\<exists>x y. pack_fields fs = Inr x \<and> pack_fields gs = Inr y \<and> b = c @ x @ y)"
      unfolding Cons.IH by auto
    also have "\<dots> \<longleftrightarrow> (\<exists>x y. pack_fields (f # fs) = Inr x \<and> pack_fields gs = Inr y \<and> b = x @ y)"
      using Inr by (cases "pack_fields fs") auto
    finally show ?thesis .
  qed simp
qed auto

lemma pack_fields_length: "pack_fields fs = Inr b \<Longrightarrow> length b = sum_list (map field_length fs)"
proof (induction fs arbitrary: b)
  case (Cons f fs)
  then show ?case
    by (cases "pack_fields fs") (auto split: sum.splits dest: pack_field_length)
qed simp

lemma fields_parsed:
  assumes b: "build_fields msg fs sq = (Inr pk, sq')" and len: "sum_list (map field_length fs) < 256" and msg: "msg < 2 ^ 24"
  obtains p where "pack_fields fs = Inr p" "length p = sum_list (map field_length fs)"
    "\<And>rest. mavlink_frames (pk @ rest) = (msg, p) # mavlink_frames rest"
proof -
  obtain p where p: "pack_fields fs = Inr p" "build_packet msg p sq = (Inr pk, sq')"
    using b by (auto simp: build_fields_def split: sum.splits)
  have "length p = sum_list (map field_length fs)" using p(1) by (rule pack_fields_length)
  with p packet_parsed [OF p(2)] len msg that show thesis by auto
qed


subsection \<open>A mission, written and read\<close>

lemma unat_le16: "unat (ucast w :: byte) + 256 * unat (ucast (drop_bit 8 w) :: byte) = unat (w :: 16 word)"
proof -
  have "unat (ucast w :: byte) = unat w mod 256" by (simp add: unsigned_ucast_eq take_bit_eq_mod)
  moreover have "unat (ucast (drop_bit 8 w) :: byte) = unat w div 256"
  proof -
    have "unat w < 65536" using unsigned_less [of w] by (simp add: word_size)
    then show ?thesis unfolding unsigned_ucast_eq unat_drop_bit_eq by (simp add: take_bit_eq_mod drop_bit_eq_div)
  qed
  ultimately show ?thesis by simp
qed

lemma le32_at_bytes: "le32_at (xs @ le32_bytes w @ ys) (length xs) = w"
proof -
  have "(ucast (ucast w :: byte) :: 32 word) OR push_bit 8 (ucast (ucast (drop_bit 8 w) :: byte))
      OR push_bit 16 (ucast (ucast (drop_bit 16 w) :: byte)) OR push_bit 24 (ucast (ucast (drop_bit 24 w) :: byte)) = w"
  proof (rule bit_word_eqI)
    fix n assume "n < LENGTH(32)"
    then have n: "n < 32" by simp
    consider "n < 8" | "8 \<le> n" "n < 16" | "16 \<le> n" "n < 24" | "24 \<le> n" by linarith
    then show "bit ((ucast (ucast w :: byte) :: 32 word) OR push_bit 8 (ucast (ucast (drop_bit 8 w) :: byte))
        OR push_bit 16 (ucast (ucast (drop_bit 16 w) :: byte)) OR push_bit 24 (ucast (ucast (drop_bit 24 w) :: byte))) n = bit w n"
      by cases (use n in \<open>auto simp: bit_simps\<close>)
  qed
  then show ?thesis by (simp add: le32_at_def le32_bytes_def nth_append)
qed


lemma word_at_bytes: "word_at (xs @ le16_bytes w @ ys) (length xs) = unat w"
  using unat_le16 [of w] by (simp add: word_at_def le16_bytes_def nth_append)

lemma pack_one: "pack_fields [f] = pack_field_bytes f"
  by (cases "pack_field_bytes f") auto

lemma pack_F32: "pack_field_bytes (F32 v) = Inr b \<longleftrightarrow> (\<exists>w. f32_word v = Some w \<and> b = le32_bytes w)"
  by (auto split: option.splits)

lemma pack_I32: "pack_field_bytes (I32 i) = Inr b \<longleftrightarrow> - (2 ^ 31) \<le> i \<and> i < 2 ^ 31 \<and> b = le32_bytes (word_of_int i)"
  by auto

lemma pack_U16: "pack_field_bytes (U16 i) = Inr b \<longleftrightarrow> 0 \<le> i \<and> i < 2 ^ 16 \<and> b = le16_bytes (word_of_int i)"
  by auto

text \<open>The payload of a mission item: 38 bytes, from which every number comes back\<close>

lemma item_payload_read:
  assumes p: "pack_fields [F32 (Fin 0 0), F32 (Fin 0 0), F32 (Fin 0 0), F32 NaN, I32 x, I32 y, F32 alt, U16 i, U16 16, a, b, U8 6, c, U8 1, U8 0]
      = Inr p" and abc: "\<forall>f \<in> {a, b, c}. field_length f = 1"
  shows "\<exists>z. f32_word alt = Some z \<and> mission_item_value 73 p = Inr (Some \<lparr>iv_seq = nat i, iv_command = 16,
      iv_lat = of_int x / 10000000, iv_lng = of_int y / 10000000, iv_alt = f32_value z\<rparr>)"
proof -
  have len: "length p = 38" using pack_fields_length [OF p] abc by simp
  let ?hd = "[F32 (Fin 0 0), F32 (Fin 0 0), F32 (Fin 0 0), F32 NaN]" and ?tl = "[a, b, U8 6, c, U8 1, U8 0]"
  have "pack_fields (?hd @ [I32 x] @ [I32 y] @ [F32 alt] @ [U16 i] @ [U16 16] @ ?tl) = Inr p" using p by simp
  then obtain h z t where h: "pack_fields ?hd = Inr h" and z: "f32_word alt = Some z"
    and x: "- (2 ^ 31) \<le> x" "x < 2 ^ 31" and y: "- (2 ^ 31) \<le> y" "y < 2 ^ 31" and i: "0 \<le> i" "i < 2 ^ 16"
    and b: "p = h @ le32_bytes (word_of_int x) @ le32_bytes (word_of_int y) @ le32_bytes z @ le16_bytes (word_of_int i)
      @ le16_bytes (word_of_int 16) @ t"
    unfolding pack_fields_append pack_one pack_F32 pack_I32 pack_U16 by blast
  have lh: "length h = 16" using pack_fields_length [OF h] by simp
  have s: "(signed (word_of_int v :: 32 word) :: real) = of_int v" if "- (2 ^ 31) \<le> v" "v < 2 ^ 31" for v
    using that by (simp add: signed_of_int signed_take_bit_int_eq_self)
  have u: "unat (word_of_int i :: 16 word) = nat i"
    using i by (simp add: unsigned_of_int take_bit_int_eq_self)
  have l: "length (le32_bytes w) = 4" for w by (simp add: le32_bytes_def)
  have lat: "le32_at p 16 = word_of_int x" using le32_at_bytes [of h "word_of_int x"] by (simp add: b lh)
  have lng: "le32_at p 20 = word_of_int y"
    using le32_at_bytes [of "h @ le32_bytes (word_of_int x)" "word_of_int y"] by (simp add: b lh l)
  have alt: "le32_at p 24 = z"
    using le32_at_bytes [of "h @ le32_bytes (word_of_int x) @ le32_bytes (word_of_int y)" z] by (simp add: b lh l)
  have sq: "word_at p 28 = nat i"
    using word_at_bytes [of "h @ le32_bytes (word_of_int x) @ le32_bytes (word_of_int y) @ le32_bytes z" "word_of_int i"] u
    by (simp add: b lh l)
  have cm: "word_at p 30 = 16"
    using word_at_bytes [of "h @ le32_bytes (word_of_int x) @ le32_bytes (word_of_int y) @ le32_bytes z @ le16_bytes (word_of_int i)" 16]
    by (simp add: b lh l)
  show ?thesis using z by (simp add: mission_item_value_def len lat lng alt sq cm s [OF x] s [OF y])
qed


definition pyfloat_real :: "pyfloat \<Rightarrow> real" where
  "pyfloat_real v = (case v of Fin m e \<Rightarrow> dec_val m e | _ \<Rightarrow> 0)"

text \<open>A scaled number is the number times the scale, but for the two roundings and the part cut off\<close>

lemma near_trans: "\<bar>x - y\<bar> < a \<Longrightarrow> \<bar>y - z\<bar> \<le> b \<Longrightarrow> \<bar>x - z\<bar> < a + (b :: real)"
  by linarith

lemma int_scaled_near:
  assumes "int_scaled v k = Inr x"
  shows "\<bar>of_int x - pyfloat_real v * of_int k\<bar> < 1 + \<bar>pyfloat_real v * of_int k\<bar> / 2 ^ 51"
proof -
  obtain m e where v: "v = Fin m e" "x = trunc_double (double_times m e k)"
    using assms by (auto simp: int_scaled_def Let_def split: pyfloat.splits if_splits)
  have "\<bar>of_int x - ratio (double_times m e k)\<bar> < 1" unfolding v(2) by (rule trunc_double_near [OF double_times_near(1)])
  moreover have "\<bar>ratio (double_times m e k) - dec_val m e * of_int k\<bar> \<le> \<bar>dec_val m e * of_int k\<bar> / 2 ^ 51"
    using double_times_near(2) [of m e k] by (simp add: field_simps)
  ultimately have "\<bar>of_int x - dec_val m e * of_int k\<bar> < 1 + \<bar>dec_val m e * of_int k\<bar> / 2 ^ 51" by (rule near_trans)
  then show ?thesis by (simp add: v(1) pyfloat_real_def)
qed

text \<open>What the parser should find of an item: 1e-7 degrees of the rounded products, and so the coordinates of the item
  up to 1e-7 degrees and the error of the doubles\<close>

definition coordinate_reads :: "pyfloat \<Rightarrow> real \<Rightarrow> bool" where
  "coordinate_reads v r \<longleftrightarrow> (\<exists>x. int_scaled v 10000000 = Inr x \<and> r = of_int x / 10000000)
     \<and> \<bar>r - pyfloat_real v\<bar> < 1 / 10000000 + \<bar>pyfloat_real v\<bar> / 2 ^ 51"

definition item_reads :: "nat \<Rightarrow> pydict \<Rightarrow> bytes \<Rightarrow> bool" where
  "item_reads i d p \<longleftrightarrow> (\<exists>lat lng alt z x y. item_number d [''lat'', ''x''] = Inr lat \<and> item_number d [''lng'', ''lon'', ''y''] = Inr lng
     \<and> item_number d [''alt'', ''z''] = Inr alt \<and> f32_word (clamp_altitude alt) = Some z
     \<and> coordinate_reads lat x \<and> coordinate_reads lng y
     \<and> mission_item_value 73 p = Inr (Some \<lparr>iv_seq = i, iv_command = 16, iv_lat = x, iv_lng = y, iv_alt = f32_value z\<rparr>))"

lemma coordinate_readsI:
  assumes "int_scaled v 10000000 = Inr x"
  shows "coordinate_reads v (of_int x / 10000000)"
  using assms int_scaled_near [OF assms] by (auto simp: coordinate_reads_def field_simps abs_mult)

lemma low_byte_length [simp]: "field_length (low_byte i) = 1"
  by (simp add: low_byte_def)

lemma mission_item_read:
  assumes b: "mission_item_packet sys cmp i d sq = (Inr pk, sq')" and i: "i < 2 ^ 16"
  obtains p where "item_reads i d p" "\<And>rest. mavlink_frames (pk @ rest) = (73, p) # mavlink_frames rest"
proof -
  obtain lat lng alt where n: "item_number d [''lat'', ''x''] = Inr lat" "item_number d [''lng'', ''lon'', ''y''] = Inr lng"
      "item_number d [''alt'', ''z''] = Inr alt"
    and m: "build_mission_item_int sys cmp (int i) lat lng alt (if i = 0 then 1 else 0) sq = (Inr pk, sq')"
    using b by (auto simp: mission_item_packet_def split: sum.splits if_splits option.splits)
  from m obtain x y where xy: "int_scaled lat 10000000 = Inr x" "int_scaled lng 10000000 = Inr y"
    and f: "build_fields 73 [F32 (Fin 0 0), F32 (Fin 0 0), F32 (Fin 0 0), F32 NaN, I32 x, I32 y, F32 (clamp_altitude alt),
      U16 (int i mod 2 ^ 16), U16 16, low_byte sys, low_byte cmp, U8 6, low_byte (if i = 0 then 1 else 0), U8 1, U8 0] sq = (Inr pk, sq')"
    unfolding build_mission_item_int_def with_position_def by (auto split: sum.splits)
  note c = coordinate_readsI [OF xy(1)] coordinate_readsI [OF xy(2)]
  obtain p where p: "pack_fields [F32 (Fin 0 0), F32 (Fin 0 0), F32 (Fin 0 0), F32 NaN, I32 x, I32 y, F32 (clamp_altitude alt),
      U16 (int i mod 2 ^ 16), U16 16, low_byte sys, low_byte cmp, U8 6, low_byte (if i = 0 then 1 else 0), U8 1, U8 0] = Inr p"
    and fr: "\<And>rest. mavlink_frames (pk @ rest) = (73, p) # mavlink_frames rest"
    using fields_parsed [OF f] by auto
  have "nat (int i mod 2 ^ 16) = i" using i by simp
  then obtain z where "f32_word (clamp_altitude alt) = Some z" "mission_item_value 73 p = Inr (Some \<lparr>iv_seq = i, iv_command = 16,
      iv_lat = of_int x / 10000000, iv_lng = of_int y / 10000000, iv_alt = f32_value z\<rparr>)"
    using item_payload_read [OF p] by auto
  with n c have "item_reads i d p" unfolding item_reads_def by blast
  with fr that show thesis by blast
qed

lemma mission_items_read:
  assumes "mission_item_packets sys cmp i vs sq = (Inr pks, sq')" "i + length vs \<le> 2 ^ 16"
  shows "\<exists>ps. length ps = length vs \<and> length pks = length vs \<and> (\<forall>k < length vs. item_reads (i + k) (dict_of (vs ! k)) (ps ! k))
    \<and> (\<forall>rest. mavlink_frames (concat pks @ rest) = map (Pair 73) ps @ mavlink_frames rest)"
  using assms
proof (induction vs arbitrary: i sq pks)
  case (Cons v vs)
  obtain pk sq1 pks1 where v: "mission_item_packet sys cmp i (dict_of v) sq = (Inr pk, sq1)"
      "mission_item_packets sys cmp (Suc i) vs sq1 = (Inr pks1, sq')" "pks = pk # pks1"
  proof (cases "is_obj v")
    case True
    with Cons.prems(1) that show thesis
      by (cases "mission_item_packet sys cmp i (dict_of v) sq"; cases "fst (mission_item_packet sys cmp i (dict_of v) sq)")
        (auto split: prod.splits sum.splits simp: map_sum_def)
  qed (use Cons.prems(1) in auto)
  obtain p where p: "item_reads i (dict_of v) p" "\<And>rest. mavlink_frames (pk @ rest) = (73, p) # mavlink_frames rest"
    using mission_item_read [OF v(1)] Cons.prems(2) by auto
  obtain ps where ps: "length ps = length vs" "length pks1 = length vs"
      "\<forall>k < length vs. item_reads (Suc i + k) (dict_of (vs ! k)) (ps ! k)"
      "\<forall>rest. mavlink_frames (concat pks1 @ rest) = map (Pair 73) ps @ mavlink_frames rest"
    using Cons.IH [OF v(2)] Cons.prems(2) by auto
  have "item_reads (i + k) (dict_of ((v # vs) ! k)) ((p # ps) ! k)" if "k < length (v # vs)" for k
    using that p(1) ps(3) by (cases k) auto
  moreover have "mavlink_frames (concat pks @ rest) = map (Pair 73) (p # ps) @ mavlink_frames rest" for rest
    using p(2) [of "concat pks1 @ rest"] ps(4) by (simp add: v(3))
  ultimately show ?case using ps(1,2) v(3) by (intro exI [of _ "p # ps"]) auto
qed simp

text \<open>C29: the packets of a mission upload are read back by the parser of the same file: the stream of clear, count
  and items splits into exactly these messages, the count is that of the items, and each item
  message yields its index, the waypoint command, the coordinates and the altitude
  clamped to 1 .. 120 m, as a single. A coordinate read is what \<open>int(v * 1e7)\<close> leaves, the product rounded to a double
  and truncated, and is off by less than 1e-7 degrees and the error of the two roundings.\<close>

theorem mission_packets_read_back:
  assumes "build_aircraft_mission_packets_for_items sys cmp (JArr vs) sq = (Inr (cl, ct, pks), sq')" "length vs < 2 ^ 16"
  shows "\<exists>pc pn ps. mavlink_frames (cl @ ct @ concat pks) = (45, pc) # (44, pn) # map (Pair 73) ps
    \<and> mission_count_value 44 pn = Some (length vs) \<and> length ps = length vs
    \<and> (\<forall>k < length vs. item_reads k (dict_of (vs ! k)) (ps ! k))"
proof -
  obtain sq1 sq2 where m: "mission_item_packets sys cmp 0 vs sq = (Inr pks, sq1)"
      "build_mission_clear_all sys cmp sq1 = (Inr cl, sq2)" "build_mission_count sys cmp (int (length pks)) sq2 = (Inr ct, sq')"
    using assms(1) by (auto simp: build_aircraft_mission_packets_for_items_def split: if_splits sum.splits prod.splits)
  obtain ps where ps: "length ps = length vs" "length pks = length vs" "\<forall>k < length vs. item_reads k (dict_of (vs ! k)) (ps ! k)"
      "\<forall>rest. mavlink_frames (concat pks @ rest) = map (Pair 73) ps @ mavlink_frames rest"
    using mission_items_read [OF m(1)] assms(2) by auto
  obtain pc where pc: "\<And>rest. mavlink_frames (cl @ rest) = (45, pc) # mavlink_frames rest"
    using fields_parsed [OF m(2) [unfolded build_mission_clear_all_def]] by auto
  obtain pn where pn: "pack_fields [U16 (int (length pks)), low_byte sys, low_byte cmp, U8 0] = Inr pn" "length pn = 5"
      "\<And>rest. mavlink_frames (ct @ rest) = (44, pn) # mavlink_frames rest"
    using fields_parsed [OF m(3) [unfolded build_mission_count_def]] by auto
  have "pack_fields ([U16 (int (length pks))] @ [low_byte sys, low_byte cmp, U8 0]) = Inr pn" using pn(1) by simp
  then obtain t where t: "pn = le16_bytes (word_of_int (int (length pks))) @ t" unfolding pack_fields_append pack_one pack_U16 by blast
  have "unat (word_of_int (int (length pks)) :: 16 word) = length pks"
    using assms(2) ps(2) by (simp add: unat_of_nat take_bit_nat_eq_self)
  with word_at_bytes [of "[]" "word_of_int (int (length pks))" t] t pn(2) ps(2) have "mission_count_value 44 pn = Some (length vs)"
    by (simp add: mission_count_value_def)
  moreover have "mavlink_frames (concat pks) = map (Pair 73) ps"
    using ps(4) [rule_format, of "[]"] by (simp add: mavlink_frames.simps [of "[]"])
  ultimately show ?thesis using pc pn(3) ps(1,3) by auto
qed


text \<open>What a sender of MAVLink 2 puts on the wire: the zeros at the end of a payload are left out, except its first byte\<close>

definition mav2_trim :: "bytes \<Rightarrow> bytes" where
  "mav2_trim p = (case p of [] \<Rightarrow> [] | b # bs \<Rightarrow> b # rev (dropWhile (\<lambda>x. x = 0) (rev bs)))"

lemma mav2_trim_last: "x \<noteq> 0 \<Longrightarrow> h \<noteq> [] \<Longrightarrow> mav2_trim (h @ [x, 0]) = h @ [x]"
  by (cases h) (simp_all add: mav2_trim_def)

text \<open>The answers of a flight controller that follows MAVLink 2 are not read. Of a mission item the mission type 0 is
  left out; the other 37 bytes pass the check of \<open>_mission_item_value\<close>, and \<open>struct.unpack_from\<close> raises, so the
  events of the datagram behind it are lost. Of the acknowledgement that accepts a mission the result 0 is left out as
  well, and two bytes give no event, although the four bytes before do.\<close>

theorem trimmed_answers_unread:
  assumes "build_mission_item_int sys cmp i lat lng alt cur sq = (Inr pk, sq')" and "k \<noteq> 0"
  shows "(\<exists>p. (\<forall>rest. mavlink_frames (pk @ rest) = (73, p) # mavlink_frames rest)
      \<and> mission_events ((73, mav2_trim p) # fs) = ([], Some MavStruct))
    \<and> mission_events ((47, mav2_trim [g, k, 0, 0]) # fs) = mission_events fs
    \<and> mission_events ((47, [g, k, 0, 0]) # fs) = apfst (Cons (EvAck 0)) (mission_events fs)"
proof -
  let ?fs = "\<lambda>x y. [F32 (Fin 0 0), F32 (Fin 0 0), F32 (Fin 0 0), F32 NaN, I32 x, I32 y, F32 (clamp_altitude alt),
      U16 (i mod 2 ^ 16), U16 16, low_byte sys, low_byte cmp, U8 6, low_byte cur]"
  obtain x y where f: "build_fields 73 (?fs x y @ [U8 1] @ [U8 0]) sq = (Inr pk, sq')"
    using assms(1) unfolding build_mission_item_int_def with_position_def by (auto split: sum.splits)
  obtain p where p: "pack_fields (?fs x y @ [U8 1] @ [U8 0]) = Inr p" "length p = 38"
      "\<And>rest. mavlink_frames (pk @ rest) = (73, p) # mavlink_frames rest"
    using fields_parsed [OF f] by auto
  from p(1) obtain h where h: "p = h @ [1, 0]" unfolding pack_fields_append pack_one by auto
  then have "mav2_trim p = h @ [1]" using p(2) by (auto intro: mav2_trim_last)
  then have "mission_events ((73, mav2_trim p) # fs) = ([], Some MavStruct)"
    using p(2) h by (simp add: mission_item_value_def mission_request_seq_def mission_ack_type_def mission_count_value_def)
  with p(3) assms(2) show ?thesis
    by (auto simp: mav2_trim_def mission_request_seq_def mission_ack_type_def mission_count_value_def mission_item_value_def)
qed

subsection \<open>Witnesses\<close>

lemma double_samples:
  "double_of 0 0 = (0, 2 ^ 54)" "double_of 1 0 = (2 ^ 52, 2 ^ 52)"
  by code_simp+

lemma f32_zero: "f32_word (Fin 0 0) = Some 0"
  by (simp add: f32_word_def f32_bits_def ratio_def double_samples)

lemma f32_one: "f32_word (Fin 1 0) = Some 0x3F800000"
proof -
  have "1 / 2 powr (- 23) = (8388608 :: real)" by (simp add: powr_minus_divide)
  then have "f32_bits 1 = 126 * 2 ^ 23 + py_round 8388608" by (simp add: f32_bits_def)
  then have "f32_bits 1 = 0x3F800000" by (simp add: py_round_def)
  then show ?thesis by (simp add: f32_word_def ratio_def double_samples)
qed

definition sample_waypoint :: pydict where
  "sample_waypoint = [(''lat'', JInt 32), (''lng'', JInt 118), (''alt'', JInt 0)]"

lemma sample_numbers: "norm_dec 32 0 = Fin 32 0" "norm_dec 118 0 = Fin 118 0" "norm_dec 0 0 = Fin 0 0"
  by code_simp+

lemma sample_scaled: "int_scaled (Fin 32 0) 10000000 = Inr 320000000" "int_scaled (Fin 118 0) 10000000 = Inr 1180000000"
  by code_simp+

lemma sample_item: "\<exists>pk. build_mission_item_int 1 1 0 (Fin 32 0) (Fin 118 0) (Fin 0 0) 1 sq = (Inr pk, sq + 1)"
  by (simp add: build_mission_item_int_def with_position_def sample_scaled dec_val_def build_fields_def f32_zero f32_one
      f32_word_def [of NaN] clamp_altitude_def low_byte_def build_packet_def crc_extras_def Let_def)

theorem mission_packets_read_back_witness:
  "\<exists>cl ct pks sq pc pn ps. build_aircraft_mission_packets_for_items 1 1 (JArr [JObj sample_waypoint]) 0 = (Inr (cl, ct, pks), sq)
     \<and> mavlink_frames (cl @ ct @ concat pks) = (45, pc) # (44, pn) # map (Pair 73) ps \<and> mission_count_value 44 pn = Some 1"
proof -
  obtain pk where "build_mission_item_int 1 1 0 (Fin 32 0) (Fin 118 0) (Fin 0 0) 1 0 = (Inr pk, 0 + 1)" using sample_item by blast
  then have "mission_item_packets 1 1 0 [JObj sample_waypoint] 0 = (Inr [pk], 1)"
    by (simp add: mission_item_packet_def item_number_def sample_waypoint_def sample_numbers invalid_target_def near_zero_def
        dec_val_def)
  then obtain cl ct sq where b: "build_aircraft_mission_packets_for_items 1 1 (JArr [JObj sample_waypoint]) 0 = (Inr (cl, ct, [pk]), sq)"
    by (simp add: build_aircraft_mission_packets_for_items_def build_mission_clear_all_def build_mission_count_def build_fields_def
        low_byte_def build_packet_def crc_extras_def Let_def)
  from mission_packets_read_back [OF b] b show ?thesis by auto
qed

theorem trimmed_answers_unread_witness:
  "\<exists>pk p. build_mission_item_int 1 1 0 (Fin 32 0) (Fin 118 0) (Fin 0 0) 1 0 = (Inr pk, 1)
     \<and> mavlink_frames pk = [(73, p)] \<and> mission_events [(73, mav2_trim p)] = ([], Some MavStruct)
     \<and> mission_events [(47, mav2_trim [255, 190, 0, 0])] = ([], None)"
proof -
  obtain pk where b: "build_mission_item_int 1 1 0 (Fin 32 0) (Fin 118 0) (Fin 0 0) 1 0 = (Inr pk, 0 + 1)" using sample_item by blast
  have "(190 :: byte) \<noteq> 0" by simp
  from trimmed_answers_unread [OF b this, of "[]" 255] obtain p where p: "\<forall>rest. mavlink_frames (pk @ rest) = (73, p) # mavlink_frames rest"
      "mission_events [(73, mav2_trim p)] = ([], Some MavStruct)" "mission_events [(47, mav2_trim [255, 190, 0, 0])] = ([], None)" by auto
  have "mavlink_frames pk = [(73, p)]" using p(1) [rule_format, of "[]"] by (simp add: mavlink_frames.simps [of "[]"])
  with b p(2,3) show ?thesis by auto
qed

end
