(* ===== verification/CommandRouter.thy ===== *)
theory CommandRouter
  imports SlaveTransport
begin

text \<open>
  \<open>rdk_agent/command_router.py\<close>: a message of the cloud becomes a typed command, and the router hands it
  to the one vehicle it is for.
\<close>

datatype router_exc = RouterType string | RouterValue string | RouterRejected string

subsection \<open>Normalisation\<close>

definition flatten_value :: "json \<Rightarrow> json" where
  "flatten_value v = (case v of JObj d \<Rightarrow> if has d ''value'' then fld d ''value'' else v | _ \<Rightarrow> v)"

definition flatten :: "json \<Rightarrow> router_exc + pydict" where
  "flatten raw = (case raw of
     JObj d \<Rightarrow> Inr (map (\<lambda>(k, v). (k, flatten_value v)) d)
   | _ \<Rightarrow> Inl (RouterType ''cloud command must be an object''))"

definition none_or_empty :: "json \<Rightarrow> bool" where
  "none_or_empty v \<longleftrightarrow> v = JNull \<or> v = JStr []"

text \<open>\<open>float(v)\<close>; \<open>_timestamp\<close> reads milliseconds above \<open>10 ^ 10\<close>\<close>

definition router_float :: "json \<Rightarrow> router_exc + pyfloat" where
  "router_float v = (case json_float v of Some (JFloat x) \<Rightarrow> Inr x | _ \<Rightarrow> Inl (RouterValue ''could not convert to float''))"

definition thousandth :: "pyfloat \<Rightarrow> pyfloat" where
  "thousandth x = (case x of Fin m e \<Rightarrow> norm_dec m (e - 3) | y \<Rightarrow> y)"

definition above_ten_billion :: "pyfloat \<Rightarrow> bool" where
  "above_ten_billion x = (case x of Fin m e \<Rightarrow> 10000000000 < dec_val m e | PInf \<Rightarrow> True | _ \<Rightarrow> False)"

definition timestamp_of :: "json \<Rightarrow> pyfloat \<Rightarrow> router_exc + pyfloat" where
  "timestamp_of v fallback =
     (if none_or_empty v then Inr fallback
      else map_sum id (\<lambda>x. if above_ten_billion x then thousandth x else x) (router_float v))"

text \<open>\<open>d.get(k1, d.get(k2, ...))\<close>\<close>

fun get_first :: "pydict \<Rightarrow> string list \<Rightarrow> json \<Rightarrow> json" where
  "get_first d [] v = v"
| "get_first d (k # ks) v = (if has d k then fld d k else get_first d ks v)"

text \<open>\<open>d.update(d')\<close>\<close>

definition dict_update :: "pydict \<Rightarrow> pydict \<Rightarrow> pydict" where
  "dict_update d d' = fold (\<lambda>(k, v). AList.update k v) d' d"

text \<open>A command that is itself a JSON object is an envelope: its keys come first, those beside it win\<close>

definition open_envelope :: "pydict \<Rightarrow> pydict" where
  "open_envelope d =
     (case get_first d [''command'', ''action'', ''last_command''] JNull of
        JStr t \<Rightarrow>
          if starts_with ''{'' (py_lstrip t) then
            (case loads t of Some (JObj e) \<Rightarrow> dict_update e (filter (\<lambda>(k, v). k \<noteq> ''command'') d) | _ \<Rightarrow> d)
          else d
      | _ \<Rightarrow> d)"

definition norm_text :: "json \<Rightarrow> string" where
  "norm_text v = py_lower (py_strip (py_str v))"

definition or_text :: "json \<Rightarrow> string \<Rightarrow> json" where
  "or_text v t = (if json_truthy v then v else JStr t)"

text \<open>The vehicle and the action of an action text; \<open>network_\<close> sets a mode as well\<close>

definition target_action :: "string \<Rightarrow> string \<Rightarrow> string \<times> string" where
  "target_action action explicit =
     (if action \<in> {''network_phone'', ''network_aircraft''} then (''system'', ''network_mode'')
      else if starts_with ''aircraft_2_'' action then (''aircraft_2'', drop 11 action)
      else if starts_with ''aircraft_1_'' action then (''aircraft_1'', drop 11 action)
      else if starts_with ''aircraft_'' action then
        (if explicit \<in> {''aircraft'', ''aircraft_1'', ''aircraft_2''} then explicit else ''aircraft'', drop 9 action)
      else (if explicit = [] then ''rover'' else explicit, action))"

definition excluded_keys :: "string list" where
  "excluded_keys = [''command_id'', ''source_timestamp'', ''timestamp'', ''time'', ''target'', ''action'', ''command'',
     ''last_command'', ''payload'']"

fun numeric_keys :: "string list \<Rightarrow> pydict \<Rightarrow> router_exc + pydict" where
  "numeric_keys [] d = Inr d"
| "numeric_keys (k # ks) d =
     (if \<not> has d k \<or> none_or_empty (fld d k) then numeric_keys ks d
      else case router_float (fld d k) of Inl e \<Rightarrow> Inl e | Inr x \<Rightarrow> numeric_keys ks (AList.update k (JFloat x) d))"

definition router_targets :: "string list" where
  "router_targets = [''rover'', ''aircraft'', ''aircraft_1'', ''aircraft_2'', ''system'']"

text \<open>\<open>fresh\<close> is \<open>uuid.uuid4()\<close>, \<open>now\<close> the clock\<close>

definition from_cloud :: "uuid \<Rightarrow> pyfloat \<Rightarrow> json \<Rightarrow> router_exc + cloud_command" where
  "from_cloud fresh now raw =
     (case flatten raw of
        Inl e \<Rightarrow> Inl e
      | Inr d0 \<Rightarrow>
          let d = open_envelope d0;
              p0 = (case fld d ''payload'' of JObj p \<Rightarrow> p | _ \<Rightarrow> []);
              action = norm_text (or_text (get_first d [''action'', ''command'', ''last_command''] (JStr ''noop'')) ''noop'');
              explicit = norm_text (or_text (get_or d ''target'' (JStr [])) []);
              (target, act) = target_action action explicit;
              p1 = (if action \<in> {''network_phone'', ''network_aircraft''} then AList.update ''mode'' (JStr (drop 8 action)) p0 else p0)
          in if target \<notin> set router_targets then Inl (RouterValue ''target must be rover, aircraft, aircraft_1, aircraft_2, or system'')
             else if act = [] then Inl (RouterValue ''action must not be empty'')
             else (case numeric_keys [''target_lat'', ''target_lng'', ''target_speed'']
                     (dict_update p1 (filter (\<lambda>(k, v). k \<notin> set excluded_keys) d)) of
                 Inl e \<Rightarrow> Inl e
               | Inr p \<Rightarrow>
                   (case (if json_truthy (fld d ''command_id'') then uuid_parse (py_str (fld d ''command_id'')) else Some fresh) of
                      None \<Rightarrow> Inl (RouterValue ''badly formed hexadecimal UUID string'')
                    | Some u \<Rightarrow>
                        (case timestamp_of (get_first d [''source_timestamp'', ''timestamp'', ''time''] JNull) now of
                           Inl e \<Rightarrow> Inl e
                         | Inr ts \<Rightarrow> Inr \<lparr>cc_command_id = u, cc_timestamp = ts, cc_target = target, cc_action = act, cc_payload = p\<rparr>))))"

subsection \<open>Routing\<close>

record router =
  ro_has_slave :: bool
  ro_has_system :: bool
  ro_max_age :: real

definition router_init :: "bool \<Rightarrow> bool \<Rightarrow> real \<Rightarrow> router_exc + router" where
  "router_init slave system max_age =
     (if max_age \<le> 0 then Inl (RouterValue ''max_age_seconds must be positive'')
      else Inr \<lparr>ro_has_slave = slave, ro_has_system = system, ro_max_age = max_age\<rparr>)"

text \<open>The executor that \<open>route\<close> calls, with the command it passes\<close>

datatype destination = ToAircraft cloud_command | ToSlave cloud_command | ToSystem cloud_command | ToRover cloud_command

text \<open>\<open>age > max\<close> and \<open>age < - max\<close>; both are False for a NaN\<close>

definition too_old :: "real \<Rightarrow> real \<Rightarrow> pyfloat \<Rightarrow> bool" where
  "too_old max_age now ts = (case ts of Fin m e \<Rightarrow> max_age < now - dec_val m e | NInf \<Rightarrow> True | _ \<Rightarrow> False)"

definition too_new :: "real \<Rightarrow> real \<Rightarrow> pyfloat \<Rightarrow> bool" where
  "too_new max_age now ts = (case ts of Fin m e \<Rightarrow> now - dec_val m e < - max_age | PInf \<Rightarrow> True | _ \<Rightarrow> False)"

definition route :: "router \<Rightarrow> real \<Rightarrow> string \<Rightarrow> cloud_command \<Rightarrow> router_exc + destination" where
  "route r now optical cmd =
     (if too_old (ro_max_age r) now (cc_timestamp cmd) then Inl (RouterRejected ''stale command'')
      else if too_new (ro_max_age r) now (cc_timestamp cmd) then Inl (RouterRejected ''command timestamp is too far in the future'')
      else if cc_target cmd \<in> {''aircraft'', ''aircraft_1''} then
        (if py_lower (py_strip optical) \<noteq> ''locked'' then Inl (RouterRejected ''aircraft command rejected: optical link blocked'')
         else Inr (ToAircraft (cmd\<lparr>cc_target := ''aircraft''\<rparr>)))
      else if cc_target cmd = ''aircraft_2'' then
        (if \<not> ro_has_slave r then Inl (RouterRejected ''aircraft_2 commands are disabled'') else Inr (ToSlave cmd))
      else if cc_target cmd = ''system'' then
        (if \<not> ro_has_system r then Inl (RouterRejected ''system commands are disabled'') else Inr (ToSystem cmd))
      else Inr (ToRover cmd))"

definition submit_mission :: "router \<Rightarrow> real \<Rightarrow> string \<Rightarrow> uuid \<Rightarrow> pyfloat \<Rightarrow> json \<Rightarrow> router_exc + destination" where
  "submit_mission r now optical u ts p =
     (case p of
        JObj d \<Rightarrow> route r now optical \<lparr>cc_command_id = u, cc_timestamp = ts, cc_target = ''aircraft'', cc_action = ''mission'', cc_payload = d\<rparr>
      | _ \<Rightarrow> Inl (RouterType ''mission payload must be an object''))"

end
