(* ===== verification/CommandRouterProps.thy ===== *)
theory CommandRouterProps
  imports CommandRouter
begin

text \<open>
  A cloud command reaches only the vehicle it names, and an aircraft only over a locked optical link; a
  timestamp that is not a number is never stale.
\<close>

lemma from_cloud_target:
  assumes "from_cloud u t raw = Inr c"
  shows "cc_target c \<in> set router_targets \<and> cc_action c \<noteq> []"
proof -
  obtain d0 where f: "flatten raw = Inr d0" using assms by (cases "flatten raw") (simp_all add: from_cloud_def)
  let ?action = "norm_text (or_text (get_first (open_envelope d0) [''action'', ''command'', ''last_command''] (JStr ''noop'')) ''noop'')"
  let ?explicit = "norm_text (or_text (get_or (open_envelope d0) ''target'' (JStr [])) [])"
  obtain target act where ta: "target_action ?action ?explicit = (target, act)" by (cases "target_action ?action ?explicit")
  have "target \<in> set router_targets" "act \<noteq> []"
    using assms unfolding from_cloud_def f Let_def sum.case ta prod.case by (auto simp del: get_first.simps numeric_keys.simps split: if_split_asm)
  then show ?thesis
    using assms unfolding from_cloud_def f Let_def sum.case ta prod.case
    by (auto simp del: get_first.simps numeric_keys.simps split: sum.split_asm option.split_asm)
qed

lemma fresh_when_in_age:
  "\<not> too_old m now (Fin k e) \<Longrightarrow> \<not> too_new m now (Fin k e) \<Longrightarrow> \<bar>now - dec_val k e\<bar> \<le> m"
  by (simp add: too_old_def too_new_def abs_le_iff)

definition meant_for :: "router \<Rightarrow> string \<Rightarrow> cloud_command \<Rightarrow> destination \<Rightarrow> bool" where
  "meant_for r optical c d = (case d of
     ToAircraft c' \<Rightarrow> cc_target c \<in> {''aircraft'', ''aircraft_1''} \<and> py_lower (py_strip optical) = ''locked''
       \<and> c' = c\<lparr>cc_target := ''aircraft''\<rparr>
   | ToSlave c' \<Rightarrow> cc_target c = ''aircraft_2'' \<and> ro_has_slave r \<and> c' = c
   | ToSystem c' \<Rightarrow> cc_target c = ''system'' \<and> ro_has_system r \<and> c' = c
   | ToRover c' \<Rightarrow> cc_target c = ''rover'' \<and> c' = c)"

lemma route_meant:
  assumes "route r now optical c = Inr d" and "cc_target c \<in> set router_targets"
  shows "meant_for r optical c d"
  using assms by (auto simp: route_def meant_for_def router_targets_def split: if_splits)

lemma route_in_age:
  assumes "route r now optical c = Inr d" and "cc_timestamp c = Fin m e"
  shows "\<bar>now - dec_val m e\<bar> \<le> ro_max_age r"
  using assms by (auto intro!: fresh_when_in_age simp: route_def split: if_splits)

text \<open>A message of the cloud that is accepted reaches exactly the executor of the vehicle it names, unchanged but
  for the alias \<open>aircraft_1\<close>: an aircraft only while the optical link is locked, the second aircraft and the
  system only when they are configured; the action is not empty, and a numeric timestamp lies within
  \<open>max_age_seconds\<close> of the clock on either side.\<close>

theorem cloud_command_isolated:
  assumes "from_cloud u t raw = Inr c" and "route r now optical c = Inr d"
  shows "meant_for r optical c d \<and> cc_action c \<noteq> []
    \<and> (\<forall>m e. cc_timestamp c = Fin m e \<longrightarrow> \<bar>now - dec_val m e\<bar> \<le> ro_max_age r)"
  using assms by (simp add: route_meant from_cloud_target route_in_age)

definition router_example :: json where
  "router_example = JObj [(''command'', JStr ''Aircraft_1_LAND''), (''timestamp'', JInt 5), (''speed'', JInt 2)]"

definition router_example_id :: uuid where
  "router_example_id = 7"

definition router_example_command :: cloud_command where
  "router_example_command = \<lparr>cc_command_id = router_example_id, cc_timestamp = Fin 5 0, cc_target = ''aircraft_1'',
     cc_action = ''land'', cc_payload = [(''speed'', JInt 2)]\<rparr>"

lemma router_example_parsed: "from_cloud router_example_id NaN router_example = Inr router_example_command"
  by code_simp

theorem cloud_command_isolated_witness:
  "meant_for \<lparr>ro_has_slave = False, ro_has_system = False, ro_max_age = 10\<rparr> ''locked'' router_example_command
     (ToAircraft (router_example_command\<lparr>cc_target := ''aircraft''\<rparr>))"
proof -
  have "py_lower (py_strip ''locked'') = ''locked''" by code_simp
  then have "route \<lparr>ro_has_slave = False, ro_has_system = False, ro_max_age = 10\<rparr> 6 ''locked'' router_example_command
      = Inr (ToAircraft (router_example_command\<lparr>cc_target := ''aircraft''\<rparr>))"
    by (simp add: route_def router_example_command_def too_old_def too_new_def dec_val_def)
  from cloud_command_isolated [OF router_example_parsed this] show ?thesis by simp
qed

text \<open>\<open>float\<close> reads the timestamp text \<open>nan\<close>, and both age comparisons are False for it: the router hands such
  a flight command to the aircraft at every later time, whatever \<open>max_age_seconds\<close> is.\<close>

theorem nan_timestamp_never_stale:
  "\<exists>c. from_cloud u now (JObj [(''action'', JStr ''aircraft_arm''), (''timestamp'', JStr ''nan'')]) = Inr c
     \<and> (\<forall>r later. route r later ''locked'' c = Inr (ToAircraft c))"
proof -
  have l: "py_lower (py_strip ''locked'') = ''locked''" by code_simp
  have n: "norm_text (JStr ''aircraft_arm'') = ''aircraft_arm''" "norm_text (JStr []) = []" "float_text ''nan'' = Some NaN"
    "starts_with ''{'' (py_lstrip ''aircraft_arm'') = False" "target_action ''aircraft_arm'' [] = (''aircraft'', ''arm'')"
    by code_simp+
  show ?thesis
    by (simp add: from_cloud_def flatten_def flatten_value_def open_envelope_def n l or_text_def get_or_def fld_def has_def
        none_or_empty_def timestamp_of_def router_float_def above_ten_billion_def router_targets_def route_def too_old_def too_new_def
        dict_update_def excluded_keys_def Let_def)
qed

end
