(* ===== verification/AircraftTransport.thy ===== *)
theory AircraftTransport
  imports AircraftLink MavCommands Auth
begin

text \<open>
  \<open>rdk_agent/aircraft_transport.py\<close>: the socket of the rover's aircraft link. One \<open>pump\<close> receives what
  arrived, follows the optical state the aircraft reports, and sends what the link has due while the
  state is \<open>locked\<close>; a failed socket is closed and opened again after a growing delay.

  The environment is part of the state: whether each coming \<open>sendto\<close>, each save of the authentication
  store and each opening of a socket succeeds. An exhausted list stands for successes. A failed save is
  an OSError of the store. Error texts keep their fixed part and leave out the text of the exception.
\<close>

datatype at_exc = AtAttribute | AtOs | AtSession session_exc | AtWrap | AtFrame frame_exc | AtPy pyexc | AtMav mavcmd_exc
  | AtLink al_exc

text \<open>What the next \<open>recvfrom\<close> gives: a datagram comes with its sender and with what the packet observer makes
  of it (an error text, or whether it took the packet; False also when there is no observer)\<close>

datatype arrival = WouldBlock | RecvFails | Datagram bytes string int "string + bool"

record at_config =
  tp_peer :: "string \<times> int"
  tp_command_peer :: "string \<times> int"
  tp_status_timeout :: real
  tp_backoff :: real
  tp_max_backoff :: real
  tp_persistent :: bool
  tp_plaintext :: bool

text \<open>The checks of the constructor; \<open>peer\<close> and \<open>psk\<close> are given\<close>

definition at_config_init :: "at_config \<Rightarrow> pyexc + at_config" where
  "at_config_init c =
     (if tp_status_timeout c \<le> 0 then Inl (ValueError ''status_timeout must be positive'')
      else if tp_backoff c \<le> 0 \<or> tp_max_backoff c < tp_backoff c then Inl (ValueError ''invalid retry backoff'')
      else if fst (tp_command_peer c) \<noteq> fst (tp_peer c) then Inl (ValueError ''command peer host must match aircraft peer host'')
      else Inr c)"

record aircraft_transport =
  at_link :: aircraft_link
  at_auth :: auth_session
  at_open :: bool
  at_optical :: string
  at_detail :: string
  at_locked_at :: "real option"
  at_error :: string
  at_error_transaction :: string
  at_failures :: nat
  at_reopen_at :: real
  at_revision :: nat
  at_remote_stage :: string
  at_remote_detail :: string
  at_rx_packets :: nat
  at_rx_wrong_peer :: nat
  at_rx_auth_errors :: nat
  at_rx_frame_errors :: nat
  at_last_remote :: string
  at_bootstrap_at :: real
  at_bootstrap_sequence :: nat
  at_decoder :: bytes
  at_plain :: bytes
  at_wrap_seq :: byte
  at_mav_seq :: byte
  at_sent :: "(bytes \<times> (string \<times> int)) list"
  at_sends_ok :: "bool list"
  at_saves_ok :: "bool list"
  at_opens_ok :: "bool list"

definition aircraft_transport_init :: "aircraft_link \<Rightarrow> auth_session \<Rightarrow> byte \<Rightarrow> byte \<Rightarrow> bool list \<Rightarrow> bool list \<Rightarrow> bool list \<Rightarrow>
    aircraft_transport" where
  "aircraft_transport_init link auth wseq mseq sends saves opens =
     \<lparr>at_link = link, at_auth = auth, at_open = True, at_optical = ''blocked'', at_detail = ''awaiting_status'',
      at_locked_at = None, at_error = [], at_error_transaction = [], at_failures = 0, at_reopen_at = 0, at_revision = 0,
      at_remote_stage = [], at_remote_detail = [], at_rx_packets = 0, at_rx_wrong_peer = 0, at_rx_auth_errors = 0,
      at_rx_frame_errors = 0, at_last_remote = [], at_bootstrap_at = 0, at_bootstrap_sequence = 0, at_decoder = [],
      at_plain = [], at_wrap_seq = wseq, at_mav_seq = mseq, at_sent = [], at_sends_ok = sends, at_saves_ok = saves,
      at_opens_ok = opens\<rparr>"

fun next_outcome :: "bool list \<Rightarrow> bool \<times> bool list" where
  "next_outcome [] = (True, [])"
| "next_outcome (b # bs) = (b, bs)"

subsection \<open>The optical state\<close>

definition at_fail :: "string \<Rightarrow> aircraft_transport \<Rightarrow> aircraft_transport" where
  "at_fail err s = s\<lparr>at_link := snd (fail_active ''link_blocked'' err None (at_link s))\<rparr>"

definition at_block :: "string \<Rightarrow> aircraft_transport \<Rightarrow> aircraft_transport" where
  "at_block detail s =
     (let d = (if detail = [] then ''optical link blocked'' else detail)
      in at_fail d (s\<lparr>at_optical := ''blocked'', at_detail := d\<rparr>))"

definition at_lock :: "string \<Rightarrow> real \<Rightarrow> aircraft_transport \<Rightarrow> aircraft_transport" where
  "at_lock detail now s = s\<lparr>at_optical := ''locked'', at_detail := detail, at_locked_at := Some now\<rparr>"

definition expire_status :: "at_config \<Rightarrow> real \<Rightarrow> aircraft_transport \<Rightarrow> aircraft_transport" where
  "expire_status c now s =
     (case at_locked_at s of
        Some t \<Rightarrow> if at_optical s = ''locked'' \<and> tp_status_timeout c < now - t then at_block ''status_timeout'' s else s
      | None \<Rightarrow> s)"

text \<open>\<open>optical_state()\<close> expires the status at the transport's own clock\<close>

definition at_optical_state :: "at_config \<Rightarrow> real \<Rightarrow> aircraft_transport \<Rightarrow> string \<times> aircraft_transport" where
  "at_optical_state c now s = (let s' = expire_status c now s in (at_optical s', s'))"

subsection \<open>The socket\<close>

definition schedule_reopen :: "at_config \<Rightarrow> real \<Rightarrow> string \<Rightarrow> aircraft_transport \<Rightarrow> aircraft_transport" where
  "schedule_reopen c now err s =
     (let n = at_failures s + 1
      in s\<lparr>at_open := False, at_failures := n,
        at_reopen_at := now + min (tp_max_backoff c) (tp_backoff c * 2 ^ (n - 1)),
        at_error := err, at_revision := at_revision s + 1,
        at_error_transaction := (case al_active (at_link s) of None \<Rightarrow> [] | Some u \<Rightarrow> uuid_str u)\<rparr>)"

definition at_close :: "aircraft_transport \<Rightarrow> aircraft_transport" where
  "at_close s = s\<lparr>at_open := False\<rparr>"

definition ensure_socket :: "at_config \<Rightarrow> real \<Rightarrow> aircraft_transport \<Rightarrow> bool \<times> aircraft_transport" where
  "ensure_socket c now s =
     (if at_open s then (True, s)
      else if now < at_reopen_at s then (False, s)
      else (case next_outcome (at_opens_ok s) of (ok, rest) \<Rightarrow>
        let s1 = s\<lparr>at_opens_ok := rest\<rparr> in
        if ok then (True, s1\<lparr>at_open := True, at_failures := 0, at_error := [], at_error_transaction := [],
          at_revision := at_revision s1 + 1\<rparr>)
        else (False, schedule_reopen c now ''udp reopen failed'' s1)))"

text \<open>\<open>self._socket.sendto(wire, peer)\<close>; the attribute of None raises\<close>

definition at_sendto :: "bytes \<Rightarrow> string \<times> int \<Rightarrow> aircraft_transport \<Rightarrow> (at_exc + unit) \<times> aircraft_transport" where
  "at_sendto wire peer s =
     (if \<not> at_open s then (Inl AtAttribute, s)
      else (case next_outcome (at_sends_ok s) of (ok, rest) \<Rightarrow>
        if ok then (Inr (), s\<lparr>at_sends_ok := rest, at_sent := at_sent s @ [(wire, peer)]\<rparr>)
        else (Inl AtOs, s\<lparr>at_sends_ok := rest\<rparr>)))"

text \<open>Without a store nothing is saved\<close>

definition next_save :: "at_config \<Rightarrow> aircraft_transport \<Rightarrow> bool \<times> aircraft_transport" where
  "next_save c s =
     (if tp_persistent c then (case next_outcome (at_saves_ok s) of (ok, rest) \<Rightarrow> (ok, s\<lparr>at_saves_ok := rest\<rparr>)) else (True, s))"

text \<open>The store is saved only after the codec succeeded\<close>

definition at_seal :: "at_config \<Rightarrow> bytes \<Rightarrow> aircraft_transport \<Rightarrow> (at_exc + bytes) \<times> aircraft_transport" where
  "at_seal c p s =
     (case fst (auth_seal (s_codec (at_auth s)) p) of
        Inl e \<Rightarrow> (case session_seal True (at_auth s) p of (r, a) \<Rightarrow> (map_sum AtSession id r, s\<lparr>at_auth := a\<rparr>))
      | Inr d \<Rightarrow> (case next_save c s of (ok, s1) \<Rightarrow>
          (case session_seal ok (at_auth s1) p of (r, a) \<Rightarrow> (map_sum AtSession id r, s1\<lparr>at_auth := a\<rparr>))))"

definition at_unseal :: "at_config \<Rightarrow> bytes \<Rightarrow> aircraft_transport \<Rightarrow> (at_exc + bytes) \<times> aircraft_transport" where
  "at_unseal c d s =
     (case fst (auth_open (s_codec (at_auth s)) d) of
        Inl e \<Rightarrow> (case session_open True (at_auth s) d of (r, a) \<Rightarrow> (map_sum AtSession fst r, s\<lparr>at_auth := a\<rparr>))
      | Inr x \<Rightarrow> (case next_save c s of (ok, s1) \<Rightarrow>
          (case session_open ok (at_auth s1) d of (r, a) \<Rightarrow> (map_sum AtSession fst r, s1\<lparr>at_auth := a\<rparr>))))"

text \<open>One wire, to the downlink peer only\<close>

definition send_command_payload :: "at_config \<Rightarrow> bytes \<Rightarrow> aircraft_transport \<Rightarrow> (at_exc + unit) \<times> aircraft_transport" where
  "send_command_payload c p s =
     (if tp_plaintext c then
        (case wrap_liot_frame (at_wrap_seq s) p 254 191 of
           None \<Rightarrow> (Inl AtWrap, s)
         | Some (wire, sq) \<Rightarrow> at_sendto wire (tp_peer c) (s\<lparr>at_wrap_seq := sq\<rparr>))
      else (case at_seal c p s of (Inl e, s1) \<Rightarrow> (Inl e, s1) | (Inr wire, s1) \<Rightarrow> at_sendto wire (tp_peer c) s1))"

definition send_frame :: "at_config \<Rightarrow> (pyexc + frame) \<Rightarrow> aircraft_transport \<Rightarrow> (at_exc + unit) \<times> aircraft_transport" where
  "send_frame c fr s = (case fr of
     Inl e \<Rightarrow> (Inl (AtPy e), s)
   | Inr f \<Rightarrow> (case encode_frame f default_max_payload of
       Inl e \<Rightarrow> (Inl (AtFrame e), s)
     | Inr w \<Rightarrow> send_command_payload c w s))"

text \<open>\<open>except OSError\<close>: the socket is given up; anything else goes on\<close>

definition on_os_error :: "at_config \<Rightarrow> real \<Rightarrow> string \<Rightarrow> (at_exc + unit) \<times> aircraft_transport \<Rightarrow>
    (at_exc + unit) \<times> aircraft_transport" where
  "on_os_error c now text rs = (case rs of
     (Inl e, s) \<Rightarrow> if e = AtOs \<or> e = AtSession SaveError then (Inr (), schedule_reopen c now text s) else (Inl e, s)
   | (Inr u, s) \<Rightarrow> (Inr u, s))"

subsection \<open>Frames from the aircraft\<close>

definition remote_stages :: "string list" where
  "remote_stages = [''MISSION_STAGED'', ''VERIFIED'', ''COMPLETED'', ''FAILED'', ''UNSAFE_RESIDUAL'']"

definition process_status :: "pydict \<Rightarrow> real \<Rightarrow> aircraft_transport \<Rightarrow> aircraft_transport" where
  "process_status p now s =
     (let state = py_lower (py_strip (py_str (fld p ''state'')));
          detail = take 80 (py_str (get_or p ''detail'' (fld p ''state'')))
      in if state \<in> {''locked'', ''ready'', ''online''} then at_lock detail now s
         else if py_upper state \<in> set remote_stages then
           s\<lparr>at_remote_stage := py_upper state, at_remote_detail := take 256 (py_str (get_or p ''detail'' (JStr []))),
             at_revision := at_revision s + 1\<rparr>
         else at_block detail s)"

definition process_frame :: "at_config \<Rightarrow> real \<Rightarrow> frame \<Rightarrow> aircraft_transport \<Rightarrow> (at_exc + unit) \<times> aircraft_transport" where
  "process_frame c now f s =
     (if f_type f = AUTH_CHALLENGE then
        on_os_error c now ''challenge response failed'' (send_frame c (make_frame AUTH_RESPONSE 0 (int (f_sequence f)) 0
          (JObj [(''challenge'', fld (f_payload f) ''challenge'')])) s)
      else if f_type f \<in> {ACK, NACK} then (Inr (), s\<lparr>at_link := snd (accept_response f (at_link s))\<rparr>)
      else if f_type f = LINK_BLOCKED then (Inr (), at_block (take 80 (py_str (fld (f_payload f) ''reason''))) s)
      else if f_type f = STATUS then (Inr (), process_status (f_payload f) now s)
      else (Inr (), s))"

fun process_frames :: "at_config \<Rightarrow> real \<Rightarrow> frame list \<Rightarrow> aircraft_transport \<Rightarrow> (at_exc + unit) \<times> aircraft_transport" where
  "process_frames c now [] s = (Inr (), s)"
| "process_frames c now (f # fs) s = (case process_frame c now f s of
     (Inl e, s') \<Rightarrow> (Inl e, s') | (Inr u, s') \<Rightarrow> process_frames c now fs s')"

definition is_auth_error :: "at_exc \<Rightarrow> bool" where
  "is_auth_error e \<longleftrightarrow> (case e of AtSession (CodecExc (AuthError t)) \<Rightarrow> True | AtSession (CodecExc (ReplayError t)) \<Rightarrow> True | _ \<Rightarrow> False)"

definition process_envelope :: "at_config \<Rightarrow> real \<Rightarrow> bytes \<Rightarrow> aircraft_transport \<Rightarrow> (at_exc + unit) \<times> aircraft_transport" where
  "process_envelope c now d s =
     (case at_unseal c d s of
        (Inl e, s1) \<Rightarrow> if is_auth_error e then (Inr (), s1\<lparr>at_rx_auth_errors := at_rx_auth_errors s1 + 1\<rparr>) else (Inl e, s1)
      | (Inr data, s1) \<Rightarrow> (case decode_frame data default_max_payload of
          Inl e \<Rightarrow> (Inr (), s1\<lparr>at_rx_frame_errors := at_rx_frame_errors s1 + 1\<rparr>)
        | Inr f \<Rightarrow> process_frame c now f s1))"

fun process_envelopes :: "at_config \<Rightarrow> real \<Rightarrow> bytes list \<Rightarrow> aircraft_transport \<Rightarrow> (at_exc + unit) \<times> aircraft_transport" where
  "process_envelopes c now [] s = (Inr (), s)"
| "process_envelopes c now (d # ds) s = (case process_envelope c now d s of
     (Inl e, s') \<Rightarrow> (Inl e, s') | (Inr u, s') \<Rightarrow> process_envelopes c now ds s')"

subsection \<open>Receiving\<close>

text \<open>The decoders return a list, so an exception of the decoder processes no frame of the datagram.\<close>

definition feed_plain :: "at_config \<Rightarrow> real \<Rightarrow> bytes \<Rightarrow> aircraft_transport \<Rightarrow> (at_exc + unit) \<times> aircraft_transport" where
  "feed_plain c now d s =
     (case decoder_feed 8192 (at_plain s) d of
        (b, Inl e) \<Rightarrow> (Inl (AtPy e), s\<lparr>at_plain := b\<rparr>)
      | (b, Inr fs) \<Rightarrow> process_frames c now fs (s\<lparr>at_plain := b\<rparr>))"

definition feed_sealed :: "at_config \<Rightarrow> real \<Rightarrow> bytes \<Rightarrow> aircraft_transport \<Rightarrow> (at_exc + unit) \<times> aircraft_transport" where
  "feed_sealed c now d s =
     (case auth_feed 65535 (at_decoder s) d of (b, es, rejected) \<Rightarrow> process_envelopes c now es (s\<lparr>at_decoder := b\<rparr>))"

definition receive_one :: "at_config \<Rightarrow> real \<Rightarrow> bytes \<Rightarrow> string \<Rightarrow> int \<Rightarrow> string + bool \<Rightarrow> aircraft_transport \<Rightarrow>
    (at_exc + unit) \<times> aircraft_transport" where
  "receive_one c now d host port obs s =
     (let s1 = s\<lparr>at_rx_packets := at_rx_packets s + 1, at_last_remote := host @ '':'' @ show_int port\<rparr> in
      if host \<noteq> fst (tp_peer c) \<or> port \<notin> {snd (tp_peer c), snd (tp_command_peer c)} then
        (Inr (), s1\<lparr>at_rx_wrong_peer := at_rx_wrong_peer s1 + 1\<rparr>)
      else (case (if tp_plaintext c then unwrap_liot_frame d else None) of
          Some ext \<Rightarrow> feed_plain c now ext s1
        | None \<Rightarrow>
            if obs = Inr True then (Inr (), at_lock ''mavlink_telemetry'' now s1)
            else
              let s2 = (case obs of Inl t \<Rightarrow> s1\<lparr>at_error := take 120 (''packet observer failed: '' @ t)\<rparr> | Inr _ \<Rightarrow> s1)
              in if tp_plaintext c then feed_plain c now d s2 else feed_sealed c now d s2))"

fun receive :: "at_config \<Rightarrow> real \<Rightarrow> nat \<Rightarrow> arrival list \<Rightarrow> aircraft_transport \<Rightarrow> (at_exc + unit) \<times> aircraft_transport" where
  "receive c now 0 as s = (Inr (), s)"
| "receive c now (Suc n) as s =
     (if \<not> at_open s then (Inl AtAttribute, s)
      else (case as of
          [] \<Rightarrow> (Inr (), s)
        | WouldBlock # _ \<Rightarrow> (Inr (), s)
        | RecvFails # _ \<Rightarrow> (Inr (), schedule_reopen c now ''udp receive failed'' s)
        | Datagram d host port obs # as' \<Rightarrow> (case receive_one c now d host port obs s of
            (Inl e, s') \<Rightarrow> (Inl e, s') | (Inr u, s') \<Rightarrow> receive c now n as' s')))"

subsection \<open>\<open>pump\<close>\<close>

definition zero_challenge :: string where
  "zero_challenge = replicate 64 (CHR ''0'')"

definition send_bootstrap :: "at_config \<Rightarrow> real \<Rightarrow> aircraft_transport \<Rightarrow> (at_exc + unit) \<times> aircraft_transport" where
  "send_bootstrap c now s =
     (if now < at_bootstrap_at s then (Inr (), s)
      else if tp_plaintext c then
        (let s1 = s\<lparr>at_bootstrap_at := now + 1\<rparr> in
         on_os_error c now ''bootstrap send failed''
           (case build_gcs_heartbeat_packet (at_mav_seq s1) of
              (Inl e, sq) \<Rightarrow> (Inl (AtMav e), s1\<lparr>at_mav_seq := sq\<rparr>)
            | (Inr pk, sq) \<Rightarrow> at_sendto pk (tp_peer c) (s1\<lparr>at_mav_seq := sq\<rparr>)))
      else
        (let probe = make_frame AUTH_CHALLENGE 0 (int (at_bootstrap_sequence s)) 0 (JObj [(''challenge'', JStr zero_challenge)]);
             s1 = s\<lparr>at_bootstrap_sequence := u32_mask (at_bootstrap_sequence s + 1), at_bootstrap_at := now + 1\<rparr>
         in on_os_error c now ''bootstrap send failed'' (send_frame c probe s1)))"

fun send_payloads :: "at_config \<Rightarrow> bytes list \<Rightarrow> aircraft_transport \<Rightarrow> (at_exc + unit) \<times> aircraft_transport" where
  "send_payloads c [] s = (Inr (), s)"
| "send_payloads c (p # ps) s = (case send_command_payload c p s of
     (Inl e, s') \<Rightarrow> (Inl e, s') | (Inr u, s') \<Rightarrow> send_payloads c ps s')"

definition send_due :: "at_config \<Rightarrow> real \<Rightarrow> aircraft_transport \<Rightarrow> (at_exc + unit) \<times> aircraft_transport" where
  "send_due c now s =
     on_os_error c now ''udp send failed''
       (case due_bytes now (at_link s) of
          (Inl e, l) \<Rightarrow> (Inl (AtFrame e), s\<lparr>at_link := l\<rparr>)
        | (Inr ws, l) \<Rightarrow> send_payloads c ws (s\<lparr>at_link := l\<rparr>))"

text \<open>What follows the reception: \<open>fail_transaction\<close> runs even when the probe lost the socket\<close>

definition pump_out :: "at_config \<Rightarrow> real \<Rightarrow> aircraft_transport \<Rightarrow> (at_exc + unit) \<times> aircraft_transport" where
  "pump_out c now s =
     (if \<not> at_open s then (Inr (), s)
      else if at_optical s \<noteq> ''locked'' then
        (case send_bootstrap c now s of
           (Inl e, s1) \<Rightarrow> (Inl e, s1)
         | (Inr u, s1) \<Rightarrow> (Inr (), at_fail (if at_detail s1 = [] then ''optical link blocked'' else at_detail s1) s1))
      else send_due c now s)"

definition pump :: "at_config \<Rightarrow> real \<Rightarrow> nat \<Rightarrow> arrival list \<Rightarrow> aircraft_transport \<Rightarrow> (at_exc + unit) \<times> aircraft_transport" where
  "pump c now max_receive as s =
     (case ensure_socket c now s of
        (False, s1) \<Rightarrow> (Inr (), s1)
      | (True, s1) \<Rightarrow> (case receive c now max_receive as s1 of
          (Inl e, s2) \<Rightarrow> (Inl e, s2)
        | (Inr u, s2) \<Rightarrow> pump_out c now (expire_status c now s2)))"

subsection \<open>\<open>execute\<close> and the state it reports\<close>

fun send_pairs :: "(bytes \<times> (string \<times> int)) list \<Rightarrow> aircraft_transport \<Rightarrow> (at_exc + unit) \<times> aircraft_transport" where
  "send_pairs [] s = (Inr (), s)"
| "send_pairs ((pk, peer) # ps) s = (case at_sendto pk peer s of
     (Inl e, s') \<Rightarrow> (Inl e, s') | (Inr u, s') \<Rightarrow> send_pairs ps s')"

definition direct_peers :: "at_config \<Rightarrow> (string \<times> int) list" where
  "direct_peers c = (if tp_command_peer c = tp_peer c then [tp_peer c] else [tp_command_peer c, tp_peer c])"

definition link_actions :: "string list" where
  "link_actions = [''mission'', ''mission_begin'', ''mission_item'', ''mission_commit'']"

text \<open>\<open>ms\<close> is the boot time a set-point carries; the result is the stage\<close>

definition at_execute :: "at_config \<Rightarrow> real \<Rightarrow> int \<Rightarrow> cloud_command \<Rightarrow> aircraft_transport \<Rightarrow>
    (at_exc + string) \<times> aircraft_transport" where
  "at_execute c now ms cmd s =
     (let action = py_lower (py_strip (cc_action cmd)); p = cc_payload cmd in
      if action \<notin> set link_actions then
        (case build_aircraft_command_packets ms (''aircraft_'' @ action) 1 1 (get_or p ''target_lat'' JNull)
            (get_or p ''target_lng'' JNull) (get_or p ''target_alt'' (get_or p ''target_speed'' JNull)) (at_mav_seq s) of
           (Inl e, sq) \<Rightarrow> (Inl (AtMav e), s\<lparr>at_mav_seq := sq\<rparr>)
         | (Inr pks, sq) \<Rightarrow>
             (case send_pairs (concat (map (\<lambda>pk. map (Pair pk) (direct_peers c)) pks)) (s\<lparr>at_mav_seq := sq\<rparr>) of
                (Inl e, s') \<Rightarrow> (Inl e, s') | (Inr u, s') \<Rightarrow> (Inr ''sent_mavlink2'', s')))
      else (case al_execute cmd now (at_link s) of
          (Inl e, l) \<Rightarrow> (Inl (AtLink e), s\<lparr>at_link := l\<rparr>)
        | (Inr r, l) \<Rightarrow> (Inr (fst r), s\<lparr>at_link := l\<rparr>)))"

text \<open>\<open>transaction_state\<close>: the state of the link, overlaid by a transport error; the revision is the pair of both\<close>

record at_transaction =
  tx_link :: transaction_state
  tx_stage :: string
  tx_error :: "string option"
  tx_error_transaction :: "string option"
  tx_revision :: "nat \<times> nat"
  tx_remote :: "(string \<times> string) option"

definition at_transaction_state :: "aircraft_transport \<Rightarrow> at_transaction" where
  "at_transaction_state s =
     (let t = transaction_state_of (at_link s); failed = at_error s \<noteq> [] in
      \<lparr>tx_link = t, tx_stage = (if failed then ''transport_retry'' else ts_stage t),
       tx_error = (if failed then Some (take 120 (at_error s)) else ts_error t),
       tx_error_transaction = (if failed then Some (at_error_transaction s) else None),
       tx_revision = (ts_revision t, at_revision s),
       tx_remote = (if at_remote_stage s = [] then None else Some (at_remote_stage s, at_remote_detail s))\<rparr>)"

end
