(* ===== verification/AircraftTransportProps.thy ===== *)
theory AircraftTransportProps
  imports AircraftTransport AircraftLinkProps FrameRoundtrip
begin

text \<open>
  Nothing of a transaction leaves on a blocked or silent link; a lost socket comes back within the
  maximal delay; and the one send failure the receive loop does not survive.
\<close>

subsection \<open>What a blocked link sends\<close>

lemma at_sendto_link [simp]: "at_sendto w p (s\<lparr>at_link := l\<rparr>) = map_prod id (at_link_update (\<lambda>_. l)) (at_sendto w p s)"
  by (cases "at_sends_ok s") (simp_all add: at_sendto_def split: prod.split)

lemma next_save_link [simp]: "next_save c (s\<lparr>at_link := l\<rparr>) = map_prod id (at_link_update (\<lambda>_. l)) (next_save c s)"
  by (simp add: next_save_def split: prod.split)

lemma at_seal_link [simp]: "at_seal c p (s\<lparr>at_link := l\<rparr>) = map_prod id (at_link_update (\<lambda>_. l)) (at_seal c p s)"
  by (auto simp: at_seal_def split: prod.split sum.split)

lemma send_command_payload_link [simp]:
  "send_command_payload c p (s\<lparr>at_link := l\<rparr>) = map_prod id (at_link_update (\<lambda>_. l)) (send_command_payload c p s)"
  by (auto simp: send_command_payload_def at_sendto_def split: prod.split sum.split option.split)

lemma send_frame_link [simp]: "send_frame c f (s\<lparr>at_link := l\<rparr>) = map_prod id (at_link_update (\<lambda>_. l)) (send_frame c f s)"
  by (simp add: send_frame_def split: sum.split)

lemma schedule_reopen_sent [simp]: "at_sent (schedule_reopen c now t s) = at_sent s"
  by (simp add: schedule_reopen_def Let_def)

lemma at_fail_sent [simp]: "at_sent (at_fail e s) = at_sent s"
  by (simp add: at_fail_def)

lemma at_fail_optical [simp]: "at_optical (at_fail e s) = at_optical s"
  by (simp add: at_fail_def)

lemma on_os_error_sent: "at_sent (snd (on_os_error c now t (r, s))) = at_sent s"
  by (simp add: on_os_error_def split: sum.split)

lemma on_os_error_link: "at_sent (snd (on_os_error c now t (map_prod id (at_link_update (\<lambda>_. l)) rs))) = at_sent (snd (on_os_error c now t rs))"
  by (cases rs) (simp add: on_os_error_sent)

lemma on_os_error_fst: "fst (on_os_error c now t (map_prod id (at_link_update (\<lambda>_. l)) rs)) = fst (on_os_error c now t rs)"
  by (cases rs) (auto simp: on_os_error_def split: sum.split)

lemma bootstrap_frame:
  "send_frame c f (s\<lparr>at_link := l, at_bootstrap_sequence := k, at_bootstrap_at := x\<rparr>)
     = map_prod id (at_link_update (\<lambda>_. l)) (send_frame c f (s\<lparr>at_bootstrap_sequence := k, at_bootstrap_at := x\<rparr>))"
proof -
  have "s\<lparr>at_link := l, at_bootstrap_sequence := k, at_bootstrap_at := x\<rparr>
      = s\<lparr>at_bootstrap_sequence := k, at_bootstrap_at := x\<rparr>\<lparr>at_link := l\<rparr>" by simp
  then show ?thesis by (simp only: send_frame_link)
qed

lemma send_bootstrap_link:
  "at_sent (snd (send_bootstrap c now (s\<lparr>at_link := l\<rparr>))) = at_sent (snd (send_bootstrap c now s))
   \<and> fst (send_bootstrap c now (s\<lparr>at_link := l\<rparr>)) = fst (send_bootstrap c now s)"
proof (cases "tp_plaintext c")
  case True
  then show ?thesis by (auto simp: send_bootstrap_def Let_def on_os_error_def at_sendto_def split: prod.split sum.split)
next
  case False
  then show ?thesis
    by (simp add: send_bootstrap_def Let_def bootstrap_frame on_os_error_link on_os_error_fst)
qed

lemma terminal_frees_active [simp]: "al_active (set_terminal u st e l) = (if al_active l = Some u then None else al_active l)"
  by (simp add: set_terminal_def Let_def)

lemma at_fail_active:
  "al_active (at_link (at_fail e s)) = Some u \<Longrightarrow> map_of (al_terminal (at_link (at_fail e s))) u \<noteq> None"
  by (auto simp: at_fail_def fail_active_def split: option.splits if_splits)

lemma at_fail_link: "\<exists>l'. at_fail e (s\<lparr>at_link := l\<rparr>) = at_fail e s\<lparr>at_link := l'\<rparr>"
  by (simp add: at_fail_def) blast

lemma expire_link: "\<exists>l'. expire_status c now (s\<lparr>at_link := l\<rparr>) = (expire_status c now s)\<lparr>at_link := l'\<rparr>"
proof -
  have "\<exists>l'. at_block d (s\<lparr>at_link := l\<rparr>) = (at_block d s)\<lparr>at_link := l'\<rparr>" for d
  proof -
    let ?d = "if d = [] then ''optical link blocked'' else d"
    have "s\<lparr>at_link := l, at_optical := ''blocked'', at_detail := ?d\<rparr> = s\<lparr>at_optical := ''blocked'', at_detail := ?d\<rparr>\<lparr>at_link := l\<rparr>" by simp
    then show ?thesis by (simp only: at_block_def Let_def at_fail_link)
  qed
  then show ?thesis by (auto simp: expire_status_def split: option.split)
qed

lemma expire_same [simp]:
  "at_open (expire_status c now s) = at_open s" "at_locked_at (expire_status c now s) = at_locked_at s"
  by (simp_all add: expire_status_def at_block_def at_fail_def Let_def split: option.split)

lemma expire_optical:
  "at_optical (expire_status c now s) = ''locked'' \<longleftrightarrow>
     at_optical s = ''locked'' \<and> (\<forall>t. at_locked_at s = Some t \<longrightarrow> now - t \<le> tp_status_timeout c)"
  by (auto simp: expire_status_def at_block_def at_fail_def Let_def not_less split: option.split)

lemma blocked_out_link:
  assumes "at_optical s \<noteq> ''locked''"
  shows "at_sent (snd (pump_out c now (s\<lparr>at_link := l\<rparr>))) = at_sent (snd (pump_out c now s))"
  using assms send_bootstrap_link [of c now l s] by (auto simp: pump_out_def split: prod.split sum.split)

lemma send_frame_same: "send_frame c f s = (r, s') \<Longrightarrow> at_link s' = at_link s \<and> at_detail s' = at_detail s \<and> at_optical s' = at_optical s"
  by (auto simp: send_frame_def send_command_payload_def at_seal_def next_save_def at_sendto_def
      split: sum.splits option.splits prod.splits if_splits)

lemma on_os_error_same:
  "on_os_error c now t (r, s) = (r', s') \<Longrightarrow> at_link s' = at_link s \<and> at_detail s' = at_detail s \<and> at_optical s' = at_optical s"
  by (auto simp: on_os_error_def schedule_reopen_def Let_def split: sum.splits if_splits)

lemma send_bootstrap_same: "send_bootstrap c now s = (r, s') \<Longrightarrow> at_link s' = at_link s \<and> at_detail s' = at_detail s \<and> at_optical s' = at_optical s"
proof (cases "tp_plaintext c")
  case True
  assume "send_bootstrap c now s = (r, s')"
  with True show ?thesis
    by (auto simp: send_bootstrap_def Let_def at_sendto_def on_os_error_def schedule_reopen_def
        split: if_splits prod.splits sum.splits)
next
  case False
  let ?f = "make_frame AUTH_CHALLENGE 0 (int (at_bootstrap_sequence s)) 0 (JObj [(''challenge'', JStr zero_challenge)])"
  let ?s = "s\<lparr>at_bootstrap_sequence := u32_mask (at_bootstrap_sequence s + 1), at_bootstrap_at := now + 1\<rparr>"
  obtain r1 s1 where f: "send_frame c ?f ?s = (r1, s1)" by (cases "send_frame c ?f ?s")
  assume "send_bootstrap c now s = (r, s')"
  with False f on_os_error_same [of c now "''bootstrap send failed''" r1 s1 r s'] send_frame_same [OF f] show ?thesis
    by (auto simp: send_bootstrap_def Let_def split: if_splits)
qed

text \<open>
  What failing the active transaction leaves of a link: a transaction without a terminal entry gets one with
  the reason, is active no more and has no frame waiting; a link without one, or whose active mission already has
  a terminal entry, stays as it is.
\<close>

definition link_failed :: "string \<Rightarrow> aircraft_link \<Rightarrow> aircraft_link \<Rightarrow> bool" where
  "link_failed reason l l' \<longleftrightarrow> (case al_active l of
     None \<Rightarrow> l' = l
   | Some u \<Rightarrow> if map_of (al_terminal l) u \<noteq> None then l' = l
       else map_of (al_terminal l') u = Some \<lparr>te_stage = ''link_blocked'', te_error = take 120 reason, te_revision = al_revision l + 1\<rparr>
         \<and> al_active l' = None \<and> (\<forall>i \<in> set (map fst (rs_pending (al_sender l'))). fst i \<noteq> u))"

lemma map_of_last_n_end: "1 \<le> n \<Longrightarrow> map_of (last_n n (AList.delete k d @ [(k, v)])) k = Some v"
proof -
  assume "1 \<le> n"
  then obtain m where "last_n n (AList.delete k d @ [(k, v)]) = drop m (AList.delete k d) @ [(k, v)]" by (auto simp: last_n_def)
  moreover have "k \<notin> fst ` set (drop m (AList.delete k d))" for m
    using image_mono [OF set_drop_subset [of m "AList.delete k d"], of fst] by (auto simp: keys_delete)
  then have "map_of (drop m (AList.delete k d)) k = None" for m by (simp add: map_of_eq_None_iff)
  ultimately show ?thesis by (auto simp: map_add_def)
qed

lemma at_fail_fails: "1 \<le> al_limit (at_link s) \<Longrightarrow> link_failed reason (at_link s) (at_link (at_fail reason s))"
proof -
  assume l: "1 \<le> al_limit (at_link s)"
  show ?thesis
  proof (cases "al_active (at_link s)")
    case (Some u)
    show ?thesis
    proof (cases "map_of (al_terminal (at_link s)) u")
      case None
      let ?l = "set_terminal u ''link_blocked'' (take 120 reason) (at_link s)"
      have "at_link (at_fail reason s) = ?l" using Some None by (simp add: at_fail_def fail_active_def)
      moreover have "map_of (al_terminal ?l) u = Some \<lparr>te_stage = ''link_blocked'', te_error = take 120 reason, te_revision = al_revision (at_link s) + 1\<rparr>"
        using map_of_last_n_end [OF l] by (simp add: set_terminal_def Let_def)
      moreover have "\<forall>i \<in> set (map fst (rs_pending (al_sender ?l))). fst i \<noteq> u"
        using keys_cancel [of "al_sender (at_link s)" u] by (auto simp: set_terminal_def Let_def keys_def)
      ultimately show ?thesis using Some None by (simp add: link_failed_def)
    qed (use Some in \<open>simp add: link_failed_def at_fail_def fail_active_def\<close>)
  qed (simp add: link_failed_def at_fail_def fail_active_def)
qed

lemma link_failed_again:
  assumes "link_failed reason l l1" "link_failed reason' l1 l2"
  shows "link_failed reason l l2"
  using assms by (auto simp: link_failed_def split: option.splits if_splits)

text \<open>The reason the transaction is failed with\<close>

definition blocked_reason :: "aircraft_transport \<Rightarrow> string" where
  "blocked_reason s = (if at_optical s = ''locked'' then ''status_timeout''
     else if at_detail s = [] then ''optical link blocked'' else at_detail s)"

lemma blocked_out_failed:
  assumes "at_optical s \<noteq> ''locked''" and "at_open s" and "pump_out c now s = (Inr (), s')" and "1 \<le> al_limit (at_link s)"
  shows "link_failed (blocked_reason s) (at_link s) (at_link s')"
proof -
  obtain s1 where b: "send_bootstrap c now s = (Inr (), s1)" "s' = at_fail (blocked_reason s1) s1" "at_optical s1 = at_optical s"
    using assms(1,2,3)
    by (auto simp: pump_out_def blocked_reason_def dest: send_bootstrap_same split: prod.splits sum.splits)
  from send_bootstrap_same [OF b(1)] have same: "at_link s1 = at_link s" "blocked_reason s1 = blocked_reason s"
    by (simp_all add: blocked_reason_def)
  from at_fail_fails [of s1 "blocked_reason s1"] assms(4) show ?thesis unfolding b(2) same by simp
qed

text \<open>C28: When the optical state is not locked, or its last evidence is older than \<open>status_timeout\<close>, the rest of
  \<open>pump\<close> sends the same datagrams whatever transactions the link holds, so no frame of one leaves; and if it
  returns, the active transaction, unless it has a terminal entry already, is recorded as \<open>link_blocked\<close> with the
  reason, is active no more and waits for nothing.\<close>

theorem blocked_link_sends_no_commands:
  assumes "at_open s" and stale: "at_optical s = ''locked'' \<longrightarrow> (\<exists>t. at_locked_at s = Some t \<and> tp_status_timeout c < now - t)"
  shows "at_sent (snd (pump_out c now (expire_status c now (s\<lparr>at_link := l\<rparr>)))) = at_sent (snd (pump_out c now (expire_status c now s)))
    \<and> (\<forall>s'. pump_out c now (expire_status c now s) = (Inr (), s') \<longrightarrow> 1 \<le> al_limit (at_link s)
        \<longrightarrow> link_failed (blocked_reason s) (at_link s) (at_link s'))"
proof -
  let ?e = "expire_status c now s"
  have b: "at_optical ?e \<noteq> ''locked''" using stale by (auto simp: expire_optical)
  obtain l' where l: "expire_status c now (s\<lparr>at_link := l\<rparr>) = ?e\<lparr>at_link := l'\<rparr>"
    using expire_link by blast
  have "link_failed (blocked_reason s) (at_link s) (at_link s')"
    if out: "pump_out c now ?e = (Inr (), s')" and lim: "1 \<le> al_limit (at_link s)" for s'
  proof (cases "at_optical s = ''locked''")
    case True
    with stale have e: "?e = at_block ''status_timeout'' s" by (auto simp: expire_status_def)
    then have f: "link_failed (blocked_reason s) (at_link s) (at_link ?e)" "al_limit (at_link ?e) = al_limit (at_link s)"
      using at_fail_fails [of "s\<lparr>at_optical := ''blocked'', at_detail := ''status_timeout''\<rparr>" "''status_timeout''"] lim True
      by (simp_all add: at_block_def blocked_reason_def at_fail_def fail_active_def set_terminal_def Let_def split: option.split)
    from link_failed_again [OF f(1) blocked_out_failed [OF b _ out]] f(2) lim assms(1) show ?thesis by simp
  next
    case False
    then have "?e = s" by (auto simp: expire_status_def split: option.split)
    with blocked_out_failed [OF b _ out] lim assms(1) show ?thesis by simp
  qed
  with blocked_out_link [OF b] show ?thesis unfolding l by blast
qed

subsection \<open>The answer to a challenge\<close>

definition challenge_answer :: "frame \<Rightarrow> pyexc + frame" where
  "challenge_answer f = make_frame AUTH_RESPONSE 0 (int (f_sequence f)) 0 (JObj [(''challenge'', fld (f_payload f) ''challenge'')])"

lemma unsent_answer:
  assumes "tp_plaintext c" and "at_open s" and "at_sends_ok s = False # bs" and "f_type f = AUTH_CHALLENGE"
    and "challenge_answer f = Inr r" and "encode_frame r default_max_payload = Inr w" and "length w \<le> max_data_bytes"
  shows "\<exists>s'. process_frame c now f s = (Inr (), s') \<and> \<not> at_open s'"
proof -
  obtain wire sq where "wrap_liot_frame (at_wrap_seq s) w 254 191 = Some (wire, sq)"
    using assms(7) by (simp add: wrap_liot_frame_def Let_def)
  with assms show ?thesis
    by (simp add: process_frame_def send_frame_def send_command_payload_def at_sendto_def on_os_error_def schedule_reopen_def Let_def
        challenge_answer_def)
qed

lemma receive_closed: "\<not> at_open s \<Longrightarrow> receive c now (Suc n) as s = (Inl AtAttribute, s)"
  by simp

text \<open>On the plaintext link, when the answer to a challenge of the aircraft cannot be sent, the socket is closed
  inside the receive loop, which goes on to use it: the AttributeError of None leaves \<open>pump\<close>, although
  every other OSError of the socket is handled by reopening it.\<close>

theorem failed_challenge_answer_escapes:
  assumes "tp_plaintext c" and "at_open s" and "at_sends_ok s = False # bs"
    and "unwrap_liot_frame d = Some ext" and "decoder_feed 8192 (at_plain s) ext = (b, Inr [f])" and "f_type f = AUTH_CHALLENGE"
    and "challenge_answer f = Inr r" and "encode_frame r default_max_payload = Inr w" and "length w \<le> max_data_bytes"
  shows "fst (pump c now (Suc (Suc n)) (Datagram d (fst (tp_peer c)) (snd (tp_peer c)) obs # as) s) = Inl AtAttribute"
proof -
  let ?s = "s\<lparr>at_rx_packets := at_rx_packets s + 1,
     at_last_remote := fst (tp_peer c) @ '':'' @ show_int (snd (tp_peer c)), at_plain := b\<rparr>"
  obtain s' where s': "process_frame c now f ?s = (Inr (), s')" "\<not> at_open s'"
    using unsent_answer [of c ?s bs f r w now] assms by auto
  have "receive_one c now d (fst (tp_peer c)) (snd (tp_peer c)) obs s = (Inr (), s')"
    using assms(1,4,5) s'(1) by (simp add: receive_one_def feed_plain_def)
  with assms(2) s'(2) show ?thesis by (simp add: pump_def ensure_socket_def)
qed

definition challenge_frame :: frame where
  "challenge_frame = \<lparr>f_type = AUTH_CHALLENGE, f_flags = 0, f_sequence = 1, f_command_id = 0,
     f_payload = [(''challenge'', JStr zero_challenge)]\<rparr>"

definition answer_frame :: frame where
  "answer_frame = challenge_frame\<lparr>f_type := AUTH_RESPONSE\<rparr>"

lemma challenge_frame_facts:
  "json_ok (JObj (f_payload challenge_frame))"
  "\<exists>bs. encode_frame challenge_frame 8192 = Inr bs \<and> length bs \<le> max_data_bytes"
  "\<exists>bs. encode_frame answer_frame default_max_payload = Inr bs \<and> length bs \<le> max_data_bytes"
proof -
  show ok: "json_ok (JObj (f_payload challenge_frame))" by (simp add: challenge_frame_def)
  have v: "validate_payload AUTH_CHALLENGE (JObj (f_payload challenge_frame)) = None"
    "validate_payload AUTH_RESPONSE (JObj (f_payload challenge_frame)) = None" by code_simp+
  obtain t where t: "dumps False (JObj (f_payload challenge_frame)) = Some t"
    using dumps_total [OF ok, of False] by blast
  have "length (utf8 (the (dumps False (JObj (f_payload challenge_frame))))) = 80" by code_simp
  with t have l: "length (utf8 t) = 80" by simp
  show "\<exists>bs. encode_frame challenge_frame 8192 = Inr bs \<and> length bs \<le> max_data_bytes"
    using v t l by (simp add: encode_frame_def canonical_payload_def challenge_frame_def max_data_bytes_def)
  show "\<exists>bs. encode_frame answer_frame default_max_payload = Inr bs \<and> length bs \<le> max_data_bytes"
    using v t l by (simp add: encode_frame_def canonical_payload_def answer_frame_def challenge_frame_def max_data_bytes_def default_max_payload_def)
qed

definition transport_sample :: aircraft_transport where
  "transport_sample = aircraft_transport_init
     \<lparr>al_sender = \<lparr>rs_max_attempts = 4, rs_interval = 1, rs_max_pending = 1024, rs_pending = [], rs_exhausted = []\<rparr>, al_next = 0,
       al_stage = ''idle'', al_error = [], al_transaction = [], al_active = None, al_revision = 0, al_terminal = [], al_limit = 8,
       al_fragments = [], al_commits = []\<rparr>
     \<lparr>s_codec = \<lparr>a_psk = [], a_nonce = [], a_counter = 0, a_window = 64, a_max_sessions = 4, a_sessions = []\<rparr>, s_disk = None\<rparr>
     0 0 [False] [] []"

definition plain_config :: at_config where
  "plain_config = \<lparr>tp_peer = (''10.0.0.1'', 14555), tp_command_peer = (''10.0.0.1'', 14560), tp_status_timeout = 3, tp_backoff = 1,
     tp_max_backoff = 4, tp_persistent = True, tp_plaintext = True\<rparr>"

theorem failed_challenge_answer_escapes_witness:
  "\<exists>d. fst (pump plain_config 5 2 [Datagram d ''10.0.0.1'' 14555 (Inr False)] transport_sample) = Inl AtAttribute"
proof -
  obtain bs where bs: "encode_frame challenge_frame 8192 = Inr bs" "length bs \<le> max_data_bytes" using challenge_frame_facts(2) by blast
  obtain w where w: "encode_frame answer_frame default_max_payload = Inr w" "length w \<le> max_data_bytes" using challenge_frame_facts(3) by blast
  obtain d sq where d: "wrap_liot_frame 0 bs 1 1 = Some (d, sq)" using bs(2) by (simp add: wrap_liot_frame_def Let_def)
  have c: "frame_canonical challenge_frame = challenge_frame" by code_simp
  have k: "frame_ok challenge_frame" by (simp add: frame_ok_def challenge_frame_def)
  have "feed_loop 8192 (concat [bs] @ []) = ([], Inr [challenge_frame])"
    using feed_loop_frames [of 8192 "[challenge_frame]" "[bs]" "[]"] bs(1) k challenge_frame_facts(1) c by (simp add: feed_loop_empty)
  then have "decoder_feed 8192 (at_plain transport_sample) bs = ([], Inr [challenge_frame])"
    by (simp add: decoder_feed_def transport_sample_def aircraft_transport_init_def)
  moreover have "challenge_answer challenge_frame = Inr answer_frame"
    by (simp add: challenge_answer_def make_frame_def answer_frame_def challenge_frame_def fld_def)
  ultimately have "fst (pump plain_config 5 (Suc (Suc 0)) (Datagram d (fst (tp_peer plain_config)) (snd (tp_peer plain_config)) (Inr False) # [])
      transport_sample) = Inl AtAttribute"
    using w unwrap_wrap [OF d]
    by (intro failed_challenge_answer_escapes) (simp_all add: plain_config_def transport_sample_def aircraft_transport_init_def
        challenge_frame_def)
  then show ?thesis by (auto simp: plain_config_def numeral_2_eq_2)
qed

text \<open>A transaction in progress when the status of the link is ten seconds old\<close>

definition silent_sample :: aircraft_transport where
  "silent_sample = transport_sample\<lparr>at_optical := ''locked'', at_locked_at := Some 0, at_bootstrap_at := 11,
     at_link := at_link transport_sample\<lparr>al_active := Some 9\<rparr>\<rparr>"

theorem blocked_link_sends_no_commands_witness:
  "at_sent (snd (pump_out plain_config 10 (expire_status plain_config 10 (silent_sample\<lparr>at_link := at_link transport_sample\<rparr>))))
     = at_sent (snd (pump_out plain_config 10 (expire_status plain_config 10 silent_sample)))
   \<and> (\<exists>s'. pump_out plain_config 10 (expire_status plain_config 10 silent_sample) = (Inr (), s')
       \<and> link_failed ''status_timeout'' (at_link silent_sample) (at_link s') \<and> al_active (at_link s') = None)"
proof -
  have s: "at_open silent_sample" "at_optical silent_sample = ''locked''" "1 \<le> al_limit (at_link silent_sample)"
    "at_optical silent_sample = ''locked'' \<longrightarrow> (\<exists>t. at_locked_at silent_sample = Some t \<and> tp_status_timeout plain_config < 10 - t)"
    "al_active (at_link silent_sample) = Some 9" "map_of (al_terminal (at_link silent_sample)) 9 = None"
    by (simp_all add: silent_sample_def transport_sample_def aircraft_transport_init_def plain_config_def)
  have "fst (pump_out plain_config 10 (expire_status plain_config 10 silent_sample)) = Inr ()"
    by (simp add: pump_out_def send_bootstrap_def expire_status_def at_block_def Let_def silent_sample_def transport_sample_def
        aircraft_transport_init_def plain_config_def at_fail_def)
  then obtain s' where out: "pump_out plain_config 10 (expire_status plain_config 10 silent_sample) = (Inr (), s')"
    by (metis prod.collapse)
  note n = blocked_link_sends_no_commands [OF s(1,4), of "at_link transport_sample"]
  from n out s(3) have f: "link_failed (blocked_reason silent_sample) (at_link silent_sample) (at_link s')" by blast
  with s(5,6) have "al_active (at_link s') = None" by (simp add: link_failed_def)
  with n f out s(2) show ?thesis by (simp add: blocked_reason_def)
qed

subsection \<open>Coming back\<close>

text \<open>After the socket is given up, \<open>pump\<close> touches nothing until a delay has passed that doubles with every
  failure and is positive and at most \<open>max_retry_backoff\<close>; the first \<open>pump\<close> after it opens the socket again,
  unless opening fails, and then the error is gone and the delay starts over.\<close>

theorem socket_reopened_within_backoff:
  assumes "at_config_init c = Inr c" and "s' = schedule_reopen c now err s"
  shows "now < at_reopen_at s' \<and> at_reopen_at s' \<le> now + tp_max_backoff c
    \<and> at_reopen_at s' = now + min (tp_max_backoff c) (tp_backoff c * 2 ^ at_failures s)
    \<and> (\<forall>later < at_reopen_at s'. pump c later n as s' = (Inr (), s'))
    \<and> (\<forall>later \<ge> at_reopen_at s'. fst (ensure_socket c later s') = fst (next_outcome (at_opens_ok s))
        \<and> (fst (next_outcome (at_opens_ok s)) \<longrightarrow> at_open (snd (ensure_socket c later s'))
             \<and> at_error (snd (ensure_socket c later s')) = [] \<and> at_failures (snd (ensure_socket c later s')) = 0))"
proof -
  have "0 < tp_backoff c" "tp_backoff c \<le> tp_max_backoff c"
    using assms(1) by (auto simp: at_config_init_def split: if_splits)
  then have "0 < min (tp_max_backoff c) (tp_backoff c * 2 ^ at_failures s)" by simp
  then show ?thesis
    by (simp add: assms(2) schedule_reopen_def ensure_socket_def pump_def Let_def split: prod.split)
qed

theorem socket_reopened_within_backoff_witness:
  "at_reopen_at (schedule_reopen plain_config 5 ''udp receive failed'' (transport_sample\<lparr>at_failures := 7\<rparr>)) \<le> 5 + 4"
proof -
  have "at_config_init plain_config = Inr plain_config" by (simp add: at_config_init_def plain_config_def)
  from socket_reopened_within_backoff [OF this refl, of 5 "''udp receive failed''" "transport_sample\<lparr>at_failures := 7\<rparr>"]
  show ?thesis by (simp add: plain_config_def)
qed

end
