(* ===== verification/RoverState.thy ===== *)
theory RoverState
  imports CommandRouter AircraftTransport
begin

text \<open>
  \<open>rdk_agent/rover_state.py\<close>: the command the rover executes, read from a dictionary of the cloud or of the local
  file, and the part of the telemetry that reports commands and transactions.
\<close>

subsection \<open>Numbers\<close>

text \<open>\<open>x < y\<close> of floats\<close>

fun pf_less :: "pyfloat \<Rightarrow> pyfloat \<Rightarrow> bool" where
  "pf_less (Fin m e) (Fin n f) = (dec_val m e < dec_val n f)"
| "pf_less NInf (Fin n f) = True"
| "pf_less NInf PInf = True"
| "pf_less (Fin m e) PInf = True"
| "pf_less _ _ = False"

text \<open>\<open>max(lo, min(hi, v))\<close>: both keep their first argument unless the second is really beyond it\<close>

definition pf_clamp :: "pyfloat \<Rightarrow> int \<Rightarrow> int \<Rightarrow> pyfloat" where
  "pf_clamp v lo hi =
     (let m = (if pf_less v (Fin hi 0) then v else Fin hi 0) in if pf_less (Fin lo 0) m then m else Fin lo 0)"

definition pf_trunc :: "pyfloat \<Rightarrow> int" where
  "pf_trunc x = (case x of Fin m e \<Rightarrow> trunc (dec_val m e) | _ \<Rightarrow> 0)"

subsection \<open>\<open>RoverCommand\<close>\<close>

record rover_command =
  ru_command :: string
  ru_lat :: pyfloat
  ru_lng :: pyfloat
  ru_speed :: pyfloat
  ru_steering :: int
  ru_throttle :: int
  ru_control_mode :: string
  ru_source :: string

text \<open>\<open>float(d.get(k, v) or v)\<close>\<close>

definition float_or :: "pydict \<Rightarrow> string \<Rightarrow> pyfloat \<Rightarrow> router_exc + pyfloat" where
  "float_or d k v = (let w = get_or d k (JFloat v) in if json_truthy w then router_float w else Inr v)"

definition text_or :: "json \<Rightarrow> string \<Rightarrow> string" where
  "text_or v t = py_lower (py_str (or_text v t))"

definition command_of_dict :: "string \<Rightarrow> pydict \<Rightarrow> router_exc + rover_command" where
  "command_of_dict source d =
     (let command = text_or (get_first d [''command'', ''last_command''] (JStr ''noop'')) ''noop'' in
      case float_or d ''target_speed'' (Fin 5 (- 1)) of
        Inl e \<Rightarrow> Inl e
      | Inr v \<Rightarrow> (case float_or d ''target_lat'' (Fin 0 0) of
          Inl e \<Rightarrow> Inl e
        | Inr lat \<Rightarrow> (case float_or d ''target_lng'' (Fin 0 0) of
            Inl e \<Rightarrow> Inl e
          | Inr lng \<Rightarrow> (case float_or d ''steering'' (Fin 0 0) of
              Inl e \<Rightarrow> Inl e
            | Inr st \<Rightarrow> (case float_or d ''throttle'' (Fin 0 0) of
                Inl e \<Rightarrow> Inl e
              | Inr th \<Rightarrow> Inr \<lparr>ru_command = command, ru_lat = lat, ru_lng = lng,
                  ru_speed = (if starts_with ''aircraft_'' command then pf_clamp v 1 120 else pf_clamp v 0 3),
                  ru_steering = pf_trunc (pf_clamp st (- 100) 100), ru_throttle = pf_trunc (pf_clamp th (- 100) 100),
                  ru_control_mode = text_or (get_or d ''control_mode'' (JStr ''standby'')) ''standby'', ru_source = source\<rparr>)))))"

definition command_of_tuya :: "string \<Rightarrow> pydict \<Rightarrow> router_exc + rover_command" where
  "command_of_tuya source d = command_of_dict source (map (\<lambda>(k, v). (k, flatten_value v)) d)"

subsection \<open>What the telemetry reports of commands\<close>

record rover_report =
  rp_mission_status :: string
  rp_fault :: string
  rp_stage :: string
  rp_id :: string
  rp_pending :: int
  rp_air_stage :: string
  rp_air_id :: string
  rp_air_pending :: nat
  rp_air_revision :: string
  rp_air_mission_status :: string
  rp_air_fault :: string
  rp_event :: string
  rp_event_id :: string
  rp_event_fault :: string

definition rover_report_init :: rover_report where
  "rover_report_init = \<lparr>rp_mission_status = ''idle'', rp_fault = [], rp_stage = ''idle'', rp_id = [], rp_pending = 0,
     rp_air_stage = ''idle'', rp_air_id = [], rp_air_pending = 0, rp_air_revision = [], rp_air_mission_status = ''idle'',
     rp_air_fault = [], rp_event = [], rp_event_id = [], rp_event_fault = []\<rparr>"

definition record_aircraft_event :: "string \<Rightarrow> string \<Rightarrow> string \<Rightarrow> rover_report \<Rightarrow> rover_report" where
  "record_aircraft_event cid event fault r =
     r\<lparr>rp_event_id := take 36 cid, rp_event := take 24 event, rp_event_fault := take 120 fault\<rparr>"

definition revision_text :: "nat \<times> nat \<Rightarrow> string" where
  "revision_text r = show_nat (fst r) @ '':'' @ show_nat (snd r)"

text \<open>The state is that of \<open>AircraftTransport.transaction_state\<close>\<close>

definition apply_aircraft_transaction :: "at_transaction \<Rightarrow> rover_report \<Rightarrow> bool \<times> rover_report" where
  "apply_aircraft_transaction t r =
     (if revision_text (tx_revision t) = rp_air_revision r then (False, r)
      else (True, r\<lparr>rp_air_revision := revision_text (tx_revision t), rp_air_stage := tx_stage t,
        rp_air_id := ts_transaction (tx_link t), rp_air_pending := ts_pending (tx_link t), rp_air_mission_status := tx_stage t,
        rp_air_fault := take 120 (case tx_error t of Some e \<Rightarrow> e | None \<Rightarrow> [])\<rparr>))"

definition record_command_receipt :: "string \<Rightarrow> string \<Rightarrow> bool \<Rightarrow> string \<Rightarrow> string \<Rightarrow> rover_report \<Rightarrow> rover_report" where
  "record_command_receipt target cid accepted stage message r =
     (if target \<in> {''aircraft'', ''aircraft_1''} then
        record_aircraft_event cid (if accepted then ''accepted'' else ''rejected'') (if accepted then [] else message) r
      else if target = ''aircraft_2'' then r
      else r\<lparr>rp_mission_status := (if accepted then message else ''command_failed''), rp_fault := (if accepted then [] else message),
        rp_stage := stage, rp_id := cid, rp_pending := 0\<rparr>)"

record mission_receipt =
  mq_id :: string
  mq_stage :: string
  mq_accepted :: bool
  mq_error :: string
  mq_message :: string

text \<open>\<open>error\<close> is the name of the exception's type; the status is one of \<open>drain_completed\<close>\<close>

definition apply_rover_mission_status :: "string \<Rightarrow> string \<Rightarrow> string \<Rightarrow> string \<Rightarrow> rover_report \<Rightarrow> mission_receipt \<times> rover_report" where
  "apply_rover_mission_status cid stage message err r =
     (\<lparr>mq_id = cid, mq_stage = stage, mq_accepted = (stage = ''verified''), mq_error = err, mq_message = message\<rparr>,
      r\<lparr>rp_id := cid, rp_stage := stage, rp_pending := 0, rp_mission_status := (if message = [] then stage else message),
        rp_fault := (if stage = ''failed'' then err @ '': '' @ message else [])\<rparr>)"

end
