(* ===== verification/RoverControl.thy ===== *)
theory RoverControl
  imports RoverMission RoverState
begin

text \<open>
  \<open>RoverMavlink\<close> of \<open>rdk_agent/mavlink_rover.py\<close>: the commands the rover executes on its flight controller,
  manual driving, arming and the changes of mode.

  The flight controller is a list of what the waits meet: in a wait for a mode, the clock and a heartbeat with its
  source and its mode as \<open>pymavlink\<close> names it, no message, or an exception. Each send succeeds or raises, as the list
  \<open>ct_sends_ok\<close> says; behind its end sends succeed. \<open>ct_log\<close> is what was sent and what the code learnt of the mode.
\<close>

datatype ct_exc = CtRuntime string | CtIo | CtManager rm_exc

datatype ct_event =
    RcOverride int int int int
  | ModeRequest string
  | ModeConfirmed string
  | ModeSeen string
  | ArmCommand bool
  | SpeedCommand pyfloat
  | PositionTarget int int
  | HomeRequest
  | NewConnection

datatype ct_wait = Heartbeat real int string | Silence real | WaitRaises real

record rc_limits =
  steer_min :: int
  steer_trim :: int
  steer_max :: int
  throttle_min :: int
  throttle_trim :: int
  throttle_max :: int

record rover_control =
  ct_target :: int
  ct_modes :: "string list"
  ct_manual :: "string option"
  ct_limits :: rc_limits
  ct_loaded :: bool
  ct_home_valid :: bool
  ct_home_updated :: real
  ct_home_request :: real
  ct_generation :: nat
  ct_manager :: "rover_manager option"
  ct_waits :: "ct_wait list"
  ct_acks :: "int option list"
  ct_sends_ok :: "bool list"
  ct_log :: "ct_event list"

definition default_limits :: rc_limits where
  "default_limits = \<lparr>steer_min = 1000, steer_trim = 1500, steer_max = 2000, throttle_min = 1000, throttle_trim = 1500,
     throttle_max = 2000\<rparr>"

text \<open>\<open>ct_modes\<close> is what \<open>conn.mode_mapping()\<close> of the connection gives\<close>

definition rover_control_init :: rover_control where
  "rover_control_init = \<lparr>ct_target = 1, ct_modes = [], ct_manual = None, ct_limits = default_limits, ct_loaded = False,
     ct_home_valid = False, ct_home_updated = 0, ct_home_request = 0, ct_generation = 0, ct_manager = None, ct_waits = [], ct_acks = [], ct_sends_ok = [], ct_log = []\<rparr>"

subsection \<open>Effects\<close>

datatype 'a cres = Returns 'a | Raises ct_exc | Waits

type_synonym 'a ct = "rover_control \<Rightarrow> 'a cres \<times> rover_control"

definition bind_ct :: "'a ct \<Rightarrow> ('a \<Rightarrow> 'b ct) \<Rightarrow> 'b ct" where
  "bind_ct m f s = (case m s of
     (Returns a, s') \<Rightarrow> f a s' | (Raises e, s') \<Rightarrow> (Raises e, s') | (Waits, s') \<Rightarrow> (Waits, s'))"

definition ret_ct :: "'a \<Rightarrow> 'a ct" where
  "ret_ct a s = (Returns a, s)"

text \<open>\<open>try: m except Exception: h\<close>\<close>

definition catch_ct :: "'a ct \<Rightarrow> (ct_exc \<Rightarrow> 'a ct) \<Rightarrow> 'a ct" where
  "catch_ct m h s = (case m s of (Raises e, s') \<Rightarrow> h e s' | r \<Rightarrow> r)"

definition learn :: "ct_event \<Rightarrow> rover_control \<Rightarrow> rover_control" where
  "learn e s = s\<lparr>ct_log := ct_log s @ [e]\<rparr>"

definition ct_send :: "ct_event \<Rightarrow> unit ct" where
  "ct_send e s = (case ct_sends_ok s of
     False # oks \<Rightarrow> (Raises CtIo, s\<lparr>ct_sends_ok := oks\<rparr>)
   | _ \<Rightarrow> (Returns (), learn e (s\<lparr>ct_sends_ok := tl (ct_sends_ok s)\<rparr>)))"

subsection \<open>RC values\<close>

text \<open>\<open>int(clamp(value, -100, 100))\<close> of an integer; the division is exact and \<open>int\<close> cuts towards zero\<close>

definition clamp_int :: "int \<Rightarrow> int \<Rightarrow> int \<Rightarrow> int" where
  "clamp_int v lo hi = max lo (min hi v)"

definition scale_rc :: "int \<Rightarrow> int \<Rightarrow> int \<Rightarrow> int \<Rightarrow> int" where
  "scale_rc value lo mid hi =
     (let v = clamp_int value (- 100) 100;
          span = (if 0 \<le> v then max 0 (hi - mid) else max 0 (mid - lo))
      in trunc (of_int mid + of_int (span * v) / 100))"

definition rc_override :: "int \<Rightarrow> int \<Rightarrow> unit ct" where
  "rc_override steering throttle s =
     (let l = ct_limits s in
      ct_send (RcOverride steering throttle (scale_rc steering (steer_min l) (steer_trim l) (steer_max l))
        (scale_rc throttle (throttle_min l) (throttle_trim l) (throttle_max l))) s)"

definition stop :: "unit ct" where
  "stop = bind_ct (rc_override 0 0) (\<lambda>_. bind_ct (rc_override 0 0) (\<lambda>_. rc_override 0 0))"

subsection \<open>Modes\<close>

definition record_observed_mode :: "string \<Rightarrow> rover_control \<Rightarrow> rover_control" where
  "record_observed_mode mode s =
     (let observed = py_upper (py_strip mode); s1 = learn (ModeSeen observed) s in
      case ct_manual s1 of
        Some m \<Rightarrow> if m \<noteq> [] \<and> observed \<noteq> m then s1\<lparr>ct_manual := None\<rparr> else s1
      | None \<Rightarrow> s1)"

text \<open>The wait of \<open>set_mode\<close>; heartbeats of other systems are passed over\<close>

fun await_mode :: "string \<Rightarrow> real \<Rightarrow> ct_wait list \<Rightarrow> string ct" where
  "await_mode requested dl [] s = (Waits, s)"
| "await_mode requested dl (Silence t # ws) s = (Raises (CtRuntime ''mode not confirmed''), s\<lparr>ct_waits := ws\<rparr>)"
| "await_mode requested dl (WaitRaises t # ws) s =
     (if t < dl then (Raises CtIo, s\<lparr>ct_waits := ws\<rparr>) else (Raises (CtRuntime ''mode not confirmed''), s\<lparr>ct_waits := ws\<rparr>))"
| "await_mode requested dl (Heartbeat t src mode # ws) s =
     (if \<not> t < dl then (Raises (CtRuntime ''mode not confirmed''), s\<lparr>ct_waits := ws\<rparr>)
      else if src \<noteq> 0 \<and> src \<noteq> ct_target s then await_mode requested dl ws (s\<lparr>ct_waits := ws\<rparr>)
      else if py_upper mode = requested then (Returns (py_upper mode), learn (ModeConfirmed requested) (s\<lparr>ct_waits := ws\<rparr>))
      else await_mode requested dl ws (s\<lparr>ct_waits := ws\<rparr>))"

text \<open>\<open>t0\<close> is the clock when the wait begins\<close>

definition set_mode :: "real \<Rightarrow> string \<Rightarrow> real \<Rightarrow> string ct" where
  "set_mode t0 mode timeout s =
     (let requested = py_upper (py_strip mode);
          s1 = (case ct_manual s of Some m \<Rightarrow> if m \<noteq> [] \<and> requested \<noteq> m then s\<lparr>ct_manual := None\<rparr> else s | None \<Rightarrow> s)
      in if requested \<notin> set (ct_modes s1) then (Raises (CtRuntime ''mode not available''), s1)
         else bind_ct (ct_send (ModeRequest requested))
           (\<lambda>_ s. await_mode requested (t0 + max (1 / 100) timeout) (ct_waits s) s) s1)"

definition manual :: "real \<Rightarrow> int \<Rightarrow> int \<Rightarrow> unit ct" where
  "manual t0 steering throttle s =
     (if steering = 0 \<and> throttle = 0 then rc_override 0 0 s
      else if ct_manual s = Some ''MANUAL'' then rc_override steering throttle s
      else bind_ct (set_mode t0 ''MANUAL'' (5 / 2)) (\<lambda>c s.
          let confirmed = py_upper (py_strip c) in
          if confirmed \<noteq> ''MANUAL'' then (Raises (CtRuntime ''MANUAL not confirmed''), s)
          else rc_override steering throttle (s\<lparr>ct_manual := Some confirmed\<rparr>))
        (s\<lparr>ct_manual := None\<rparr>))"

text \<open>\<open>try_neutral\<close> and \<open>try_stop\<close> do nothing while another thread holds the session lock\<close>

definition try_locked :: "bool \<Rightarrow> unit ct \<Rightarrow> bool ct" where
  "try_locked free m = (if free then bind_ct m (\<lambda>_. ret_ct True) else ret_ct False)"

definition try_neutral :: "bool \<Rightarrow> bool ct" where
  "try_neutral free = try_locked free (rc_override 0 0)"

definition try_stop :: "bool \<Rightarrow> bool ct" where
  "try_stop free = try_locked free stop"

definition scaled_degrees :: "pyfloat \<Rightarrow> int ct" where
  "scaled_degrees x = (case int_scaled x 10000000 of
     Inl e \<Rightarrow> (\<lambda>s. (Raises (CtRuntime ''cannot convert float to integer''), s)) | Inr i \<Rightarrow> ret_ct i)"

definition goto :: "real \<Rightarrow> pyfloat \<Rightarrow> pyfloat \<Rightarrow> pyfloat \<Rightarrow> unit ct" where
  "goto t0 lat lng speed =
     bind_ct (catch_ct (bind_ct (set_mode t0 ''GUIDED'' (5 / 2)) (\<lambda>_. ret_ct ())) (\<lambda>_. ret_ct ())) (\<lambda>_.
     bind_ct (if pf_less (Fin 0 0) speed then ct_send (SpeedCommand speed) else ret_ct ()) (\<lambda>_.
     bind_ct (scaled_degrees lat) (\<lambda>x. bind_ct (scaled_degrees lng) (\<lambda>y. ct_send (PositionTarget x y)))))"

subsection \<open>Arming\<close>

text \<open>The results ACCEPTED and IN_PROGRESS count as accepted; a missing acknowledgement is None\<close>

definition arm_vehicle :: "bool \<Rightarrow> (bool \<times> string) ct" where
  "arm_vehicle on = bind_ct (ct_send (ArmCommand on)) (\<lambda>_ s. case ct_acks s of
     [] \<Rightarrow> (Waits, s)
   | a # as \<Rightarrow> (Returns (case a of
         None \<Rightarrow> (False, ''arm command sent but no COMMAND_ACK from flight controller'')
       | Some r \<Rightarrow> if r \<notin> {0, 5} then (False, ''flight controller rejected '' @ (if on then ''arm'' else ''disarm''))
           else (True, (if on then ''arm'' else ''disarm'') @ '' acknowledged by flight controller'')), s\<lparr>ct_acks := as\<rparr>))"

text \<open>\<open>t1\<close> and \<open>t2\<close> are the clock at the two attempts to leave AUTO\<close>

definition safe_arm :: "real \<Rightarrow> real \<Rightarrow> (bool \<times> string) ct" where
  "safe_arm t1 t2 =
     bind_ct (catch_ct (bind_ct (set_mode t1 ''HOLD'' (5 / 2)) (\<lambda>_. ret_ct ()))
       (\<lambda>_. catch_ct (bind_ct (set_mode t2 ''MANUAL'' (5 / 2)) (\<lambda>_. ret_ct ())) (\<lambda>_. ret_ct ()))) (\<lambda>_.
     bind_ct stop (\<lambda>_. bind_ct (arm_vehicle True) (\<lambda>r. bind_ct stop (\<lambda>_. ret_ct r))))"

subsection \<open>The home position\<close>

text \<open>Asked for once a second at most; \<open>t\<close> is the clock\<close>

definition request_home_position :: "real \<Rightarrow> bool ct" where
  "request_home_position t s =
     (if t - ct_home_request s < 1 then (Returns False, s)
      else bind_ct (ct_send HomeRequest) (\<lambda>_. ret_ct True) (s\<lparr>ct_home_request := t\<rparr>))"

definition ct_observe :: "fc_msg \<Rightarrow> unit ct" where
  "ct_observe m s = (case ct_manager s of
     None \<Rightarrow> (Returns (), s)
   | Some g \<Rightarrow> (case observe m g of
       (Done u, g') \<Rightarrow> (Returns (), s\<lparr>ct_manager := Some g'\<rparr>)
     | (Fail e, g') \<Rightarrow> (Raises (CtManager e), s\<lparr>ct_manager := Some g'\<rparr>)
     | (Blocked, g') \<Rightarrow> (Waits, s\<lparr>ct_manager := Some g'\<rparr>)))"

text \<open>
  \<open>dispatch\<close> of a HOME_POSITION. Of other messages it changes the telemetry of the mission job only, a copy that is
  not read again.
\<close>

definition home_coordinate :: "fc_msg \<Rightarrow> string \<Rightarrow> int option" where
  "home_coordinate m k = to_int (mav_field m k (MInt 0))"

definition home_position :: "real \<Rightarrow> fc_msg \<Rightarrow> unit ct" where
  "home_position t m s = (case (home_coordinate m ''latitude'', home_coordinate m ''longitude'') of
     (Some x, Some y) \<Rightarrow>
       let s1 = s\<lparr>ct_home_valid := (0 < \<bar>x\<bar> \<and> 0 < \<bar>y\<bar>)\<rparr>
       in (Returns (), if ct_home_valid s1 then s1\<lparr>ct_home_updated := t\<rparr> else s1)
   | _ \<Rightarrow> (Raises (CtRuntime ''not a number''), s))"

text \<open>What one turn of \<open>refresh_home\<close> meets: the clock, and a message, none, or an exception\<close>

datatype home_in = HomeMsg real fc_msg | HomeNone | HomeRaises real

fun await_home :: "real \<Rightarrow> bool \<Rightarrow> home_in list \<Rightarrow> bool ct" where
  "await_home dl current [] s = (Waits, s)"
| "await_home dl current (HomeNone # ins) s = (Returns (current \<or> ct_home_valid s), s)"
| "await_home dl current (HomeRaises t # ins) s =
     (if t < dl then (Raises CtIo, s) else (Returns (current \<or> ct_home_valid s), s))"
| "await_home dl current (HomeMsg t m # ins) s =
     (if \<not> t < dl then (Returns (current \<or> ct_home_valid s), s)
      else if fm_type m = ''HOME_POSITION'' then bind_ct (home_position t m) (\<lambda>_ s. (Returns (ct_home_valid s), s)) s
      else bind_ct (ct_observe m) (\<lambda>_. await_home dl current ins) s)"

definition refresh_home :: "real \<Rightarrow> real \<Rightarrow> home_in list \<Rightarrow> bool \<Rightarrow> bool ct" where
  "refresh_home t timeout ins current = bind_ct (request_home_position t) (\<lambda>_. await_home (t + timeout) current ins)"

definition sync_navigation :: "rover_control \<Rightarrow> rover_nav \<Rightarrow> rover_nav" where
  "sync_navigation s n =
     (let g = int (ct_generation s); n1 = n\<lparr>nv_generation := g\<rparr> in
      if ct_home_valid s then n1\<lparr>nv_home := (g, ct_home_updated s)\<rparr> else n1)"

subsection \<open>Connection\<close>

text \<open>
  What \<open>connect\<close> finds: the heartbeat is fresh; a port answered (with its system, its modes and the parameters its RC
  limits were read from) at some time; a port answered but the request of its home position raised, and no later port
  answered, which leaves the connection in place and returns False; or no port answered. Only the first answer loads the
  limits.
\<close>

datatype ct_found = Kept | Connected real int "string list" rc_limits | HalfConnected real int "string list" rc_limits
  | NoConnection

definition ct_close :: "rover_control \<Rightarrow> rover_control" where
  "ct_close s = learn NewConnection (s\<lparr>ct_manual := None, ct_generation := ct_generation s + 1, ct_home_valid := False,
     ct_home_updated := 0, ct_manager := None\<rparr>)"

definition ct_opened :: "int \<Rightarrow> string list \<Rightarrow> rc_limits \<Rightarrow> rover_control \<Rightarrow> rover_control" where
  "ct_opened sys modes limits s = (ct_close s)\<lparr>ct_target := sys, ct_modes := modes, ct_manager := Some (rover_manager_init [] [] []),
     ct_limits := (if ct_loaded s then ct_limits s else limits), ct_loaded := True\<rparr>"

definition ct_connect :: "ct_found \<Rightarrow> rover_control \<Rightarrow> bool \<times> rover_control" where
  "ct_connect k s = (case k of
     Kept \<Rightarrow> (True, s)
   | NoConnection \<Rightarrow> (False, ct_close s)
   | HalfConnected t sys modes limits \<Rightarrow> (False, (ct_opened sys modes limits s)\<lparr>ct_home_request := t\<rparr>)
   | Connected t sys modes limits \<Rightarrow>
       let s1 = ct_opened sys modes limits s in
       (True, if t - ct_home_request s1 < 1 then s1 else learn HomeRequest (s1\<lparr>ct_home_request := t\<rparr>)))"

subsection \<open>\<open>apply\<close>\<close>

text \<open>
  What the execution of a command meets: the connection, the clock at the waits for a mode, for \<open>auto\<close> the clock and the
  messages of \<open>refresh_home\<close> and the clock of the gate. \<open>nav\<close> is the navigation state of the agent's telemetry.
\<close>

record apply_input =
  ai_connect :: ct_found
  ai_t1 :: real
  ai_t2 :: real
  ai_home_clock :: real
  ai_home_in :: "home_in list"
  ai_nav :: rover_nav
  ai_now :: real

definition manager_verified :: "rover_control \<Rightarrow> bool" where
  "manager_verified s = (case ct_manager s of None \<Rightarrow> False | Some m \<Rightarrow> ms_verified (ra_status m) \<and> ra_items m \<noteq> [])"

text \<open>The part behind \<open>refresh_home\<close>, which keeps the manager\<close>

definition gate_and_start :: "rm_config \<Rightarrow> apply_input \<Rightarrow> bool \<Rightarrow> (bool \<times> string) ct" where
  "gate_and_start c i home s0 =
     (let s = s0\<lparr>ct_home_valid := home\<rparr> in
      case ct_manager s of
        None \<Rightarrow> (Waits, s)
      | Some g \<Rightarrow>
        (case refresh_execution_readiness c home (sync_navigation s (ai_nav i)) (Some (ai_now i)) g of
           (Fail e, m) \<Rightarrow> (Raises (CtManager e), s\<lparr>ct_manager := Some m\<rparr>)
         | (Blocked, m) \<Rightarrow> (Waits, s\<lparr>ct_manager := Some m\<rparr>)
         | (Done (ready, reason), m) \<Rightarrow>
             let s2 = s\<lparr>ct_manager := Some m\<rparr> in
             if \<not> ready then (Returns (False, ''AUTO blocked: '' @ reason), s2)
             else bind_ct (set_mode (ai_t1 i) ''AUTO'' (5 / 2)) (\<lambda>_ s.
                 (Returns (True, ''verified mission AUTO confirmed''),
                  s\<lparr>ct_manager := map_option (on_status (\<lambda>t. t\<lparr>ms_completed := False\<rparr>)) (ct_manager s)\<rparr>)) s2))"

definition apply_auto :: "rm_config \<Rightarrow> apply_input \<Rightarrow> (bool \<times> string) ct" where
  "apply_auto c i s =
     (if \<not> manager_verified s then (Returns (False, ''mission re-upload required before AUTO''), s)
      else bind_ct (refresh_home (ai_home_clock i) 1 (ai_home_in i) (ct_home_valid s)) (gate_and_start c i) s)"

definition no_fix :: "rover_nav \<Rightarrow> bool" where
  "no_fix n \<longleftrightarrow> nv_fix n < 3 \<or> nv_satellites n < 6 \<or> \<bar>nv_lat n\<bar> < 1 / 1000000 \<or> \<bar>nv_lng n\<bar> < 1 / 1000000"

definition tiny :: "pyfloat \<Rightarrow> bool" where
  "tiny x \<longleftrightarrow> (case x of Fin m e \<Rightarrow> \<bar>dec_val m e\<bar> < 1 / 1000000 | _ \<Rightarrow> False)"

definition run_command :: "rm_config \<Rightarrow> apply_input \<Rightarrow> rover_command \<Rightarrow> (bool \<times> string) ct" where
  "run_command c i k =
     (let cmd = ru_command k in
      if cmd \<in> {''noop'', []} then ret_ct (True, ''noop'')
      else if cmd \<in> {''stop'', ''brake''} then bind_ct stop (\<lambda>_. ret_ct (True, ''stopped''))
      else if cmd = ''arm'' then safe_arm (ai_t1 i) (ai_t2 i)
      else if cmd = ''disarm'' then arm_vehicle False
      else if cmd \<in> {''manual'', ''drive''} then
        bind_ct (manual (ai_t1 i) (ru_steering k) (ru_throttle k)) (\<lambda>_. ret_ct (True, ''manual control sent''))
      else if cmd = ''auto'' then apply_auto c i
      else if cmd \<in> {''guided'', ''hold''} then
        bind_ct (set_mode (ai_t1 i) (py_upper cmd) (5 / 2)) (\<lambda>_. ret_ct (True, ''mode '' @ cmd @ '' sent''))
      else if cmd = ''mission'' then ret_ct (False, ''mission requires full mission payload'')
      else if cmd \<in> {''goto'', ''waypoint''} then
        (if tiny (ru_lat k) \<or> tiny (ru_lng k) then ret_ct (False, ''invalid waypoint'')
         else if no_fix (ai_nav i) then ret_ct (False, ''no rover GPS fix'')
         else bind_ct (goto (ai_t1 i) (ru_lat k) (ru_lng k) (ru_speed k)) (\<lambda>_. ret_ct (True, ''waypoint sent'')))
      else ret_ct (False, ''unknown command '' @ cmd))"

text \<open>\<open>free\<close>: no mission transaction holds the lock. An exception becomes a refusal with its text\<close>

definition apply_command :: "rm_config \<Rightarrow> bool \<Rightarrow> apply_input \<Rightarrow> rover_command \<Rightarrow> (bool \<times> string) ct" where
  "apply_command c free i k s =
     (if \<not> free then (Returns (False, ''flight controller busy: mission transaction active''), s)
      else (case ct_connect (ai_connect i) s of
          (False, s1) \<Rightarrow> (Returns (False, ''flight controller not connected''), s1)
        | (True, s1) \<Rightarrow> catch_ct (run_command c i k) (\<lambda>e. ret_ct (False, ''error'')) s1))"

text \<open>A mission job replaces the manager and uploads with it, when the connection is there\<close>

definition run_mission_job :: "rm_config \<Rightarrow> ct_found \<Rightarrow> mission_item list \<Rightarrow> rm_exc + bool \<times> rover_nav \<Rightarrow>
    real list \<Rightarrow> rm_in list \<Rightarrow> bool list \<Rightarrow> rm_result ct" where
  "run_mission_job c k items post clk ins oks s =
     (case ct_connect k s of
        (False, s1) \<Rightarrow> (Raises (CtManager (RmMission ''flight controller not connected'')), s1)
      | (True, s1) \<Rightarrow> (case upload_and_verify c items post (rover_manager_init clk ins oks) of
          (Done r, m) \<Rightarrow> (Returns r, s1\<lparr>ct_manager := Some m\<rparr>)
        | (Fail e, m) \<Rightarrow> (Raises (CtManager e), s1\<lparr>ct_manager := Some m\<rparr>)
        | (Blocked, m) \<Rightarrow> (Waits, s1\<lparr>ct_manager := Some m\<rparr>)))"

end
