(* ===== verification/RoverControlProps.thy ===== *)
theory RoverControlProps
  imports RoverControl RoverMissionProps
begin

text \<open>
  The rover is driven only in a confirmed MANUAL mode and set to AUTO only for a mission that was read back;
  arming does not wait for the mode it asks for; and a value that is not a number is full throttle.
\<close>

subsection \<open>Evidence of the mode\<close>

text \<open>What is known of the mode after the events of a lg: the last confirmed or observed mode, unless another was
  requested or the connection was lost since\<close>

fun mode_after :: "string option \<Rightarrow> ct_event \<Rightarrow> string option" where
  "mode_after ev (ModeConfirmed m) = Some m"
| "mode_after ev (ModeSeen m) = Some m"
| "mode_after ev (ModeRequest m) = (if ev = Some m then ev else None)"
| "mode_after ev NewConnection = None"
| "mode_after ev _ = ev"

definition mode_evidence :: "ct_event list \<Rightarrow> string option" where
  "mode_evidence lg = foldl mode_after None lg"

fun drives :: "ct_event \<Rightarrow> bool" where
  "drives (RcOverride st th x y) = (st \<noteq> 0 \<or> th \<noteq> 0)"
| "drives _ = False"

definition driven_in_manual :: "ct_event list \<Rightarrow> bool" where
  "driven_in_manual lg \<longleftrightarrow> (\<forall>k < length lg. drives (lg ! k) \<longrightarrow> mode_evidence (take k lg) = Some ''MANUAL'')"

definition ct_inv :: "rover_control \<Rightarrow> bool" where
  "ct_inv s \<longleftrightarrow> driven_in_manual (ct_log s)
     \<and> (\<forall>m. ct_manual s = Some m \<longrightarrow> m = ''MANUAL'' \<and> mode_evidence (ct_log s) = Some ''MANUAL'')"

lemma mode_evidence_snoc [simp]: "mode_evidence (lg @ [e]) = mode_after (mode_evidence lg) e"
  by (simp add: mode_evidence_def)

lemma driven_snoc [simp]:
  "driven_in_manual (lg @ [e]) \<longleftrightarrow> driven_in_manual lg \<and> (drives e \<longrightarrow> mode_evidence lg = Some ''MANUAL'')"
  unfolding driven_in_manual_def by (auto simp: nth_append less_Suc_eq all_conj_distrib)

definition preserves :: "(rover_control \<Rightarrow> bool) \<Rightarrow> 'a ct \<Rightarrow> bool" where
  "preserves I m \<longleftrightarrow> (\<forall>s r s'. I s \<longrightarrow> m s = (r, s') \<longrightarrow> I s')"

lemma preservesD: "preserves I m \<Longrightarrow> I s \<Longrightarrow> m s = (r, s') \<Longrightarrow> I s'"
  unfolding preserves_def by blast

lemma preserves_bind:
  assumes "preserves I m" and "\<And>a. preserves I (f a)"
  shows "preserves I (bind_ct m f)"
  unfolding preserves_def
proof (intro allI impI)
  fix s r s' assume i: "I s" and b: "bind_ct m f s = (r, s')"
  obtain x s1 where x: "m s = (x, s1)" by (cases "m s")
  have "I s1" using preservesD [OF assms(1) i x] .
  with b x preservesD [OF assms(2)] show "I s'" by (cases x) (auto simp: bind_ct_def)
qed

lemma preserves_catch:
  assumes "preserves I m" and "\<And>e. preserves I (h e)"
  shows "preserves I (catch_ct m h)"
  unfolding preserves_def
proof (intro allI impI)
  fix s r s' assume i: "I s" and b: "catch_ct m h s = (r, s')"
  obtain x s1 where x: "m s = (x, s1)" by (cases "m s")
  have "I s1" using preservesD [OF assms(1) i x] .
  with b x preservesD [OF assms(2)] show "I s'" by (cases x) (auto simp: catch_ct_def)
qed

abbreviation holds :: "'a ct \<Rightarrow> bool" where
  "holds \<equiv> preserves ct_inv"

lemmas holds_def = preserves_def [of ct_inv]
lemmas holdsD = preservesD [of ct_inv]
lemmas holds_bind = preserves_bind [of ct_inv]
lemmas holds_catch = preserves_catch [of ct_inv]

lemma holds_ret [simp]: "holds (ret_ct a)"
  by (simp add: holds_def ret_ct_def)

lemma inv_inputs [simp]:
  "ct_inv (s\<lparr>ct_sends_ok := q\<rparr>) = ct_inv s" "ct_inv (s\<lparr>ct_waits := w\<rparr>) = ct_inv s" "ct_inv (s\<lparr>ct_acks := a\<rparr>) = ct_inv s"
  "ct_inv (s\<lparr>ct_manager := g\<rparr>) = ct_inv s" "ct_inv (s\<lparr>ct_home_valid := h\<rparr>) = ct_inv s"
  "ct_inv (s\<lparr>ct_home_updated := t\<rparr>) = ct_inv s" "ct_inv (s\<lparr>ct_home_request := t\<rparr>) = ct_inv s"
  by (simp_all add: ct_inv_def)

definition harmless :: "ct_event \<Rightarrow> bool" where
  "harmless e \<longleftrightarrow> (\<forall>ev. mode_after ev e = ev) \<and> \<not> drives e"

lemma harmless_events [simp]:
  "harmless (RcOverride 0 0 x y)" "harmless (ArmCommand b)" "harmless (SpeedCommand v)" "harmless (PositionTarget p q)"
  "harmless HomeRequest"
  by (simp_all add: harmless_def)

lemma inv_learn: "ct_inv s \<Longrightarrow> harmless e \<Longrightarrow> ct_inv (learn e s)"
  by (auto simp: ct_inv_def learn_def harmless_def)

lemma holds_send: "harmless e \<Longrightarrow> holds (ct_send e)"
  unfolding holds_def ct_send_def by (auto intro: inv_learn split: list.splits bool.splits)

lemma holds_neutral [simp]: "holds (rc_override 0 0)"
proof -
  have "holds (\<lambda>s. ct_send (RcOverride 0 0 (f s) (g s)) s)" for f g :: "rover_control \<Rightarrow> int"
    using holds_send [OF harmless_events(1)] unfolding holds_def by blast
  then show ?thesis by (simp add: rc_override_def [abs_def] Let_def)
qed

lemma holds_stop [simp]: "holds stop"
  unfolding stop_def by (intro holds_bind holds_neutral)

lemma holds_arm [simp]: "holds (arm_vehicle b)"
  unfolding arm_vehicle_def
  by (intro holds_bind holds_send harmless_events) (auto simp: holds_def split: list.splits)

text \<open>While a mode is awaited, a manual mode that is kept is the requested one\<close>

lemma await_mode_inv:
  "await_mode rq dl ws s = (r, s') \<Longrightarrow> ct_inv s \<Longrightarrow> (\<forall>m. ct_manual s = Some m \<longrightarrow> m = rq) \<Longrightarrow>
     ct_inv s' \<and> ct_manual s' = ct_manual s \<and> (\<forall>m. r = Returns m \<longrightarrow> m = rq \<and> mode_evidence (ct_log s') = Some rq)"
proof (induction rq dl ws s rule: await_mode.induct)
  case (4 rq dl t src mode ws s)
  show ?case
  proof (cases "t < dl \<and> \<not> (src \<noteq> 0 \<and> src \<noteq> ct_target s) \<and> py_upper mode = rq")
    case True
    with 4 show ?thesis by (auto simp: ct_inv_def learn_def)
  next
    case False
    with 4 show ?thesis by (auto split: if_splits)
  qed
qed (auto split: if_splits)

lemma set_mode_inv:
  assumes "set_mode t0 mode tmo s = (r, s')" and "ct_inv s"
  shows "ct_inv s' \<and> (\<forall>m. ct_manual s' = Some m \<longrightarrow> ct_manual s = Some m)
    \<and> (\<forall>m. r = Returns m \<longrightarrow> m = py_upper (py_strip mode) \<and> mode_evidence (ct_log s') = Some m)"
proof -
  let ?rq = "py_upper (py_strip mode)"
  let ?s1 = "case ct_manual s of Some m \<Rightarrow> if m \<noteq> [] \<and> ?rq \<noteq> m then s\<lparr>ct_manual := None\<rparr> else s | None \<Rightarrow> s"
  have i: "ct_inv ?s1" "\<forall>m. ct_manual ?s1 = Some m \<longrightarrow> m = ?rq \<and> ct_manual s = Some m"
    using assms(2) by (auto simp: ct_inv_def split: option.splits if_splits)
  show ?thesis
  proof (cases "?rq \<in> set (ct_modes ?s1)")
    case False
    with assms i show ?thesis by (auto simp: set_mode_def Let_def)
  next
    case True
    then have b: "bind_ct (ct_send (ModeRequest ?rq)) (\<lambda>_ s. await_mode ?rq (t0 + max (1 / 100) tmo) (ct_waits s) s) ?s1 = (r, s')"
      using assms(1) by (simp add: set_mode_def Let_def)
    obtain x s2 where x: "ct_send (ModeRequest ?rq) ?s1 = (x, s2)" by (cases "ct_send (ModeRequest ?rq) ?s1")
    have s2: "ct_inv s2" "ct_manual s2 = ct_manual ?s1"
      using x i by (auto simp: ct_send_def ct_inv_def learn_def split: list.splits bool.splits)
    show ?thesis
    proof (cases x)
      case (Returns u)
      with b x have a: "await_mode ?rq (t0 + max (1 / 100) tmo) (ct_waits s2) s2 = (r, s')" by (simp add: bind_ct_def)
      have "\<forall>m. ct_manual s2 = Some m \<longrightarrow> m = ?rq" using s2(2) i(2) by simp
      from await_mode_inv [OF a s2(1) this] s2(2) i(2) show ?thesis by auto
    next
      case (Raises e)
      with b x s2 i show ?thesis by (auto simp: bind_ct_def)
    next
      case Waits
      with b x s2 i show ?thesis by (auto simp: bind_ct_def)
    qed
  qed
qed

lemma holds_set_mode [simp]: "holds (set_mode t0 mode tmo)"
  unfolding holds_def using set_mode_inv by blast

lemma override_inv:
  assumes "ct_inv s" and "ct_manual s = Some ''MANUAL''" and "rc_override st th s = (r, s')"
  shows "ct_inv s'"
  using assms unfolding rc_override_def ct_send_def
  by (auto simp: Let_def ct_inv_def learn_def split: list.splits bool.splits)

lemma inv_no_manual: "ct_inv s \<Longrightarrow> ct_inv (s\<lparr>ct_manual := None\<rparr>)"
  by (simp add: ct_inv_def)

lemma manual_drives: "py_upper (py_strip ''MANUAL'') = ''MANUAL''"
  by code_simp

lemma confirmed_manual_inv:
  assumes "set_mode t0 ''MANUAL'' tmo s = (Returns c, s')" and "ct_inv s"
  shows "c = ''MANUAL'' \<and> ct_inv (s'\<lparr>ct_manual := Some ''MANUAL''\<rparr>)"
  using set_mode_inv [OF assms] by (simp add: manual_drives ct_inv_def)

lemma holds_manual [simp]: "holds (manual t0 st th)"
  unfolding holds_def
proof (intro allI impI)
  fix s r s' assume i: "ct_inv s" and m: "manual t0 st th s = (r, s')"
  consider (neutral) "st = 0 \<and> th = 0" | (kept) "\<not> (st = 0 \<and> th = 0)" "ct_manual s = Some ''MANUAL''"
    | (asked) "\<not> (st = 0 \<and> th = 0)" "ct_manual s \<noteq> Some ''MANUAL''" by blast
  then show "ct_inv s'"
  proof cases
    case neutral
    with m have "rc_override 0 0 s = (r, s')" by (simp only: manual_def if_True simp_thms)
    with i show ?thesis by (rule holdsD [OF holds_neutral])
  next
    case kept
    with m have "rc_override st th s = (r, s')" by (simp only: manual_def if_True if_False refl)
    with i kept(2) show ?thesis by (rule override_inv)
  next
    case asked
    let ?s = "s\<lparr>ct_manual := None\<rparr>"
    obtain x s1 where x: "set_mode t0 ''MANUAL'' (5 / 2) ?s = (x, s1)" by (cases "set_mode t0 ''MANUAL'' (5 / 2) ?s")
    have n: "ct_inv ?s" by (rule inv_no_manual [OF i])
    have g: "(case (x, s1) of
        (Returns c, s) \<Rightarrow> (let confirmed = py_upper (py_strip c) in
          if confirmed \<noteq> ''MANUAL'' then (Raises (CtRuntime ''MANUAL not confirmed''), s)
          else rc_override st th (s\<lparr>ct_manual := Some confirmed\<rparr>))
      | (Raises e, s) \<Rightarrow> (Raises e, s) | (Waits, s) \<Rightarrow> (Waits, s)) = (r, s')"
      using m asked by (simp only: manual_def bind_ct_def x if_False)
    show ?thesis
    proof (cases x)
      case (Returns c)
      with x n have c: "c = ''MANUAL''" "ct_inv (s1\<lparr>ct_manual := Some ''MANUAL''\<rparr>)"
        using confirmed_manual_inv by blast+
      have "rc_override st th (s1\<lparr>ct_manual := Some ''MANUAL''\<rparr>) = (r, s')"
        using g unfolding Returns c(1)
        by (simp only: prod.case cres.case Let_def manual_drives refl not_True_eq_False if_False)
      from override_inv [OF c(2) _ this] show ?thesis by simp
    qed (use g set_mode_inv [OF x n] in \<open>simp_all only: prod.case cres.case prod.inject\<close>)
  qed
qed

text \<open>A call of \<open>manual\<close> sends at once, fails to confirm MANUAL, or sends after the confirmation\<close>

lemma manual_cases:
  assumes "manual t0 st th s = (r, s')"
  obtains (direct) x y where "rc_override x y s = (r, s')"
    | (refused) x where "set_mode t0 ''MANUAL'' (5 / 2) (s\<lparr>ct_manual := None\<rparr>) = (x, s')"
    | (confirmed) x s1 where "set_mode t0 ''MANUAL'' (5 / 2) (s\<lparr>ct_manual := None\<rparr>) = (x, s1)"
        and "rc_override st th (s1\<lparr>ct_manual := Some ''MANUAL''\<rparr>) = (r, s')"
proof -
  let ?f = "\<lambda>c s. let confirmed = py_upper (py_strip c) in
          if confirmed \<noteq> ''MANUAL'' then (Raises (CtRuntime ''MANUAL not confirmed''), s)
          else rc_override st th (s\<lparr>ct_manual := Some confirmed\<rparr>)"
  obtain x s1 where x: "set_mode t0 ''MANUAL'' (5 / 2) (s\<lparr>ct_manual := None\<rparr>) = (x, s1)"
    by (cases "set_mode t0 ''MANUAL'' (5 / 2) (s\<lparr>ct_manual := None\<rparr>)")
  consider "rc_override 0 0 s = (r, s')" | "rc_override st th s = (r, s')"
    | "bind_ct (set_mode t0 ''MANUAL'' (5 / 2)) ?f (s\<lparr>ct_manual := None\<rparr>) = (r, s')"
    using assms unfolding manual_def by presburger
  then show ?thesis
  proof cases
    case 3
    then have b: "(case (x, s1) of (Returns a, s') \<Rightarrow> ?f a s' | (Raises e, s') \<Rightarrow> (Raises e, s') | (Waits, s') \<Rightarrow> (Waits, s')) = (r, s')"
      by (simp only: bind_ct_def x)
    show ?thesis
    proof (cases x)
      case (Returns c)
      show ?thesis
      proof (cases "py_upper (py_strip c) = ''MANUAL''")
        case True
        with b Returns have "rc_override st th (s1\<lparr>ct_manual := Some ''MANUAL''\<rparr>) = (r, s')"
          by (simp only: prod.case cres.case Let_def simp_thms if_False)
        with x show ?thesis by (rule confirmed)
      next
        case False
        with b Returns have "s' = s1" by simp
        with x refused show ?thesis by blast
      qed
    qed (use b x refused in simp_all)
  qed (use direct in blast)+
qed

lemma holds_mode_unit [simp]: "holds (bind_ct (set_mode t m d) (\<lambda>_. ret_ct u))"
  by (intro holds_bind holds_set_mode holds_ret)

lemma holds_raise [simp]: "holds (\<lambda>s. (Raises e, s))"
  by (simp add: holds_def)

lemma holds_goto [simp]: "holds (goto t0 lat lng speed)"
  unfolding goto_def scaled_degrees_def
  by (intro holds_bind holds_catch holds_mode_unit) (auto intro!: holds_bind holds_send split: sum.split)

lemma holds_safe_arm [simp]: "holds (safe_arm t1 t2)"
  unfolding safe_arm_def by (intro holds_bind holds_catch) simp_all

lemma holds_completed: "holds (\<lambda>s. (Returns x, s\<lparr>ct_manager := f s\<rparr>))"
  by (simp add: holds_def)

lemma holds_request_home: "holds (request_home_position t)"
proof -
  have "holds (bind_ct (ct_send HomeRequest) (\<lambda>_. ret_ct True))" by (intro holds_bind holds_send holds_ret) simp
  then show ?thesis unfolding request_home_position_def preserves_def by (metis inv_inputs(7) Pair_inject)
qed

lemma holds_observe: "holds (ct_observe m)"
  by (auto simp: preserves_def ct_observe_def split: option.splits prod.splits rres.splits)

lemma holds_home_position: "holds (home_position t m)"
  by (auto simp: preserves_def home_position_def Let_def split: option.splits)

lemma await_home_cases:
  assumes "await_home dl current (HomeMsg t m # ins) s = (r, s')"
  obtains (over) "s' = s" | (home) "bind_ct (home_position t m) (\<lambda>_ s. (Returns (ct_home_valid s), s)) s = (r, s')"
    | (other) "bind_ct (ct_observe m) (\<lambda>_. await_home dl current ins) s = (r, s')"
proof (cases "t < dl")
  case True
  show ?thesis
  proof (cases "fm_type m = ''HOME_POSITION''")
    case True
    with assms \<open>t < dl\<close> show ?thesis by (intro home) (simp only: await_home.simps not_True_eq_False if_False if_True refl)
  next
    case False
    with assms \<open>t < dl\<close> show ?thesis by (intro other) (simp only: await_home.simps not_True_eq_False if_False)
  qed
next
  case False
  with assms over show ?thesis by simp
qed

lemma holds_await_home: "holds (await_home dl current ins)"
proof (induction ins)
  case (Cons w ins)
  show ?case
  proof (cases w)
    case (HomeMsg t m)
    have "holds (bind_ct (home_position t m) (\<lambda>_ s. (Returns (ct_home_valid s), s)))"
      by (intro holds_bind holds_home_position) (simp add: preserves_def)
    moreover have "holds (bind_ct (ct_observe m) (\<lambda>_. await_home dl current ins))" by (intro holds_bind holds_observe Cons)
    ultimately show ?thesis
      unfolding HomeMsg preserves_def by (intro allI impI) (elim await_home_cases; blast)
  qed (auto simp: preserves_def)
qed (simp add: preserves_def)

lemma holds_refresh_home: "holds (refresh_home t timeout ins current)"
  unfolding refresh_home_def by (intro holds_bind holds_request_home holds_await_home)

lemma holds_gate: "holds (gate_and_start c i home)"
  unfolding preserves_def
proof (intro allI impI)
  fix s r s' assume i: "ct_inv s" and a: "gate_and_start c i home s = (r, s')"
  let ?k = "bind_ct (set_mode (ai_t1 i) ''AUTO'' (5 / 2)) (\<lambda>_ s.
                 (Returns (True, ''verified mission AUTO confirmed''),
                  s\<lparr>ct_manager := map_option (on_status (\<lambda>t. t\<lparr>ms_completed := False\<rparr>)) (ct_manager s)\<rparr>))"
  have k: "holds ?k" by (intro holds_bind holds_set_mode holds_completed)
  let ?s = "s\<lparr>ct_home_valid := home\<rparr>"
  show "ct_inv s'"
  proof (cases "ct_manager ?s")
    case None
    with i a show ?thesis by (auto simp: gate_and_start_def Let_def)
  next
    case (Some g)
    obtain x m where x: "refresh_execution_readiness c home (sync_navigation ?s (ai_nav i)) (Some (ai_now i)) g = (x, m)"
      by (cases "refresh_execution_readiness c home (sync_navigation ?s (ai_nav i)) (Some (ai_now i)) g")
    have j: "ct_inv (?s\<lparr>ct_manager := Some m\<rparr>)" using i by (simp only: inv_inputs)
    note a' = a [unfolded gate_and_start_def Let_def Some option.case x prod.case]
    show ?thesis
    proof (cases x)
      case (Done p)
      obtain ready reason where p: "p = (ready, reason)" by (cases p)
      show ?thesis
      proof (cases ready)
        case True
        with a' Done p have "?k (?s\<lparr>ct_manager := Some m\<rparr>) = (r, s')" by (simp only: rres.case prod.case not_True_eq_False if_False)
        with j show ?thesis by (rule holdsD [OF k])
      next
        case False
        with a' Done p j show ?thesis by simp
      qed
    qed (use a' j in simp_all)
  qed
qed

lemma holds_auto [simp]: "holds (apply_auto c i)"
  unfolding preserves_def
proof (intro allI impI)
  fix s r s' assume i: "ct_inv s" and a: "apply_auto c i s = (r, s')"
  have k: "holds (bind_ct (refresh_home (ai_home_clock i) 1 (ai_home_in i) b) (gate_and_start c i))" for b
    by (intro holds_bind holds_refresh_home holds_gate)
  show "ct_inv s'"
  proof (cases "manager_verified s")
    case True
    with a have "bind_ct (refresh_home (ai_home_clock i) 1 (ai_home_in i) (ct_home_valid s)) (gate_and_start c i) s = (r, s')"
      by (simp only: apply_auto_def not_True_eq_False if_False)
    with i show ?thesis by (rule holdsD [OF k])
  next
    case False
    with i a show ?thesis by (simp add: apply_auto_def)
  qed
qed

lemma holds_run_command [simp]: "holds (run_command c i k)"
  unfolding run_command_def by (auto simp: Let_def intro: holds_bind)

lemma inv_close: "ct_inv s \<Longrightarrow> ct_inv (ct_close s)"
  by (auto simp: ct_inv_def ct_close_def learn_def)

lemma inv_opened: "ct_inv s \<Longrightarrow> ct_inv (ct_opened sys modes limits s)"
  using inv_close [of s] by (simp add: ct_opened_def ct_inv_def)

lemma inv_connect: "ct_inv s \<Longrightarrow> ct_connect k s = (b, s') \<Longrightarrow> ct_inv s'"
  by (auto simp: ct_connect_def Let_def inv_opened inv_learn inv_close split: ct_found.splits if_splits)

lemma holds_apply: "holds (apply_command c free i k)"
proof -
  have "holds (catch_ct (run_command c i k) (\<lambda>e. ret_ct (False, ''error'')))" by (intro holds_catch) simp_all
  then show ?thesis
    unfolding holds_def apply_command_def by (auto dest: inv_connect split: if_splits prod.splits bool.splits)
qed

lemma inv_observed:
  assumes "ct_inv s"
  shows "ct_inv (record_observed_mode m s)"
  using assms by (auto simp: record_observed_mode_def Let_def ct_inv_def learn_def split: option.splits)

lemma holds_try [simp]: "holds (try_neutral free)" "holds (try_stop free)"
  unfolding try_neutral_def try_stop_def try_locked_def by (auto intro: holds_bind)

lemma holds_job: "holds (run_mission_job c k items post clk ins oks)"
  unfolding holds_def run_mission_job_def by (auto dest: inv_connect split: prod.splits bool.splits rres.splits)

subsection \<open>Runs\<close>

text \<open>The calls of the agent's loop and of the mission thread, one at a time under the session lock\<close>

inductive ct_run :: "rm_config \<Rightarrow> rover_control \<Rightarrow> bool" for c where
  ct_start: "ct_run c rover_control_init"
| ct_supplied: "ct_run c s \<Longrightarrow> ct_run c (s\<lparr>ct_waits := ws, ct_acks := as, ct_sends_ok := oks\<rparr>)"
| ct_observed: "ct_run c s \<Longrightarrow> ct_run c (record_observed_mode m s)"
| ct_manager_observed: "ct_run c s \<Longrightarrow> ct_manager s = Some g \<Longrightarrow> observe m g = (x, g') \<Longrightarrow> ct_run c (s\<lparr>ct_manager := Some g'\<rparr>)"
| ct_applied: "ct_run c s \<Longrightarrow> apply_command c free i k s = (r, s') \<Longrightarrow> ct_run c s'"
| ct_neutral: "ct_run c s \<Longrightarrow> try_neutral free s = (r, s') \<Longrightarrow> ct_run c s'"
| ct_stopped: "ct_run c s \<Longrightarrow> try_stop free s = (r, s') \<Longrightarrow> ct_run c s'"
| ct_mission: "ct_run c s \<Longrightarrow> run_mission_job c k items post clk ins oks s = (r, s') \<Longrightarrow> r \<noteq> Waits \<Longrightarrow> ct_run c s'"

lemma run_inv: "ct_run c s \<Longrightarrow> ct_inv s"
proof (induction rule: ct_run.induct)
  case ct_start
  then show ?case by (simp add: ct_inv_def rover_control_init_def driven_in_manual_def)
next
  case (ct_supplied s ws as oks)
  then show ?case by (simp add: ct_inv_def)
qed (auto intro: inv_observed holdsD [OF holds_apply] holdsD [OF holds_try(1)] holdsD [OF holds_try(2)] holdsD [OF holds_job])

subsection \<open>What a call adds to the log\<close>

definition emits :: "ct_event set \<Rightarrow> 'a ct \<Rightarrow> bool" where
  "emits A m \<longleftrightarrow> (\<forall>s r s'. m s = (r, s') \<longrightarrow> (\<exists>es. ct_log s' = ct_log s @ es \<and> set es \<subseteq> A))"

lemma emitsE:
  assumes "emits A m" and "m s = (r, s')"
  obtains es where "ct_log s' = ct_log s @ es" and "set es \<subseteq> A"
  using assms unfolding emits_def by blast

lemma emits_mono: "emits A m \<Longrightarrow> A \<subseteq> B \<Longrightarrow> emits B m"
  unfolding emits_def by blast

lemma emits_pure: "(\<And>s r s'. m s = (r, s') \<Longrightarrow> ct_log s' = ct_log s) \<Longrightarrow> emits A m"
  unfolding emits_def by (metis append_Nil2 empty_subsetI list.set(1))

lemma emits_ret [simp]: "emits A (ret_ct a)" "emits A (\<lambda>s. (Raises e, s))" "emits A (\<lambda>s. (Returns x, s\<lparr>ct_manager := f s\<rparr>))"
  by (auto intro: emits_pure simp: ret_ct_def)

lemma emits_bind:
  assumes "emits A m" and "\<And>a. emits A (f a)"
  shows "emits A (bind_ct m f)"
  unfolding emits_def
proof (intro allI impI)
  fix s r s' assume b: "bind_ct m f s = (r, s')"
  obtain x s1 where x: "m s = (x, s1)" by (cases "m s")
  from emitsE [OF assms(1) x] obtain es where e: "ct_log s1 = ct_log s @ es" "set es \<subseteq> A" .
  show "\<exists>es. ct_log s' = ct_log s @ es \<and> set es \<subseteq> A"
  proof (cases x)
    case (Returns a)
    with b x have "f a s1 = (r, s')" by (simp add: bind_ct_def)
    from emitsE [OF assms(2) this] e show ?thesis by fastforce
  qed (use b x e in \<open>auto simp: bind_ct_def\<close>)
qed

lemma emits_catch:
  assumes "emits A m" and "\<And>e. emits A (h e)"
  shows "emits A (catch_ct m h)"
  unfolding emits_def
proof (intro allI impI)
  fix s r s' assume b: "catch_ct m h s = (r, s')"
  obtain x s1 where x: "m s = (x, s1)" by (cases "m s")
  from emitsE [OF assms(1) x] obtain es where e: "ct_log s1 = ct_log s @ es" "set es \<subseteq> A" .
  show "\<exists>es. ct_log s' = ct_log s @ es \<and> set es \<subseteq> A"
  proof (cases x)
    case (Raises y)
    with b x have "h y s1 = (r, s')" by (simp add: catch_ct_def)
    from emitsE [OF assms(2) this] e show ?thesis by fastforce
  qed (use b x e in \<open>auto simp: catch_ct_def\<close>)
qed

lemma emits_send: "e \<in> A \<Longrightarrow> emits A (ct_send e)"
  unfolding emits_def ct_send_def by (auto simp: learn_def split: list.splits bool.splits)

lemma emits_override: "(\<And>x y. RcOverride st th x y \<in> A) \<Longrightarrow> emits A (rc_override st th)"
  using emits_send unfolding emits_def rc_override_def Let_def by blast

lemma await_mode_log:
  "await_mode rq dl ws s = (r, s') \<Longrightarrow> \<exists>es. ct_log s' = ct_log s @ es \<and> set es \<subseteq> {ModeConfirmed rq}"
proof (induction rq dl ws s rule: await_mode.induct)
  case (4 rq dl t src mode ws s)
  show ?case
  proof (cases "t < dl \<and> \<not> (src \<noteq> 0 \<and> src \<noteq> ct_target s) \<and> py_upper mode = rq")
    case True
    with 4 show ?thesis by (auto simp: learn_def)
  next
    case False
    with 4 show ?thesis by (auto split: if_splits)
  qed
qed (auto split: if_splits)

lemma emits_set_mode:
  assumes "ModeRequest (py_upper (py_strip mode)) \<in> A" and "ModeConfirmed (py_upper (py_strip mode)) \<in> A"
  shows "emits A (set_mode t0 mode tmo)"
proof -
  let ?rq = "py_upper (py_strip mode)"
  let ?f = "\<lambda>s. case ct_manual s of Some m \<Rightarrow> if m \<noteq> [] \<and> ?rq \<noteq> m then s\<lparr>ct_manual := None\<rparr> else s | None \<Rightarrow> s"
  let ?m = "bind_ct (ct_send (ModeRequest ?rq)) (\<lambda>_ s. await_mode ?rq (t0 + max (1 / 100) tmo) (ct_waits s) s)"
  have "emits A (\<lambda>s. await_mode ?rq d (ct_waits s) s)" for d
    using assms(2) await_mode_log unfolding emits_def by blast
  then have m: "emits A ?m" using assms(1) by (intro emits_bind emits_send)
  have f: "ct_log (?f s) = ct_log s" for s by (simp split: option.split)
  show ?thesis
    unfolding emits_def
  proof (intro allI impI)
    fix s r s' assume a: "set_mode t0 mode tmo s = (r, s')"
    show "\<exists>es. ct_log s' = ct_log s @ es \<and> set es \<subseteq> A"
    proof (cases "?rq \<in> set (ct_modes (?f s))")
      case True
      with a have "?m (?f s) = (r, s')" by (simp add: set_mode_def Let_def)
      from emitsE [OF m this] f [of s] show ?thesis by metis
    next
      case False
      with a f [of s] show ?thesis by (auto simp: set_mode_def Let_def)
    qed
  qed
qed

abbreviation not_auto :: "ct_event set" where
  "not_auto \<equiv> - {ModeRequest ''AUTO''}"

lemma mode_names:
  "py_upper (py_strip ''HOLD'') = ''HOLD''" "py_upper (py_strip ''GUIDED'') = ''GUIDED''" "py_upper (py_strip ''AUTO'') = ''AUTO''"
  "py_upper (py_strip (py_upper ''guided'')) = ''GUIDED''" "py_upper (py_strip (py_upper ''hold'')) = ''HOLD''"
  by code_simp+

lemma names_differ: "''HOLD'' \<noteq> ''AUTO''" "''MANUAL'' \<noteq> ''AUTO''" "''GUIDED'' \<noteq> ''AUTO''"
  by simp_all

lemma not_auto_modes:
  "emits not_auto (set_mode t ''HOLD'' d)" "emits not_auto (set_mode t ''MANUAL'' d)" "emits not_auto (set_mode t ''GUIDED'' d)"
  "emits not_auto (set_mode t (py_upper ''guided'') d)" "emits not_auto (set_mode t (py_upper ''hold'') d)"
  by (intro emits_set_mode; simp only: mode_names manual_drives Compl_iff singleton_iff ct_event.inject ct_event.distinct names_differ
      simp_thms)+

lemma not_auto_sends:
  "emits not_auto (ct_send (ArmCommand b))" "emits not_auto (ct_send (SpeedCommand v))" "emits not_auto (ct_send (PositionTarget p q))"
  by (simp_all add: emits_send)

lemma not_auto_override: "emits not_auto (rc_override st th)"
  by (intro emits_override) simp

lemma not_auto_stop: "emits not_auto stop"
  unfolding stop_def by (intro emits_bind not_auto_override)

lemma not_auto_arm: "emits not_auto (arm_vehicle b)"
  unfolding arm_vehicle_def by (intro emits_bind not_auto_sends) (auto intro: emits_pure split: list.splits)

lemma not_auto_safe_arm: "emits not_auto (safe_arm t1 t2)"
  unfolding safe_arm_def
  by (intro emits_bind emits_catch not_auto_modes not_auto_stop not_auto_arm emits_ret)

lemma not_auto_manual: "emits not_auto (manual t0 st th)"
  unfolding emits_def
proof (intro allI impI)
  fix s r s' assume "manual t0 st th s = (r, s')"
  then show "\<exists>es. ct_log s' = ct_log s @ es \<and> set es \<subseteq> not_auto"
  proof (cases rule: manual_cases)
    case (direct x y)
    from emitsE [OF not_auto_override direct] show ?thesis by metis
  next
    case (refused x)
    from emitsE [OF not_auto_modes(2) refused] show ?thesis by auto
  next
    case (confirmed x s1)
    from emitsE [OF not_auto_modes(2) confirmed(1)] obtain es where e: "ct_log s1 = ct_log s @ es" "set es \<subseteq> not_auto" by auto
    from emitsE [OF not_auto_override confirmed(2)] obtain fs where f: "ct_log s' = ct_log s1 @ fs" "set fs \<subseteq> not_auto" by auto
    from e f show ?thesis by (intro exI [of _ "es @ fs"]) simp
  qed
qed

lemma not_auto_goto: "emits not_auto (goto t0 lat lng speed)"
proof -
  have "emits not_auto (scaled_degrees x)" for x by (simp add: scaled_degrees_def split: sum.split)
  then show ?thesis
    unfolding goto_def by (auto intro!: emits_bind emits_catch not_auto_modes(3) not_auto_sends)
qed

lemma auto_command_name: "ru_command k = ''auto'' \<Longrightarrow> run_command c i k = apply_auto c i"
  unfolding run_command_def by simp

lemma emits_hold_or_guided: "cmd \<in> {''guided'', ''hold''} \<Longrightarrow> emits not_auto (set_mode t (py_upper cmd) d)"
  using not_auto_modes(4,5) by blast

lemma not_auto_commands: "ru_command k \<noteq> ''auto'' \<Longrightarrow> emits not_auto (run_command c i k)"
  unfolding run_command_def Let_def
  by (simp only: if_False split: if_split)
    (intro impI conjI emits_bind emits_ret not_auto_stop not_auto_safe_arm not_auto_arm not_auto_manual not_auto_goto
      emits_hold_or_guided; assumption)

lemma refresh_unsafe:
  "ms_unsafe (ra_status m) \<Longrightarrow>
     refresh_execution_readiness c home nav given m = (Fail (RmRuntime ''unsafe residual mission blocks AUTO''), m)"
  by (simp add: refresh_execution_readiness_def)

lemma refresh_gate:
  "\<not> ms_unsafe (ra_status m) \<Longrightarrow> ms_verified (ra_status m) \<Longrightarrow> ra_items m \<noteq> [] \<Longrightarrow>
     refresh_execution_readiness c home nav (Some now) m = (Done (rover_gate (rc_freshness c) now home nav),
       on_status (\<lambda>t. t\<lparr>ms_ready := fst (rover_gate (rc_freshness c) now home nav),
         ms_reason := snd (rover_gate (rc_freshness c) now home nav)\<rparr>) m)"
  by (simp add: refresh_execution_readiness_def bind_rm_def pure_rm_def Let_def)

lemma emits_observe: "emits A (ct_observe m)"
  by (rule emits_pure) (auto simp: ct_observe_def split: option.splits prod.splits rres.splits)

lemma emits_home_position: "emits A (home_position t m)"
  by (rule emits_pure) (auto simp: home_position_def Let_def split: option.splits)

lemma emits_await_home: "emits A (await_home dl current ins)"
proof (induction ins)
  case (Cons w ins)
  show ?case
  proof (cases w)
    case (HomeMsg t m)
    have "emits A (bind_ct (home_position t m) (\<lambda>_ s. (Returns (ct_home_valid s), s)))"
      by (intro emits_bind emits_home_position emits_pure) simp
    moreover have "emits A (bind_ct (ct_observe m) (\<lambda>_. await_home dl current ins))" by (intro emits_bind emits_observe Cons)
    ultimately show ?thesis
      unfolding HomeMsg emits_def by (intro allI impI) (elim await_home_cases; force)
  qed (auto intro!: emits_pure split: if_splits)
qed (auto intro: emits_pure)

lemma emits_refresh_home: "HomeRequest \<in> A \<Longrightarrow> emits A (refresh_home t timeout ins current)"
proof -
  assume h: "HomeRequest \<in> A"
  then have k: "emits A (bind_ct (ct_send HomeRequest) (\<lambda>_. ret_ct True))" by (intro emits_bind emits_send emits_ret)
  have "emits A (request_home_position t)"
    unfolding emits_def
  proof (intro allI impI)
    fix s r s' assume a: "request_home_position t s = (r, s')"
    show "\<exists>es. ct_log s' = ct_log s @ es \<and> set es \<subseteq> A"
    proof (cases "t - ct_home_request s < 1")
      case True
      with a show ?thesis by (simp add: request_home_position_def)
    next
      case False
      with a have "bind_ct (ct_send HomeRequest) (\<lambda>_. ret_ct True) (s\<lparr>ct_home_request := t\<rparr>) = (r, s')"
        by (simp only: request_home_position_def if_False)
      from emitsE [OF k this] show ?thesis by auto
    qed
  qed
  then show ?thesis unfolding refresh_home_def by (intro emits_bind emits_await_home)
qed

text \<open>While the home position is awaited, the manager only follows the progress of its mission\<close>

definition manager_kept :: "rover_control \<Rightarrow> rover_control \<Rightarrow> bool" where
  "manager_kept s s' \<longleftrightarrow> rel_option progress_only (ct_manager s) (ct_manager s')"

lemma manager_kept_trans: "manager_kept s t \<Longrightarrow> manager_kept t u \<Longrightarrow> manager_kept s u"
  unfolding manager_kept_def by (auto elim!: option.rel_cases intro: progress_trans)

lemma manager_kept_same: "ct_manager s' = ct_manager s \<Longrightarrow> manager_kept s s'"
  by (simp add: manager_kept_def option.rel_refl)

lemma observe_kept: "ct_observe m s = (r, s') \<Longrightarrow> manager_kept s s'"
  by (auto simp: ct_observe_def manager_kept_def split: option.splits prod.splits rres.splits
      intro: keepsD [OF keeps_observe])

lemma home_position_kept: "home_position t m s = (r, s') \<Longrightarrow> manager_kept s s'"
  by (rule manager_kept_same) (auto simp: home_position_def Let_def split: option.splits)

lemma await_home_kept: "await_home dl current ins s = (r, s') \<Longrightarrow> manager_kept s s'"
proof (induction ins arbitrary: s)
  case (Cons w ins)
  show ?case
  proof (cases w)
    case (HomeMsg t m)
    from Cons.prems [unfolded HomeMsg] show ?thesis
    proof (cases rule: await_home_cases)
      case home
      then show ?thesis by (cases "home_position t m s") (auto simp: bind_ct_def split: cres.splits dest: home_position_kept)
    next
      case other
      obtain x s1 where x: "ct_observe m s = (x, s1)" by (cases "ct_observe m s")
      from other x observe_kept [OF x] Cons.IH show ?thesis
        by (cases x) (auto simp: bind_ct_def intro: manager_kept_trans)
    qed (simp add: manager_kept_same)
  qed (use Cons.prems in \<open>auto intro: manager_kept_same split: if_splits\<close>)
qed (auto intro: manager_kept_same)

lemma refresh_home_kept: "refresh_home t timeout ins current s = (r, s') \<Longrightarrow> manager_kept s s'"
proof -
  assume a: "refresh_home t timeout ins current s = (r, s')"
  obtain x s1 where x: "request_home_position t s = (x, s1)" by (cases "request_home_position t s")
  have "ct_manager s1 = ct_manager s"
    using x by (auto simp: request_home_position_def bind_ct_def ct_send_def learn_def ret_ct_def split: if_splits list.splits bool.splits)
  then have "manager_kept s s1" by (rule manager_kept_same)
  with a x show ?thesis
    by (cases x) (auto simp: refresh_home_def bind_ct_def dest: await_home_kept intro: manager_kept_trans)
qed

text \<open>The decision of \<open>apply_auto\<close> to ask for AUTO\<close>

lemma gate_asks:
  assumes a: "gate_and_start c i home s = (r, s')" and same: "ct_log s' \<noteq> ct_log s"
    and m: "ct_manager s = Some m" "ms_verified (ra_status m)" "ra_items m \<noteq> []"
  shows "\<not> ms_unsafe (ra_status m) \<and> rover_gate (rc_freshness c) (ai_now i) home (sync_navigation (s\<lparr>ct_home_valid := home\<rparr>) (ai_nav i)) = (True, [])"
proof -
  let ?n = "sync_navigation (s\<lparr>ct_home_valid := home\<rparr>) (ai_nav i)"
  have u: "\<not> ms_unsafe (ra_status m)"
    by (rule notI) (use a same m in \<open>auto simp: gate_and_start_def refresh_unsafe Let_def\<close>)
  obtain ready reason where g: "rover_gate (rc_freshness c) (ai_now i) home ?n = (ready, reason)"
    by (cases "rover_gate (rc_freshness c) (ai_now i) home ?n")
  have "ready"
    by (rule ccontr) (use a same m u g in \<open>auto simp: gate_and_start_def refresh_gate Let_def\<close>)
  with g u show ?thesis by (auto simp: rover_gate_def Let_def split: if_splits)
qed

lemma apply_auto_asks:
  assumes a: "apply_auto c i s = (r, s')" and no: "\<nexists>es. ct_log s' = ct_log s @ es \<and> set es \<subseteq> not_auto"
  shows "\<exists>m home s1. ct_manager s = Some m \<and> ms_verified (ra_status m) \<and> ra_items m \<noteq> [] \<and> \<not> ms_unsafe (ra_status m)
    \<and> refresh_home (ai_home_clock i) 1 (ai_home_in i) (ct_home_valid s) s = (Returns home, s1)
    \<and> rover_gate (rc_freshness c) (ai_now i) home (sync_navigation (s1\<lparr>ct_home_valid := home\<rparr>) (ai_nav i)) = (True, [])"
proof -
  have same: "ct_log s' \<noteq> ct_log s"
  proof
    assume "ct_log s' = ct_log s"
    then have "ct_log s' = ct_log s @ [] \<and> set [] \<subseteq> not_auto" by simp
    with no show False by blast
  qed
  have v: "manager_verified s" by (rule ccontr) (use a same in \<open>simp add: apply_auto_def\<close>)
  then obtain m where m: "ct_manager s = Some m" "ms_verified (ra_status m)" "ra_items m \<noteq> []"
    by (auto simp: manager_verified_def split: option.splits)
  obtain x s1 where x: "refresh_home (ai_home_clock i) 1 (ai_home_in i) (ct_home_valid s) s = (x, s1)"
    by (cases "refresh_home (ai_home_clock i) 1 (ai_home_in i) (ct_home_valid s) s")
  have "emits not_auto (refresh_home (ai_home_clock i) 1 (ai_home_in i) (ct_home_valid s))" by (rule emits_refresh_home) simp
  from emitsE [OF this x] obtain es where e: "ct_log s1 = ct_log s @ es" "set es \<subseteq> not_auto" .
  have b: "(case (x, s1) of (Returns a, s') \<Rightarrow> gate_and_start c i a s' | (Raises e, s') \<Rightarrow> (Raises e, s') | (Waits, s') \<Rightarrow> (Waits, s')) = (r, s')"
    using a v by (simp only: apply_auto_def not_True_eq_False if_False bind_ct_def x)
  have n: "s1 \<noteq> s'" using no e by blast
  then obtain home where h: "x = Returns home" using b by (cases x) simp_all
  with b have g: "gate_and_start c i home s1 = (r, s')" by simp
  have l: "ct_log s' \<noteq> ct_log s1" using no e by auto
  from refresh_home_kept [OF x] m obtain m1 where m1: "ct_manager s1 = Some m1" "progress_only m m1"
    by (auto simp: manager_kept_def elim: option.rel_cases)
  then have "ms_verified (ra_status m1)" "ra_items m1 \<noteq> []" using m by (simp_all add: progress_only_def)
  from gate_asks [OF g l m1(1) this] m m1(2) x h show ?thesis by (auto simp: progress_only_def)
qed

subsection \<open>The manager of the rover\<close>

definition manager_inv :: "rm_config \<Rightarrow> rover_control \<Rightarrow> bool" where
  "manager_inv c s \<longleftrightarrow> (\<forall>m. ct_manager s = Some m \<longrightarrow> auto_inv c m)"

lemma auto_inv_fresh [simp]: "auto_inv c (rover_manager_init clk ins oks)"
  by (rule reach_auto_inv [OF rm_reach.start])

lemma auto_inv_completed [simp]: "auto_inv c (on_status (\<lambda>t. t\<lparr>ms_completed := b\<rparr>) m) = auto_inv c m"
  by (simp add: auto_inv_def on_status_def)

abbreviation tends :: "rm_config \<Rightarrow> 'a ct \<Rightarrow> bool" where
  "tends c \<equiv> preserves (manager_inv c)"

lemma tends_same: "(\<And>s r s'. m s = (r, s') \<Longrightarrow> ct_manager s' = ct_manager s) \<Longrightarrow> tends c m"
  unfolding preserves_def manager_inv_def by metis

lemma tends_pure [simp]: "tends c (ret_ct a)" "tends c (\<lambda>s. (Raises e, s))"
  by (auto intro: tends_same simp: ret_ct_def)

lemma tends_send [simp]: "tends c (ct_send e)"
  by (rule tends_same) (auto simp: ct_send_def learn_def split: list.splits bool.splits)

lemma tends_override [simp]: "tends c (rc_override st th)"
  using tends_send unfolding preserves_def rc_override_def Let_def by blast

lemma await_mode_manager: "await_mode rq dl ws s = (r, s') \<Longrightarrow> ct_manager s' = ct_manager s"
  by (induction rq dl ws s rule: await_mode.induct) (auto simp: learn_def split: if_splits)

lemma tends_set_mode [simp]: "tends c (set_mode t0 mode tmo)"
proof (rule tends_same)
  fix s r s' assume a: "set_mode t0 mode tmo s = (r, s')"
  then show "ct_manager s' = ct_manager s"
    unfolding set_mode_def Let_def bind_ct_def ct_send_def learn_def
    by (auto split: option.splits if_splits list.splits bool.splits dest: await_mode_manager)
qed

lemma manager_inv_other [simp]:
  "manager_inv c (s\<lparr>ct_manual := q\<rparr>) = manager_inv c s" "manager_inv c (s\<lparr>ct_home_valid := h\<rparr>) = manager_inv c s"
  "manager_inv c (s\<lparr>ct_waits := w, ct_acks := a, ct_sends_ok := oks\<rparr>) = manager_inv c s" "manager_inv c (learn e s) = manager_inv c s"
  "manager_inv c (s\<lparr>ct_manager := Some m\<rparr>) = auto_inv c m"
  by (simp_all add: manager_inv_def learn_def)

lemma tends_manual [simp]: "tends c (manual t0 st th)"
  unfolding preserves_def
proof (intro allI impI)
  fix s r s' assume i: "manager_inv c s" and "manual t0 st th s = (r, s')"
  have n: "manager_inv c (s\<lparr>ct_manual := None\<rparr>)" using i by simp
  from \<open>manual t0 st th s = (r, s')\<close> show "manager_inv c s'"
  proof (cases rule: manual_cases)
    case (direct x y)
    with i show ?thesis by (rule preservesD [OF tends_override])
  next
    case (refused x)
    with n show ?thesis by (rule preservesD [OF tends_set_mode])
  next
    case (confirmed x s1)
    have "manager_inv c s1" using n confirmed(1) by (rule preservesD [OF tends_set_mode])
    then have "manager_inv c (s1\<lparr>ct_manual := Some ''MANUAL''\<rparr>)" by (simp only: manager_inv_other)
    then show ?thesis using confirmed(2) by (rule preservesD [OF tends_override])
  qed
qed

lemma tends_stop [simp]: "tends c stop"
  unfolding stop_def by (intro preserves_bind tends_override)

lemma tends_arm [simp]: "tends c (arm_vehicle b)"
  unfolding arm_vehicle_def by (intro preserves_bind tends_send) (auto intro: tends_same split: list.splits)

lemma tends_safe_arm [simp]: "tends c (safe_arm t1 t2)"
  unfolding safe_arm_def by (intro preserves_bind preserves_catch) simp_all

lemma tends_goto [simp]: "tends c (goto t0 lat lng speed)"
proof -
  have "tends c (scaled_degrees x)" for x by (simp add: scaled_degrees_def split: sum.split)
  then show ?thesis unfolding goto_def by (auto intro!: preserves_bind preserves_catch)
qed

lemma manager_inv_kept: "manager_inv c s \<Longrightarrow> manager_kept s s' \<Longrightarrow> manager_inv c s'"
  unfolding manager_inv_def manager_kept_def by (auto elim!: option.rel_cases intro: auto_inv_progress)

lemma tends_refresh_home: "tends c (refresh_home t timeout ins current)"
  unfolding preserves_def using manager_inv_kept refresh_home_kept by blast

lemma tends_gate: "tends c (gate_and_start c i home)"
  unfolding preserves_def
proof (intro allI impI)
  fix s r s' assume i: "manager_inv c s" and a: "gate_and_start c i home s = (r, s')"
  let ?k = "bind_ct (set_mode (ai_t1 i) ''AUTO'' (5 / 2)) (\<lambda>_ s.
                 (Returns (True, ''verified mission AUTO confirmed''),
                  s\<lparr>ct_manager := map_option (on_status (\<lambda>t. t\<lparr>ms_completed := False\<rparr>)) (ct_manager s)\<rparr>))"
  have k: "tends c ?k"
    by (intro preserves_bind tends_set_mode) (auto simp: preserves_def manager_inv_def)
  let ?s = "s\<lparr>ct_home_valid := home\<rparr>"
  show "manager_inv c s'"
  proof (cases "ct_manager ?s")
    case None
    with i a show ?thesis by (auto simp: gate_and_start_def Let_def)
  next
    case (Some g)
    obtain x m where x: "refresh_execution_readiness c home (sync_navigation ?s (ai_nav i)) (Some (ai_now i)) g = (x, m)"
      by (cases "refresh_execution_readiness c home (sync_navigation ?s (ai_nav i)) (Some (ai_now i)) g")
    have "auto_inv c g" using Some i by (simp add: manager_inv_def)
    then have j: "manager_inv c (?s\<lparr>ct_manager := Some m\<rparr>)" using auto_inv_refresh x by simp
    note a' = a [unfolded gate_and_start_def Let_def Some option.case x prod.case]
    show ?thesis
    proof (cases x)
      case (Done p)
      obtain ready reason where p: "p = (ready, reason)" by (cases p)
      show ?thesis
      proof (cases ready)
        case True
        with a' Done p have "?k (?s\<lparr>ct_manager := Some m\<rparr>) = (r, s')" by (simp only: rres.case prod.case not_True_eq_False if_False)
        with j show ?thesis by (rule preservesD [OF k])
      next
        case False
        with a' Done p j show ?thesis by simp
      qed
    qed (use a' j in simp_all)
  qed
qed

lemma tends_auto [simp]: "tends c (apply_auto c i)"
proof -
  have k: "tends c (bind_ct (refresh_home (ai_home_clock i) 1 (ai_home_in i) b) (gate_and_start c i))" for b
    by (intro preserves_bind tends_refresh_home tends_gate)
  show ?thesis
    unfolding preserves_def
  proof (intro allI impI)
    fix s r s' assume i: "manager_inv c s" and a: "apply_auto c i s = (r, s')"
    show "manager_inv c s'"
    proof (cases "manager_verified s")
      case True
      with a have "bind_ct (refresh_home (ai_home_clock i) 1 (ai_home_in i) (ct_home_valid s)) (gate_and_start c i) s = (r, s')"
        by (simp only: apply_auto_def not_True_eq_False if_False)
      with i show ?thesis by (rule preservesD [OF k])
    next
      case False
      with i a show ?thesis by (simp add: apply_auto_def)
    qed
  qed
qed

lemma tends_run_command: "tends c (run_command c i k)"
  unfolding run_command_def by (auto simp: Let_def intro: preserves_bind)

lemma manager_connect: "manager_inv c s \<Longrightarrow> ct_connect k s = (b, s') \<Longrightarrow> manager_inv c s'"
  by (auto simp: ct_connect_def ct_opened_def ct_close_def manager_inv_def learn_def Let_def split: ct_found.splits if_splits)

lemma tends_apply: "tends c (apply_command c free i k)"
proof -
  have "tends c (catch_ct (run_command c i k) (\<lambda>e. ret_ct (False, ''error'')))" by (intro preserves_catch tends_run_command) simp
  then show ?thesis
    unfolding preserves_def apply_command_def by (auto dest: manager_connect split: if_splits prod.splits bool.splits)
qed

lemma tends_job:
  assumes "manager_inv c s" and j: "run_mission_job c k items post clk ins oks s = (r, s')" and r: "r \<noteq> Waits"
  shows "manager_inv c s'"
proof (cases "ct_connect k s")
  case (Pair b s1)
  obtain x m where u: "upload_and_verify c items post (rover_manager_init clk ins oks) = (x, m)"
    by (cases "upload_and_verify c items post (rover_manager_init clk ins oks)")
  have a: "x \<noteq> Blocked \<Longrightarrow> auto_inv c m" using auto_inv_upload [OF auto_inv_fresh u] .
  have m: "manager_inv c s1" using manager_connect [OF assms(1) Pair] .
  show ?thesis using j r a m Pair u by (cases b; cases x) (auto simp: run_mission_job_def)
qed

lemma tends_try: "tends c (try_neutral free)" "tends c (try_stop free)"
  unfolding try_neutral_def try_stop_def try_locked_def by (auto intro: preserves_bind)

lemma run_manager_inv: "ct_run c s \<Longrightarrow> manager_inv c s"
proof (induction rule: ct_run.induct)
  case ct_start
  then show ?case by (simp add: manager_inv_def rover_control_init_def)
next
  case (ct_observed s m)
  then show ?case by (simp add: record_observed_mode_def Let_def split: option.splits)
next
  case (ct_manager_observed s g m x g')
  then have "auto_inv c g" by (simp add: manager_inv_def)
  with ct_manager_observed(3) show ?case using auto_inv_progress keepsD [OF keeps_observe] by fastforce
next
  case (ct_mission s k items post clk ins oks r s')
  then show ?case using tends_job by blast
qed (auto intro: preservesD [OF tends_apply] preservesD [OF tends_try(1)] preservesD [OF tends_try(2)])

subsection \<open>Properties\<close>

text \<open>Whatever the cloud commands, the heartbeats, the failing sends and the missions in between: an RC override that
  moves the rover is only ever sent when the last mode the code confirmed or observed on this connection is MANUAL and
  no other mode was requested since.\<close>

theorem driven_only_in_manual:
  assumes "ct_run c s"
  shows "driven_in_manual (ct_log s)"
  using run_inv [OF assms] by (simp add: ct_inv_def)

text \<open>C30: When the agent executes a command of the cloud, AUTO is asked of the flight controller only for the command
  \<open>auto\<close>, on an uninterrupted connection, for a mission of which every item was read back within the tolerances, no
  earlier mission being left over, and with the navigation gate open at that moment.\<close>

theorem auto_command_after_readback:
  assumes "ct_run c s" and "apply_command c free i k s = (r, s')"
    and "ModeRequest ''AUTO'' \<in> set (drop (length (ct_log s)) (ct_log s'))"
  shows "ru_command k = ''auto'' \<and> ai_connect i = Kept \<and> (\<exists>m. ct_manager s = Some m \<and> ra_items m \<noteq> []
    \<and> \<not> ms_unsafe (ra_status m) \<and> mission_proved c m (ra_items m))
    \<and> (\<exists>home s1. refresh_home (ai_home_clock i) 1 (ai_home_in i) (ct_home_valid s) s = (Returns home, s1)
      \<and> rover_gate (rc_freshness c) (ai_now i) home (sync_navigation (s1\<lparr>ct_home_valid := home\<rparr>) (ai_nav i)) = (True, []))"
proof -
  obtain b s1 where con: "ct_connect (ai_connect i) s = (b, s1)" by (cases "ct_connect (ai_connect i) s")
  have log1: "ct_log s1 = ct_log s \<or> ct_log s1 = ct_log s @ [NewConnection] \<or> ct_log s1 = ct_log s @ [NewConnection, HomeRequest]"
    using con by (auto simp: ct_connect_def ct_opened_def ct_close_def learn_def Let_def split: ct_found.splits if_splits)
  have no: "\<nexists>es. ct_log s' = ct_log s @ es \<and> set es \<subseteq> not_auto" using assms(3) by auto
  let ?m = "catch_ct (run_command c i k) (\<lambda>e. ret_ct (False, ''error''))"
  have m: "?m s1 = (r, s')"
  proof (rule ccontr)
    assume "?m s1 \<noteq> (r, s')"
    with assms(2) con log1 have "ct_log s' = ct_log s \<or> ct_log s' = ct_log s @ [NewConnection] \<or> ct_log s' = ct_log s @ [NewConnection, HomeRequest]"
      by (auto simp: apply_command_def split: if_splits bool.splits)
    with assms(3) show False by auto
  qed
  have no1: "\<nexists>es. ct_log s' = ct_log s1 @ es \<and> set es \<subseteq> not_auto"
  proof
    assume "\<exists>es. ct_log s' = ct_log s1 @ es \<and> set es \<subseteq> not_auto"
    then obtain es where e: "ct_log s' = ct_log s1 @ es" "set es \<subseteq> not_auto" by blast
    from log1 obtain fs where f: "ct_log s1 = ct_log s @ fs" "set fs \<subseteq> not_auto" by force
    from e f no show False by auto
  qed
  have cmd: "ru_command k = ''auto''"
  proof (rule ccontr)
    assume "ru_command k \<noteq> ''auto''"
    then have "emits not_auto ?m" by (intro emits_catch not_auto_commands emits_ret)
    from emitsE [OF this m] no1 show False by metis
  qed
  obtain x s2 where a: "apply_auto c i s1 = (x, s2)" by (cases "apply_auto c i s1")
  have "s2 = s'" using m a by (cases x) (auto simp: catch_ct_def ret_ct_def auto_command_name [OF cmd])
  with a have "apply_auto c i s1 = (x, s')" by simp
  from apply_auto_asks [OF this no1] obtain m home t where m: "ct_manager s1 = Some m" "ms_verified (ra_status m)" "ra_items m \<noteq> []"
      "\<not> ms_unsafe (ra_status m)" "refresh_home (ai_home_clock i) 1 (ai_home_in i) (ct_home_valid s1) s1 = (Returns home, t)"
      "rover_gate (rc_freshness c) (ai_now i) home (sync_navigation (t\<lparr>ct_home_valid := home\<rparr>) (ai_nav i)) = (True, [])" by blast
  have kept: "ai_connect i = Kept"
    using con m(1-3) by (cases "ai_connect i") (auto simp: ct_connect_def ct_opened_def ct_close_def learn_def rover_manager_init_def fresh_status_def Let_def split: if_splits)
  with con have "s1 = s" by (simp add: ct_connect_def ct_opened_def)
  moreover have "manager_inv c s" using assms(1) by (rule run_manager_inv)
  ultimately show ?thesis using m cmd kept by (auto simp: manager_inv_def auto_inv_def)
qed

lemma set_mode_silent:
  assumes "ct_sends_ok s = []" and "ct_waits s = Silence u # ws" and "py_upper (py_strip mode) = rq" and "rq \<in> set (ct_modes s)"
  shows "\<exists>s' e. set_mode t mode tmo s = (Raises e, s') \<and> ct_log s' = ct_log s @ [ModeRequest rq] \<and> ct_sends_ok s' = []
    \<and> ct_waits s' = ws \<and> ct_acks s' = ct_acks s \<and> ct_modes s' = ct_modes s \<and> ct_limits s' = ct_limits s"
  using assms unfolding set_mode_def by (auto simp: Let_def bind_ct_def ct_send_def learn_def split: option.split)

lemma override_sent:
  assumes "ct_sends_ok s = []"
  shows "rc_override st th s = (Returns (), learn (RcOverride st th
    (scale_rc st (steer_min (ct_limits s)) (steer_trim (ct_limits s)) (steer_max (ct_limits s)))
    (scale_rc th (throttle_min (ct_limits s)) (throttle_trim (ct_limits s)) (throttle_max (ct_limits s)))) s)"
proof -
  have "s\<lparr>ct_sends_ok := []\<rparr> = s" using assms by (metis rover_control.surjective rover_control.update_convs(13))
  then show ?thesis using assms by (simp only: rc_override_def ct_send_def Let_def list.case list.sel)
qed

lemma learn_same [simp]:
  "ct_sends_ok (learn e s) = ct_sends_ok s" "ct_limits (learn e s) = ct_limits s" "ct_log (learn e s) = ct_log s @ [e]"
  "ct_acks (learn e s) = ct_acks s"
  by (simp_all add: learn_def)

text \<open>The pulses of the neutral position\<close>

definition neutral_override :: "rc_limits \<Rightarrow> ct_event" where
  "neutral_override l = RcOverride 0 0 (scale_rc 0 (steer_min l) (steer_trim l) (steer_max l))
     (scale_rc 0 (throttle_min l) (throttle_trim l) (throttle_max l))"

lemma stop_sent:
  assumes "ct_sends_ok s = []"
  shows "\<exists>s'. stop s = (Returns (), s') \<and> ct_log s' = ct_log s @ replicate 3 (neutral_override (ct_limits s))
    \<and> ct_sends_ok s' = [] \<and> ct_acks s' = ct_acks s \<and> ct_limits s' = ct_limits s"
  using assms by (simp add: stop_def bind_ct_def override_sent neutral_override_def numeral_3_eq_3)


text \<open>A throttle that is not a number, which \<open>float\<close> reads from the text \<open>nan\<close>, is full throttle.\<close>

theorem nan_throttle_is_full:
  assumes "command_of_dict source d = Inr k" and "float_or d ''throttle'' (Fin 0 0) = Inr NaN"
  shows "ru_throttle k = 100"
  using assms by (auto simp: command_of_dict_def Let_def pf_clamp_def pf_trunc_def trunc_def dec_val_def split: sum.splits)

text \<open>C32: The pulse of a channel stays between its calibrated ends, whatever is asked, and zero is the trim.\<close>

theorem scale_rc_bounds:
  assumes "0 \<le> lo" and "lo \<le> mid" and "mid \<le> hi"
  shows "lo \<le> scale_rc v lo mid hi \<and> scale_rc v lo mid hi \<le> hi \<and> scale_rc 0 lo mid hi = mid
    \<and> (v \<le> w \<longrightarrow> scale_rc v lo mid hi \<le> scale_rc w lo mid hi)"
proof -
  define u where "u x = clamp_int x (- 100) 100" for x :: int
  define p where "p x = (if 0 \<le> u x then (hi - mid) * u x else (mid - lo) * u x)" for x :: int
  have u: "- 100 \<le> u x" "u x \<le> 100" for x by (auto simp: u_def clamp_int_def)
  have up: "0 \<le> (hi - mid) * u x \<and> (hi - mid) * u x \<le> (hi - mid) * 100" if "0 \<le> u x" for x
    using mult_left_mono [OF u(2) [of x], of "hi - mid"] assms(3) that by simp
  have down: "(mid - lo) * (- 100) \<le> (mid - lo) * u x \<and> (mid - lo) * u x \<le> 0" if "\<not> 0 \<le> u x" for x
    using mult_left_mono [OF u(1) [of x], of "mid - lo"] mult_nonneg_nonpos [of "mid - lo" "u x"] assms(2) that by simp
  have p: "(mid - lo) * (- 100) \<le> p x \<and> p x \<le> (hi - mid) * 100" for x
  proof (cases "0 \<le> u x")
    case True
    with up [of x] assms(2) show ?thesis by (simp add: p_def)
  next
    case False
    with down [of x] assms(3) show ?thesis by (simp add: p_def)
  qed
  have mono: "p v \<le> p w" if "v \<le> w"
  proof -
    have m: "u v \<le> u w" using that by (auto simp: u_def clamp_int_def)
    consider "0 \<le> u v" "0 \<le> u w" | "\<not> 0 \<le> u v" "\<not> 0 \<le> u w" | "\<not> 0 \<le> u v" "0 \<le> u w" using m by linarith
    then show ?thesis
    proof cases
      case 3
      have "p v \<le> 0" using down [OF 3(1)] 3 by (simp add: p_def)
      moreover have "0 \<le> p w" using up [OF 3(2)] 3(2) by (simp only: p_def if_True)
      ultimately show ?thesis by (rule order_trans)
    qed (use m assms(2,3) in \<open>simp_all add: p_def mult_left_mono\<close>)
  qed
  have s: "scale_rc x lo mid hi = (100 * mid + p x) div 100" for x
  proof -
    have "(of_int mid + of_int (p x) / 100 :: real) = of_int (100 * mid + p x) / of_int 100" by (simp add: field_simps)
    moreover have "0 \<le> 100 * mid + p x" using conjunct1 [OF p [of x]] assms by simp
    moreover have "scale_rc x lo mid hi = trunc (of_int mid + of_int (p x) / 100)"
      using assms by (simp add: scale_rc_def Let_def p_def u_def)
    ultimately show ?thesis using floor_divide_of_int_eq [of "p x" 100, where ?'a = real] by (simp add: trunc_def)
  qed
  have z: "p 0 = 0" by (simp add: p_def u_def clamp_int_def)
  show ?thesis
    unfolding s z using p [of v] mono by (auto intro: zdiv_mono1)
qed

subsection \<open>Witnesses\<close>

definition sample_command :: "string \<Rightarrow> rover_command" where
  "sample_command cmd = \<lparr>ru_command = cmd, ru_lat = Fin 0 0, ru_lng = Fin 0 0, ru_speed = Fin 5 (- 1), ru_steering = 20, ru_throttle = 0,
     ru_control_mode = ''standby'', ru_source = ''cloud''\<rparr>"

definition sample_home :: fc_msg where
  "sample_home = \<lparr>fm_type = ''HOME_POSITION'', fm_mission_type = None, fm_target_system = None, fm_target_component = None,
     fm_source_system = Some 1, fm_source_component = Some 1, fm_fields = [(''latitude'', MInt 10), (''longitude'', MInt 20)]\<rparr>"

definition sample_nav :: rover_nav where
  "sample_nav = rover_sample_nav\<lparr>nv_gps := (1, 1), nv_position := (1, 1), nv_ekf_stamp := (1, 1)\<rparr>"

definition sample_input :: "ct_found \<Rightarrow> apply_input" where
  "sample_input k = \<lparr>ai_connect = k, ai_t1 = 0, ai_t2 = 0, ai_home_clock = 0,
     ai_home_in = [HomeMsg (1 / 2) sample_home], ai_nav = sample_nav, ai_now = 1\<rparr>"

lemma upper_once: "py_upper ''AUTO'' = ''AUTO''" "py_upper ''MANUAL'' = ''MANUAL''"
  by code_simp+

lemma set_mode_answered:
  assumes "ct_manual s = None" and "ct_sends_ok s = []" and "rq \<in> set (ct_modes s)" and "ct_waits s = [Heartbeat 0 0 rq]"
    and "py_upper (py_strip mode) = rq" and "py_upper rq = rq"
  shows "\<exists>s'. set_mode 0 mode (5 / 2) s = (Returns rq, s') \<and> ct_log s' = ct_log s @ [ModeRequest rq, ModeConfirmed rq]
    \<and> ct_sends_ok s' = [] \<and> ct_manager s' = ct_manager s"
proof -
  have m: "max (1 / 100) (5 / 2 :: real) = 5 / 2" by simp
  show ?thesis
    using assms unfolding set_mode_def
    by (simp add: Let_def bind_ct_def ct_send_def learn_def m)
qed

definition waiting_control :: rover_control where
  "waiting_control = rover_control_init\<lparr>ct_waits := [Heartbeat 0 0 ''MANUAL''], ct_acks := [], ct_sends_ok := []\<rparr>"

text \<open>A manual command that is carried out\<close>

lemma sample_drive:
  assumes "ru_command k = ''manual''" and "ru_steering k = 20" and "ru_throttle k = 0"
  shows "\<exists>s'. apply_command rover_sample_config True (sample_input (Connected 0 1 [''MANUAL''] default_limits)) k waiting_control
      = (Returns (True, ''manual control sent''), s') \<and> (\<exists>e\<in>set (ct_log s'). drives e)"
proof -
  define s1 where "s1 = snd (ct_connect (Connected 0 1 [''MANUAL''] default_limits) waiting_control)"
  have c: "ct_connect (Connected 0 1 [''MANUAL''] default_limits) waiting_control = (True, s1)"
    by (simp add: s1_def ct_connect_def Let_def)
  have s1: "ct_manual s1 = None" "ct_sends_ok s1 = []" "ct_modes s1 = [''MANUAL'']" "ct_waits s1 = [Heartbeat 0 0 ''MANUAL'']"
    by (simp_all add: s1_def waiting_control_def ct_connect_def ct_opened_def ct_close_def learn_def Let_def)
  have same: "s1\<lparr>ct_manual := None\<rparr> = s1" using s1(1) by (metis rover_control.surjective rover_control.update_convs(3))
  have "\<exists>s'. set_mode 0 ''MANUAL'' (5 / 2) s1 = (Returns ''MANUAL'', s') \<and> ct_log s' = ct_log s1 @ [ModeRequest ''MANUAL'', ModeConfirmed ''MANUAL'']
    \<and> ct_sends_ok s' = [] \<and> ct_manager s' = ct_manager s1"
    using s1 by (intro set_mode_answered manual_drives upper_once) simp_all
  then obtain s2 where s2: "set_mode 0 ''MANUAL'' (5 / 2) s1 = (Returns ''MANUAL'', s2)" "ct_sends_ok s2 = []" by blast
  define s3 where "s3 = snd (rc_override 20 0 (s2\<lparr>ct_manual := Some ''MANUAL''\<rparr>))"
  have o: "rc_override 20 0 (s2\<lparr>ct_manual := Some ''MANUAL''\<rparr>) = (Returns (), s3)" and d: "\<exists>e\<in>set (ct_log s3). drives e"
    using s2(2) by (simp_all add: s3_def override_sent)
  have n: "ct_manual s1 \<noteq> Some ''MANUAL''" using s1(1) by simp
  have m: "manual 0 20 0 s1 = (Returns (), s3)"
    by (simp only: manual_def bind_ct_def same s2(1) o prod.case cres.case Let_def manual_drives n simp_thms if_False) simp
  have "apply_command rover_sample_config True (sample_input (Connected 0 1 [''MANUAL''] default_limits)) k waiting_control
      = (Returns (True, ''manual control sent''), s3)"
    by (simp add: apply_command_def sample_input_def c run_command_def assms Let_def catch_ct_def bind_ct_def m ret_ct_def)
  then show ?thesis using d by blast
qed

theorem driven_only_in_manual_witness:
  "\<exists>s. ct_run rover_sample_config s \<and> driven_in_manual (ct_log s) \<and> (\<exists>e\<in>set (ct_log s). drives e)"
proof -
  have r0: "ct_run rover_sample_config waiting_control" unfolding waiting_control_def by (rule ct_run.ct_supplied [OF ct_run.ct_start])
  obtain s' where a: "apply_command rover_sample_config True (sample_input (Connected 0 1 [''MANUAL''] default_limits))
      (sample_command ''manual'') waiting_control = (Returns (True, ''manual control sent''), s')" and d: "\<exists>e\<in>set (ct_log s'). drives e"
    using sample_drive [of "sample_command ''manual''"] by (auto simp: sample_command_def)
  have r: "ct_run rover_sample_config s'" by (rule ct_run.ct_applied [OF r0 a])
  show ?thesis using driven_only_in_manual [OF r] d r by blast
qed

theorem auto_command_after_readback_witness:
  "\<exists>s s' r i k. ct_run rover_sample_config s \<and> apply_command rover_sample_config True i k s = (r, s')
     \<and> ModeRequest ''AUTO'' \<in> set (drop (length (ct_log s)) (ct_log s'))
     \<and> (\<exists>m. ct_manager s = Some m \<and> mission_proved rover_sample_config m rover_sample_items)"
proof -
  let ?k = "Connected 0 1 [''AUTO''] default_limits"
  obtain m where u: "upload_and_verify rover_sample_config rover_sample_items (Inr (True, rover_sample_nav))
      (rover_manager_init (replicate 20 0) rover_sample_replies [])
    = (Done \<lparr>rr_ready = True, rr_count = 1, rr_reason = []\<rparr>, m)" using rover_sample_success by blast
  have n: "rover_sample_items \<noteq> []" "length rover_sample_items \<le> 100" by (simp_all add: rover_sample_items_def)
  from upload_outcome [OF u _ n] have v: "ms_verified (ra_status m)" "ra_items m = rover_sample_items" "auto_inv rover_sample_config m"
    by (auto simp: rover_sample_renumbered)
  then have safe: "\<not> ms_unsafe (ra_status m)" by (simp add: auto_inv_def)
  define s1 where "s1 = (snd (ct_connect ?k rover_control_init))\<lparr>ct_manager := Some m\<rparr>"
  have "run_mission_job rover_sample_config ?k rover_sample_items (Inr (True, rover_sample_nav)) (replicate 20 0) rover_sample_replies []
      rover_control_init = (Returns \<lparr>rr_ready = True, rr_count = 1, rr_reason = []\<rparr>, s1)"
    by (simp only: run_mission_job_def u) (simp add: s1_def ct_connect_def Let_def)
  then have r1: "ct_run rover_sample_config s1" by (rule ct_run.ct_mission [OF ct_run.ct_start]) simp
  define s where "s = s1\<lparr>ct_waits := [Heartbeat 0 0 ''AUTO''], ct_acks := [], ct_sends_ok := []\<rparr>"
  have r: "ct_run rover_sample_config s" unfolding s_def by (rule ct_run.ct_supplied [OF r1])
  have s: "ct_manual s = None" "ct_sends_ok s = []" "ct_modes s = [''AUTO'']" "ct_waits s = [Heartbeat 0 0 ''AUTO'']" "ct_manager s = Some m"
      "ct_generation s = 1" "ct_home_request s = 0"
    by (simp_all add: s_def s1_def ct_connect_def ct_opened_def ct_close_def learn_def Let_def rover_control_init_def)
  let ?i = "sample_input Kept"
  let ?h = "s\<lparr>ct_home_valid := True, ct_home_updated := 1 / 2\<rparr>"
  have h: "refresh_home (ai_home_clock ?i) 1 (ai_home_in ?i) (ct_home_valid s) s = (Returns True, ?h)"
    by (simp add: refresh_home_def request_home_position_def bind_ct_def s sample_input_def sample_home_def home_position_def
        home_coordinate_def mav_field_def Let_def)
  let ?n = "sync_navigation (?h\<lparr>ct_home_valid := True\<rparr>) (ai_nav ?i)"
  have g: "rover_gate (rc_freshness rover_sample_config) (ai_now ?i) True ?n = (True, [])"
    by (simp add: rover_gate_def rover_missing_def sync_navigation_def sample_input_def sample_nav_def rover_sample_nav_def
        rover_sample_config_def s(6) Let_def nav_stamps_def stamp_missing_def)
  let ?m = "on_status (\<lambda>t. t\<lparr>ms_ready := True, ms_reason := []\<rparr>) m"
  let ?s = "?h\<lparr>ct_home_valid := True, ct_manager := Some ?m\<rparr>"
  have "\<exists>s'. set_mode 0 ''AUTO'' (5 / 2) ?s = (Returns ''AUTO'', s') \<and> ct_log s' = ct_log ?s @ [ModeRequest ''AUTO'', ModeConfirmed ''AUTO'']
    \<and> ct_sends_ok s' = [] \<and> ct_manager s' = ct_manager ?s"
    using s by (intro set_mode_answered mode_names upper_once) simp_all
  then obtain s2 where s2: "set_mode 0 ''AUTO'' (5 / 2) ?s = (Returns ''AUTO'', s2)" "ct_log s2 = ct_log s @ [ModeRequest ''AUTO'', ModeConfirmed ''AUTO'']"
    by auto
  have mv: "manager_verified s" using s(5) v n(1) by (simp add: manager_verified_def)
  have rf: "refresh_execution_readiness rover_sample_config True ?n (Some (ai_now ?i)) m = (Done (True, []), ?m)"
    using refresh_gate [OF safe v(1), of rover_sample_config True ?n "ai_now ?i"] v(2) n(1) g by simp
  have k: "ct_manager (?h\<lparr>ct_home_valid := True\<rparr>) = Some m" using s(5) by simp
  have t: "ai_t1 ?i = 0" by (simp add: sample_input_def)
  have "\<exists>r s'. gate_and_start rover_sample_config ?i True ?h = (Returns r, s') \<and> ct_log s' = ct_log s2"
    unfolding gate_and_start_def Let_def k option.case rf prod.case rres.case t bind_ct_def s2(1) cres.case by auto
  then obtain r' s' where a': "gate_and_start rover_sample_config ?i True ?h = (Returns r', s')" "ct_log s' = ct_log s2" by blast
  have a: "apply_auto rover_sample_config ?i s = (Returns r', s')"
    by (simp only: apply_auto_def mv bind_ct_def h a'(1) not_True_eq_False if_False prod.case cres.case)
  have ap: "apply_command rover_sample_config True ?i (sample_command ''auto'') s = (Returns r', s')"
    using a auto_command_name [of "sample_command ''auto''" rover_sample_config ?i]
    by (simp add: apply_command_def ct_connect_def ct_opened_def sample_command_def) (simp add: sample_input_def catch_ct_def)
  have q: "ModeRequest ''AUTO'' \<in> set (drop (length (ct_log s)) (ct_log s'))" by (simp add: a'(2) s2(2))
  from auto_command_after_readback [OF r ap q] s(5) v(2)
  have "mission_proved rover_sample_config m rover_sample_items" by auto
  with r ap q s(5) show ?thesis by blast
qed


theorem nan_throttle_is_full_witness:
  "\<exists>k. command_of_dict ''cloud'' [(''command'', JStr ''manual''), (''throttle'', JStr ''nan'')] = Inr k \<and> ru_command k = ''manual''
     \<and> ru_throttle k = 100"
proof -
  let ?d = "[(''command'', JStr ''manual''), (''throttle'', JStr ''nan'')]"
  have n: "float_or ?d ''throttle'' (Fin 0 0) = Inr NaN" by code_simp
  have z: "float_or ?d ''target_speed'' (Fin 5 (- 1)) = Inr (Fin 5 (- 1))" "float_or ?d ''target_lat'' (Fin 0 0) = Inr (Fin 0 0)"
    "float_or ?d ''target_lng'' (Fin 0 0) = Inr (Fin 0 0)" "float_or ?d ''steering'' (Fin 0 0) = Inr (Fin 0 0)" by code_simp+
  have t: "text_or (get_first ?d [''command'', ''last_command''] (JStr ''noop'')) ''noop'' = ''manual''" by code_simp
  have "\<exists>k. command_of_dict ''cloud'' ?d = Inr k \<and> ru_command k = ''manual''"
    by (simp only: command_of_dict_def n z t Let_def sum.case) simp
  then obtain k where k: "command_of_dict ''cloud'' ?d = Inr k" "ru_command k = ''manual''" by blast
  with nan_throttle_is_full [OF k(1) n] show ?thesis by blast
qed

theorem scale_rc_bounds_witness:
  "scale_rc 40 1000 1500 1900 = 1660 \<and> 1000 \<le> scale_rc 40 1000 1500 1900 \<and> scale_rc 40 1000 1500 1900 \<le> 1900"
  using scale_rc_bounds [of 1000 1500 1900 40 40] by (simp add: scale_rc_def clamp_int_def trunc_def)

end
