(* ===== verification/RoverReport.thy ===== *)
theory RoverReport
  imports RoverState
begin

text \<open>
  The reports of \<open>rdk_agent/rover_state.py\<close> to the cloud: \<open>RoverTelemetry.data\<close>, and the trimming of a report to
  the size of one data point by \<open>compact_json_bytes\<close> and \<open>compact_slave_state\<close>.

  A dictionary of Python is an association list in insertion order. Where the code changes the inner dictionary of a
  report after it has put it into the outer one, the two are kept apart until they are printed.
\<close>

subsection \<open>Rounding\<close>

text \<open>
  \<open>round(x, n)\<close> of the float that prints as \<open>x\<close>: the exact value of the double is rounded, ties to even; a float with
  no more than \<open>n\<close> places stays. The sign of a zero is not kept.
\<close>

definition round_py :: "pyfloat \<Rightarrow> nat \<Rightarrow> pyfloat" where
  "round_py x n = (case x of
     Fin m e \<Rightarrow>
       (let (a, b) = double_of m e;
            t = a * 10 ^ n
        in if t mod b = 0 then Fin m e else norm_dec (div_even t b) (- int n))
   | y \<Rightarrow> y)"

subsection \<open>Dictionaries\<close>

definition dump :: "json \<Rightarrow> string" where
  "dump v = render False v"

definition dump_size :: "json \<Rightarrow> nat" where
  "dump_size v = length (utf8 (dump v))"

text \<open>Candidates are printed one after the other until one fits\<close>

fun first_fit :: "nat \<Rightarrow> json list \<Rightarrow> string option" where
  "first_fit mx [] = None"
| "first_fit mx (v # vs) = (if dump_size v \<le> mx then Some (dump v) else first_fit mx vs)"

definition get :: "pydict \<Rightarrow> string \<Rightarrow> json" where
  "get d k = get_or d k JNull"

definition without :: "string \<Rightarrow> pydict \<Rightarrow> pydict" where
  "without k d = filter (\<lambda>(l, v). l \<noteq> k) d"

text \<open>What is left after each \<open>pop\<close>\<close>

fun pop_each :: "string list \<Rightarrow> pydict \<Rightarrow> pydict list" where
  "pop_each [] d = []"
| "pop_each (k # ks) d = without k d # pop_each ks (without k d)"

definition pick :: "string list \<Rightarrow> pydict \<Rightarrow> pydict" where
  "pick ks d = map (\<lambda>k. (k, fld d k)) (filter (has d) ks)"

definition drop_none :: "pydict \<Rightarrow> pydict" where
  "drop_none d = filter (\<lambda>(k, v). v \<noteq> JNull) d"

definition drop_empty :: "pydict \<Rightarrow> pydict" where
  "drop_empty d = filter (\<lambda>(k, v). v \<noteq> JNull \<and> v \<noteq> JStr []) d"

definition cut :: "nat \<Rightarrow> json \<Rightarrow> json" where
  "cut n v = JStr (take n (py_str v))"

fun py_number :: "json \<Rightarrow> bool" where
  "py_number (JInt i) = True"
| "py_number (JFloat x) = True"
| "py_number (JBool b) = True"
| "py_number _ = False"

text \<open>\<open>round(float(v), n)\<close> of the numbers among the keys\<close>

fun round_floats :: "(string \<times> nat) list \<Rightarrow> pydict \<Rightarrow> router_exc + pydict" where
  "round_floats [] d = Inr d"
| "round_floats ((k, n) # ks) d =
     (if has d k \<and> py_number (fld d k) then
        (case router_float (fld d k) of
           Inl e \<Rightarrow> Inl e
         | Inr x \<Rightarrow> round_floats ks (AList.update k (JFloat (round_py x n)) d))
      else round_floats ks d)"

text \<open>\<open>round(v, n)\<close>, which leaves an integer as it is\<close>

fun round_value :: "nat \<Rightarrow> json \<Rightarrow> json" where
  "round_value n (JFloat x) = JFloat (round_py x n)"
| "round_value n (JBool b) = JInt (if b then 1 else 0)"
| "round_value n v = v"

definition round_values :: "(string \<times> nat) list \<Rightarrow> pydict \<Rightarrow> pydict" where
  "round_values ks d = fold (\<lambda>(k, n) d. if has d k then AList.update k (round_value n (fld d k)) d else d) ks d"

definition float_at :: "pydict \<Rightarrow> string \<Rightarrow> nat \<Rightarrow> router_exc + json" where
  "float_at d k n = map_sum id (\<lambda>x. JFloat (round_py x n)) (router_float (get_or d k (JFloat (Fin 0 0))))"

subsection \<open>\<open>compact_json_bytes\<close>\<close>

definition aircraft_of :: "pydict \<Rightarrow> pydict" where
  "aircraft_of d = (case get d ''aircraft'' of JObj a \<Rightarrow> a | _ \<Rightarrow> [])"

text \<open>The report after the command \<open>auto\<close>\<close>

definition auto_aircraft :: "pydict \<Rightarrow> router_exc + pydict" where
  "auto_aircraft d =
     (let a = aircraft_of d in
      map_sum id drop_none (round_floats [(''lat'', 5), (''lng'', 5), (''altitude'', 2), (''heading'', 2)]
        [(''link_active'', get_or a ''link_active'' (get d ''aircraft_link'')),
         (''mode'', get_or d ''aircraft_mode'' (get a ''mode'')),
         (''armed'', get_or d ''aircraft_armed'' (get a ''armed'')),
         (''position_observed'', get_or d ''aircraft_position_observed'' (get_or a ''position_observed'' (JBool False))),
         (''lat'', get_or d ''aircraft_lat'' (get a ''lat'')),
         (''lng'', get_or d ''aircraft_lng'' (get a ''lng'')),
         (''altitude'', get_or d ''aircraft_altitude'' (get a ''altitude'')),
         (''heading'', get_or d ''aircraft_heading'' (get a ''heading''))]))"

text \<open>The outer dictionary without its last key \<open>aircraft\<close>\<close>

definition auto_outer :: "pydict \<Rightarrow> json \<Rightarrow> json \<Rightarrow> pydict" where
  "auto_outer d lat lng = drop_empty
     [(''updated_at'', get d ''updated_at''), (''lat'', lat), (''lng'', lng),
      (''position_observed'', JBool (json_truthy (get_or d ''position_observed'' (JBool False)))),
      (''flight_mode'', get d ''flight_mode''), (''armed'', get d ''armed''), (''fc_link'', get d ''fc_link''),
      (''gps_fix_type'', get d ''gps_fix_type''), (''satellites_visible'', get d ''satellites_visible''),
      (''rover_tx_stage'', get d ''rover_tx_stage''), (''mission_status'', cut 48 (get_or d ''mission_status'' (JStr []))),
      (''fault_text'', cut 96 (get_or d ''fault_text'' (JStr []))), (''last_command'', JStr ''auto''),
      (''aircraft_link'', get d ''aircraft_link'')]"

definition with_aircraft :: "pydict \<Rightarrow> pydict \<Rightarrow> json" where
  "with_aircraft d a = JObj (d @ [(''aircraft'', JObj a)])"

definition shorten_fault :: "pydict \<Rightarrow> pydict" where
  "shorten_fault d = (if has d ''fault_text'' then AList.update ''fault_text'' (cut 64 (fld d ''fault_text'')) d else d)"

definition auto_candidates :: "pydict \<Rightarrow> pydict \<Rightarrow> json list" where
  "auto_candidates d a =
     (let d1 = without ''mission_status'' d; d2 = without ''fc_link'' d1; a1 = without ''altitude'' a; a2 = without ''heading'' a1
      in [with_aircraft d a, with_aircraft d1 a, with_aircraft d2 a, with_aircraft d2 a1, with_aircraft (shorten_fault d2) a2])"

definition auto_report :: "nat \<Rightarrow> pydict \<Rightarrow> router_exc + string option" where
  "auto_report mx d =
     (if py_lower (py_str (get_or d ''last_command'' (JStr []))) \<noteq> ''auto'' then Inr None
      else (case auto_aircraft d of
         Inl e \<Rightarrow> Inl e
       | Inr a \<Rightarrow> (case float_at d ''lat'' 5 of
           Inl e \<Rightarrow> Inl e
         | Inr lat \<Rightarrow> (case float_at d ''lng'' 5 of
             Inl e \<Rightarrow> Inl e
           | Inr lng \<Rightarrow> Inr (first_fit mx (auto_candidates (auto_outer d lat lng) a))))))"

text \<open>Messages of the aircraft\<close>

definition short_message :: "nat \<Rightarrow> string \<Rightarrow> pydict \<Rightarrow> json" where
  "short_message n ty m = JObj [(''time'', get m ''time''), (''type'', cut 16 (get_or m ''type'' (JStr ty))),
     (''text'', cut n (get_or m ''text'' (JStr [])))]"

fun objects :: "json list \<Rightarrow> pydict list" where
  "objects [] = []"
| "objects (JObj m # vs) = m # objects vs"
| "objects (v # vs) = objects vs"

definition heartbeat_message :: "pydict \<Rightarrow> bool" where
  "heartbeat_message m \<longleftrightarrow> py_upper (py_str (get_or m ''type'' (JStr []))) = ''HEARTBEAT''"

definition latest_heartbeat :: "pydict list \<Rightarrow> pydict option" where
  "latest_heartbeat ms = find heartbeat_message (rev ms)"

definition select_messages :: "pydict option \<Rightarrow> pydict list \<Rightarrow> nat \<Rightarrow> pydict list" where
  "select_messages hb ms keep =
     (let sel = last_n keep ms in
      case hb of
        Some h \<Rightarrow> if \<not> list_ex (\<lambda>m. py_eq (JObj h) (JObj m)) sel then h # (if keep = 1 then [] else last_n (keep - 1) sel) else sel
      | None \<Rightarrow> sel)"

definition observed_or :: "pydict \<Rightarrow> pydict \<Rightarrow> json" where
  "observed_or d a = get_or d ''aircraft_position_observed'' (get a ''position_observed'')"

definition one_message :: "nat \<Rightarrow> string \<Rightarrow> pydict option \<Rightarrow> string \<times> json" where
  "one_message n ty hb = (''messages'', JArr (case hb of None \<Rightarrow> [] | Some m \<Rightarrow> if m = [] then [] else [short_message n ty m]))"

definition compact_aircraft :: "pydict \<Rightarrow> pydict \<Rightarrow> pydict" where
  "compact_aircraft d a = drop_none
     [(''link_active'', get a ''link_active''), (''last_seen_age_sec'', get a ''last_seen_age_sec''), (''mode'', get d ''aircraft_mode''),
      (''armed'', get d ''aircraft_armed''), (''battery_percent'', get d ''aircraft_battery_percent''), (''lat'', get d ''aircraft_lat''),
      (''lng'', get d ''aircraft_lng''), (''position_observed'', observed_or d a), (''altitude'', get d ''aircraft_altitude''),
      (''ground_speed'', get d ''aircraft_ground_speed''), (''heading'', get d ''aircraft_heading''),
      (''mission_status'', get d ''aircraft_mission_status'')]"

text \<open>\<open>position_observed\<close> is reported only when it is True\<close>

definition pick_observed :: "string list \<Rightarrow> pydict \<Rightarrow> pydict" where
  "pick_observed ks d = filter (\<lambda>(k, v). k \<noteq> ''position_observed'' \<or> v = JBool True) (pick ks d)"

definition priority_keys :: "string list" where
  "priority_keys = [''updated_at'', ''lat'', ''lng'', ''position_observed'', ''ground_speed'', ''heading'', ''battery_percent'',
     ''flight_mode'', ''lte_rssi'', ''fc_link'', ''last_command'', ''aircraft_link'', ''aircraft_age'', ''aircraft_tx_stage'',
     ''aircraft_tx_pending'', ''aircraft_mission_status'', ''aircraft_fault_text'']"

definition priority_report :: "pydict \<Rightarrow> pydict \<Rightarrow> pydict list \<Rightarrow> nat \<Rightarrow> json" where
  "priority_report d a ms keep = with_aircraft (pick_observed priority_keys d)
     (compact_aircraft d a @ [(''messages'', JArr (map (short_message 120 ''MSG'') (select_messages (latest_heartbeat ms) ms keep)))])"

definition heartbeat_or_last :: "pydict list \<Rightarrow> pydict option" where
  "heartbeat_or_last ms = (case latest_heartbeat ms of Some h \<Rightarrow> Some h | None \<Rightarrow> if ms = [] then None else Some (last ms))"

definition mission_keys :: "string list" where
  "mission_keys = [''updated_at'', ''lat'', ''lng'', ''flight_mode'', ''lte_rssi'', ''last_command'', ''aircraft_link'',
     ''aircraft_tx_stage'', ''aircraft_tx_pending'', ''aircraft_mission_status'', ''aircraft_fault_text'']"

definition mission_report :: "pydict \<Rightarrow> pydict \<Rightarrow> pydict list \<Rightarrow> json list" where
  "mission_report d a ms =
     (let stage = or_text (get_or d ''aircraft_tx_stage'' (JStr [])) [] in
      if py_lower (py_str stage) \<in> {[], ''idle''} then []
      else [with_aircraft (drop_empty (pick mission_keys d))
        (round_values [(''lat'', 7), (''lng'', 7)] (drop_none
          [(''link_active'', get a ''link_active''), (''mode'', get d ''aircraft_mode''), (''armed'', get d ''aircraft_armed''),
           (''lat'', get_or d ''aircraft_lat'' (get a ''lat'')), (''lng'', get_or d ''aircraft_lng'' (get a ''lng'')),
           (''position_observed'', observed_or d a), (''altitude'', get d ''aircraft_altitude''),
           (''ground_speed'', get d ''aircraft_ground_speed''), (''heading'', get d ''aircraft_heading''),
           one_message 72 ''MSG'' (heartbeat_or_last ms)]))])"

definition essential_keys :: "string list" where
  "essential_keys = [''updated_at'', ''lat'', ''lng'', ''ground_speed'', ''heading'', ''position_observed'', ''battery_percent'',
     ''armed'', ''flight_mode'', ''lte_rssi'', ''last_command'', ''aircraft_link'']"

definition essential_report :: "pydict \<Rightarrow> pydict \<Rightarrow> pydict list \<Rightarrow> json" where
  "essential_report d a ms = with_aircraft (pick_observed essential_keys d)
     (drop_none (round_values [(''lat'', 7), (''lng'', 7), (''altitude'', 2), (''ground_speed'', 2), (''heading'', 2)]
       [(''link_active'', get a ''link_active''), (''mode'', get d ''aircraft_mode''), (''armed'', get d ''aircraft_armed''),
        (''battery_percent'', get d ''aircraft_battery_percent''), (''lat'', get d ''aircraft_lat''), (''lng'', get d ''aircraft_lng''),
        (''position_observed'', observed_or d a), (''altitude'', get d ''aircraft_altitude''),
        (''ground_speed'', get d ''aircraft_ground_speed''), (''heading'', get d ''aircraft_heading''),
        one_message 96 ''MSG'' (heartbeat_or_last ms)]))"

definition live_aircraft :: "pydict \<Rightarrow> pydict \<Rightarrow> pydict list \<Rightarrow> router_exc + pydict" where
  "live_aircraft d a ms = map_sum id drop_none
     (round_floats [(''lat'', 5), (''lng'', 5), (''altitude'', 2), (''ground_speed'', 2), (''heading'', 2)]
       [(''link_active'', get a ''link_active''), (''mode'', get d ''aircraft_mode''), (''armed'', get d ''aircraft_armed''),
        (''battery_percent'', get d ''aircraft_battery_percent''), (''lat'', get_or d ''aircraft_lat'' (get a ''lat'')),
        (''lng'', get_or d ''aircraft_lng'' (get a ''lng'')), (''position_observed'', observed_or d a),
        (''altitude'', get d ''aircraft_altitude''), (''ground_speed'', get d ''aircraft_ground_speed''),
        (''heading'', get d ''aircraft_heading''), one_message 64 ''HEARTBEAT'' (heartbeat_or_last ms)])"

definition live_outer :: "pydict \<Rightarrow> json \<Rightarrow> json \<Rightarrow> pydict" where
  "live_outer d lat lng = drop_empty
     [(''updated_at'', get d ''updated_at''), (''lat'', lat), (''lng'', lng),
      (''position_observed'', JBool (json_truthy (get_or d ''position_observed'' (JBool False)))),
      (''flight_mode'', get d ''flight_mode''), (''last_command'', get d ''last_command''), (''aircraft_link'', get d ''aircraft_link''),
      (''aircraft_command_event'', get d ''aircraft_command_event'')]"

definition live_candidates :: "pydict \<Rightarrow> pydict \<Rightarrow> json list" where
  "live_candidates d a =
     (let d1 = without ''aircraft_command_event'' d; a1 = without ''ground_speed'' a; a2 = without ''battery_percent'' a1;
          d2 = without ''flight_mode'' d1
      in [with_aircraft d a, with_aircraft d1 a, with_aircraft d1 a1, with_aircraft d1 a2, with_aircraft d2 a2])"

definition live_report :: "nat \<Rightarrow> pydict \<Rightarrow> pydict \<Rightarrow> pydict list \<Rightarrow> router_exc + string option" where
  "live_report mx d a ms =
     (case live_aircraft d a ms of
        Inl e \<Rightarrow> Inl e
      | Inr air \<Rightarrow> (case float_at d ''lat'' 5 of
          Inl e \<Rightarrow> Inl e
        | Inr lat \<Rightarrow> (case float_at d ''lng'' 5 of
            Inl e \<Rightarrow> Inl e
          | Inr lng \<Rightarrow> Inr (first_fit mx (live_candidates (live_outer d lat lng) air)))))"

text \<open>The reports with messages, when the aircraft has a list of them\<close>

definition message_report :: "nat \<Rightarrow> pydict \<Rightarrow> pydict \<Rightarrow> pydict list \<Rightarrow> router_exc + string option" where
  "message_report mx d a ms =
     (case first_fit mx (map (priority_report d a ms) [4, 3, 2, 1] @ mission_report d a ms @ [essential_report d a ms]) of
        Some t \<Rightarrow> Inr (Some t)
      | None \<Rightarrow> live_report mx d a ms)"

definition smaller_candidates :: "pydict \<Rightarrow> pydict \<Rightarrow> json list" where
  "smaller_candidates d a =
     (let put = (\<lambda>b. JObj (AList.update ''aircraft'' (JObj b) d));
          some = (\<lambda>k n vs. AList.update ''messages'' (JArr (map (short_message n ''MSG'') (objects (last_n k vs)))) a)
      in (case get a ''messages'' of
            JArr vs \<Rightarrow> [put (some 10 160 vs), put (some 6 120 vs)]
          | _ \<Rightarrow> [put a])
         @ [put (without ''messages'' a), JObj (without ''aircraft'' d)])"

definition aircraft_report :: "nat \<Rightarrow> pydict \<Rightarrow> router_exc + string option" where
  "aircraft_report mx d =
     (case get d ''aircraft'' of
        JObj a \<Rightarrow>
          (case (case get a ''messages'' of JArr vs \<Rightarrow> message_report mx d a (objects vs) | _ \<Rightarrow> Inr None) of
             Inl e \<Rightarrow> Inl e
           | Inr (Some t) \<Rightarrow> Inr (Some t)
           | Inr None \<Rightarrow> Inr (first_fit mx (smaller_candidates d a)))
      | _ \<Rightarrow> Inr None)"

definition fallback_keys :: "string list" where
  "fallback_keys = [''updated_at'', ''lat'', ''lng'', ''position_observed'', ''altitude'', ''ground_speed'', ''heading'',
     ''battery_percent'', ''armed'', ''flight_mode'', ''lte_rssi'', ''fc_link'', ''gps_fix_type'', ''satellites_visible'',
     ''mission_status'', ''rover_tx_stage'', ''rover_tx_id'', ''rover_tx_pending'', ''aircraft_tx_stage'', ''aircraft_tx_id'',
     ''aircraft_tx_pending'', ''aircraft_mission_status'', ''aircraft_fault_text'', ''aircraft_command_event'',
     ''aircraft_command_event_id'', ''aircraft_command_fault'', ''steering'', ''throttle'', ''last_command'', ''aircraft_link'',
     ''aircraft_age'', ''aircraft_packets'', ''aircraft_msg'', ''aircraft_msg_time'', ''aircraft_mode'', ''aircraft_armed'',
     ''aircraft_battery_percent'', ''aircraft_lat'', ''aircraft_lng'', ''aircraft_position_observed'', ''aircraft_altitude'',
     ''aircraft_ground_speed'', ''aircraft_heading'']"

definition removable_keys :: "string list" where
  "removable_keys = [''aircraft_command_fault'', ''aircraft_command_event_id'', ''aircraft_msg_time'', ''aircraft_age'',
     ''aircraft_packets'', ''aircraft_msg'', ''aircraft_fault_text'', ''aircraft_mission_status'', ''aircraft_tx_id'', ''rover_tx_id'',
     ''satellites_visible'', ''gps_fix_type'', ''mission_status'']"

definition core_keys :: "string list" where
  "core_keys = [''updated_at'', ''lat'', ''lng'', ''position_observed'', ''ground_speed'', ''heading'', ''battery_percent'', ''armed'',
     ''flight_mode'', ''lte_rssi'', ''fc_link'', ''steering'', ''throttle'', ''last_command'', ''aircraft_link'',
     ''aircraft_command_event'']"

definition shorten_msg :: "nat \<Rightarrow> pydict \<Rightarrow> pydict" where
  "shorten_msg n d = AList.update ''aircraft_msg'' (cut n (get_or d ''aircraft_msg'' (JStr []))) d"

text \<open>The code names \<open>aircraft_mission_status\<close> twice among these keys, which picks it once\<close>

definition fallback_dict :: "pydict \<Rightarrow> pydict" where
  "fallback_dict d = (let f = pick fallback_keys d in if has f ''aircraft_msg'' then shorten_msg 48 f else f)"

definition core_report :: "pydict \<Rightarrow> json" where
  "core_report d = JObj (pick core_keys (last (pop_each removable_keys (shorten_msg 24 (fallback_dict d)))))"

definition fallback_report :: "nat \<Rightarrow> pydict \<Rightarrow> string" where
  "fallback_report mx d =
     (let f = fallback_dict d; f1 = shorten_msg 24 f in
      case first_fit mx (JObj f # JObj f1 # map JObj (pop_each removable_keys f1)) of
        Some t \<Rightarrow> t
      | None \<Rightarrow> dump (core_report d))"

definition compact_json_bytes :: "pydict \<Rightarrow> nat \<Rightarrow> router_exc + string" where
  "compact_json_bytes d mx =
     (if dump_size (JObj d) \<le> mx then Inr (dump (JObj d))
      else (case auto_report mx d of
         Inl e \<Rightarrow> Inl e
       | Inr (Some t) \<Rightarrow> Inr t
       | Inr None \<Rightarrow> (case aircraft_report mx d of
           Inl e \<Rightarrow> Inl e
         | Inr (Some t) \<Rightarrow> Inr t
         | Inr None \<Rightarrow> Inr (fallback_report mx d))))"

subsection \<open>\<open>compact_slave_state\<close>\<close>

text \<open>A dictionary whose values may raise\<close>

fun collect :: "(string \<times> (router_exc + json)) list \<Rightarrow> router_exc + pydict" where
  "collect [] = Inr []"
| "collect ((k, Inl e) # fs) = Inl e"
| "collect ((k, Inr v) # fs) = map_sum id (Cons (k, v)) (collect fs)"

text \<open>\<open>round(float(d.get(k, 0) or 0), n)\<close>\<close>

definition rounded :: "pydict \<Rightarrow> string \<Rightarrow> nat \<Rightarrow> router_exc + json" where
  "rounded d k n = map_sum id (\<lambda>x. JFloat (round_py x n)) (float_or d k (Fin 0 0))"

definition truth :: "pydict \<Rightarrow> string \<Rightarrow> router_exc + json" where
  "truth d k = Inr (JBool (json_truthy (get_or d k (JBool False))))"

definition text_at :: "pydict \<Rightarrow> string \<Rightarrow> string \<Rightarrow> nat \<Rightarrow> router_exc + json" where
  "text_at d k v n = Inr (cut n (get_or d k (JStr v)))"

definition slave_battery :: "pydict \<Rightarrow> router_exc + json" where
  "slave_battery d =
     (let w = get_or d ''battery'' (JInt (- 1)) in
      map_sum id (\<lambda>x. JFloat (round_py x 1)) (if json_truthy w then router_float w else Inr (Fin 0 0)))"

definition slave_fields :: "pydict \<Rightarrow> router_exc + pydict" where
  "slave_fields d = collect
     [(''updated_at'', rounded d ''updated_at'' 3), (''online'', truth d ''online''), (''fc_connected'', truth d ''fc_connected''),
      (''blocked'', truth d ''blocked''), (''link_state'', text_at d ''link_state'' ''OFFLINE'' 24),
      (''mode'', text_at d ''mode'' ''UNKNOWN'' 32), (''armed'', truth d ''armed''), (''position_observed'', truth d ''position_observed''),
      (''lat'', rounded d ''lat'' 6), (''lon'', rounded d ''lon'' 6), (''altitude'', rounded d ''altitude'' 2),
      (''speed'', rounded d ''speed'' 2), (''heading'', rounded d ''heading'' 2), (''battery'', slave_battery d),
      (''mission_stage'', text_at d ''mission_stage'' ''IDLE'' 24), (''mission_id'', text_at d ''mission_id'' [] 36),
      (''fault'', text_at d ''fault'' [] 96)]"

definition event_sequence :: "pydict \<Rightarrow> router_exc + json" where
  "event_sequence e =
     (let w = get_or e ''sequence'' (JInt 0) in
      if \<not> json_truthy w then Inr (JInt 0)
      else (case json_int w of None \<Rightarrow> Inl (RouterValue ''invalid literal for int'') | Some v \<Rightarrow> Inr v))"

definition event_fields :: "pydict \<Rightarrow> router_exc + pydict" where
  "event_fields e = collect
     [(''timestamp'', rounded e ''timestamp'' 3), (''sequence'', event_sequence e), (''type'', text_at e ''type'' ''NONE'' 16),
      (''text'', text_at e ''text'' [] 96)]"

text \<open>\<open>text\<close> and \<open>fault\<close> cut to a limit, and the whole report\<close>

definition cut_at :: "nat \<Rightarrow> string \<Rightarrow> pydict \<Rightarrow> pydict" where
  "cut_at n k d = AList.update k (JStr (take n (str_of (fld d k)))) d"

definition slave_dict :: "pydict \<Rightarrow> pydict \<Rightarrow> pydict" where
  "slave_dict d e = d @ [(''event'', JObj e)]"

fun slave_cuts :: "nat list \<Rightarrow> pydict \<Rightarrow> pydict \<Rightarrow> pydict list" where
  "slave_cuts [] d e = (pop_each [''battery'', ''speed'', ''heading'', ''mission_id'', ''fault'', ''event''] (slave_dict d e))"
| "slave_cuts (n # ns) d e =
     (let e' = cut_at n ''text'' e; d' = cut_at n ''fault'' d in slave_dict d' e' # slave_cuts ns d' e')"

definition slave_core :: "pydict \<Rightarrow> json" where
  "slave_core d = JObj (map (\<lambda>k. (k, fld d k)) [''updated_at'', ''online'', ''link_state'', ''mode'', ''armed''])"

definition slave_event :: "pydict \<Rightarrow> pydict" where
  "slave_event d = (case get d ''event'' of JObj e \<Rightarrow> e | _ \<Rightarrow> [])"

definition compact_slave_state :: "json \<Rightarrow> nat \<Rightarrow> router_exc + string" where
  "compact_slave_state v mx =
     (let d = dict_of v in
      case slave_fields d of
        Inl x \<Rightarrow> Inl x
      | Inr f \<Rightarrow> (case event_fields (slave_event d) of
          Inl x \<Rightarrow> Inl x
        | Inr e \<Rightarrow> (case first_fit mx (map JObj (slave_dict f e # slave_cuts [64, 40, 24, 0] f e)) of
            Some t \<Rightarrow> Inr t
          | None \<Rightarrow> Inr (dump (slave_core f)))))"

subsection \<open>\<open>RoverTelemetry.data\<close>\<close>

record rover_sample =
  sm_lat :: pyfloat
  sm_lng :: pyfloat
  sm_observed :: bool
  sm_altitude :: pyfloat
  sm_speed :: pyfloat
  sm_heading :: int
  sm_armed :: bool
  sm_mode :: string
  sm_rssi :: int
  sm_fc_link :: bool
  sm_fix :: int
  sm_satellites :: int
  sm_ekf :: int
  sm_control_mode :: string
  sm_target_lat :: pyfloat
  sm_target_lng :: pyfloat
  sm_target_speed :: pyfloat
  sm_steering :: int
  sm_throttle :: int
  sm_last_command :: string

definition rover_sample_init :: rover_sample where
  "rover_sample_init = \<lparr>sm_lat = Fin 3211974 (- 5), sm_lng = Fin 11895314 (- 5), sm_observed = False, sm_altitude = Fin 0 0,
     sm_speed = Fin 0 0, sm_heading = 0, sm_armed = False, sm_mode = ''standby'', sm_rssi = 0, sm_fc_link = False, sm_fix = 0,
     sm_satellites = 0, sm_ekf = 0, sm_control_mode = ''standby'', sm_target_lat = Fin 0 0, sm_target_lng = Fin 0 0,
     sm_target_speed = Fin 5 (- 1), sm_steering = 0, sm_throttle = 0, sm_last_command = ''none''\<rparr>"

definition away_from_zero :: "pyfloat \<Rightarrow> bool" where
  "away_from_zero x \<longleftrightarrow> (case x of Fin m e \<Rightarrow> 1 / 1000000 < \<bar>dec_val m e\<bar> | NaN \<Rightarrow> False | _ \<Rightarrow> True)"

definition waypoint_ready :: "rover_sample \<Rightarrow> bool" where
  "waypoint_ready s \<longleftrightarrow> 3 \<le> sm_fix s \<and> 6 \<le> sm_satellites s \<and> away_from_zero (sm_lat s) \<and> away_from_zero (sm_lng s)"

definition clamp_number :: "int \<Rightarrow> int \<Rightarrow> int \<Rightarrow> json" where
  "clamp_number v lo hi = JInt (max lo (min hi v))"

definition rounded_float :: "pyfloat \<Rightarrow> nat \<Rightarrow> json" where
  "rounded_float x n = JFloat (round_py x n)"

text \<open>\<open>now\<close> is the clock\<close>

definition sample_data :: "pyfloat \<Rightarrow> rover_sample \<Rightarrow> rover_report \<Rightarrow> pydict" where
  "sample_data now s r =
     [(''updated_at'', rounded_float now 3), (''lat'', rounded_float (sm_lat s) 7), (''lng'', rounded_float (sm_lng s) 7),
      (''position_observed'', JBool (sm_observed s)), (''altitude'', rounded_float (sm_altitude s) 2),
      (''ground_speed'', rounded_float (sm_speed s) 2), (''heading'', JInt (sm_heading s mod 360)), (''battery_percent'', JInt 100),
      (''armed'', JBool (sm_armed s)), (''flight_mode'', JStr (take 64 (sm_mode s))), (''lte_rssi'', JInt (sm_rssi s)),
      (''fc_link'', JBool (sm_fc_link s)), (''gps_fix_type'', JInt (sm_fix s)), (''satellites_visible'', JInt (sm_satellites s)),
      (''ekf_flags'', JInt (sm_ekf s)), (''waypoint_ready'', JBool (waypoint_ready s)),
      (''control_mode'', JStr (take 32 (sm_control_mode s))), (''mission_status'', JStr (take 64 (rp_mission_status r))),
      (''target_lat'', rounded_float (sm_target_lat s) 7), (''target_lng'', rounded_float (sm_target_lng s) 7),
      (''target_speed'', rounded_float (pf_clamp (sm_target_speed s) 0 3) 2), (''steering'', clamp_number (sm_steering s) (- 100) 100),
      (''throttle'', clamp_number (sm_throttle s) (- 100) 100), (''last_command'', JStr (take 64 (sm_last_command s))),
      (''fault_text'', JStr (take 255 (rp_fault r)))]"

definition rover_tx_data :: "rover_report \<Rightarrow> pydict" where
  "rover_tx_data r =
     (if rp_stage r \<noteq> ''idle'' \<or> rp_id r \<noteq> [] \<or> rp_pending r \<noteq> 0 then
        [(''rover_tx_stage'', JStr (take 24 (rp_stage r))), (''rover_tx_id'', JStr (take 36 (rp_id r))),
         (''rover_tx_pending'', clamp_number (rp_pending r) 0 999)]
      else [])"

definition aircraft_tx_data :: "rover_report \<Rightarrow> pydict" where
  "aircraft_tx_data r =
     (if rp_air_stage r \<noteq> ''idle'' \<or> rp_air_id r \<noteq> [] \<or> rp_air_pending r \<noteq> 0 then
        [(''aircraft_tx_stage'', JStr (take 24 (rp_air_stage r))), (''aircraft_tx_id'', JStr (take 36 (rp_air_id r))),
         (''aircraft_tx_pending'', clamp_number (int (rp_air_pending r)) 0 999),
         (''aircraft_mission_status'', JStr (take 48 (rp_air_mission_status r))), (''aircraft_fault_text'', JStr (take 120 (rp_air_fault r)))]
      else [])"

definition aircraft_event_data :: "rover_report \<Rightarrow> pydict" where
  "aircraft_event_data r =
     (if rp_event r \<noteq> [] \<or> rp_event_fault r \<noteq> [] then
        [(''aircraft_command_event'', JStr (take 24 (rp_event r))), (''aircraft_command_event_id'', JStr (take 36 (rp_event_id r))),
         (''aircraft_command_fault'', JStr (take 120 (rp_event_fault r)))]
      else [])"

definition telemetry_data :: "pyfloat \<Rightarrow> rover_sample \<Rightarrow> rover_report \<Rightarrow> pydict" where
  "telemetry_data now s r = sample_data now s r @ rover_tx_data r @ aircraft_tx_data r @ aircraft_event_data r"

text \<open>The values of one report; \<open>now_ms\<close> stands beside each\<close>

definition cloud_values :: "int \<Rightarrow> pydict \<Rightarrow> pydict" where
  "cloud_values now_ms d = map (\<lambda>(k, v). (k, JObj [(''value'', v), (''time'', JInt now_ms)])) d"

definition tuya_envelope :: "string \<Rightarrow> int \<Rightarrow> pydict \<Rightarrow> json" where
  "tuya_envelope fresh now_ms d = JObj [(''msgId'', JStr fresh), (''time'', JInt now_ms), (''sys'', JObj [(''ack'', JInt 1)]),
     (''data'', JObj (cloud_values now_ms d))]"

definition tuya_report_payload :: "string \<Rightarrow> int \<Rightarrow> pyfloat \<Rightarrow> rover_sample \<Rightarrow> rover_report \<Rightarrow> json" where
  "tuya_report_payload fresh now_ms now s r = tuya_envelope fresh now_ms (telemetry_data now s r)"

definition tuya_compact_payload :: "string \<Rightarrow> int \<Rightarrow> pyfloat \<Rightarrow> rover_sample \<Rightarrow> rover_report \<Rightarrow> pydict \<Rightarrow> json option \<Rightarrow> router_exc + json" where
  "tuya_compact_payload fresh now_ms now s r extra slave =
     (let d = dict_update (telemetry_data now s r) extra in
      case compact_json_bytes d 480 of
        Inl e \<Rightarrow> Inl e
      | Inr t \<Rightarrow>
          let cloud = (''rover_state'', JStr t) # map (\<lambda>k. (k, JStr (py_str (fld d k))))
                [''target_lat'', ''target_lng'', ''target_speed'', ''steering'', ''throttle'']
          in (case slave of
                None \<Rightarrow> Inr (tuya_envelope fresh now_ms cloud)
              | Some v \<Rightarrow> map_sum id (\<lambda>t. tuya_envelope fresh now_ms (cloud @ [(''slave_state'', JStr t)])) (compact_slave_state v 480)))"

end
