(* ===== verification/RoverReportProps.thy ===== *)
theory RoverReportProps
  imports RoverReport
begin

text \<open>
  What reaches the cloud: a report fits its data point or is the core of the telemetry with unchanged values; the report
  of the second aircraft always fits; a command text of control characters makes the core exceed the limit.
\<close>

subsection \<open>Candidates\<close>

lemma first_fit_fits: "first_fit mx vs = Some t \<Longrightarrow> length (utf8 t) \<le> mx"
  by (induction vs) (auto simp: dump_size_def split: if_splits)

lemma first_fit_some: "first_fit mx vs = Some t \<Longrightarrow> \<exists>v\<in>set vs. t = dump v"
  by (induction vs) (auto split: if_splits)

lemma auto_report_fits: "auto_report mx d = Inr (Some t) \<Longrightarrow> length (utf8 t) \<le> mx"
  by (auto simp: auto_report_def dest: first_fit_fits split: if_splits sum.splits)

lemma live_report_fits: "live_report mx d a ms = Inr (Some t) \<Longrightarrow> length (utf8 t) \<le> mx"
  by (auto simp: live_report_def dest: first_fit_fits split: sum.splits)

lemma message_report_fits: "message_report mx d a ms = Inr (Some t) \<Longrightarrow> length (utf8 t) \<le> mx"
  unfolding message_report_def by (auto simp del: first_fit.simps dest: first_fit_fits live_report_fits split: option.splits)

lemma aircraft_report_fits:
  assumes "aircraft_report mx d = Inr (Some t)"
  shows "length (utf8 t) \<le> mx"
proof (cases "get d ''aircraft''")
  case (JObj a)
  let ?m = "case get a ''messages'' of JArr vs \<Rightarrow> message_report mx d a (objects vs) | _ \<Rightarrow> Inr None"
  have m: "length (utf8 u) \<le> mx" if "?m = Inr (Some u)" for u
    using that message_report_fits by (auto split: json.splits)
  from assms JObj have "(case ?m of Inl e \<Rightarrow> Inl e | Inr (Some t) \<Rightarrow> Inr (Some t) | Inr None \<Rightarrow> Inr (first_fit mx (smaller_candidates d a)))
      = Inr (Some t)" by (simp add: aircraft_report_def)
  with m first_fit_fits show ?thesis
    by (cases ?m rule: sum.exhaust) (auto split: option.splits)
qed (use assms in \<open>auto simp: aircraft_report_def\<close>)

subsection \<open>The core of the telemetry\<close>

definition same_at :: "string set \<Rightarrow> pydict \<Rightarrow> pydict \<Rightarrow> bool" where
  "same_at K d d' \<longleftrightarrow> (\<forall>k\<in>K. map_of d k = map_of d' k)"

lemma same_at_has: "same_at K d e \<Longrightarrow> k \<in> K \<Longrightarrow> has d k = has e k \<and> fld d k = fld e k"
  by (simp add: same_at_def has_def fld_def)

lemma same_at_trans: "same_at K d e \<Longrightarrow> same_at K e f \<Longrightarrow> same_at K d f"
  by (simp add: same_at_def)

lemma map_of_pick: "map_of (pick ks d) k = (if k \<in> set ks then map_of d k else None)"
  unfolding pick_def by (induction ks) (auto simp: has_def fld_def)

lemma pick_same: "same_at (set ks) d d' \<Longrightarrow> pick ks d = pick ks d'"
  unfolding pick_def by (induction ks) (auto simp: has_def fld_def same_at_def)

lemma map_of_without: "map_of (without k d) l = (if l = k then None else map_of d l)"
  by (induction d) (auto simp: without_def)

lemma pop_each_same:
  assumes "set ks \<inter> K = {}" and "ks \<noteq> []"
  shows "same_at K (last (pop_each ks d)) d"
  using assms
proof (induction ks arbitrary: d)
  case (Cons k ks)
  have w: "same_at K (without k d) d" using Cons.prems by (auto simp: same_at_def map_of_without)
  show ?case
  proof (cases "ks = []")
    case False
    with Cons have "same_at K (last (pop_each ks (without k d))) (without k d)" by auto
    moreover have "pop_each ks (without k d) \<noteq> []" using False by (cases ks) auto
    ultimately show ?thesis using w by (auto intro: same_at_trans)
  qed (use w in simp)
qed simp

lemma shorten_msg_same: "''aircraft_msg'' \<notin> K \<Longrightarrow> same_at K (shorten_msg n d) d"
  by (auto simp: same_at_def shorten_msg_def update_conv')

text \<open>The key sets, compared once\<close>

lemma core_keys_kept:
  "set removable_keys \<inter> set core_keys = {}" "removable_keys \<noteq> []" "''aircraft_msg'' \<notin> set core_keys" "set core_keys \<subseteq> set fallback_keys"
  by code_simp+

lemma fallback_same: "same_at (set core_keys) (fallback_dict d) d"
proof -
  have "same_at (set core_keys) (pick fallback_keys d) d"
    using core_keys_kept(4) by (auto simp: same_at_def map_of_pick)
  then show ?thesis
    using shorten_msg_same [OF core_keys_kept(3)] by (auto simp: fallback_dict_def Let_def intro: same_at_trans)
qed

lemma core_report_picks: "core_report d = JObj (pick core_keys d)"
  unfolding core_report_def
  using same_at_trans [OF same_at_trans [OF pop_each_same [OF core_keys_kept(1,2)] shorten_msg_same [OF core_keys_kept(3)]] fallback_same]
  by (simp add: pick_same)

lemma fallback_report_result: "length (utf8 (fallback_report mx d)) \<le> mx \<or> fallback_report mx d = dump (JObj (pick core_keys d))"
  unfolding fallback_report_def Let_def core_report_picks
  by (auto simp del: first_fit.simps pop_each.simps dest: first_fit_fits split: option.splits)

subsection \<open>Sizes\<close>

lemma utf8_append [simp]: "utf8 (xs @ ys) = utf8 xs @ utf8 ys"
  by (simp add: utf8_def)

lemma utf8_Cons: "utf8 (c # s) = utf8_char c @ utf8 s"
  by (simp add: utf8_def)

lemma utf8_punctuation:
  "length (utf8_char CHR '':'') = 1" "length (utf8_char CHR '','') = 1" "length (utf8_char CHR ''{'') = 1" "length (utf8_char CHR ''}'') = 1"
  "length (utf8_char CHR 0x22) = 1" "utf8 [] = []"
  by code_simp+

lemma size_fields:
  "length (utf8 (render_fields False d)) = (\<Sum>(k, v)\<leftarrow>d. length (utf8 (show_str False k)) + dump_size v + 2) - 1"
proof (induction d)
  case (Cons f d)
  obtain k v where f: "f = (k, v)" by (cases f)
  show ?case
  proof (cases "d = []")
    case True
    then show ?thesis by (simp add: f dump_size_def dump_def utf8_Cons utf8_punctuation)
  next
    case False
    then obtain g e where d: "d = g # e" by (cases d) auto
    have "1 \<le> (\<Sum>(k, v)\<leftarrow>d. length (utf8 (show_str False k)) + dump_size v + 2)" by (cases g) (simp add: d)
    with False Cons show ?thesis by (simp add: f dump_size_def dump_def utf8_Cons utf8_punctuation)
  qed
qed (simp add: utf8_def)

lemma size_object: "d \<noteq> [] \<Longrightarrow> dump_size (JObj d) = (\<Sum>(k, v)\<leftarrow>d. length (utf8 (show_str False k)) + dump_size v + 2) + 1"
proof -
  assume "d \<noteq> []"
  then obtain k v e where d: "d = (k, v) # e" by (cases d) auto
  have "1 \<le> (\<Sum>(k, v)\<leftarrow>d. length (utf8 (show_str False k)) + dump_size v + 2)" by (simp add: d)
  then show ?thesis using size_fields [of d] by (simp add: dump_size_def dump_def utf8_Cons utf8_punctuation)
qed

lemma utf8_char_size: "length (utf8_char c) \<le> 2"
  by (simp add: utf8_char_def Let_def)

lemma utf8_hex_digit: "n < 16 \<Longrightarrow> length (utf8_char (hex_digit n)) = 1"
proof -
  have "list_all (\<lambda>n. length (utf8_char (hex_digit n)) = 1) [0..<16]" by code_simp
  then show "n < 16 \<Longrightarrow> length (utf8_char (hex_digit n)) = 1" by (simp only: list_all_iff set_upt atLeastLessThan_iff) simp
qed

lemma hex4_size: "length (utf8 (hex4 c)) = 6"
proof -
  have "length (utf8_char CHR 0x5C) = 1" "length (utf8 ''u00'') = 3" by code_simp+
  moreover have "unat b div 16 < 16" for b :: byte using unat_byte_lt [of b] by simp
  ultimately show ?thesis by (simp add: hex4_def hex_byte_def utf8_Cons utf8_hex_digit utf8_punctuation)
qed

lemma escape_size: "length (utf8 (escape_char False c)) \<le> 6"
proof -
  have "length (utf8 [a, b]) \<le> 6" for a b using utf8_char_size [of a] utf8_char_size [of b] by (simp add: utf8_Cons utf8_punctuation)
  moreover have "length (utf8 [c]) \<le> 6" using utf8_char_size [of c] by (simp add: utf8_Cons utf8_punctuation)
  ultimately show ?thesis by (simp add: escape_char_def Let_def hex4_size)
qed

lemma size_str: "dump_size (JStr s) \<le> 6 * length s + 2"
proof -
  have "length (utf8 (concat (map (escape_char False) s))) \<le> 6 * length s"
  proof (induction s)
    case (Cons c s)
    then show ?case using escape_size [of c] by simp
  qed (simp add: utf8_punctuation)
  then show ?thesis by (simp add: dump_size_def dump_def show_str_def utf8_Cons utf8_punctuation)
qed

lemma size_bool: "dump_size (JBool b) \<le> 5"
proof -
  have "dump_size (JBool True) \<le> 5" "dump_size (JBool False) \<le> 5" by code_simp+
  then show ?thesis by (cases b) simp_all
qed

subsection \<open>The report of the second aircraft\<close>

lemma slave_core_values:
  assumes "slave_fields d = Inr f" and "rounded d ''updated_at'' 3 = Inr u"
  shows "\<exists>a b s m. slave_core f = JObj [(''updated_at'', u), (''online'', JBool a), (''link_state'', JStr (take 24 s)),
     (''mode'', JStr (take 32 m)), (''armed'', JBool b)]"
  using assms unfolding slave_fields_def truth_def text_at_def cut_def
  by (cases "rounded d ''lat'' 6"; cases "rounded d ''lon'' 6"; cases "rounded d ''altitude'' 2"; cases "rounded d ''speed'' 2";
      cases "rounded d ''heading'' 2"; cases "slave_battery d") (auto simp: slave_core_def)

lemma slave_keys:
  "length (utf8 (show_str False ''updated_at'')) = 12" "length (utf8 (show_str False ''online'')) = 8"
  "length (utf8 (show_str False ''link_state'')) = 12" "length (utf8 (show_str False ''mode'')) = 6"
  "length (utf8 (show_str False ''armed'')) = 7"
  by code_simp+

lemma slave_core_fits:
  assumes "slave_fields d = Inr f" and "rounded d ''updated_at'' 3 = Inr u" and "dump_size u \<le> 24"
  shows "dump_size (slave_core f) \<le> 480"
proof -
  from slave_core_values [OF assms(1,2)] obtain a b s m where c: "slave_core f = JObj [(''updated_at'', u), (''online'', JBool a),
     (''link_state'', JStr (take 24 s)), (''mode'', JStr (take 32 m)), (''armed'', JBool b)]" by blast
  have "dump_size (JStr (take 24 s)) \<le> 146" "dump_size (JStr (take 32 m)) \<le> 194"
    using size_str [of "take 24 s"] size_str [of "take 32 m"] by auto
  with assms(3) size_bool [of a] size_bool [of b] show ?thesis
    unfolding c by (simp add: size_object slave_keys)
qed

subsection \<open>Properties\<close>

text \<open>C34: A report of the rover either fits the data point, or it is the core of the telemetry: exactly the core keys of the
  data, with their values as they are.\<close>

theorem report_fits_or_is_core:
  assumes "compact_json_bytes d mx = Inr t"
  shows "length (utf8 t) \<le> mx \<or> t = dump (JObj (pick core_keys d))"
  using assms unfolding compact_json_bytes_def
  by (auto simp: dump_size_def dest: auto_report_fits aircraft_report_fits 
      split: if_splits sum.splits option.splits) (use fallback_report_result [of mx d] in blast)

text \<open>C33: The report of the second aircraft always fits its data point of 480 bytes, whatever texts it is given, when its
  time stamp prints as no more than the 24 characters of a Python float.\<close>

theorem slave_report_fits:
  assumes "compact_slave_state v 480 = Inr t" and "rounded (dict_of v) ''updated_at'' 3 = Inr u" and "dump_size u \<le> 24"
  shows "length (utf8 t) \<le> 480"
proof -
  obtain f e where f: "slave_fields (dict_of v) = Inr f" "event_fields (slave_event (dict_of v)) = Inr e"
    using assms(1) by (auto simp: compact_slave_state_def Let_def split: sum.splits)
  then have "(case first_fit 480 (map JObj (slave_dict f e # slave_cuts [64, 40, 24, 0] f e)) of
            Some t \<Rightarrow> Inr t
          | None \<Rightarrow> Inr (dump (slave_core f))) = (Inr t :: router_exc + string)"
    using assms(1) by (simp only: compact_slave_state_def Let_def sum.case)
  with slave_core_fits [OF f(1) assms(2,3)] show ?thesis
    by (auto simp: dump_size_def simp del: first_fit.simps slave_cuts.simps list.map split: option.splits dest: first_fit_fits)
qed

subsection \<open>A report that is too large\<close>

lemma first_fit_none: "(\<And>v. v \<in> set vs \<Longrightarrow> mx < dump_size v) \<Longrightarrow> first_fit mx vs = None"
  by (induction vs) (auto simp: not_le)

lemma pop_each_member: "e \<in> set (pop_each ks d) \<Longrightarrow> set ks \<inter> K = {} \<Longrightarrow> same_at K e d"
proof (induction ks arbitrary: d)
  case (Cons k ks)
  have "same_at K (without k d) d" using Cons.prems(2) by (auto simp: same_at_def map_of_without)
  with Cons show ?case by (auto intro: same_at_trans)
qed simp

lemma sum_over_keys:
  "distinct ks \<Longrightarrow> (\<And>k. k \<in> set ks \<Longrightarrow> has d k) \<Longrightarrow>
     (\<Sum>k\<leftarrow>ks. g k (fld d k)) \<le> (\<Sum>(k, v)\<leftarrow>d. g k v :: nat)"
proof (induction d arbitrary: ks)
  case Nil
  then show ?case by (cases ks) auto
next
  case (Cons f d)
  obtain k v where f: "f = (k, v)" by (cases f)
  let ?ks = "remove1 k ks"
  have i: "(\<Sum>l\<leftarrow>?ks. g l (fld d l)) \<le> (\<Sum>(k, v)\<leftarrow>d. g k v)"
    using Cons.prems by (intro Cons.IH) (auto simp: f)
  have e: "(\<Sum>l\<leftarrow>?ks. g l (fld (f # d) l)) = (\<Sum>l\<leftarrow>?ks. g l (fld d l))"
    using Cons.prems(1) by (intro arg_cong [of _ _ sum_list] map_cong) (auto simp: f)
  show ?case
  proof (cases "k \<in> set ks")
    case True
    then show ?thesis using i e by (simp add: sum_list_map_remove1 f)
  next
    case False
    then show ?thesis using i e by (simp add: remove1_idem f)
  qed
qed

definition telemetry_keys :: "string list" where
  "telemetry_keys = [''updated_at'', ''lat'', ''lng'', ''position_observed'', ''ground_speed'', ''heading'', ''battery_percent'', ''armed'',
     ''flight_mode'', ''lte_rssi'', ''fc_link'', ''steering'', ''throttle'']"

lemma telemetry_keys_facts:
  "distinct (''last_command'' # telemetry_keys)" "(\<Sum>k\<leftarrow>telemetry_keys. length (utf8 (show_str False k)) + 2) = 166"
  "length (utf8 (show_str False ''last_command'')) = 14" "set (''last_command'' # telemetry_keys) \<subseteq> set core_keys"
  by code_simp+

lemma object_lower_bound:
  assumes "\<And>k. k \<in> set (''last_command'' # telemetry_keys) \<Longrightarrow> has d k" and "fld d ''last_command'' = c"
  shows "183 + dump_size c \<le> dump_size (JObj d)"
proof -
  let ?g = "\<lambda>k v. length (utf8 (show_str False k)) + dump_size v + 2"
  have "has d ''last_command''" using assms(1) by simp
  then have ne: "d \<noteq> []" by auto
  have "(\<Sum>k\<leftarrow>telemetry_keys. length (utf8 (show_str False k)) + 2) \<le> (\<Sum>k\<leftarrow>telemetry_keys. ?g k (fld d k))"
    by (rule sum_list_mono) simp
  then have "182 + dump_size c \<le> (\<Sum>k\<leftarrow>''last_command'' # telemetry_keys. ?g k (fld d k))"
    using telemetry_keys_facts(2,3) assms(2) by simp
  also have "\<dots> \<le> (\<Sum>(k, v)\<leftarrow>d. ?g k v)"
    using telemetry_keys_facts(1) assms(1) by (rule sum_over_keys)
  finally show ?thesis using size_object [OF ne] by simp
qed

lemma control_size:
  assumes "\<forall>c\<in>set s. (of_char c :: nat) < 8"
  shows "dump_size (JStr s) = 6 * length s + 2"
proof -
  have "length (utf8 (concat (map (escape_char False) s))) = 6 * length s"
    using assms by (induction s) (auto simp: utf8_punctuation escape_char_def Let_def hex4_size)
  then show ?thesis by (simp add: dump_size_def dump_def show_str_def utf8_Cons utf8_punctuation)
qed

lemma sample_keys: "map fst (sample_data now s r) = [''updated_at'', ''lat'', ''lng'', ''position_observed'', ''altitude'', ''ground_speed'',
  ''heading'', ''battery_percent'', ''armed'', ''flight_mode'', ''lte_rssi'', ''fc_link'', ''gps_fix_type'', ''satellites_visible'', ''ekf_flags'',
  ''waypoint_ready'', ''control_mode'', ''mission_status'', ''target_lat'', ''target_lng'', ''target_speed'', ''steering'', ''throttle'',
  ''last_command'', ''fault_text'']"
  by (simp only: sample_data_def list.map fst_conv)

lemma sample_keys_kept:
  "list_all (\<lambda>k. k \<in> set [''updated_at'', ''lat'', ''lng'', ''position_observed'', ''altitude'', ''ground_speed'',
  ''heading'', ''battery_percent'', ''armed'', ''flight_mode'', ''lte_rssi'', ''fc_link'', ''gps_fix_type'', ''satellites_visible'', ''ekf_flags'',
  ''waypoint_ready'', ''control_mode'', ''mission_status'', ''target_lat'', ''target_lng'', ''target_speed'', ''steering'', ''throttle'',
  ''last_command'', ''fault_text'']) (''last_command'' # telemetry_keys)"
  by code_simp

lemma telemetry_has:
  assumes "k \<in> set (''last_command'' # telemetry_keys)"
  shows "has (telemetry_data now s r) k"
proof -
  have "k \<in> set (map fst (sample_data now s r))"
    using sample_keys_kept assms unfolding sample_keys list_all_iff by blast
  then have "k \<in> fst ` set (telemetry_data now s r)" by (simp only: telemetry_data_def set_append set_map image_Un Un_iff simp_thms)
  then show ?thesis by (simp only: has_def map_of_eq_None_iff not_not)
qed

lemma sample_last: "map_of (sample_data now s r) ''last_command'' = Some (JStr (take 64 (sm_last_command s)))"
  by (simp add: sample_data_def)

lemma no_aircraft_key:
  "''aircraft'' \<notin> fst ` set (sample_data now s r)" "''aircraft'' \<notin> fst ` set (rover_tx_data r)"
  "''aircraft'' \<notin> fst ` set (aircraft_tx_data r)" "''aircraft'' \<notin> fst ` set (aircraft_event_data r)"
  unfolding sample_data_def rover_tx_data_def aircraft_tx_data_def aircraft_event_data_def by (auto split: if_splits)

text \<open>\<open>last_command\<close> stands in the first part only\<close>

lemma later_keys:
  "''last_command'' \<notin> fst ` set (rover_tx_data r)" "''last_command'' \<notin> fst ` set (aircraft_tx_data r)"
  "''last_command'' \<notin> fst ` set (aircraft_event_data r)"
  unfolding rover_tx_data_def aircraft_tx_data_def aircraft_event_data_def by (auto split: if_splits)

lemma telemetry_last: "map_of (telemetry_data now s r) ''last_command'' = Some (JStr (take 64 (sm_last_command s)))"
  unfolding telemetry_data_def map_of_append
  using later_keys [of r] sample_last [of now s r] by (simp only: map_add_Some_iff map_of_eq_None_iff [symmetric]) (simp add: map_add_def)

lemma telemetry_values:
  "fld (telemetry_data now s r) ''last_command'' = JStr (take 64 (sm_last_command s))"
  "get_or (telemetry_data now s r) ''last_command'' v = JStr (take 64 (sm_last_command s))"
  "get (telemetry_data now s r) ''aircraft'' = JNull"
proof -
  have "map_of (telemetry_data now s r) ''aircraft'' = None"
    using no_aircraft_key by (simp only: map_of_eq_None_iff telemetry_data_def set_append image_Un Un_iff simp_thms)
  then show "get (telemetry_data now s r) ''aircraft'' = JNull" by (simp only: get_def get_or_def option.case)
qed (simp_all only: fld_def get_or_def telemetry_last option.case)

text \<open>A command of 64 control characters, of which every one is printed with six, makes the report of a telemetry without
  an aircraft larger than the 480 bytes of the data point: nothing the compaction removes is enough.\<close>

theorem control_characters_overflow_report:
  assumes "compact_json_bytes (telemetry_data now s r) 480 = Inr t"
    and "64 \<le> length (sm_last_command s)" and "\<forall>c\<in>set (sm_last_command s). (of_char c :: nat) < 8"
  shows "480 < length (utf8 t)"
proof -
  let ?d = "telemetry_data now s r" and ?c = "JStr (take 64 (sm_last_command s))"
  have "\<forall>c\<in>set (take 64 (sm_last_command s)). (of_char c :: nat) < 8" using assms(3) by (meson in_set_takeD)
  then have c: "dump_size ?c = 386" using assms(2) by (simp add: control_size)
  have big: "480 < dump_size (JObj e)" if "same_at (set core_keys) e ?d" for e
  proof -
    have "has e k" if "k \<in> set (''last_command'' # telemetry_keys)" for k
      using same_at_has [OF \<open>same_at (set core_keys) e ?d\<close> subsetD [OF telemetry_keys_facts(4) that]] telemetry_has [OF that, of now s r]
      by simp
    moreover have "fld e ''last_command'' = ?c"
      using same_at_has [OF that subsetD [OF telemetry_keys_facts(4) list.set_intros(1)]] telemetry_values(1) [of now s r] by simp
    ultimately have "183 + dump_size ?c \<le> dump_size (JObj e)" by (rule object_lower_bound)
    with c show ?thesis by simp
  qed
  have same: "same_at (set core_keys) ?d ?d" by (simp add: same_at_def)
  have "length (py_lower (take 64 (sm_last_command s))) = 64" using assms(2) by (simp add: py_lower_def)
  then have "auto_report 480 ?d = Inr None" by (auto simp: auto_report_def telemetry_values)
  moreover have "aircraft_report 480 ?d = Inr None" by (simp add: aircraft_report_def telemetry_values)
  moreover have "fallback_report 480 ?d = dump (JObj (pick core_keys ?d))"
  proof -
    let ?f = "fallback_dict ?d" and ?f1 = "shorten_msg 24 (fallback_dict ?d)"
    have f1: "same_at (set core_keys) ?f1 ?d"
      using same_at_trans [OF shorten_msg_same [OF core_keys_kept(3)] fallback_same] .
    have "first_fit 480 (JObj ?f # JObj ?f1 # map JObj (pop_each removable_keys ?f1)) = None"
      using big [OF fallback_same] big [OF f1] big [OF same_at_trans [OF pop_each_member [OF _ core_keys_kept(1)] f1]]
      by (intro first_fit_none) (auto simp del: pop_each.simps)
    then show ?thesis by (simp add: fallback_report_def Let_def core_report_picks del: first_fit.simps pop_each.simps)
  qed
  ultimately have "t = dump (JObj (pick core_keys ?d))"
    using assms(1) big [OF same] by (simp add: compact_json_bytes_def)
  moreover have "same_at (set core_keys) (pick core_keys ?d) ?d" by (simp add: same_at_def map_of_pick)
  ultimately show ?thesis using big by (auto simp: dump_size_def)
qed

subsection \<open>Witnesses\<close>

theorem report_fits_or_is_core_witness:
  "\<exists>d t. 40 < dump_size (JObj d) \<and> compact_json_bytes d 40 = Inr t \<and> (length (utf8 t) \<le> 40 \<or> t = dump (JObj (pick core_keys d)))"
proof -
  let ?d = "[(''last_command'', JStr ''hold''), (''noise'', JStr ''aaaaaaaaaaaaaaaaaaaa'')]"
  have s: "40 < dump_size (JObj ?d)" by code_simp
  have "py_lower ''hold'' \<noteq> ''auto''" by code_simp
  then have "auto_report 40 ?d = Inr None" by (simp add: auto_report_def get_or_def)
  moreover have "aircraft_report 40 ?d = Inr None" by (simp add: aircraft_report_def get_def)
  ultimately have "\<exists>t. compact_json_bytes ?d 40 = Inr t" using s by (simp add: compact_json_bytes_def)
  then obtain t where t: "compact_json_bytes ?d 40 = Inr t" by blast
  from report_fits_or_is_core [OF t] s t show ?thesis by blast
qed

definition sample_slave :: json where
  "sample_slave = JObj [(''updated_at'', JInt 7), (''mode'', JStr ''AUTO''), (''lat'', JFloat (Fin 3211974 (- 5)))]"

theorem slave_report_fits_witness:
  "\<exists>t. compact_slave_state sample_slave 480 = Inr t \<and> length (utf8 t) \<le> 480"
proof -
  have u: "rounded (dict_of sample_slave) ''updated_at'' 3 = Inr (JFloat (Fin 7 0))" "dump_size (JFloat (Fin 7 0)) \<le> 24" by code_simp+
  have "isl (slave_fields (dict_of sample_slave)) = False" "isl (event_fields (slave_event (dict_of sample_slave))) = False" by code_simp+
  then have "\<exists>t. compact_slave_state sample_slave 480 = Inr t"
    by (cases "slave_fields (dict_of sample_slave)"; cases "event_fields (slave_event (dict_of sample_slave))")
      (auto simp: compact_slave_state_def Let_def split: option.split simp del: first_fit.simps slave_cuts.simps)
  then obtain t where t: "compact_slave_state sample_slave 480 = Inr t" by blast
  with slave_report_fits [OF t u] show ?thesis by blast
qed

theorem control_characters_overflow_report_witness:
  "\<exists>t. compact_json_bytes (telemetry_data (Fin 0 0) (rover_sample_init\<lparr>sm_last_command := replicate 64 CHR 0x01\<rparr>) rover_report_init) 480 = Inr t
     \<and> 480 < length (utf8 t)"
proof -
  let ?s = "rover_sample_init\<lparr>sm_last_command := replicate 64 CHR 0x01\<rparr>"
  let ?d = "telemetry_data (Fin 0 0) ?s rover_report_init"
  have "length (py_lower (take 64 (sm_last_command ?s))) = 64" by (simp add: py_lower_def)
  then have "auto_report 480 ?d = Inr None" by (auto simp: auto_report_def telemetry_values)
  moreover have "aircraft_report 480 ?d = Inr None" by (simp add: aircraft_report_def telemetry_values)
  ultimately have "\<exists>t. compact_json_bytes ?d 480 = Inr t" by (simp add: compact_json_bytes_def)
  then obtain t where t: "compact_json_bytes ?d 480 = Inr t" by blast
  have "64 \<le> length (sm_last_command ?s)" "\<forall>c\<in>set (sm_last_command ?s). (of_char c :: nat) < 8" by simp_all
  from control_characters_overflow_report [OF t this] t show ?thesis by blast
qed

text \<open>The rounding of Python on a few floats\<close>

lemma round_examples:
  "round_py (Fin 2675 (- 3)) 2 = Fin 267 (- 2)" "round_py (Fin 5 (- 1)) 0 = Fin 0 0" "round_py (Fin 15 (- 1)) 0 = Fin 2 0"
  "round_py (Fin 3211974 (- 5)) 7 = Fin 3211974 (- 5)" "round_py (Fin (- 11895314159) (- 8)) 6 = Fin (- 118953142) (- 6)"
  by code_simp+

end
