(* ===== verification/AircraftGateway.thy ===== *)
theory AircraftGateway
  imports MavExt AircraftTransport
begin

text \<open>
  \<open>rdk_agent/aircraft_gateway.py\<close>: the telemetry the rover collects of its aircraft, from the datagrams of the legacy
  ports and from those the aircraft transport hands over, and the optical state the agent derives from it.

  A message keeps the values the code reads of it. The texts are left out but for what the heartbeat's says; a single is
  its four bytes.
\<close>

subsection \<open>Messages\<close>

datatype gateway_msg =
    GwHeartbeat string bool nat nat
  | GwSysStatus int pyfloat
  | GwPosition pyfloat pyfloat pyfloat real "pyfloat option"
  | GwHud "32 word" int
  | GwBattery int
  | GwText bytes
  | GwCurrent nat
  | GwRequest bool nat nat
  | GwAck nat nat
  | GwRaw nat

definition copter_mode :: "nat \<Rightarrow> string" where
  "copter_mode n = (case map_of [(0, ''STABILIZE''), (2, ''ALT_HOLD''), (3, ''AUTO''), (4, ''GUIDED''), (5, ''LOITER''), (6, ''RTL''),
     (9, ''LAND'')] n of Some t \<Rightarrow> t | None \<Rightarrow> show_nat n)"

text \<open>\<open>struct.unpack_from\<close> with little-endian formats\<close>

definition le_nat :: "nat \<Rightarrow> nat \<Rightarrow> bytes \<Rightarrow> nat" where
  "le_nat off n p = foldr (\<lambda>b acc. unat b + 256 * acc) (take n (drop off p)) 0"

definition le_int :: "nat \<Rightarrow> nat \<Rightarrow> bytes \<Rightarrow> int" where
  "le_int off n p = (let k = int (le_nat off n p) in if 2 * k < 256 ^ n then k else k - 256 ^ n)"

definition gateway_position :: "bytes \<Rightarrow> gateway_msg" where
  "gateway_position p =
     (let vx = of_int (le_int 20 2 p) / 100; vy = of_int (le_int 22 2 p) / 100; h = le_nat 26 2 p in
      GwPosition (norm_dec (le_int 4 4 p) (- 7)) (norm_dec (le_int 8 4 p) (- 7)) (norm_dec (le_int 16 4 p) (- 3))
        (sqrt (vx * vx + vy * vy)) (if h \<noteq> 65535 then Some (norm_dec (int h) (- 2)) else None))"

definition optional_byte :: "nat \<Rightarrow> bytes \<Rightarrow> nat" where
  "optional_byte i p = (if i < length p then unat (p ! i) else 0)"

definition parse_payload :: "nat \<Rightarrow> nat \<Rightarrow> nat \<Rightarrow> bytes \<Rightarrow> gateway_msg option" where
  "parse_payload msg sys cmp p =
     (if msg = 0 \<and> 9 \<le> length p then
        Some (GwHeartbeat (copter_mode (le_nat 0 4 p)) (p ! 6 AND 0x80 \<noteq> 0) sys cmp)
      else if msg = 1 \<and> 31 \<le> length p then
        Some (GwSysStatus (le_int 30 1 p) (norm_dec (int (le_nat 14 2 p)) (- 3)))
      else if msg = 33 \<and> 28 \<le> length p then Some (gateway_position p)
      else if msg = 74 \<and> 20 \<le> length p then Some (GwHud (word_of_nat (le_nat 4 4 p)) (le_int 16 2 p))
      else if msg = 147 \<and> 31 \<le> length p then Some (GwBattery (le_int 30 1 p))
      else if msg = 253 \<and> 2 \<le> length p then Some (GwText (takeWhile (\<lambda>b. b \<noteq> 0) (take 50 (drop 1 p))))
      else if msg = 42 \<and> 2 \<le> length p then Some (GwCurrent (le_nat 0 2 p))
      else if msg \<in> {40, 51} \<and> 4 \<le> length p then Some (GwRequest (msg = 51) (le_nat 0 2 p) (optional_byte 4 p))
      else if msg = 47 \<and> 3 \<le> length p then Some (GwAck (unat (p ! 2)) (optional_byte 3 p))
      else None)"

text \<open>The scan over the buffer is that of the relay's splitter; the checksum is not read\<close>

definition parse_frame :: "bytes \<Rightarrow> gateway_msg option" where
  "parse_frame f =
     (if f ! 0 = 0xFD then
        parse_payload (unat (f ! 7) + 256 * unat (f ! 8) + 65536 * unat (f ! 9)) (unat (f ! 5)) (unat (f ! 6))
          (take (unat (f ! 1)) (drop 10 f))
      else parse_payload (unat (f ! 5)) (unat (f ! 3)) (unat (f ! 4)) (take (unat (f ! 1)) (drop 6 f)))"

definition gateway_feed :: "bytes \<Rightarrow> bytes \<Rightarrow> bytes \<times> gateway_msg list" where
  "gateway_feed buf chunk =
     (case stream_loop relay_turn (buf @ chunk) of
        (b, fs) \<Rightarrow> (if 4096 < length b then last_n 512 b else b, List.map_filter parse_frame fs))"

subsection \<open>State\<close>

record aircraft_gateway =
  gw_messages :: "(real \<times> gateway_msg) list"
  gw_heartbeat :: "(real \<times> gateway_msg) option"
  gw_parsers :: "(int \<times> bytes) list"
  gw_bytes :: nat
  gw_packets :: nat
  gw_remote :: string
  gw_seen :: real

definition aircraft_gateway_init :: aircraft_gateway where
  "aircraft_gateway_init = \<lparr>gw_messages = [], gw_heartbeat = None, gw_parsers = [], gw_bytes = 0, gw_packets = 0,
     gw_remote = [], gw_seen = 0\<rparr>"

definition heartbeat_msg :: "gateway_msg \<Rightarrow> bool" where
  "heartbeat_msg m \<longleftrightarrow> (case m of GwHeartbeat _ _ _ _ \<Rightarrow> True | _ \<Rightarrow> False)"

definition max_gateway_messages :: nat where
  "max_gateway_messages = 80"

text \<open>\<open>deque(maxlen=80).append\<close>, and the latest heartbeat\<close>

definition gateway_store :: "real \<Rightarrow> gateway_msg \<Rightarrow> aircraft_gateway \<Rightarrow> aircraft_gateway" where
  "gateway_store now m g =
     (let g1 = g\<lparr>gw_messages := last_n max_gateway_messages (gw_messages g @ [(now, m)])\<rparr>
      in if heartbeat_msg m then g1\<lparr>gw_heartbeat := Some (now, m)\<rparr> else g1)"

text \<open>\<open>written\<close> says whether the state file could be replaced; when not, the exception leaves the new state behind\<close>

definition record_packet :: "int \<Rightarrow> bytes \<Rightarrow> string \<times> int \<Rightarrow> bool \<Rightarrow> real \<Rightarrow> bool \<Rightarrow> aircraft_gateway \<Rightarrow>
    bool option \<times> aircraft_gateway" where
  "record_packet port data remote touch now written g =
     (case gateway_feed (case map_of (gw_parsers g) port of Some b \<Rightarrow> b | None \<Rightarrow> []) data of
        (b, ms) \<Rightarrow>
          let g1 = g\<lparr>gw_parsers := AList.update port b (gw_parsers g), gw_bytes := gw_bytes g + length data,
                gw_packets := gw_packets g + 1,
                gw_remote := fst remote @ '':'' @ show_int (snd remote) @ '' -> UDP '' @ show_int port\<rparr>;
              g2 = (if ms \<noteq> [] \<or> touch then g1\<lparr>gw_seen := now\<rparr> else g1);
              g3 = (if ms = [] \<and> touch then gateway_store now (GwRaw (length data)) g2 else g2);
              g4 = fold (gateway_store now) ms g3
          in (if written then Some (ms \<noteq> []) else None, g4))"

text \<open>\<open>link_active\<close> of \<open>snapshot\<close>; the time 0 stands for no packet yet\<close>

definition gateway_active :: "real \<Rightarrow> aircraft_gateway \<Rightarrow> bool" where
  "gateway_active now g \<longleftrightarrow> gw_seen g \<noteq> 0 \<and> now - gw_seen g < 3"

definition gateway_recent :: "aircraft_gateway \<Rightarrow> (real \<times> gateway_msg) list" where
  "gateway_recent g = last_n 24 (gw_messages g)"

text \<open>
  One datagram of a legacy port, from whoever sent it: the thread ends when the state file cannot be written.
\<close>

definition udp_worker_step :: "int \<Rightarrow> bytes \<Rightarrow> string \<times> int \<Rightarrow> real \<Rightarrow> bool \<Rightarrow> aircraft_gateway \<Rightarrow> bool \<times> aircraft_gateway" where
  "udp_worker_step port data remote now written g =
     (case record_packet port data remote True now written g of (r, g') \<Rightarrow> (r \<noteq> None, g'))"

text \<open>\<open>legacy_gateway_ports\<close>; None is its ValueError\<close>

definition legacy_ports :: "int list \<Rightarrow> int \<Rightarrow> int list option" where
  "legacy_ports ports transport = (if transport \<in> set ports then None else Some ports)"

text \<open>\<open>aircraft_optical_state\<close> of the agent, at the transport's clock and the wall clock\<close>

definition aircraft_optical_state :: "at_config \<Rightarrow> real \<Rightarrow> real \<Rightarrow> aircraft_transport \<Rightarrow> aircraft_gateway \<Rightarrow>
    string \<times> aircraft_transport" where
  "aircraft_optical_state c tick wall s g =
     (case at_optical_state c tick s of (t, s') \<Rightarrow>
        (if t = ''locked'' then ''locked'' else if gateway_active wall g then ''locked'' else ''blocked'', s'))"

end
