(* ===== verification/RoverAgent.thy ===== *)
theory RoverAgent
  imports AircraftGateway RoverWorker RoverReport RoverControl
begin

text \<open>
  \<open>run_agent\<close> of \<open>rdk_agent/tuya_rover_agent.py\<close>: one turn of the rover's main loop, which routes the commands that
  arrived, drives the aircraft's and the slave's transports, reports finished missions, watches over manual driving
  and reads the flight controller; with \<open>queue_mission\<close> and \<open>update_telemetry\<close> of \<open>rdk_agent/mavlink_rover.py\<close>,
  \<open>MissionItem.from_payload\<close> of \<open>rdk_agent/rover_mission.py\<close> and \<open>rdk_agent/network_mode.py\<close>.

  The components are those of their own theories. Files, MQTT and the modem are left out: what arrived is in the list of
  pending commands. The clock, the threads that hold the lock of the flight controller and what the sockets give are
  inputs of each step.
\<close>

subsection \<open>Exceptions\<close>

text \<open>
  \<open>Refused\<close> stands for the types the loop catches around \<open>route\<close> (CommandRejected, MissionError, TypeError,
  ValueError), with the text; any other exception \<open>Escapes\<close> to the handler around the turn.
\<close>

datatype agent_exc = Refused string | Escapes

text \<open>\<open>Outside\<close>: the inputs are used up, or a job with a timestamp that is not finite reached the worker's model\<close>

datatype 'a ares = Gives 'a | Raised agent_exc | Outside

subsection \<open>Mission items\<close>

text \<open>\<open>float(v)\<close> and \<open>int(v)\<close> with the exceptions apart: OverflowError escapes\<close>

definition payload_float :: "json \<Rightarrow> agent_exc + pyfloat" where
  "payload_float v = (case json_float v of
     Some (JFloat x) \<Rightarrow> Inr x | _ \<Rightarrow> Inl (if float_overflow v then Escapes else Refused ''not a number''))"

definition infinite_float :: "json \<Rightarrow> bool" where
  "infinite_float v \<longleftrightarrow> v = JFloat PInf \<or> v = JFloat NInf"

definition payload_int :: "json \<Rightarrow> agent_exc + int" where
  "payload_int v = (case json_int v of
     Some (JInt i) \<Rightarrow> Inr i | _ \<Rightarrow> Inl (if infinite_float v then Escapes else Refused ''not a number''))"

record payload_item =
  pi_seq :: int
  pi_frame :: int
  pi_command :: int
  pi_x :: int
  pi_y :: int
  pi_z :: pyfloat
  pi_params :: "pyfloat list"
  pi_autocontinue :: int

text \<open>Degrees up to 180 are scaled and rounded to even, anything else is taken as an integer of 1e-7 degrees\<close>

definition payload_coordinate :: "json \<Rightarrow> agent_exc + int" where
  "payload_coordinate v = (case payload_float v of
     Inl e \<Rightarrow> Inl e
   | Inr (Fin m e) \<Rightarrow> if \<bar>dec_val m e\<bar> \<le> 180 then Inr (round_double (double_times m e 10000000)) else payload_int v
   | Inr _ \<Rightarrow> payload_int v)"

fun payload_floats :: "string list \<Rightarrow> pydict \<Rightarrow> agent_exc + pyfloat list" where
  "payload_floats [] d = Inr []"
| "payload_floats (k # ks) d = (case payload_float (get_or d k (JFloat (Fin 0 0))) of
     Inl e \<Rightarrow> Inl e | Inr x \<Rightarrow> map_sum id (Cons x) (payload_floats ks d))"

definition bind_sum :: "'e + 'a \<Rightarrow> ('a \<Rightarrow> 'e + 'b) \<Rightarrow> 'e + 'b" where
  "bind_sum r f = (case r of Inl e \<Rightarrow> Inl e | Inr a \<Rightarrow> f a)"

text \<open>What is not an object has no \<open>get\<close>: AttributeError\<close>

definition item_from_payload :: "json \<Rightarrow> int \<Rightarrow> agent_exc + payload_item" where
  "item_from_payload v i = (case v of
     JObj d \<Rightarrow>
       let lat = get_first d [''lat'', ''x''] JNull; lon = get_first d [''lng'', ''lon'', ''y''] JNull in
       if lat = JNull \<or> lon = JNull then Inl (Refused ''mission item requires lat/lng'')
       else bind_sum (payload_coordinate lat) (\<lambda>x. bind_sum (payload_coordinate lon) (\<lambda>y.
         bind_sum (payload_int (get_or d ''frame'' (JInt 6))) (\<lambda>fr. bind_sum (payload_int (get_or d ''command'' (JInt 16))) (\<lambda>cm.
         bind_sum (payload_float (get_first d [''alt'', ''z''] (JFloat (Fin 0 0)))) (\<lambda>z.
         bind_sum (payload_floats [''param1'', ''param2'', ''param3'', ''param4''] d) (\<lambda>ps.
         map_sum id (\<lambda>a. \<lparr>pi_seq = i, pi_frame = fr, pi_command = cm, pi_x = x, pi_y = y, pi_z = z, pi_params = ps,
           pi_autocontinue = a\<rparr>) (payload_int (get_or d ''autocontinue'' (JInt 1)))))))))
   | _ \<Rightarrow> Inl Escapes)"

fun items_from_payload :: "int \<Rightarrow> json list \<Rightarrow> agent_exc + payload_item list" where
  "items_from_payload i [] = Inr []"
| "items_from_payload i (v # vs) =
     bind_sum (item_from_payload v i) (\<lambda>x. map_sum id (Cons x) (items_from_payload (i + 1) vs))"

definition max_executable_items :: nat where
  "max_executable_items = 100"

subsection \<open>The agent\<close>

text \<open>The job of a mission: its items, a copy of the navigation state, and whether the home position is valid\<close>

type_synonym mission_data = "payload_item list \<times> rover_nav \<times> bool"

text \<open>\<open>gc_port\<close> is the port of the aircraft's transport\<close>

record agent_config =
  gc_port :: int
  gc_transport :: at_config
  gc_slave :: transport_config
  gc_rover :: rm_config
  gc_worker :: worker_config
  gc_router :: router

text \<open>\<open>ag_request\<close> is the content of the file that asks for a network mode\<close>

record rover_agent =
  ag_tele :: rover_sample
  ag_nav :: rover_nav
  ag_report :: rover_report
  ag_until :: real
  ag_pending :: "cloud_command list"
  ag_control :: rover_control
  ag_jobs :: "mission_data rover_worker"
  ag_air :: aircraft_transport
  ag_gateway :: aircraft_gateway
  ag_slave :: slave_transport
  ag_request :: "string option"

text \<open>
  What the handling of one command meets: the wall clock of the router, the transport's clock, the milliseconds of a
  set-point, whether the flight controller is free, what \<open>apply\<close> meets, the slave's wall clock, whether a failed
  conversion was an OverflowError (the models of the executors do not say), whether the request file could be written, and
  the wall clock behind the command.
\<close>

record exec_in =
  xi_wall :: real
  xi_tick :: real
  xi_ms :: int
  xi_free :: bool
  xi_apply :: apply_input
  xi_slave_wall :: json
  xi_overflow :: bool
  xi_written :: bool
  xi_after :: real

record exec_result =
  xr_ok :: bool
  xr_stage :: string
  xr_message :: string
  xr_command :: "rover_command option"

definition accepted_result :: "string \<Rightarrow> string \<Rightarrow> exec_result" where
  "accepted_result stage message = \<lparr>xr_ok = True, xr_stage = stage, xr_message = message, xr_command = None\<rparr>"

type_synonym 'a agent_step = "rover_agent \<Rightarrow> 'a ares \<times> rover_agent"

definition bind_ag :: "'a agent_step \<Rightarrow> ('a \<Rightarrow> 'b agent_step) \<Rightarrow> 'b agent_step" where
  "bind_ag m f s = (case m s of
     (Gives a, s') \<Rightarrow> f a s' | (Raised e, s') \<Rightarrow> (Raised e, s') | (Outside, s') \<Rightarrow> (Outside, s'))"

subsection \<open>The executors\<close>

definition by_flag :: "bool \<Rightarrow> string \<Rightarrow> agent_exc" where
  "by_flag overflow t = (if overflow then Escapes else Refused t)"

definition router_text :: "router_exc \<Rightarrow> string" where
  "router_text e = (case e of RouterType t \<Rightarrow> t | RouterValue t \<Rightarrow> t | RouterRejected t \<Rightarrow> t)"

definition py_exc :: "bool \<Rightarrow> pyexc \<Rightarrow> agent_exc" where
  "py_exc overflow e = (case e of TypeError t \<Rightarrow> by_flag overflow t | ValueError t \<Rightarrow> Refused t | OverflowError t \<Rightarrow> Escapes)"

text \<open>RuntimeError, AttributeError, KeyError, OSError and \<open>struct.error\<close> escape\<close>

definition aircraft_exc :: "bool \<Rightarrow> at_exc \<Rightarrow> agent_exc" where
  "aircraft_exc overflow e = (case e of
     AtMav MavValue \<Rightarrow> Refused ''invalid value'' | AtMav MavType \<Rightarrow> Refused ''invalid type''
   | AtLink (AlPy x) \<Rightarrow> py_exc overflow x
   | AtLink (AlFrame (FrameErr t)) \<Rightarrow> Refused t | AtLink (AlFrame (PyErr x)) \<Rightarrow> py_exc overflow x
   | _ \<Rightarrow> Escapes)"

definition slave_executor_exc :: "bool \<Rightarrow> transport_exc \<Rightarrow> agent_exc" where
  "slave_executor_exc overflow e = (case e of
     SlaveUnavailable t \<Rightarrow> Refused t | TransportValueError t \<Rightarrow> Refused t | BadNumber t \<Rightarrow> by_flag overflow t
   | TransportNode (NodeError t) \<Rightarrow> Refused t | TransportNode (NodeEscape x) \<Rightarrow> py_exc overflow x)"

text \<open>\<open>message\<close> of the result, or its stage: that of a link command has none\<close>

definition exec_aircraft :: "agent_config \<Rightarrow> exec_in \<Rightarrow> cloud_command \<Rightarrow> exec_result agent_step" where
  "exec_aircraft c i cmd s =
     (case at_execute (gc_transport c) (xi_tick i) (xi_ms i) cmd (ag_air s) of
        (Inl e, a) \<Rightarrow> (Raised (aircraft_exc (xi_overflow i) e), s\<lparr>ag_air := a\<rparr>)
      | (Inr stage, a) \<Rightarrow>
          (Gives (accepted_result stage (if stage = ''sent_mavlink2''
             then ''aircraft_'' @ py_lower (py_strip (cc_action cmd)) @ '' sent'' else stage)), s\<lparr>ag_air := a\<rparr>))"

definition exec_slave :: "agent_config \<Rightarrow> exec_in \<Rightarrow> cloud_command \<Rightarrow> exec_result agent_step" where
  "exec_slave c i cmd s =
     (case transport_execute (gc_slave c) (xi_tick i) (xi_slave_wall i) cmd (ag_slave s) of
        (Inl e, t) \<Rightarrow> (Raised (slave_executor_exc (xi_overflow i) e), s\<lparr>ag_slave := t\<rparr>)
      | (Inr (stage, message), t) \<Rightarrow> (Gives (accepted_result stage message), s\<lparr>ag_slave := t\<rparr>))"

text \<open>\<open>NetworkModeExecutor.execute\<close>: the request is written whole or, when that raises, not at all\<close>

definition allowed_modes :: "string list" where
  "allowed_modes = [''phone'', ''aircraft'']"

definition exec_system :: "exec_in \<Rightarrow> cloud_command \<Rightarrow> exec_result agent_step" where
  "exec_system i cmd s =
     (let mode = py_lower (py_strip (py_str (get_or (cc_payload cmd) ''mode'' (JStr [])))) in
      if cc_target cmd \<noteq> ''system'' \<or> cc_action cmd \<noteq> ''network_mode'' then (Raised (Refused ''unsupported system action''), s)
      else if mode \<notin> set allowed_modes then (Raised (Refused ''unsupported network mode''), s)
      else if \<not> xi_written i then (Raised Escapes, s)
      else (Gives (accepted_result ''scheduled'' (''network switch to '' @ mode @ '' scheduled'')),
        s\<lparr>ag_request := Some (mode @ [CHR 0x0A])\<rparr>))"

text \<open>\<open>queue_mission\<close>\<close>

definition queue_mission :: "agent_config \<Rightarrow> string \<Rightarrow> json list \<Rightarrow> pyfloat \<Rightarrow> job_status agent_step" where
  "queue_mission c cid raw ts s =
     (if max_executable_items < length raw then (Raised (Refused ''mission exceeds maximum 100 executable items''), s)
      else (case items_from_payload 1 raw of
          Inl e \<Rightarrow> (Raised e, s)
        | Inr items \<Rightarrow> (case ts of
            Fin m e \<Rightarrow>
              (case rw_submit (gc_worker c) \<lparr>rj_id = cid, rj_source = dec_val m e,
                  rj_data = (items, ag_nav s, ct_home_valid (ag_control s))\<rparr> (ag_jobs s) of
                 (Inl QueueFullError, w) \<Rightarrow> (Raised (Refused ''mission worker queue is full''), s\<lparr>ag_jobs := w\<rparr>)
               | (Inl _, w) \<Rightarrow> (Raised Escapes, s\<lparr>ag_jobs := w\<rparr>)
               | (Inr st, w) \<Rightarrow> (Gives st, s\<lparr>ag_jobs := w\<rparr>))
          | _ \<Rightarrow> (Outside, s))))"

definition on_report :: "(rover_report \<Rightarrow> rover_report) \<Rightarrow> rover_agent \<Rightarrow> rover_agent" where
  "on_report f s = s\<lparr>ag_report := f (ag_report s)\<rparr>"

definition on_tele :: "(rover_sample \<Rightarrow> rover_sample) \<Rightarrow> rover_agent \<Rightarrow> rover_agent" where
  "on_tele f s = s\<lparr>ag_tele := f (ag_tele s)\<rparr>"

definition exec_mission :: "agent_config \<Rightarrow> cloud_command \<Rightarrow> exec_result agent_step" where
  "exec_mission c cmd = (case fld (cc_payload cmd) ''items'' of
     JArr raw \<Rightarrow> bind_ag (queue_mission c (uuid_str (cc_command_id cmd)) raw (cc_timestamp cmd))
       (\<lambda>st s. (Gives (accepted_result (js_stage st) ''mission queued''),
         on_report (\<lambda>r. r\<lparr>rp_mission_status := ''mission queued''\<rparr>) s))
   | _ \<Rightarrow> (\<lambda>s. (Raised (Refused ''rover mission requires items''), s)))"

text \<open>What \<open>apply\<close> notes of the command before anything else\<close>

definition note_command :: "rover_command \<Rightarrow> rover_sample \<Rightarrow> rover_sample" where
  "note_command k t = t\<lparr>sm_last_command := ru_command k, sm_control_mode := ru_control_mode k, sm_target_lat := ru_lat k,
     sm_target_lng := ru_lng k, sm_target_speed := ru_speed k, sm_steering := ru_steering k, sm_throttle := ru_throttle k\<rparr>"

text \<open>The modes it notes of a command that was carried out\<close>

definition note_mode :: "rover_command \<Rightarrow> rover_sample \<Rightarrow> rover_sample" where
  "note_mode k t =
     (if ru_command k \<in> {''guided'', ''hold''} then t\<lparr>sm_mode := ru_command k\<rparr>
      else if ru_command k = ''auto'' then t\<lparr>sm_mode := ''auto'', sm_control_mode := ''auto''\<rparr> else t)"

text \<open>\<open>auto\<close> also brings the connection and the home position into the navigation state, once \<open>refresh_home\<close> returned\<close>

definition synced_nav :: "apply_input \<Rightarrow> rover_control \<Rightarrow> rover_nav \<Rightarrow> rover_nav" where
  "synced_nav i s n =
     (case ct_connect (ai_connect i) s of
        (False, s1) \<Rightarrow> n
      | (True, s1) \<Rightarrow>
          if \<not> manager_verified s1 then n
          else (case refresh_home (ai_home_clock i) 1 (ai_home_in i) (ct_home_valid s1) s1 of
              (Returns home, s2) \<Rightarrow> sync_navigation (s2\<lparr>ct_home_valid := home\<rparr>) n
            | _ \<Rightarrow> n))"

definition exec_drive :: "agent_config \<Rightarrow> exec_in \<Rightarrow> rover_command \<Rightarrow> exec_result agent_step" where
  "exec_drive c i k s =
     (let s1 = (if xi_free i then on_tele (note_command k) s else s); inp = (xi_apply i)\<lparr>ai_nav := ag_nav s\<rparr> in
      case apply_command (gc_rover c) (xi_free i) inp k (ag_control s1) of
        (Returns (ok, message), r) \<Rightarrow>
          (Gives \<lparr>xr_ok = ok, xr_stage = (if ok then ''executed'' else ''failed''), xr_message = message, xr_command = Some k\<rparr>,
           (if ok then on_tele (note_mode k) s1 else s1)\<lparr>ag_control := r, ag_nav :=
             (if xi_free i \<and> ru_command k = ''auto'' then synced_nav inp (ag_control s) (ag_nav s) else ag_nav s)\<rparr>)
      | (Raises e, r) \<Rightarrow> (Raised Escapes, s1\<lparr>ag_control := r\<rparr>)
      | (Waits, r) \<Rightarrow> (Outside, s1\<lparr>ag_control := r\<rparr>))"

text \<open>The payload's own \<open>command\<close> key wins over the action\<close>

definition exec_rover :: "agent_config \<Rightarrow> exec_in \<Rightarrow> cloud_command \<Rightarrow> exec_result agent_step" where
  "exec_rover c i cmd =
     (if cc_action cmd = ''mission'' then exec_mission c cmd
      else (case command_of_dict ''command_router'' (dict_update [(''command'', JStr (cc_action cmd))] (cc_payload cmd)) of
          Inl e \<Rightarrow> (\<lambda>s. (Raised (by_flag (xi_overflow i) (router_text e)), s))
        | Inr k \<Rightarrow> exec_drive c i k))"

subsection \<open>One command\<close>

text \<open>The optical state is asked for only when the command is for the aircraft and neither too old nor too new\<close>

definition asks_optical :: "agent_config \<Rightarrow> exec_in \<Rightarrow> cloud_command \<Rightarrow> bool" where
  "asks_optical c i cmd \<longleftrightarrow> \<not> too_old (ro_max_age (gc_router c)) (xi_wall i) (cc_timestamp cmd)
     \<and> \<not> too_new (ro_max_age (gc_router c)) (xi_wall i) (cc_timestamp cmd) \<and> cc_target cmd \<in> {''aircraft'', ''aircraft_1''}"

definition route_and_execute :: "agent_config \<Rightarrow> exec_in \<Rightarrow> cloud_command \<Rightarrow> exec_result agent_step" where
  "route_and_execute c i cmd s =
     (case (if asks_optical c i cmd then aircraft_optical_state (gc_transport c) (xi_tick i) (xi_wall i) (ag_air s) (ag_gateway s)
            else ([], ag_air s)) of
        (optical, a) \<Rightarrow>
          let s1 = s\<lparr>ag_air := a\<rparr> in
          (case route (gc_router c) (xi_wall i) optical cmd of
             Inl e \<Rightarrow> (Raised (Refused (router_text e)), s1)
           | Inr (ToAircraft k) \<Rightarrow> exec_aircraft c i k s1
           | Inr (ToSlave k) \<Rightarrow> exec_slave c i k s1
           | Inr (ToSystem k) \<Rightarrow> exec_system i k s1
           | Inr (ToRover k) \<Rightarrow> exec_rover c i k s1))"

definition last_command_of :: "cloud_command \<Rightarrow> rover_sample \<Rightarrow> rover_sample" where
  "last_command_of cmd t =
     (if cc_target cmd \<in> {''aircraft'', ''aircraft_1''} then t\<lparr>sm_last_command := ''aircraft_'' @ cc_action cmd\<rparr>
      else if cc_target cmd \<noteq> ''aircraft_2'' then t\<lparr>sm_last_command := cc_action cmd\<rparr> else t)"

definition manual_names :: "string list" where
  "manual_names = [''manual'', ''drive'']"

text \<open>How long manual driving may go on without a new command\<close>

definition manual_deadline :: "exec_in \<Rightarrow> exec_result \<Rightarrow> real \<Rightarrow> real" where
  "manual_deadline i r u = (case xr_command r of
     Some k \<Rightarrow>
       if xr_ok r \<and> ru_command k \<in> {''stop'', ''hold'', ''brake'', ''arm''} then 0
       else if xr_ok r \<and> ru_command k \<in> set manual_names \<and> (ru_steering k \<noteq> 0 \<or> ru_throttle k \<noteq> 0) then xi_after i + 9 / 5
       else u
   | None \<Rightarrow> u)"

definition finish_command :: "exec_in \<Rightarrow> cloud_command \<Rightarrow> exec_result \<Rightarrow> rover_agent \<Rightarrow> rover_agent" where
  "finish_command i cmd r s =
     (let s1 = on_report (record_command_receipt (cc_target cmd) (uuid_str (cc_command_id cmd)) (xr_ok r) (xr_stage r) (xr_message r))
                 (on_tele (last_command_of cmd) s)
      in s1\<lparr>ag_until := manual_deadline i r (ag_until s1)\<rparr>)"

definition rejected_result :: "string \<Rightarrow> exec_result" where
  "rejected_result t = \<lparr>xr_ok = False, xr_stage = ''rejected'', xr_message = t, xr_command = None\<rparr>"

definition handle_command :: "agent_config \<Rightarrow> exec_in \<Rightarrow> cloud_command \<Rightarrow> unit agent_step" where
  "handle_command c i cmd s = (case route_and_execute c i cmd s of
     (Gives r, s1) \<Rightarrow> (Gives (), finish_command i cmd r s1)
   | (Raised (Refused t), s1) \<Rightarrow> (Gives (), finish_command i cmd (rejected_result t) s1)
   | (Raised Escapes, s1) \<Rightarrow> (Raised Escapes, s1)
   | (Outside, s1) \<Rightarrow> (Outside, s1))"

text \<open>\<open>while pending\<close>: each command is taken off the list before it is handled\<close>

fun serve_pending :: "agent_config \<Rightarrow> exec_in list \<Rightarrow> unit agent_step" where
  "serve_pending c ins s = (case ag_pending s of
     [] \<Rightarrow> (Gives (), s)
   | cmd # rest \<Rightarrow> (case ins of
       [] \<Rightarrow> (Outside, s)
     | i # ins' \<Rightarrow> bind_ag (handle_command c i cmd) (\<lambda>_. serve_pending c ins') (s\<lparr>ag_pending := rest\<rparr>)))"

declare serve_pending.simps [simp del]

subsection \<open>Telemetry of the flight controller\<close>

text \<open>
  The messages \<open>update_telemetry\<close> reads, with the values it takes from them; \<open>TmManager\<close> is a message the mission
  manager observes. A heartbeat comes with the mode as \<open>pymavlink\<close> names it.
\<close>

datatype tele_msg =
    TmHeartbeat bool string
  | TmPosition int int int int
  | TmHud pyfloat int
  | TmBattery int
  | TmGps int int
  | TmEkf int
  | TmHome int int
  | TmManager fc_msg
  | TmOther

definition degrees :: "int \<Rightarrow> real" where
  "degrees x = of_int x / 10000000"

definition publish_rover_status :: "rover_agent \<Rightarrow> rover_agent" where
  "publish_rover_status s = (case Option.bind (ct_manager (ag_control s)) rm_publish_status of
     Some t \<Rightarrow> on_report (\<lambda>r. r\<lparr>rp_mission_status := t\<rparr>) s | None \<Rightarrow> s)"

definition ag_observe :: "fc_msg \<Rightarrow> unit agent_step" where
  "ag_observe m s =
     (if ct_manager (ag_control s) = None then (Gives (), s)
      else (case ct_observe m (ag_control s) of
          (Returns u, r) \<Rightarrow> (Gives (), publish_rover_status (s\<lparr>ag_control := r\<rparr>))
        | (Raises e, r) \<Rightarrow> (Raised Escapes, s\<lparr>ag_control := r\<rparr>)
        | (Waits, r) \<Rightarrow> (Outside, s\<lparr>ag_control := r\<rparr>)))"

text \<open>\<open>t\<close> is the monotonic clock\<close>

definition tele_step :: "real \<Rightarrow> tele_msg \<Rightarrow> unit agent_step" where
  "tele_step t m s =
     (let g = int (ct_generation (ag_control s)) in
      case m of
        TmHeartbeat armed mode \<Rightarrow>
          (Gives (), on_tele (\<lambda>x. x\<lparr>sm_armed := armed, sm_mode := py_lower mode\<rparr>)
            (s\<lparr>ag_control := record_observed_mode mode (ag_control s)\<rparr>))
      | TmPosition lat lon alt hdg \<Rightarrow>
          (Gives (), on_tele (\<lambda>x. x\<lparr>sm_lat := norm_dec lat (- 7), sm_lng := norm_dec lon (- 7), sm_observed := True,
              sm_altitude := norm_dec alt (- 3), sm_heading := hdg div 100\<rparr>)
            (s\<lparr>ag_nav := (ag_nav s)\<lparr>nv_lat := degrees lat, nv_lng := degrees lon, nv_position := (g, t)\<rparr>\<rparr>))
      | TmHud speed hdg \<Rightarrow> (Gives (), on_tele (\<lambda>x. x\<lparr>sm_speed := speed, sm_heading := hdg\<rparr>) s)
      | TmBattery b \<Rightarrow> (Gives (), s)
      | TmGps fx sats \<Rightarrow>
          (Gives (), on_tele (\<lambda>x. x\<lparr>sm_fix := fx, sm_satellites := sats\<rparr>)
            (s\<lparr>ag_nav := (ag_nav s)\<lparr>nv_fix := fx, nv_satellites := sats, nv_gps := (g, t)\<rparr>\<rparr>))
      | TmEkf flags \<Rightarrow>
          (Gives (), on_tele (\<lambda>x. x\<lparr>sm_ekf := flags\<rparr>) (s\<lparr>ag_nav := (ag_nav s)\<lparr>nv_ekf := flags, nv_ekf_stamp := (g, t)\<rparr>\<rparr>))
      | TmHome lat lon \<Rightarrow>
          (Gives (), s\<lparr>ag_control := (ag_control s)\<lparr>ct_home_valid := (lat \<noteq> 0 \<and> lon \<noteq> 0), ct_home_updated := t\<rparr>,
            ag_nav := (ag_nav s)\<lparr>nv_home := (g, t)\<rparr>\<rparr>)
      | TmManager x \<Rightarrow> ag_observe x s
      | TmOther \<Rightarrow> (Gives (), s))"

text \<open>One turn of the reading loop: the wall clock it tests, then a message with the monotonic clock, none, or an exception\<close>

datatype tele_in = TeleMsg real real tele_msg | TeleNone real | TeleRaises real

fun tele_clock :: "tele_in \<Rightarrow> real" where
  "tele_clock (TeleMsg w t m) = w"
| "tele_clock (TeleNone w) = w"
| "tele_clock (TeleRaises w) = w"

text \<open>The text of the exception is left out\<close>

fun tele_loop :: "real \<Rightarrow> tele_in list \<Rightarrow> unit agent_step" where
  "tele_loop dl [] s = (Outside, s)"
| "tele_loop dl (x # xs) s =
     (if \<not> tele_clock x < dl then (Gives (), s)
      else (case x of
          TeleNone w \<Rightarrow> tele_loop dl xs s
        | TeleRaises w \<Rightarrow> (Gives (), on_report (\<lambda>r. r\<lparr>rp_fault := ''mavlink receive error''\<rparr>)
            (on_tele (\<lambda>y. y\<lparr>sm_fc_link := False\<rparr>) (s\<lparr>ag_control := ct_close (ag_control s)\<rparr>)))
        | TeleMsg w t m \<Rightarrow> bind_ag (tele_step t m) (\<lambda>_. tele_loop dl xs) s))"

definition update_telemetry :: "bool \<Rightarrow> ct_found \<Rightarrow> real \<Rightarrow> tele_in list \<Rightarrow> unit agent_step" where
  "update_telemetry free k w ins s =
     (if \<not> free then (Gives (), on_report (\<lambda>r. r\<lparr>rp_mission_status := ''mission transaction active''\<rparr>) s)
      else (case ct_connect k (ag_control s) of
          (False, r) \<Rightarrow> (Gives (), on_tele (\<lambda>x. x\<lparr>sm_fc_link := False\<rparr>) (s\<lparr>ag_control := r\<rparr>))
        | (True, r) \<Rightarrow> tele_loop (w + 3 / 25) ins
            (on_tele (\<lambda>x. x\<lparr>sm_fc_link := True\<rparr>)
              (s\<lparr>ag_control := r, ag_nav := (ag_nav s)\<lparr>nv_generation := int (ct_generation r)\<rparr>\<rparr>))))"

subsection \<open>The rest of a turn\<close>

definition ag_lift :: "'a ct \<Rightarrow> 'a agent_step" where
  "ag_lift m s = (case m (ag_control s) of
     (Returns a, r) \<Rightarrow> (Gives a, s\<lparr>ag_control := r\<rparr>)
   | (Raises e, r) \<Rightarrow> (Raised Escapes, s\<lparr>ag_control := r\<rparr>)
   | (Waits, r) \<Rightarrow> (Outside, s\<lparr>ag_control := r\<rparr>))"

definition ag_connect :: "ct_found \<Rightarrow> bool agent_step" where
  "ag_connect k s = (case ct_connect k (ag_control s) of (b, r) \<Rightarrow> (Gives b, s\<lparr>ag_control := r\<rparr>))"

text \<open>The packets the gateway was handed during the reception, by \<open>observe_aircraft_packet\<close>\<close>

record observed =
  ob_data :: bytes
  ob_remote :: "string \<times> int"
  ob_touch :: bool
  ob_clock :: real
  ob_written :: bool

definition gateway_observe :: "int \<Rightarrow> observed \<Rightarrow> aircraft_gateway \<Rightarrow> aircraft_gateway" where
  "gateway_observe port o1 g = snd (record_packet port (ob_data o1) (ob_remote o1) (ob_touch o1) (ob_clock o1) (ob_written o1) g)"

text \<open>What the slave's reception leaves behind when it raises; the loop prints the exception and goes on\<close>

fun transport_partial :: "transport_config \<Rightarrow> real \<Rightarrow> json \<Rightarrow> nat \<Rightarrow> socket_event list \<Rightarrow> slave_transport \<Rightarrow> slave_transport" where
  "transport_partial c now wall (Suc n) (Packet w ok # es) s = (case transport_datagram c now wall w ok s of
     None \<Rightarrow> s\<lparr>st_rx_packets := st_rx_packets s + 1\<rparr>
   | Some s' \<Rightarrow> transport_partial c now wall n es s')"
| "transport_partial c now wall n es s = s"

definition pump_slave :: "transport_config \<Rightarrow> real \<Rightarrow> json \<Rightarrow> socket_event list \<Rightarrow> slave_transport \<Rightarrow> slave_transport" where
  "pump_slave c now wall es s = (case transport_pump c now wall 64 es s of
     Some s' \<Rightarrow> s' | None \<Rightarrow> transport_partial c now wall 64 es s)"

text \<open>
  What one turn meets: the pending commands with what each meets, the sockets, then for the neutral and for the stop the
  connection and whether the lock is free, the clock of the watchdog, and what reading the telemetry meets.
\<close>

record turn_in =
  ti_commands :: "exec_in list"
  ti_tick :: real
  ti_arrivals :: "arrival list"
  ti_observed :: "observed list"
  ti_slave_wall :: json
  ti_slave_events :: "socket_event list"
  ti_neutral :: "ct_found \<times> bool"
  ti_watch :: real
  ti_stop :: "ct_found \<times> bool"
  ti_free :: bool
  ti_connect :: ct_found
  ti_start :: real
  ti_tele :: "tele_in list"

definition pump_aircraft :: "agent_config \<Rightarrow> turn_in \<Rightarrow> unit agent_step" where
  "pump_aircraft c i s =
     (let s1 = s\<lparr>ag_gateway := fold (gateway_observe (gc_port c)) (ti_observed i) (ag_gateway s)\<rparr> in
      case pump (gc_transport c) (ti_tick i) 32 (ti_arrivals i) (ag_air s1) of
        (Inl e, a) \<Rightarrow> (Raised Escapes, s1\<lparr>ag_air := a\<rparr>)
      | (Inr u, a) \<Rightarrow> (Gives (), on_report (\<lambda>r. snd (apply_aircraft_transaction (at_transaction_state a) r)) (s1\<lparr>ag_air := a\<rparr>)))"

definition pump_slave_step :: "agent_config \<Rightarrow> turn_in \<Rightarrow> unit agent_step" where
  "pump_slave_step c i s =
     (Gives (), if ro_has_slave (gc_router c)
        then s\<lparr>ag_slave := pump_slave (gc_slave c) (ti_tick i) (ti_slave_wall i) (ti_slave_events i) (ag_slave s)\<rparr> else s)"

definition report_mission :: "string \<times> job_status \<Rightarrow> rover_report \<Rightarrow> rover_report" where
  "report_mission e r = snd (apply_rover_mission_status (fst e) (js_stage (snd e)) (js_message (snd e)) (js_error (snd e)) r)"

definition report_missions :: "agent_config \<Rightarrow> unit agent_step" where
  "report_missions c s = (case rw_drain (gc_worker c) (ag_jobs s) of
     (ready, w) \<Rightarrow> (Gives (), on_report (fold report_mission ready) (s\<lparr>ag_jobs := w\<rparr>)))"

definition keep_neutral :: "turn_in \<Rightarrow> unit agent_step" where
  "keep_neutral i s =
     (if sm_last_command (ag_tele s) \<notin> {''stop'', ''arm''} then (Gives (), s)
      else bind_ag (ag_connect (fst (ti_neutral i)))
        (\<lambda>b. if b then bind_ag (ag_lift (try_neutral (snd (ti_neutral i)))) (\<lambda>_ s. (Gives (), s)) else (\<lambda>s. (Gives (), s))) s)"

definition driving :: "rover_agent \<Rightarrow> bool" where
  "driving s \<longleftrightarrow> sm_last_command (ag_tele s) \<in> set manual_names \<and> (sm_steering (ag_tele s) \<noteq> 0 \<or> sm_throttle (ag_tele s) \<noteq> 0)"

definition halted :: "rover_agent \<Rightarrow> rover_agent" where
  "halted s = on_report (\<lambda>r. r\<lparr>rp_mission_status := ''manual timeout stopped'', rp_fault := []\<rparr>)
     (on_tele (\<lambda>x. x\<lparr>sm_steering := 0, sm_throttle := 0, sm_control_mode := ''standby'', sm_last_command := ''stop''\<rparr>) s)"

text \<open>The result of \<open>try_stop\<close> is not looked at\<close>

definition watchdog :: "turn_in \<Rightarrow> unit agent_step" where
  "watchdog i s =
     (if \<not> (driving s \<and> ag_until s < ti_watch i) then (Gives (), s)
      else bind_ag (ag_connect (fst (ti_stop i)))
        (\<lambda>b. bind_ag (if b then ag_lift (try_stop (snd (ti_stop i))) else (\<lambda>s. (Gives False, s)))
          (\<lambda>_ s. (Gives (), halted s))) s)"

definition turn_body :: "agent_config \<Rightarrow> turn_in \<Rightarrow> unit agent_step" where
  "turn_body c i =
     bind_ag (serve_pending c (ti_commands i)) (\<lambda>_.
     bind_ag (pump_aircraft c i) (\<lambda>_.
     bind_ag (pump_slave_step c i) (\<lambda>_.
     bind_ag (report_missions c) (\<lambda>_.
     bind_ag (keep_neutral i) (\<lambda>_.
     bind_ag (watchdog i) (\<lambda>_.
     update_telemetry (ti_free i) (ti_connect i) (ti_start i) (ti_tele i)))))))"

text \<open>An exception ends the turn with its text, which is left out, as the fault\<close>

definition agent_turn :: "agent_config \<Rightarrow> turn_in \<Rightarrow> bool agent_step" where
  "agent_turn c i s = (case turn_body c i s of
     (Gives u, s') \<Rightarrow> (Gives True, s')
   | (Raised e, s') \<Rightarrow> (Gives False, on_report (\<lambda>r. r\<lparr>rp_fault := ''agent loop error''\<rparr>) s')
   | (Outside, s') \<Rightarrow> (Outside, s'))"

text \<open>The loop, when no command arrives between the turns\<close>

fun agent_turns :: "agent_config \<Rightarrow> turn_in list \<Rightarrow> rover_agent \<Rightarrow> rover_agent" where
  "agent_turns c [] s = s"
| "agent_turns c (i # is) s = (case agent_turn c i s of (Outside, s') \<Rightarrow> s' | (_, s') \<Rightarrow> agent_turns c is s')"

subsection \<open>Commands of the cloud and of the local file\<close>

text \<open>
  \<open>extract_property_set\<close> of a payload, None when its bytes are no text: what is no JSON counts as an empty command. The
  \<open>get\<close> of something that is no dictionary is an AttributeError, here Inl.
\<close>

definition extract_property_set :: "string option \<Rightarrow> unit + pydict" where
  "extract_property_set payload = (case Option.bind payload loads of
     None \<Rightarrow> Inr []
   | Some (JObj doc) \<Rightarrow>
       (case get_or doc ''payload'' (JObj []) of
          JObj p \<Rightarrow> (case get_or doc ''data'' (get_or p ''data'' (JObj [])) of
              JObj d \<Rightarrow> Inr (if \<not> has d ''source_timestamp'' \<and> fld doc ''time'' \<noteq> JNull
                then AList.update ''source_timestamp'' (fld doc ''time'') d else d)
            | _ \<Rightarrow> Inr [])
        | _ \<Rightarrow> Inl ())
   | Some _ \<Rightarrow> Inl ())"

text \<open>\<open>on_message\<close>; Inl is an exception in the thread of the network\<close>

definition receive_command :: "uuid \<Rightarrow> pyfloat \<Rightarrow> string option \<Rightarrow> rover_agent \<Rightarrow> (unit + unit) \<times> rover_agent" where
  "receive_command fresh now payload s = (case extract_property_set payload of
     Inl u \<Rightarrow> (Inl (), s)
   | Inr d \<Rightarrow> (case from_cloud fresh now (JObj d) of
       Inl e \<Rightarrow> (Inl (), s) | Inr cmd \<Rightarrow> (Inr (), s\<lparr>ag_pending := ag_pending s @ [cmd]\<rparr>)))"

text \<open>\<open>consume_local_commands\<close>: the lines of the file, each with the identifier and the clock \<open>from_cloud\<close> may need\<close>

definition local_command :: "uuid \<times> pyfloat \<times> string \<Rightarrow> cloud_command option" where
  "local_command l = (case l of (fresh, now, t) \<Rightarrow>
     if py_strip t = [] then None
     else (case loads t of None \<Rightarrow> None | Some v \<Rightarrow> (case from_cloud fresh now v of Inl e \<Rightarrow> None | Inr cmd \<Rightarrow> Some cmd)))"

definition consume_local :: "(uuid \<times> pyfloat \<times> string) list \<Rightarrow> rover_agent \<Rightarrow> rover_agent" where
  "consume_local ls s = s\<lparr>ag_pending := ag_pending s @ List.map_filter local_command ls\<rparr>"

definition rover_agent_init :: "aircraft_transport \<Rightarrow> slave_transport \<Rightarrow> rover_nav \<Rightarrow> rover_agent" where
  "rover_agent_init air slave nav = \<lparr>ag_tele = rover_sample_init, ag_nav = nav, ag_report = rover_report_init, ag_until = 0,
     ag_pending = [], ag_control = rover_control_init, ag_jobs = rover_worker_init, ag_air = air,
     ag_gateway = aircraft_gateway_init, ag_slave = slave, ag_request = None\<rparr>"

end
