(* ===== verification/RoverAgentProps.thy ===== *)
theory RoverAgentProps
  imports RoverAgent RoverControlProps AircraftTransportProps SlaveTransportProps
begin

text \<open>
  Properties of the rover's main loop: which component a command can change, the watchdog over manual driving and what
  disarms it, the turns an exception cuts short, and the gateway that opens the optical gate.
\<close>

subsection \<open>What a step leaves alone and what it sends\<close>

definition leaves :: "(rover_agent \<Rightarrow> 'x) \<Rightarrow> 'a agent_step \<Rightarrow> bool" where
  "leaves f m \<longleftrightarrow> (\<forall>s r s'. m s = (r, s') \<longrightarrow> f s' = f s)"

definition adds :: "ct_event set \<Rightarrow> 'a agent_step \<Rightarrow> bool" where
  "adds A m \<longleftrightarrow> (\<forall>s r s'. m s = (r, s') \<longrightarrow>
     (\<exists>es. ct_log (ag_control s') = ct_log (ag_control s) @ es \<and> set es \<subseteq> A))"

lemma leavesD: "leaves f m \<Longrightarrow> m s = (r, s') \<Longrightarrow> f s' = f s"
  unfolding leaves_def by blast

lemma addsE:
  assumes "adds A m" and "m s = (r, s')"
  obtains es where "ct_log (ag_control s') = ct_log (ag_control s) @ es" and "set es \<subseteq> A"
  using assms unfolding adds_def by blast

lemma leaves_bind: "leaves f m \<Longrightarrow> (\<And>a. leaves f (g a)) \<Longrightarrow> leaves f (bind_ag m g)"
  unfolding leaves_def bind_ag_def by (auto split: prod.splits ares.splits)

lemma adds_bind:
  assumes "adds A m" and "\<And>a. adds A (g a)"
  shows "adds A (bind_ag m g)"
  unfolding adds_def
proof (intro allI impI)
  fix s r s' assume "bind_ag m g s = (r, s')"
  then consider (on) a s1 where "m s = (Gives a, s1)" "g a s1 = (r, s')" | (off) x where "m s = (x, s')"
    by (auto simp: bind_ag_def split: prod.splits ares.splits)
  then show "\<exists>es. ct_log (ag_control s') = ct_log (ag_control s) @ es \<and> set es \<subseteq> A"
  proof cases
    case on
    obtain es where 1: "ct_log (ag_control s1) = ct_log (ag_control s) @ es" "set es \<subseteq> A" using addsE [OF assms(1) on(1)] .
    obtain fs where 2: "ct_log (ag_control s') = ct_log (ag_control s1) @ fs" "set fs \<subseteq> A" using addsE [OF assms(2) on(2)] .
    show ?thesis using 1 2 by (intro exI [of _ "es @ fs"]) auto
  next
    case off
    then show ?thesis using addsE [OF assms(1)] by metis
  qed
qed

lemma adds_leaves: "leaves ag_control m \<Longrightarrow> adds A m"
  unfolding adds_def by (auto dest!: leavesD)

lemma leaves_give [simp]: "(\<And>s. f (h s) = f s) \<Longrightarrow> leaves f (\<lambda>s. (Gives a, h s))"
  unfolding leaves_def by simp

lemma adds_give [simp]: "(\<And>s. ct_log (ag_control (h s)) = ct_log (ag_control s)) \<Longrightarrow> adds A (\<lambda>s. (Gives a, h s))"
  unfolding adds_def by simp

lemma adds_lift:
  assumes "emits A m"
  shows "adds A (ag_lift m)"
  unfolding adds_def
proof (intro allI impI)
  fix s r s' assume "ag_lift m s = (r, s')"
  then obtain x where "m (ag_control s) = (x, ag_control s')"
    by (auto simp: ag_lift_def split: prod.splits cres.splits)
  then show "\<exists>es. ct_log (ag_control s') = ct_log (ag_control s) @ es \<and> set es \<subseteq> A"
    using emitsE [OF assms] by metis
qed

text \<open>The events of looking at the flight controller\<close>

definition looking :: "ct_event set" where
  "looking = {NewConnection, HomeRequest} \<union> range ModeSeen"

lemma connect_log: "ct_connect k s = (b, s') \<Longrightarrow> \<exists>es. ct_log s' = ct_log s @ es \<and> set es \<subseteq> looking"
  by (cases k) (auto simp: ct_connect_def ct_opened_def ct_close_def learn_def looking_def Let_def split: if_splits)

lemma adds_connect: "adds looking (ag_connect k)"
  unfolding adds_def ag_connect_def by (auto split: prod.splits dest: connect_log)

lemma observed_mode_log: "\<exists>es. ct_log (record_observed_mode m s) = ct_log s @ es \<and> set es \<subseteq> looking"
  by (auto simp: record_observed_mode_def learn_def looking_def Let_def split: option.splits)

definition commanded :: "rover_agent \<Rightarrow> string \<times> int \<times> int" where
  "commanded s = (sm_last_command (ag_tele s), sm_steering (ag_tele s), sm_throttle (ag_tele s))"

lemma commanded_simps [simp]:
  "commanded (on_report f s) = commanded s"
  "commanded (s\<lparr>ag_control := r\<rparr>) = commanded s"
  "commanded (s\<lparr>ag_nav := n\<rparr>) = commanded s"
  "commanded (s\<lparr>ag_jobs := w\<rparr>) = commanded s"
  "commanded (s\<lparr>ag_air := a\<rparr>) = commanded s"
  "commanded (s\<lparr>ag_slave := t\<rparr>) = commanded s"
  "commanded (s\<lparr>ag_gateway := gw\<rparr>) = commanded s"
  "commanded (s\<lparr>ag_pending := p\<rparr>) = commanded s"
  by (simp_all add: commanded_def on_report_def)

lemma commanded_tele [simp]:
  "(\<And>t. sm_last_command (f t) = sm_last_command t) \<Longrightarrow> (\<And>t. sm_steering (f t) = sm_steering t) \<Longrightarrow>
   (\<And>t. sm_throttle (f t) = sm_throttle t) \<Longrightarrow> commanded (on_tele f s) = commanded s"
  by (simp add: commanded_def on_tele_def)

lemma on_fields [simp]:
  "ag_control (on_report f s) = ag_control s" "ag_control (on_tele h s) = ag_control s"
  "ag_pending (on_report f s) = ag_pending s" "ag_pending (on_tele h s) = ag_pending s"
  "ag_tele (on_report f s) = ag_tele s" "ag_until (on_report f s) = ag_until s" "ag_until (on_tele h s) = ag_until s"
  "ag_report (on_tele h s) = ag_report s"
  "ag_air (on_report f s) = ag_air s" "ag_air (on_tele h s) = ag_air s"
  "ag_slave (on_report f s) = ag_slave s" "ag_slave (on_tele h s) = ag_slave s"
  "ag_jobs (on_report f s) = ag_jobs s" "ag_jobs (on_tele h s) = ag_jobs s"
  "ag_request (on_report f s) = ag_request s" "ag_request (on_tele h s) = ag_request s"
  "ag_gateway (on_report f s) = ag_gateway s" "ag_gateway (on_tele h s) = ag_gateway s"
  by (simp_all add: on_report_def on_tele_def)

subsection \<open>The steps of a turn\<close>

text \<open>What the watchdog depends on\<close>

definition view :: "rover_agent \<Rightarrow> (string \<times> int \<times> int) \<times> cloud_command list \<times> real" where
  "view s = (commanded s, ag_pending s, ag_until s)"

lemma view_simps [simp]:
  "view (on_report f s) = view s"
  "view (s\<lparr>ag_control := r\<rparr>) = view s"
  "view (s\<lparr>ag_control := r, ag_nav := n\<rparr>) = view s"
  "view (s\<lparr>ag_nav := n\<rparr>) = view s"
  "view (s\<lparr>ag_jobs := w\<rparr>) = view s"
  "view (s\<lparr>ag_air := a\<rparr>) = view s"
  "view (s\<lparr>ag_slave := t\<rparr>) = view s"
  "view (s\<lparr>ag_gateway := gw\<rparr>) = view s"
  "view (s\<lparr>ag_air := a, ag_gateway := gw\<rparr>) = view s"
  by (simp_all add: view_def commanded_def on_report_def)

lemma view_tele [simp]:
  "(\<And>t. sm_last_command (f t) = sm_last_command t) \<Longrightarrow> (\<And>t. sm_steering (f t) = sm_steering t) \<Longrightarrow>
   (\<And>t. sm_throttle (f t) = sm_throttle t) \<Longrightarrow> view (on_tele f s) = view s"
  by (simp add: view_def)

lemma leaves_connect: "leaves view (ag_connect k)"
  by (auto simp: leaves_def ag_connect_def split: prod.splits)

lemma leaves_lift: "leaves view (ag_lift m)"
  by (auto simp: leaves_def ag_lift_def split: prod.splits cres.splits)

lemma leaves_pump_aircraft: "leaves view (pump_aircraft c i)"
  by (auto simp: leaves_def pump_aircraft_def Let_def split: prod.splits sum.splits)

lemma leaves_pump_slave: "leaves view (pump_slave_step c i)"
  by (simp add: leaves_def pump_slave_step_def)

lemma leaves_report: "leaves view (report_missions c)"
  by (auto simp: leaves_def report_missions_def split: prod.splits)

lemma leaves_neutral: "leaves view (keep_neutral i)"
proof -
  have "leaves view (bind_ag (ag_connect k) (\<lambda>b. if b then bind_ag (ag_lift m) (\<lambda>_ s. (Gives (), s)) else (\<lambda>s. (Gives (), s))))"
    for k and m :: "bool ct"
    by (intro leaves_bind leaves_connect) (simp add: leaves_bind leaves_lift)
  then show ?thesis unfolding leaves_def keep_neutral_def by auto
qed

lemma leaves_tele_step: "leaves view (tele_step t m)"
proof -
  have p: "view (publish_rover_status s) = view s" for s by (simp add: publish_rover_status_def split: option.splits)
  have o1: "leaves view (ag_observe x)" for x
    by (auto simp: leaves_def ag_observe_def p split: prod.splits cres.splits if_splits)
  show ?thesis
    by (cases m) (use o1 in \<open>simp_all add: leaves_def tele_step_def Let_def\<close>)
qed

lemma leaves_tele_loop: "leaves view (tele_loop dl xs)"
proof (induction xs)
  case Nil
  then show ?case by (simp add: leaves_def)
next
  case (Cons x xs)
  have b: "leaves view (bind_ag (tele_step t m) (\<lambda>_. tele_loop dl xs))" for t m
    by (intro leaves_bind leaves_tele_step Cons)
  show ?case
  proof (cases x)
    case (TeleMsg w t m)
    then show ?thesis using b [of t m] by (simp add: leaves_def)
  next
    case (TeleNone w)
    then show ?thesis using Cons by (simp add: leaves_def)
  qed (simp add: leaves_def)
qed

lemma leaves_update: "leaves view (update_telemetry free k w ins)"
  unfolding leaves_def
proof (intro allI impI)
  fix s r s' assume u: "update_telemetry free k w ins s = (r, s')"
  show "view s' = view s"
  proof (cases "free \<and> fst (ct_connect k (ag_control s))")
    case False
    then show ?thesis using u by (auto simp: update_telemetry_def split: prod.splits bool.splits if_splits)
  next
    case True
    then obtain r1 where "ct_connect k (ag_control s) = (True, r1)" by (cases "ct_connect k (ag_control s)") auto
    with True u show ?thesis by (auto simp: update_telemetry_def dest!: leavesD [OF leaves_tele_loop])
  qed
qed

lemma adds_pumps: "adds A (pump_aircraft c i)" "adds A (pump_slave_step c i)" "adds A (report_missions c)"
  by (auto simp: adds_def pump_aircraft_def pump_slave_step_def report_missions_def Let_def split: prod.splits sum.splits)

lemma adds_observe: "adds A (ag_observe m)"
proof -
  have p: "ag_control (publish_rover_status s) = ag_control s" for s
    by (simp add: publish_rover_status_def split: option.splits)
  have o1: "ct_log r = ct_log s" if "ct_observe m s = (x, r)" for s x r
    using emitsE [OF emits_observe [of "{}"] that] by auto
  show ?thesis
    by (auto simp: adds_def ag_observe_def p dest!: o1 split: prod.splits cres.splits if_splits)
qed

lemma adds_tele_step: "adds looking (tele_step t m)"
proof (cases m)
  case (TmManager x)
  then show ?thesis using adds_observe [of looking x] by (simp add: adds_def tele_step_def)
next
  case (TmHeartbeat armed mode)
  then show ?thesis using observed_mode_log [of mode] by (auto simp: adds_def tele_step_def)
qed (simp_all add: adds_def tele_step_def Let_def)

lemma adds_tele_loop: "adds looking (tele_loop dl xs)"
proof (induction xs)
  case Nil
  then show ?case by (simp add: adds_def)
next
  case (Cons x xs)
  have b: "adds looking (bind_ag (tele_step t m) (\<lambda>_. tele_loop dl xs))" for t m
    by (intro adds_bind adds_tele_step Cons)
  show ?case
  proof (cases x)
    case (TeleMsg w t m)
    then show ?thesis using b [of t m] by (simp add: adds_def)
  next
    case (TeleNone w)
    then show ?thesis using Cons by (simp add: adds_def)
  qed (simp add: adds_def ct_close_def learn_def looking_def)
qed

lemma adds_update: "adds looking (update_telemetry free k w ins)"
  unfolding adds_def
proof (intro allI impI)
  fix s r s' assume u: "update_telemetry free k w ins s = (r, s')"
  obtain b r1 where k: "ct_connect k (ag_control s) = (b, r1)" by (cases "ct_connect k (ag_control s)")
  obtain es where es: "ct_log r1 = ct_log (ag_control s) @ es" "set es \<subseteq> looking" using connect_log [OF k] by blast
  show "\<exists>es. ct_log (ag_control s') = ct_log (ag_control s) @ es \<and> set es \<subseteq> looking"
  proof (cases "free \<and> b")
    case False
    then show ?thesis using u es by (auto simp: update_telemetry_def k split: if_splits)
  next
    case True
    with u k have "tele_loop (w + 3 / 25) ins (on_tele (\<lambda>x. x\<lparr>sm_fc_link := True\<rparr>)
        (s\<lparr>ag_control := r1, ag_nav := (ag_nav s)\<lparr>nv_generation := int (ct_generation r1)\<rparr>\<rparr>)) = (r, s')"
      by (simp add: update_telemetry_def)
    from addsE [OF adds_tele_loop this] obtain fs where "ct_log (ag_control s') = ct_log r1 @ fs" "set fs \<subseteq> looking" by auto
    with es show ?thesis by (intro exI [of _ "es @ fs"]) auto
  qed
qed

subsection \<open>Turns without the watchdog\<close>

text \<open>Nothing pending, and a last command that neither drives nor stops\<close>

definition idle :: "rover_agent \<Rightarrow> bool" where
  "idle s \<longleftrightarrow> ag_pending s = [] \<and> fst (commanded s) \<notin> set manual_names \<union> {''stop'', ''arm''}"

definition quiet :: "'a agent_step \<Rightarrow> bool" where
  "quiet m \<longleftrightarrow> (\<forall>s r s'. idle s \<longrightarrow> m s = (r, s') \<longrightarrow> view s' = view s \<and>
     (\<exists>es. ct_log (ag_control s') = ct_log (ag_control s) @ es \<and> set es \<subseteq> looking))"

lemma idle_view: "view s' = view s \<Longrightarrow> idle s' = idle s"
  by (simp add: view_def idle_def)

lemma quietI: "leaves view m \<Longrightarrow> adds looking m \<Longrightarrow> quiet m"
  unfolding leaves_def adds_def quiet_def by blast

lemma quiet_bind:
  assumes "quiet m" and "\<And>a. quiet (g a)"
  shows "quiet (bind_ag m g)"
  unfolding quiet_def
proof (intro allI impI)
  fix s r s' assume i: "idle s" and b: "bind_ag m g s = (r, s')"
  from b consider (on) a s1 where "m s = (Gives a, s1)" "g a s1 = (r, s')" | (off) x where "m s = (x, s')"
    by (auto simp: bind_ag_def split: prod.splits ares.splits)
  then show "view s' = view s \<and> (\<exists>es. ct_log (ag_control s') = ct_log (ag_control s) @ es \<and> set es \<subseteq> looking)"
  proof cases
    case on
    obtain es where 1: "view s1 = view s" "ct_log (ag_control s1) = ct_log (ag_control s) @ es" "set es \<subseteq> looking"
      using assms(1) i on(1) unfolding quiet_def by blast
    have i1: "idle s1" using idle_view [OF 1(1)] i by simp
    obtain fs where 2: "view s' = view s1" "ct_log (ag_control s') = ct_log (ag_control s1) @ fs" "set fs \<subseteq> looking"
      using assms(2) i1 on(2) unfolding quiet_def by blast
    show ?thesis using 1 2 by (auto intro!: exI [of _ "es @ fs"])
  next
    case off
    then show ?thesis using assms(1) i unfolding quiet_def by blast
  qed
qed

lemma quiet_serve: "quiet (serve_pending c ins)"
  unfolding quiet_def by (subst serve_pending.simps) (simp add: idle_def)

lemma quiet_watchdog: "quiet (watchdog i)"
  by (auto simp: quiet_def watchdog_def driving_def idle_def commanded_def)

lemma quiet_neutral: "quiet (keep_neutral i)"
  by (auto simp: quiet_def keep_neutral_def idle_def commanded_def)

lemma quiet_body: "quiet (turn_body c i)"
  unfolding turn_body_def
  by (intro quiet_bind quiet_serve quiet_watchdog quiet_neutral
      quietI [OF leaves_pump_aircraft adds_pumps(1)] quietI [OF leaves_pump_slave adds_pumps(2)]
      quietI [OF leaves_report adds_pumps(3)] quietI [OF leaves_update adds_update])

lemma quiet_turn: "quiet (agent_turn c i)"
  unfolding quiet_def
proof (intro allI impI)
  fix s r s' assume i: "idle s" and t: "agent_turn c i s = (r, s')"
  obtain x s1 where b: "turn_body c i s = (x, s1)" by (cases "turn_body c i s")
  have q: "view s1 = view s" "\<exists>es. ct_log (ag_control s1) = ct_log (ag_control s) @ es \<and> set es \<subseteq> looking"
    using quiet_body i b unfolding quiet_def by blast+
  from t b show "view s' = view s \<and> (\<exists>es. ct_log (ag_control s') = ct_log (ag_control s) @ es \<and> set es \<subseteq> looking)"
    using q by (auto simp: agent_turn_def split: ares.splits)
qed

lemma quiet_turns:
  "idle s \<Longrightarrow> view (agent_turns c is s) = view s \<and>
     (\<exists>es. ct_log (ag_control (agent_turns c is s)) = ct_log (ag_control s) @ es \<and> set es \<subseteq> looking)"
proof (induction "is" arbitrary: s)
  case Nil
  then show ?case by simp
next
  case (Cons i "is")
  obtain r s1 where t: "agent_turn c i s = (r, s1)" by (cases "agent_turn c i s")
  have 1: "view s1 = view s" "\<exists>es. ct_log (ag_control s1) = ct_log (ag_control s) @ es \<and> set es \<subseteq> looking"
    using quiet_turn [of c i] Cons.prems t unfolding quiet_def by blast+
  show ?case
  proof (cases "r = Outside")
    case True
    then show ?thesis using 1 t by simp
  next
    case False
    then have u: "agent_turns c (i # is) s = agent_turns c is s1" using t by (cases r) simp_all
    have "idle s1" using idle_view [OF 1(1)] Cons.prems by simp
    from Cons.IH [OF this] obtain fs where 2: "view (agent_turns c is s1) = view s1"
      "ct_log (ag_control (agent_turns c is s1)) = ct_log (ag_control s1) @ fs" "set fs \<subseteq> looking" by blast
    from 1(2) obtain es where 3: "ct_log (ag_control s1) = ct_log (ag_control s) @ es" "set es \<subseteq> looking" by blast
    show ?thesis unfolding u using 1(1) 2 3 by (auto intro!: exI [of _ "es @ fs"])
  qed
qed

subsection \<open>Commands touch the component of their target\<close>

definition aircraft_names :: "string list" where
  "aircraft_names = [''aircraft'', ''aircraft_1'']"

lemma route_target:
  assumes "route rt now optical cmd = Inr d"
  shows "cc_target cmd \<in> set aircraft_names \<Longrightarrow> d = ToAircraft (cmd\<lparr>cc_target := ''aircraft''\<rparr>)"
    and "cc_target cmd = ''aircraft_2'' \<Longrightarrow> d = ToSlave cmd"
    and "cc_target cmd = ''system'' \<Longrightarrow> d = ToSystem cmd"
    and "cc_target cmd \<notin> set (''aircraft_2'' # ''system'' # aircraft_names) \<Longrightarrow> d = ToRover cmd"
  using assms by (auto simp: route_def aircraft_names_def split: if_splits)

lemma exec_aircraft_frame: "exec_aircraft c i cmd s = (r, s') \<Longrightarrow> \<exists>a. s' = s\<lparr>ag_air := a\<rparr>"
  by (auto simp: exec_aircraft_def split: prod.splits sum.splits)

lemma exec_slave_frame: "exec_slave c i cmd s = (r, s') \<Longrightarrow> \<exists>t. s' = s\<lparr>ag_slave := t\<rparr>"
  by (auto simp: exec_slave_def split: prod.splits sum.splits)

lemma exec_system_frame: "exec_system i cmd s = (r, s') \<Longrightarrow> s' = s \<or> (\<exists>q. s' = s\<lparr>ag_request := q\<rparr>)"
  by (auto simp: exec_system_def Let_def split: if_splits)

text \<open>The fields a rover command can change\<close>

definition others :: "rover_agent \<Rightarrow> aircraft_transport \<times> aircraft_gateway \<times> slave_transport \<times> string option" where
  "others s = (ag_air s, ag_gateway s, ag_slave s, ag_request s)"

lemma others_simps [simp]:
  "others (on_report f s) = others s" "others (on_tele h s) = others s"
  "others (s\<lparr>ag_control := r\<rparr>) = others s" "others (s\<lparr>ag_jobs := w\<rparr>) = others s"
  "others (s\<lparr>ag_control := r, ag_nav := n\<rparr>) = others s"
  by (simp_all add: others_def)

lemma queue_others: "queue_mission c cid raw ts s = (r, s') \<Longrightarrow> others s' = others s"
  by (auto simp: queue_mission_def split: if_splits sum.splits prod.splits pyfloat.splits rover_exc.splits)

lemma exec_mission_others: "exec_mission c cmd s = (r, s') \<Longrightarrow> others s' = others s"
  by (auto simp: exec_mission_def bind_ag_def dest: queue_others split: json.splits prod.splits ares.splits)

lemma exec_drive_others: "exec_drive c i k s = (r, s') \<Longrightarrow> others s' = others s"
  unfolding exec_drive_def Let_def
  by (cases "xi_free i") (auto split: prod.splits cres.splits if_splits)

lemma exec_rover_others: "exec_rover c i cmd s = (r, s') \<Longrightarrow> others s' = others s"
  unfolding exec_rover_def by (auto dest: exec_mission_others exec_drive_others split: if_splits sum.splits)

lemma finish_fields [simp]:
  "ag_air (finish_command i cmd r s) = ag_air s" "ag_slave (finish_command i cmd r s) = ag_slave s"
  "ag_request (finish_command i cmd r s) = ag_request s" "ag_control (finish_command i cmd r s) = ag_control s"
  "ag_jobs (finish_command i cmd r s) = ag_jobs s" "ag_gateway (finish_command i cmd r s) = ag_gateway s"
  "ag_pending (finish_command i cmd r s) = ag_pending s"
  by (simp_all add: finish_command_def Let_def on_report_def on_tele_def)

lemma no_optical:
  "\<not> asks_optical c i cmd \<Longrightarrow> route_and_execute c i cmd s = (case route (gc_router c) (xi_wall i) [] cmd of
       Inl e \<Rightarrow> (Raised (Refused (router_text e)), s)
     | Inr (ToAircraft k) \<Rightarrow> exec_aircraft c i k s | Inr (ToSlave k) \<Rightarrow> exec_slave c i k s
     | Inr (ToSystem k) \<Rightarrow> exec_system i k s | Inr (ToRover k) \<Rightarrow> exec_rover c i k s)"
  by (simp add: route_and_execute_def)

lemma aircraft_frame:
  assumes "cc_target cmd \<in> set aircraft_names" and "route_and_execute c i cmd s = (r, s')"
  shows "\<exists>a. s' = s\<lparr>ag_air := a\<rparr>"
proof -
  obtain optical a where o1: "(if asks_optical c i cmd
      then aircraft_optical_state (gc_transport c) (xi_tick i) (xi_wall i) (ag_air s) (ag_gateway s) else ([], ag_air s)) = (optical, a)"
    by (metis prod.collapse)
  have r: "(case route (gc_router c) (xi_wall i) optical cmd of
       Inl e \<Rightarrow> (Raised (Refused (router_text e)), s\<lparr>ag_air := a\<rparr>)
     | Inr (ToAircraft k) \<Rightarrow> exec_aircraft c i k (s\<lparr>ag_air := a\<rparr>) | Inr (ToSlave k) \<Rightarrow> exec_slave c i k (s\<lparr>ag_air := a\<rparr>)
     | Inr (ToSystem k) \<Rightarrow> exec_system i k (s\<lparr>ag_air := a\<rparr>) | Inr (ToRover k) \<Rightarrow> exec_rover c i k (s\<lparr>ag_air := a\<rparr>)) = (r, s')"
    using assms(2) unfolding route_and_execute_def o1 prod.case Let_def .
  show ?thesis
  proof (cases "route (gc_router c) (xi_wall i) optical cmd")
    case (Inl e)
    with r show ?thesis by auto
  next
    case (Inr d)
    from route_target(1) [OF Inr assms(1)] r Inr have "exec_aircraft c i (cmd\<lparr>cc_target := ''aircraft''\<rparr>) (s\<lparr>ag_air := a\<rparr>) = (r, s')"
      by simp
    from exec_aircraft_frame [OF this] show ?thesis by auto
  qed
qed

lemma not_asked: "cc_target cmd \<notin> set aircraft_names \<Longrightarrow> \<not> asks_optical c i cmd"
  by (auto simp: asks_optical_def aircraft_names_def)

lemma slave_frame:
  assumes "cc_target cmd = ''aircraft_2''" and "route_and_execute c i cmd s = (r, s')"
  shows "s' = s \<or> (\<exists>t. s' = s\<lparr>ag_slave := t\<rparr>)"
proof -
  have n: "\<not> asks_optical c i cmd" by (rule not_asked) (simp add: assms aircraft_names_def)
  show ?thesis
  proof (cases "route (gc_router c) (xi_wall i) [] cmd")
    case (Inl e)
    then show ?thesis using assms(2) by (simp add: no_optical [OF n])
  next
    case (Inr d)
    then show ?thesis using assms(2) route_target(2) [OF Inr assms(1)]
      by (auto simp: no_optical [OF n] dest!: exec_slave_frame)
  qed
qed

lemma system_frame:
  assumes "cc_target cmd = ''system''" and "route_and_execute c i cmd s = (r, s')"
  shows "s' = s \<or> (\<exists>q. s' = s\<lparr>ag_request := q\<rparr>)"
proof -
  have n: "\<not> asks_optical c i cmd" by (rule not_asked) (simp add: assms aircraft_names_def)
  show ?thesis
  proof (cases "route (gc_router c) (xi_wall i) [] cmd")
    case (Inl e)
    then show ?thesis using assms(2) by (simp add: no_optical [OF n])
  next
    case (Inr d)
    then show ?thesis using assms(2) route_target(3) [OF Inr assms(1)]
      by (auto simp: no_optical [OF n] dest!: exec_system_frame)
  qed
qed

lemma rover_frame:
  assumes "cc_target cmd \<notin> set (''aircraft_2'' # ''system'' # aircraft_names)" and "route_and_execute c i cmd s = (r, s')"
  shows "others s' = others s"
proof -
  have n: "\<not> asks_optical c i cmd" by (rule not_asked) (use assms in auto)
  show ?thesis
  proof (cases "route (gc_router c) (xi_wall i) [] cmd")
    case (Inl e)
    then show ?thesis using assms(2) by (simp add: no_optical [OF n])
  next
    case (Inr d)
    then show ?thesis using assms(2) route_target(4) [OF Inr assms(1)]
      by (auto simp: no_optical [OF n] dest!: exec_rover_others)
  qed
qed

lemma stale_frame:
  assumes "too_old (ro_max_age (gc_router c)) (xi_wall i) (cc_timestamp cmd) \<or> too_new (ro_max_age (gc_router c)) (xi_wall i) (cc_timestamp cmd)"
    and "route_and_execute c i cmd s = (r, s')"
  shows "s' = s"
proof -
  have n: "\<not> asks_optical c i cmd" using assms(1) by (auto simp: asks_optical_def)
  have "\<exists>e. route (gc_router c) (xi_wall i) [] cmd = Inl e" using assms(1) by (auto simp: route_def)
  then show ?thesis using assms(2) by (auto simp: no_optical [OF n])
qed

lemma handle_cases:
  assumes "handle_command c i cmd s = (r, s')"
  obtains x s1 where "route_and_execute c i cmd s = (x, s1)" and "s' = s1 \<or> (\<exists>y. s' = finish_command i cmd y s1)"
  using assms by (auto simp: handle_command_def split: prod.splits ares.splits agent_exc.splits)

text \<open>C36: A command changes the component it names and no other: only an aircraft command the aircraft's transport, only
  a command of the second aircraft the slave's, only a system command the request file, only a rover command the flight
  controller and the mission queue; and a command that is too old or too new changes none of them.\<close>

theorem command_changes_its_target_only:
  assumes "handle_command c i cmd s = (r, s')"
  shows "(cc_target cmd \<notin> {''aircraft'', ''aircraft_1''} \<longrightarrow> ag_air s' = ag_air s)
    \<and> (cc_target cmd \<noteq> ''aircraft_2'' \<longrightarrow> ag_slave s' = ag_slave s)
    \<and> (cc_target cmd \<noteq> ''system'' \<longrightarrow> ag_request s' = ag_request s)
    \<and> (cc_target cmd \<in> {''aircraft'', ''aircraft_1'', ''aircraft_2'', ''system''} \<longrightarrow>
         ag_control s' = ag_control s \<and> ag_jobs s' = ag_jobs s)
    \<and> (too_old (ro_max_age (gc_router c)) (xi_wall i) (cc_timestamp cmd) \<or> too_new (ro_max_age (gc_router c)) (xi_wall i) (cc_timestamp cmd) \<longrightarrow>
         (ag_air s', ag_slave s', ag_request s', ag_control s', ag_jobs s') = (ag_air s, ag_slave s, ag_request s, ag_control s, ag_jobs s))"
proof -
  obtain x s1 where e: "route_and_execute c i cmd s = (x, s1)" and f: "s' = s1 \<or> (\<exists>y. s' = finish_command i cmd y s1)"
    using handle_cases [OF assms] .
  have p: "(ag_air s', ag_slave s', ag_request s', ag_control s', ag_jobs s') = (ag_air s1, ag_slave s1, ag_request s1, ag_control s1, ag_jobs s1)"
    using f by auto
  have st: "s1 = s" if "too_old (ro_max_age (gc_router c)) (xi_wall i) (cc_timestamp cmd) \<or> too_new (ro_max_age (gc_router c)) (xi_wall i) (cc_timestamp cmd)"
    using stale_frame [OF that e] .
  consider (air) "cc_target cmd \<in> set aircraft_names" | (slave) "cc_target cmd = ''aircraft_2''" | (system) "cc_target cmd = ''system''"
    | (rover) "cc_target cmd \<notin> set (''aircraft_2'' # ''system'' # aircraft_names)" by auto
  then show ?thesis
  proof cases
    case air
    from aircraft_frame [OF air e] p st air show ?thesis by (auto simp: aircraft_names_def)
  next
    case slave
    from slave_frame [OF slave e] p st slave show ?thesis by auto
  next
    case system
    from system_frame [OF system e] p st system show ?thesis by auto
  next
    case rover
    from rover_frame [OF rover e] p st rover show ?thesis by (auto simp: others_def aircraft_names_def)
  qed
qed

subsection \<open>The watchdog\<close>

definition reaches :: "ct_found \<Rightarrow> bool" where
  "reaches k \<longleftrightarrow> (case k of Kept \<Rightarrow> True | Connected _ _ _ _ \<Rightarrow> True | _ \<Rightarrow> False)"

lemma connect_reaches: "fst (ct_connect k s) = reaches k"
  by (cases k) (simp_all add: ct_connect_def reaches_def Let_def)

lemma bind_gives: "bind_ag m g s = (Gives b, s') \<Longrightarrow> \<exists>a s1. m s = (Gives a, s1) \<and> g a s1 = (Gives b, s')"
  by (auto simp: bind_ag_def split: prod.splits ares.splits)

lemma override_returns:
  "rc_override 0 0 s = (Returns (), s') \<Longrightarrow> ct_log s' = ct_log s @ [neutral_override (ct_limits s)] \<and> ct_limits s' = ct_limits s"
  by (auto simp: rc_override_def ct_send_def learn_def neutral_override_def Let_def split: list.splits bool.splits)

lemma bind_ct_returns: "bind_ct m g s = (Returns b, s') \<Longrightarrow> \<exists>a s1. m s = (Returns a, s1) \<and> g a s1 = (Returns b, s')"
  by (auto simp: bind_ct_def split: prod.splits cres.splits)

lemma stop_returns: "stop s = (Returns (), s') \<Longrightarrow> ct_log s' = ct_log s @ replicate 3 (neutral_override (ct_limits s))"
  unfolding stop_def by (auto dest!: bind_ct_returns override_returns simp: numeral_3_eq_3)

lemma try_stop_returns: "try_stop True s = (Returns b, s') \<Longrightarrow> ct_log s' = ct_log s @ replicate 3 (neutral_override (ct_limits s))"
  unfolding try_stop_def try_locked_def by (auto dest!: bind_ct_returns stop_returns simp: ret_ct_def)

lemma watchdog_fires:
  assumes "watchdog i s = (Gives (), s')" and "driving s" and "ag_until s < ti_watch i"
  shows "commanded s' = (''stop'', 0, 0)"
    and "reaches (fst (ti_stop i)) \<Longrightarrow> snd (ti_stop i) \<Longrightarrow> \<exists>es l. set es \<subseteq> looking
      \<and> ct_log (ag_control s') = ct_log (ag_control s) @ es @ replicate 3 (neutral_override l)"
proof -
  obtain b s1 s2 x where c: "ag_connect (fst (ti_stop i)) s = (Gives b, s1)"
      and t: "(if b then ag_lift (try_stop (snd (ti_stop i))) else (\<lambda>s. (Gives False, s))) s1 = (Gives x, s2)" and h: "s' = halted s2"
    using assms unfolding watchdog_def by (auto dest!: bind_gives)
  show "commanded s' = (''stop'', 0, 0)" by (simp add: h halted_def commanded_def on_tele_def on_report_def)
  assume r: "reaches (fst (ti_stop i))" and f: "snd (ti_stop i)"
  have b: b using c r connect_reaches [of "fst (ti_stop i)" "ag_control s"] by (auto simp: ag_connect_def split: prod.splits)
  obtain es where es: "ct_log (ag_control s1) = ct_log (ag_control s) @ es" "set es \<subseteq> looking" using addsE [OF adds_connect c] .
  have "ct_log (ag_control s2) = ct_log (ag_control s1) @ replicate 3 (neutral_override (ct_limits (ag_control s1)))"
    using t b f by (auto simp: ag_lift_def dest!: try_stop_returns split: prod.splits cres.splits)
  then show "\<exists>es l. set es \<subseteq> looking \<and> ct_log (ag_control s') = ct_log (ag_control s) @ es @ replicate 3 (neutral_override l)"
    using es h by (auto simp: halted_def intro!: exI [of _ es] exI [of _ "ct_limits (ag_control s1)"])
qed

lemma keep_neutral_driving: "driving s \<Longrightarrow> keep_neutral i s = (Gives (), s)"
  by (auto simp: keep_neutral_def driving_def manual_names_def)

lemma view_driving: "view s' = view s \<Longrightarrow> driving s' = driving s \<and> ag_until s' = ag_until s"
  by (simp add: view_def driving_def commanded_def)

lemma pump_control:
  "pump_aircraft c i s = (r, s') \<Longrightarrow> ag_control s' = ag_control s"
  "pump_slave_step c i s = (r, s') \<Longrightarrow> ag_control s' = ag_control s"
  "report_missions c s = (r, s') \<Longrightarrow> ag_control s' = ag_control s"
  by (auto simp: pump_aircraft_def pump_slave_step_def report_missions_def Let_def split: prod.splits sum.splits)


text \<open>C38: A command for the aircraft disarms the watchdog: it replaces the last command, so that however many turns pass
  afterwards without a command, the steering and throttle of the manual command stay in force and no override is sent to
  end it.\<close>

theorem aircraft_command_disarms_watchdog:
  assumes "cc_target cmd \<in> {''aircraft'', ''aircraft_1''}" and "ag_pending s = []" and "handle_command c i cmd s = (Gives (), s1)"
  shows "(sm_steering (ag_tele (agent_turns c is s1)), sm_throttle (ag_tele (agent_turns c is s1)))
      = (sm_steering (ag_tele s), sm_throttle (ag_tele s))
    \<and> (\<exists>es. ct_log (ag_control (agent_turns c is s1)) = ct_log (ag_control s) @ es \<and> (\<forall>st th x y. RcOverride st th x y \<notin> set es))"
proof -
  obtain x s0 y where e: "route_and_execute c i cmd s = (x, s0)" and f: "s1 = finish_command i cmd y s0"
    using assms(3) by (auto simp: handle_command_def split: prod.splits ares.splits agent_exc.splits)
  obtain a where a: "s0 = s\<lparr>ag_air := a\<rparr>" using aircraft_frame [OF _ e] assms(1) by (auto simp: aircraft_names_def)
  have k: "ag_control s1 = ag_control s" and p: "ag_pending s1 = []" using assms(2) by (simp_all add: f a)
  have m: "commanded s1 = (''aircraft_'' @ cc_action cmd, sm_steering (ag_tele s), sm_throttle (ag_tele s))"
    using assms(1) by (auto simp: f a finish_command_def commanded_def last_command_of_def on_tele_def on_report_def Let_def)
  have "idle s1" using m p by (simp add: idle_def manual_names_def)
  from quiet_turns [OF this, of c "is"] obtain es where q: "view (agent_turns c is s1) = view s1"
    "ct_log (ag_control (agent_turns c is s1)) = ct_log (ag_control s1) @ es" "set es \<subseteq> looking" by blast
  have "RcOverride st th u v \<notin> set es" for st th u v using q(3) by (auto simp: looking_def)
  then show ?thesis using q m k by (auto simp: view_def commanded_def)
qed

subsection \<open>Turns cut short\<close>

definition known_aircraft_action :: "string \<Rightarrow> bool" where
  "known_aircraft_action a \<longleftrightarrow> a \<in> set link_actions \<or> map_of mode_ids (''aircraft_'' @ a) \<noteq> None \<or> a \<in> {''arm'', ''disarm'', ''goto''}"

lemma unknown_packets:
  "\<not> known_aircraft_action a \<Longrightarrow> build_aircraft_command_packets ms (''aircraft_'' @ a) sys cmp lat lng alt sq
     = (Inl (MavRuntime ''unknown aircraft command''), sq)"
  by (simp add: build_aircraft_command_packets_def known_aircraft_action_def)

lemma unknown_execute:
  assumes "\<not> known_aircraft_action (py_lower (py_strip (cc_action cmd)))"
  shows "at_execute c now ms cmd s = (Inl (AtMav (MavRuntime ''unknown aircraft command'')), s\<lparr>at_mav_seq := at_mav_seq s\<rparr>)"
proof -
  have "py_lower (py_strip (cc_action cmd)) \<notin> set link_actions" using assms by (simp add: known_aircraft_action_def)
  then show ?thesis unfolding at_execute_def Let_def unknown_packets [OF assms] by simp
qed

lemma unknown_handled:
  assumes "asks_optical c i cmd"
    and "fst (aircraft_optical_state (gc_transport c) (xi_tick i) (xi_wall i) (ag_air s) (ag_gateway s)) = ''locked''"
    and "\<not> known_aircraft_action (py_lower (py_strip (cc_action cmd)))"
  shows "\<exists>a. handle_command c i cmd s = (Raised Escapes, s\<lparr>ag_air := a\<rparr>)"
proof -
  obtain a where o1: "aircraft_optical_state (gc_transport c) (xi_tick i) (xi_wall i) (ag_air s) (ag_gateway s) = (''locked'', a)"
    using assms(2) by (metis prod.collapse)
  have l: "py_lower (py_strip ''locked'') = ''locked''" by code_simp
  have r: "route (gc_router c) (xi_wall i) ''locked'' cmd = Inr (ToAircraft (cmd\<lparr>cc_target := ''aircraft''\<rparr>))"
    using assms(1) by (simp only: asks_optical_def route_def l simp_thms if_False if_True)
  have k: "\<not> known_aircraft_action (py_lower (py_strip (cc_action (cmd\<lparr>cc_target := ''aircraft''\<rparr>))))" using assms(3) by simp
  have "route_and_execute c i cmd s = exec_aircraft c i (cmd\<lparr>cc_target := ''aircraft''\<rparr>) (s\<lparr>ag_air := a\<rparr>)"
    using assms(1) by (simp only: route_and_execute_def if_True o1 prod.case Let_def r sum.case destination.case)
  then show ?thesis by (auto simp: handle_command_def exec_aircraft_def unknown_execute [OF k] aircraft_exc_def)
qed


subsection \<open>The gateway and the optical gate\<close>

lemma store_seen [simp]: "gw_seen (gateway_store now m g) = gw_seen g"
  by (simp add: gateway_store_def Let_def)

lemma store_all_seen [simp]: "gw_seen (fold (gateway_store now) ms g) = gw_seen g"
  by (induction ms arbitrary: g) simp_all

lemma datagram_seen: "gw_seen (snd (udp_worker_step port data remote now written g)) = now"
  by (simp add: udp_worker_step_def record_packet_def Let_def split: prod.splits)

text \<open>C40: Any datagram, of any sender and of any bytes, that reaches a gateway port lets aircraft commands through for three
  seconds: whatever the state of the aircraft's transport, a command that is neither too old nor too new is then handed to
  the aircraft.\<close>

theorem stray_datagram_opens_command_gate:
  assumes "asks_optical c i cmd" and "t \<noteq> 0" and "xi_wall i - t < 3"
  shows "\<exists>a. aircraft_optical_state (gc_transport c) (xi_tick i) (xi_wall i) air (snd (udp_worker_step port data remote t written g))
      = (''locked'', a)
    \<and> route (gc_router c) (xi_wall i) ''locked'' cmd = Inr (ToAircraft (cmd\<lparr>cc_target := ''aircraft''\<rparr>))"
proof -
  have l: "py_lower (py_strip ''locked'') = ''locked''" by code_simp
  have "gateway_active (xi_wall i) (snd (udp_worker_step port data remote t written g))"
    using assms(2,3) by (simp add: gateway_active_def datagram_seen)
  then have "\<exists>a. aircraft_optical_state (gc_transport c) (xi_tick i) (xi_wall i) air (snd (udp_worker_step port data remote t written g))
      = (''locked'', a)"
    by (simp add: aircraft_optical_state_def split: prod.splits)
  moreover have "route (gc_router c) (xi_wall i) ''locked'' cmd = Inr (ToAircraft (cmd\<lparr>cc_target := ''aircraft''\<rparr>))"
    using assms(1) by (simp only: asks_optical_def route_def l simp_thms if_False if_True)
  ultimately show ?thesis by blast
qed

subsection \<open>Runs of the whole agent\<close>

text \<open>
  The turns of the loop, the thread of the network, the local file, the threads of the gateway and of the missions, and the
  messages and acknowledgements the flight controller has ready.
\<close>

inductive agent_run :: "agent_config \<Rightarrow> rover_agent \<Rightarrow> bool" for c where
  agent_starts: "agent_run c (rover_agent_init air slave nav)"
| agent_turned: "agent_run c s \<Longrightarrow> agent_turn c i s = (r, s') \<Longrightarrow> agent_run c s'"
| agent_told: "agent_run c s \<Longrightarrow> receive_command fresh now payload s = (r, s') \<Longrightarrow> agent_run c s'"
| agent_told_locally: "agent_run c s \<Longrightarrow> agent_run c (consume_local ls s)"
| agent_overheard: "agent_run c s \<Longrightarrow> agent_run c (s\<lparr>ag_gateway := snd (udp_worker_step port data remote t written (ag_gateway s))\<rparr>)"
| agent_worker: "agent_run c s \<Longrightarrow> Some w \<in> {rw_take (ag_jobs s), rw_check (gc_worker c) t1 t2 (ag_jobs s),
    rw_begin (gc_worker c) (ag_jobs s), rw_report (gc_worker c) out (ag_jobs s), rw_release (gc_worker c) (ag_jobs s)} \<Longrightarrow>
    agent_run c (s\<lparr>ag_jobs := w\<rparr>)"
| agent_uploads: "agent_run c s \<Longrightarrow> run_mission_job (gc_rover c) k items post clk ins oks (ag_control s) = (x, rc) \<Longrightarrow>
    agent_run c (s\<lparr>ag_control := rc\<rparr>)"
| agent_supplied: "agent_run c s \<Longrightarrow>
    agent_run c (s\<lparr>ag_control := (ag_control s)\<lparr>ct_waits := ws, ct_acks := as, ct_sends_ok := oks\<rparr>\<rparr>)"

definition safe :: "'a agent_step \<Rightarrow> bool" where
  "safe m \<longleftrightarrow> (\<forall>s r s'. ct_inv (ag_control s) \<longrightarrow> m s = (r, s') \<longrightarrow> ct_inv (ag_control s'))"

lemma safeD: "safe m \<Longrightarrow> ct_inv (ag_control s) \<Longrightarrow> m s = (r, s') \<Longrightarrow> ct_inv (ag_control s')"
  unfolding safe_def by blast

lemma safe_bind:
  assumes "safe m" and "\<And>a. safe (g a)"
  shows "safe (bind_ag m g)"
  unfolding safe_def
proof (intro allI impI)
  fix s r s' assume i: "ct_inv (ag_control s)" and b: "bind_ag m g s = (r, s')"
  from b consider (on) a s1 where "m s = (Gives a, s1)" "g a s1 = (r, s')" | (off) x where "m s = (x, s')"
    by (auto simp: bind_ag_def split: prod.splits ares.splits)
  then show "ct_inv (ag_control s')"
    using safeD [OF assms(1) i] safeD [OF assms(2)] by cases blast+
qed

lemma safe_same: "(\<And>s r s'. m s = (r, s') \<Longrightarrow> ag_control s' = ag_control s) \<Longrightarrow> safe m"
  unfolding safe_def by metis

lemma safe_pair [simp]: "safe (Pair r)"
  by (simp add: safe_def)

lemma safe_lift: "holds m \<Longrightarrow> safe (ag_lift m)"
  unfolding safe_def ag_lift_def by (auto dest: holdsD split: prod.splits cres.splits)

lemma safe_connect: "safe (ag_connect k)"
  unfolding safe_def ag_connect_def by (auto dest: inv_connect split: prod.splits)

lemma safe_drive: "safe (exec_drive c i k)"
proof -
  have "ct_inv r" if "ct_inv (ag_control s)" "apply_command rc f inp k (ag_control (if b then on_tele h s else s)) = (x, r)"
    for s r rc f inp k b h x
    using that holdsD [OF holds_apply, of "ag_control s"] by (cases b) auto
  then show ?thesis
    unfolding safe_def exec_drive_def Let_def by (auto split: prod.splits cres.splits)
qed

lemma queue_control: "queue_mission c cid raw ts s = (r, s') \<Longrightarrow> ag_control s' = ag_control s"
  by (auto simp: queue_mission_def split: if_splits sum.splits prod.splits pyfloat.splits rover_exc.splits)

lemma mission_control: "exec_mission c cmd s = (r, s') \<Longrightarrow> ag_control s' = ag_control s"
  by (auto simp: exec_mission_def bind_ag_def dest: queue_control split: json.splits prod.splits ares.splits)

lemma safe_rover: "safe (exec_rover c i cmd)"
  unfolding exec_rover_def
  by (auto intro: safe_same mission_control safe_drive split: sum.splits)

lemma safe_execute: "safe (route_and_execute c i cmd)"
  unfolding safe_def
proof (intro allI impI)
  fix s r s' assume i: "ct_inv (ag_control s)" and e: "route_and_execute c i cmd s = (r, s')"
  consider (air) "cc_target cmd \<in> set aircraft_names" | (slave) "cc_target cmd = ''aircraft_2''" | (system) "cc_target cmd = ''system''"
    | (rover) "cc_target cmd \<notin> set (''aircraft_2'' # ''system'' # aircraft_names)" by auto
  then show "ct_inv (ag_control s')"
  proof cases
    case rover
    have n: "\<not> asks_optical c i cmd" by (rule not_asked) (use rover in auto)
    show ?thesis
    proof (cases "route (gc_router c) (xi_wall i) [] cmd")
      case (Inl x)
      then show ?thesis using e i by (simp add: no_optical [OF n])
    next
      case (Inr d)
      then show ?thesis using e route_target(4) [OF Inr rover] safeD [OF safe_rover i] by (simp add: no_optical [OF n])
    qed
  qed (use i aircraft_frame [OF _ e] slave_frame [OF _ e] system_frame [OF _ e] in auto)
qed

lemma safe_handle: "safe (handle_command c i cmd)"
  unfolding safe_def by (auto elim!: handle_cases dest: safeD [OF safe_execute])

lemma safe_serve: "safe (serve_pending c ins)"
proof (induction ins)
  case Nil
  then show ?case by (auto intro!: safe_same simp: serve_pending.simps split: list.splits)
next
  case (Cons x xs)
  have b: "safe (bind_ag (handle_command c x cmd) (\<lambda>_. serve_pending c xs))" for cmd
    by (intro safe_bind safe_handle Cons)
  show ?case unfolding safe_def
    by (subst serve_pending.simps) (auto dest: safeD [OF b, rotated] split: list.splits)
qed

lemma safe_tele_step: "safe (tele_step t m)"
proof (cases m)
  case (TmManager x)
  have "ct_inv r" if "ct_inv (ag_control s)" "ct_observe x (ag_control s) = (u, r)" for s u r
    using holdsD [OF holds_observe that] .
  moreover have p: "ag_control (publish_rover_status s) = ag_control s" for s
    by (simp add: publish_rover_status_def split: option.splits)
  ultimately show ?thesis unfolding TmManager safe_def tele_step_def ag_observe_def
    by (auto simp: p split: prod.splits cres.splits if_splits)
qed (auto simp: safe_def tele_step_def Let_def inv_observed)

lemma safe_tele_loop: "safe (tele_loop dl xs)"
proof (induction xs)
  case Nil
  then show ?case by (simp add: safe_def)
next
  case (Cons x xs)
  have b: "safe (bind_ag (tele_step t m) (\<lambda>_. tele_loop dl xs))" for t m
    by (intro safe_bind safe_tele_step Cons)
  show ?case
  proof (cases x)
    case (TeleMsg w t m)
    then show ?thesis using b [of t m] by (simp add: safe_def)
  next
    case (TeleNone w)
    then show ?thesis using Cons by (simp add: safe_def)
  qed (simp add: safe_def inv_close)
qed

lemma safe_update: "safe (update_telemetry free k w ins)"
  unfolding safe_def
proof (intro allI impI)
  fix s r s' assume i: "ct_inv (ag_control s)" and u: "update_telemetry free k w ins s = (r, s')"
  obtain b r1 where k: "ct_connect k (ag_control s) = (b, r1)" by (cases "ct_connect k (ag_control s)")
  have i1: "ct_inv r1" using inv_connect [OF i k] .
  let ?s = "on_tele (\<lambda>x. x\<lparr>sm_fc_link := True\<rparr>) (s\<lparr>ag_control := r1, ag_nav := (ag_nav s)\<lparr>nv_generation := int (ct_generation r1)\<rparr>\<rparr>)"
  show "ct_inv (ag_control s')"
  proof (cases "free \<and> b")
    case False
    then show ?thesis using u i i1 by (auto simp: update_telemetry_def k split: if_splits)
  next
    case True
    then have "tele_loop (w + 3 / 25) ins ?s = (r, s')" using u by (simp add: update_telemetry_def k)
    from safeD [OF safe_tele_loop _ this] i1 show ?thesis by simp
  qed
qed

lemma safe_neutral: "safe (keep_neutral i)"
proof -
  have "safe (bind_ag (ag_connect k) (\<lambda>b. if b then bind_ag (ag_lift (try_neutral f)) (\<lambda>_ s. (Gives (), s)) else (\<lambda>s. (Gives (), s))))"
    for k f
    by (intro safe_bind safe_connect) (simp add: safe_bind safe_lift)
  then show ?thesis unfolding safe_def keep_neutral_def by auto
qed

lemma safe_watchdog: "safe (watchdog i)"
proof -
  have "safe (bind_ag (ag_connect k) (\<lambda>b. bind_ag (if b then ag_lift (try_stop f) else (\<lambda>s. (Gives False, s))) (\<lambda>_ s. (Gives (), halted s))))"
    for k f
    by (intro safe_bind safe_connect) (auto intro: safe_lift safe_same simp: halted_def)
  then show ?thesis unfolding safe_def watchdog_def by auto
qed

lemma safe_turn: "safe (agent_turn c i)"
proof -
  have "safe (turn_body c i)"
    unfolding turn_body_def
    by (intro safe_bind safe_serve safe_neutral safe_watchdog safe_update safe_same) (auto dest: pump_control)
  then show ?thesis unfolding safe_def agent_turn_def by (auto split: prod.splits ares.splits)
qed

lemma start_inv: "ct_inv rover_control_init"
  by (simp add: ct_inv_def rover_control_init_def driven_in_manual_def)

lemma agent_run_inv: "agent_run c s \<Longrightarrow> ct_inv (ag_control s)"
proof (induction rule: agent_run.induct)
  case (agent_starts air slave nav)
  then show ?case by (simp add: rover_agent_init_def start_inv)
next
  case (agent_turned s i r s')
  then show ?case using safeD [OF safe_turn] by blast
next
  case (agent_told s fresh now payload r s')
  then show ?case by (auto simp: receive_command_def split: sum.splits)
next
  case (agent_uploads s k items post clk ins oks x rc)
  then show ?case using holdsD [OF holds_job] by simp
qed (simp_all add: consume_local_def)

text \<open>C35: Whatever reaches the agent from the cloud, the local file, the aircraft, the slave and the flight controller, in any
  order and with its threads interleaved: an RC override that moves the rover is only ever sent when the last mode the code
  confirmed or observed on this connection is MANUAL and no other mode was requested since.\<close>

theorem agent_drives_only_in_manual:
  assumes "agent_run c s"
  shows "driven_in_manual (ct_log (ag_control s))"
  using agent_run_inv [OF assms] by (simp add: ct_inv_def)

subsection \<open>Witnesses\<close>

definition agent_sample_config :: agent_config where
  "agent_sample_config = \<lparr>gc_port = 14560, gc_transport = plain_config, gc_slave = sample_transport_config, gc_rover = rover_sample_config,
     gc_worker = \<lparr>wc_max_pending = 4, wc_max_history = 64, wc_max_age = 10\<rparr>,
     gc_router = \<lparr>ro_has_slave = False, ro_has_system = True, ro_max_age = 10\<rparr>\<rparr>"

text \<open>The aircraft's socket is closed until the time 100\<close>

definition agent_sample :: rover_agent where
  "agent_sample = rover_agent_init (transport_sample\<lparr>at_open := False, at_reopen_at := 100\<rparr>) transport_init sample_nav"

definition agent_sample_exec :: "ct_found \<Rightarrow> exec_in" where
  "agent_sample_exec k = \<lparr>xi_wall = 1, xi_tick = 1, xi_ms = 0, xi_free = True, xi_apply = sample_input k, xi_slave_wall = JNull,
     xi_overflow = False, xi_written = True, xi_after = 1\<rparr>"

definition agent_sample_turn :: "exec_in list \<Rightarrow> real \<Rightarrow> turn_in" where
  "agent_sample_turn xs w = \<lparr>ti_commands = xs, ti_tick = 1, ti_arrivals = [], ti_observed = [], ti_slave_wall = JNull,
     ti_slave_events = [], ti_neutral = (Kept, True), ti_watch = w, ti_stop = (Kept, True), ti_free = False,
     ti_connect = Kept, ti_start = 1, ti_tele = []\<rparr>"

definition agent_sample_driving :: rover_agent where
  "agent_sample_driving = agent_sample\<lparr>ag_tele := (ag_tele agent_sample)\<lparr>sm_last_command := ''manual'', sm_throttle := 50\<rparr>,
     ag_until := 1\<rparr>"

definition agent_sample_command :: "string \<Rightarrow> string \<Rightarrow> cloud_command" where
  "agent_sample_command target action =
     \<lparr>cc_command_id = 5, cc_timestamp = Fin 1 0, cc_target = target, cc_action = action, cc_payload = []\<rparr>"

lemma dry_pump:
  assumes "ag_air s = ag_air agent_sample"
  shows "\<exists>f. pump_aircraft agent_sample_config (agent_sample_turn xs w) s = (Gives (), on_report f s)"
proof -
  have "pump plain_config 1 32 [] (ag_air agent_sample) = (Inr (), ag_air agent_sample)"
    by (simp add: pump_def ensure_socket_def agent_sample_def rover_agent_init_def)
  then have p: "pump_aircraft agent_sample_config (agent_sample_turn xs w) s = (Gives (),
      on_report (\<lambda>r. snd (apply_aircraft_transaction (at_transaction_state (ag_air agent_sample)) r))
        (s\<lparr>ag_air := ag_air agent_sample\<rparr>))"
    using assms by (simp add: pump_aircraft_def agent_sample_turn_def agent_sample_config_def)
  have "s\<lparr>ag_air := ag_air agent_sample\<rparr> = s" by (simp add: assms [symmetric])
  then show ?thesis using p by (simp only:) blast
qed

lemma dry_jobs:
  assumes "ag_jobs s = rover_worker_init"
  shows "report_missions c s = (Gives (), s)"
proof -
  have "rw_drain (gc_worker c) (rover_worker_init :: mission_data rover_worker) = ([], rover_worker_init)"
    by (simp add: rw_drain_def trimmed_def rover_worker_init_def trim_history.simps)
  then show ?thesis using assms by (simp add: report_missions_def on_report_def)
qed

theorem command_changes_its_target_only_witness:
  "ag_control (snd (handle_command agent_sample_config (agent_sample_exec Kept) (agent_sample_command ''system'' ''reboot'') agent_sample))
   = ag_control agent_sample"
  using command_changes_its_target_only [where c = agent_sample_config and i = "agent_sample_exec Kept"
      and cmd = "agent_sample_command ''system'' ''reboot''" and s = agent_sample, OF surjective_pairing]
  by (simp add: agent_sample_command_def)


theorem aircraft_command_disarms_watchdog_witness:
  "\<exists>s1. handle_command agent_sample_config (agent_sample_exec Kept) ((agent_sample_command ''aircraft'' ''land'')\<lparr>cc_timestamp := Fin (- 60) 0\<rparr>)
       agent_sample_driving = (Gives (), s1)
     \<and> (\<forall>is. sm_throttle (ag_tele (agent_turns agent_sample_config is s1)) = 50)"
proof -
  let ?k = "(agent_sample_command ''aircraft'' ''land'')\<lparr>cc_timestamp := Fin (- 60) 0\<rparr>"
  have o1: "too_old (ro_max_age (gc_router agent_sample_config)) (xi_wall (agent_sample_exec Kept)) (cc_timestamp ?k)"
    by (simp add: too_old_def agent_sample_config_def agent_sample_exec_def agent_sample_command_def dec_val_def)
  then have "\<not> asks_optical agent_sample_config (agent_sample_exec Kept) ?k"
    and "\<exists>e. route (gc_router agent_sample_config) (xi_wall (agent_sample_exec Kept)) [] ?k = Inl e"
    by (simp_all add: asks_optical_def route_def)
  then obtain s1 where h: "handle_command agent_sample_config (agent_sample_exec Kept) ?k agent_sample_driving = (Gives (), s1)"
    by (auto simp: handle_command_def no_optical)
  have "cc_target ?k \<in> {''aircraft'', ''aircraft_1''}" and "ag_pending agent_sample_driving = []"
    and "sm_throttle (ag_tele agent_sample_driving) = 50"
    by (simp_all add: agent_sample_command_def agent_sample_driving_def agent_sample_def rover_agent_init_def)
  then show ?thesis using aircraft_command_disarms_watchdog [OF _ _ h] h by auto
qed

text \<open>The state in which the gateway heard a datagram at the time 1\<close>

lemma sample_asks: "cc_target k \<in> {''aircraft'', ''aircraft_1''} \<Longrightarrow> cc_timestamp k = Fin 1 0 \<Longrightarrow>
    asks_optical agent_sample_config (agent_sample_exec Kept) k"
  by (simp add: asks_optical_def too_old_def too_new_def agent_sample_config_def agent_sample_exec_def dec_val_def)

theorem stray_datagram_opens_command_gate_witness:
  "\<exists>a. aircraft_optical_state plain_config 1 1 transport_sample
       (snd (udp_worker_step 14550 [7] (''6.6.6.6'', 1) 1 True aircraft_gateway_init)) = (''locked'', a)"
  using stray_datagram_opens_command_gate [OF sample_asks, of "agent_sample_command ''aircraft'' ''arm''" 1]
  by (simp add: agent_sample_command_def agent_sample_exec_def agent_sample_config_def)


lemma sample_line: "local_command (5, Fin 1 0, ''{\"action\":\"manual\",\"steering\":20}'') = Some \<lparr>cc_command_id = 5, cc_timestamp = Fin 1 0,
    cc_target = ''rover'', cc_action = ''manual'', cc_payload = [(''steering'', JInt 20)]\<rparr>"
  by code_simp

lemma sample_dict: "\<exists>k. command_of_dict ''command_router'' (dict_update [(''command'', JStr ''manual'')] [(''steering'', JInt 20)]) = Inr k
   \<and> ru_command k = ''manual'' \<and> ru_steering k = 20 \<and> ru_throttle k = 0"
proof -
  have n: "norm_dec 20 0 = Fin 2 1" by code_simp
  have l: "py_lower ''manual'' = ''manual''" "py_lower (py_str (or_text (JStr ''standby'') ''standby'')) = ''standby''" by code_simp+
  have st: "starts_with ''aircraft_'' ''manual'' = False" by code_simp
  show ?thesis
    by (simp add: command_of_dict_def text_or_def dict_update_def get_or_def has_def fld_def or_text_def float_or_def Let_def router_float_def n l st
    pf_clamp_def pf_trunc_def dec_val_def trunc_def)
qed
theorem agent_drives_only_in_manual_witness:
  "\<exists>s. agent_run agent_sample_config s \<and> driven_in_manual (ct_log (ag_control s)) \<and> (\<exists>e\<in>set (ct_log (ag_control s)). drives e)"
proof -
  let ?k = "Connected 0 1 [''MANUAL''] default_limits"
  let ?cmd = "\<lparr>cc_command_id = 5, cc_timestamp = Fin 1 0, cc_target = ''rover'', cc_action = ''manual'', cc_payload = [(''steering'', JInt 20)]\<rparr>"
  let ?line = "(5, Fin 1 0, ''{\"action\":\"manual\",\"steering\":20}'')"
  define s0 where "s0 = agent_sample\<lparr>ag_control := waiting_control\<rparr>"
  have "agent_run agent_sample_config agent_sample" unfolding agent_sample_def by (rule agent_run.agent_starts)
  from agent_run.agent_supplied [OF this, where ws = "[Heartbeat 0 0 ''MANUAL'']" and as = "[]" and oks = "[]"] have "agent_run agent_sample_config s0"
    by (simp add: s0_def waiting_control_def agent_sample_def rover_agent_init_def)
  from agent_run.agent_told_locally [OF this, of "[?line]"]
  have r1: "agent_run agent_sample_config (s0\<lparr>ag_pending := [?cmd]\<rparr>)"
    by (simp add: consume_local_def map_filter_simps sample_line s0_def agent_sample_def rover_agent_init_def)
  obtain k where k: "command_of_dict ''command_router'' (dict_update [(''command'', JStr ''manual'')] [(''steering'', JInt 20)]) = Inr k"
    "ru_command k = ''manual''" "ru_steering k = 20" "ru_throttle k = 0" using sample_dict by blast
  obtain rc where a: "apply_command rover_sample_config True (sample_input ?k) k waiting_control
      = (Returns (True, ''manual control sent''), rc)" and d: "\<exists>e\<in>set (ct_log rc). drives e" using sample_drive [OF k(2-4)] by blast
  let ?x = "agent_sample_exec ?k"
  have n: "(sample_input ?k)\<lparr>ai_nav := sample_nav\<rparr> = sample_input ?k" by (simp add: sample_input_def)
  have "\<exists>r s'. exec_drive agent_sample_config ?x k s0 = (Gives r, s') \<and> ag_control s' = rc \<and> ag_pending s' = []
      \<and> ag_air s' = ag_air agent_sample \<and> ag_jobs s' = rover_worker_init \<and> sm_steering (ag_tele s') = 20 \<and> xr_ok r \<and> xr_command r = Some k"
    using a k(3) by (simp add: exec_drive_def agent_sample_exec_def agent_sample_config_def s0_def agent_sample_def rover_agent_init_def n
        on_tele_def note_command_def note_mode_def k(2))
  then obtain r s' where x: "exec_drive agent_sample_config ?x k s0 = (Gives r, s')" "ag_control s' = rc" "ag_pending s' = []"
    "ag_air s' = ag_air agent_sample" "ag_jobs s' = rover_worker_init" "sm_steering (ag_tele s') = 20" "xr_ok r" "xr_command r = Some k" by blast
  have e: "exec_rover agent_sample_config ?x ?cmd = exec_drive agent_sample_config ?x k" using k(1) by (simp add: exec_rover_def)
  have rt: "route (gc_router agent_sample_config) (xi_wall ?x) [] ?cmd = Inr (ToRover ?cmd)"
    by (simp add: route_def too_old_def too_new_def agent_sample_config_def agent_sample_exec_def dec_val_def)
  have o1: "\<not> asks_optical agent_sample_config ?x ?cmd" by (simp add: asks_optical_def)
  have "handle_command agent_sample_config ?x ?cmd s0 = (Gives (), finish_command ?x ?cmd r s')"
    by (simp only: handle_command_def no_optical [OF o1] rt sum.case destination.case e x(1) prod.case ares.case)
  moreover have "s0\<lparr>ag_pending := []\<rparr> = s0" by (simp add: s0_def agent_sample_def rover_agent_init_def)
  ultimately have "serve_pending agent_sample_config [?x] (s0\<lparr>ag_pending := [?cmd]\<rparr>)
      = serve_pending agent_sample_config [] (finish_command ?x ?cmd r s')"
    by (subst serve_pending.simps) (simp add: bind_ag_def)
  then have sv: "serve_pending agent_sample_config [?x] (s0\<lparr>ag_pending := [?cmd]\<rparr>) = (Gives (), finish_command ?x ?cmd r s')"
    using x(3) by (simp add: serve_pending.simps)
  let ?t = "finish_command ?x ?cmd r s'"
  have t: "driving ?t" "ag_until ?t = 14 / 5"
    using x(6-8) k by (simp_all add: driving_def finish_command_def last_command_of_def manual_deadline_def manual_names_def on_tele_def
        on_report_def agent_sample_exec_def Let_def)
  obtain f where p: "pump_aircraft agent_sample_config (agent_sample_turn [?x] 0) ?t = (Gives (), on_report f ?t)"
    using dry_pump [of ?t] x(4) by auto
  let ?u = "on_report f ?t"
  have u: "driving ?u" "ag_until ?u = 14 / 5" using t by (simp_all add: driving_def)
  have w: "pump_slave_step agent_sample_config (agent_sample_turn [?x] 0) ?u = (Gives (), ?u)"
      "report_missions agent_sample_config ?u = (Gives (), ?u)" "watchdog (agent_sample_turn [?x] 0) ?u = (Gives (), ?u)"
    using x(5) u by (simp_all add: pump_slave_step_def agent_sample_config_def dry_jobs watchdog_def agent_sample_turn_def)
  have c: "ti_commands (agent_sample_turn [?x] 0) = [?x]" "\<not> ti_free (agent_sample_turn [?x] 0)" by (simp_all add: agent_sample_turn_def)
  have "\<exists>g. turn_body agent_sample_config (agent_sample_turn [?x] 0) (s0\<lparr>ag_pending := [?cmd]\<rparr>) = (Gives (), on_report g ?u)"
    unfolding turn_body_def bind_ag_def c(1) sv prod.case ares.case p w keep_neutral_driving [OF u(1)]
    by (auto simp: update_telemetry_def c(2))
  then obtain g where "agent_turn agent_sample_config (agent_sample_turn [?x] 0) (s0\<lparr>ag_pending := [?cmd]\<rparr>) = (Gives True, on_report g ?u)"
    by (auto simp: agent_turn_def)
  from agent_run.agent_turned [OF r1 this] have r2: "agent_run agent_sample_config (on_report g ?u)" .
  have "\<exists>e\<in>set (ct_log (ag_control (on_report g ?u))). drives e" using d x(2) by simp
  with agent_drives_only_in_manual [OF r2] r2 show ?thesis by blast
qed

end
