(* ===== verification/Spec2Isabelle.thy ===== *)
theory Spec2Isabelle
  imports FrameRoundtrip AuthStream TransportProps MavExt NodeRoundtrip CommandWorker MissionProps LinkProps
    Follow RetryProps SlaveState SlaveLinkProps VisionProps AircraftLinkProps RoverWorkerProps RoverMissionProps
    MavCommandsProps CommandRouterProps AircraftTransportProps RoverControlProps RoverReportProps RoverAgentProps
begin

text \<open>
  A verification development for the low-altitude IoT system: a rover with an RDK board, a first aircraft
  reached through an optical and serial link, a second (slave) aircraft reached over UDP, and the
  protocols between them. All file names are under \<open>src/\<close>.

  \<^bold>\<open>Foundations.\<close> \<open>Prelude\<close> holds byte order, last-n deques and the shared hints; \<open>PyValue\<close> the values of
  Python that cross the wire (\<open>json\<close>: unbounded integers, decimal floats with NaN and infinities, texts,
  ordered dictionaries) and its exceptions as values; \<open>Hashes\<close> SHA-256, HMAC and CRC-32 on words;
  \<open>PyJson\<close> and \<open>JsonRoundtrip\<close> the JSON printer and parser as the standard library has them;
  \<open>PyUuid\<close> the texts \<open>uuid.UUID\<close> reads and prints.

  \<^bold>\<open>Shared protocol\<close> (\<open>shared_protocol/\<close>). \<open>Messages\<close>: \<open>messages.py\<close>; \<open>Frame\<close> and \<open>FrameRoundtrip\<close>:
  \<open>frame.py\<close>, the frame codec and its resynchronising decoder; \<open>Auth\<close>, \<open>AuthProps\<close>, \<open>AuthSession\<close>,
  \<open>StreamDecoder\<close>, \<open>AuthStream\<close>: \<open>auth.py\<close>, sealing, the replay window against its specification as a set, the
  persistent counter, the stream splitter; \<open>Transport\<close>, \<open>TransportProps\<close>: \<open>transport.py\<close>, the retrying sender
  and the mission receiver; \<open>MavExt\<close>: \<open>mavlink_extension.py\<close> and the two MAVLink stream parsers;
  \<open>NodeMessages\<close>, \<open>NodeRoundtrip\<close>: \<open>node_messages.py\<close>.

  \<^bold>\<open>First aircraft\<close> (\<open>aircraft_agent/\<close>). \<open>Inbox\<close>, \<open>InboxProps\<close>: \<open>state_store.py\<close> as a sequence of crash points
  and \<open>inbox.py\<close>; \<open>CommandWorker\<close>: \<open>command_worker.py\<close>; \<open>MissionWorker\<close>, \<open>MissionProps\<close>: \<open>telemetry.py\<close>,
  \<open>mission_worker.py\<close> and the message filter of \<open>mavlink_session.py\<close>; \<open>LinkServer\<close>, \<open>LinkProps\<close>:
  \<open>optical_gate.py\<close> and \<open>link_server.py\<close>.

  \<^bold>\<open>Second aircraft\<close> (\<open>slave_agent/\<close>). \<open>CommandQueue\<close>, \<open>QueueProps\<close>: \<open>command_queue.py\<close> over the same inbox;
  \<open>SlaveState\<close>: \<open>state.py\<close> and \<open>VerifiedOperations\<close>; \<open>SlaveLink\<close>, \<open>SlaveLinkProps\<close>: \<open>link.py\<close>;
  \<open>Follow\<close>: the follow target from \<open>aircraft_agent/follow_target.py\<close> over \<open>rdk_agent/follow_relay.py\<close> to
  \<open>follow_receiver.py\<close>.

  \<^bold>\<open>Rover\<close> (\<open>rdk_agent/\<close>). \<open>CommandRouter\<close>, \<open>CommandRouterProps\<close>: \<open>command_router.py\<close>, from a cloud message to
  the executor of one vehicle; \<open>SlaveTransport\<close>, \<open>SlaveTransportProps\<close>, \<open>RetryProps\<close>: \<open>slave_transport.py\<close>, the
  last of them composed with the slave's queue; \<open>AircraftLink\<close>, \<open>AircraftLinkProps\<close>: \<open>aircraft_link.py\<close>;
  \<open>AircraftTransport\<close>, \<open>AircraftTransportProps\<close>: \<open>aircraft_transport.py\<close>, the socket under that link;
  \<open>MavCommands\<close>, \<open>MavCommandsProps\<close>: the MAVLink packets of \<open>aircraft_commands.py\<close> and the parsers of the
  answers; \<open>RoverWorker\<close>, \<open>RoverWorkerProps\<close> and \<open>RoverMission\<close>, \<open>RoverMissionProps\<close>: the mission thread and the
  mission manager of \<open>rover_mission.py\<close>; \<open>RoverState\<close>, \<open>RoverReport\<close>, \<open>RoverReportProps\<close>: \<open>rover_state.py\<close>,
  the commands of the rover and its reports, trimmed to the data points of the cloud; \<open>RoverControl\<close>,
  \<open>RoverControlProps\<close>: the owner of the rover's flight controller, \<open>mavlink_rover.py\<close>, over that manager;
  \<open>AircraftGateway\<close>: \<open>aircraft_gateway.py\<close>; \<open>RoverAgent\<close>, \<open>RoverAgentProps\<close>: the main loop of
  \<open>tuya_rover_agent.py\<close>, which composes the router, the transports, the mission worker and the flight controller, with
  \<open>network_mode.py\<close>, \<open>update_telemetry\<close> and the reading of mission items.

  \<^bold>\<open>Vision\<close> (\<open>vision/\<close>). \<open>Vision\<close>, \<open>VisionProps\<close>: the optical lock, geometry, the tracker, precision landing and
  the mode gate; floats are real numbers there, and the detection of a frame is an input.

  \<^bold>\<open>How the program is modelled.\<close> An object is a record, its attributes the fields; a method is a function
  of the state that returns the result and the new state; an exception is a value of a sum type, and the
  state beside it is the one the exception leaves behind. Dictionaries whose order matters are
  association lists in insertion order. Clocks, sockets, files that fail, messages of the flight
  controller and fresh identifiers are arguments, so that a theorem about all arguments is one about
  every environment. Threads are interleavings of the steps that hold the lock (\<open>link_run\<close>,
  \<open>al_reach\<close>, \<open>rw_run\<close>, \<open>agent_run\<close>). JSON floats on the wire are exact decimals; \<open>struct\<close> integers wrap at their width.

  \<^bold>\<open>What the theorems show.\<close> Round trips of every codec; resynchronisation and bounded buffers of the
  stream decoders; authentication, freshness and durability of the counter of the sealed link;
  durability of an acknowledged command and FIFO execution of the queue through crashes; the path from
  the serial line to the inbox is guarded by the optical gate; a mission reported verified was read
  back, a failed one was cleared or is reported unsafe; commands and missions end at the rover, and no
  outcome is lost on the way back; one transaction at a time on the aircraft link, and nothing
  of it on a blocked link; a command changes the one component it names; the rover is set to AUTO
  only for a mission that was read back, and in every run of the whole agent it is driven only in a confirmed MANUAL
  mode; a watchdog ends manual driving, unless another command disarmed it; corrections and landing targets only under the conditions the
  vision configuration states. Several theorems show
  behaviour that is not what the code means to do.

  \<^bold>\<open>Bounds and fuel.\<close> The decoders recurse on a measure of their buffer; loops that wait for
  the flight controller are bounded by the messages and deadlines that are their input, and by the
  retry budgets of the code.

  \<^bold>\<open>Not modelled.\<close> Entry points that wire objects to threads, serial ports and files (\<open>main.py\<close>, \<open>runtime.py\<close>,
  \<open>uav_tuya_agent.py\<close>, \<open>tuya_auth.py\<close>, \<open>ground_station_server.py\<close>, \<open>l610.py\<close>); of \<open>tuya_rover_agent.py\<close> the
  configuration, MQTT, the state file, the modem's signal strength and the report at the end of a turn; of
  \<open>aircraft_gateway.py\<close> the texts of messages, which format floats, and the state file; of \<open>mavlink_rover.py\<close> the reading
  of parameters and the search for a port; of \<open>aircraft_commands.py\<close> the sending and waiting on sockets; of
  \<open>aircraft_transport.py\<close> the diagnostics of \<open>status\<close> and the texts of exceptions; the image processing of
  \<open>detector.py\<close> (OpenCV); the retired code under \<open>legacy/\<close>, the installation tools under \<open>ops/\<close>, the web client.
\<close>

end
